(* ===== verification/Prelude.thy ===== *)
theory Prelude
  imports Complex_Main "HOL-Library.AList" "HOL-Library.Sublist"
begin

text \<open>
  The part of the JavaScript language that the modelled TypeScript uses: numbers, strings,
  dynamic values and objects, and the generic facts about them that the component theories share.

  Numbers are exact rationals with the three special values of IEEE 754 (\<open>NaN\<close> and the
  infinities); rounding of doubles is not modelled.  Strings are the bytes of their UTF-8 encoding,
  which agrees with JavaScript on equality, concatenation, \<open>includes\<close>, \<open>startsWith\<close> and
  \<open>endsWith\<close>; case conversion and white space are those of ASCII.  An object is the list of its
  own fields in insertion order.
\<close>

named_theorems js_simps \<open>field access after field update, truthiness, nullish defaults\<close>
named_theorems store_defs \<open>definitions of the operations of the stores\<close>

subsection \<open>Numbers\<close>

datatype jsnum = Fin rat | PInf | MInf | NaN

fun num_finite :: "jsnum \<Rightarrow> bool" where
  "num_finite (Fin _) = True"
| "num_finite _ = False"

text \<open>Strict equality of numbers: \<open>NaN\<close> differs from itself.\<close>

definition num_eq :: "jsnum \<Rightarrow> jsnum \<Rightarrow> bool" where
  "num_eq a b \<longleftrightarrow> a = b \<and> a \<noteq> NaN"

instantiation jsnum :: ord
begin

fun less_eq_jsnum :: "jsnum \<Rightarrow> jsnum \<Rightarrow> bool" where
  "less_eq_jsnum NaN _ = False"
| "less_eq_jsnum _ NaN = False"
| "less_eq_jsnum MInf _ = True"
| "less_eq_jsnum _ PInf = True"
| "less_eq_jsnum (Fin a) (Fin b) = (a \<le> b)"
| "less_eq_jsnum _ _ = False"

definition less_jsnum :: "jsnum \<Rightarrow> jsnum \<Rightarrow> bool" where
  "less_jsnum a b \<longleftrightarrow> a \<le> b \<and> a \<noteq> b"

instance ..

end

lemma num_less_Fin [simp]: "(Fin a < Fin b) = (a < b)"
  by (auto simp: less_jsnum_def)

lemma num_less_NaN [simp]: "\<not> (NaN < x)" "\<not> (x < NaN)"
  by (cases x; simp add: less_jsnum_def)+

lemma num_eq_Fin [simp]: "num_eq (Fin a) (Fin b) = (a = b)"
  by (simp add: num_eq_def)

lemma num_eq_refl: "num_finite a \<Longrightarrow> num_eq a a"
  by (cases a) (auto simp: num_eq_def)

lemma num_eqD: "num_eq a b \<Longrightarrow> a = b"
  by (simp add: num_eq_def)

subsection \<open>Strings\<close>

definition js_ws :: "char \<Rightarrow> bool" where
  "js_ws c \<longleftrightarrow> c \<in> {CHR '' '', CHR 0x09, CHR 0x0A, CHR 0x0B, CHR 0x0C, CHR 0x0D}"

definition js_trim :: "string \<Rightarrow> string" where
  "js_trim s = rev (dropWhile js_ws (rev (dropWhile js_ws s)))"

definition is_lower :: "char \<Rightarrow> bool" where
  "is_lower c \<longleftrightarrow> 97 \<le> (of_char c :: nat) \<and> (of_char c :: nat) \<le> 122"

definition is_upper :: "char \<Rightarrow> bool" where
  "is_upper c \<longleftrightarrow> 65 \<le> (of_char c :: nat) \<and> (of_char c :: nat) \<le> 90"

definition is_digit :: "char \<Rightarrow> bool" where
  "is_digit c \<longleftrightarrow> 48 \<le> (of_char c :: nat) \<and> (of_char c :: nat) \<le> 57"

definition upper_char :: "char \<Rightarrow> char" where
  "upper_char c = (if is_lower c then char_of (of_char c - 32 :: nat) else c)"

definition lower_char :: "char \<Rightarrow> char" where
  "lower_char c = (if is_upper c then char_of (of_char c + 32 :: nat) else c)"

definition js_lower :: "string \<Rightarrow> string" where
  "js_lower s = List.map lower_char s"

definition js_upper :: "string \<Rightarrow> string" where
  "js_upper s = List.map upper_char s"

fun js_includes :: "string \<Rightarrow> string \<Rightarrow> bool" where
  "js_includes [] p = (p = [])"
| "js_includes (c # s) p = (prefix p (c # s) \<or> js_includes s p)"

definition js_starts :: "string \<Rightarrow> string \<Rightarrow> bool" where
  "js_starts s p = prefix p s"

text \<open>\<open>s.replace(p, r)\<close> with a string pattern replaces the first occurrence only.\<close>

fun js_replace1 :: "string \<Rightarrow> string \<Rightarrow> string \<Rightarrow> string" where
  "js_replace1 [] p r = (if p = [] then r else [])"
| "js_replace1 (c # s) p r =
     (if prefix p (c # s) then r @ drop (length p) (c # s) else c # js_replace1 s p r)"

fun js_join :: "string \<Rightarrow> string list \<Rightarrow> string" where
  "js_join sep [] = []"
| "js_join sep [x] = x"
| "js_join sep (x # xs) = x @ sep @ js_join sep xs"

abbreviation newline :: string where
  "newline \<equiv> [CHR 0x0A]"

lemma js_includes_sublist: "js_includes s p \<longleftrightarrow> sublist p s"
proof (induction s)
  case Nil
  then show ?case by simp
next
  case (Cons c s)
  then show ?case by (auto simp: sublist_Cons_right)
qed

lemma js_starts_includes: "js_starts s p \<Longrightarrow> js_includes s p"
  by (simp add: js_starts_def js_includes_sublist prefix_imp_sublist)

lemma js_includes_mono: "js_includes s p \<Longrightarrow> js_includes (a @ s @ b) p"
  unfolding js_includes_sublist by (simp add: sublist_appendI sublist_order.order_trans)

lemma js_replace1_absent: "\<not> js_includes s p \<Longrightarrow> js_replace1 s p r = s"
  by (induction s) auto

lemma upper_not_lower [simp]: "\<not> is_lower (upper_char c)"
  by (auto simp: upper_char_def is_lower_def)

lemma is_lower_upper_disjoint: "is_lower c \<Longrightarrow> \<not> is_upper c"
  by (simp add: is_lower_def is_upper_def)

lemma upper_char_is_upper: "is_lower c \<Longrightarrow> is_upper (upper_char c)"
  by (auto simp: upper_char_def is_lower_def is_upper_def)

lemma lower_char_is_lower: "is_upper c \<Longrightarrow> is_lower (lower_char c)"
  by (auto simp: lower_char_def is_lower_def is_upper_def)

lemma upper_lower_char: "is_upper c \<Longrightarrow> upper_char (lower_char c) = c"
  by (auto simp: lower_char_def upper_char_def is_lower_def is_upper_def)

lemma lower_upper_char: "is_lower c \<Longrightarrow> lower_char (upper_char c) = c"
  by (auto simp: lower_char_def upper_char_def is_lower_def is_upper_def)

lemma lower_char_idem [simp]: "lower_char (lower_char c) = lower_char c"
  by (auto simp: lower_char_def is_upper_def)

lemma js_lower_idem [simp]: "js_lower (js_lower s) = js_lower s"
  by (simp add: js_lower_def)

lemma js_upper_no_lower: "c \<in> set (js_upper s) \<Longrightarrow> \<not> is_lower c"
  by (auto simp: js_upper_def)

lemma js_trim_Nil [simp]: "js_trim [] = []"
  by (simp add: js_trim_def)

lemma dropWhile_idem_rev:
  "dropWhile P (rev (dropWhile P (rev (dropWhile P s)))) = rev (dropWhile P (rev (dropWhile P s)))"
proof (cases "rev (dropWhile P (rev (dropWhile P s)))")
  case Nil
  show ?thesis unfolding Nil by simp
next
  case (Cons c t)
  let ?d = "dropWhile P s"
  obtain q where q: "rev ?d = takeWhile P (rev ?d) @ dropWhile P (rev ?d)"
    by simp
  have split: "?d = rev (dropWhile P (rev ?d)) @ rev (takeWhile P (rev ?d))"
    by (metis q rev_append rev_rev_ident)
  with Cons have "?d = c # (t @ rev (takeWhile P (rev ?d)))"
    by simp
  then have "\<not> P c"
    by (metis hd_dropWhile list.distinct(1) list.sel(1))
  with Cons show ?thesis by simp
qed

lemma js_trim_idem [simp]: "js_trim (js_trim s) = js_trim s"
  by (simp add: js_trim_def dropWhile_idem_rev)

subsection \<open>Dynamic values and objects\<close>

datatype jv =
    JUndef
  | JNull
  | JBool bool
  | JNum jsnum
  | JBig int
  | JStr string
  | JArr "jv list"
  | JObj "(string \<times> jv) list"

fun truthy :: "jv \<Rightarrow> bool" where
  "truthy JUndef = False"
| "truthy JNull = False"
| "truthy (JBool b) = b"
| "truthy (JNum n) = (n \<noteq> Fin 0 \<and> n \<noteq> NaN)"
| "truthy (JBig i) = (i \<noteq> 0)"
| "truthy (JStr s) = (s \<noteq> [])"
| "truthy (JArr _) = True"
| "truthy (JObj _) = True"

text \<open>\<open>a || b\<close> and \<open>a ?? b\<close>.\<close>

definition js_or :: "jv \<Rightarrow> jv \<Rightarrow> jv" where
  "js_or a b = (if truthy a then a else b)"

fun nullish :: "jv \<Rightarrow> bool" where
  "nullish JUndef = True"
| "nullish JNull = True"
| "nullish _ = False"

definition js_coalesce :: "jv \<Rightarrow> jv \<Rightarrow> jv" where
  "js_coalesce a b = (if nullish a then b else a)"

text \<open>
  Field read (\<open>o.k\<close> of an object, \<open>o?.k\<close> of anything), field write on a fresh copy
  (\<open>{...o, k: v}\<close>) and spread (\<open>{...a, ...b}\<close>).
\<close>

fun jfields :: "jv \<Rightarrow> (string \<times> jv) list" where
  "jfields (JObj fs) = fs"
| "jfields _ = []"

definition jget :: "string \<Rightarrow> jv \<Rightarrow> jv" where
  "jget k v = (case map_of (jfields v) k of None \<Rightarrow> JUndef | Some x \<Rightarrow> x)"

definition jset :: "string \<Rightarrow> jv \<Rightarrow> jv \<Rightarrow> jv" where
  "jset k x v = JObj (AList.update k x (jfields v))"

definition jspread :: "jv \<Rightarrow> jv \<Rightarrow> jv" where
  "jspread a b = JObj (AList.updates (List.map fst (jfields b)) (List.map snd (jfields b)) (jfields a))"

text \<open>\<open>x === y\<close> where one side is a string or a number, as every comparison of the models is.\<close>

fun js_strict_eq :: "jv \<Rightarrow> jv \<Rightarrow> bool" where
  "js_strict_eq (JNum a) (JNum b) = num_eq a b"
| "js_strict_eq (JArr _) _ = False"
| "js_strict_eq (JObj _) _ = False"
| "js_strict_eq a b = (a = b)"

lemma jget_jset [simp, js_simps]: "jget k (jset k' x v) = (if k = k' then x else jget k v)"
  by (simp add: jget_def jset_def update_conv')

lemma jfields_jset [simp]: "jfields (jset k x v) = AList.update k x (jfields v)"
  by (simp add: jset_def)

lemma map_of_updates_zip:
  "map_of (AList.updates ks vs fs) k =
     (case map_of (rev (zip ks vs)) k of None \<Rightarrow> map_of fs k | Some x \<Rightarrow> Some x)"
proof (induction ks vs arbitrary: fs rule: list_induct2')
  case (4 a ks v vs)
  then show ?case
    by (auto simp: update_conv' map_add_def split: option.splits)
qed auto

lemma map_of_rev_distinct:
  assumes "distinct (List.map fst xs)"
  shows "map_of (rev xs) = map_of xs"
proof
  fix k
  have d: "distinct (List.map fst (rev xs))"
    using assms by (simp add: rev_map [symmetric])
  show "map_of (rev xs) k = map_of xs k"
  proof (cases "map_of xs k")
    case None
    then have "k \<notin> fst ` set (rev xs)" by (simp add: map_of_eq_None_iff)
    then have "map_of (rev xs) k = None" unfolding map_of_eq_None_iff .
    with None show ?thesis by simp
  next
    case (Some v)
    then have "(k, v) \<in> set (rev xs)" by (simp add: map_of_SomeD)
    with d Some show ?thesis by simp
  qed
qed

lemma jget_jspread [js_simps]:
  assumes "distinct (List.map fst (jfields b))"
  shows "jget k (jspread a b) = (if k \<in> fst ` set (jfields b) then jget k b else jget k a)"
proof -
  have z: "zip (List.map fst (jfields b)) (List.map snd (jfields b)) = jfields b"
    by (simp add: zip_map_fst_snd)
  have r: "map_of (rev (jfields b)) = map_of (jfields b)"
    using assms by (rule map_of_rev_distinct)
  show ?thesis
  proof (cases "map_of (jfields b) k")
    case None
    then have "k \<notin> fst ` set (jfields b)" by (simp add: map_of_eq_None_iff)
    with None show ?thesis by (simp add: jget_def jspread_def map_of_updates_zip z r)
  next
    case (Some v)
    then have "k \<in> fst ` set (jfields b)" by (force dest: map_of_SomeD)
    with Some show ?thesis by (simp add: jget_def jspread_def map_of_updates_zip z r)
  qed
qed

lemma truthy_simps [js_simps]:
  "truthy (JStr s) \<longleftrightarrow> s \<noteq> []" "\<not> truthy JUndef" "\<not> truthy JNull" "truthy (JBool b) \<longleftrightarrow> b"
  by simp_all

lemma js_strict_eq_str [simp, js_simps]:
  "js_strict_eq v (JStr s) \<longleftrightarrow> v = JStr s" "js_strict_eq (JStr s) v \<longleftrightarrow> JStr s = v"
  by (cases v; simp)+

subsection \<open>Lists: in-place update and folds\<close>

definition update_where :: "('a \<Rightarrow> bool) \<Rightarrow> ('a \<Rightarrow> 'a) \<Rightarrow> 'a list \<Rightarrow> 'a list" where
  "update_where P f xs = List.map (\<lambda>x. if P x then f x else x) xs"

lemma length_update_where [simp]: "length (update_where P f xs) = length xs"
  by (simp add: update_where_def)

lemma update_where_absent: "\<forall>x \<in> set xs. \<not> P x \<Longrightarrow> update_where P f xs = xs"
  by (simp add: update_where_def map_idI)

lemma map_update_where:
  "(\<And>x. P x \<Longrightarrow> g (f x) = g x) \<Longrightarrow> List.map g (update_where P f xs) = List.map g xs"
  by (simp add: update_where_def)

lemma set_update_where:
  "set (update_where P f xs) = f ` {x \<in> set xs. P x} \<union> {x \<in> set xs. \<not> P x}"
  by (auto simp: update_where_def)

subsection \<open>Runs of deterministic machines\<close>

text \<open>
  Every store is a state and a step function over its actions.  What the components share is the
  induction over a run: an invariant that each step keeps is kept by every run.
\<close>

definition run :: "('s \<Rightarrow> 'e \<Rightarrow> 's) \<Rightarrow> 's \<Rightarrow> 'e list \<Rightarrow> 's" where
  "run step s es = foldl step s es"

lemma run_Nil [simp]: "run step s [] = s"
  by (simp add: run_def)

lemma run_Cons [simp]: "run step s (e # es) = run step (step s e) es"
  by (simp add: run_def)

lemma run_append [simp]: "run step s (es @ fs) = run step (run step s es) fs"
  by (simp add: run_def)

locale machine =
  fixes init :: "'s"
    and step :: "'s \<Rightarrow> 'e \<Rightarrow> 's"
    and inv :: "'s \<Rightarrow> bool"
  assumes inv_init: "inv init"
    and inv_step: "inv s \<Longrightarrow> inv (step s e)"
begin

lemma inv_run_from: "inv s \<Longrightarrow> inv (run step s es)"
  by (induction es arbitrary: s) (auto intro: inv_step)

lemma inv_run: "inv (run step init es)"
  by (rule inv_run_from [OF inv_init])

end

text \<open>A machine with a latch: once a state is final, nothing leaves it.\<close>

locale latched_machine = machine +
  fixes final :: "'a \<Rightarrow> bool"
  assumes final_step: "inv s \<Longrightarrow> final s \<Longrightarrow> step s e = s"
begin

lemma final_run: "inv s \<Longrightarrow> final s \<Longrightarrow> run step s es = s"
proof (induction es arbitrary: s)
  case Nil
  then show ?case by simp
next
  case (Cons e es)
  then have "step s e = s" by (simp add: final_step)
  with Cons show ?case by simp
qed

end

text \<open>
  What a run emits: the concatenation of what its steps emit.
\<close>

fun run_log :: "('s \<Rightarrow> 'e \<Rightarrow> 's) \<Rightarrow> ('s \<Rightarrow> 'e \<Rightarrow> 'o list) \<Rightarrow> 's \<Rightarrow> 'e list \<Rightarrow> 'o list" where
  "run_log step out s [] = []"
| "run_log step out s (e # es) = out s e @ run_log step out (step s e) es"

lemma run_log_append:
  "run_log step out s (es @ fs) = run_log step out s es @ run_log step out (run step s es) fs"
  by (induction es arbitrary: s) simp_all

text \<open>
  A machine that remembers when it last did something and does it again only after a gap: the times at
  which it does are spaced by that gap.
\<close>

locale throttled = machine +
  fixes last_time :: "'a \<Rightarrow> int"
    and fires :: "'a \<Rightarrow> 'b \<Rightarrow> int list"
    and gap :: int
  assumes gap_nonneg: "0 \<le> gap"
    and fires_step: "inv s \<Longrightarrow>
      fires s e = [] \<and> last_time (step s e) = last_time s \<or>
      (\<exists>now. (fires s e = [] \<or> fires s e = [now]) \<and> last_time (step s e) = now \<and>
        gap \<le> now - last_time s)"
begin

lemma spaced_from:
  "inv s \<Longrightarrow> successively (\<lambda>a b. gap \<le> b - a) (last_time s # run_log step fires s es)"
proof (induction es arbitrary: s)
  case Nil
  then show ?case by simp
next
  case (Cons e es)
  have rest: "successively (\<lambda>a b. gap \<le> b - a)
      (last_time (step s e) # run_log step fires (step s e) es)"
    using Cons by (simp add: inv_step)
  have earlier: "successively (\<lambda>a b. gap \<le> b - a) (a # ts)"
    if "successively (\<lambda>a b. gap \<le> b - a) (b # ts)" and "gap \<le> b - a" for a b and ts :: "int list"
    using that gap_nonneg by (cases ts) auto
  show ?case
    using fires_step [OF Cons.prems, of e] rest earlier [OF rest] by auto
qed

lemma spaced: "successively (\<lambda>a b. gap \<le> b - a) (run_log step fires init es)"
  using spaced_from [OF inv_init, of es] by (cases "run_log step fires init es") auto

end

end
