(* ===== verification/DataAdapter.thy ===== *)
theory DataAdapter
  imports Prelude
begin

text \<open>
  The data adapter (\<open>adapters/dataAdapter.ts\<close>): conversion of the field names of a value,
  at every depth, between the snake case of the backend and the camel case of the client.  The
  stores pass everything they receive through \<open>toCamelCase\<close>, so the facts below say what a
  store may assume of its rows.
\<close>

subsection \<open>Keys\<close>

text \<open>\<open>key.replace(/_([a-z])/g, (_, letter) => letter.toUpperCase())\<close>\<close>

fun camel_key :: "string \<Rightarrow> string" where
  "camel_key [] = []"
| "camel_key [c] = [c]"
| "camel_key (c # d # s) =
     (if c = CHR ''_'' \<and> is_lower d then upper_char d # camel_key s
      else c # camel_key (d # s))"

text \<open>\<open>key.replace(/[A-Z]/g, letter => `_${letter.toLowerCase()}`)\<close>\<close>

fun snake_key :: "string \<Rightarrow> string" where
  "snake_key [] = []"
| "snake_key (c # s) =
     (if is_upper c then CHR ''_'' # lower_char c # snake_key s else c # snake_key s)"

subsection \<open>Values\<close>

fun to_camel :: "jv \<Rightarrow> jv"
and to_camel_fields :: "(string \<times> jv) list \<Rightarrow> (string \<times> jv) list \<Rightarrow> (string \<times> jv) list" where
  "to_camel (JArr xs) = JArr (List.map to_camel xs)"
| "to_camel (JObj fs) = JObj (to_camel_fields fs [])"
| "to_camel v = v"
| "to_camel_fields [] result = result"
| "to_camel_fields ((k, v) # fs) result =
     to_camel_fields fs (AList.update (camel_key k) (to_camel v) result)"

fun to_snake :: "jv \<Rightarrow> jv"
and to_snake_fields :: "(string \<times> jv) list \<Rightarrow> (string \<times> jv) list \<Rightarrow> (string \<times> jv) list" where
  "to_snake (JArr xs) = JArr (List.map to_snake xs)"
| "to_snake (JObj fs) = JObj (to_snake_fields fs [])"
| "to_snake v = v"
| "to_snake_fields [] result = result"
| "to_snake_fields ((k, v) # fs) result =
     to_snake_fields fs (AList.update (snake_key k) (to_snake v) result)"

text \<open>\<open>Array.isArray(v) ? toCamelCase(v) : []\<close>\<close>

definition camel_rows :: "jv \<Rightarrow> jv list" where
  "camel_rows v = (case v of JArr xs \<Rightarrow> List.map to_camel xs | _ \<Rightarrow> [])"

subsection \<open>Camel-case normal form\<close>

text \<open>A key has a hump where an underscore is followed by a lower-case letter.\<close>

fun has_hump :: "string \<Rightarrow> bool" where
  "has_hump (c # d # s) = (c = CHR ''_'' \<and> is_lower d \<or> has_hump (d # s))"
| "has_hump _ = False"

fun camel_normal :: "jv \<Rightarrow> bool" where
  "camel_normal (JArr xs) = list_all camel_normal xs"
| "camel_normal (JObj fs) =
     (distinct (List.map fst fs) \<and> list_all (\<lambda>(k, v). \<not> has_hump k \<and> camel_normal v) fs)"
| "camel_normal _ = True"

lemma underscore_not_letter [simp]: "\<not> is_lower CHR ''_''" "\<not> is_upper CHR ''_''"
  by (simp_all add: is_lower_def is_upper_def)

lemma camel_key_Nil_iff [simp]: "camel_key k = [] \<longleftrightarrow> k = []"
  by (cases k rule: camel_key.cases) auto

lemma hd_camel_key_not_lower: "k \<noteq> [] \<Longrightarrow> \<not> is_lower (hd k) \<Longrightarrow> \<not> is_lower (hd (camel_key k))"
  by (cases k rule: camel_key.cases) auto

lemma has_hump_Cons:
  "has_hump (c # k) \<longleftrightarrow> (k \<noteq> [] \<and> c = CHR ''_'' \<and> is_lower (hd k)) \<or> has_hump k"
  by (cases k) auto

lemma camel_key_no_hump: "\<not> has_hump (camel_key k)"
proof (induction k rule: camel_key.induct)
  case (3 c d s)
  show ?case
  proof (cases "c = CHR ''_'' \<and> is_lower d")
    case True
    with 3 show ?thesis
      by (auto simp: has_hump_Cons) (metis underscore_not_letter(2) upper_char_is_upper)
  next
    case False
    have "\<not> has_hump (c # camel_key (d # s))"
    proof (cases "c = CHR ''_''")
      case True
      with False have "\<not> is_lower (hd (camel_key (d # s)))"
        by (metis hd_camel_key_not_lower list.distinct(1) list.sel(1))
      with 3 False show ?thesis by (auto simp: has_hump_Cons)
    next
      case False
      with 3 show ?thesis by (auto simp: has_hump_Cons)
    qed
    moreover have "camel_key (c # d # s) = c # camel_key (d # s)"
      using False by auto
    ultimately show ?thesis by (simp only: not_False_eq_True)
  qed
qed simp_all

lemma camel_key_id: "\<not> has_hump k \<Longrightarrow> camel_key k = k"
  by (induction k rule: camel_key.induct) auto

lemma camel_key_Cons_keep:
  "c \<noteq> CHR ''_'' \<Longrightarrow> camel_key (c # k) = c # camel_key k"
  by (cases k) auto

lemma camel_snake_key: "\<not> has_hump k \<Longrightarrow> camel_key (snake_key k) = k"
proof (induction k rule: snake_key.induct)
  case (2 c s)
  then have IH: "camel_key (snake_key s) = s"
    by (cases "is_upper c") (simp_all add: has_hump_Cons)
  show ?case
  proof (cases "is_upper c")
    case True
    with IH show ?thesis by (simp add: lower_char_is_lower upper_lower_char)
  next
    case low: False
    show ?thesis
    proof (cases "c = CHR ''_''")
      case False
      with low IH show ?thesis by (simp add: camel_key_Cons_keep)
    next
      case True
      show ?thesis
      proof (cases s)
        case Nil
        with low show ?thesis by simp
      next
        case (Cons d t)
        with 2 True have "\<not> is_lower d" by simp
        with Cons True IH show ?thesis by (cases "is_upper d") auto
      qed
    qed
  qed
qed simp

lemma snake_key_inj: "\<not> has_hump j \<Longrightarrow> \<not> has_hump k \<Longrightarrow> snake_key j = snake_key k \<longleftrightarrow> j = k"
  by (metis camel_snake_key)

text \<open>A key without capitals is the image of itself only.\<close>

lemma camel_key_no_upper:
  "camel_key j = k \<Longrightarrow> \<forall>c \<in> set k. \<not> is_upper c \<Longrightarrow> j = k"
  by (induction j arbitrary: k rule: camel_key.induct)
    (auto split: if_splits dest: upper_char_is_upper)

subsection \<open>Objects\<close>

lemma update_fresh: "k \<notin> fst ` set r \<Longrightarrow> AList.update k v r = r @ [(k, v)]"
  by (induction r) auto

lemma to_camel_normal:
  "camel_normal (to_camel v)"
  "list_all (\<lambda>(k, v). \<not> has_hump k \<and> camel_normal v) r \<Longrightarrow> distinct (List.map fst r) \<Longrightarrow>
     camel_normal (JObj (to_camel_fields fs r))"
proof (induction v and fs r rule: to_camel_to_camel_fields.induct)
  case (5 k v fs result)
  have "list_all (\<lambda>(k, v). \<not> has_hump k \<and> camel_normal v)
          (AList.update (camel_key k) (to_camel v) result)"
    using "5.prems"(1) "5.IH"(1) camel_key_no_hump [of k]
    by (induction result) auto
  moreover have "distinct (List.map fst (AList.update (camel_key k) (to_camel v) result))"
    using "5.prems"(2) by (rule distinct_update)
  ultimately show ?case using "5.IH"(2) by simp
qed (auto simp: list_all_iff)

lemma to_camel_id:
  "camel_normal v \<Longrightarrow> to_camel v = v"
  "camel_normal (JObj (r @ fs)) \<Longrightarrow> to_camel_fields fs r = r @ fs"
proof (induction v and fs r rule: to_camel_to_camel_fields.induct)
  case (1 xs)
  then show ?case by (simp add: list_all_iff map_idI)
next
  case (5 k v fs result)
  from "5.prems" have n: "\<not> has_hump k" "camel_normal v" "k \<notin> fst ` set result"
    by auto
  then have "AList.update (camel_key k) (to_camel v) result = result @ [(k, v)]"
    using "5.IH"(1) by (simp add: camel_key_id update_fresh)
  with "5.IH"(2) "5.prems" show ?case by simp
qed simp_all

lemma to_camel_idem [simp]: "to_camel (to_camel v) = to_camel v"
  by (rule to_camel_id(1)) (rule to_camel_normal(1))

text \<open>The image of the fields of a normal object under \<open>toSnakeCase\<close>, and the way back.\<close>

definition snake_fields :: "(string \<times> jv) list \<Rightarrow> (string \<times> jv) list" where
  "snake_fields fs = List.map (\<lambda>(k, v). (snake_key k, to_snake v)) fs"

lemma to_snake_fields_eq:
  "camel_normal (JObj (q @ fs)) \<Longrightarrow> to_snake_fields fs (snake_fields q) = snake_fields (q @ fs)"
proof (induction fs arbitrary: q)
  case Nil
  then show ?case by simp
next
  case (Cons p fs)
  obtain k v where p: "p = (k, v)" by (cases p)
  have "snake_key k \<notin> fst ` set (snake_fields q)"
  proof
    assume "snake_key k \<in> fst ` set (snake_fields q)"
    then obtain k' v' where k': "(k', v') \<in> set q" "snake_key k = snake_key k'"
      by (auto simp: snake_fields_def)
    moreover have "\<not> has_hump k" "\<not> has_hump k'"
      using Cons.prems k'(1) by (auto simp: p list_all_iff)
    ultimately have "k = k'" by (simp add: snake_key_inj)
    with k'(1) Cons.prems show False by (force simp: p)
  qed
  then have "AList.update (snake_key k) (to_snake v) (snake_fields q) = snake_fields (q @ [p])"
    by (simp add: update_fresh snake_fields_def p)
  with Cons.IH [of "q @ [p]"] Cons.prems show ?case by (simp add: p)
qed

lemma to_camel_fields_snake:
  "\<lbrakk>camel_normal (JObj (q @ fs)); \<forall>(k, v) \<in> set fs. to_camel (to_snake v) = v\<rbrakk> \<Longrightarrow>
     to_camel_fields (snake_fields fs) q = q @ fs"
proof (induction fs arbitrary: q)
  case Nil
  then show ?case by (simp add: snake_fields_def)
next
  case (Cons p fs)
  obtain k v where p: "p = (k, v)" by (cases p)
  have "AList.update k v q = q @ [p]"
    using Cons.prems(1) by (simp add: update_fresh p)
  moreover have "to_camel_fields (snake_fields fs) (q @ [p]) = q @ p # fs"
    using Cons.IH [of "q @ [p]"] Cons.prems by simp
  ultimately show ?case
    using Cons.prems by (simp add: snake_fields_def p camel_snake_key)
qed

lemma camel_snake_value: "camel_normal v \<Longrightarrow> to_camel (to_snake v) = v"
proof (induction v)
  case (JArr xs)
  then show ?case by (simp add: list_all_iff map_idI)
next
  case (JObj fs)
  have "\<forall>(k, v) \<in> set fs. to_camel (to_snake v) = v"
    using JObj by (fastforce simp: list_all_iff)
  then show ?case
    using JObj.prems to_snake_fields_eq [of "[]" fs] to_camel_fields_snake [of "[]" fs]
    by (simp add: snake_fields_def)
qed simp_all

lemma camel_rows_normal: "list_all camel_normal (camel_rows v)"
  by (cases v) (simp_all add: camel_rows_def list_all_iff to_camel_normal(1))

lemma camel_rows_id: "list_all camel_normal xs \<Longrightarrow> camel_rows (JArr xs) = xs"
  by (simp add: camel_rows_def list_all_iff map_idI to_camel_id(1))

subsection \<open>What a store may read from a converted row\<close>

lemma map_of_to_camel_fields:
  assumes "\<forall>c \<in> set k. \<not> is_upper c" and "\<not> has_hump k" and "distinct (List.map fst fs)"
  shows "map_of (to_camel_fields fs r) k =
    (case map_of fs k of None \<Rightarrow> map_of r k | Some v \<Rightarrow> Some (to_camel v))"
  using assms(3)
proof (induction fs arbitrary: r)
  case Nil
  then show ?case by simp
next
  case (Cons p fs)
  obtain j v where p: "p = (j, v)" by (cases p)
  show ?case
  proof (cases "j = k")
    case True
    with Cons.prems p have "map_of fs k = None" by (simp add: map_of_eq_None_iff)
    with True Cons p assms(2) show ?thesis by (simp add: update_conv' camel_key_id)
  next
    case False
    then have "camel_key j \<noteq> k" using camel_key_no_upper assms(1) by blast
    with False Cons p show ?thesis by (simp add: update_conv' split: option.split)
  qed
qed

lemma jget_to_camel:
  assumes "\<forall>c \<in> set k. \<not> is_upper c" and "\<not> has_hump k" and "distinct (List.map fst (jfields v))"
  shows "jget k (to_camel v) = to_camel (jget k v)"
proof (cases v)
  case (JObj fs)
  with assms show ?thesis
    by (simp add: jget_def map_of_to_camel_fields split: option.split)
qed (simp_all add: jget_def)

end
