(* ===== verification/JsNumber.thy ===== *)
theory JsNumber
  imports Prelude
begin

text \<open>
  The conversions between numbers and strings that the modelled code relies on:
  \<open>Number(v)\<close> on every kind of value (decimal literals with fraction and exponent, \<open>0x\<close>,
  \<open>0o\<close> and \<open>0b\<close> literals, \<open>Infinity\<close>), and the decimal digits of integers, with the round
  trip between the two.
\<close>

definition digit_val :: "char \<Rightarrow> nat" where
  "digit_val c = (of_char c :: nat) - 48"

definition nat_of_digits :: "string \<Rightarrow> nat" where
  "nat_of_digits ds = foldl (\<lambda>n c. 10 * n + digit_val c) 0 ds"

fun sign_split :: "string \<Rightarrow> rat \<times> string" where
  "sign_split (c # s) =
     (if c = CHR ''-'' then (-1, s) else if c = CHR ''+'' then (1, s) else (1, c # s))"
| "sign_split [] = (1, [])"

definition exponent_part :: "string \<Rightarrow> int option" where
  "exponent_part s =
     (case s of [] \<Rightarrow> Some 0
      | c # r \<Rightarrow>
          (if c = CHR ''e'' \<or> c = CHR ''E'' then
             (case sign_split r of (g, ds) \<Rightarrow>
                if ds \<noteq> [] \<and> list_all is_digit ds
                then Some ((if g < 0 then -1 else 1) * int (nat_of_digits ds)) else None)
           else None))"

definition scale10 :: "int \<Rightarrow> rat" where
  "scale10 e = (if 0 \<le> e then 10 ^ nat e else 1 / 10 ^ nat (- e))"

definition decimal_literal :: "rat \<Rightarrow> string \<Rightarrow> jsnum" where
  "decimal_literal g s =
     (let ip = takeWhile is_digit s;
          r1 = dropWhile is_digit s;
          dot = (case r1 of c # _ \<Rightarrow> c = CHR ''.'' | [] \<Rightarrow> False);
          fp = (if dot then takeWhile is_digit (tl r1) else []);
          r2 = (if dot then dropWhile is_digit (tl r1) else r1)
      in if ip = [] \<and> fp = [] then NaN
         else (case exponent_part r2 of None \<Rightarrow> NaN
               | Some e \<Rightarrow> Fin (g * of_nat (nat_of_digits (ip @ fp)) * scale10 (e - int (length fp)))))"

definition radix_digit :: "char \<Rightarrow> nat" where
  "radix_digit c =
     (if is_digit c then digit_val c
      else if is_lower c then (of_char c :: nat) - 87
      else if is_upper c then (of_char c :: nat) - 55 else 99)"

definition radix_literal :: "nat \<Rightarrow> string \<Rightarrow> jsnum" where
  "radix_literal b ds =
     (if ds \<noteq> [] \<and> list_all (\<lambda>c. radix_digit c < b) ds
      then Fin (of_nat (foldl (\<lambda>n c. b * n + radix_digit c) 0 ds)) else NaN)"

fun radix_of :: "string \<Rightarrow> nat option" where
  "radix_of (c # d # _) =
     (if c \<noteq> CHR ''0'' then None
      else if d \<in> {CHR ''x'', CHR ''X''} then Some 16
      else if d \<in> {CHR ''o'', CHR ''O''} then Some 8
      else if d \<in> {CHR ''b'', CHR ''B''} then Some 2 else None)"
| "radix_of _ = None"

definition number_of_string :: "string \<Rightarrow> jsnum" where
  "number_of_string raw =
     (let s = js_trim raw in
      if s = [] then Fin 0
      else case radix_of s of
        Some b \<Rightarrow> radix_literal b (drop 2 s)
      | None \<Rightarrow>
          (case sign_split s of (g, r) \<Rightarrow>
             if r = ''Infinity'' then (if g < 0 then MInf else PInf) else decimal_literal g r))"

text \<open>
  \<open>Number(v)\<close>.  Arrays and objects do not occur where the modelled code converts; they give
  \<open>NaN\<close>.
\<close>

fun js_number :: "jv \<Rightarrow> jsnum" where
  "js_number (JNum n) = n"
| "js_number (JBig i) = Fin (of_int i)"
| "js_number JNull = Fin 0"
| "js_number (JBool b) = (if b then Fin 1 else Fin 0)"
| "js_number (JStr s) = number_of_string s"
| "js_number _ = NaN"

subsection \<open>Decimal digits\<close>

definition digit_char :: "nat \<Rightarrow> char" where
  "digit_char d = char_of (48 + d)"

fun nat_str :: "nat \<Rightarrow> string" where
  "nat_str n = (if n < 10 then [digit_char n] else nat_str (n div 10) @ [digit_char (n mod 10)])"

declare nat_str.simps [simp del]

definition int_str :: "int \<Rightarrow> string" where
  "int_str i = (if i < 0 then CHR ''-'' # nat_str (nat (- i)) else nat_str (nat i))"

lemma digit_char_props:
  assumes "d < 10"
  shows "is_digit (digit_char d)" "digit_val (digit_char d) = d" "\<not> js_ws (digit_char d)"
    "digit_char d \<notin> set ''-+.xXoObBI''"
proof -
  have oc: "(of_char (digit_char d) :: nat) = 48 + d"
    using assms by (simp add: digit_char_def take_bit_eq_mod)
  have no: "digit_char d \<noteq> c" if "(of_char c :: nat) < 48 \<or> 57 < (of_char c :: nat)" for c
    using oc that assms by auto
  show "is_digit (digit_char d)" "digit_val (digit_char d) = d"
    using assms by (simp_all add: is_digit_def digit_val_def oc)
  show "\<not> js_ws (digit_char d)" "digit_char d \<notin> set ''-+.xXoObBI''"
    by (simp_all add: js_ws_def no)
qed

lemma nat_str_not_Nil [simp]: "nat_str n \<noteq> []"
  by (subst nat_str.simps) simp

lemma nat_str_digits: "list_all is_digit (nat_str n)"
proof (induction n rule: nat_str.induct)
  case (1 n)
  then show ?case
    by (cases "n < 10") (subst nat_str.simps; simp add: digit_char_props(1))+
qed

lemma nat_of_digits_str: "nat_of_digits (nat_str n) = n"
proof (induction n rule: nat_str.induct)
  case (1 n)
  show ?case
  proof (cases "n < 10")
    case True
    then show ?thesis
      by (subst nat_str.simps) (simp add: nat_of_digits_def digit_char_props(2))
  next
    case False
    with 1 have "nat_of_digits (nat_str (n div 10)) = n div 10" by simp
    with False show ?thesis
      by (subst nat_str.simps) (simp add: nat_of_digits_def digit_char_props(2))
  qed
qed

lemma is_digit_plain: "is_digit c \<Longrightarrow> \<not> js_ws c \<and> c \<notin> set ''-+.xXoObBI''"
proof -
  assume c: "is_digit c"
  then have "c = digit_char (digit_val c)" "digit_val c < 10"
    by (auto simp: digit_char_def digit_val_def is_digit_def)
  then show ?thesis
    using digit_char_props(3,4) [of "digit_val c"] by simp
qed

lemma js_trim_digits: "list_all is_digit s \<Longrightarrow> js_trim s = s"
proof -
  assume d: "list_all is_digit s"
  have w: "dropWhile js_ws t = t" if "list_all is_digit t" for t
    using that by (cases t) (auto dest: is_digit_plain)
  show ?thesis
    using w [OF d] w [of "rev s"] d by (simp add: js_trim_def)
qed

lemma radix_of_digits: "list_all is_digit s \<Longrightarrow> radix_of s = None"
proof (cases s rule: radix_of.cases)
  case (1 c d t)
  assume "list_all is_digit s"
  then have "d \<notin> set ''-+.xXoObBI''" by (auto simp: 1 dest: is_digit_plain)
  then show ?thesis by (simp add: 1)
qed simp_all

text \<open>The round trip \<open>Number(String(n))\<close> on natural numbers.\<close>

lemma number_of_nat_str: "number_of_string (nat_str n) = Fin (of_nat n)"
proof -
  let ?s = "nat_str n"
  have d: "list_all is_digit ?s" by (rule nat_str_digits)
  then have tw: "takeWhile is_digit ?s = ?s" "dropWhile is_digit ?s = []"
    by (simp_all add: list_all_iff)
  have "decimal_literal 1 ?s = Fin (of_nat n)"
    by (simp add: decimal_literal_def tw Let_def exponent_part_def scale10_def nat_of_digits_str)
  moreover obtain c r where s: "?s = c # r" by (cases ?s) simp_all
  then have "c \<noteq> CHR ''-''" "c \<noteq> CHR ''+''" "?s \<noteq> ''Infinity''"
    using d is_digit_plain [of c] by auto
  then have "sign_split ?s = (1, ?s)" by (simp add: s)
  ultimately show ?thesis
    using \<open>?s \<noteq> ''Infinity''\<close>
    by (simp add: number_of_string_def js_trim_digits [OF d] radix_of_digits [OF d])
qed

subsection \<open>\<open>String(v)\<close>\<close>

text \<open>
  The digits of a number: exact for decimals of at most twenty fractional digits and below
  \<open>1e21\<close>, where JavaScript prints no exponent.  Plain objects print as \<open>[object Object]\<close>.
\<close>

fun frac_digits :: "nat \<Rightarrow> rat \<Rightarrow> string" where
  "frac_digits 0 f = []"
| "frac_digits (Suc n) f =
     (if f = 0 then []
      else digit_char (nat \<lfloor>10 * f\<rfloor>) # frac_digits n (10 * f - of_int \<lfloor>10 * f\<rfloor>))"

definition rat_str :: "rat \<Rightarrow> string" where
  "rat_str q =
     (let a = \<bar>q\<bar>; ip = \<lfloor>a\<rfloor>; f = a - of_int ip;
          body = nat_str (nat ip) @ (if f = 0 then [] else CHR ''.'' # frac_digits 20 f)
      in if q < 0 then CHR ''-'' # body else body)"

fun num_str :: "jsnum \<Rightarrow> string" where
  "num_str (Fin q) = rat_str q"
| "num_str PInf = ''Infinity''"
| "num_str MInf = ''-Infinity''"
| "num_str NaN = ''NaN''"

fun js_string :: "jv \<Rightarrow> string" where
  "js_string JUndef = ''undefined''"
| "js_string JNull = ''null''"
| "js_string (JBool b) = (if b then ''true'' else ''false'')"
| "js_string (JNum n) = num_str n"
| "js_string (JBig i) = int_str i"
| "js_string (JStr s) = s"
| "js_string (JArr xs) =
     js_join '','' (List.map (\<lambda>v. if nullish v then [] else js_string v) xs)"
| "js_string (JObj _) = ''[object Object]''"

lemma rat_str_nat: "rat_str (of_nat n) = nat_str n"
  by (simp add: rat_str_def)

lemma number_of_rat_str_nat: "js_number (JStr (js_string (JNum (Fin (of_nat n))))) = Fin (of_nat n)"
  by (simp add: rat_str_nat number_of_nat_str)

end
