(* ===== verification/RowTable.thy ===== *)
theory RowTable
  imports Prelude
begin

text \<open>
  The interface through which the event handlers and the hooks use a store of rows: rows are read
  and written per key, a write to one key is invisible under every other, and a table with a mirror
  of its current key keeps the mirror equal to the rows of that key.
\<close>

locale row_table =
  fixes rows :: "'s \<Rightarrow> 'k \<Rightarrow> 'r list"
    and put :: "'k \<Rightarrow> 'r list \<Rightarrow> 's \<Rightarrow> 's"
  assumes rows_put: "rows (put a xs s) b = (if b = a then xs else rows s b)"
begin

lemma rows_put_same [simp]: "rows (put a xs s) a = xs"
  by (simp add: rows_put)

lemma rows_put_other: "b \<noteq> a \<Longrightarrow> rows (put a xs s) b = rows s b"
  by (simp add: rows_put)

lemma rows_modify_other:
  "b \<notin> fst ` set ops \<Longrightarrow> rows (foldl (\<lambda>s (a, f). put a (f (rows s a)) s) s ops) b = rows s b"
  by (induction ops arbitrary: s) (auto simp: rows_put)

lemma rows_modify_key:
  "rows (foldl (\<lambda>s (a, f). put a (f (rows s a)) s) s ops) b =
     foldl (\<lambda>xs (a, f). if a = b then f xs else xs) (rows s b) ops"
  by (induction ops arbitrary: s) (auto simp: rows_put intro!: arg_cong2 [where f = "foldl _"])

end

locale mirrored_table = row_table +
  fixes current :: "'a \<Rightarrow> 'b option"
    and mirror :: "'a \<Rightarrow> 'c list"
    and valid :: "'b \<Rightarrow> bool"
  assumes current_put: "current (put a xs s) = current s"
    and mirror_put: "mirror (put a xs s) = (if current s = Some a then xs else mirror s)"
begin

lemma mirrored_put:
  assumes "\<forall>b. current s = Some b \<and> valid b \<longrightarrow> mirror s = rows s b"
  shows "\<forall>b. current (put a xs s) = Some b \<and> valid b \<longrightarrow> mirror (put a xs s) = rows (put a xs s) b"
  using assms by (auto simp: current_put mirror_put rows_put)

end

end
