(* ===== verification/TradingStore.thy ===== *)
theory TradingStore
  imports DataAdapter JsNumber RowTable
begin

text \<open>
  The trading store (\<open>stores/tradingStore.ts\<close>): the open positions and the account figures
  of every account, with a mirror of the current account's rows and figures for the page.  Three
  sources write the rows: the order stream, the profit stream and the snapshots of
  \<open>getPositions\<close>; \<open>set_positions\<close> merges a snapshot with what the stream has just written.
  Time is a parameter, \<open>now\<close>, in milliseconds.
\<close>

subsection \<open>State\<close>

record trading_state =
  ts_positions :: "jv list"
  ts_positions_map :: "string \<rightharpoonup> jv list"
  ts_trade_logs :: "jv list"
  ts_account_info :: jv
  ts_account_info_map :: "string \<rightharpoonup> jv"
  ts_user_summary :: jv
  ts_received :: "string set"
  ts_last_stream :: "string \<rightharpoonup> int"
  ts_current :: "string option"
  ts_loading :: bool

definition stream_float_merge_ms :: int where
  "stream_float_merge_ms = 4500"

definition zero :: jv where
  "zero = JNum (Fin 0)"

definition default_account_info :: jv where
  "default_account_info = JObj
     [(''balance'', zero), (''credit'', zero), (''profit'', zero), (''profitPercent'', zero),
      (''equity'', zero), (''margin'', zero), (''freeMargin'', zero), (''marginLevel'', zero)]"

definition default_user_summary :: jv where
  "default_user_summary = JObj
     [(''totalBalance'', zero), (''totalEquity'', zero), (''totalProfit'', zero),
      (''accountCount'', zero), (''connectedCount'', zero), (''pnlToday'', zero),
      (''pnlWeek'', zero), (''pnlMonth'', zero), (''tradesToday'', zero), (''tradesWeek'', zero),
      (''tradesMonth'', zero), (''winRate'', zero), (''profitFactor'', zero),
      (''maxDrawdownPercent'', zero), (''maxConsecutiveWins'', zero),
      (''maxConsecutiveLosses'', zero)]"

definition trading_init :: trading_state where
  "trading_init = \<lparr>ts_positions = [], ts_positions_map = Map.empty, ts_trade_logs = [],
     ts_account_info = default_account_info, ts_account_info_map = Map.empty,
     ts_user_summary = default_user_summary, ts_received = {}, ts_last_stream = Map.empty,
     ts_current = None, ts_loading = False\<rparr>"

subsection \<open>Rows\<close>

definition ticket_of :: "jv \<Rightarrow> jsnum" where
  "ticket_of p = js_number (jget ''ticket'' p)"

text \<open>\<open>positionsMap.get(accountId) || []\<close>\<close>

definition rows_at :: "trading_state \<Rightarrow> string \<Rightarrow> jv list" where
  "rows_at s a = (case ts_positions_map s a of None \<Rightarrow> [] | Some ps \<Rightarrow> ps)"

text \<open>The last step of every operation on rows: the new map, and the mirror when it is current.\<close>

definition put_rows :: "string \<Rightarrow> jv list \<Rightarrow> trading_state \<Rightarrow> trading_state" where
  "put_rows a ps s = s\<lparr>ts_positions_map := (ts_positions_map s)(a \<mapsto> ps),
     ts_positions := (if ts_current s = Some a then ps else ts_positions s)\<rparr>"

text \<open>\<open>new Map(rows.map(p => [Number(p.ticket), p]))\<close>: the last row of a ticket wins.\<close>

definition by_ticket :: "jv list \<Rightarrow> jsnum \<rightharpoonup> jv" where
  "by_ticket rows = map_of (rev (List.map (\<lambda>p. (ticket_of p, p)) rows))"

text \<open>The fields that keep the stream's value when a snapshot row \<open>inc\<close> replaces \<open>old\<close>.\<close>

definition keep_stream_fields :: "jv \<Rightarrow> jv \<Rightarrow> jv" where
  "keep_stream_fields old inc =
     jset ''closePrice'' (js_coalesce (jget ''closePrice'' old) (jget ''closePrice'' inc))
       (jset ''currentPrice'' (js_or (jget ''currentPrice'' old) (jget ''currentPrice'' inc))
         (jset ''profit'' (jget ''profit'' old) inc))"

definition stream_fresh :: "int \<Rightarrow> string \<Rightarrow> trading_state \<Rightarrow> bool" where
  "stream_fresh now a s \<longleftrightarrow>
     a \<in> ts_received s \<and>
     now - (case ts_last_stream s a of None \<Rightarrow> 0 | Some t \<Rightarrow> t) < stream_float_merge_ms"

definition partial_shrink :: "bool \<Rightarrow> jv list \<Rightarrow> jv list \<Rightarrow> bool" where
  "partial_shrink fresh prev incoming \<longleftrightarrow>
     fresh \<and> length prev > 0 \<and> length incoming > 0 \<and> length incoming < length prev"

definition merge_partial :: "jv list \<Rightarrow> jv list \<Rightarrow> jv list" where
  "merge_partial prev incoming =
     List.map (\<lambda>old. case by_ticket incoming (ticket_of old) of
                       None \<Rightarrow> old
                     | Some inc \<Rightarrow> keep_stream_fields old inc) prev
     @ filter (\<lambda>p. by_ticket prev (ticket_of p) = None) incoming"

definition merge_full :: "jv list \<Rightarrow> jv list \<Rightarrow> jv list" where
  "merge_full prev incoming =
     List.map (\<lambda>p. case by_ticket prev (ticket_of p) of
                     None \<Rightarrow> p
                   | Some old \<Rightarrow> keep_stream_fields old p) incoming"

definition merge_rows :: "bool \<Rightarrow> bool \<Rightarrow> jv list \<Rightarrow> jv list \<Rightarrow> jv list" where
  "merge_rows fresh prefer_rpc prev incoming =
     (let shrink = partial_shrink fresh prev incoming;
          merged = (if shrink then merge_partial prev incoming else incoming)
      in if fresh \<and> length prev > 0 \<and> \<not> prefer_rpc \<and> \<not> shrink
         then merge_full prev incoming else merged)"

subsection \<open>Operations\<close>

definition has_received_data :: "string \<Rightarrow> trading_state \<Rightarrow> bool" where
  "has_received_data a s \<longleftrightarrow> a \<in> ts_received s"

definition touch_stream_profit_at :: "int \<Rightarrow> string \<Rightarrow> trading_state \<Rightarrow> trading_state" where
  "touch_stream_profit_at now a s = s\<lparr>ts_last_stream := (ts_last_stream s)(a \<mapsto> now)\<rparr>"

definition set_positions :: "int \<Rightarrow> string \<Rightarrow> jv \<Rightarrow> bool \<Rightarrow> trading_state \<Rightarrow> trading_state" where
  "set_positions now a positions prefer_rpc s =
     put_rows a (merge_rows (stream_fresh now a s) prefer_rpc (rows_at s a) (camel_rows positions)) s"

definition add_position :: "string \<Rightarrow> jv \<Rightarrow> trading_state \<Rightarrow> trading_state" where
  "add_position a p s = put_rows a (rows_at s a @ [to_camel p]) s"

definition update_position :: "string \<Rightarrow> jsnum \<Rightarrow> jv \<Rightarrow> trading_state \<Rightarrow> trading_state" where
  "update_position a t updates s =
     put_rows a (update_where (\<lambda>p. num_eq (ticket_of p) t) (\<lambda>p. jspread p updates) (rows_at s a)) s"

definition remove_position :: "string \<Rightarrow> jsnum \<Rightarrow> trading_state \<Rightarrow> trading_state" where
  "remove_position a t s = put_rows a (filter (\<lambda>p. \<not> num_eq (ticket_of p) t) (rows_at s a)) s"

definition set_trade_logs :: "jv list \<Rightarrow> trading_state \<Rightarrow> trading_state" where
  "set_trade_logs logs s = s\<lparr>ts_trade_logs := logs\<rparr>"

definition add_trade_log :: "jv \<Rightarrow> trading_state \<Rightarrow> trading_state" where
  "add_trade_log l s = s\<lparr>ts_trade_logs := l # ts_trade_logs s\<rparr>"

definition set_account_info :: "jv \<Rightarrow> trading_state \<Rightarrow> trading_state" where
  "set_account_info info s =
     (let new_info = jspread (ts_account_info s) info
      in case ts_current s of
           None \<Rightarrow> s\<lparr>ts_account_info := new_info\<rparr>
         | Some a \<Rightarrow>
             (if a \<noteq> [] then
                s\<lparr>ts_account_info := new_info,
                  ts_account_info_map := (ts_account_info_map s)(a \<mapsto> new_info)\<rparr>
              else s\<lparr>ts_account_info := new_info\<rparr>))"

definition set_account_info_by_id :: "string \<Rightarrow> jv \<Rightarrow> trading_state \<Rightarrow> trading_state" where
  "set_account_info_by_id a info s =
     (let existing = (case ts_account_info_map s a of None \<Rightarrow> default_account_info | Some i \<Rightarrow> i);
          new_info = jspread existing info;
          s' = s\<lparr>ts_account_info_map := (ts_account_info_map s)(a \<mapsto> new_info),
                 ts_received := insert a (ts_received s)\<rparr>
      in if ts_current s = Some a then s'\<lparr>ts_account_info := new_info\<rparr> else s')"

definition set_user_summary :: "jv \<Rightarrow> trading_state \<Rightarrow> trading_state" where
  "set_user_summary summary s = s\<lparr>ts_user_summary := jspread (ts_user_summary s) summary\<rparr>"

definition get_account_info_by_id :: "string \<Rightarrow> trading_state \<Rightarrow> jv option" where
  "get_account_info_by_id a s = ts_account_info_map s a"

definition set_current_account_id :: "string option \<Rightarrow> trading_state \<Rightarrow> trading_state" where
  "set_current_account_id acc s =
     (let chosen = (case acc of None \<Rightarrow> None | Some a \<Rightarrow> if a = [] then None else Some a);
          new_positions = (case chosen of None \<Rightarrow> [] | Some a \<Rightarrow> rows_at s a);
          info = (case chosen of None \<Rightarrow> default_account_info
                  | Some a \<Rightarrow> (case ts_account_info_map s a of
                                 None \<Rightarrow> default_account_info | Some i \<Rightarrow> i))
      in s\<lparr>ts_current := acc, ts_account_info := info, ts_positions := new_positions\<rparr>)"

definition set_trading_loading :: "bool \<Rightarrow> trading_state \<Rightarrow> trading_state" where
  "set_trading_loading b s = s\<lparr>ts_loading := b\<rparr>"

datatype trading_action =
    TouchStream int string
  | SetPositions int string jv bool
  | AddPosition string jv
  | UpdatePosition string jsnum jv
  | RemovePosition string jsnum
  | SetTradeLogs "jv list"
  | AddTradeLog jv
  | SetAccountInfo jv
  | SetAccountInfoById string jv
  | SetUserSummary jv
  | SetCurrentAccount "string option"
  | SetTradingLoading bool

fun trading_step :: "trading_state \<Rightarrow> trading_action \<Rightarrow> trading_state" where
  "trading_step s (TouchStream now a) = touch_stream_profit_at now a s"
| "trading_step s (SetPositions now a ps prefer) = set_positions now a ps prefer s"
| "trading_step s (AddPosition a p) = add_position a p s"
| "trading_step s (UpdatePosition a t u) = update_position a t u s"
| "trading_step s (RemovePosition a t) = remove_position a t s"
| "trading_step s (SetTradeLogs ls) = set_trade_logs ls s"
| "trading_step s (AddTradeLog l) = add_trade_log l s"
| "trading_step s (SetAccountInfo i) = set_account_info i s"
| "trading_step s (SetAccountInfoById a i) = set_account_info_by_id a i s"
| "trading_step s (SetUserSummary u) = set_user_summary u s"
| "trading_step s (SetCurrentAccount acc) = set_current_account_id acc s"
| "trading_step s (SetTradingLoading b) = set_trading_loading b s"

subsection \<open>The rows of one account\<close>

interpretation trows: row_table rows_at put_rows
  by unfold_locales (simp add: rows_at_def put_rows_def)

interpretation tmirror: mirrored_table rows_at put_rows ts_current ts_positions "\<lambda>a. a \<noteq> []"
  by unfold_locales (auto simp: put_rows_def)

lemma rows_at_put_rows [simp]: "rows_at (put_rows a ps s) b = (if b = a then ps else rows_at s b)"
  by (rule trows.rows_put)

lemma put_rows_fields [simp]:
  "ts_current (put_rows a ps s) = ts_current s"
  "ts_account_info (put_rows a ps s) = ts_account_info s"
  "ts_account_info_map (put_rows a ps s) = ts_account_info_map s"
  "ts_received (put_rows a ps s) = ts_received s"
  "ts_last_stream (put_rows a ps s) = ts_last_stream s"
  by (simp_all add: put_rows_def)

lemmas row_op_defs [store_defs] =
  set_positions_def add_position_def update_position_def remove_position_def

lemma rows_set_positions [simp]:
  "rows_at (set_positions now a v prefer s) b =
     (if b = a then merge_rows (stream_fresh now a s) prefer (rows_at s a) (camel_rows v)
      else rows_at s b)"
  by (simp add: set_positions_def)

lemma rows_add_position [simp]:
  "rows_at (add_position a p s) b = (if b = a then rows_at s a @ [to_camel p] else rows_at s b)"
  by (simp add: add_position_def)

lemma rows_update_position [simp]:
  "rows_at (update_position a t u s) b =
     (if b = a then update_where (\<lambda>p. num_eq (ticket_of p) t) (\<lambda>p. jspread p u) (rows_at s a)
      else rows_at s b)"
  by (simp add: update_position_def)

lemma rows_remove_position [simp]:
  "rows_at (remove_position a t s) b =
     (if b = a then filter (\<lambda>p. \<not> num_eq (ticket_of p) t) (rows_at s a) else rows_at s b)"
  by (simp add: remove_position_def)

text \<open>The account an action writes rows of, and the frame around it.\<close>

fun writes_rows_of :: "trading_action \<Rightarrow> string option" where
  "writes_rows_of (SetPositions now a ps prefer) = Some a"
| "writes_rows_of (AddPosition a p) = Some a"
| "writes_rows_of (UpdatePosition a t u) = Some a"
| "writes_rows_of (RemovePosition a t) = Some a"
| "writes_rows_of _ = None"

lemma rows_trading_step_other:
  "writes_rows_of act \<noteq> Some b \<Longrightarrow> rows_at (trading_step s act) b = rows_at s b"
  by (cases act)
    (auto simp: touch_stream_profit_at_def set_trade_logs_def add_trade_log_def set_account_info_def
      set_account_info_by_id_def set_user_summary_def set_current_account_id_def
      set_trading_loading_def rows_at_def put_rows_def row_op_defs Let_def split: option.splits)

subsection \<open>The mirror of the current account\<close>

definition info_at :: "trading_state \<Rightarrow> string \<Rightarrow> jv" where
  "info_at s a = (case ts_account_info_map s a of None \<Rightarrow> default_account_info | Some i \<Rightarrow> i)"

definition trading_inv :: "trading_state \<Rightarrow> bool" where
  "trading_inv s \<longleftrightarrow>
     (\<forall>a. ts_current s = Some a \<and> a \<noteq> [] \<longrightarrow>
        ts_positions s = rows_at s a \<and> ts_account_info s = info_at s a)"

lemma trading_inv_put_rows: "trading_inv s \<Longrightarrow> trading_inv (put_rows a ps s)"
  using tmirror.mirrored_put [of s a ps]
  by (auto simp: trading_inv_def info_at_def)

lemma trading_inv_step: "trading_inv s \<Longrightarrow> trading_inv (trading_step s act)"
proof (cases act)
  case (SetAccountInfo i)
  assume "trading_inv s"
  then show ?thesis
    by (cases "ts_current s")
      (auto simp: SetAccountInfo set_account_info_def trading_inv_def info_at_def rows_at_def Let_def)
next
  case (SetAccountInfoById a i)
  assume "trading_inv s"
  then show ?thesis
    by (auto simp: SetAccountInfoById set_account_info_by_id_def trading_inv_def info_at_def
        rows_at_def Let_def)
next
  case (SetCurrentAccount acc)
  then show ?thesis
    by (auto simp: set_current_account_id_def trading_inv_def info_at_def rows_at_def Let_def
        split: option.splits)
qed (auto simp: row_op_defs intro: trading_inv_put_rows,
    auto simp: trading_inv_def info_at_def rows_at_def touch_stream_profit_at_def set_trade_logs_def
      add_trade_log_def set_user_summary_def set_trading_loading_def)

lemma trading_inv_init: "trading_inv trading_init"
  by (simp add: trading_inv_def trading_init_def)

interpretation trading: machine trading_init trading_step trading_inv
  by unfold_locales (simp_all add: trading_inv_init trading_inv_step)

subsection \<open>The merge of a snapshot\<close>

lemma by_ticket_Some: "by_ticket rows t = Some p \<Longrightarrow> p \<in> set rows \<and> ticket_of p = t"
  by (auto simp: by_ticket_def dest!: map_of_SomeD)

lemma by_ticket_None: "by_ticket rows t = None \<longleftrightarrow> t \<notin> ticket_of ` set rows"
  by (auto simp: by_ticket_def map_of_eq_None_iff image_iff)

lemma jget_keep_stream_fields:
  "jget k (keep_stream_fields old inc) =
     (if k = ''closePrice'' then js_coalesce (jget k old) (jget k inc)
      else if k = ''currentPrice'' then js_or (jget k old) (jget k inc)
      else if k = ''profit'' then jget k old else jget k inc)"
  by (simp add: keep_stream_fields_def)

lemma ticket_keep_stream_fields [simp]: "ticket_of (keep_stream_fields old inc) = ticket_of inc"
  by (simp add: ticket_of_def jget_keep_stream_fields)

lemma tickets_merge_partial:
  "List.map ticket_of (merge_partial prev incoming) =
     List.map ticket_of prev @
     filter (\<lambda>t. t \<notin> ticket_of ` set prev) (List.map ticket_of incoming)"
proof -
  have "ticket_of (case by_ticket incoming (ticket_of old) of
          None \<Rightarrow> old | Some inc \<Rightarrow> keep_stream_fields old inc) = ticket_of old" for old
    by (auto split: option.split dest: by_ticket_Some)
  then show ?thesis
    by (simp add: merge_partial_def by_ticket_None filter_map o_def)
qed

lemma tickets_merge_full: "List.map ticket_of (merge_full prev incoming) = List.map ticket_of incoming"
  by (auto simp: merge_full_def split: option.split)

lemma merge_rows_stale: "\<not> fresh \<Longrightarrow> merge_rows fresh prefer prev incoming = incoming"
  by (simp add: merge_rows_def partial_shrink_def)

lemma merge_rows_shrink:
  "partial_shrink fresh prev incoming \<Longrightarrow>
     merge_rows fresh prefer prev incoming = merge_partial prev incoming"
  by (simp add: merge_rows_def Let_def)

lemma merge_rows_prefer:
  "\<not> partial_shrink fresh prev incoming \<Longrightarrow> merge_rows fresh True prev incoming = incoming"
  by (simp add: merge_rows_def Let_def)

subsection \<open>Properties\<close>

text \<open>
  C2. In every state that the operations of the trading store can produce, the rows and the figures
  shown for the current account are exactly the stored rows and figures of that account (the
  defaults where none are stored): no operation, on the current account or on another one, lets the
  mirror drift.
\<close>

theorem trading_mirror_reachable:
  assumes "s = run trading_step trading_init acts" and "ts_current s = Some a" and "a \<noteq> []"
  shows "ts_positions s = rows_at s a \<and> ts_account_info s = info_at s a"
  using trading.inv_run [of acts] assms by (simp add: trading_inv_def)

definition sample_row :: "int \<Rightarrow> rat \<Rightarrow> jv" where
  "sample_row t profit = JObj [(''ticket'', JBig t), (''profit'', JNum (Fin profit)),
     (''currentPrice'', JNum (Fin 2)), (''closePrice'', JUndef), (''comment'', JStr ''stream'')]"

definition sample_rpc_row :: "int \<Rightarrow> rat \<Rightarrow> jv" where
  "sample_rpc_row t profit = JObj [(''ticket'', JBig t), (''profit'', JNum (Fin profit)),
     (''current_price'', JNum (Fin 3)), (''comment'', JStr ''rpc'')]"

definition sample_acts :: "trading_action list" where
  "sample_acts =
     [SetCurrentAccount (Some ''A''), SetAccountInfoById ''A'' (JObj [(''balance'', JNum (Fin 5))]),
      TouchStream 1000 ''A'', AddPosition ''A'' (sample_row 1 10), AddPosition ''A'' (sample_row 2 20)]"

definition sample_trading :: trading_state where
  "sample_trading = run trading_step trading_init sample_acts"

lemma sample_rows: "rows_at sample_trading ''A'' = [sample_row 1 10, sample_row 2 20]"
  by code_simp

lemma sample_fresh: "stream_fresh 2000 ''A'' sample_trading"
  by code_simp

theorem trading_mirror_reachable_witness:
  "ts_positions sample_trading = rows_at sample_trading ''A'' \<and>
   ts_account_info sample_trading = info_at sample_trading ''A''"
  by (rule trading_mirror_reachable [of _ sample_acts])
    (simp_all add: sample_trading_def sample_acts_def set_current_account_id_def
      set_account_info_by_id_def touch_stream_profit_at_def add_position_def Let_def)

text \<open>
  C1. A snapshot with fewer rows than the table, arriving while the profit stream is fresh, never
  makes a row disappear or reorders the list: the tickets afterwards are the tickets before, in the
  same order, followed by the tickets of the snapshot that were unknown.
\<close>

theorem partial_snapshot_keeps_tickets:
  assumes "partial_shrink (stream_fresh now a s) (rows_at s a) (camel_rows v)"
  shows "List.map ticket_of (rows_at (set_positions now a v prefer s) a) =
    List.map ticket_of (rows_at s a) @
    filter (\<lambda>t. t \<notin> ticket_of ` set (rows_at s a)) (List.map ticket_of (camel_rows v))"
  using assms by (simp add: merge_rows_shrink tickets_merge_partial)

theorem partial_snapshot_keeps_tickets_witness:
  "List.map ticket_of (rows_at (set_positions 2000 ''A'' (JArr [sample_rpc_row 3 7]) False
     sample_trading) ''A'') = [Fin 1, Fin 2, Fin 3]"
proof -
  have "partial_shrink (stream_fresh 2000 ''A'' sample_trading) (rows_at sample_trading ''A'')
      (camel_rows (JArr [sample_rpc_row 3 7]))"
    using sample_fresh by (simp add: partial_shrink_def sample_rows camel_rows_def)
  from partial_snapshot_keeps_tickets [OF this, of False] show ?thesis
    by (simp add: sample_rows camel_rows_def) code_simp
qed

text \<open>
  While the profit stream is fresh, a snapshot that is not a partial one is taken row by row:
  the table has the snapshot's tickets in the snapshot's order, a row whose ticket was known keeps
  the stream's profit, keeps the stream's price unless it was missing, and takes every other field
  from the snapshot; a row with a new ticket is taken as it is.
\<close>

theorem fresh_snapshot_merge:
  assumes "stream_fresh now a s" and "rows_at s a \<noteq> []"
    and "\<not> partial_shrink True (rows_at s a) (camel_rows v)" and "i < length (camel_rows v)"
  defines "row \<equiv> rows_at (set_positions now a v False s) a ! i"
  shows "List.map ticket_of (rows_at (set_positions now a v False s) a) =
      List.map ticket_of (camel_rows v) \<and>
    (case by_ticket (rows_at s a) (ticket_of (camel_rows v ! i)) of
       None \<Rightarrow> row = camel_rows v ! i
     | Some old \<Rightarrow> jget ''profit'' row = jget ''profit'' old \<and>
         jget ''currentPrice'' row =
           js_or (jget ''currentPrice'' old) (jget ''currentPrice'' (camel_rows v ! i)) \<and>
         (\<forall>k. k \<notin> {''profit'', ''currentPrice'', ''closePrice''} \<longrightarrow>
            jget k row = jget k (camel_rows v ! i)))"
proof -
  have eq: "rows_at (set_positions now a v False s) a = merge_full (rows_at s a) (camel_rows v)"
    using assms by (simp add: merge_rows_def Let_def)
  show ?thesis
    unfolding row_def eq tickets_merge_full
    using assms(4) by (auto simp: merge_full_def jget_keep_stream_fields split: option.split)
qed

theorem fresh_snapshot_merge_witness:
  "jget ''profit'' (rows_at (set_positions 2000 ''A'' (JArr [sample_rpc_row 2 7, sample_rpc_row 3 8])
     False sample_trading) ''A'' ! 0) = JNum (Fin 20)"
proof -
  let ?v = "JArr [sample_rpc_row 2 7, sample_rpc_row 3 8]"
  have "\<not> partial_shrink True (rows_at sample_trading ''A'') (camel_rows ?v)"
    and "rows_at sample_trading ''A'' \<noteq> []" and "0 < length (camel_rows ?v)"
    by (simp_all add: partial_shrink_def sample_rows camel_rows_def)
  moreover have "by_ticket (rows_at sample_trading ''A'') (ticket_of (camel_rows ?v ! 0)) =
      Some (sample_row 2 20)"
    unfolding sample_rows by code_simp
  ultimately show ?thesis
    using fresh_snapshot_merge [OF sample_fresh, of ?v 0]
    by (simp add: sample_row_def jget_def [of _ "JObj _"])
qed

text \<open>
  Outside the merge window, or when the caller prefers the figures of the call and the snapshot
  is not a partial one, the snapshot replaces the rows of its account without change, and the rows of
  every other account stay as they are.
\<close>

theorem authoritative_snapshot_replaces:
  assumes "\<not> stream_fresh now a s \<or>
      prefer \<and> \<not> partial_shrink (stream_fresh now a s) (rows_at s a) (camel_rows v)"
  shows "rows_at (set_positions now a v prefer s) b =
    (if b = a then camel_rows v else rows_at s b)"
proof (cases "stream_fresh now a s")
  case True
  with assms show ?thesis by (simp add: merge_rows_prefer)
next
  case False
  then show ?thesis by (simp add: merge_rows_stale)
qed

theorem authoritative_snapshot_replaces_witness:
  "rows_at (set_positions 9000 ''A'' (JArr [sample_rpc_row 2 7]) False sample_trading) ''A'' =
     [to_camel (sample_rpc_row 2 7)]"
proof -
  have "\<not> stream_fresh 9000 ''A'' sample_trading" by code_simp
  then show ?thesis
    using authoritative_snapshot_replaces [of 9000 "''A''" sample_trading False
        "JArr [sample_rpc_row 2 7]" "''A''"]
    by (simp add: camel_rows_def)
qed

text \<open>
  In the merge window of a partial snapshot the option \<open>preferRpcProfit\<close> has no effect: the
  result is the same with and without it, and a row present in the snapshot still shows the profit
  it had before, not the profit the call returned.
\<close>

theorem partial_snapshot_ignores_prefer_rpc:
  assumes "partial_shrink (stream_fresh now a s) (rows_at s a) (camel_rows v)"
    and "i < length (rows_at s a)"
  shows "set_positions now a v True s = set_positions now a v False s \<and>
    jget ''profit'' (rows_at (set_positions now a v True s) a ! i) =
      jget ''profit'' (rows_at s a ! i)"
proof -
  have "set_positions now a v True s = set_positions now a v False s"
    using assms(1) by (simp add: set_positions_def merge_rows_shrink)
  moreover have "jget ''profit'' (merge_partial (rows_at s a) (camel_rows v) ! i) =
      jget ''profit'' (rows_at s a ! i)"
    using assms(2)
    by (simp add: merge_partial_def nth_append jget_keep_stream_fields split: option.split)
  ultimately show ?thesis using assms(1) by (simp add: merge_rows_shrink)
qed

theorem partial_snapshot_ignores_prefer_rpc_witness:
  "jget ''profit'' (rows_at (set_positions 2000 ''A'' (JArr [sample_rpc_row 1 99]) True
     sample_trading) ''A'' ! 0) = JNum (Fin 10)"
proof -
  have "partial_shrink (stream_fresh 2000 ''A'' sample_trading) (rows_at sample_trading ''A'')
      (camel_rows (JArr [sample_rpc_row 1 99]))"
    and "0 < length (rows_at sample_trading ''A'')"
    using sample_fresh by (simp_all add: partial_shrink_def sample_rows camel_rows_def)
  from partial_snapshot_ignores_prefer_rpc [OF this]
  have "jget ''profit'' (rows_at (set_positions 2000 ''A'' (JArr [sample_rpc_row 1 99]) True
      sample_trading) ''A'' ! 0) = jget ''profit'' (rows_at sample_trading ''A'' ! 0)"
    by blast
  also have "\<dots> = JNum (Fin 10)"
    by (simp add: sample_rows sample_row_def jget_def)
  finally show ?thesis .
qed

end
