(* ===== verification/ErrorText.thy ===== *)
theory ErrorText
  imports JsNumber
begin

text \<open>
  Texts shown for failures (\<open>utils/error.ts\<close>, \<open>utils/tradingRiskError.ts\<close>,
  \<open>utils/streamErrors.ts\<close>).  The translation function of \<open>i18next\<close> is the parameter \<open>t\<close>;
  a thrown value is a dynamic value, as it is for the code.
\<close>

subsection \<open>Error messages\<close>

definition translate_maybe_i18n_key :: "(string \<Rightarrow> string) \<Rightarrow> jv \<Rightarrow> string \<Rightarrow> string" where
  "translate_maybe_i18n_key t msg fallback =
     (let trimmed = js_trim (js_string (js_coalesce msg (JStr [])))
      in if trimmed = [] then fallback
         else if js_includes trimmed ''.'' \<and> \<not> js_includes trimmed '' '' then
           (let translated = t trimmed
            in if translated \<noteq> [] \<and> translated \<noteq> trimmed then translated else fallback)
         else trimmed)"

fun is_object :: "jv \<Rightarrow> bool" where
  "is_object (JObj _) = True"
| "is_object (JArr _) = True"
| "is_object _ = False"

text \<open>\<open>None\<close> is the \<open>TypeError\<close> of \<open>includes\<close> on a message that is not a string.\<close>

definition is_connection_error :: "jv \<Rightarrow> bool option" where
  "is_connection_error err =
     (if is_object err \<and> map_of (jfields err) ''message'' \<noteq> None
      then (case jget ''message'' err of
              JStr m \<Rightarrow> Some (js_includes m ''Failed to fetch'') | _ \<Rightarrow> None)
      else Some False)"

definition free_tier_text :: "string \<Rightarrow> bool" where
  "free_tier_text lower \<longleftrightarrow> js_includes lower ''allocationquota.freetieronly'' \<or>
     js_includes lower ''free tier'' \<or> js_includes lower ''free-tier only''"

definition rate_limit_text :: "string \<Rightarrow> bool" where
  "rate_limit_text lower \<longleftrightarrow> js_includes lower ''[resource_exhausted]'' \<or>
     js_includes lower ''status 429'' \<or> js_includes lower ''too many requests''"

definition quota_text :: "string \<Rightarrow> bool" where
  "quota_text lower \<longleftrightarrow> js_includes lower ''status 403'' \<and>
     (js_includes lower ''quota'' \<or> js_includes lower ''exhaust'' \<or> js_includes lower ''allocation'')"

definition error_message_text :: "(string \<Rightarrow> string) \<Rightarrow> string \<Rightarrow> string \<Rightarrow> string" where
  "error_message_text t error_msg default_msg =
     (let trimmed = js_trim error_msg;
          maybe_translated = translate_maybe_i18n_key t (JStr trimmed) default_msg;
          lower = js_lower error_msg
      in if maybe_translated \<noteq> trimmed then maybe_translated
         else if js_includes error_msg ''Failed to fetch'' then t ''errors.connection_failed.title''
         else if free_tier_text lower then t ''errors.ai.free_tier_exhausted''
         else if rate_limit_text lower then t ''errors.ai.rate_limited''
         else if quota_text lower then t ''errors.ai.forbidden_quota''
         else error_msg)"

definition get_error_message :: "(string \<Rightarrow> string) \<Rightarrow> jv \<Rightarrow> string \<Rightarrow> string" where
  "get_error_message t err default_msg =
     (if is_object err then
        (let legacy = jget ''message'' (jget ''data'' (jget ''response'' err))
         in if truthy legacy then translate_maybe_i18n_key t legacy default_msg
            else case jget ''message'' err of
                JStr error_msg \<Rightarrow> error_message_text t error_msg default_msg
              | _ \<Rightarrow> default_msg)
      else default_msg)"

subsection \<open>Risk codes of rejected orders\<close>

definition known_risk_codes :: "string list" where
  "known_risk_codes =
     [''RISK_ACCOUNT_TRADE_DISABLED'', ''RISK_SYMBOL_TRADE_DISABLED'',
      ''RISK_MARKET_SESSION_CLOSED'', ''RISK_VOLUME_INVALID'', ''RISK_ORDER_TYPE_UNSUPPORTED'',
      ''RISK_STOP_DISTANCE_TOO_CLOSE'', ''RISK_ORDER_FROZEN_ZONE'', ''RISK_MARGIN_INSUFFICIENT'',
      ''RISK_MAX_OPEN_POSITIONS_EXCEEDED'', ''RISK_MAX_PENDING_ORDERS_EXCEEDED'',
      ''RISK_INTERNAL_RULE_UNAVAILABLE'']"

definition normalize_risk_code :: "string option \<Rightarrow> string" where
  "normalize_risk_code raw = js_upper (js_trim (case raw of None \<Rightarrow> [] | Some s \<Rightarrow> s))"

definition risk_char :: "char \<Rightarrow> bool" where
  "risk_char c \<longleftrightarrow> is_upper c \<or> is_digit c \<or> c = CHR ''_''"

text \<open>\<open>s.match(/RISK_[A-Z0-9_]+/)\<close>: the leftmost match, as long as possible.\<close>

fun match_risk :: "string \<Rightarrow> string option" where
  "match_risk [] = None"
| "match_risk (c # s) =
     (if prefix ''RISK_'' (c # s) \<and> takeWhile risk_char (drop 5 (c # s)) \<noteq> []
      then Some (''RISK_'' @ takeWhile risk_char (drop 5 (c # s)))
      else match_risk s)"

fun extract_risk_error_code :: "string option list \<Rightarrow> string" where
  "extract_risk_error_code [] = []"
| "extract_risk_error_code (candidate # rest) =
     (let normalized = normalize_risk_code candidate
      in if normalized = [] then extract_risk_error_code rest
         else if normalized \<in> set known_risk_codes then normalized
         else case match_risk normalized of
             None \<Rightarrow> extract_risk_error_code rest
           | Some m \<Rightarrow> (if m \<in> set known_risk_codes then m else extract_risk_error_code rest))"

definition trading_risk_toast_message ::
    "(string \<Rightarrow> string) \<Rightarrow> string option \<Rightarrow> string option \<Rightarrow> string option \<Rightarrow> string \<Rightarrow> string" where
  "trading_risk_toast_message t risk_code err msg fallback =
     (let code = extract_risk_error_code [risk_code, err, msg]
      in if code = [] then fallback
         else
           (let title_key = ''trading.risk.errors.'' @ code @ ''.title'';
                action_key = ''trading.risk.errors.'' @ code @ ''.action'';
                title = t title_key;
                action = t action_key
            in if title \<noteq> [] \<and> action \<noteq> [] \<and> title \<noteq> title_key \<and> action \<noteq> action_key
               then title @ '' '' @ action else fallback))"

subsection \<open>Failures of the stream transport\<close>

text \<open>
  What the code reads of a thrown value: \<open>name\<close>, \<open>message\<close>, \<open>String(error)\<close>,
  \<open>cause?.message\<close> and \<open>String(cause)\<close>, each the empty string where the value is nullish.
\<close>

record stream_error =
  se_name :: string
  se_message :: string
  se_string :: string
  se_cause_message :: string
  se_cause :: string

definition transport_failure_texts :: "string list" where
  "transport_failure_texts =
     [''network error'', ''err_http2'', ''http2_protocol'', ''protocol_error'', ''failed to fetch'',
      ''load failed'', ''the network connection was lost'', '' 524'', ''524 '', ''status code 524'',
      ''http 524'', ''timeout occurred'', ''gateway time-out'', ''gateway timeout'',
      ''deadline exceeded'', ''err_unavailable'', ''unavailable'']"

definition is_likely_stream_transport_failure :: "stream_error \<Rightarrow> bool" where
  "is_likely_stream_transport_failure e =
     (let parts = js_lower (js_join '' '' [se_message e, se_string e, se_cause_message e, se_cause e])
      in list_ex (js_includes parts) transport_failure_texts)"

definition is_stream_service_procedure :: "string \<Rightarrow> bool" where
  "is_stream_service_procedure proc_lower \<longleftrightarrow>
     js_includes proc_lower ''streamservice'' \<or> js_includes proc_lower ''debatev2streamservice''"

subsection \<open>Facts\<close>

lemma translate_maybe_key:
  assumes "js_includes (js_trim s) ''.''" and "\<not> js_includes (js_trim s) '' ''" and "js_trim s \<noteq> []"
  shows "translate_maybe_i18n_key t (JStr s) fallback =
    (if t (js_trim s) \<noteq> [] \<and> t (js_trim s) \<noteq> js_trim s then t (js_trim s) else fallback)"
  using assms by (simp add: translate_maybe_i18n_key_def js_coalesce_def Let_def)

lemma translate_maybe_plain:
  assumes "\<not> (js_includes (js_trim s) ''.'' \<and> \<not> js_includes (js_trim s) '' '')" and "js_trim s \<noteq> []"
  shows "translate_maybe_i18n_key t (JStr s) fallback = js_trim s"
  using assms unfolding translate_maybe_i18n_key_def by (simp add: js_coalesce_def Let_def) blast

lemma risk_char_upper: "\<forall>c \<in> set s. \<not> is_lower c \<Longrightarrow> js_upper s = s"
  by (simp add: js_upper_def upper_char_def map_idI)

lemma known_codes_risk_chars: "code \<in> set known_risk_codes \<Longrightarrow> list_all risk_char code \<and> code \<noteq> []"
proof -
  have "list_all (\<lambda>code. list_all risk_char code \<and> code \<noteq> []) known_risk_codes"
    by code_simp
  then show "code \<in> set known_risk_codes \<Longrightarrow> list_all risk_char code \<and> code \<noteq> []"
    by (simp add: list_all_iff)
qed

lemma known_codes_match_themselves: "code \<in> set known_risk_codes \<Longrightarrow> match_risk code = Some code"
proof -
  have "list_all (\<lambda>code. match_risk code = Some code) known_risk_codes"
    by code_simp
  then show "code \<in> set known_risk_codes \<Longrightarrow> match_risk code = Some code"
    by (simp add: list_all_iff)
qed

lemma risk_no_overlap: "prefix ''RISK_'' (p @ ''RISK_'' @ r) \<Longrightarrow> p = [] \<or> prefix ''RISK_'' p"
  by (cases p; cases "tl p"; cases "tl (tl p)"; cases "tl (tl (tl p))"; cases "tl (tl (tl (tl p)))")
    auto

lemma match_risk_here:
  assumes "list_all risk_char code" and "suf = [] \<or> \<not> risk_char (hd suf)" and "code \<noteq> []"
  shows "match_risk (''RISK_'' @ code @ suf) = Some (''RISK_'' @ code)"
proof -
  have "takeWhile risk_char (code @ suf) = code"
    using assms(1,2) by (cases suf) (simp_all add: list_all_iff takeWhile_append)
  with assms(3) show ?thesis by simp
qed

lemma match_risk_Cons: "\<not> prefix ''RISK_'' (c # s) \<Longrightarrow> match_risk (c # s) = match_risk s"
  by (simp only: match_risk.simps simp_thms if_False)

lemma match_risk_skip:
  "\<not> js_includes pre ''RISK_'' \<Longrightarrow> match_risk (pre @ ''RISK_'' @ r) = match_risk (''RISK_'' @ r)"
proof (induction pre)
  case Nil
  then show ?case by simp
next
  case (Cons c pre)
  then have "\<not> prefix ''RISK_'' (c # pre)" by simp
  then have "\<not> prefix ''RISK_'' ((c # pre) @ ''RISK_'' @ r)"
    using risk_no_overlap [of "c # pre" r] by blast
  then have "match_risk ((c # pre) @ ''RISK_'' @ r) = match_risk (pre @ ''RISK_'' @ r)"
    by (metis append_Cons match_risk_Cons)
  with Cons show ?case by simp
qed

subsection \<open>Properties\<close>

text \<open>
  The code extracted from the candidates of a rejected order is always empty or one of the known
  risk codes, and it is empty exactly when no candidate is a known code or has one as its first match.
\<close>

theorem extract_risk_code_known:
  "extract_risk_error_code cs \<in> insert [] (set known_risk_codes) \<and>
   (extract_risk_error_code cs = [] \<longleftrightarrow>
      list_all (\<lambda>c. normalize_risk_code c \<notin> set known_risk_codes \<and>
                   match_risk (normalize_risk_code c) \<notin> Some ` set known_risk_codes) cs)"
proof (induction cs)
  case Nil
  then show ?case by simp
next
  case (Cons c cs)
  have ne: "[] \<notin> set known_risk_codes" by (auto dest: known_codes_risk_chars)
  consider "normalize_risk_code c = []" | "normalize_risk_code c \<in> set known_risk_codes"
    | "normalize_risk_code c \<noteq> []" "normalize_risk_code c \<notin> set known_risk_codes" by blast
  then show ?case
  proof cases
    case 3
    with Cons ne show ?thesis
      by (cases "match_risk (normalize_risk_code c)") (auto simp: Let_def)
  qed (use Cons ne in \<open>auto simp: Let_def\<close>)
qed

text \<open>
  A known risk code anywhere inside the first candidate, in any letter case, is found: whatever
  text without a code stands before it and whatever text that does not continue the code follows.
\<close>

theorem extract_risk_code_in_text:
  assumes "''RISK_'' @ code \<in> set known_risk_codes"
    and "normalize_risk_code (Some raw) = pre @ (''RISK_'' @ code) @ suf"
    and "\<not> js_includes pre ''RISK_''" and "suf = [] \<or> \<not> risk_char (hd suf)"
  shows "extract_risk_error_code (Some raw # cs) = ''RISK_'' @ code"
proof -
  have "list_all risk_char (''RISK_'' @ code)"
    using known_codes_risk_chars [OF assms(1)] by simp
  moreover have "code \<noteq> []"
  proof
    assume "code = []"
    with assms(1) show False by (simp add: known_risk_codes_def)
  qed
  ultimately have m: "match_risk (pre @ (''RISK_'' @ code) @ suf) = Some (''RISK_'' @ code)"
    using assms(3,4) match_risk_here [of code suf] match_risk_skip [of pre "code @ suf"] by simp
  show ?thesis
  proof (cases "normalize_risk_code (Some raw) \<in> set known_risk_codes")
    case True
    then have "match_risk (normalize_risk_code (Some raw)) = Some (normalize_risk_code (Some raw))"
      by (rule known_codes_match_themselves)
    with m assms(2) have "normalize_risk_code (Some raw) = ''RISK_'' @ code" by simp
    with assms(1) show ?thesis by (simp add: Let_def)
  next
    case False
    with m assms(1,2) show ?thesis by (simp add: Let_def)
  qed
qed

theorem extract_risk_code_in_text_witness:
  "extract_risk_error_code [Some ''order rejected: risk_margin_insufficient (free margin 3)''] =
     ''RISK_MARGIN_INSUFFICIENT''"
proof -
  have "''RISK_'' @ ''MARGIN_INSUFFICIENT'' \<in> set known_risk_codes"
    and "normalize_risk_code (Some ''order rejected: risk_margin_insufficient (free margin 3)'') =
      ''ORDER REJECTED: '' @ (''RISK_'' @ ''MARGIN_INSUFFICIENT'') @ '' (FREE MARGIN 3)''"
    and "\<not> js_includes ''ORDER REJECTED: '' ''RISK_''"
    and "'' (FREE MARGIN 3)'' = [] \<or> \<not> risk_char (hd '' (FREE MARGIN 3)'')"
    by code_simp+
  from extract_risk_code_in_text [OF this, of "[]"] show ?thesis by simp
qed

text \<open>
  A message that is a translation key (it has a dot and no space) is never shown as it is: the
  text shown is the translation, or the default where the key has none; in particular it differs from
  the key unless the default is that key.
\<close>

theorem error_message_never_leaks_key:
  assumes "jget ''message'' err = JStr msg" and "is_object err"
    and "\<not> truthy (jget ''message'' (jget ''data'' (jget ''response'' err)))"
    and "js_includes (js_trim msg) ''.''" and "\<not> js_includes (js_trim msg) '' ''"
    and "default_msg \<noteq> js_trim msg"
  shows "get_error_message t err default_msg =
      (if t (js_trim msg) \<in> {[], js_trim msg} then default_msg else t (js_trim msg)) \<and>
    get_error_message t err default_msg \<noteq> js_trim msg"
proof -
  have ne: "js_trim msg \<noteq> []" using assms(4) by auto
  have "translate_maybe_i18n_key t (JStr (js_trim msg)) default_msg =
      (if t (js_trim msg) \<in> {[], js_trim msg} then default_msg else t (js_trim msg))"
    using translate_maybe_key [of "js_trim msg"] assms(4,5) ne by auto
  with assms show ?thesis
    by (auto simp: get_error_message_def error_message_text_def Let_def)
qed

theorem error_message_never_leaks_key_witness:
  "get_error_message (\<lambda>k. k) (JObj [(''message'', JStr '' errors.ai.unknown '')]) ''Failed'' = ''Failed''"
proof -
  have "js_trim '' errors.ai.unknown '' = ''errors.ai.unknown''" by code_simp
  then show ?thesis
    using error_message_never_leaks_key [of "JObj [(''message'', JStr '' errors.ai.unknown '')]"
        "'' errors.ai.unknown ''" "''Failed''" "\<lambda>k. k"]
    by (simp add: jget_def)
qed

text \<open>
  The user always gets a text: with a translation function that leaves no key empty and a
  non-empty default, the message of a failure is never empty, whatever value was thrown.
\<close>

theorem error_message_not_empty:
  assumes "\<And>k. k \<noteq> [] \<Longrightarrow> t k \<noteq> []" and "default_msg \<noteq> []"
  shows "get_error_message t err default_msg \<noteq> []"
proof -
  have tm: "translate_maybe_i18n_key t v default_msg \<noteq> []" for v
    using assms by (simp add: translate_maybe_i18n_key_def Let_def)
  have "error_message_text t m default_msg \<noteq> []" for m
  proof (cases "m = []")
    case True
    with tm [of "JStr []"] show ?thesis by (auto simp: error_message_text_def Let_def)
  next
    case False
    with tm [of "JStr (js_trim m)"] assms(1) show ?thesis
      by (simp add: error_message_text_def Let_def)
  qed
  with tm assms(2) show ?thesis
    by (simp add: get_error_message_def Let_def split: jv.split)
qed

theorem error_message_not_empty_witness:
  "get_error_message (\<lambda>k. k) (JObj [(''message'', JStr '' '')]) ''Failed'' \<noteq> []"
  by (rule error_message_not_empty) simp_all

end
