(* ===== verification/Effects.thy ===== *)
theory Effects
  imports ErrorText DataAdapter
begin

text \<open>
  What the operations of the hooks do besides changing a store: the messages they show and the
  outcomes of the remote calls they wait for.  The remote services are outside the repository, so the
  outcome of every call is an argument of the operation: \<open>Inl e\<close> where the call throws \<open>e\<close>,
  \<open>Inr v\<close> where it returns \<open>v\<close>.  Results have the same shape, \<open>Inl\<close> for an operation that throws.
\<close>

datatype toast =
    ToastSuccess string
  | ToastError string
  | ToastWarning string
  | ToastInfo string

type_synonym 'a outcome = "jv + 'a"

text \<open>\<open>showError(getErrorMessage(error, i18n.t(key)))\<close>\<close>

definition error_toast :: "(string \<Rightarrow> string) \<Rightarrow> jv \<Rightarrow> string \<Rightarrow> toast" where
  "error_toast t err key = ToastError (get_error_message t err (t key))"

fun jv_list :: "jv \<Rightarrow> jv list" where
  "jv_list (JArr xs) = xs"
| "jv_list _ = []"

lemma camel_rows_jv_list: "camel_rows v = List.map to_camel (jv_list v)"
  by (cases v) (simp_all add: camel_rows_def)

text \<open>
  The contract of an operation that shows a busy flag around its calls: whatever the calls answer,
  the flag is down afterwards.
\<close>

locale busy_operation =
  fixes busy :: "'s \<Rightarrow> bool"
    and operation :: "'i \<Rightarrow> 's \<Rightarrow> 's \<times> 'r"
  assumes not_busy_after: "\<not> busy s \<Longrightarrow> \<not> busy (fst (operation i s))"
begin

lemma not_busy_after_all:
  "\<not> busy s \<Longrightarrow> \<not> busy (foldl (\<lambda>s i. fst (operation i s)) s is)"
  by (induction "is" arbitrary: s) (simp_all add: not_busy_after)

end

end
