(* ===== verification/AccountStore.thy ===== *)
theory AccountStore
  imports Effects
begin

text \<open>
  The account list (\<open>stores/accountStore.ts\<close>) and the operations of the hook that fills it
  (\<open>hooks/useAccount.ts\<close>).  Accounts are dynamic objects: the store converts every account it
  receives to camel case and reads only \<open>id\<close>.  A hook operation is one run, with the outcomes of
  its calls as arguments.
\<close>

subsection \<open>The store\<close>

record account_state =
  ac_accounts :: "jv list"
  ac_current :: jv
  ac_loading :: bool
  ac_enabling :: "string option"

definition account_init :: account_state where
  "account_init = \<lparr>ac_accounts = [], ac_current = JNull, ac_loading = False, ac_enabling = None\<rparr>"

definition account_id :: "jv \<Rightarrow> jv" where
  "account_id a = jget ''id'' a"

definition same_id :: "jv \<Rightarrow> jv \<Rightarrow> bool" where
  "same_id i a \<longleftrightarrow> js_strict_eq (account_id a) i"

definition set_accounts :: "jv \<Rightarrow> account_state \<Rightarrow> account_state" where
  "set_accounts v s = s\<lparr>ac_accounts := camel_rows v\<rparr>"

definition set_current_account :: "jv \<Rightarrow> account_state \<Rightarrow> account_state" where
  "set_current_account a s = s\<lparr>ac_current := (if truthy a then to_camel a else JNull)\<rparr>"

definition set_account_loading :: "bool \<Rightarrow> account_state \<Rightarrow> account_state" where
  "set_account_loading b s = s\<lparr>ac_loading := b\<rparr>"

definition set_enabling_account :: "string option \<Rightarrow> account_state \<Rightarrow> account_state" where
  "set_enabling_account i s = s\<lparr>ac_enabling := i\<rparr>"

definition add_account :: "jv \<Rightarrow> account_state \<Rightarrow> account_state" where
  "add_account a s = s\<lparr>ac_accounts := ac_accounts s @ [to_camel a]\<rparr>"

definition update_account :: "jv \<Rightarrow> account_state \<Rightarrow> account_state" where
  "update_account a s = s\<lparr>
     ac_accounts := update_where (same_id (account_id a)) (\<lambda>_. to_camel a) (ac_accounts s),
     ac_current := (if same_id (account_id a) (ac_current s) then to_camel a else ac_current s)\<rparr>"

definition update_account_status :: "string \<Rightarrow> string \<Rightarrow> account_state \<Rightarrow> account_state" where
  "update_account_status i status s = s\<lparr>
     ac_accounts := update_where (same_id (JStr i)) (jset ''status'' (JStr status)) (ac_accounts s),
     ac_current := (if same_id (JStr i) (ac_current s)
                    then jset ''status'' (JStr status) (ac_current s) else ac_current s)\<rparr>"

definition remove_account :: "string \<Rightarrow> account_state \<Rightarrow> account_state" where
  "remove_account i s = s\<lparr>
     ac_accounts := filter (\<lambda>a. \<not> same_id (JStr i) a) (ac_accounts s),
     ac_current := (if same_id (JStr i) (ac_current s) then JNull else ac_current s)\<rparr>"

datatype account_action =
    AcSetAccounts jv
  | AcSetCurrent jv
  | AcSetLoading bool
  | AcSetEnabling "string option"
  | AcAdd jv
  | AcUpdate jv
  | AcUpdateStatus string string
  | AcRemove string

fun account_step :: "account_state \<Rightarrow> account_action \<Rightarrow> account_state" where
  "account_step s (AcSetAccounts v) = set_accounts v s"
| "account_step s (AcSetCurrent a) = set_current_account a s"
| "account_step s (AcSetLoading b) = set_account_loading b s"
| "account_step s (AcSetEnabling i) = set_enabling_account i s"
| "account_step s (AcAdd a) = add_account a s"
| "account_step s (AcUpdate a) = update_account a s"
| "account_step s (AcUpdateStatus i st) = update_account_status i st s"
| "account_step s (AcRemove i) = remove_account i s"

subsection \<open>The hook\<close>

type_synonym hook_result = "toast list \<times> jv outcome"

definition fetch_accounts ::
    "(string \<Rightarrow> string) \<Rightarrow> bool \<Rightarrow> jv outcome \<Rightarrow> account_state \<Rightarrow> account_state \<times> hook_result" where
  "fetch_accounts t force list_outcome s =
     (if ac_accounts s \<noteq> [] \<and> \<not> force then (s, [], Inr (JArr (ac_accounts s)))
      else
        (let s1 = set_account_loading True s
         in case list_outcome of
              Inr account_list \<Rightarrow>
                (set_account_loading False (set_accounts (JArr (jv_list account_list)) s1), [],
                 Inr (JArr (jv_list account_list)))
            | Inl e \<Rightarrow>
                (set_account_loading False (set_accounts (JArr []) s1),
                 [error_toast t e ''accounts.messages.fetchListFailed''], Inr (JArr []))))"

definition fetch_account ::
    "(string \<Rightarrow> string) \<Rightarrow> bool \<Rightarrow> jv outcome \<Rightarrow> account_state \<Rightarrow> account_state \<times> hook_result" where
  "fetch_account t show_loading get_outcome s =
     (let s1 = (if show_loading then set_account_loading True s else s);
          done = (\<lambda>s. if show_loading then set_account_loading False s else s)
      in case get_outcome of
           Inr account \<Rightarrow> (done (set_current_account account s1), [], Inr account)
         | Inl e \<Rightarrow> (done s1, [error_toast t e ''accounts.messages.fetchAccountFailed''], Inr JNull))"

definition create_account ::
    "(string \<Rightarrow> string) \<Rightarrow> jv outcome \<Rightarrow> account_state \<Rightarrow> account_state \<times> hook_result" where
  "create_account t create_outcome s =
     (let s1 = set_account_loading True s
      in case create_outcome of
           Inr account \<Rightarrow>
             (set_account_loading False (add_account account s1),
              [ToastSuccess (t ''accounts.messages.createdSuccess'')], Inr account)
         | Inl e \<Rightarrow>
             (set_account_loading False s1,
              [error_toast t e ''accounts.messages.createFailed''], Inl e))"

definition bind_account ::
    "(string \<Rightarrow> string) \<Rightarrow> jv outcome \<Rightarrow> account_state \<Rightarrow> account_state \<times> hook_result" where
  "bind_account t create_outcome s = create_account t create_outcome s"

definition connect_account ::
    "(string \<Rightarrow> string) \<Rightarrow> jv outcome \<Rightarrow> jv outcome \<Rightarrow> account_state \<Rightarrow> account_state \<times> hook_result" where
  "connect_account t connect_outcome get_outcome s =
     (case connect_outcome of
        Inl e \<Rightarrow> (s, [error_toast t e ''accounts.messages.connectFailed''], Inl e)
      | Inr result \<Rightarrow>
          (let shown = (if truthy (jget ''success'' result)
                        then [ToastSuccess (t ''accounts.messages.connectSuccess'')] else [])
           in case get_outcome of
                Inl e \<Rightarrow> (s, shown @ [error_toast t e ''accounts.messages.connectFailed''], Inl e)
              | Inr account \<Rightarrow> (update_account account s, shown, Inr account)))"

definition disconnect_account ::
    "(string \<Rightarrow> string) \<Rightarrow> unit outcome \<Rightarrow> jv outcome \<Rightarrow> account_state \<Rightarrow> account_state \<times> hook_result" where
  "disconnect_account t disconnect_outcome get_outcome s =
     (case disconnect_outcome of
        Inl e \<Rightarrow> (s, [error_toast t e ''accounts.messages.disconnectFailed''], Inl e)
      | Inr _ \<Rightarrow>
          (case get_outcome of
             Inl e \<Rightarrow> (s, [error_toast t e ''accounts.messages.disconnectFailed''], Inl e)
           | Inr account \<Rightarrow> (update_account account s, [], Inr JUndef)))"

text \<open>
  The operations that switch an account on and off write an optimistic status between their calls; they are modelled
  answer by answer with the page that runs them, in \<open>AccountPage\<close>.
\<close>

definition delete_account ::
    "(string \<Rightarrow> string) \<Rightarrow> string \<Rightarrow> unit outcome \<Rightarrow> account_state \<Rightarrow> account_state \<times> hook_result" where
  "delete_account t i delete_outcome s =
     (case delete_outcome of
        Inr _ \<Rightarrow> (remove_account i s, [ToastSuccess (t ''accounts.messages.deleted'')], Inr JUndef)
      | Inl e \<Rightarrow> (s, [error_toast t e ''accounts.messages.deleteFailed''], Inl e))"

lemmas account_op_defs [store_defs] =
  set_accounts_def set_current_account_def set_account_loading_def set_enabling_account_def
  add_account_def update_account_def update_account_status_def remove_account_def

subsection \<open>Facts about the store\<close>

lemma same_id_jset_status [simp]: "same_id i (jset ''status'' v a) = same_id i a"
  by (simp add: same_id_def account_id_def)

lemma same_id_str: "same_id (JStr i) a \<longleftrightarrow> account_id a = JStr i"
  by (simp add: same_id_def)

lemma not_same_id_null [simp]: "\<not> same_id (JStr i) JNull"
  by (simp add: same_id_str account_id_def jget_def)

lemma account_id_to_camel:
  "distinct (List.map fst (jfields a)) \<Longrightarrow> account_id (to_camel a) = to_camel (account_id a)"
  by (simp add: account_id_def jget_to_camel is_upper_def is_lower_def)

lemma camel_normal_jset:
  assumes "camel_normal a" and "camel_normal v" and "\<not> has_hump k"
  shows "camel_normal (jset k v a)"
proof -
  have "list_all (\<lambda>(k, v). \<not> has_hump k \<and> camel_normal v) (jfields a)"
    and "distinct (List.map fst (jfields a))"
    using assms(1) by (cases a; simp)+
  moreover have "list_all (\<lambda>(k, v). \<not> has_hump k \<and> camel_normal v) (AList.update k v fs)"
    if "list_all (\<lambda>(k, v). \<not> has_hump k \<and> camel_normal v) fs" for fs
    using that assms(2,3) by (induction fs) auto
  ultimately show ?thesis by (simp add: jset_def distinct_update)
qed

definition account_inv :: "account_state \<Rightarrow> bool" where
  "account_inv s \<longleftrightarrow> list_all camel_normal (ac_accounts s) \<and> camel_normal (ac_current s)"

lemma list_all_update_where:
  "list_all Q xs \<Longrightarrow> (\<And>x. Q x \<Longrightarrow> P x \<Longrightarrow> Q (f x)) \<Longrightarrow> list_all Q (update_where P f xs)"
  by (auto simp: update_where_def list_all_iff)

lemma account_inv_init: "account_inv account_init"
  by (simp add: account_inv_def account_init_def)

lemma account_inv_step: "account_inv s \<Longrightarrow> account_inv (account_step s act)"
  by (cases act)
    (auto simp: account_op_defs account_inv_def camel_rows_normal to_camel_normal(1)
      is_lower_def intro!: list_all_update_where camel_normal_jset,
     auto simp: list_all_iff)

interpretation account: machine account_init account_step account_inv
  by unfold_locales (simp_all add: account_inv_init account_inv_step)

lemmas account_fold = account_op_defs update_where_def

subsection \<open>The busy flags of the hook\<close>

interpretation fetching: busy_operation ac_loading
    "\<lambda>(t, force, out) s. fetch_accounts t force out s"
  by unfold_locales
    (auto simp: fetch_accounts_def account_op_defs Let_def split: sum.splits if_splits)

interpretation creating: busy_operation ac_loading "\<lambda>(t, out) s. create_account t out s"
  by unfold_locales
    (auto simp: create_account_def account_op_defs Let_def split: sum.splits)

subsection \<open>Properties\<close>

lemma update_where_twice:
  "(\<And>x. P x \<Longrightarrow> P (f x)) \<Longrightarrow>
     update_where P (\<lambda>_. c) (update_where P f xs) = update_where P (\<lambda>_. c) xs"
  by (auto simp: update_where_def)

lemma update_after_status:
  "account_id a = JStr i \<Longrightarrow> update_account a (update_account_status i st s) = update_account a s"
  by (simp add: update_account_def update_account_status_def update_where_twice)

definition sample_account :: "string \<Rightarrow> string \<Rightarrow> jv" where
  "sample_account i status = JObj [(''id'', JStr i), (''status'', JStr status), (''mtType'', JStr ''MT5'')]"

definition sample_accounts :: account_state where
  "sample_accounts = run account_step account_init
     [AcAdd (sample_account ''a1'' ''connected''), AcAdd (sample_account ''a2'' ''connected'')]"

text \<open>
  Deleting an account removes it from the list, and from the detail page where it is the current
  account, exactly when the server has deleted it; every other account keeps its place, and a failed
  deletion changes nothing.
\<close>

theorem delete_account_spec:
  "case delete_account t i out s of (s', toasts, result) \<Rightarrow>
     (case out of
        Inr _ \<Rightarrow>
          ac_accounts s' = filter (\<lambda>a. account_id a \<noteq> JStr i) (ac_accounts s) \<and>
          account_id (ac_current s') \<noteq> JStr i \<and>
          (account_id (ac_current s) \<noteq> JStr i \<longrightarrow> ac_current s' = ac_current s) \<and>
          toasts = [ToastSuccess (t ''accounts.messages.deleted'')]
      | Inl e \<Rightarrow> s' = s \<and> result = Inl e \<and>
          toasts = [error_toast t e ''accounts.messages.deleteFailed''])"
proof -
  have "account_id JNull \<noteq> JStr i" by (simp add: account_id_def jget_def)
  then show ?thesis
    by (auto simp: delete_account_def account_op_defs same_id_str split: sum.splits)
qed

theorem delete_account_spec_witness:
  "List.map account_id (ac_accounts (fst (delete_account (\<lambda>k. k) ''a1'' (Inr ()) sample_accounts))) =
     [JStr ''a2'']"
proof -
  have "filter (\<lambda>a. account_id a \<noteq> JStr ''a1'') (ac_accounts sample_accounts) =
      [sample_account ''a2'' ''connected'']" by code_simp
  then show ?thesis
    using delete_account_spec
      [where t = "\<lambda>k. k" and i = "''a1''" and out = "Inr ()" and s = sample_accounts]
    by (auto simp: sample_account_def account_id_def jget_def split: prod.splits)
qed

text \<open>
  C16. The rows of the store are of the declared type as far as their names go: whatever values are stored, added and
  updated, every account of the list and the current one have camel case names only, at every depth and each once; and
  storing the list again, which converts every row once more, changes nothing.
\<close>

theorem account_rows_camel:
  "let s = run account_step account_init acts in
     list_all camel_normal (ac_accounts s) \<and> camel_normal (ac_current s) \<and> set_accounts (JArr (ac_accounts s)) s = s"
  using account.inv_run [of acts]
  by (simp add: Let_def account_inv_def set_accounts_def camel_rows_id)

end
