(* ===== verification/PriceFormat.thy ===== *)
theory PriceFormat
  imports JsNumber
begin

text \<open>
  Display of prices (\<open>utils/price.ts\<close>): the number of decimals of a symbol and the rounding of
  a price to them.  \<open>toFixed\<close> rounds the magnitude half up.
\<close>

definition symbol_decimals :: "(string \<times> nat) list" where
  "symbol_decimals =
     [(''XAUUSD'', 2), (''XAUUSDm'', 2), (''XAGUSD'', 3), (''BTCUSD'', 2), (''BTCUSDm'', 2),
      (''ETHUSD'', 2), (''ETHUSDm'', 2), (''EURUSD'', 5), (''GBPUSD'', 5), (''USDJPY'', 3),
      (''AUDUSD'', 5), (''USDCAD'', 5), (''USDCHF'', 5), (''NZDUSD'', 5), (''EURJPY'', 3),
      (''GBPJPY'', 3), (''EURGBP'', 5), (''EURCHF'', 5), (''AUDJPY'', 3), (''CADJPY'', 3),
      (''NZDJPY'', 3), (''GBPAUD'', 5), (''GBPCAD'', 5), (''EURNZD'', 5), (''GBPNZD'', 5),
      (''AUDCAD'', 5), (''AUDNZD'', 5), (''NZDCAD'', 5), (''NZDCHF'', 5), (''AUDCHF'', 5),
      (''CADCHF'', 5), (''EURAUD'', 5), (''EURCAD'', 5), (''EURNOK'', 5), (''EURSEK'', 5),
      (''GBPCHF'', 5), (''USDDKK'', 5), (''USDHKD'', 5), (''USDNOK'', 5), (''USDSEK'', 5),
      (''USDSGD'', 5), (''USDZAR'', 5)]"

definition default_decimals :: nat where
  "default_decimals = 5"

text \<open>A table entry is used when it is truthy, that is present and not zero.\<close>

definition decimals_entry :: "string \<Rightarrow> nat option" where
  "decimals_entry s = (case map_of symbol_decimals s of
     None \<Rightarrow> None | Some d \<Rightarrow> if d = 0 then None else Some d)"

definition get_symbol_decimals :: "string \<Rightarrow> nat" where
  "get_symbol_decimals symbol =
     (let normalized_symbol = js_replace1 (js_upper symbol) ''m'' ''m''
      in case decimals_entry normalized_symbol of
           Some d \<Rightarrow> d
         | None \<Rightarrow>
             (let base_symbol = js_replace1 normalized_symbol ''m'' []
              in case decimals_entry base_symbol of Some d \<Rightarrow> d | None \<Rightarrow> default_decimals))"

text \<open>The value of \<open>parseFloat(price.toFixed(d))\<close>.\<close>

definition to_fixed_value :: "nat \<Rightarrow> rat \<Rightarrow> rat" where
  "to_fixed_value d q =
     (let m = of_int \<lfloor>\<bar>q\<bar> * 10 ^ d + 1 / 2\<rfloor> / 10 ^ d in if q < 0 then - m else m)"

definition price_decimals :: "string option \<Rightarrow> nat" where
  "price_decimals symbol = (case symbol of
     None \<Rightarrow> default_decimals
   | Some s \<Rightarrow> if s = [] then default_decimals else get_symbol_decimals s)"

text \<open>The price is \<open>None\<close> for \<open>undefined\<close> and \<open>null\<close>.\<close>

definition format_price :: "jsnum option \<Rightarrow> string option \<Rightarrow> string" where
  "format_price price symbol =
     (case price of
        None \<Rightarrow> ''-''
      | Some NaN \<Rightarrow> ''-''
      | Some (Fin q) \<Rightarrow> num_str (Fin (to_fixed_value (price_decimals symbol) q))
      | Some other \<Rightarrow> num_str other)"

subsection \<open>Rounding\<close>

lemma floor_half_bound: "\<bar>of_int \<lfloor>x + 1 / 2\<rfloor> - x\<bar> \<le> (1 / 2 :: rat)"
  by linarith

lemma to_fixed_value_bound: "\<bar>to_fixed_value d q - q\<bar> \<le> 1 / (2 * 10 ^ d)"
proof -
  let ?n = "of_int \<lfloor>\<bar>q\<bar> * 10 ^ d + 1 / 2\<rfloor> :: rat"
  have p: "(0 :: rat) < 10 ^ d" by simp
  have "\<bar>?n - \<bar>q\<bar> * 10 ^ d\<bar> \<le> 1 / 2" by (rule floor_half_bound)
  moreover have "\<bar>?n / 10 ^ d - \<bar>q\<bar>\<bar> = \<bar>?n - \<bar>q\<bar> * 10 ^ d\<bar> / 10 ^ d"
  proof -
    have "?n / 10 ^ d - \<bar>q\<bar> = (?n - \<bar>q\<bar> * 10 ^ d) / 10 ^ d"
      using p by (simp add: field_simps)
    then show ?thesis using p by (simp add: abs_divide)
  qed
  moreover have "(1 / 2) / 10 ^ d = 1 / (2 * 10 ^ d :: rat)" by simp
  ultimately have "\<bar>?n / 10 ^ d - \<bar>q\<bar>\<bar> \<le> 1 / (2 * 10 ^ d)"
    by (metis divide_right_mono p less_imp_le)
  then show ?thesis by (auto simp: to_fixed_value_def Let_def abs_if split: if_splits)
qed

lemma to_fixed_value_grid: "to_fixed_value d q * 10 ^ d \<in> \<int>"
  by (simp add: to_fixed_value_def Let_def)

lemma decimals_table_upper:
  "js_replace1 (js_upper s) ''m'' r = js_upper s"
proof (rule js_replace1_absent)
  have "CHR ''m'' \<notin> set (js_upper s)"
    using js_upper_no_lower by (force simp: is_lower_def)
  then show "\<not> js_includes (js_upper s) ''m''"
    unfolding js_includes_sublist by (auto dest: set_mono_sublist)
qed

subsection \<open>Properties\<close>

text \<open>
  A finite price is shown as a decimal with at most the number of decimals of its symbol, and the
  value shown is within half a unit of the last decimal of the price.
\<close>

theorem format_price_rounds:
  "\<exists>v. format_price (Some (Fin q)) symbol = num_str (Fin v) \<and>
      v * 10 ^ price_decimals symbol \<in> \<int> \<and>
      \<bar>v - q\<bar> \<le> 1 / (2 * 10 ^ price_decimals symbol)"
  using to_fixed_value_bound to_fixed_value_grid
  by (auto simp: format_price_def simp del: num_str.simps)

text \<open>
  The two replacements of \<open>m\<close> in \<open>getSymbolDecimals\<close> never change anything, because the symbol
  has just been put in upper case: the decimals of a symbol are the table's entry of its upper-case
  spelling, or five.  So the table's entries with a lower-case suffix are unreachable:
  \<open>XAUUSDm\<close> is shown with five decimals, where its own entry says two.
\<close>

theorem symbol_decimals_upper_only:
  "get_symbol_decimals s =
     (case decimals_entry (js_upper s) of None \<Rightarrow> default_decimals | Some d \<Rightarrow> d) \<and>
   get_symbol_decimals ''XAUUSDm'' = 5 \<and> map_of symbol_decimals ''XAUUSDm'' = Some 2"
proof -
  have "get_symbol_decimals s =
      (case decimals_entry (js_upper s) of None \<Rightarrow> default_decimals | Some d \<Rightarrow> d)" for s
    by (simp add: get_symbol_decimals_def decimals_table_upper Let_def split: option.split)
  moreover have "decimals_entry (js_upper ''XAUUSDm'') = None"
    and "map_of symbol_decimals ''XAUUSDm'' = Some 2"
    by code_simp+
  ultimately show ?thesis by (simp add: default_decimals_def)
qed

end
