(* ===== verification/Language.thy ===== *)
theory Language
  imports JsNumber
begin

text \<open>
  The language of the interface (\<open>i18n/index.ts\<close>) and what is derived from it in
  \<open>utils/date.ts\<close>: the locale tag and the text of durations.  The browser's local storage is a
  partial map, \<open>None\<close> where access to it throws.
\<close>

type_synonym local_storage = "(string \<rightharpoonup> string) option"

definition supported_languages :: "string list" where
  "supported_languages = [''zh-cn'', ''zh-tw'', ''en'', ''ja'', ''vi'']"

definition language_storage_key :: string where
  "language_storage_key = ''anttrader_lang''"

definition normalize_language :: "string option \<Rightarrow> string" where
  "normalize_language input =
     (let raw = js_trim (case input of None \<Rightarrow> [] | Some s \<Rightarrow> s);
          lower = js_lower raw
      in if raw = [] then ''zh-cn''
         else if lower = ''zh-cn'' \<or> lower = ''zh_cn'' \<or> js_starts lower ''zh-hans'' then ''zh-cn''
         else if lower = ''zh-tw'' \<or> lower = ''zh_tw'' \<or> js_starts lower ''zh-hant'' \<or>
           lower = ''zh-hk'' \<or> lower = ''zh-mo'' then ''zh-tw''
         else if js_starts lower ''zh'' then ''zh-cn''
         else if js_starts lower ''ja'' then ''ja''
         else if js_starts lower ''vi'' then ''vi''
         else if js_starts lower ''en'' then ''en''
         else ''en'')"

text \<open>The language of the browser, as \<open>navigator\<close> gives it.\<close>

record navigator_state =
  nav_languages :: "string list option"
  nav_language :: "string option"

definition nav_lang :: "navigator_state option \<Rightarrow> string" where
  "nav_lang nav = (case nav of
     None \<Rightarrow> []
   | Some n \<Rightarrow>
       (let first = (case nav_languages n of Some (l # _) \<Rightarrow> l | _ \<Rightarrow> [])
        in if first \<noteq> [] then first
           else (case nav_language n of None \<Rightarrow> [] | Some l \<Rightarrow> l)))"

definition get_initial_language :: "local_storage \<Rightarrow> navigator_state option \<Rightarrow> string" where
  "get_initial_language st nav =
     (case st of
        Some m \<Rightarrow>
          (case m language_storage_key of
             Some stored \<Rightarrow>
               (if stored \<noteq> [] then normalize_language (Some stored)
                else normalize_language (Some (nav_lang nav)))
           | None \<Rightarrow> normalize_language (Some (nav_lang nav)))
      | None \<Rightarrow> normalize_language (Some (nav_lang nav)))"

text \<open>The language passed to \<open>i18n.changeLanguage\<close>, and the storage afterwards.\<close>

definition set_language :: "string \<Rightarrow> local_storage \<Rightarrow> string \<times> local_storage" where
  "set_language lng st =
     (let normalized = normalize_language (Some lng)
      in (normalized, map_option (\<lambda>m. m(language_storage_key \<mapsto> normalized)) st))"

definition get_device_locale :: "navigator_state option \<Rightarrow> string" where
  "get_device_locale nav = (if nav_lang nav = [] then ''en-US'' else nav_lang nav)"

definition get_ui_locale :: "string option \<Rightarrow> string" where
  "get_ui_locale i18n_language =
     (let lang = normalize_language i18n_language
      in if lang = ''zh-cn'' then ''zh-CN''
         else if lang = ''zh-tw'' then ''zh-TW''
         else if lang = ''ja'' then ''ja-JP''
         else if lang = ''vi'' then ''vi-VN''
         else ''en-US'')"

subsection \<open>Durations\<close>

definition unit_text :: "(string \<Rightarrow> string) \<Rightarrow> bool \<Rightarrow> string \<Rightarrow> rat \<Rightarrow> string" where
  "unit_text t needs_space key value =
     (if needs_space then rat_str value @ '' '' @ t key else rat_str value @ t key)"

text \<open>The em dash in UTF-8.\<close>

definition em_dash :: string where
  "em_dash = [CHR 0xE2, CHR 0x80, CHR 0x94]"

definition format_duration_from_seconds ::
    "(string \<Rightarrow> string) \<Rightarrow> string option \<Rightarrow> jsnum option \<Rightarrow> string" where
  "format_duration_from_seconds t i18n_language seconds =
     (case seconds of
        Some (Fin q) \<Rightarrow>
          (if q \<le> 0 then em_dash
           else
             (let lang = normalize_language i18n_language;
                  needs_space = (lang = ''en'' \<or> lang = ''vi'')
              in if q < 60 then t ''common.time.lessThanMinute''
                 else if q < 3600 then
                   unit_text t needs_space ''common.time.minute'' (of_int \<lfloor>q / 60\<rfloor>)
                 else if q < 86400 then
                   unit_text t needs_space ''common.time.hour'' (of_int \<lfloor>q / 3600\<rfloor>)
                 else unit_text t needs_space ''common.time.day'' (of_int \<lfloor>q / 86400\<rfloor>)))
      | _ \<Rightarrow> em_dash)"

subsection \<open>Facts\<close>

lemma normalize_language_supported: "normalize_language l \<in> set supported_languages"
  by (simp add: normalize_language_def supported_languages_def Let_def)

lemma normalize_language_fixed:
  "l \<in> set supported_languages \<Longrightarrow> normalize_language (Some l) = l"
proof -
  have "list_all (\<lambda>l. normalize_language (Some l) = l) supported_languages" by code_simp
  then show "l \<in> set supported_languages \<Longrightarrow> normalize_language (Some l) = l"
    by (simp add: list_all_iff)
qed

lemma supported_not_Nil: "l \<in> set supported_languages \<Longrightarrow> l \<noteq> []"
  by (auto simp: supported_languages_def)

lemma normalize_language_not_Nil [simp]: "normalize_language l \<noteq> []"
  using normalize_language_supported [of l] supported_not_Nil by blast

subsection \<open>Properties\<close>

text \<open>
  The language setting survives a reload: whatever language is set, the language the page starts
  with next time is the one that was passed to the translation library, one of the supported ones,
  when the storage works; when it does not, the browser's language decides, as before the setting.
\<close>

theorem language_setting_roundtrip:
  "get_initial_language (snd (set_language lng st)) nav =
     (case st of None \<Rightarrow> get_initial_language None nav | Some m \<Rightarrow> fst (set_language lng st)) \<and>
   fst (set_language lng st) \<in> set supported_languages \<and>
   fst (set_language (fst (set_language lng st)) st) = fst (set_language lng st)"
proof -
  have n: "normalize_language (Some (normalize_language (Some lng))) = normalize_language (Some lng)"
    by (rule normalize_language_fixed) (rule normalize_language_supported)
  show ?thesis
    by (cases st)
      (simp_all add: set_language_def get_initial_language_def Let_def n
        normalize_language_supported)
qed

text \<open>
  The duration shown is the largest unit that fits: a number of minutes from 1 to 59, of hours
  from 1 to 23 or of days from 1, rounded down, and never a number of a smaller unit.
\<close>

theorem duration_unit_bounds:
  assumes "60 \<le> q"
  shows "\<exists>key n u. (key, u) \<in> {(''common.time.minute'', 60), (''common.time.hour'', 3600),
        (''common.time.day'', 86400)} \<and>
      format_duration_from_seconds t lang (Some (Fin q)) =
        unit_text t (normalize_language lang \<in> {''en'', ''vi''}) key (of_int n) \<and>
      of_int n * u \<le> q \<and> q < (of_int n + 1) * u \<and> 1 \<le> n \<and>
      (u = 60 \<longrightarrow> n \<le> 59) \<and> (u = 3600 \<longrightarrow> n \<le> 23)"
proof -
  consider "q < 3600" | "3600 \<le> q" "q < 86400" | "86400 \<le> q" by linarith
  then show ?thesis
  proof cases
    case 1
    with assms show ?thesis
      by (intro exI [of _ "''common.time.minute''"] exI [of _ "\<lfloor>q / 60\<rfloor>"] exI [of _ 60])
        (auto simp: format_duration_from_seconds_def Let_def, linarith+)
  next
    case 2
    with assms show ?thesis
      by (intro exI [of _ "''common.time.hour''"] exI [of _ "\<lfloor>q / 3600\<rfloor>"] exI [of _ 3600])
        (auto simp: format_duration_from_seconds_def Let_def, linarith+)
  next
    case 3
    with assms show ?thesis
      by (intro exI [of _ "''common.time.day''"] exI [of _ "\<lfloor>q / 86400\<rfloor>"] exI [of _ 86400])
        (auto simp: format_duration_from_seconds_def Let_def, linarith+)
  qed
qed

theorem duration_unit_bounds_witness:
  "format_duration_from_seconds (\<lambda>k. k) (Some ''ja'') (Some (Fin 7300)) = ''2common.time.hour''"
proof -
  have "(60 :: rat) \<le> 7300" by simp
  from duration_unit_bounds [OF this, of "\<lambda>k. k" "Some ''ja''"]
  obtain key n u where k: "(key, u) \<in> {(''common.time.minute'', 60 :: rat),
      (''common.time.hour'', 3600), (''common.time.day'', 86400)}"
    and eq: "format_duration_from_seconds (\<lambda>k. k) (Some ''ja'') (Some (Fin 7300)) =
      unit_text (\<lambda>k. k) (normalize_language (Some ''ja'') \<in> {''en'', ''vi''}) key (of_int n)"
    and b: "of_int n * u \<le> 7300" "7300 < (of_int n + 1) * u" "1 \<le> n" "u = 60 \<longrightarrow> n \<le> 59"
    by blast
  from k b have "key = ''common.time.hour''" and "n = 2" by auto
  moreover have "unit_text (\<lambda>k. k) (normalize_language (Some ''ja'') \<in> {''en'', ''vi''})
      ''common.time.hour'' (of_int 2) = ''2common.time.hour''"
    by code_simp
  ultimately show ?thesis using eq by (simp only:)
qed

end
