(* ===== verification/NotificationStore.thy ===== *)
theory NotificationStore
  imports Effects
begin

text \<open>
  The notification list (\<open>stores/notificationStore.ts\<close>) and the listener that fills it from the
  events of the stream (\<open>hooks/useNotificationListener.ts\<close>).  The identifier and the time stamp of a
  new notification come from the clock and the random generator and are arguments.
\<close>

subsection \<open>The store\<close>

record notification =
  nt_id :: string
  nt_type :: string
  nt_title :: string
  nt_message :: jv
  nt_data :: jv
  nt_read :: bool
  nt_created_at :: string

record notification_state =
  ns_notifications :: "notification list"
  ns_unread :: nat

definition notification_init :: notification_state where
  "notification_init = \<lparr>ns_notifications = [], ns_unread = 0\<rparr>"

definition max_notifications :: nat where
  "max_notifications = 100"

definition unread :: "notification list \<Rightarrow> nat" where
  "unread ns = length (filter (\<lambda>n. \<not> nt_read n) ns)"

definition new_notification ::
    "string \<Rightarrow> string \<Rightarrow> string \<Rightarrow> string \<Rightarrow> jv \<Rightarrow> jv \<Rightarrow> notification" where
  "new_notification i created_at ty title message data =
     \<lparr>nt_id = i, nt_type = ty, nt_title = title, nt_message = message, nt_data = data,
      nt_read = False, nt_created_at = created_at\<rparr>"

definition add_notification :: "notification \<Rightarrow> notification_state \<Rightarrow> notification_state" where
  "add_notification n s =
     (let ns = take max_notifications (n # ns_notifications s)
      in \<lparr>ns_notifications = ns, ns_unread = unread ns\<rparr>)"

definition mark_as_read :: "string \<Rightarrow> notification_state \<Rightarrow> notification_state" where
  "mark_as_read i s =
     (let ns = update_where (\<lambda>n. nt_id n = i) (\<lambda>n. n\<lparr>nt_read := True\<rparr>) (ns_notifications s)
      in \<lparr>ns_notifications = ns, ns_unread = unread ns\<rparr>)"

definition mark_all_as_read :: "notification_state \<Rightarrow> notification_state" where
  "mark_all_as_read s =
     \<lparr>ns_notifications = List.map (\<lambda>n. n\<lparr>nt_read := True\<rparr>) (ns_notifications s), ns_unread = 0\<rparr>"

definition remove_notification :: "string \<Rightarrow> notification_state \<Rightarrow> notification_state" where
  "remove_notification i s =
     (let ns = filter (\<lambda>n. nt_id n \<noteq> i) (ns_notifications s)
      in \<lparr>ns_notifications = ns, ns_unread = unread ns\<rparr>)"

definition clear_all :: "notification_state \<Rightarrow> notification_state" where
  "clear_all s = \<lparr>ns_notifications = [], ns_unread = 0\<rparr>"

subsection \<open>The listener\<close>

definition stream_notification_events :: "string list" where
  "stream_notification_events =
     [''strategy_execution'', ''risk_alert'', ''strategy_signal'', ''auto_trading'']"

type_synonym translate_with = "string \<Rightarrow> (string \<times> jv) list \<Rightarrow> string"

text \<open>What \<open>handleStreamEvent\<close> passes to \<open>addNotification\<close>: type, title and message.\<close>

definition stream_notification ::
    "translate_with \<Rightarrow> jv \<Rightarrow> (string \<times> string \<times> jv) option" where
  "stream_notification t data =
     (let ty = jget ''type'' data in
      if \<not> truthy data \<or> \<not> truthy ty then None
      else if \<not> list_ex (\<lambda>e. js_strict_eq ty (JStr e)) stream_notification_events then None
      else if js_strict_eq ty (JStr ''strategy_execution'') then
        Some (''strategy_execution'', t ''notifications.stream.strategyExecution.title'' [],
          JStr (if js_strict_eq (jget ''status'' data) (JStr ''completed'')
                then t ''notifications.stream.strategyExecution.completed''
                       [(''symbol'', jget ''symbol'' data), (''action'', jget ''action'' data)]
                else t ''notifications.stream.strategyExecution.failed''
                       [(''error'', js_or (jget ''error_message'' data)
                                      (JStr (t ''common.unknown'' [])))]))
      else if js_strict_eq ty (JStr ''risk_alert'') then
        Some (''risk_alert'', t ''notifications.stream.riskAlert.title'' [],
          js_or (jget ''message'' data)
            (JStr (t ''notifications.stream.riskAlert.fallback''
                     [(''alertType'', jget ''alert_type'' data)])))
      else if js_strict_eq ty (JStr ''strategy_signal'') then
        Some (''signal'', t ''notifications.stream.strategySignal.title'' [],
          JStr (t ''notifications.stream.strategySignal.message''
                  [(''symbol'', jget ''symbol'' data), (''signalType'', jget ''signal_type'' data)]))
      else if js_strict_eq ty (JStr ''auto_trading'') then
        Some (''system'', t ''notifications.stream.autoTrading.title'' [],
          js_or (jget ''message'' data) (JStr (t ''notifications.stream.autoTrading.fallback'' [])))
      else None)"

definition handle_stream_notification ::
    "translate_with \<Rightarrow> string \<Rightarrow> string \<Rightarrow> jv \<Rightarrow> notification_state \<Rightarrow> notification_state" where
  "handle_stream_notification t i created_at data s =
     (case stream_notification t data of
        None \<Rightarrow> s
      | Some (ty, title, message) \<Rightarrow>
          add_notification (new_notification i created_at ty title message data) s)"

datatype notification_action =
    NtAdd notification
  | NtMarkRead string
  | NtMarkAllRead
  | NtRemove string
  | NtClear
  | NtStreamEvent string string jv

fun notification_step ::
    "translate_with \<Rightarrow> notification_state \<Rightarrow> notification_action \<Rightarrow> notification_state" where
  "notification_step t s (NtAdd n) = add_notification n s"
| "notification_step t s (NtMarkRead i) = mark_as_read i s"
| "notification_step t s NtMarkAllRead = mark_all_as_read s"
| "notification_step t s (NtRemove i) = remove_notification i s"
| "notification_step t s NtClear = clear_all s"
| "notification_step t s (NtStreamEvent i ts d) = handle_stream_notification t i ts d s"

lemmas notification_defs [store_defs] =
  add_notification_def mark_as_read_def mark_all_as_read_def remove_notification_def clear_all_def

subsection \<open>Invariant\<close>

definition notification_inv :: "notification_state \<Rightarrow> bool" where
  "notification_inv s \<longleftrightarrow>
     ns_unread s = unread (ns_notifications s) \<and> length (ns_notifications s) \<le> max_notifications"

lemma unread_all_read [simp]: "unread (List.map (\<lambda>n. n\<lparr>nt_read := True\<rparr>) ns) = 0"
  by (simp add: unread_def filter_empty_conv)

lemma length_filter_bound: "length xs \<le> n \<Longrightarrow> length (filter P xs) \<le> n"
  by (meson length_filter_le order_trans)

lemma notification_inv_add: "notification_inv (add_notification n s)"
  by (simp add: notification_inv_def add_notification_def Let_def)

lemma notification_inv_init: "notification_inv notification_init"
  by (simp add: notification_inv_def notification_init_def unread_def)

lemma notification_inv_step:
  "notification_inv s \<Longrightarrow> notification_inv (notification_step t s a)"
  by (cases a)
    (auto simp: notification_inv_add handle_stream_notification_def split: option.splits,
     auto simp: notification_inv_def notification_defs unread_def length_filter_bound Let_def)

interpretation notifications: machine notification_init "notification_step t" notification_inv
  by unfold_locales (simp_all add: notification_inv_init notification_inv_step)

lemma unread_le_length: "unread ns \<le> length ns"
  by (simp add: unread_def)

subsection \<open>Properties\<close>

text \<open>
  After any sequence of notifications, stream events and user actions the unread counter is the
  number of unread notifications of the list, and the list never holds more than a hundred.
\<close>

theorem notification_counter_correct:
  "let s = run (notification_step t) notification_init acts in
     ns_unread s = length (filter (\<lambda>n. \<not> nt_read n) (ns_notifications s)) \<and>
     length (ns_notifications s) \<le> 100"
  using notifications.inv_run [of t acts]
  by (simp add: Let_def notification_inv_def unread_def max_notifications_def)

lemma stream_notification_known:
  assumes "jget ''type'' data \<in> JStr ` set stream_notification_events"
  shows "\<exists>ty title m. stream_notification t data = Some (ty, title, m) \<and>
    ty \<in> {''strategy_execution'', ''risk_alert'', ''signal'', ''system''}"
proof -
  from assms have "truthy data"
    by (cases data) (auto simp: jget_def)
  with assms consider "jget ''type'' data = JStr ''strategy_execution''"
    | "jget ''type'' data = JStr ''risk_alert''" | "jget ''type'' data = JStr ''strategy_signal''"
    | "jget ''type'' data = JStr ''auto_trading''"
    by (auto simp: stream_notification_events_def)
  then show ?thesis
    by cases (use \<open>truthy data\<close> in
      \<open>simp add: stream_notification_def stream_notification_events_def\<close>)+
qed

lemma add_notification_fresh:
  "\<exists>n. add_notification (new_notification i ts ty title m data) s =
       \<lparr>ns_notifications = n # take 99 (ns_notifications s),
        ns_unread = Suc (unread (take 99 (ns_notifications s)))\<rparr> \<and>
     nt_id n = i \<and> nt_data n = data \<and> \<not> nt_read n \<and> nt_type n = ty"
  by (simp add: add_notification_def new_notification_def max_notifications_def unread_def
      take_Cons' Let_def)

text \<open>
  A stream event becomes a notification exactly when its type is one of the four known ones; the
  notification is unread, comes first, carries the event, and pushes out only what is beyond the
  hundredth place.  Every other event leaves the store as it was.
\<close>

theorem stream_event_notifies:
  "if jget ''type'' data \<in> JStr ` set stream_notification_events
   then \<exists>n. handle_stream_notification t i ts data s =
          \<lparr>ns_notifications = n # take 99 (ns_notifications s),
           ns_unread = Suc (unread (take 99 (ns_notifications s)))\<rparr> \<and>
        nt_id n = i \<and> nt_data n = data \<and> \<not> nt_read n \<and>
        nt_type n \<in> {''strategy_execution'', ''risk_alert'', ''signal'', ''system''}
   else handle_stream_notification t i ts data s = s"
proof (cases "jget ''type'' data \<in> JStr ` set stream_notification_events")
  case True
  with stream_notification_known [of data t] obtain ty title m
    where "stream_notification t data = Some (ty, title, m)"
      and "ty \<in> {''strategy_execution'', ''risk_alert'', ''signal'', ''system''}"
    by auto
  moreover obtain n where "add_notification (new_notification i ts ty title m data) s =
       \<lparr>ns_notifications = n # take 99 (ns_notifications s),
        ns_unread = Suc (unread (take 99 (ns_notifications s)))\<rparr>"
    and "nt_id n = i" "nt_data n = data" "\<not> nt_read n" "nt_type n = ty"
    using add_notification_fresh [of i ts ty title m data s] by blast
  ultimately show ?thesis
    using True by (auto simp: handle_stream_notification_def)
next
  case False
  then have "\<not> list_ex (\<lambda>e. js_strict_eq (jget ''type'' data) (JStr e)) stream_notification_events"
    by (auto simp: list_ex_iff)
  with False show ?thesis
    by (simp add: handle_stream_notification_def stream_notification_def Let_def)
qed

end
