(* ===== verification/Transport.thy ===== *)
theory Transport
  imports ErrorText
begin

text \<open>
  The interceptor of the remote calls (\<open>client/transport.ts\<close>): the headers it attaches to a request
  and what it shows when a call fails.  Every failure is thrown on; what is modelled is the state that
  the interceptor keeps between failures and the notices it shows.
\<close>

subsection \<open>Base addresses\<close>

definition strip_slashes :: "string \<Rightarrow> string" where
  "strip_slashes s = rev (dropWhile (\<lambda>c. c = CHR ''/'') (rev s))"

definition default_api_url :: "string option \<Rightarrow> string" where
  "default_api_url origin = (case origin of None \<Rightarrow> ''http://127.0.0.1:8080'' | Some o' \<Rightarrow> o')"

definition api_url :: "string option \<Rightarrow> string option \<Rightarrow> string" where
  "api_url env origin = strip_slashes
     (case env of None \<Rightarrow> default_api_url origin
      | Some u \<Rightarrow> if u = [] then default_api_url origin else u)"

definition stream_url :: "string option \<Rightarrow> string option \<Rightarrow> string option \<Rightarrow> string" where
  "stream_url stream_env env origin = strip_slashes
     (case stream_env of None \<Rightarrow> api_url env origin
      | Some u \<Rightarrow> if u = [] then api_url env origin else u)"

subsection \<open>Headers\<close>

text \<open>The names that the interceptor reads of a request, empty where they are missing.\<close>

record request =
  rq_service :: string
  rq_method :: string
  rq_url :: string
  rq_procedure :: string

fun first_nonempty :: "string list \<Rightarrow> string" where
  "first_nonempty [] = []"
| "first_nonempty (s # ss) = (if s \<noteq> [] then s else first_nonempty ss)"

definition procedure_key :: "request \<Rightarrow> string" where
  "procedure_key r = js_lower (first_nonempty [rq_service r, rq_method r, rq_url r, rq_procedure r])"

definition procedure_label :: "request \<Rightarrow> string" where
  "procedure_label r = js_trim (first_nonempty [rq_service r, rq_method r])"

definition is_auth_free :: "string \<Rightarrow> bool" where
  "is_auth_free proc \<longleftrightarrow>
     js_includes proc ''authservice'' \<and> (js_includes proc ''login'' \<or> js_includes proc ''register'')"

definition authorization_header :: "string option \<Rightarrow> request \<Rightarrow> string option" where
  "authorization_header token r =
     (case token of None \<Rightarrow> None
      | Some tk \<Rightarrow> if tk \<noteq> [] \<and> \<not> is_auth_free (procedure_key r) then Some (''Bearer '' @ tk) else None)"

definition language_header :: "string option \<Rightarrow> string" where
  "language_header lang = (case lang of None \<Rightarrow> ''en'' | Some l \<Rightarrow> if l = [] then ''en'' else l)"

subsection \<open>Failures\<close>

text \<open>
  What the interceptor reads of a thrown value besides what the stream heuristics read: whether it is
  an \<open>Error\<close> or a \<open>ConnectError\<close>, and the raw message and code of the latter.
\<close>

record client_error = stream_error +
  ce_is_error :: bool
  ce_is_connect :: bool
  ce_raw_message :: string
  ce_code :: string

record transport_state =
  tr_shown_connection_error :: bool
  tr_last_biz_error_at :: int

definition transport_init :: transport_state where
  "transport_init = \<lparr>tr_shown_connection_error = False, tr_last_biz_error_at = 0\<rparr>"

datatype notice =
    ConnectionModal
  | ErrorMessage string

definition error_content :: "client_error \<Rightarrow> string" where
  "error_content e =
     (let raw_msg = (if ce_is_connect e then js_trim (ce_raw_message e) else []);
          code_part = (if ce_is_connect e then ''code='' @ ce_code e @ '' '' else []);
          msg_part = (if ce_is_connect e \<or> ce_is_error e then js_trim (se_message e)
                      else js_trim (se_string e))
      in js_trim (first_nonempty [raw_msg, code_part @ msg_part]))"

definition is_abort :: "client_error \<Rightarrow> bool" where
  "is_abort e \<longleftrightarrow> ce_is_error e \<and>
     (js_includes (se_message e) ''aborted'' \<or> js_includes (se_message e) ''abort'')"

definition is_fetch_failure :: "client_error \<Rightarrow> bool" where
  "is_fetch_failure e \<longleftrightarrow> ce_is_error e \<and> js_includes (se_message e) ''Failed to fetch''"

definition is_stream_failure :: "request \<Rightarrow> client_error \<Rightarrow> bool" where
  "is_stream_failure r e \<longleftrightarrow>
     is_stream_service_procedure (procedure_key r) \<and>
     is_likely_stream_transport_failure (stream_error.truncate e)"

definition intercept_failure ::
    "int \<Rightarrow> request \<Rightarrow> client_error \<Rightarrow> transport_state \<Rightarrow> transport_state \<times> notice list" where
  "intercept_failure now r e s =
     (if is_abort e then (s, [])
      else if is_fetch_failure e then
        (if tr_shown_connection_error s then (s, [])
         else (s\<lparr>tr_shown_connection_error := True\<rparr>, [ConnectionModal]))
      else if is_stream_failure r e then (s, [])
      else if now - tr_last_biz_error_at s > 800 then
        (s\<lparr>tr_last_biz_error_at := now\<rparr>,
         (let content = error_content e; proc_name = procedure_label r
          in if content = [] then []
             else [ErrorMessage (if proc_name \<noteq> [] then proc_name @ '': '' @ content else content)]))
      else (s, []))"

datatype transport_event =
    CallFailed int request client_error
  | ModalConfirmed

fun transport_step :: "transport_state \<Rightarrow> transport_event \<Rightarrow> transport_state \<times> notice list" where
  "transport_step s (CallFailed now r e) = intercept_failure now r e s"
| "transport_step s ModalConfirmed = (s\<lparr>tr_shown_connection_error := False\<rparr>, [])"

text \<open>The notices of a run, each with the event that caused it.\<close>

definition transport_next :: "transport_state \<Rightarrow> transport_event \<Rightarrow> transport_state" where
  "transport_next s ev = fst (transport_step s ev)"

definition transport_log :: "transport_state \<Rightarrow> transport_event list \<Rightarrow> (transport_event \<times> notice) list" where
  "transport_log = run_log transport_next (\<lambda>s ev. List.map (Pair ev) (snd (transport_step s ev)))"

fun message_time :: "transport_event \<times> notice \<Rightarrow> int option" where
  "message_time (CallFailed now _ _, ErrorMessage _) = Some now"
| "message_time _ = None"

definition message_times :: "(transport_event \<times> notice) list \<Rightarrow> int list" where
  "message_times ps = List.map_filter message_time ps"

subsection \<open>Facts\<close>

lemma message_times_simps [simp]:
  "message_times [] = []"
  "message_times ((CallFailed now r e, ErrorMessage m) # ps) = now # message_times ps"
  "message_times ((ev, ConnectionModal) # ps) = message_times ps"
  by (cases ev; simp add: message_times_def map_filter_simps)+

lemma message_times_append [simp]: "message_times (ps @ qs) = message_times ps @ message_times qs"
  by (simp add: message_times_def map_filter_def)

lemma message_times_step:
  "message_times (List.map (Pair e) (snd (transport_step s e))) = [] \<and>
     tr_last_biz_error_at (transport_next s e) = tr_last_biz_error_at s \<or>
   (\<exists>now. (message_times (List.map (Pair e) (snd (transport_step s e))) = [] \<or>
        message_times (List.map (Pair e) (snd (transport_step s e))) = [now]) \<and>
      tr_last_biz_error_at (transport_next s e) = now \<and> 801 \<le> now - tr_last_biz_error_at s)"
  by (cases e) (auto simp: transport_next_def intercept_failure_def Let_def)

interpretation messages: throttled transport_init transport_next "\<lambda>_. True" tr_last_biz_error_at
    "\<lambda>s e. message_times (List.map (Pair e) (snd (transport_step s e)))" 801
  by unfold_locales (rule message_times_step TrueI | simp)+

lemma message_times_log:
  "message_times (transport_log s evs) =
     run_log transport_next (\<lambda>s e. message_times (List.map (Pair e) (snd (transport_step s e)))) s evs"
  by (induction evs arbitrary: s) (simp_all add: transport_log_def)

lemma modal_count_step:
  "intercept_failure now r e s = (s', ns) \<Longrightarrow>
     count_list (List.map snd (List.map (Pair ev) ns)) ConnectionModal + of_bool (tr_shown_connection_error s) =
     of_bool (tr_shown_connection_error s')"
  by (auto simp: intercept_failure_def Let_def split: if_splits)

lemma modal_count:
  "count_list (List.map snd (transport_log s evs)) ConnectionModal + of_bool (tr_shown_connection_error s) \<le>
     count_list evs ModalConfirmed + 1"
proof (induction evs arbitrary: s)
  case Nil
  show ?case by (simp add: transport_log_def)
next
  case (Cons ev evs)
  obtain s' ns where step: "transport_step s ev = (s', ns)" by fastforce
  have split: "transport_log s (ev # evs) = List.map (Pair ev) ns @ transport_log s' evs"
    using step by (simp add: transport_log_def transport_next_def)
  show ?case
  proof (cases ev)
    case (CallFailed now r e)
    with step have "count_list (List.map snd (List.map (Pair ev) ns)) ConnectionModal +
        of_bool (tr_shown_connection_error s) = of_bool (tr_shown_connection_error s')"
      using modal_count_step [of now r e s s' ns ev] by simp
    then show ?thesis
      unfolding split using Cons.IH [of s'] CallFailed by simp
  next
    case ModalConfirmed
    then show ?thesis
      unfolding split using Cons.IH [of s'] step by auto
  qed
qed

subsection \<open>Properties\<close>

text \<open>
  Failing calls do not flood the user: whatever fails and whenever, two error messages are always
  more than 800 ms apart, and the connection dialog is shown at most once more than it was confirmed.
\<close>

theorem failure_notices_throttled:
  "let shown = transport_log transport_init evs in
     successively (\<lambda>a b. b - a > 800) (message_times shown) \<and>
     count_list (List.map snd shown) ConnectionModal \<le> count_list evs ModalConfirmed + 1"
proof -
  have "(\<lambda>a b :: int. b - a > 800) = (\<lambda>a b. 801 \<le> b - a)" by (intro ext) auto
  then have "successively (\<lambda>a b. b - a > 800) (message_times (transport_log transport_init evs))"
    using messages.spaced [of evs] by (simp only: message_times_log)
  with modal_count [of transport_init evs] show ?thesis
    by (simp add: Let_def transport_init_def)
qed

end
