(* ===== verification/Session.thy ===== *)
theory Session
  imports Effects Transport
begin

text \<open>
  The session of the user: the store of the tokens (\<open>stores/authStore.ts\<close>) with its copies in the
  local storage of the browser, and the operations of \<open>hooks/useAuth.ts\<close>.  The persistence
  middleware writes the persisted part of the state after every change and merges it back when the
  page is loaded again.
\<close>

subsection \<open>The store\<close>

record persisted_session =
  ps_access :: "string option"
  ps_refresh :: "string option"
  ps_user :: jv

record auth_state =
  au_user :: jv
  au_access :: "string option"
  au_refresh :: "string option"
  au_authenticated :: bool
  au_hydrated :: bool
  au_local :: "string \<rightharpoonup> string"
  au_persisted :: "persisted_session option"

definition auth_memory_init :: "auth_state \<Rightarrow> auth_state" where
  "auth_memory_init s = s\<lparr>au_user := JNull, au_access := None, au_refresh := None,
     au_authenticated := False, au_hydrated := False\<rparr>"

definition auth_init :: auth_state where
  "auth_init = \<lparr>au_user = JNull, au_access = None, au_refresh = None, au_authenticated = False,
     au_hydrated = False, au_local = Map.empty, au_persisted = None\<rparr>"

definition partialize_session :: "auth_state \<Rightarrow> persisted_session" where
  "partialize_session s = \<lparr>ps_access = au_access s, ps_refresh = au_refresh s, ps_user = au_user s\<rparr>"

definition persist_session :: "auth_state \<Rightarrow> auth_state" where
  "persist_session s = s\<lparr>au_persisted := Some (partialize_session s)\<rparr>"

definition set_user :: "jv \<Rightarrow> auth_state \<Rightarrow> auth_state" where
  "set_user u s = persist_session (s\<lparr>au_user := u, au_authenticated := truthy u\<rparr>)"

definition set_tokens :: "string \<Rightarrow> string \<Rightarrow> jv \<Rightarrow> auth_state \<Rightarrow> auth_state" where
  "set_tokens access refresh u s = persist_session (s\<lparr>
     au_local := (au_local s)(''access_token'' \<mapsto> access, ''refresh_token'' \<mapsto> refresh),
     au_access := Some access, au_refresh := Some refresh, au_authenticated := True,
     au_hydrated := True, au_user := (if truthy u then u else JNull)\<rparr>)"

definition store_logout :: "auth_state \<Rightarrow> auth_state" where
  "store_logout s = persist_session (s\<lparr>
     au_local := (au_local s)(''access_token'' := None, ''refresh_token'' := None),
     au_user := JNull, au_access := None, au_refresh := None, au_authenticated := False\<rparr>)"

definition set_hydrated :: "bool \<Rightarrow> auth_state \<Rightarrow> auth_state" where
  "set_hydrated b s = persist_session (s\<lparr>au_hydrated := b\<rparr>)"

definition nonempty_token :: "string option \<Rightarrow> bool" where
  "nonempty_token tk \<longleftrightarrow> tk \<noteq> None \<and> tk \<noteq> Some []"

text \<open>Loading the page: the memory is new, and the persisted part is merged into it.\<close>

definition rehydrate :: "auth_state \<Rightarrow> auth_state" where
  "rehydrate s0 =
     (let s = auth_memory_init s0;
          s = (case au_persisted s of
                 None \<Rightarrow> s
               | Some p \<Rightarrow> s\<lparr>au_access := ps_access p, au_refresh := ps_refresh p, au_user := ps_user p\<rparr>)
      in s\<lparr>au_hydrated := True, au_authenticated := nonempty_token (au_access s)\<rparr>)"

subsection \<open>The hook\<close>

text \<open>The tokens of a login response are strings of the wire type; a missing one is empty.\<close>

type_synonym 'a auth_run = "auth_state \<times> toast list \<times> string option \<times> 'a"

definition login :: "(string \<Rightarrow> string) \<Rightarrow> jv outcome \<Rightarrow> auth_state \<Rightarrow> bool auth_run" where
  "login t login_outcome s =
     (case login_outcome of
        Inr response \<Rightarrow>
          (set_tokens (case jget ''accessToken'' response of JStr a \<Rightarrow> a | _ \<Rightarrow> [])
             (case jget ''refreshToken'' response of JStr r \<Rightarrow> r | _ \<Rightarrow> [])
             (jget ''user'' response) s,
           [ToastSuccess (t ''auth.messages.loginSuccess'')], Some ''/'', True)
      | Inl e \<Rightarrow> (s, [error_toast t e ''auth.messages.loginFailed''], None, False))"

definition register :: "(string \<Rightarrow> string) \<Rightarrow> jv outcome \<Rightarrow> auth_state \<Rightarrow> bool auth_run" where
  "register t register_outcome s =
     (case register_outcome of
        Inr _ \<Rightarrow> (s, [ToastSuccess (t ''auth.messages.registerSuccess'')], Some ''/login'', True)
      | Inl e \<Rightarrow> (s, [error_toast t e ''auth.messages.registerFailed''], None, False))"

definition logout :: "(string \<Rightarrow> string) \<Rightarrow> unit outcome \<Rightarrow> auth_state \<Rightarrow> unit auth_run" where
  "logout t logout_outcome s =
     (case logout_outcome of
        Inr _ \<Rightarrow> (store_logout s, [ToastWarning (t ''auth.messages.logoutSuccess'')], Some ''/login'', ())
      | Inl _ \<Rightarrow> (store_logout s, [ToastWarning (t ''auth.messages.logoutSuccess'')], Some ''/login'', ()))"

definition get_me :: "(string \<Rightarrow> string) \<Rightarrow> jv outcome \<Rightarrow> auth_state \<Rightarrow> jv auth_run" where
  "get_me t me_outcome s =
     (case me_outcome of
        Inr user \<Rightarrow> (s, [], None, user)
      | Inl e \<Rightarrow> (s, [error_toast t e ''auth.messages.fetchMeFailed''], None, JNull))"

datatype auth_action =
    AuSetUser jv
  | AuSetTokens string string jv
  | AuLogout
  | AuSetHydrated bool
  | AuReload

fun auth_step :: "auth_state \<Rightarrow> auth_action \<Rightarrow> auth_state" where
  "auth_step s (AuSetUser u) = set_user u s"
| "auth_step s (AuSetTokens a r u) = set_tokens a r u s"
| "auth_step s AuLogout = store_logout s"
| "auth_step s (AuSetHydrated b) = set_hydrated b s"
| "auth_step s AuReload = rehydrate s"

lemmas session_defs [store_defs] =
  set_user_def set_tokens_def store_logout_def set_hydrated_def rehydrate_def
  auth_memory_init_def persist_session_def partialize_session_def

subsection \<open>Invariant\<close>

text \<open>The three copies of the access token and of the refresh token agree.\<close>

definition auth_inv :: "auth_state \<Rightarrow> bool" where
  "auth_inv s \<longleftrightarrow>
     au_local s ''access_token'' = au_access s \<and> au_local s ''refresh_token'' = au_refresh s \<and>
     (case au_persisted s of None \<Rightarrow> au_access s = None \<and> au_refresh s = None
      | Some p \<Rightarrow> ps_access p = au_access s \<and> ps_refresh p = au_refresh s)"

lemma auth_inv_init: "auth_inv auth_init"
  by (simp add: auth_inv_def auth_init_def)

lemma auth_inv_step: "auth_inv s \<Longrightarrow> auth_inv (auth_step s a)"
  by (cases a) (auto simp: auth_inv_def session_defs Let_def split: option.splits)

interpretation session: machine auth_init auth_step auth_inv
  by unfold_locales (simp_all add: auth_inv_init auth_inv_step)

lemma step_after_logout_locked:
  assumes "au_access s = None" and "auth_inv s" and "\<forall>acc r u. a \<noteq> AuSetTokens acc r u"
  shows "au_access (auth_step s a) = None"
  using assms
  by (cases a) (auto simp: auth_inv_def session_defs Let_def split: option.splits)

subsection \<open>Properties\<close>

text \<open>
  The token that a request carries is the token of the session: after any sequence of logins,
  logouts and reloads of the page, every request outside login and registration carries exactly the
  access token of the store, and none when the store has none.
\<close>

theorem request_carries_session_token:
  "let s = run auth_step auth_init acts in
     authorization_header (au_local s ''access_token'') r =
       (case au_access s of
          None \<Rightarrow> None
        | Some tk \<Rightarrow> if tk = [] \<or> is_auth_free (procedure_key r) then None else Some (''Bearer '' @ tk))"
  using session.inv_run [of acts]
  by (auto simp: Let_def auth_inv_def authorization_header_def split: option.splits)

lemma no_token_until_login:
  assumes "\<forall>a \<in> set later. \<forall>acc r u. a \<noteq> AuSetTokens acc r u"
    and "auth_inv s" and "au_access s = None"
  shows "au_access (run auth_step s later) = None"
  using assms
proof (induction later arbitrary: s)
  case Nil
  then show ?case by simp
next
  case (Cons a later)
  then have "au_access (auth_step s a) = None"
    using step_after_logout_locked [of s a] by simp
  moreover have "auth_inv (auth_step s a)"
    using Cons.prems by (simp add: auth_inv_step)
  ultimately show ?case
    using Cons.IH [of "auth_step s a"] Cons.prems by simp
qed

text \<open>
  C37. A logout ends the session for good, even when the call to the server fails: the hook clears the
  tokens and goes to the login page whatever the server answers, and until new tokens are stored no
  reload or other step brings a token back into a request.
\<close>

theorem logout_ends_session:
  assumes "\<forall>a \<in> set later. \<forall>acc r u. a \<noteq> AuSetTokens acc r u"
  shows "let (s', toasts, page, _) = logout t out (run auth_step auth_init acts);
             s'' = run auth_step s' later
         in page = Some ''/login'' \<and> toasts = [ToastWarning (t ''auth.messages.logoutSuccess'')] \<and>
            \<not> au_authenticated s' \<and>
            authorization_header (au_local s'' ''access_token'') r = None"
proof -
  let ?s = "store_logout (run auth_step auth_init acts)"
  have inv: "auth_inv ?s"
    using auth_inv_step [OF session.inv_run, of acts AuLogout] by simp
  moreover have none: "au_access ?s = None" and out: "\<not> au_authenticated ?s"
    by (simp_all add: store_logout_def persist_session_def)
  ultimately have "au_access (run auth_step ?s later) = None"
    using assms no_token_until_login by blast
  moreover have "auth_inv (run auth_step ?s later)"
    using inv by (rule session.inv_run_from)
  ultimately have "authorization_header (au_local (run auth_step ?s later) ''access_token'') r = None"
    by (simp add: auth_inv_def authorization_header_def)
  with out show ?thesis
    by (simp add: logout_def Let_def split: sum.splits)
qed

theorem logout_ends_session_witness:
  "authorization_header (au_local (run auth_step
      (fst (logout (\<lambda>k. k) (Inl JNull) (run auth_step auth_init [AuSetTokens ''a'' ''r'' JNull])))
      [AuReload, AuSetHydrated True]) ''access_token'')
     \<lparr>rq_service = ''AccountService'', rq_method = [], rq_url = [], rq_procedure = []\<rparr> = None"
  using logout_ends_session [where later = "[AuReload, AuSetHydrated True]" and t = "\<lambda>k. k"
      and out = "Inl JNull" and acts = "[AuSetTokens ''a'' ''r'' JNull]"]
  by (simp add: Let_def case_prod_beta)

end
