(* ===== verification/AdminAccounts.thy ===== *)
theory AdminAccounts
  imports Effects
begin

text \<open>
  The account list of the administration pages: the cache of \<open>stores/adminAccountStore.ts\<close> and the
  fetch of \<open>pages/admin/AccountManagement.tsx\<close> that reads and fills it.  Times are milliseconds and
  arguments; a fetch is two steps, before and after its remote call, so that other steps can happen
  in between.
\<close>

subsection \<open>The cache\<close>

record cached_accounts =
  ca_accounts :: "jv list"
  ca_total :: int
  ca_timestamp :: int

text \<open>The parameters of a list request; zero and the empty string stand for a missing one.\<close>

record account_params =
  ap_page :: int
  ap_page_size :: int
  ap_user_id :: string
  ap_search :: string
  ap_status :: string
  ap_mt_type :: string

definition or_int :: "int \<Rightarrow> int \<Rightarrow> int" where
  "or_int a b = (if a \<noteq> 0 then a else b)"

text \<open>\<open>getParamsKey\<close>: the JSON text is determined by these six values and determines them.\<close>

definition get_params_key :: "account_params \<Rightarrow> account_params" where
  "get_params_key p = \<lparr>ap_page = or_int (ap_page p) 1, ap_page_size = or_int (ap_page_size p) 20,
     ap_user_id = ap_user_id p, ap_search = ap_search p, ap_status = ap_status p,
     ap_mt_type = ap_mt_type p\<rparr>"

text \<open>\<open>adminApi.listAccounts\<close>: the parameters that are sent.\<close>

definition list_accounts_request :: "account_params \<Rightarrow> account_params" where
  "list_accounts_request p = p\<lparr>ap_page := or_int (ap_page p) 1, ap_page_size := or_int (ap_page_size p) 10\<rparr>"

record admin_cache =
  ad_cached :: "account_params \<rightharpoonup> cached_accounts"
  ad_loading :: bool

definition cache_ttl :: int where
  "cache_ttl = 5 * 60 * 1000"

definition admin_cache_init :: admin_cache where
  "admin_cache_init = \<lparr>ad_cached = Map.empty, ad_loading = False\<rparr>"

definition get_cached_data :: "int \<Rightarrow> account_params \<Rightarrow> int \<Rightarrow> admin_cache \<Rightarrow> cached_accounts option" where
  "get_cached_data now key ttl s =
     (case ad_cached s key of
        None \<Rightarrow> None
      | Some cached \<Rightarrow> if now - ca_timestamp cached > ttl then None else Some cached)"

definition set_cached_data ::
    "int \<Rightarrow> account_params \<Rightarrow> jv list \<Rightarrow> int \<Rightarrow> admin_cache \<Rightarrow> admin_cache" where
  "set_cached_data now key accs tot s =
     s\<lparr>ad_cached := (ad_cached s)(key \<mapsto> \<lparr>ca_accounts = accs, ca_total = tot, ca_timestamp = now\<rparr>)\<rparr>"

definition invalidate_cache :: "admin_cache \<Rightarrow> admin_cache" where
  "invalidate_cache s = s\<lparr>ad_cached := Map.empty\<rparr>"

definition set_admin_loading :: "bool \<Rightarrow> admin_cache \<Rightarrow> admin_cache" where
  "set_admin_loading b s = s\<lparr>ad_loading := b\<rparr>"

subsection \<open>The page\<close>

text \<open>
  A fetch in flight remembers the parameters it was started with and whether it found a cached list.
\<close>

record account_fetch =
  af_params :: account_params
  af_cached :: bool

record account_page =
  pg_store :: admin_cache
  pg_params :: account_params
  pg_accounts :: "jv list"
  pg_total :: int
  pg_loading :: bool
  pg_fetches :: "account_fetch list"

definition page_init :: account_page where
  "page_init = \<lparr>pg_store = admin_cache_init,
     pg_params = \<lparr>ap_page = 1, ap_page_size = 20, ap_user_id = [], ap_search = [], ap_status = [],
                  ap_mt_type = []\<rparr>,
     pg_accounts = [], pg_total = 0, pg_loading = True, pg_fetches = []\<rparr>"

definition set_page_loading :: "bool \<Rightarrow> account_page \<Rightarrow> account_page" where
  "set_page_loading b s = s\<lparr>pg_loading := b, pg_store := set_admin_loading b (pg_store s)\<rparr>"

definition start_fetch :: "int \<Rightarrow> bool \<Rightarrow> account_page \<Rightarrow> account_page" where
  "start_fetch now silent s =
     (let s = (if silent then s else set_page_loading True s);
          cached = get_cached_data now (get_params_key (pg_params s)) cache_ttl (pg_store s);
          s = (case cached of
                 None \<Rightarrow> s
               | Some c \<Rightarrow>
                   (let s = s\<lparr>pg_accounts := ca_accounts c, pg_total := ca_total c\<rparr>
                    in if silent then s else set_page_loading False s))
      in s\<lparr>pg_fetches := pg_fetches s @ [\<lparr>af_params = pg_params s, af_cached = (cached \<noteq> None)\<rparr>]\<rparr>)"

definition finish_fetch ::
    "int \<Rightarrow> nat \<Rightarrow> (jv list \<times> int) outcome \<Rightarrow> account_page \<Rightarrow> account_page \<times> jv list" where
  "finish_fetch now k out s =
     (if k < length (pg_fetches s) then
        (let f = pg_fetches s ! k;
             s = s\<lparr>pg_fetches := take k (pg_fetches s) @ drop (Suc k) (pg_fetches s)\<rparr>
         in case out of
              Inr (accs, tot) \<Rightarrow>
                (set_page_loading False (s\<lparr>pg_accounts := accs, pg_total := tot,
                   pg_store := set_cached_data now (get_params_key (af_params f)) accs tot (pg_store s)\<rparr>), [])
            | Inl e \<Rightarrow> (set_page_loading False s, if af_cached f then [] else [e]))
      else (s, []))"

definition set_params :: "account_params \<Rightarrow> account_page \<Rightarrow> account_page" where
  "set_params p s = s\<lparr>pg_params := p\<rparr>"

text \<open>Freezing or unfreezing an account: a successful call empties the cache and fetches silently.\<close>

definition after_freeze :: "int \<Rightarrow> unit outcome \<Rightarrow> account_page \<Rightarrow> account_page" where
  "after_freeze now out s =
     (case out of
        Inr _ \<Rightarrow> start_fetch now True (s\<lparr>pg_store := invalidate_cache (pg_store s)\<rparr>)
      | Inl _ \<Rightarrow> s)"

datatype page_event =
    PgFetch int bool
  | PgAnswer int nat "(jv list \<times> int) outcome"
  | PgSetParams account_params
  | PgFreeze int "unit outcome"

fun page_step :: "account_page \<Rightarrow> page_event \<Rightarrow> account_page" where
  "page_step s (PgFetch now silent) = start_fetch now silent s"
| "page_step s (PgAnswer now k out) = fst (finish_fetch now k out s)"
| "page_step s (PgSetParams p) = set_params p s"
| "page_step s (PgFreeze now out) = after_freeze now out s"

lemmas admin_defs [store_defs] =
  get_cached_data_def set_cached_data_def invalidate_cache_def set_admin_loading_def

subsection \<open>The laws of a cache with an age limit\<close>

text \<open>
  What the page relies on: a read gives what the last write to the key stored, unless it is older than
  the limit or the cache was emptied since.
\<close>

locale ttl_cache =
  fixes read :: "int \<Rightarrow> 'k \<Rightarrow> 's \<Rightarrow> ('t \<times> 'v) option"
    and "write" :: "int \<Rightarrow> 'k \<Rightarrow> 'v \<Rightarrow> 's \<Rightarrow> 's"
    and clear :: "'s \<Rightarrow> 's"
    and stamp :: "'t \<Rightarrow> int"
    and limit :: int
  assumes read_write_same:
      "read now k (write at' k v s) = (if now - at' > limit then None else read at' k (write at' k v s))"
    and read_write_now: "\<exists>t. read at' k (write at' k v s) = Some (t, v) \<and> stamp t = at'"
    and read_write_other: "j \<noteq> k \<Longrightarrow> read now j (write at' k v s) = read now j s"
    and read_clear: "read now k (clear s) = None"
begin

lemma fresh_hit:
  "now - at' \<le> limit \<Longrightarrow> \<exists>t. read now k (write at' k v s) = Some (t, v) \<and> stamp t = at'"
  using read_write_same [of now k at' v s] read_write_now [of at' k v s] by auto

lemma expired_miss: "now - at' > limit \<Longrightarrow> read now k (write at' k v s) = None"
  using read_write_same [of now k at' v s] by auto

lemma writes_elsewhere:
  "\<forall>(a, j, v) \<in> set ws. j \<noteq> k \<Longrightarrow> read now k (foldl (\<lambda>s (a, j, v). write a j v s) s ws) = read now k s"
  by (induction ws arbitrary: s) (auto simp: read_write_other)

lemma hit_after_other_writes:
  assumes "\<forall>(a, j, v) \<in> set ws. j \<noteq> k" and "now - at' \<le> limit"
  shows "\<exists>t. read now k (foldl (\<lambda>s (a, j, v). write a j v s) (write at' k v s) ws) = Some (t, v) \<and>
    stamp t = at'"
  using fresh_hit [OF assms(2)] writes_elsewhere [OF assms(1)] by simp

end

definition read_cached :: "int \<Rightarrow> account_params \<Rightarrow> admin_cache \<Rightarrow> (int \<times> jv list \<times> int) option" where
  "read_cached now k s =
     map_option (\<lambda>c. (ca_timestamp c, ca_accounts c, ca_total c)) (get_cached_data now k cache_ttl s)"

interpretation admin_cached: ttl_cache read_cached
    "\<lambda>now k (accs, tot). set_cached_data now k accs tot" invalidate_cache "\<lambda>t. t" cache_ttl
  by unfold_locales (auto simp: read_cached_def admin_defs cache_ttl_def)

subsection \<open>Facts about the page\<close>

lemma store_of_loading [simp]:
  "ad_cached (pg_store (set_page_loading b s)) = ad_cached (pg_store s)"
  "pg_params (set_page_loading b s) = pg_params s"
  "pg_fetches (set_page_loading b s) = pg_fetches s"
  "pg_accounts (set_page_loading b s) = pg_accounts s"
  "pg_total (set_page_loading b s) = pg_total s"
  "\<not> pg_loading (set_page_loading False s)"
  by (simp_all add: set_page_loading_def set_admin_loading_def)

lemma get_cached_loading [simp]:
  "get_cached_data now k ttl (pg_store (set_page_loading b s)) = get_cached_data now k ttl (pg_store s)"
  by (simp add: get_cached_data_def)

text \<open>The page and the store agree on the busy flag, except for the first rendering.\<close>

lemma finish_not_loading: "k < length (pg_fetches s) \<Longrightarrow> \<not> pg_loading (fst (finish_fetch now k out s))"
  by (auto simp: finish_fetch_def Let_def split: sum.splits)

lemma start_fetch_frame [simp]:
  "pg_params (start_fetch now silent s) = pg_params s"
  "List.map af_params (pg_fetches (start_fetch now silent s)) =
     List.map af_params (pg_fetches s) @ [pg_params s]"
  "length (pg_fetches (start_fetch now silent s)) = Suc (length (pg_fetches s))"
  by (auto simp: start_fetch_def Let_def split: option.splits)

lemma set_params_frame [simp]:
  "pg_params (set_params p s) = p" "pg_fetches (set_params p s) = pg_fetches s"
  by (simp_all add: set_params_def)

lemma finish_fetch_shows:
  assumes "k < length (pg_fetches s)"
  shows "pg_params (fst (finish_fetch now k (Inr (accs, n)) s)) = pg_params s"
    and "pg_accounts (fst (finish_fetch now k (Inr (accs, n)) s)) = accs"
    and "pg_total (fst (finish_fetch now k (Inr (accs, n)) s)) = n"
    and "length (pg_fetches (fst (finish_fetch now k (Inr (accs, n)) s))) = length (pg_fetches s) - 1"
  using assms by (simp_all add: finish_fetch_def Let_def)

subsection \<open>Properties\<close>

text \<open>
  A list of accounts is served from the cache for five minutes: the fetch that the answer belongs
  to stores it under its own parameters, a later fetch with the same parameters shows it before asking
  the server, lists fetched for other parameters in the meantime do not disturb it, and after five
  minutes it is no longer shown.
\<close>

theorem admin_cache_serves_for_ttl:
  assumes "\<forall>(at', k', accs', tot') \<in> set ws. k' \<noteq> k"
  shows "get_cached_data now k cache_ttl
      (foldl (\<lambda>s (at', k', accs', tot'). set_cached_data at' k' accs' tot' s)
         (set_cached_data t k accs tot s) ws) =
    (if now - t \<le> 300000
     then Some \<lparr>ca_accounts = accs, ca_total = tot, ca_timestamp = t\<rparr> else None)"
proof -
  let ?s = "foldl (\<lambda>s (at', k', accs', tot'). set_cached_data at' k' accs' tot' s)
      (set_cached_data t k accs tot s) ws"
  have same: "read_cached now k ?s = read_cached now k (set_cached_data t k accs tot s)"
    using admin_cached.writes_elsewhere [of ws k now "set_cached_data t k accs tot s"] assms
    by (simp add: case_prod_unfold)
  have "read_cached now k (set_cached_data t k accs tot s) =
      (if now - t \<le> 300000 then Some (t, accs, tot) else None)"
    by (simp add: read_cached_def admin_defs cache_ttl_def)
  with same show ?thesis
    by (cases "get_cached_data now k cache_ttl ?s")
      (auto simp: read_cached_def split: if_splits)
qed

definition sample_params :: "string \<Rightarrow> account_params" where
  "sample_params q = \<lparr>ap_page = 1, ap_page_size = 20, ap_user_id = [], ap_search = q, ap_status = [],
     ap_mt_type = []\<rparr>"

theorem admin_cache_serves_for_ttl_witness:
  "get_cached_data 250000 (sample_params ''a'') cache_ttl
     (set_cached_data 9000 (sample_params ''b'') [JNull] 1
       (set_cached_data 5000 (sample_params ''a'') [] 0 admin_cache_init)) =
   Some \<lparr>ca_accounts = [], ca_total = 0, ca_timestamp = 5000\<rparr>"
  using admin_cache_serves_for_ttl
    [of "[(9000, sample_params ''b'', [JNull], 1)]" "sample_params ''a''" 250000 5000 "[]" 0 admin_cache_init]
  by (simp add: sample_params_def)

text \<open>
  The page does not tie an answer to the parameters that are shown: when a search for \<open>p\<close> is still
  in flight and the user has moved on to other parameters \<open>q\<close> whose list was already answered, the
  late answer replaces the list that belongs to \<open>q\<close> by the list for \<open>p\<close>, while \<open>q\<close> stays selected.
\<close>

theorem late_answer_shows_other_list:
  assumes "pg_fetches s = []"
  shows "let s' = foldl page_step s
      [PgSetParams p, PgFetch t1 False, PgSetParams q, PgFetch t2 False,
       PgAnswer t3 1 (Inr (rows_q, total_q)), PgAnswer t4 0 (Inr (rows_p, total_p))]
    in pg_params s' = q \<and> pg_accounts s' = rows_p \<and> pg_total s' = total_p \<and> \<not> pg_loading s'"
  using assms
  by (simp add: Let_def finish_fetch_shows finish_not_loading)

theorem late_answer_shows_other_list_witness:
  "pg_accounts (foldl page_step page_init
      [PgSetParams (sample_params ''a''), PgFetch 1 False, PgSetParams (sample_params ''b''),
       PgFetch 2 False, PgAnswer 3 1 (Inr ([JStr ''b''], 1)), PgAnswer 4 0 (Inr ([JStr ''a''], 1))]) =
   [JStr ''a'']"
  using late_answer_shows_other_list
    [of page_init "sample_params ''a''" 1 "sample_params ''b''" 2 3 "[JStr ''b'']" 1 4 "[JStr ''a'']" 1]
  by (simp add: Let_def page_init_def)

end
