(* ===== verification/AgentStore.thy ===== *)
theory AgentStore
  imports Effects
begin

text \<open>
  The shared store of the AI agents (\<open>pages/ai/agentStore.ts\<close>).  A load is two steps: the request,
  which records its promise in \<open>inflight\<close>, and its answer.  Requests are numbered in the order they
  are issued; \<open>ag_pending\<close> are the numbers whose answer has not arrived, which the code keeps in the
  suspended calls.
\<close>

subsection \<open>The store\<close>

record agent_state =
  ag_defs :: "jv list"
  ag_loading :: bool
  ag_loaded_at :: int
  ag_error :: string
  ag_inflight :: "nat option"
  ag_issued :: nat
  ag_pending :: "nat list"

definition agent_init :: agent_state where
  "agent_init = \<lparr>ag_defs = [], ag_loading = False, ag_loaded_at = 0, ag_error = [],
     ag_inflight = None, ag_issued = 0, ag_pending = []\<rparr>"

definition issue_load :: "agent_state \<Rightarrow> agent_state" where
  "issue_load s = s\<lparr>ag_loading := True, ag_error := [], ag_issued := Suc (ag_issued s),
     ag_pending := ag_pending s @ [ag_issued s], ag_inflight := Some (ag_issued s)\<rparr>"

definition preload :: "bool \<Rightarrow> agent_state \<Rightarrow> agent_state" where
  "preload force s =
     (if \<not> force \<and> ag_loaded_at s > 0 then s
      else if ag_inflight s \<noteq> None then s
      else issue_load s)"

definition refresh :: "agent_state \<Rightarrow> agent_state" where
  "refresh s = preload True s"

definition load_error_text :: "jv \<Rightarrow> string" where
  "load_error_text e = js_string (js_or (js_or (jget ''message'' e) e) (JStr ''load failed''))"

definition load_answered :: "int \<Rightarrow> nat \<Rightarrow> (jv list) outcome \<Rightarrow> agent_state \<Rightarrow> agent_state" where
  "load_answered now i out s =
     (if i \<in> set (ag_pending s) then
        (let s = s\<lparr>ag_pending := remove1 i (ag_pending s)\<rparr>
         in case out of
              Inr l \<Rightarrow> s\<lparr>ag_defs := l, ag_loading := False, ag_loaded_at := now, ag_error := [],
                         ag_inflight := None\<rparr>
            | Inl e \<Rightarrow> s\<lparr>ag_loading := False, ag_error := load_error_text e, ag_inflight := None\<rparr>)
      else s)"

definition set_agents :: "int \<Rightarrow> jv list \<Rightarrow> agent_state \<Rightarrow> agent_state" where
  "set_agents now l s = s\<lparr>ag_defs := l, ag_loaded_at := now\<rparr>"

definition reset_agents :: "agent_state \<Rightarrow> agent_state" where
  "reset_agents s = s\<lparr>ag_defs := [], ag_loading := False, ag_loaded_at := 0, ag_error := [],
     ag_inflight := None\<rparr>"

datatype agent_action =
    AgPreload bool
  | AgRefresh
  | AgAnswer int nat "(jv list) outcome"
  | AgSetAgents int "jv list"
  | AgReset

fun agent_step :: "agent_state \<Rightarrow> agent_action \<Rightarrow> agent_state" where
  "agent_step s (AgPreload force) = preload force s"
| "agent_step s AgRefresh = refresh s"
| "agent_step s (AgAnswer now i out) = load_answered now i out s"
| "agent_step s (AgSetAgents now l) = set_agents now l s"
| "agent_step s AgReset = reset_agents s"

lemmas agent_defs [store_defs] =
  preload_def refresh_def issue_load_def load_answered_def set_agents_def reset_agents_def

subsection \<open>Invariants\<close>

text \<open>
  What holds whatever happens, and what holds while the store is not reset: the promise that is
  recorded is the only request in flight.
\<close>

definition agent_inv :: "agent_state \<Rightarrow> bool" where
  "agent_inv s \<longleftrightarrow> distinct (ag_pending s) \<and> (\<forall>i \<in> set (ag_pending s). i < ag_issued s) \<and>
     (\<forall>i. ag_inflight s = Some i \<longrightarrow> i \<in> set (ag_pending s) \<and> ag_loading s)"

definition single_flight :: "agent_state \<Rightarrow> bool" where
  "single_flight s \<longleftrightarrow>
     ag_pending s = (case ag_inflight s of None \<Rightarrow> [] | Some i \<Rightarrow> [i]) \<and>
     ag_loading s = (ag_inflight s \<noteq> None)"

lemma agent_inv_init: "agent_inv agent_init"
  by (simp add: agent_inv_def agent_init_def)

lemma agent_inv_step: "agent_inv s \<Longrightarrow> agent_inv (agent_step s a)"
  by (cases a) (auto simp: agent_inv_def agent_defs Let_def split: sum.splits)

interpretation agents: machine agent_init agent_step agent_inv
  by unfold_locales (simp_all add: agent_inv_init agent_inv_step)

definition no_reset_step :: "agent_state \<Rightarrow> agent_action \<Rightarrow> agent_state" where
  "no_reset_step s a = (if a = AgReset then s else agent_step s a)"

lemma single_flight_step: "single_flight s \<Longrightarrow> a \<noteq> AgReset \<Longrightarrow> single_flight (agent_step s a)"
  by (cases a) (auto simp: single_flight_def agent_defs Let_def split: sum.splits option.splits)

interpretation unreset_agents: machine agent_init no_reset_step single_flight
  by unfold_locales
    (simp_all add: no_reset_step_def single_flight_step, simp add: single_flight_def agent_init_def)

lemma run_without_reset: "AgReset \<notin> set acts \<Longrightarrow> run no_reset_step s acts = run agent_step s acts"
  by (induction acts arbitrary: s) (auto simp: no_reset_step_def)

subsection \<open>Properties\<close>

text \<open>
  Loads do not overlap while the store is not reset: at any moment at most one request is in flight,
  it is the one whose promise is recorded, and the store says that it is loading exactly then.
\<close>

theorem agent_loads_single_flight:
  assumes "AgReset \<notin> set acts"
  shows "let s = run agent_step agent_init acts in
    ag_pending s = (case ag_inflight s of None \<Rightarrow> [] | Some i \<Rightarrow> [i]) \<and>
    ag_loading s = (ag_inflight s \<noteq> None)"
  using unreset_agents.inv_run [of acts] run_without_reset [OF assms, of agent_init]
  by (simp add: Let_def single_flight_def)

theorem agent_loads_single_flight_witness:
  "length (ag_pending (run agent_step agent_init [AgPreload False, AgPreload True, AgRefresh])) = 1"
proof -
  have "AgReset \<notin> set [AgPreload False, AgPreload True, AgRefresh]" by simp
  from agent_loads_single_flight [OF this]
  show ?thesis by (simp add: agent_defs agent_init_def)
qed

text \<open>
  The forced refresh is not forced while a load is in flight: it asks for nothing, and when that
  load, which was issued before the agents were saved, is answered, its list replaces the saved one.
\<close>

theorem refresh_reuses_stale_load:
  assumes "agent_inv s" and "ag_inflight s = Some i"
  shows "refresh (set_agents now saved s) = set_agents now saved s \<and>
    ag_defs (load_answered later i (Inr old) (refresh (set_agents now saved s))) = old"
  using assms
  by (auto simp: agent_inv_def agent_defs)

theorem refresh_reuses_stale_load_witness:
  "ag_defs (load_answered 9 0 (Inr [JStr ''old''])
     (refresh (set_agents 5 [JStr ''saved''] (run agent_step agent_init [AgPreload False])))) = [JStr ''old'']"
  using refresh_reuses_stale_load [OF agents.inv_run, of "[AgPreload False]" 0 5 "[JStr ''saved'']" 9
      "[JStr ''old'']"]
  by (simp add: agent_defs agent_init_def)

text \<open>
  A reset does not stop a load that is in flight: its answer fills the store again with the list
  that was asked for before the reset, and marks it as loaded, so that the next preload asks for nothing.
\<close>

theorem reset_refilled_by_old_load:
  assumes "agent_inv s" and "ag_inflight s = Some i" and "0 < now"
  shows "let s' = load_answered now i (Inr l) (reset_agents s) in
    ag_defs s' = l \<and> ag_loaded_at s' = now \<and> preload False s' = s'"
  using assms
  by (auto simp: agent_inv_def agent_defs Let_def)

theorem reset_refilled_by_old_load_witness:
  "ag_defs (load_answered 7 0 (Inr [JStr ''old'']) (reset_agents (run agent_step agent_init [AgPreload False])))
     = [JStr ''old'']"
  using reset_refilled_by_old_load [OF agents.inv_run, of "[AgPreload False]" 0 7 "[JStr ''old'']"]
  by (simp add: agent_defs agent_init_def Let_def)

end
