(* ===== verification/StreamRetry.thy ===== *)
theory StreamRetry
  imports ErrorText DataAdapter
begin

text \<open>
  The long-lived streams of \<open>client/stream.ts\<close> that reconnect by themselves: \<open>subscribeEvents\<close> and
  \<open>subscribeUserSummary\<close>.  A subscription is a machine with three phases, reading from a connection,
  waiting for a reconnect timer, and stopped; both functions are instances of it, with different
  dispatch of an item to the callbacks.  Delays are milliseconds.
\<close>

subsection \<open>The machine\<close>

definition stream_transport_failure_cap :: nat where
  "stream_transport_failure_cap = 12"

datatype stream_phase =
    Reading nat
  | Waiting nat nat
  | Stopped

text \<open>
  \<open>Reading r\<close>: connected, with retry count \<open>r\<close>; \<open>Waiting d r\<close>: a timer of \<open>d\<close> ms is set that
  reconnects with retry count \<open>r\<close>.
\<close>

record stream_sub =
  sb_aborted :: bool
  sb_streak :: nat
  sb_phase :: stream_phase

datatype stream_call =
    CallOrder jv
  | CallProfit jv
  | CallStatus jv
  | CallSummary jv
  | CallError stream_error

text \<open>
  What can happen to a subscription: an item (and what the callback throws on it, if anything), the
  end of the stream, a failure of it, the reconnect timer, and the call of the function that
  unsubscribes.
\<close>

datatype 'i stream_event =
    SeItem 'i "stream_error option"
  | SeEnd
  | SeFail stream_error
  | SeTimer
  | SeUnsubscribe

definition retry_delay :: "nat \<Rightarrow> nat" where
  "retry_delay r = min (1000 * 2 ^ r) 30000"

definition run_stream :: "nat \<Rightarrow> stream_sub \<Rightarrow> stream_sub" where
  "run_stream r s = (if sb_aborted s then s\<lparr>sb_phase := Stopped\<rparr> else s\<lparr>sb_phase := Reading r\<rparr>)"

definition schedule_retry :: "nat \<Rightarrow> stream_sub \<Rightarrow> stream_sub" where
  "schedule_retry r s = s\<lparr>sb_phase := Waiting (retry_delay r) (Suc r)\<rparr>"

definition is_cancel :: "stream_error \<Rightarrow> bool" where
  "is_cancel e \<longleftrightarrow> se_name e = ''AbortError'' \<or> js_includes (se_string e) ''canceled'' \<or>
     js_includes (se_string e) ''aborted''"

definition stream_failed :: "nat \<Rightarrow> stream_error \<Rightarrow> stream_sub \<Rightarrow> stream_sub \<times> stream_call list" where
  "stream_failed r e s =
     (if sb_aborted s then (s\<lparr>sb_phase := Stopped\<rparr>, [])
      else if is_cancel e then (s\<lparr>sb_phase := Stopped\<rparr>, [])
      else if is_likely_stream_transport_failure e then
        (let s = s\<lparr>sb_streak := Suc (sb_streak s)\<rparr>
         in if sb_streak s \<ge> stream_transport_failure_cap then (s\<lparr>sb_phase := Stopped\<rparr>, [])
            else (schedule_retry r s, []))
      else (schedule_retry r (s\<lparr>sb_streak := 0\<rparr>), [CallError e]))"

definition stream_ended :: "nat \<Rightarrow> stream_sub \<Rightarrow> stream_sub" where
  "stream_ended r s = (if sb_aborted s then s\<lparr>sb_phase := Stopped\<rparr> else schedule_retry r s)"

definition stream_item ::
    "('i \<Rightarrow> stream_call list) \<Rightarrow> nat \<Rightarrow> 'i \<Rightarrow> stream_error option \<Rightarrow> stream_sub \<Rightarrow>
     stream_sub \<times> stream_call list" where
  "stream_item dispatch r item thrown s =
     (if sb_aborted s then (stream_ended r s, [])
      else
        (let s = s\<lparr>sb_streak := 0, sb_phase := Reading 0\<rparr>;
             calls = dispatch item
         in case (if calls = [] then None else thrown) of
              None \<Rightarrow> (s, calls)
            | Some e \<Rightarrow> (case stream_failed 0 e s of (s, calls') \<Rightarrow> (s, calls @ calls'))))"

text \<open>An event that cannot happen in the current phase leaves the subscription as it is.\<close>

fun stream_step ::
    "('i \<Rightarrow> stream_call list) \<Rightarrow> stream_sub \<Rightarrow> 'i stream_event \<Rightarrow> stream_sub \<times> stream_call list" where
  "stream_step dispatch s (SeItem item thrown) =
     (case sb_phase s of Reading r \<Rightarrow> stream_item dispatch r item thrown s | _ \<Rightarrow> (s, []))"
| "stream_step dispatch s SeEnd =
     (case sb_phase s of Reading r \<Rightarrow> (stream_ended r s, []) | _ \<Rightarrow> (s, []))"
| "stream_step dispatch s (SeFail e) =
     (case sb_phase s of Reading r \<Rightarrow> stream_failed r e s | _ \<Rightarrow> (s, []))"
| "stream_step dispatch s SeTimer =
     (case sb_phase s of Waiting d r \<Rightarrow> (run_stream r s, []) | _ \<Rightarrow> (s, []))"
| "stream_step dispatch s SeUnsubscribe = (s\<lparr>sb_aborted := True\<rparr>, [])"

definition stream_start :: stream_sub where
  "stream_start = run_stream 0 \<lparr>sb_aborted = False, sb_streak = 0, sb_phase = Stopped\<rparr>"

fun stream_run ::
    "('i \<Rightarrow> stream_call list) \<Rightarrow> stream_sub \<Rightarrow> 'i stream_event list \<Rightarrow> stream_sub \<times> stream_call list" where
  "stream_run dispatch s [] = (s, [])"
| "stream_run dispatch s (e # es) =
     (case stream_step dispatch s e of (s', calls) \<Rightarrow>
        (case stream_run dispatch s' es of (s'', calls') \<Rightarrow> (s'', calls @ calls')))"

subsection \<open>The two subscriptions\<close>

text \<open>An event of the stream: the case of its payload, if any, and the value.\<close>

type_synonym stream_payload = "string option \<times> jv"

definition dispatch_event :: "stream_payload \<Rightarrow> stream_call list" where
  "dispatch_event p =
     (case p of (kind, v) \<Rightarrow>
        (if kind = Some ''orderUpdate'' then [CallOrder (to_camel v)]
         else if kind = Some ''profitUpdate'' then [CallProfit (to_camel v)]
         else if kind = Some ''accountStatus'' then [CallStatus (to_camel v)]
         else []))"

definition subscribe_events :: "stream_payload stream_event list \<Rightarrow> stream_sub \<times> stream_call list" where
  "subscribe_events = stream_run dispatch_event stream_start"

definition subscribe_user_summary :: "jv stream_event list \<Rightarrow> stream_sub \<times> stream_call list" where
  "subscribe_user_summary = stream_run (\<lambda>v. [CallSummary (to_camel v)]) stream_start"

subsection \<open>Facts\<close>

lemmas stream_defs = stream_failed_def stream_ended_def stream_item_def schedule_retry_def run_stream_def

lemma stream_run_append:
  "stream_run dispatch s (es @ fs) =
     (case stream_run dispatch s es of (s', calls) \<Rightarrow>
        (case stream_run dispatch s' fs of (s'', calls') \<Rightarrow> (s'', calls @ calls')))"
  by (induction es arbitrary: s) (simp_all add: case_prod_beta)

lemma retry_delay_bounds: "1000 \<le> retry_delay r" "retry_delay r \<le> 30000"
  by (simp_all add: retry_delay_def)

lemma aborted_step:
  "sb_aborted s \<Longrightarrow> stream_step dispatch s e = (s', calls) \<Longrightarrow> sb_aborted s' \<and> calls = []"
  by (cases e) (auto simp: stream_defs split: stream_phase.splits)

lemma aborted_run: "sb_aborted s \<Longrightarrow> snd (stream_run dispatch s es) = []"
proof (induction es arbitrary: s)
  case Nil
  then show ?case by simp
next
  case (Cons e es)
  obtain s' calls where "stream_step dispatch s e = (s', calls)" by fastforce
  with Cons show ?case
    using aborted_step [of s dispatch e s' calls] by (simp add: case_prod_beta)
qed

text \<open>
  The invariant of a subscription: a timer that is set has the delay of its retry count, and while it
  is running the streak of transport failures is below the cap.
\<close>

definition stream_inv :: "stream_sub \<Rightarrow> bool" where
  "stream_inv s \<longleftrightarrow>
     (case sb_phase s of
        Stopped \<Rightarrow> True
      | Reading r \<Rightarrow> sb_streak s < stream_transport_failure_cap
      | Waiting d r \<Rightarrow> (\<exists>q. r = Suc q \<and> d = retry_delay q) \<and> sb_streak s < stream_transport_failure_cap)"

lemma stream_inv_start: "stream_inv stream_start"
  by (simp add: stream_inv_def stream_start_def run_stream_def stream_transport_failure_cap_def)

lemma stream_failed_inv: "stream_inv (fst (stream_failed r e s))"
  by (auto simp: stream_inv_def stream_defs Let_def stream_transport_failure_cap_def)

lemma stream_inv_step: "stream_inv s \<Longrightarrow> stream_inv (fst (stream_step dispatch s e))"
proof (cases e)
  case (SeItem item thrown)
  assume "stream_inv s"
  moreover have "stream_inv (fst (stream_item dispatch r item thrown s))" for r
    using stream_failed_inv
    by (auto simp: stream_item_def Let_def case_prod_beta stream_ended_def schedule_retry_def
        stream_inv_def [of "s\<lparr>sb_streak := 0, sb_phase := Reading 0\<rparr>"]
        stream_inv_def [of "s\<lparr>sb_phase := Stopped\<rparr>"]
        stream_transport_failure_cap_def split: option.splits)
  ultimately show ?thesis
    using SeItem by (simp split: stream_phase.splits)
next
  case (SeFail err)
  assume "stream_inv s"
  with SeFail show ?thesis by (simp add: stream_failed_inv split: stream_phase.splits)
qed (auto simp: stream_inv_def stream_defs split: stream_phase.splits)

interpretation streams: machine stream_start "\<lambda>s e. fst (stream_step dispatch s e)" stream_inv
  by unfold_locales (simp_all add: stream_inv_start stream_inv_step)

lemma fst_stream_run: "fst (stream_run dispatch s es) = run (\<lambda>s e. fst (stream_step dispatch s e)) s es"
  by (induction es arbitrary: s) (simp_all add: case_prod_beta)

subsection \<open>Properties\<close>

text \<open>
  C9. Unsubscribing from the event stream is final: whatever the connection, the timers and the
  callbacks do afterwards, no callback is called any more.
\<close>

theorem no_callback_after_unsubscribe:
  "snd (subscribe_events (before @ SeUnsubscribe # after)) = snd (subscribe_events before)"
proof -
  let ?s = "fst (subscribe_events before)"
  have "snd (stream_run dispatch_event (?s\<lparr>sb_aborted := True\<rparr>) after) = []"
    by (rule aborted_run) simp
  then show ?thesis
    by (simp add: subscribe_events_def stream_run_append case_prod_beta)
qed

text \<open>
  The reconnect timer: in every state of the event stream in which a timer is set, its delay is the
  doubling delay of the retry count it will use, between one and thirty seconds.
\<close>

theorem reconnect_delay_bounds:
  "case sb_phase (fst (subscribe_events es)) of
     Waiting d r \<Rightarrow> 0 < r \<and> d = min (1000 * 2 ^ (r - 1)) 30000 \<and> 1000 \<le> d \<and> d \<le> 30000
   | _ \<Rightarrow> True"
proof -
  have "stream_inv (fst (subscribe_events es))"
    unfolding subscribe_events_def fst_stream_run by (rule streams.inv_run)
  then show ?thesis
    by (auto simp: stream_inv_def retry_delay_def split: stream_phase.splits)
qed

lemma failing_cycles:
  assumes "is_likely_stream_transport_failure e" and "\<not> is_cancel e"
    and "sb_phase s = Reading r" and "\<not> sb_aborted s" and "sb_streak s = k" and "n + k < 12"
  shows "stream_run dispatch s (concat (replicate n [SeFail e, SeTimer])) =
    (s\<lparr>sb_streak := n + k, sb_phase := Reading (n + r)\<rparr>, [])"
  using assms
proof (induction n arbitrary: s r k)
  case 0
  then show ?case by simp
next
  case (Suc n)
  let ?s = "s\<lparr>sb_streak := Suc k, sb_phase := Reading (Suc r)\<rparr>"
  have "stream_run dispatch ?s (concat (replicate n [SeFail e, SeTimer])) =
      (?s\<lparr>sb_streak := n + Suc k, sb_phase := Reading (n + Suc r)\<rparr>, [])"
    using Suc.prems by (intro Suc.IH) simp_all
  with Suc.prems show ?case
    by (simp add: stream_failed_def schedule_retry_def run_stream_def Let_def
        stream_transport_failure_cap_def)
qed

lemma stopped_run:
  "sb_phase s = Stopped \<Longrightarrow>
     sb_phase (fst (stream_run dispatch s es)) = Stopped \<and> snd (stream_run dispatch s es) = []"
proof (induction es arbitrary: s)
  case Nil
  then show ?case by simp
next
  case (Cons ev es)
  then show ?case by (cases ev) (simp_all add: case_prod_beta)
qed

text \<open>
  A connection that is only ever cut by the transport is given up after exactly twelve attempts and
  without a word: eleven failures are followed by a reconnect each, the twelfth stops the subscription,
  no callback is called, and the subscription stays stopped whatever arrives later.
\<close>

theorem transport_failures_stop_silently:
  assumes "is_likely_stream_transport_failure e" and "\<not> is_cancel e"
  shows "sb_phase (fst (subscribe_events (concat (replicate 11 [SeFail e, SeTimer])))) = Reading 11 \<and>
    sb_phase (fst (subscribe_events (concat (replicate 11 [SeFail e, SeTimer]) @ SeFail e # later))) = Stopped \<and>
    snd (subscribe_events (concat (replicate 11 [SeFail e, SeTimer]) @ SeFail e # later)) = []"
proof -
  have cycles: "stream_run dispatch_event stream_start (concat (replicate 11 [SeFail e, SeTimer])) =
      (stream_start\<lparr>sb_streak := 11, sb_phase := Reading 11\<rparr>, [])"
    using assms failing_cycles [of e stream_start 0 0 11 dispatch_event]
    by (simp add: stream_start_def run_stream_def)
  have "stream_step dispatch_event (stream_start\<lparr>sb_streak := 11, sb_phase := Reading 11\<rparr>) (SeFail e) =
      (stream_start\<lparr>sb_streak := 12, sb_phase := Stopped\<rparr>, [])"
    using assms
    by (simp add: stream_failed_def Let_def stream_transport_failure_cap_def stream_start_def run_stream_def)
  with cycles stopped_run [of "stream_start\<lparr>sb_streak := 12, sb_phase := Stopped\<rparr>" dispatch_event later]
  show ?thesis
    by (simp add: subscribe_events_def stream_run_append case_prod_beta)
qed

definition gateway_timeout :: stream_error where
  "gateway_timeout = \<lparr>se_name = ''ConnectError'', se_message = ''HTTP 524'',
     se_string = ''ConnectError: HTTP 524'', se_cause_message = [], se_cause = []\<rparr>"

theorem transport_failures_stop_silently_witness:
  "snd (subscribe_events (concat (replicate 11 [SeFail gateway_timeout, SeTimer]) @
     [SeFail gateway_timeout, SeTimer, SeItem (Some ''orderUpdate'', JNull) None])) = []"
proof -
  have "is_likely_stream_transport_failure gateway_timeout" and "\<not> is_cancel gateway_timeout"
    by code_simp+
  then show ?thesis
    using transport_failures_stop_silently
      [of gateway_timeout "[SeTimer, SeItem (Some ''orderUpdate'', JNull) None]"] by simp
qed

end
