(* ===== verification/TaskTable.thy ===== *)
theory TaskTable
  imports Prelude
begin

text \<open>
  Tables of suspended operations: the stores whose operations wait for several answers keep, in the
  models, the list of the operations in flight, each under its number.  Numbers are given out in order
  and not used again.
\<close>

definition fresh_table :: "nat \<Rightarrow> (nat \<times> 'a) list \<Rightarrow> bool" where
  "fresh_table n al \<longleftrightarrow> distinct (List.map fst al) \<and> (\<forall>p \<in> set al. fst p < n)"

definition has_entry :: "('a \<Rightarrow> bool) \<Rightarrow> (nat \<times> 'a) list \<Rightarrow> bool" where
  "has_entry P al \<longleftrightarrow> (\<exists>p \<in> set al. P (snd p))"

lemma set_delete: "set (AList.delete i al) = {p \<in> set al. fst p \<noteq> i}"
  by (induction al) auto

lemma set_update:
  "distinct (List.map fst al) \<Longrightarrow> set (AList.update i x al) = insert (i, x) {p \<in> set al. fst p \<noteq> i}"
  by (induction al) (auto, (force simp: image_iff)+)

lemma update_last [simp]: "i \<notin> fst ` set al \<Longrightarrow> AList.update i x (al @ [(i, y)]) = al @ [(i, x)]"
  by (induction al) auto

lemma delete_last [simp]: "i \<notin> fst ` set al \<Longrightarrow> AList.delete i (al @ [(i, y)]) = al"
  by (induction al) (auto simp: delete_idem)

lemma map_of_last: "i \<notin> fst ` set al \<Longrightarrow> map_of (al @ [(i, y)]) i = Some y"
  by (simp add: map_add_def map_of_eq_None_iff [symmetric] del: map_of_eq_None_iff)

lemma fresh_table_Nil [simp]: "fresh_table n []"
  by (simp add: fresh_table_def)

lemma fresh_table_key: "fresh_table n al \<Longrightarrow> n \<notin> fst ` set al"
  by (force simp: fresh_table_def)

lemma fresh_table_append [simp]: "fresh_table n al \<Longrightarrow> fresh_table (Suc n) (al @ [(n, x)])"
  by (fastforce simp: fresh_table_def)

lemma fresh_table_delete [simp]: "fresh_table n al \<Longrightarrow> fresh_table n (AList.delete i al)"
  by (auto simp: fresh_table_def set_delete distinct_delete)

lemma fresh_table_update [simp]: "fresh_table n al \<Longrightarrow> i < n \<Longrightarrow> fresh_table n (AList.update i x al)"
  by (auto simp: fresh_table_def set_update distinct_update)

lemma fresh_table_lt: "fresh_table n al \<Longrightarrow> map_of al i = Some x \<Longrightarrow> i < n"
  by (auto simp: fresh_table_def dest!: map_of_SomeD)

lemma has_entry_Nil [simp]: "\<not> has_entry P []"
  by (simp add: has_entry_def)

lemma has_entry_append [simp]: "has_entry P (al @ bl) \<longleftrightarrow> has_entry P al \<or> has_entry P bl"
  by (auto simp: has_entry_def)

lemma has_entry_single [simp]: "has_entry P [(i, x)] \<longleftrightarrow> P x"
  by (simp add: has_entry_def)

lemma has_entry_update: "fresh_table n al \<Longrightarrow> P x \<Longrightarrow> has_entry P (AList.update i x al)"
  by (simp add: has_entry_def fresh_table_def set_update)

text \<open>Removing or changing an entry that does not count.\<close>

lemma has_entry_other:
  assumes "fresh_table n al" and "has_entry P al" and "map_of al i = Some x" and "\<not> P x"
  obtains k y where "(k, y) \<in> set al" "P y" "k \<noteq> i"
proof -
  obtain k y where p: "(k, y) \<in> set al" "P y"
    using assms(2) by (auto simp: has_entry_def)
  with assms have "k \<noteq> i"
    by (metis fresh_table_def map_of_is_SomeI option.inject)
  with p show thesis by (rule that)
qed

lemma has_entry_delete:
  assumes "fresh_table n al" and "has_entry P al" and "map_of al i = Some x" and "\<not> P x"
  shows "has_entry P (AList.delete i al)"
  using assms by (rule has_entry_other) (auto simp: has_entry_def set_delete)

lemma has_entry_update_keep:
  assumes "fresh_table n al" and "has_entry P al" and "map_of al i = Some x" and "\<not> P x \<or> P y"
  shows "has_entry P (AList.update i y al)"
proof (cases "P y")
  case True
  with assms(1) show ?thesis by (rule has_entry_update)
next
  case False
  with assms have "\<not> P x" by simp
  with assms(1-3) show ?thesis
    by (rule has_entry_other) (use assms(1) in \<open>auto simp: has_entry_def fresh_table_def set_update\<close>)
qed

text \<open>The work that is left: a measure of the entries.\<close>

definition table_work :: "('a \<Rightarrow> nat) \<Rightarrow> (nat \<times> 'a) list \<Rightarrow> nat" where
  "table_work rank al = sum_list (List.map (rank \<circ> snd) al)"

lemma table_work_update:
  "map_of al i = Some x \<Longrightarrow> rank y < rank x \<Longrightarrow> table_work rank (AList.update i y al) < table_work rank al"
  by (induction al) (auto simp: table_work_def split: if_splits)

lemma table_work_delete:
  "map_of al i = Some x \<Longrightarrow> 0 < rank x \<Longrightarrow> table_work rank (AList.delete i al) < table_work rank al"
proof (induction al)
  case (Cons p al)
  have le: "table_work rank (AList.delete i al) \<le> table_work rank al" for al
    by (induction al) (auto simp: table_work_def)
  show ?case
  proof (cases "fst p = i")
    case True
    then show ?thesis
      using Cons.prems le [of al] by (cases p) (simp add: table_work_def)
  next
    case False
    then show ?thesis
      using Cons by (cases p) (simp add: table_work_def)
  qed
qed simp

end
