(* ===== verification/SharedStreams.thy ===== *)
theory SharedStreams
  imports StreamRetry TaskTable
begin

text \<open>
  The shared streams of \<open>client/stream.ts\<close>: all subscribers of an account share one connection
  (\<open>subscribeShared\<close>, \<open>startSharedStream\<close>).  The code keeps the state objects by account in a map and
  also in the loop that reads the connection, so the model keeps the objects in a list, addressed by
  position, and the map from accounts to positions.  Every call of \<open>start\<close> opens a connection of its own,
  which the table of connections lists with the position of its object, so that an object could have
  several.  The profit and the order streams each have a map of their own; the model is that of one of them.
  Listeners are identified by the random identifier that the code draws.
\<close>

subsection \<open>State and operations\<close>

record shared_stream =
  sh_key :: string
  sh_listeners :: "nat list"
  sh_started :: bool
  sh_aborted :: bool

record shared_state =
  so_objects :: "shared_stream list"
  so_store :: "string \<rightharpoonup> nat"
  so_connections :: "(nat \<times> nat) list"
  so_next :: nat

datatype shared_call =
    SharedData nat jv
  | SharedError nat stream_error

definition shared_init :: shared_state where
  "shared_init = \<lparr>so_objects = [], so_store = Map.empty, so_connections = [], so_next = 0\<rparr>"

definition modify_object :: "nat \<Rightarrow> (shared_stream \<Rightarrow> shared_stream) \<Rightarrow> shared_state \<Rightarrow> shared_state" where
  "modify_object n f s = s\<lparr>so_objects := (so_objects s)[n := f (so_objects s ! n)]\<rparr>"

definition open_connection :: "nat \<Rightarrow> shared_state \<Rightarrow> shared_state" where
  "open_connection n s = s\<lparr>so_connections := so_connections s @ [(so_next s, n)], so_next := Suc (so_next s)\<rparr>"

definition start_shared_stream :: "nat \<Rightarrow> shared_state \<Rightarrow> shared_state" where
  "start_shared_stream n s =
     (if sh_started (so_objects s ! n) then s
      else open_connection n (modify_object n (\<lambda>o'. o'\<lparr>sh_started := True\<rparr>) s))"

definition subscribe_shared :: "string \<Rightarrow> nat \<Rightarrow> shared_state \<Rightarrow> shared_state" where
  "subscribe_shared key l s =
     (let (n, s) = (case so_store s key of
                      Some n \<Rightarrow> (n, s)
                    | None \<Rightarrow>
                        (length (so_objects s),
                         s\<lparr>so_objects := so_objects s @ [\<lparr>sh_key = key, sh_listeners = [],
                              sh_started = False, sh_aborted = False\<rparr>],
                           so_store := (so_store s)(key \<mapsto> length (so_objects s))\<rparr>))
      in start_shared_stream n (modify_object n (\<lambda>o'. o'\<lparr>sh_listeners := sh_listeners o' @ [l]\<rparr>) s))"

definition unsubscribe_shared :: "string \<Rightarrow> nat \<Rightarrow> shared_state \<Rightarrow> shared_state" where
  "unsubscribe_shared key l s =
     (case so_store s key of
        None \<Rightarrow> s
      | Some n \<Rightarrow>
          (let s = modify_object n (\<lambda>o'. o'\<lparr>sh_listeners := filter (\<lambda>i. i \<noteq> l) (sh_listeners o')\<rparr>) s
           in if sh_listeners (so_objects s ! n) = []
              then (modify_object n (\<lambda>o'. o'\<lparr>sh_aborted := True\<rparr>) s)\<lparr>so_store := (so_store s)(key := None)\<rparr>
              else s))"

text \<open>An item that the connection \<open>c\<close> delivers.\<close>

definition shared_item :: "nat \<Rightarrow> jv \<Rightarrow> shared_state \<Rightarrow> shared_call list" where
  "shared_item c v s =
     (case map_of (so_connections s) c of
        None \<Rightarrow> []
      | Some n \<Rightarrow> if sh_aborted (so_objects s ! n) then []
                  else List.map (\<lambda>l. SharedData l (to_camel v)) (sh_listeners (so_objects s ! n)))"

definition is_shared_cancel :: "stream_error \<Rightarrow> bool" where
  "is_shared_cancel e \<longleftrightarrow> se_name e = ''AbortError'' \<or> js_includes (se_string e) ''canceled''"

text \<open>The end of the loop that reads the connection \<open>c\<close>, by the end of the stream or by an error.\<close>

definition shared_end :: "nat \<Rightarrow> stream_error option \<Rightarrow> shared_state \<Rightarrow> shared_state \<times> shared_call list" where
  "shared_end c err s =
     (case map_of (so_connections s) c of
        None \<Rightarrow> (s, [])
      | Some n \<Rightarrow>
        (let calls = (case err of
                        None \<Rightarrow> []
                      | Some e \<Rightarrow> if is_shared_cancel e then []
                                  else List.map (\<lambda>l. SharedError l e) (sh_listeners (so_objects s ! n)));
             key = sh_key (so_objects s ! n);
             s = s\<lparr>so_connections := AList.delete c (so_connections s)\<rparr>
         in (case so_store s key of
               None \<Rightarrow> s
             | Some m \<Rightarrow> if sh_listeners (so_objects s ! m) = []
                         then s\<lparr>so_store := (so_store s)(key := None)\<rparr> else s, calls)))"

datatype shared_event =
    ShSubscribe string nat
  | ShUnsubscribe string nat
  | ShItem nat jv
  | ShEnd nat "stream_error option"

fun shared_step :: "shared_state \<Rightarrow> shared_event \<Rightarrow> shared_state" where
  "shared_step s (ShSubscribe k l) = subscribe_shared k l s"
| "shared_step s (ShUnsubscribe k l) = unsubscribe_shared k l s"
| "shared_step s (ShItem c v) = s"
| "shared_step s (ShEnd c err) = fst (shared_end c err s)"

lemmas shared_defs [store_defs] =
  subscribe_shared_def unsubscribe_shared_def shared_end_def start_shared_stream_def open_connection_def
  modify_object_def

subsection \<open>Invariant\<close>

text \<open>
  Every account of the map has its own started object with a listener, and a connection that is still
  wanted belongs to the object that the map has for its account.  No object has two connections.
\<close>

definition object_inv :: "shared_state \<Rightarrow> bool" where
  "object_inv s \<longleftrightarrow>
     (\<forall>k n. so_store s k = Some n \<longrightarrow>
        n < length (so_objects s) \<and> sh_key (so_objects s ! n) = k \<and>
        sh_listeners (so_objects s ! n) \<noteq> [] \<and> sh_started (so_objects s ! n)) \<and>
     (\<forall>n < length (so_objects s). \<not> sh_aborted (so_objects s ! n) \<longrightarrow>
        so_store s (sh_key (so_objects s ! n)) = Some n)"

definition connection_inv :: "shared_state \<Rightarrow> bool" where
  "connection_inv s \<longleftrightarrow> fresh_table (so_next s) (so_connections s) \<and> distinct (List.map snd (so_connections s)) \<and>
     (\<forall>n \<in> snd ` set (so_connections s). n < length (so_objects s) \<and> sh_started (so_objects s ! n))"

definition shared_inv :: "shared_state \<Rightarrow> bool" where
  "shared_inv s \<longleftrightarrow> object_inv s \<and> connection_inv s"

lemma shared_inv_init: "shared_inv shared_init"
  by (simp add: shared_inv_def object_inv_def connection_inv_def shared_init_def)

text \<open>What the operations come to in a state that keeps the invariant.\<close>

lemma modify_object_simps [simp]:
  "so_objects (modify_object n f s) = (so_objects s)[n := f (so_objects s ! n)]"
  "so_store (modify_object n f s) = so_store s"
  "so_connections (modify_object n f s) = so_connections s" "so_next (modify_object n f s) = so_next s"
  by (simp_all add: modify_object_def)

lemma object_inv_view [simp]:
  "object_inv (s\<lparr>so_connections := cs\<rparr>) = object_inv s" "object_inv (s\<lparr>so_next := i\<rparr>) = object_inv s"
  "object_inv (open_connection n s) = object_inv s"
  by (simp_all add: object_inv_def open_connection_def)

lemma subscribe_new:
  "so_store s k = None \<Longrightarrow> subscribe_shared k l s =
     \<lparr>so_objects = so_objects s @ [\<lparr>sh_key = k, sh_listeners = [l], sh_started = True, sh_aborted = False\<rparr>],
      so_store = (so_store s)(k \<mapsto> length (so_objects s)),
      so_connections = so_connections s @ [(so_next s, length (so_objects s))], so_next = Suc (so_next s)\<rparr>"
  by (simp add: subscribe_shared_def start_shared_stream_def modify_object_def open_connection_def)

lemma subscribe_joined:
  assumes "object_inv s" and "so_store s k = Some n"
  shows "subscribe_shared k l s = modify_object n (\<lambda>o'. o'\<lparr>sh_listeners := sh_listeners o' @ [l]\<rparr>) s"
  using assms by (simp add: subscribe_shared_def start_shared_stream_def object_inv_def)

lemma shared_end_open:
  assumes "object_inv s" and "map_of (so_connections s) c = Some n"
  shows "fst (shared_end c err s) = s\<lparr>so_connections := AList.delete c (so_connections s)\<rparr>"
  using assms by (auto simp: shared_end_def Let_def object_inv_def split: option.split)

lemma object_inv_modify:
  assumes "object_inv s" and "n < length (so_objects s)"
    and "sh_key (f (so_objects s ! n)) = sh_key (so_objects s ! n)"
    and "sh_aborted (f (so_objects s ! n)) = sh_aborted (so_objects s ! n)"
    and "sh_started (so_objects s ! n) \<Longrightarrow> sh_started (f (so_objects s ! n))"
    and "sh_listeners (so_objects s ! n) \<noteq> [] \<Longrightarrow> sh_listeners (f (so_objects s ! n)) \<noteq> []"
  shows "object_inv (modify_object n f s)"
  unfolding object_inv_def
proof (intro conjI allI impI)
  fix k m
  assume m: "so_store (modify_object n f s) k = Some m"
  then have "m < length (so_objects s) \<and> sh_key (so_objects s ! m) = k \<and>
      sh_listeners (so_objects s ! m) \<noteq> [] \<and> sh_started (so_objects s ! m)"
    using assms(1) by (simp add: object_inv_def)
  then show "m < length (so_objects (modify_object n f s))"
    and "sh_key (so_objects (modify_object n f s) ! m) = k"
    and "sh_listeners (so_objects (modify_object n f s) ! m) \<noteq> []"
    and "sh_started (so_objects (modify_object n f s) ! m)"
    using assms(2-) by (cases "m = n"; simp)+
next
  fix m
  assume "m < length (so_objects (modify_object n f s))"
    and "\<not> sh_aborted (so_objects (modify_object n f s) ! m)"
  then show "so_store (modify_object n f s) (sh_key (so_objects (modify_object n f s) ! m)) = Some m"
    using assms(1-4) by (cases "m = n") (simp_all add: object_inv_def)
qed

lemma object_inv_subscribe:
  assumes "object_inv s"
  shows "object_inv (subscribe_shared k l s)"
proof (cases "so_store s k")
  case None
  with assms have "sh_key (so_objects s ! m) \<noteq> k"
    if "m < length (so_objects s)" "\<not> sh_aborted (so_objects s ! m)" for m
    using that by (auto simp: object_inv_def)
  with assms None show ?thesis
    by (auto simp: subscribe_new object_inv_def nth_append less_Suc_eq)
next
  case (Some n)
  with assms have "n < length (so_objects s)" by (simp add: object_inv_def)
  with assms show ?thesis
    unfolding subscribe_joined [OF assms Some] by (intro object_inv_modify) simp_all
qed

lemma object_inv_unsubscribe:
  assumes "object_inv s"
  shows "object_inv (unsubscribe_shared k l s)"
proof (cases "so_store s k")
  case None
  with assms show ?thesis by (simp add: unsubscribe_shared_def)
next
  case (Some n)
  let ?f = "\<lambda>o'. o'\<lparr>sh_listeners := filter (\<lambda>i. i \<noteq> l) (sh_listeners o')\<rparr>"
  have n: "n < length (so_objects s)" "sh_key (so_objects s ! n) = k"
    using assms Some by (simp_all add: object_inv_def)
  show ?thesis
  proof (cases "sh_listeners (?f (so_objects s ! n)) = []")
    case False
    with assms n have "object_inv (modify_object n ?f s)"
      by (intro object_inv_modify) simp_all
    with False Some n show ?thesis
      by (simp add: unsubscribe_shared_def Let_def)
  next
    case True
    then have u: "unsubscribe_shared k l s =
        (modify_object n (\<lambda>o'. o'\<lparr>sh_aborted := True\<rparr>) (modify_object n ?f s))\<lparr>so_store := (so_store s)(k := None)\<rparr>"
      using Some n by (simp add: unsubscribe_shared_def Let_def)
    have other: "m \<noteq> n" if "so_store s j = Some m" "j \<noteq> k" for j m
      using assms n that by (auto simp: object_inv_def)
    have live: "sh_key (so_objects s ! m) \<noteq> k"
      if "m < length (so_objects s)" "\<not> sh_aborted (so_objects s ! m)" "m \<noteq> n" for m
      using assms Some that by (auto simp: object_inv_def)
    show ?thesis
      unfolding u using assms n other live
      by (auto simp: object_inv_def nth_list_update)
  qed
qed

lemma connection_inv_objects:
  assumes "connection_inv s" "so_connections s' = so_connections s" "so_next s' = so_next s"
    and "length (so_objects s') = length (so_objects s)"
    and "\<And>n. n < length (so_objects s) \<Longrightarrow> sh_started (so_objects s ! n) \<Longrightarrow> sh_started (so_objects s' ! n)"
  shows "connection_inv s'"
  using assms by (auto simp: connection_inv_def)

lemma started_update [simp]:
  "sh_started y = sh_started (xs ! m) \<Longrightarrow> sh_started (xs[m := y] ! n) = sh_started (xs ! n)"
  by (cases "n = m"; cases "m < length xs") (auto simp: not_less list_update_beyond)

lemma connection_inv_subscribe:
  assumes "object_inv s" "connection_inv s"
  shows "connection_inv (subscribe_shared k l s)"
proof (cases "so_store s k")
  case None
  then show ?thesis using assms(2) by (auto simp: subscribe_new connection_inv_def nth_append)
next
  case (Some n)
  then show ?thesis
    unfolding subscribe_joined [OF assms(1) Some] by (intro connection_inv_objects [OF assms(2)]) simp_all
qed

lemma connection_inv_unsubscribe: "connection_inv s \<Longrightarrow> connection_inv (unsubscribe_shared k l s)"
  by (erule connection_inv_objects) (simp_all add: unsubscribe_shared_def Let_def split: option.split)

lemma connection_inv_delete: "connection_inv s \<Longrightarrow> connection_inv (s\<lparr>so_connections := AList.delete c (so_connections s)\<rparr>)"
  unfolding connection_inv_def AList.delete_eq
  by (auto simp: distinct_map_filter fresh_table_def)

lemma shared_inv_end:
  assumes "shared_inv s"
  shows "shared_inv (fst (shared_end c err s))"
proof (cases "map_of (so_connections s) c")
  case None
  with assms show ?thesis by (simp add: shared_end_def)
next
  case (Some n)
  with assms show ?thesis
    unfolding shared_inv_def by (auto simp: shared_end_open connection_inv_delete)
qed

lemma shared_inv_step: "shared_inv s \<Longrightarrow> shared_inv (shared_step s e)"
  using shared_inv_end
  by (cases e) (auto simp: shared_inv_def object_inv_subscribe object_inv_unsubscribe connection_inv_subscribe
      connection_inv_unsubscribe)

interpretation shared: machine shared_init shared_step shared_inv
  by unfold_locales (simp_all add: shared_inv_init shared_inv_step)

subsection \<open>Properties\<close>

text \<open>The connections that are open for an account.\<close>

definition open_connections :: "string \<Rightarrow> shared_state \<Rightarrow> nat list" where
  "open_connections k s = List.map fst
     (filter (\<lambda>(c, n). sh_key (so_objects s ! n) = k \<and> \<not> sh_aborted (so_objects s ! n)) (so_connections s))"

lemma distinct_same_value:
  "distinct (List.map snd al) \<Longrightarrow> \<forall>p \<in> set al. snd p = x \<Longrightarrow> length al \<le> 1"
  by (cases al; cases "tl al") auto

lemma open_connections_bound:
  assumes "shared_inv s"
  shows "length (open_connections k s) \<le> 1 \<and>
    (open_connections k s = [] \<or> (\<exists>n. so_store s k = Some n \<and> sh_listeners (so_objects s ! n) \<noteq> []))"
proof -
  let ?P = "\<lambda>(c, n). sh_key (so_objects s ! n) = k \<and> \<not> sh_aborted (so_objects s ! n)"
  have wanted: "so_store s k = Some (snd p)" if "p \<in> set (filter ?P (so_connections s))" for p
    using assms that by (force simp: shared_inv_def object_inv_def connection_inv_def)
  have "distinct (List.map snd (filter ?P (so_connections s)))"
    using assms by (auto simp: shared_inv_def connection_inv_def intro: distinct_map_filter)
  moreover have "\<forall>p \<in> set (filter ?P (so_connections s)). snd p = the (so_store s k)" using wanted by force
  ultimately have "length (open_connections k s) \<le> 1"
    unfolding open_connections_def length_map by (rule distinct_same_value)
  moreover have "\<exists>n. so_store s k = Some n \<and> sh_listeners (so_objects s ! n) \<noteq> []" if "open_connections k s \<noteq> []"
  proof -
    have "filter ?P (so_connections s) \<noteq> []" using that by (simp add: open_connections_def)
    then obtain p where "p \<in> set (filter ?P (so_connections s))" by (meson list.set_sel(1))
    with wanted have "so_store s k = Some (snd p)" by blast
    with assms show ?thesis by (auto simp: shared_inv_def object_inv_def)
  qed
  ultimately show ?thesis by blast
qed

text \<open>
  C38. Subscribers of an account share its connection: after any sequence of subscriptions, their ends,
  items and stream ends at most one of the connections that were opened for an account is open and wanted, and
  none where the account has no subscriber; and the first subscriber of an account gets one at once.
\<close>

theorem one_connection_per_account:
  "let s = run shared_step shared_init evs in
     (case so_store s k of
        None \<Rightarrow> open_connections k s = [] \<and> length (open_connections k (subscribe_shared k l s)) = 1
      | Some n \<Rightarrow> length (open_connections k s) \<le> 1 \<and> sh_listeners (so_objects s ! n) \<noteq> [])"
proof -
  let ?s = "run shared_step shared_init evs"
  have inv: "shared_inv ?s" by (rule shared.inv_run)
  have "length (open_connections k (subscribe_shared k l ?s)) = 1" if none: "so_store ?s k = None"
  proof -
    have "open_connections k (subscribe_shared k l ?s) \<noteq> []" using none by (simp add: subscribe_new open_connections_def)
    moreover have "shared_inv (subscribe_shared k l ?s)" using shared_inv_step [OF inv, of "ShSubscribe k l"] by simp
    ultimately show ?thesis using open_connections_bound [of "subscribe_shared k l ?s" k] by (simp add: le_Suc_eq)
  qed
  moreover have "sh_listeners (so_objects ?s ! n) \<noteq> []" if "so_store ?s k = Some n" for n
    using inv that by (simp add: shared_inv_def object_inv_def)
  ultimately show ?thesis
    unfolding Let_def using open_connections_bound [OF inv, of k] by (auto split: option.split)
qed

text \<open>
  A shared stream that ends while it has a subscriber is dead for good: its object stays in the
  map as started, so a later subscriber of the account joins it and no new connection is opened.
\<close>

theorem ended_stream_never_restarts:
  assumes "so_store (run shared_step shared_init evs) k = Some n"
    and "map_of (so_connections (run shared_step shared_init evs)) c = Some n"
  shows "let s' = fst (shared_end c err (run shared_step shared_init evs));
             s'' = subscribe_shared k l s'
         in so_store s'' k = Some n \<and> sh_listeners (so_objects s'' ! n) \<noteq> [] \<and> open_connections k s'' = []"
proof -
  let ?s = "run shared_step shared_init evs"
  define s' where "s' = fst (shared_end c err ?s)"
  have inv: "object_inv ?s" "connection_inv ?s" using shared.inv_run [of evs] by (simp_all add: shared_inv_def)
  have s': "s' = ?s\<lparr>so_connections := AList.delete c (so_connections ?s)\<rparr>"
    unfolding s'_def using inv(1) assms(2) by (rule shared_end_open)
  have n: "n < length (so_objects ?s)" using inv(1) assms(1) by (simp add: object_inv_def)
  have alone: "c' = c" if "(c', n) \<in> set (so_connections ?s)" for c'
    using inv(2) that map_of_SomeD [OF assms(2)] by (metis connection_inv_def distinct_map inj_onD prod.inject snd_conv)
  have gone: "(c', n) \<notin> set (so_connections s')" for c'
    using alone [of c'] by (auto simp: s' AList.delete_eq)
  have join: "subscribe_shared k l s' = modify_object n (\<lambda>o'. o'\<lparr>sh_listeners := sh_listeners o' @ [l]\<rparr>) s'"
    using inv(1) assms(1) by (intro subscribe_joined) (simp_all add: s')
  have "object_inv (subscribe_shared k l s')" using inv(1) by (intro object_inv_subscribe) (simp add: s')
  moreover have "so_store (subscribe_shared k l s') k = Some n" using assms(1) unfolding join by (simp add: s')
  moreover have "so_connections (subscribe_shared k l s') = so_connections s'" by (simp add: join)
  moreover have "m < length (so_objects (subscribe_shared k l s'))" if "(c', m) \<in> set (so_connections s')" for c' m
    using inv(2) that unfolding join by (force simp: s' connection_inv_def AList.delete_eq)
  ultimately have "open_connections k (subscribe_shared k l s') = []"
    using gone by (force simp: open_connections_def filter_empty_conv object_inv_def)
  then show ?thesis
    unfolding Let_def s'_def [symmetric] using assms(1) n unfolding join by (simp add: s')
qed

theorem ended_stream_never_restarts_witness:
  "open_connections ''a'' (subscribe_shared ''a'' 2
     (fst (shared_end 0 None (run shared_step shared_init [ShSubscribe ''a'' 1])))) = []"
proof -
  have "so_store (run shared_step shared_init [ShSubscribe ''a'' 1]) ''a'' = Some 0"
    and "map_of (so_connections (run shared_step shared_init [ShSubscribe ''a'' 1])) 0 = Some 0"
    by (simp_all add: shared_defs shared_init_def)
  from ended_stream_never_restarts [OF this, of None 2] show ?thesis by (simp add: Let_def)
qed

end
