(* ===== verification/DebateJob.thy ===== *)
theory DebateJob
  imports JsNumber
begin

text \<open>
  Waiting for a background job of the debate (\<open>waitDebateV2Job\<close> of \<open>client/debateV2.ts\<close>): a promise
  that is settled by the events of a server-sent event stream, by reconnects of it and, when the
  stream fails for good, by one read of the job.  The model is the closure of the function: its
  variables are the state, its callbacks the steps.  Times are milliseconds; \<open>now\<close> is the clock where a
  callback reads it.
\<close>

subsection \<open>State\<close>

datatype job_result =
    JobResolved
  | JobRejected string

record job_wait =
  jw_settled :: "job_result option"
  jw_es :: bool
  jw_timer :: "rat option"
  jw_attempt :: nat
  jw_error_streak :: nat
  jw_polling :: bool
  jw_deadline :: int

definition job_deadline_ms :: int where
  "job_deadline_ms = 15 * 60000"

definition max_reconnect_before_reconcile :: nat where
  "max_reconnect_before_reconcile = 14"

definition reconnect_delay :: "nat \<Rightarrow> rat" where
  "reconnect_delay n = min (500 * (155 / 100) ^ n) 30000"

subsection \<open>The callbacks\<close>

definition clear_reconnect :: "job_wait \<Rightarrow> job_wait" where
  "clear_reconnect s = s\<lparr>jw_timer := None\<rparr>"

definition finish_job :: "job_result \<Rightarrow> job_wait \<Rightarrow> job_wait" where
  "finish_job r s =
     (if jw_settled s \<noteq> None then s
      else (clear_reconnect (s\<lparr>jw_settled := Some r\<rparr>))\<lparr>jw_es := False\<rparr>)"

definition start_reconcile :: "job_wait \<Rightarrow> job_wait" where
  "start_reconcile s = s\<lparr>jw_polling := True\<rparr>"

definition unavailable_text :: string where
  "unavailable_text = ''debate job stream unavailable '' @ [CHR 0xE2, CHR 0x80, CHR 0x94] @
     '' check SSE path and proxy buffering''"

text \<open>
  The answer of the read: the phase and message of the job, or the text of the error thrown.
\<close>

definition reconcile_answer :: "string \<Rightarrow> string + (string \<times> string) \<Rightarrow> job_wait \<Rightarrow> job_wait" where
  "reconcile_answer failed_default answer s =
     (let s = s\<lparr>jw_polling := False\<rparr>
      in case answer of
           Inr (phase, message) \<Rightarrow>
             if phase = ''completed'' then finish_job JobResolved s
             else if phase = ''failed'' then
               finish_job (JobRejected (if message \<noteq> [] then message else failed_default)) s
             else finish_job (JobRejected unavailable_text) s
         | Inl text \<Rightarrow> finish_job (JobRejected text) s)"

definition schedule_reconnect :: "int \<Rightarrow> job_wait \<Rightarrow> job_wait" where
  "schedule_reconnect now s =
     (let s = clear_reconnect s
      in if jw_settled s \<noteq> None then s
         else if now \<ge> jw_deadline s then start_reconcile s
         else if jw_error_streak s \<ge> max_reconnect_before_reconcile
         then start_reconcile (s\<lparr>jw_error_streak := 0\<rparr>)
         else s\<lparr>jw_timer := Some (reconnect_delay (jw_attempt s)), jw_attempt := Suc (jw_attempt s)\<rparr>)"

definition open_stream :: "int \<Rightarrow> job_wait \<Rightarrow> job_wait" where
  "open_stream now s =
     (let s = clear_reconnect s
      in if jw_settled s \<noteq> None then s
         else if now \<ge> jw_deadline s then start_reconcile s
         else s\<lparr>jw_es := True\<rparr>)"

definition stream_opened :: "job_wait \<Rightarrow> job_wait" where
  "stream_opened s = s\<lparr>jw_attempt := 0, jw_error_streak := 0\<rparr>"

text \<open>A message: the parsed data, \<open>None\<close> where parsing throws.  The chunks go to \<open>onChunk\<close>.\<close>

definition stream_message ::
    "string \<Rightarrow> bool \<Rightarrow> jv option \<Rightarrow> job_wait \<Rightarrow> job_wait \<times> string list" where
  "stream_message failed_default has_on_chunk data s =
     (case data of
        None \<Rightarrow> (s, [])
      | Some o' \<Rightarrow>
          (case (jget ''event'' o', jget ''content'' o') of
             (JStr event, content) \<Rightarrow>
               if event = ''chunk'' \<and> (case content of JStr c \<Rightarrow> c \<noteq> [] | _ \<Rightarrow> False) \<and> has_on_chunk
               then (s, case content of JStr c \<Rightarrow> [c] | _ \<Rightarrow> [])
               else if event = ''completed'' then (finish_job JobResolved s, [])
               else if event = ''failed'' then
                 (finish_job (JobRejected (js_string (js_or (jget ''message'' o') (JStr failed_default)))) s, [])
               else (s, [])
           | _ \<Rightarrow> (s, [])))"

definition stream_error_event :: "int \<Rightarrow> job_wait \<Rightarrow> job_wait" where
  "stream_error_event now s =
     (if jw_settled s \<noteq> None then s
      else schedule_reconnect now (s\<lparr>jw_error_streak := Suc (jw_error_streak s), jw_es := False\<rparr>))"

text \<open>The start of the wait; without a token it is rejected at once.\<close>

definition wait_job_start :: "string option \<Rightarrow> int \<Rightarrow> job_wait" where
  "wait_job_start token now =
     (let s = \<lparr>jw_settled = None, jw_es = False, jw_timer = None, jw_attempt = 0, jw_error_streak = 0,
               jw_polling = False, jw_deadline = now + job_deadline_ms\<rparr>
      in if token = None \<or> token = Some [] then s\<lparr>jw_settled := Some (JobRejected ''missing access_token'')\<rparr>
         else open_stream now s)"

datatype job_event =
    JwOpened
  | JwMessage "jv option"
  | JwError int
  | JwTimer int
  | JwAnswer "string + (string \<times> string)"

text \<open>
  The events of a source that is not active cannot happen: a closed event source is silent, a timer
  fires once and only while it is set, and a read is answered once.
\<close>

fun job_step :: "string \<Rightarrow> bool \<Rightarrow> job_wait \<Rightarrow> job_event \<Rightarrow> job_wait \<times> string list" where
  "job_step fd chunk s JwOpened = (if jw_es s then stream_opened s else s, [])"
| "job_step fd chunk s (JwMessage d) = (if jw_es s then stream_message fd chunk d s else (s, []))"
| "job_step fd chunk s (JwError now) = (if jw_es s then stream_error_event now s else s, [])"
| "job_step fd chunk s (JwTimer now) =
     (if jw_timer s \<noteq> None then open_stream now (s\<lparr>jw_timer := None\<rparr>) else s, [])"
| "job_step fd chunk s (JwAnswer a) = (if jw_polling s then reconcile_answer fd a s else s, [])"

definition job_next :: "string \<Rightarrow> bool \<Rightarrow> job_wait \<Rightarrow> job_event \<Rightarrow> job_wait" where
  "job_next fd chunk s e = fst (job_step fd chunk s e)"

subsection \<open>The two waits\<close>

definition wait_advance_job :: "string option \<Rightarrow> int \<Rightarrow> bool \<Rightarrow> job_event list \<Rightarrow> job_wait" where
  "wait_advance_job token now chunk es =
     run (job_next ''code generation failed'' chunk) (wait_job_start token now) es"

definition wait_chat_job :: "string option \<Rightarrow> int \<Rightarrow> bool \<Rightarrow> job_event list \<Rightarrow> job_wait" where
  "wait_chat_job token now chunk es = run (job_next ''chat failed'' chunk) (wait_job_start token now) es"

lemmas job_defs =
  clear_reconnect_def finish_job_def start_reconcile_def reconcile_answer_def schedule_reconnect_def
  open_stream_def stream_opened_def stream_message_def stream_error_event_def

subsection \<open>Invariant\<close>

definition active_sources :: "job_wait \<Rightarrow> nat" where
  "active_sources s = of_bool (jw_es s) + of_bool (jw_timer s \<noteq> None) + of_bool (jw_polling s)"

definition job_inv :: "job_wait \<Rightarrow> bool" where
  "job_inv s \<longleftrightarrow> active_sources s = (if jw_settled s = None then 1 else 0)"

definition job_settled :: "job_wait \<Rightarrow> bool" where
  "job_settled s \<longleftrightarrow> jw_settled s \<noteq> None"

lemma job_inv_start: "job_inv (wait_job_start token now)"
  by (simp add: job_inv_def active_sources_def wait_job_start_def job_defs Let_def job_deadline_ms_def)

lemma stream_message_cases:
  "fst (stream_message fd chunk d s) = s \<or> (\<exists>r. fst (stream_message fd chunk d s) = finish_job r s)"
  by (auto simp: stream_message_def split: option.splits jv.splits)

lemma reconcile_answer_settles:
  "\<exists>r. reconcile_answer fd a s = finish_job r (s\<lparr>jw_polling := False\<rparr>)"
  by (auto simp: reconcile_answer_def Let_def split: sum.splits)

lemma job_inv_finish:
  "jw_settled s = None \<Longrightarrow> jw_polling s = False \<Longrightarrow> job_inv (finish_job r s)"
  by (simp add: job_inv_def active_sources_def finish_job_def clear_reconnect_def)

lemma job_inv_step: "job_inv s \<Longrightarrow> job_inv (job_next fd chunk s e)"
proof (cases e)
  case (JwMessage d)
  assume "job_inv s"
  moreover from this have "jw_es s \<Longrightarrow> jw_settled s = None \<and> \<not> jw_polling s"
    by (auto simp: job_inv_def active_sources_def split: if_splits)
  ultimately show ?thesis
    using JwMessage stream_message_cases [of fd chunk d s]
    by (auto simp: job_next_def job_inv_finish)
next
  case (JwAnswer a)
  assume "job_inv s"
  moreover from this have "jw_polling s \<Longrightarrow> jw_settled s = None"
    by (auto simp: job_inv_def active_sources_def split: if_splits)
  ultimately show ?thesis
    using JwAnswer reconcile_answer_settles [of fd a s]
    by (auto simp: job_next_def job_inv_finish)
qed (auto simp: job_next_def job_inv_def active_sources_def job_defs Let_def of_bool_def split: if_splits)

lemma settled_final: "job_inv s \<Longrightarrow> job_settled s \<Longrightarrow> job_step fd chunk s e = (s, [])"
  by (cases e) (auto simp: job_inv_def job_settled_def active_sources_def split: if_splits)

lemma settled_next: "job_inv s \<Longrightarrow> job_settled s \<Longrightarrow> job_next fd chunk s e = s"
  by (simp add: job_next_def settled_final)

interpretation job: latched_machine "wait_job_start token now" "job_next fd chunk" job_inv job_settled
  by unfold_locales (simp_all add: job_inv_start job_inv_step settled_next)

lemma job_delay_bounds: "500 \<le> reconnect_delay n \<and> reconnect_delay n \<le> 30000"
proof -
  have "1 \<le> (155 / 100 :: rat) ^ n" by (rule one_le_power) simp
  then show ?thesis by (simp add: reconnect_delay_def)
qed

subsection \<open>Properties\<close>

text \<open>
  C17. A wait never hangs without a reason: in every state that it reaches it is either settled, with
  the stream closed, no timer and no read pending, or exactly one of the three can still wake it up.
\<close>

theorem job_wait_never_stuck:
  "let s = wait_chat_job token now chunk es in
     of_bool (jw_es s) + of_bool (jw_timer s \<noteq> None) + of_bool (jw_polling s) =
       (if jw_settled s = None then 1 else (0 :: nat))"
  using job.inv_run [of "''chat failed''" chunk token now es]
  by (simp add: Let_def wait_chat_job_def job_inv_def active_sources_def)

text \<open>
  C3. The promise is settled once: after the first settlement no event changes the result or the
  state of the wait, and no chunk is passed on.
\<close>

theorem job_settles_once:
  assumes "jw_settled (wait_advance_job token now chunk es) = Some r"
  shows "wait_advance_job token now chunk (es @ later) = wait_advance_job token now chunk es \<and>
    job_step fd chunk (wait_advance_job token now chunk (es @ later)) e =
      (wait_advance_job token now chunk es, [])"
proof -
  let ?s = "wait_advance_job token now chunk es"
  have inv: "job_inv ?s"
    unfolding wait_advance_job_def by (rule job.inv_run)
  moreover have final: "job_settled ?s"
    using assms by (simp add: job_settled_def)
  ultimately have "run (job_next ''code generation failed'' chunk) ?s later = ?s"
    by (rule job.final_run)
  then have "wait_advance_job token now chunk (es @ later) = ?s"
    by (simp add: wait_advance_job_def)
  with inv final show ?thesis by (simp add: settled_final)
qed

theorem job_settles_once_witness:
  "wait_advance_job (Some ''t'') 0 True
     [JwMessage (Some (JObj [(''event'', JStr ''completed'')])), JwError 5, JwTimer 9] =
   wait_advance_job (Some ''t'') 0 True [JwMessage (Some (JObj [(''event'', JStr ''completed'')]))]"
proof -
  have "jw_settled (wait_advance_job (Some ''t'') 0 True
      [JwMessage (Some (JObj [(''event'', JStr ''completed'')]))]) = Some JobResolved"
    by (simp add: wait_advance_job_def wait_job_start_def job_next_def job_defs job_deadline_ms_def
        jget_def)
  from job_settles_once [OF this, of "[JwError 5, JwTimer 9]"] show ?thesis by simp
qed

lemma error_cycle:
  assumes "jw_es s" and "jw_settled s = None" and "jw_timer s = None" and "\<not> jw_polling s"
    and "jw_error_streak s < 13" and "a < jw_deadline s" and "b < jw_deadline s"
  shows "job_next fd chunk (job_next fd chunk s (JwError a)) (JwTimer b) =
    s\<lparr>jw_error_streak := Suc (jw_error_streak s), jw_attempt := Suc (jw_attempt s)\<rparr>"
proof -
  have "\<not> jw_deadline s \<le> a" "\<not> jw_deadline s \<le> b" "\<not> 14 \<le> Suc (jw_error_streak s)"
    using assms(5-7) by simp_all
  with assms(1-4) show ?thesis
    by (simp add: job_next_def stream_error_event_def schedule_reconnect_def open_stream_def
        clear_reconnect_def max_reconnect_before_reconcile_def Let_def)
qed

lemma error_cycles:
  assumes "jw_es s" and "jw_settled s = None" and "jw_timer s = None" and "\<not> jw_polling s"
    and "jw_error_streak s + n \<le> 13" and "\<forall>m < 2 * n. clock m < jw_deadline s"
  shows "run (job_next fd chunk) s (concat (List.map (\<lambda>i. [JwError (clock (2 * i)), JwTimer (clock (2 * i + 1))]) [0..<n])) =
    s\<lparr>jw_error_streak := jw_error_streak s + n, jw_attempt := jw_attempt s + n\<rparr>"
  using assms(5,6)
proof (induction n)
  case 0
  then show ?case by simp
next
  case (Suc n)
  let ?t = "s\<lparr>jw_error_streak := jw_error_streak s + n, jw_attempt := jw_attempt s + n\<rparr>"
  have "clock (2 * n) < jw_deadline s" "clock (2 * n + 1) < jw_deadline s"
    using Suc.prems(2) by simp_all
  moreover have "jw_error_streak s + n < 13" using Suc.prems(1) by simp
  ultimately have "job_next fd chunk (job_next fd chunk ?t (JwError (clock (2 * n)))) (JwTimer (clock (2 * n + 1))) =
      ?t\<lparr>jw_error_streak := Suc (jw_error_streak ?t), jw_attempt := Suc (jw_attempt ?t)\<rparr>"
    using assms(1-4) by (intro error_cycle) simp_all
  moreover have "run (job_next fd chunk) s (concat (List.map
      (\<lambda>i. [JwError (clock (2 * i)), JwTimer (clock (2 * i + 1))]) [0..<n])) = ?t"
    using Suc by simp
  ultimately show ?case by simp
qed

text \<open>
  C25. A stream that cannot be reached does not keep the wait alive: after fourteen failed connections
  in a row, each retried after between half a second and thirty seconds, the job is read once, and
  whatever that read answers settles the promise.
\<close>

theorem job_unreachable_stream_settles:
  assumes "token \<noteq> None" and "token \<noteq> Some []" and "\<forall>m. clock m < now + job_deadline_ms"
  shows "let s = wait_chat_job token now chunk
        (concat (List.map (\<lambda>i. [JwError (clock (2 * i)), JwTimer (clock (2 * i + 1))]) [0..<13]) @
         [JwError (clock 26)])
    in jw_polling s \<and> jw_settled s = None \<and>
       jw_settled (job_next ''chat failed'' chunk s (JwAnswer answer)) =
         Some (case answer of
                 Inl text \<Rightarrow> JobRejected text
               | Inr (phase, message) \<Rightarrow>
                   if phase = ''completed'' then JobResolved
                   else if phase = ''failed''
                   then JobRejected (if message = [] then ''chat failed'' else message)
                   else JobRejected unavailable_text)"
proof -
  let ?s = "wait_job_start token now"
  have s: "jw_es ?s" "jw_settled ?s = None" "jw_timer ?s = None" "\<not> jw_polling ?s"
      "jw_error_streak ?s = 0" "jw_deadline ?s = now + job_deadline_ms"
    using assms(1,2) by (simp_all add: wait_job_start_def open_stream_def clear_reconnect_def Let_def
        job_deadline_ms_def)
  let ?t = "?s\<lparr>jw_error_streak := 13, jw_attempt := jw_attempt ?s + 13\<rparr>"
  have cycles: "run (job_next ''chat failed'' chunk) ?s (concat (List.map
      (\<lambda>i. [JwError (clock (2 * i)), JwTimer (clock (2 * i + 1))]) [0..<13])) = ?t"
    using error_cycles [OF s(1-4), of 13 clock "''chat failed''" chunk] s(5,6) assms(3) by simp
  have late: "\<not> now + job_deadline_ms \<le> clock 26"
    using assms(3) by (simp add: not_le)
  have "job_next ''chat failed'' chunk ?t (JwError (clock 26)) =
      ?t\<lparr>jw_error_streak := 0, jw_es := False, jw_polling := True\<rparr>"
    using s late
    by (simp add: job_next_def stream_error_event_def schedule_reconnect_def clear_reconnect_def
        start_reconcile_def max_reconnect_before_reconcile_def Let_def)
  then have w: "wait_chat_job token now chunk
        (concat (List.map (\<lambda>i. [JwError (clock (2 * i)), JwTimer (clock (2 * i + 1))]) [0..<13]) @
         [JwError (clock 26)]) = ?t\<lparr>jw_error_streak := 0, jw_es := False, jw_polling := True\<rparr>"
    by (simp only: wait_chat_job_def run_append cycles run_Cons run_Nil)
  show ?thesis
    unfolding w using s(2)
    by (simp add: Let_def job_next_def reconcile_answer_def finish_job_def clear_reconnect_def
        split: sum.splits)
qed

theorem job_unreachable_stream_settles_witness:
  "jw_polling (wait_chat_job (Some ''t'') 0 True
     (concat (List.map (\<lambda>i. [JwError 7, JwTimer 7]) [0..<13]) @ [JwError 7]))"
proof -
  have "Some ''t'' \<noteq> None" "Some ''t'' \<noteq> Some []" "\<forall>m :: nat. (7 :: int) < 0 + job_deadline_ms"
    by (simp_all add: job_deadline_ms_def)
  note settles = job_unreachable_stream_settles [OF this, of True "Inl []"]
  show ?thesis
    using settles unfolding Let_def by (rule conjunct1)
qed

text \<open>
  The deadline does not bound the wait while the connection stays open: as long as the stream only
  delivers chunks, comments or other events that are not terminal, the wait is neither settled nor
  replaced by a read of the job, however much time has passed.
\<close>

theorem open_stream_outlives_deadline:
  assumes "token \<noteq> None" and "token \<noteq> Some []"
    and "\<forall>d \<in> set messages. case d of None \<Rightarrow> True
      | Some o' \<Rightarrow> jget ''event'' o' \<noteq> JStr ''completed'' \<and> jget ''event'' o' \<noteq> JStr ''failed''"
  shows "wait_chat_job token now chunk (List.map JwMessage messages @ [JwTimer later]) =
    wait_job_start token now \<and> jw_settled (wait_job_start token now) = None"
proof -
  let ?s = "wait_job_start token now"
  have s: "jw_es ?s" "jw_settled ?s = None" "jw_timer ?s = None"
    using assms(1,2) by (simp_all add: wait_job_start_def open_stream_def clear_reconnect_def Let_def
        job_deadline_ms_def)
  have "run (job_next ''chat failed'' chunk) ?s (List.map JwMessage messages) = ?s"
    using assms(3)
    by (induction messages)
      (auto simp: job_next_def stream_message_def s(1) split: option.splits jv.splits)
  with s show ?thesis by (simp add: wait_chat_job_def job_next_def)
qed

theorem open_stream_outlives_deadline_witness:
  "jw_settled (wait_chat_job (Some ''t'') 0 True
     (List.map JwMessage [None, Some (JObj [(''event'', JStr ''chunk'')])] @ [JwTimer 99000000])) = None"
proof -
  have "\<forall>d \<in> set [None, Some (JObj [(''event'', JStr ''chunk'')])]. case d of None \<Rightarrow> True
      | Some o' \<Rightarrow> jget ''event'' o' \<noteq> JStr ''completed'' \<and> jget ''event'' o' \<noteq> JStr ''failed''"
    by (simp add: jget_def)
  from open_stream_outlives_deadline [OF _ _ this, of "Some ''t''" 0 True 99000000]
  show ?thesis by simp
qed

end
