(* ===== verification/ProviderEvents.thy ===== *)
theory ProviderEvents
  imports TradingStore AccountStore
begin

text \<open>
  What the connection provider (\<open>providers/ConnectProvider.tsx\<close>) does with the events of the stream:
  order events change the rows of an account, profit events are collected and applied to the figures
  and the rows 100 ms later, status events change the account list.  The formatting of a time stamp
  for the locale of the device is a parameter, \<open>fmt\<close>.
\<close>

subsection \<open>Order events\<close>

definition normalize_position_side :: "string \<Rightarrow> string" where
  "normalize_position_side raw =
     (let u = js_lower raw
      in if u \<in> {''buy'', ''sell'', ''buy_limit'', ''sell_limit'', ''buy_stop'', ''sell_stop''} then u
         else if js_includes u ''sell'' then ''sell'' else ''buy'')"

text \<open>\<open>Number(v || 0)\<close>, \<open>Number(v ?? 0)\<close> and \<open>String(v || '')\<close>.\<close>

definition number_or_zero :: "jv \<Rightarrow> jv" where
  "number_or_zero v = JNum (js_number (js_or v zero))"

definition number_or_zero_nullish :: "jv \<Rightarrow> jv" where
  "number_or_zero_nullish v = JNum (js_number (js_coalesce v zero))"

definition string_or_empty :: "jv \<Rightarrow> string" where
  "string_or_empty v = js_string (js_or v (JStr []))"

definition event_time :: "(jv \<Rightarrow> string) \<Rightarrow> jv \<Rightarrow> jv" where
  "event_time fmt v = (if truthy v then JStr (fmt v) else JStr [])"

definition position_patch :: "(jv \<Rightarrow> string) \<Rightarrow> jsnum \<Rightarrow> jv \<Rightarrow> jv" where
  "position_patch fmt t ev =
     (let type_raw = js_lower (string_or_empty (jget ''type'' ev))
      in JObj
        [(''ticket'', JNum t),
         (''symbol'', js_or (jget ''symbol'' ev) (JStr [])),
         (''type'', JStr (normalize_position_side (if type_raw \<noteq> [] then type_raw else ''buy''))),
         (''volume'', number_or_zero (jget ''volume'' ev)),
         (''openPrice'', number_or_zero (jget ''openPrice'' ev)),
         (''sl'', number_or_zero_nullish (jget ''stopLoss'' ev)),
         (''tp'', number_or_zero_nullish (jget ''takeProfit'' ev)),
         (''profit'', number_or_zero (jget ''profit'' ev)),
         (''swap'', number_or_zero_nullish (jget ''swap'' ev)),
         (''commission'', number_or_zero_nullish (jget ''commission'' ev)),
         (''comment'', js_or (jget ''comment'' ev) (JStr [])),
         (''action'', jget ''action'' ev),
         (''closePrice'', number_or_zero_nullish (jget ''closePrice'' ev)),
         (''closeTime'', event_time fmt (jget ''closeTime'' ev)),
         (''openTime'', event_time fmt (jget ''openTime'' ev))])"

definition num_or_zero :: "jsnum \<Rightarrow> jsnum" where
  "num_or_zero n = (if n = Fin 0 \<or> n = NaN then Fin 0 else n)"

text \<open>The \<open>position-change\<close> events that the window receives: action and order.\<close>

definition position_change :: "string \<Rightarrow> jv \<Rightarrow> jv \<Rightarrow> string \<times> jv" where
  "position_change action patch ev =
     (action, JObj
        [(''ticket'', jget ''ticket'' patch), (''symbol'', jget ''symbol'' patch),
         (''type'', jget ''type'' patch), (''volume'', jget ''volume'' patch),
         (''openPrice'', jget ''openPrice'' patch), (''closePrice'', jget ''closePrice'' patch),
         (''profit'', jget ''profit'' patch),
         (''openTime'', JNum (num_or_zero (js_number (jget ''openTime'' ev)))),
         (''closeTime'', JNum (num_or_zero (js_number (jget ''closeTime'' ev)))),
         (''swap'', jget ''swap'' patch), (''commission'', jget ''commission'' patch),
         (''comment'', jget ''comment'' patch)])"

text \<open>\<open>rows.find(p => p.ticket === ticket)\<close>: strict equality with a number.\<close>

definition find_strict :: "jsnum \<Rightarrow> jv list \<Rightarrow> jv option" where
  "find_strict t rows = find (\<lambda>p. js_strict_eq (jget ''ticket'' p) (JNum t)) rows"

definition valid_ticket :: "jsnum \<Rightarrow> bool" where
  "valid_ticket t \<longleftrightarrow> num_finite t \<and> Fin 0 < t"

definition on_order ::
    "(jv \<Rightarrow> string) \<Rightarrow> bool \<Rightarrow> jv \<Rightarrow> trading_state \<Rightarrow> trading_state \<times> (string \<times> jv) list" where
  "on_order fmt mounted ev s =
     (let account = string_or_empty (jget ''accountId'' ev);
          action = js_lower (string_or_empty (jget ''action'' ev));
          t = js_number (jget ''ticket'' ev);
          patch = position_patch fmt t ev;
          old = find_strict t (rows_at s account)
      in if \<not> mounted then (s, [])
         else if account = [] then (s, [])
         else if \<not> valid_ticket t then (s, [])
         else if js_includes action ''close'' \<or> js_includes action ''delete'' then
           (remove_position account t s, [position_change ''PositionClose'' patch ev])
         else if js_includes action ''modify'' then (update_position account t patch s, [])
         else if js_includes action ''open'' then
           (add_position account
              (jset ''currentPrice''
                 (js_coalesce (case old of None \<Rightarrow> JUndef | Some p \<Rightarrow> jget ''currentPrice'' p)
                    (jget ''openPrice'' patch)) patch) s,
            [position_change ''PositionOpen'' patch ev])
         else if truthy (jget ''symbol'' patch) then
           (case old of
              Some p \<Rightarrow> (update_position account t (jset ''currentPrice'' (jget ''currentPrice'' p) patch) s, [])
            | None \<Rightarrow> (add_position account (jset ''currentPrice'' (jget ''openPrice'' patch) patch) s, []))
         else (s, []))"

subsection \<open>Profit events\<close>

record profit_state =
  pf_pending :: "(string \<times> jv) list"
  pf_due :: "int option"
  pf_last_poll :: "string \<rightharpoonup> int"
  pf_trading :: trading_state
  pf_accounts :: account_state

definition positions_poll_ms :: int where
  "positions_poll_ms = 1000"

definition profit_delay_ms :: int where
  "profit_delay_ms = 100"

text \<open>The account of a profit event; the wire type is a string.\<close>

definition profit_account :: "jv \<Rightarrow> string" where
  "profit_account ev = (case jget ''accountId'' ev of JStr a \<Rightarrow> a | _ \<Rightarrow> [])"

definition on_profit :: "int \<Rightarrow> bool \<Rightarrow> jv \<Rightarrow> profit_state \<Rightarrow> profit_state" where
  "on_profit now mounted ev s =
     (if \<not> mounted then s
      else
        (let a = profit_account ev;
             s = (if a \<noteq> [] then
                    s\<lparr>pf_accounts := update_account_status a ''connected'' (pf_accounts s),
                      pf_pending := AList.update a ev (pf_pending s)\<rparr>
                  else s)
         in s\<lparr>pf_due := Some (now + profit_delay_ms)\<rparr>))"

fun pick_number :: "jv \<Rightarrow> jv option" where
  "pick_number (JNum n) = (if num_finite n then Some (JNum n) else None)"
| "pick_number _ = None"

definition account_patch :: "jv \<Rightarrow> (string \<times> jv) list" where
  "account_patch ev =
     List.map_filter (\<lambda>k. map_option (Pair k) (pick_number (jget k ev)))
       [''balance'', ''equity'', ''profit'', ''profitPercent'', ''margin'', ''freeMargin'',
        ''marginLevel'', ''credit'']"

definition number_or :: "jv \<Rightarrow> jv \<Rightarrow> jv" where
  "number_or a b = JNum (let n = num_or_zero (js_number a)
                         in if n \<noteq> Fin 0 then n else num_or_zero (js_number b))"

definition profit_row_patch :: "jsnum \<Rightarrow> jv \<Rightarrow> jv \<Rightarrow> jv" where
  "profit_row_patch t o' old =
     JObj
      [(''ticket'', JNum t),
       (''symbol'', JStr (js_string (js_or (js_or (jget ''symbol'' o') (jget ''symbol'' old)) (JStr [])))),
       (''type'', jget ''type'' old),
       (''volume'', number_or (jget ''volume'' o') (jget ''volume'' old)),
       (''openPrice'', JNum (num_or_zero (js_number (jget ''openPrice'' old)))),
       (''currentPrice'', number_or (jget ''currentPrice'' o') (jget ''currentPrice'' old)),
       (''profit'', JNum (num_or_zero (js_number (jget ''profit'' o')))),
       (''openTime'', js_or (jget ''openTime'' old) (JStr []))]"

definition apply_profit_order :: "string \<Rightarrow> jv list \<Rightarrow> trading_state \<Rightarrow> jv \<Rightarrow> trading_state" where
  "apply_profit_order a existing s o' =
     (let t = js_number (jget ''ticket'' o')
      in if \<not> valid_ticket t then s
         else case find (\<lambda>p. num_eq (ticket_of p) t) existing of
                None \<Rightarrow> s
              | Some old \<Rightarrow> update_position a t (profit_row_patch t o' old) s)"

text \<open>One account of the flush; the second component says whether its positions are asked for.\<close>

definition apply_profit ::
    "int \<Rightarrow> (string \<rightharpoonup> int) \<Rightarrow> string \<Rightarrow> jv \<Rightarrow> trading_state \<Rightarrow> trading_state \<times> bool" where
  "apply_profit now polls a ev s =
     (let patch = account_patch ev;
          existing = rows_at s a;
          s = (if patch \<noteq> [] then set_account_info_by_id a (JObj patch) s else s);
          s = touch_stream_profit_at now a s;
          orders = (case jget ''orders'' ev of JArr os \<Rightarrow> os | _ \<Rightarrow> []);
          s = foldl (apply_profit_order a existing) s orders
      in (s, length existing > 0 \<and>
             now - (case polls a of None \<Rightarrow> 0 | Some p \<Rightarrow> p) \<ge> positions_poll_ms))"

fun apply_profits ::
    "int \<Rightarrow> (string \<times> jv) list \<Rightarrow> profit_state \<Rightarrow> profit_state \<times> string list" where
  "apply_profits now [] s = (s, [])"
| "apply_profits now ((a, ev) # rest) s =
     (case apply_profit now (pf_last_poll s) a ev (pf_trading s) of
        (ts, poll) \<Rightarrow>
          (let s' = s\<lparr>pf_trading := ts,
                      pf_last_poll := (if poll then (pf_last_poll s)(a \<mapsto> now) else pf_last_poll s)\<rparr>
           in case apply_profits now rest s' of
                (s'', polls) \<Rightarrow> (s'', if poll then a # polls else polls)))"

text \<open>The timer: the accounts whose positions are requested are the second component.\<close>

definition flush_profits :: "int \<Rightarrow> bool \<Rightarrow> profit_state \<Rightarrow> profit_state \<times> string list" where
  "flush_profits now mounted s =
     (case pf_due s of
        None \<Rightarrow> (s, [])
      | Some due \<Rightarrow>
          (if now < due then (s, [])
           else
             (let s = s\<lparr>pf_due := None\<rparr>
              in if \<not> mounted then (s, [])
                 else case apply_profits now (pf_pending s) s of
                        (s', polls) \<Rightarrow> (s'\<lparr>pf_pending := []\<rparr>, polls))))"

text \<open>The answer to such a request; a failure is ignored.\<close>

definition poll_answered :: "int \<Rightarrow> string \<Rightarrow> jv \<Rightarrow> profit_state \<Rightarrow> profit_state" where
  "poll_answered now a answer s =
     s\<lparr>pf_trading := set_positions now a
         (to_camel (case answer of JArr xs \<Rightarrow> JArr xs | _ \<Rightarrow> JArr [])) True (pf_trading s)\<rparr>"

subsection \<open>Status events\<close>

definition map_status :: "string \<Rightarrow> string" where
  "map_status s = (if s = ''disabled'' then ''disconnected''
                   else if s = ''enabled'' then ''connecting'' else s)"

definition on_status :: "bool \<Rightarrow> jv \<Rightarrow> account_state \<Rightarrow> account_state" where
  "on_status mounted ev s =
     (let mapped = map_status (string_or_empty (jget ''status'' ev))
      in case jget ''accountId'' ev of
           JStr a \<Rightarrow>
             if mounted \<and> a \<noteq> [] \<and> mapped \<in> {''connected'', ''connecting'', ''disconnected''}
             then update_account_status a mapped s else s
         | _ \<Rightarrow> s)"

subsection \<open>Facts about the rows\<close>

lemma ticket_position_patch [simp]: "jget ''ticket'' (position_patch fmt t ev) = JNum t"
  by (simp add: position_patch_def Let_def jget_def)

lemma distinct_position_patch:
  "distinct (List.map fst (jfields (position_patch fmt t ev)))"
  by (simp add: position_patch_def Let_def)

lemma distinct_jset: "distinct (List.map fst (jfields v)) \<Longrightarrow> distinct (List.map fst (jfields (jset k x v)))"
  by (simp add: distinct_update)

lemma ticket_profit_row_patch [simp]: "jget ''ticket'' (profit_row_patch t o' old) = JNum t"
  by (simp add: profit_row_patch_def jget_def)

lemma distinct_profit_row_patch: "distinct (List.map fst (jfields (profit_row_patch t o' old)))"
  by (simp add: profit_row_patch_def)

lemma ticket_spread:
  assumes "distinct (List.map fst (jfields u))" and "jget ''ticket'' u = JNum t"
    and "num_eq (ticket_of p) t"
  shows "ticket_of (jspread p u) = ticket_of p"
proof -
  have "''ticket'' \<in> fst ` set (jfields u)"
  proof (rule ccontr)
    assume "''ticket'' \<notin> fst ` set (jfields u)"
    then have "map_of (jfields u) ''ticket'' = None" unfolding map_of_eq_None_iff .
    with assms(2) show False by (simp add: jget_def)
  qed
  with assms show ?thesis
    by (auto simp: ticket_of_def jget_jspread dest: num_eqD)
qed

lemma tickets_update_position:
  assumes "distinct (List.map fst (jfields u))" and "jget ''ticket'' u = JNum t"
  shows "List.map ticket_of (rows_at (update_position a t u s) b) = List.map ticket_of (rows_at s b)"
  using assms by (auto simp: map_update_where ticket_spread)

lemma ticket_to_camel:
  assumes "distinct (List.map fst (jfields v))" and "jget ''ticket'' v = JNum t"
  shows "ticket_of (to_camel v) = t"
  using assms by (simp add: ticket_of_def jget_to_camel is_upper_def is_lower_def)

lemma tickets_add_position:
  assumes "distinct (List.map fst (jfields p))" and "jget ''ticket'' p = JNum t"
  shows "List.map ticket_of (rows_at (add_position a p s) b) =
    List.map ticket_of (rows_at s b) @ (if b = a then [t] else [])"
  using assms by (simp add: ticket_to_camel)

lemma tickets_remove_position:
  "List.map ticket_of (rows_at (remove_position a t s) b) =
     (if b = a then filter (\<lambda>x. \<not> num_eq x t) (List.map ticket_of (rows_at s b))
      else List.map ticket_of (rows_at s b))"
  by (simp add: filter_map o_def)

lemma tickets_apply_profit_order:
  "List.map ticket_of (rows_at (apply_profit_order a existing s o') b) = List.map ticket_of (rows_at s b)"
  by (simp add: apply_profit_order_def Let_def tickets_update_position distinct_profit_row_patch
      del: rows_update_position split: option.split)

lemma tickets_apply_profit_orders:
  "List.map ticket_of (rows_at (foldl (apply_profit_order a existing) s os) b) = List.map ticket_of (rows_at s b)"
  by (induction os arbitrary: s) (simp_all add: tickets_apply_profit_order)

lemma rows_touch [simp]: "rows_at (touch_stream_profit_at now a s) b = rows_at s b"
  by (simp add: rows_at_def touch_stream_profit_at_def)

lemma rows_set_account_info_by_id [simp]: "rows_at (set_account_info_by_id a i s) b = rows_at s b"
  by (simp add: rows_at_def set_account_info_by_id_def Let_def)

lemma tickets_apply_profit:
  "List.map ticket_of (rows_at (fst (apply_profit now polls a ev s)) b) = List.map ticket_of (rows_at s b)"
  by (simp add: apply_profit_def Let_def tickets_apply_profit_orders)

lemma tickets_apply_profits:
  "List.map ticket_of (rows_at (pf_trading (fst (apply_profits now ups s))) b) =
     List.map ticket_of (rows_at (pf_trading s) b)"
  by (induction now ups s rule: apply_profits.induct)
    (simp, simp add: case_prod_beta Let_def tickets_apply_profit)

subsection \<open>Properties of the order events\<close>

text \<open>
  What an order event does to the rows, seen through their tickets: a closing or deleting event
  removes exactly the rows of its ticket, a modifying event keeps every row, an opening event always
  appends a row, any other event appends one exactly when it has a symbol and no row is strictly equal
  in ticket; other accounts are not touched, and an event without account or with a ticket that is not
  a positive number does nothing.
\<close>

theorem order_event_tickets:
  "let a = string_or_empty (jget ''accountId'' ev); t = js_number (jget ''ticket'' ev);
       action = js_lower (string_or_empty (jget ''action'' ev));
       before = List.map ticket_of (rows_at s b)
   in List.map ticket_of (rows_at (fst (on_order fmt True ev s)) b) =
     (if \<not> (b = a \<and> a \<noteq> [] \<and> valid_ticket t) then before
      else if js_includes action ''close'' \<or> js_includes action ''delete''
      then filter (\<lambda>x. \<not> num_eq x t) before
      else if js_includes action ''modify'' then before
      else if js_includes action ''open'' then before @ [t]
      else if truthy (js_or (jget ''symbol'' ev) (JStr [])) \<and> find_strict t (rows_at s a) = None
      then before @ [t] else before)"
proof -
  let ?t = "js_number (jget ''ticket'' ev)"
  let ?p = "position_patch fmt ?t ev"
  have sym: "jget ''symbol'' ?p = js_or (jget ''symbol'' ev) (JStr [])"
    by (simp add: position_patch_def Let_def jget_def)
  have d: "distinct (List.map fst (jfields (jset ''currentPrice'' x ?p)))"
    and g: "jget ''ticket'' (jset ''currentPrice'' x ?p) = JNum ?t" for x
    using distinct_jset [OF distinct_position_patch, of "''currentPrice''"] by simp_all
  show ?thesis
    unfolding on_order_def Let_def sym
    using tickets_update_position [OF distinct_position_patch ticket_position_patch]
      tickets_update_position [OF d g] tickets_add_position [OF d g] tickets_remove_position
    by (simp del: rows_update_position rows_add_position rows_remove_position split: option.split)
qed

text \<open>
  An order event can show the same position twice: an opening event for a ticket that is already
  listed appends a second row, and so does any other event with a symbol when the listed row came from
  a snapshot, whose tickets are big integers and never strictly equal to a number.
\<close>

theorem order_event_duplicates_row:
  assumes "jget ''accountId'' ev = JStr a" and "a \<noteq> []" and "jget ''ticket'' ev = JBig i" and "0 < i"
    and "jget ''action'' ev = JStr action" and "jget ''symbol'' ev = JStr symbol" and "symbol \<noteq> []"
    and "\<forall>w \<in> {''close'', ''delete'', ''modify''}. \<not> js_includes (js_lower action) w"
    and "js_includes (js_lower action) ''open'' \<or>
      (\<forall>p \<in> set (rows_at s a). \<exists>j. jget ''ticket'' p = JBig j)"
  shows "count_list (List.map ticket_of (rows_at (fst (on_order fmt True ev s)) a)) (Fin (of_int i)) =
    Suc (count_list (List.map ticket_of (rows_at s a)) (Fin (of_int i)))"
proof -
  have "find_strict (Fin (of_int i)) (rows_at s a) = None"
    if "\<forall>p \<in> set (rows_at s a). \<exists>j. jget ''ticket'' p = JBig j"
    using that by (auto simp: find_strict_def find_None_iff)
  moreover have "valid_ticket (Fin (of_int i))" using assms(4) by (simp add: valid_ticket_def)
  moreover have "string_or_empty (JStr x) = x" for x by (simp add: string_or_empty_def js_or_def)
  ultimately show ?thesis
    using assms order_event_tickets [of ev s a fmt]
    by (auto simp: Let_def js_or_def)
qed

definition sample_order :: "string \<Rightarrow> jv" where
  "sample_order action = JObj [(''accountId'', JStr ''A''), (''ticket'', JBig 7), (''symbol'', JStr ''EURUSD''),
     (''type'', JStr ''buy''), (''action'', JStr action)]"

definition sample_book :: trading_state where
  "sample_book = set_positions 0 ''A'' (JArr [JObj [(''ticket'', JBig 7), (''symbol'', JStr ''EURUSD'')]])
     False trading_init"

theorem order_event_duplicates_row_witness:
  "count_list (List.map ticket_of (rows_at (fst (on_order (\<lambda>_. []) True (sample_order ''OrderFilled'') sample_book))
     ''A'')) (Fin 7) = 2"
proof -
  have rows: "rows_at sample_book ''A'' = [JObj [(''ticket'', JBig 7), (''symbol'', JStr ''EURUSD'')]]"
    by code_simp
  have "\<forall>w \<in> {''close'', ''delete'', ''modify''}. \<not> js_includes (js_lower ''OrderFilled'') w"
    by code_simp
  then have "count_list (List.map ticket_of (rows_at (fst (on_order (\<lambda>_. []) True (sample_order ''OrderFilled'') sample_book))
     ''A'')) (Fin (of_int 7)) = Suc (count_list (List.map ticket_of (rows_at sample_book ''A'')) (Fin (of_int 7)))"
    by (intro order_event_duplicates_row [where symbol = "''EURUSD''" and action = "''OrderFilled''"])
      (simp_all add: sample_order_def jget_def rows)
  then show ?thesis by (simp add: rows ticket_of_def jget_def)
qed

end
