(* ===== verification/ProfitStream.thy ===== *)
theory ProfitStream
  imports ProviderEvents
begin

text \<open>
  Runs of the profit part of the provider: profit events, the 100 ms timer and the answers to the
  position requests that it sends, in any order.  The log of a run lists the requests with their times.
\<close>

datatype profit_event =
    PfEvent int jv
  | PfTimer int
  | PfAnswer int string jv

fun profit_step :: "profit_state \<Rightarrow> profit_event \<Rightarrow> profit_state \<times> (int \<times> string) list" where
  "profit_step s (PfEvent now ev) = (on_profit now True ev s, [])"
| "profit_step s (PfTimer now) =
     (case flush_profits now True s of (s', polls) \<Rightarrow> (s', List.map (Pair now) polls))"
| "profit_step s (PfAnswer now a v) = (poll_answered now a v s, [])"

definition profit_next :: "profit_state \<Rightarrow> profit_event \<Rightarrow> profit_state" where
  "profit_next s e = fst (profit_step s e)"

definition profit_log :: "profit_state \<Rightarrow> profit_event list \<Rightarrow> (int \<times> string) list" where
  "profit_log = run_log profit_next (\<lambda>s e. snd (profit_step s e))"

definition profit_run :: "profit_state \<Rightarrow> profit_event list \<Rightarrow> profit_state" where
  "profit_run = run profit_next"

definition profit_init :: "trading_state \<Rightarrow> account_state \<Rightarrow> profit_state" where
  "profit_init ts acs = \<lparr>pf_pending = [], pf_due = None, pf_last_poll = Map.empty, pf_trading = ts,
     pf_accounts = acs\<rparr>"

subsection \<open>The pending updates\<close>

text \<open>
  The pending updates are a map: one entry per account, each for a named account.
\<close>

definition pending_inv :: "profit_state \<Rightarrow> bool" where
  "pending_inv s \<longleftrightarrow> distinct (List.map fst (pf_pending s)) \<and> [] \<notin> fst ` set (pf_pending s)"

lemma apply_profits_pending [simp]:
  "pf_pending (fst (apply_profits now ups s)) = pf_pending s"
  "pf_due (fst (apply_profits now ups s)) = pf_due s"
  by (induction now ups s rule: apply_profits.induct) (simp_all add: case_prod_beta Let_def)

lemma pending_inv_step: "pending_inv s \<Longrightarrow> pending_inv (profit_next s e)"
  by (cases e)
    (auto simp: pending_inv_def profit_next_def on_profit_def Let_def distinct_update dom_update
      flush_profits_def poll_answered_def case_prod_beta split: option.splits)

lemma pending_inv_init: "pending_inv (profit_init ts acs)"
  by (simp add: pending_inv_def profit_init_def)

subsection \<open>The time of the last request\<close>

definition last_poll :: "profit_state \<Rightarrow> string \<Rightarrow> int" where
  "last_poll s a = (case pf_last_poll s a of None \<Rightarrow> 0 | Some t \<Rightarrow> t)"

definition after_profit :: "int \<Rightarrow> string \<Rightarrow> jv \<Rightarrow> profit_state \<Rightarrow> profit_state" where
  "after_profit now a ev s =
     (case apply_profit now (pf_last_poll s) a ev (pf_trading s) of
        (ts, poll) \<Rightarrow> s\<lparr>pf_trading := ts,
          pf_last_poll := (if poll then (pf_last_poll s)(a \<mapsto> now) else pf_last_poll s)\<rparr>)"

lemma apply_profits_Cons:
  "apply_profits now ((a, ev) # rest) s =
     (fst (apply_profits now rest (after_profit now a ev s)),
      (if snd (apply_profit now (pf_last_poll s) a ev (pf_trading s)) then [a] else []) @
        snd (apply_profits now rest (after_profit now a ev s)))"
  by (auto simp: after_profit_def case_prod_beta Let_def)

lemma last_poll_after_profit:
  "b \<noteq> a \<Longrightarrow> pf_last_poll (after_profit now a ev s) b = pf_last_poll s b"
  "last_poll (after_profit now a ev s) a =
     (if snd (apply_profit now (pf_last_poll s) a ev (pf_trading s)) then now else last_poll s a)"
  "snd (apply_profit now (pf_last_poll s) a ev (pf_trading s)) \<Longrightarrow> now - last_poll s a \<ge> 1000"
  by (auto simp: after_profit_def case_prod_beta last_poll_def apply_profit_def Let_def positions_poll_ms_def)

lemma apply_profits_absent:
  "a \<notin> fst ` set ups \<Longrightarrow>
     filter (\<lambda>b. b = a) (snd (apply_profits now ups s)) = [] \<and>
     last_poll (fst (apply_profits now ups s)) a = last_poll s a"
proof (induction ups arbitrary: s)
  case Nil
  show ?case by simp
next
  case (Cons u ups)
  obtain b ev where u: "u = (b, ev)" by (cases u)
  have "last_poll (after_profit now b ev s) a = last_poll s a"
    using Cons.prems u by (simp add: last_poll_def last_poll_after_profit(1))
  then show ?case
    unfolding u apply_profits_Cons using Cons u by auto
qed

lemma apply_profits_polls:
  assumes "distinct (List.map fst ups)"
  shows "filter (\<lambda>b. b = a) (snd (apply_profits now ups s)) = [] \<and>
      last_poll (fst (apply_profits now ups s)) a = last_poll s a \<or>
    filter (\<lambda>b. b = a) (snd (apply_profits now ups s)) = [a] \<and>
      last_poll (fst (apply_profits now ups s)) a = now \<and> now - last_poll s a \<ge> 1000"
  using assms
proof (induction ups arbitrary: s)
  case Nil
  show ?case by simp
next
  case (Cons u ups)
  obtain b ev where u: "u = (b, ev)" by (cases u)
  show ?case
  proof (cases "b = a")
    case True
    with Cons.prems u have "a \<notin> fst ` set ups" by auto
    from apply_profits_absent [OF this, of now "after_profit now a ev s"] show ?thesis
      unfolding u apply_profits_Cons using True last_poll_after_profit(2,3) [where now = now and a = a and ev = ev and s = s] by simp
  next
    case False
    then have "last_poll (after_profit now b ev s) a = last_poll s a"
      by (simp add: last_poll_def last_poll_after_profit(1))
    moreover have "distinct (List.map fst ups)" using Cons.prems by simp
    ultimately show ?thesis
      unfolding u apply_profits_Cons using Cons.IH [of "after_profit now b ev s"] False by simp
  qed
qed

definition polls_of :: "string \<Rightarrow> (int \<times> string) list \<Rightarrow> int list" where
  "polls_of a ps = List.map fst (filter (\<lambda>(t, b). b = a) ps)"

lemma polls_of_append [simp]: "polls_of a (xs @ ys) = polls_of a xs @ polls_of a ys"
  by (simp add: polls_of_def)

lemma polls_of_pairs: "polls_of a (List.map (Pair now) ps) = List.map (\<lambda>_. now) (filter (\<lambda>b. b = a) ps)"
  by (simp add: polls_of_def filter_map o_def)

lemma flush_cases:
  "flush_profits now True s = (s, []) \<or>
   (let r = apply_profits now (pf_pending s) (s\<lparr>pf_due := None\<rparr>)
    in flush_profits now True s = ((fst r)\<lparr>pf_pending := []\<rparr>, snd r))"
  by (simp add: flush_profits_def Let_def case_prod_beta split: option.split)

lemma flush_polls:
  assumes "pending_inv s"
  shows "polls_of a (snd (profit_step s (PfTimer now))) = [] \<and>
      last_poll (fst (profit_step s (PfTimer now))) a = last_poll s a \<or>
    polls_of a (snd (profit_step s (PfTimer now))) = [now] \<and>
      last_poll (fst (profit_step s (PfTimer now))) a = now \<and> now - last_poll s a \<ge> 1000"
proof -
  have d: "distinct (List.map fst (pf_pending s))" using assms by (simp add: pending_inv_def)
  have l: "last_poll (s\<lparr>pf_due := None\<rparr>) a = last_poll s a"
    "last_poll (r\<lparr>pf_pending := []\<rparr>) a = last_poll r a" for r :: profit_state
    by (simp_all add: last_poll_def)
  from flush_cases [of now s] show ?thesis
    using apply_profits_polls [OF d, of a now "s\<lparr>pf_due := None\<rparr>"]
    by (auto simp: Let_def polls_of_pairs l) (simp_all add: polls_of_def)
qed

lemma polls_step:
  assumes "pending_inv s"
  shows "polls_of a (snd (profit_step s e)) = [] \<and> last_poll (profit_next s e) a = last_poll s a \<or>
    (\<exists>now. (polls_of a (snd (profit_step s e)) = [] \<or> polls_of a (snd (profit_step s e)) = [now]) \<and>
      last_poll (profit_next s e) a = now \<and> 1000 \<le> now - last_poll s a)"
proof (cases e)
  case (PfTimer now)
  then show ?thesis using flush_polls [OF assms, of a now] by (auto simp: profit_next_def)
qed (simp_all add: profit_next_def polls_of_def on_profit_def poll_answered_def last_poll_def Let_def)

interpretation polls: throttled "profit_init ts acs" profit_next pending_inv "\<lambda>s. last_poll s a"
    "\<lambda>s e. polls_of a (snd (profit_step s e))" 1000
  by unfold_locales (erule polls_step pending_inv_step | rule pending_inv_init | simp)+

lemma polls_of_log:
  "polls_of a (profit_log s es) = run_log profit_next (\<lambda>s e. polls_of a (snd (profit_step s e))) s es"
  by (induction es arbitrary: s) (simp_all add: profit_log_def, simp add: polls_of_def)

subsection \<open>Properties\<close>

lemma rows_apply_profit_other:
  "b \<noteq> a \<Longrightarrow> rows_at (fst (apply_profit now polls a ev s)) b = rows_at s b"
proof -
  assume "b \<noteq> a"
  moreover from this have "rows_at (foldl (apply_profit_order a ex) s os) b = rows_at s b" for ex s os
    by (induction os arbitrary: s) (simp_all add: apply_profit_order_def Let_def split: option.splits)
  ultimately show ?thesis by (simp add: apply_profit_def Let_def)
qed

lemma rows_apply_profits_other:
  "b \<notin> fst ` set ups \<Longrightarrow>
     rows_at (pf_trading (fst (apply_profits now ups s))) b = rows_at (pf_trading s) b"
  by (induction now ups s rule: apply_profits.induct)
    (auto simp: case_prod_beta Let_def rows_apply_profit_other)

text \<open>
  C31. Profit events never add, remove or duplicate a position: when the timer applies the collected
  updates, the rows of every account keep their tickets, in order, the accounts that no update is for
  keep their rows unchanged, and nothing stays pending.
\<close>

theorem profit_flush_keeps_tickets:
  assumes "pf_due s = Some due" and "due \<le> now"
  shows "let s' = fst (flush_profits now True s) in
    List.map ticket_of (rows_at (pf_trading s') b) = List.map ticket_of (rows_at (pf_trading s) b) \<and>
    (b \<notin> fst ` set (pf_pending s) \<longrightarrow> rows_at (pf_trading s') b = rows_at (pf_trading s) b) \<and>
    pf_pending s' = [] \<and> pf_due s' = None"
  using assms
  by (simp add: flush_profits_def case_prod_beta Let_def tickets_apply_profits rows_apply_profits_other)

definition sample_profit :: jv where
  "sample_profit = JObj [(''accountId'', JStr ''A''), (''profit'', JNum (Fin 12)),
     (''orders'', JArr [JObj [(''ticket'', JBig 7), (''profit'', JNum (Fin 5))],
                        JObj [(''ticket'', JBig 8), (''profit'', JNum (Fin 9))]])]"

theorem profit_flush_keeps_tickets_witness:
  "List.map ticket_of (rows_at (pf_trading (profit_run (profit_init sample_book account_init)
     [PfEvent 1000 sample_profit, PfTimer 1100])) ''A'') = [Fin 7]"
proof -
  let ?s = "on_profit 1000 True sample_profit (profit_init sample_book account_init)"
  have due: "pf_due ?s = Some 1100" and book: "pf_trading ?s = sample_book"
    by (simp_all add: on_profit_def profit_init_def profit_delay_ms_def Let_def)
  have "List.map ticket_of (rows_at sample_book ''A'') = [Fin 7]" by code_simp
  with profit_flush_keeps_tickets [OF due order_refl, of "''A''"] book show ?thesis
    by (simp add: profit_run_def profit_next_def Let_def case_prod_beta)
qed

text \<open>
  The position requests that profit events cause are limited to one per account and second: in
  every run, two requests for the same account are at least 1000 ms apart.
\<close>

theorem profit_polls_throttled:
  "successively (\<lambda>x y. 1000 \<le> y - x) (polls_of a (profit_log (profit_init ts acs) es))"
  unfolding polls_of_log by (rule polls.spaced)

text \<open>Events of a run whose times are less than 100 ms after the last profit event.\<close>

fun events_within :: "int \<Rightarrow> profit_event list \<Rightarrow> bool" where
  "events_within t [] = True"
| "events_within t (PfEvent now ev # es) = (now < t + 100 \<and> t \<le> now \<and> events_within now es)"
| "events_within t (PfTimer now # es) = (now < t + 100 \<and> events_within t es)"
| "events_within t (PfAnswer now a v # es) = False"

text \<open>
  The timer is restarted by every profit event and has no upper limit: as long as profit events,
  of whatever accounts, follow each other in less than 100 ms, the trading store is not updated at
  all, however often the timer is looked at.
\<close>

theorem dense_profit_events_starve_flush:
  assumes "events_within t es" and "pf_due s = Some (t + 100)"
  shows "pf_trading (profit_run s es) = pf_trading s \<and> profit_log s es = []"
  using assms
proof (induction t es arbitrary: s rule: events_within.induct)
  case (2 t now ev es)
  let ?s = "on_profit now True ev s"
  have "pf_due ?s = Some (now + 100)" and "pf_trading ?s = pf_trading s"
    by (simp_all add: on_profit_def profit_delay_ms_def Let_def)
  with 2 show ?case by (simp add: profit_run_def profit_log_def profit_next_def)
next
  case (3 t now es)
  then have "flush_profits now True s = (s, [])" by (simp add: flush_profits_def)
  with 3 show ?case by (simp add: profit_run_def profit_log_def profit_next_def)
qed (simp_all add: profit_run_def profit_log_def)

theorem dense_profit_events_starve_flush_witness:
  "pf_trading (profit_run (on_profit 0 True sample_profit (profit_init sample_book account_init))
     [PfEvent 90 sample_profit, PfTimer 100, PfEvent 180 sample_profit, PfTimer 200, PfTimer 279]) = sample_book"
proof -
  have "events_within 0 [PfEvent 90 sample_profit, PfTimer 100, PfEvent 180 sample_profit, PfTimer 200,
      PfTimer 279]" by simp
  moreover have "pf_due (on_profit 0 True sample_profit (profit_init sample_book account_init)) = Some (0 + 100)"
    by (simp add: on_profit_def profit_delay_ms_def Let_def)
  ultimately show ?thesis
    using dense_profit_events_starve_flush
      [of 0 _ "on_profit 0 True sample_profit (profit_init sample_book account_init)"]
    by (simp add: on_profit_def profit_init_def Let_def)
qed

end
