(* ===== verification/ProviderConnect.thy ===== *)
theory ProviderConnect
  imports TradingStore AccountStore
begin

text \<open>
  The connection part of \<open>providers/ConnectProvider.tsx\<close>: when the provider opens and closes the two
  streams.  The references and timers of the component are the state; the steps are its effect and
  cleanup, its timers and the changes of the login state that it listens to.
\<close>

subsection \<open>State\<close>

datatype connection_state = Connecting | Connected | Disconnected

text \<open>
  \<open>pv_timer\<close> is the pending connect timer with its sequence number; \<open>pv_timer_ref\<close> says whether the
  reference to a timer is set; \<open>pv_poll\<close> is the count of the initial poll while its interval runs.
\<close>

record provider =
  pv_events :: bool
  pv_summary :: bool
  pv_mounted :: bool
  pv_connecting :: bool
  pv_seq :: nat
  pv_connected_ref :: bool
  pv_connected :: bool
  pv_state :: connection_state
  pv_timer_ref :: bool
  pv_timer :: "nat option"
  pv_poll :: "nat option"
  pv_interval :: bool
  pv_authenticated :: bool
  pv_token :: bool
  pv_accounts :: account_state
  pv_trading :: trading_state

definition provider_init :: "bool \<Rightarrow> bool \<Rightarrow> account_state \<Rightarrow> trading_state \<Rightarrow> provider" where
  "provider_init auth tok acs ts =
     \<lparr>pv_events = False, pv_summary = False, pv_mounted = False, pv_connecting = False, pv_seq = 0,
      pv_connected_ref = False, pv_connected = False, pv_state = Disconnected, pv_timer_ref = False,
      pv_timer = None, pv_poll = None, pv_interval = False, pv_authenticated = auth, pv_token = tok,
      pv_accounts = acs, pv_trading = ts\<rparr>"

subsection \<open>Steps\<close>

definition connect :: "provider \<Rightarrow> provider" where
  "connect s =
     (if pv_timer_ref s \<or> pv_connecting s then s
      else s\<lparr>pv_connecting := True, pv_state := Connecting, pv_seq := Suc (pv_seq s),
             pv_timer_ref := True, pv_timer := Some (Suc (pv_seq s))\<rparr>)"

text \<open>All accounts with an identifier are marked as disconnected.\<close>

definition disconnect_all :: "account_state \<Rightarrow> account_state" where
  "disconnect_all acs =
     foldl (\<lambda>s a. case account_id a of
                    JStr i \<Rightarrow> if i \<noteq> [] then update_account_status i ''disconnected'' s else s
                  | _ \<Rightarrow> s) acs (ac_accounts acs)"

definition tear_down :: "provider \<Rightarrow> provider" where
  "tear_down s = s\<lparr>pv_events := False, pv_summary := False,
     pv_accounts := disconnect_all (pv_accounts s),
     pv_trading := set_user_summary default_user_summary (pv_trading s),
     pv_connected := False, pv_connected_ref := False, pv_state := Disconnected,
     pv_connecting := False, pv_timer_ref := False, pv_timer := None\<rparr>"

definition open_streams :: "provider \<Rightarrow> provider" where
  "open_streams s = s\<lparr>pv_summary := True, pv_events := True, pv_connected := True,
     pv_connected_ref := True, pv_state := Connected, pv_connecting := False,
     pv_timer_ref := False, pv_timer := None\<rparr>"

definition connect_timer :: "provider \<Rightarrow> provider" where
  "connect_timer s =
     (case pv_timer s of
        None \<Rightarrow> s
      | Some q \<Rightarrow>
          (let s = s\<lparr>pv_timer := None\<rparr>
           in if q \<noteq> pv_seq s then s
              else if \<not> pv_authenticated s \<or> \<not> pv_token s then tear_down s
              else open_streams s))"

definition auth_changed :: "bool \<Rightarrow> bool \<Rightarrow> provider \<Rightarrow> provider" where
  "auth_changed auth tok s =
     (let changed = (auth \<noteq> pv_authenticated s);
          s = s\<lparr>pv_authenticated := auth, pv_token := tok\<rparr>
      in if pv_mounted s \<and> changed
         then connect (s\<lparr>pv_connected := False, pv_connected_ref := False, pv_state := Disconnected\<rparr>)
         else s)"

definition mount_provider :: "provider \<Rightarrow> provider" where
  "mount_provider s =
     (if pv_mounted s then s
      else (connect (s\<lparr>pv_mounted := True\<rparr>))\<lparr>pv_poll := Some 0, pv_interval := True\<rparr>)"

definition unmount_provider :: "provider \<Rightarrow> provider" where
  "unmount_provider s =
     (if \<not> pv_mounted s then s
      else s\<lparr>pv_mounted := False, pv_poll := None, pv_interval := False, pv_timer_ref := False,
             pv_timer := None, pv_events := False, pv_summary := False\<rparr>)"

definition initial_poll :: "provider \<Rightarrow> provider" where
  "initial_poll s =
     (case pv_poll s of
        None \<Rightarrow> s
      | Some n \<Rightarrow>
          (if \<not> pv_mounted s then s\<lparr>pv_poll := None\<rparr>
           else if pv_authenticated s then connect (s\<lparr>pv_poll := None\<rparr>)
           else if Suc n \<ge> 10 \<or> pv_connected_ref s then s\<lparr>pv_poll := None\<rparr>
           else s\<lparr>pv_poll := Some (Suc n)\<rparr>))"

definition watchdog :: "provider \<Rightarrow> provider" where
  "watchdog s =
     (if pv_interval s \<and> pv_mounted s \<and> \<not> pv_connected_ref s \<and> \<not> pv_connecting s \<and> pv_authenticated s
      then connect s else s)"

datatype provider_event =
    PvMount
  | PvUnmount
  | PvAuth bool bool
  | PvConnectTimer
  | PvInitialPoll
  | PvWatchdog

fun provider_step :: "provider \<Rightarrow> provider_event \<Rightarrow> provider" where
  "provider_step s PvMount = mount_provider s"
| "provider_step s PvUnmount = unmount_provider s"
| "provider_step s (PvAuth auth tok) = auth_changed auth tok s"
| "provider_step s PvConnectTimer = connect_timer s"
| "provider_step s PvInitialPoll = initial_poll s"
| "provider_step s PvWatchdog = watchdog s"

lemmas provider_defs =
  connect_def tear_down_def open_streams_def connect_timer_def auth_changed_def mount_provider_def
  unmount_provider_def initial_poll_def watchdog_def

subsection \<open>Invariant\<close>

text \<open>
  The two streams are opened and closed together and only while mounted; a pending timer is the latest
  one and belongs to a connection attempt; the two flags of the connection agree; in the state
  \<open>Connected\<close> no attempt is under way and, while mounted, the streams are open.
\<close>

definition provider_inv :: "provider \<Rightarrow> bool" where
  "provider_inv s \<longleftrightarrow>
     pv_events s = pv_summary s \<and> (pv_events s \<longrightarrow> pv_mounted s) \<and>
     pv_timer_ref s = (pv_timer s \<noteq> None) \<and>
     (\<forall>q. pv_timer s = Some q \<longrightarrow> q = pv_seq s \<and> pv_connecting s \<and> pv_mounted s) \<and>
     pv_connected s = pv_connected_ref s \<and>
     (pv_state s = Connected \<longrightarrow> pv_connected s \<and> \<not> pv_connecting s \<and> (pv_mounted s \<longrightarrow> pv_events s)) \<and>
     (pv_interval s = pv_mounted s)"

lemma provider_inv_init: "provider_inv (provider_init auth tok acs ts)"
  by (simp add: provider_inv_def provider_init_def)

lemma provider_inv_connect: "provider_inv s \<Longrightarrow> pv_mounted s \<Longrightarrow> provider_inv (connect s)"
  by (auto simp: provider_inv_def connect_def)

lemma provider_inv_step: "provider_inv s \<Longrightarrow> provider_inv (provider_step s e)"
proof (cases e)
  case (PvAuth auth tok)
  let ?a = "s\<lparr>pv_authenticated := auth, pv_token := tok\<rparr>"
  let ?c = "?a\<lparr>pv_connected := False, pv_connected_ref := False, pv_state := Disconnected\<rparr>"
  assume s: "provider_inv s"
  then have "provider_inv ?a" and "provider_inv ?c" by (auto simp: provider_inv_def)
  then have "pv_mounted s \<Longrightarrow> provider_inv (connect ?c)" by (simp add: provider_inv_connect)
  with \<open>provider_inv ?a\<close> show ?thesis
    unfolding PvAuth provider_step.simps auth_changed_def Let_def by auto
next
  case PvConnectTimer
  assume "provider_inv s"
  then show ?thesis
    by (auto simp: PvConnectTimer connect_timer_def tear_down_def open_streams_def provider_inv_def
        Let_def split: option.splits)
next
  case PvInitialPoll
  assume "provider_inv s"
  then have "provider_inv (s\<lparr>pv_poll := x\<rparr>)" for x by (auto simp: provider_inv_def)
  then show ?thesis
    by (simp add: PvInitialPoll initial_poll_def provider_inv_connect \<open>provider_inv s\<close> split: option.split)
next
  case PvMount
  assume s: "provider_inv s"
  have "provider_inv (mount_provider s)" if "\<not> pv_mounted s"
  proof (cases "pv_connecting s")
    case True
    with s that show ?thesis
      unfolding mount_provider_def connect_def by (auto simp: provider_inv_def)
  next
    case False
    with s that show ?thesis
      unfolding mount_provider_def connect_def by (auto simp: provider_inv_def)
  qed
  with s show ?thesis
    by (cases "pv_mounted s") (simp_all add: PvMount mount_provider_def)
next
  case PvUnmount
  assume "provider_inv s"
  then show ?thesis by (auto simp: PvUnmount unmount_provider_def provider_inv_def)
next
  case PvWatchdog
  assume "provider_inv s"
  then show ?thesis by (simp add: PvWatchdog watchdog_def provider_inv_connect)
qed

interpretation connection: machine "provider_init auth tok acs ts" provider_step provider_inv
  by unfold_locales (simp_all add: provider_inv_init provider_inv_step)

text \<open>While the provider is never unmounted, an attempt always has its timer.\<close>

definition attempt_pending :: "provider \<Rightarrow> bool" where
  "attempt_pending s \<longleftrightarrow> provider_inv s \<and> (pv_connecting s \<longrightarrow> pv_timer s \<noteq> None) \<and>
     (pv_connected s \<and> \<not> pv_connecting s \<longrightarrow> pv_state s = Connected) \<and>
     (pv_connected s \<longrightarrow> pv_mounted s \<and> pv_events s)"

definition mounted_step :: "provider \<Rightarrow> provider_event \<Rightarrow> provider" where
  "mounted_step s e = (if e = PvUnmount then s else provider_step s e)"

lemma attempt_pending_connect:
  "provider_inv s \<Longrightarrow> (pv_connecting s \<Longrightarrow> pv_timer s \<noteq> None) \<Longrightarrow> pv_mounted s \<Longrightarrow>
     (pv_connected s \<Longrightarrow> pv_events s) \<Longrightarrow> attempt_pending (connect s)"
  by (auto simp: attempt_pending_def connect_def provider_inv_def)

lemma attempt_pendingD:
  assumes "attempt_pending s"
  shows "provider_inv s" and "pv_connecting s \<Longrightarrow> pv_timer s \<noteq> None"
    and "pv_connected s \<Longrightarrow> pv_mounted s" and "pv_connected s \<Longrightarrow> pv_events s"
    and "pv_connected s \<Longrightarrow> \<not> pv_connecting s \<Longrightarrow> pv_state s = Connected"
  using assms by (simp_all add: attempt_pending_def)

lemma attempt_pending_step:
  assumes "attempt_pending s"
  shows "attempt_pending (mounted_step s e)"
proof (cases e)
  case PvMount
  show ?thesis
  proof (cases "pv_mounted s")
    case False
    have "provider_inv (mount_provider s)"
      using provider_inv_step [OF attempt_pendingD(1) [OF assms], of PvMount] by simp
    with False assms show ?thesis
      by (auto simp: PvMount mounted_step_def mount_provider_def attempt_pending_def connect_def
          provider_inv_def)
  qed (simp add: PvMount mounted_step_def mount_provider_def assms)
next
  case (PvAuth auth tok)
  let ?a = "s\<lparr>pv_authenticated := auth, pv_token := tok\<rparr>"
  let ?c = "?a\<lparr>pv_connected := False, pv_connected_ref := False, pv_state := Disconnected\<rparr>"
  have "attempt_pending ?a"
    using assms by (auto simp: attempt_pending_def provider_inv_def)
  moreover have "attempt_pending (connect ?c)" if "pv_mounted s"
  proof (rule attempt_pending_connect)
    show "provider_inv ?c"
      using attempt_pendingD(1) [OF assms] by (simp add: provider_inv_def)
  qed (use attempt_pendingD(2) [OF assms] that in simp_all)
  ultimately show ?thesis
    by (auto simp: PvAuth mounted_step_def auth_changed_def Let_def)
next
  case PvConnectTimer
  show ?thesis
  proof (cases "pv_timer s")
    case (Some q)
    with attempt_pendingD(1) [OF assms] have q: "q = pv_seq s" "pv_mounted s"
      by (auto simp: provider_inv_def)
    have "provider_inv (connect_timer s)"
      using provider_inv_step [OF attempt_pendingD(1) [OF assms], of PvConnectTimer] by simp
    with Some q show ?thesis
      by (simp add: PvConnectTimer mounted_step_def connect_timer_def tear_down_def open_streams_def
          attempt_pending_def Let_def split: if_splits)
  qed (simp add: PvConnectTimer mounted_step_def connect_timer_def assms)
next
  case PvInitialPoll
  have frame: "attempt_pending (s\<lparr>pv_poll := x\<rparr>)" for x
    using assms by (auto simp: attempt_pending_def provider_inv_def)
  moreover have "attempt_pending (connect (s\<lparr>pv_poll := None\<rparr>))" if "pv_mounted s"
    using attempt_pendingD [OF frame [of None]] that by (intro attempt_pending_connect) auto
  ultimately show ?thesis
    using assms by (simp add: PvInitialPoll mounted_step_def initial_poll_def split: option.split)
next
  case PvWatchdog
  have "attempt_pending (connect s)" if "pv_mounted s"
    using attempt_pendingD [OF assms] that by (intro attempt_pending_connect) auto
  with assms show ?thesis by (simp add: PvWatchdog mounted_step_def watchdog_def)
qed (simp add: mounted_step_def assms)

interpretation stay_mounted: machine "provider_init auth tok acs ts" mounted_step attempt_pending
  by unfold_locales
    (simp_all add: attempt_pending_step, simp add: attempt_pending_def provider_inv_init,
     simp add: provider_init_def)

lemma run_mounted: "PvUnmount \<notin> set es \<Longrightarrow> run mounted_step s es = run provider_step s es"
  by (induction es arbitrary: s) (auto simp: mounted_step_def)

lemma mounted_connect [simp]: "pv_mounted (connect s) = pv_mounted s"
  by (simp add: connect_def)

lemma mounted_stays: "pv_mounted s \<Longrightarrow> e \<noteq> PvUnmount \<Longrightarrow> pv_mounted (provider_step s e)"
  by (cases e)
    (auto simp: mount_provider_def auth_changed_def connect_timer_def tear_down_def open_streams_def
      initial_poll_def watchdog_def Let_def split: option.splits)

lemma mounted_run:
  "pv_mounted s \<or> PvMount \<in> set es \<Longrightarrow> PvUnmount \<notin> set es \<Longrightarrow> pv_mounted (run provider_step s es)"
proof (induction es arbitrary: s)
  case Nil
  then show ?case by simp
next
  case (Cons e es)
  have "pv_mounted (provider_step s e) \<or> PvMount \<in> set es"
    using Cons.prems mounted_stays [of s e] by (auto simp: mount_provider_def)
  with Cons show ?case by simp
qed

subsection \<open>Marking the accounts as disconnected\<close>

definition marked :: "jv set \<Rightarrow> account_state \<Rightarrow> bool" where
  "marked ids s \<longleftrightarrow> (\<forall>a \<in> set (ac_accounts s). \<forall>i. account_id a = JStr i \<and> i \<noteq> [] \<and> JStr i \<in> ids \<longrightarrow>
     jget ''status'' a = JStr ''disconnected'')"

lemma account_id_jset_status [simp]: "account_id (jset ''status'' v a) = account_id a"
  by (simp add: account_id_def)

lemma marked_update:
  "marked ids s \<Longrightarrow> marked (insert (JStr i) ids) (update_account_status i ''disconnected'' s)"
  by (auto simp: marked_def update_account_status_def set_update_where same_id_str)

lemma ids_update_status:
  "List.map account_id (ac_accounts (update_account_status i st s)) = List.map account_id (ac_accounts s)"
  by (simp add: update_account_status_def map_update_where)

lemma marked_fold:
  "marked ids s \<Longrightarrow>
     marked (ids \<union> account_id ` set xs)
       (foldl (\<lambda>s a. case account_id a of
                       JStr i \<Rightarrow> if i \<noteq> [] then update_account_status i ''disconnected'' s else s
                     | _ \<Rightarrow> s) s xs) \<and>
     List.map account_id (ac_accounts
       (foldl (\<lambda>s a. case account_id a of
                       JStr i \<Rightarrow> if i \<noteq> [] then update_account_status i ''disconnected'' s else s
                     | _ \<Rightarrow> s) s xs)) = List.map account_id (ac_accounts s)"
proof (induction xs arbitrary: ids s)
  case Nil
  then show ?case by simp
next
  case (Cons x xs)
  let ?s = "case account_id x of
      JStr i \<Rightarrow> if i \<noteq> [] then update_account_status i ''disconnected'' s else s | _ \<Rightarrow> s"
  have "marked (insert (account_id x) ids) ?s"
    using Cons.prems marked_update [OF Cons.prems]
    by (cases "account_id x") (auto simp: marked_def)
  moreover have "List.map account_id (ac_accounts ?s) = List.map account_id (ac_accounts s)"
    by (simp add: ids_update_status split: jv.split)
  ultimately show ?case
    using Cons.IH [of "insert (account_id x) ids" ?s] by (simp add: insert_commute)
qed

lemma disconnect_all_marks:
  assumes "a \<in> set (ac_accounts (disconnect_all acs))" and "account_id a = JStr i" and "i \<noteq> []"
  shows "jget ''status'' a = JStr ''disconnected''"
proof -
  have m: "marked (account_id ` set (ac_accounts acs)) (disconnect_all acs)"
    and ids: "List.map account_id (ac_accounts (disconnect_all acs)) = List.map account_id (ac_accounts acs)"
    using marked_fold [of "{}" acs "ac_accounts acs"] by (simp_all add: disconnect_all_def marked_def)
  have "account_id ` set (ac_accounts (disconnect_all acs)) = account_id ` set (ac_accounts acs)"
    using arg_cong [OF ids, of set] by simp
  then have "account_id a \<in> account_id ` set (ac_accounts acs)" using assms(1) by blast
  with m assms show ?thesis by (auto simp: marked_def)
qed

subsection \<open>Properties\<close>

text \<open>
  In every reachable state the two streams are open together and only while the provider is
  mounted, at most one connection attempt is scheduled and it is the latest, and the provider says
  that it is connected only with both streams open.
\<close>

theorem provider_single_flight:
  "let s = run provider_step (provider_init auth tok acs ts) es in
     pv_events s = pv_summary s \<and> (pv_events s \<longrightarrow> pv_mounted s) \<and>
     (\<forall>q. pv_timer s = Some q \<longrightarrow> q = pv_seq s \<and> pv_connecting s) \<and>
     (pv_state s = Connected \<and> pv_mounted s \<longrightarrow> pv_events s \<and> pv_summary s)"
  using connection.inv_run [of auth tok acs ts es]
  by (auto simp: Let_def provider_inv_def)

theorem provider_single_flight_witness:
  "pv_summary (run provider_step (provider_init True True account_init trading_init) [PvMount, PvConnectTimer])"
proof -
  let ?s = "run provider_step (provider_init True True account_init trading_init) [PvMount, PvConnectTimer]"
  have "pv_state ?s = Connected" "pv_mounted ?s"
    by (simp_all add: provider_defs provider_init_def Let_def)
  with provider_single_flight
    [where auth = True and tok = True and acs = account_init and ts = trading_init
      and es = "[PvMount, PvConnectTimer]"]
  show ?thesis unfolding Let_def by blast
qed

lemma connects_next:
  assumes "attempt_pending s" and "pv_mounted s" and "pv_authenticated s" and "pv_token s"
  defines "u \<equiv> connect_timer (watchdog s)"
  shows "pv_events u \<and> pv_summary u \<and> pv_connected u \<and> pv_state u = Connected"
proof (cases "pv_connecting s")
  case True
  with attempt_pendingD [OF assms(1)] obtain q where "pv_timer s = Some q" by auto
  moreover from this attempt_pendingD(1) [OF assms(1)] have "q = pv_seq s"
    by (simp add: provider_inv_def)
  ultimately show ?thesis
    using assms(2-4) True by (simp add: u_def watchdog_def connect_timer_def open_streams_def)
next
  case False
  show ?thesis
  proof (cases "pv_connected s")
    case True
    then have w: "watchdog s = s" and t: "pv_timer s = None"
      using attempt_pendingD(1) [OF assms(1)] False by (auto simp: watchdog_def provider_inv_def)
    have "pv_events s" "pv_summary s" "pv_state s = Connected"
      using attempt_pendingD [OF assms(1)] True False by (simp_all add: provider_inv_def)
    with True w t show ?thesis by (simp add: u_def connect_timer_def)
  next
    case unconnected: False
    have "pv_interval s" "\<not> pv_connected_ref s" "\<not> pv_timer_ref s"
      using attempt_pendingD(1) [OF assms(1)] unconnected False assms(2)
      by (auto simp: provider_inv_def)
    with assms(2-4) False show ?thesis
      by (simp add: u_def watchdog_def connect_def connect_timer_def open_streams_def)
  qed
qed

lemma logout_next:
  fixes tok :: bool
  assumes "attempt_pending s" and "pv_mounted s" and "pv_authenticated s"
  defines "u \<equiv> connect_timer (auth_changed False tok s)"
  shows "\<not> pv_events u" and "\<not> pv_summary u" and "pv_state u = Disconnected"
    and "pv_accounts u = disconnect_all (pv_accounts s)"
    and "pv_trading u = set_user_summary default_user_summary (pv_trading s)"
proof -
  have "\<exists>r. u = tear_down (r\<lparr>pv_timer := None\<rparr>) \<and> pv_accounts r = pv_accounts s \<and> pv_trading r = pv_trading s"
  proof (cases "pv_connecting s")
    case True
    with attempt_pendingD [OF assms(1)] obtain q where "pv_timer s = Some q" by auto
    moreover from this attempt_pendingD(1) [OF assms(1)] have "q = pv_seq s"
      by (simp add: provider_inv_def)
    ultimately show ?thesis
      unfolding u_def using assms(2,3) True
      by (intro exI [of _ "auth_changed False tok s"])
        (simp add: auth_changed_def connect_def connect_timer_def)
  next
    case False
    then have "\<not> pv_timer_ref s"
      using attempt_pendingD(1) [OF assms(1)] by (auto simp: provider_inv_def)
    then show ?thesis
      unfolding u_def using assms(2,3) False
      by (intro exI [of _ "auth_changed False tok s"])
        (simp add: auth_changed_def connect_def connect_timer_def)
  qed
  then show "\<not> pv_events u" and "\<not> pv_summary u" and "pv_state u = Disconnected"
    and "pv_accounts u = disconnect_all (pv_accounts s)"
    and "pv_trading u = set_user_summary default_user_summary (pv_trading s)"
    by (auto simp: tear_down_def)
qed

text \<open>
  C10. A mounted provider connects: after any history without an unmount, when the user is logged in,
  the next tick of the watchdog followed by the connect timer leaves both streams open and the
  provider connected.
\<close>

theorem provider_connects:
  assumes "PvMount \<in> set es" and "PvUnmount \<notin> set es"
    and "pv_authenticated (run provider_step (provider_init auth tok acs ts) es)"
    and "pv_token (run provider_step (provider_init auth tok acs ts) es)"
  shows "let s = run provider_step (provider_init auth tok acs ts) (es @ [PvWatchdog, PvConnectTimer])
    in pv_events s \<and> pv_summary s \<and> pv_connected s \<and> pv_state s = Connected"
proof -
  let ?s = "run provider_step (provider_init auth tok acs ts) es"
  have "attempt_pending ?s"
    using stay_mounted.inv_run [of auth tok acs ts es] run_mounted [OF assms(2)] by simp
  moreover have "pv_mounted ?s" using assms(1,2) by (intro mounted_run) simp_all
  ultimately show ?thesis
    using connects_next [of ?s] assms(3,4) by (simp add: Let_def)
qed

theorem provider_connects_witness:
  "pv_state (run provider_step (provider_init False False account_init trading_init)
     [PvMount, PvConnectTimer, PvAuth True True, PvWatchdog, PvConnectTimer]) = Connected"
proof -
  let ?es = "[PvMount, PvConnectTimer, PvAuth True True]"
  let ?s = "run provider_step (provider_init False False account_init trading_init) ?es"
  have "pv_authenticated ?s" "pv_token ?s"
    by (simp_all add: provider_defs provider_init_def Let_def)
  from provider_connects [OF _ _ this] show ?thesis by (simp add: Let_def)
qed

text \<open>
  C15. A logout is complete: after any history of a mounted provider without an unmount, when the login state
  becomes false and the connect timer runs, both streams are closed, every account with an identifier is shown as
  disconnected and every figure of the summary of the user is zero again.
\<close>

theorem provider_logout_tears_down:
  assumes "PvMount \<in> set es" and "PvUnmount \<notin> set es"
    and "pv_authenticated (run provider_step (provider_init auth tok acs ts) es)"
  shows "let s = run provider_step (provider_init auth tok acs ts) (es @ [PvAuth False tok', PvConnectTimer])
    in \<not> pv_events s \<and> \<not> pv_summary s \<and> pv_state s = Disconnected \<and>
       (\<forall>a \<in> set (ac_accounts (pv_accounts s)). \<forall>i. account_id a = JStr i \<and> i \<noteq> [] \<longrightarrow>
          jget ''status'' a = JStr ''disconnected'') \<and>
       list_all (\<lambda>k. jget k (ts_user_summary (pv_trading s)) = JNum (Fin 0))
         [''totalBalance'', ''totalEquity'', ''totalProfit'', ''accountCount'', ''connectedCount'', ''pnlToday'',
          ''pnlWeek'', ''pnlMonth'', ''tradesToday'', ''tradesWeek'', ''tradesMonth'', ''winRate'', ''profitFactor'',
          ''maxDrawdownPercent'', ''maxConsecutiveWins'', ''maxConsecutiveLosses'']"
proof -
  let ?s = "run provider_step (provider_init auth tok acs ts) es"
  let ?t = "provider_step (provider_step ?s (PvAuth False tok')) PvConnectTimer"
  have "attempt_pending ?s"
    using stay_mounted.inv_run [of auth tok acs ts es] run_mounted [OF assms(2)] by simp
  moreover have "pv_mounted ?s" using assms(1,2) by (intro mounted_run) simp_all
  ultimately have t: "\<not> pv_events ?t" "\<not> pv_summary ?t" "pv_state ?t = Disconnected"
      "pv_accounts ?t = disconnect_all (pv_accounts ?s)"
      "pv_trading ?t = set_user_summary default_user_summary (pv_trading ?s)"
    using logout_next [of ?s tok'] assms(3) by simp_all
  have zero: "jget k (jspread x default_user_summary) = JNum (Fin 0)"
    if "k \<in> set (List.map fst (jfields default_user_summary))" for k x
    using that by (subst jget_jspread) (auto simp: default_user_summary_def jget_def zero_def)
  with t show ?thesis
    by (auto simp: Let_def set_user_summary_def default_user_summary_def dest: disconnect_all_marks)
qed

theorem provider_logout_tears_down_witness:
  "\<not> pv_events (run provider_step (provider_init True True account_init trading_init)
     [PvMount, PvConnectTimer, PvAuth False False, PvConnectTimer])"
proof -
  let ?es = "[PvMount, PvConnectTimer]"
  have "pv_authenticated (run provider_step (provider_init True True account_init trading_init) ?es)"
    by (simp add: provider_defs provider_init_def Let_def)
  from provider_logout_tears_down [OF _ _ this, of False] show ?thesis by (simp add: Let_def)
qed

text \<open>
  A provider that is unmounted while a connection attempt is scheduled never connects again: the
  cleanup clears the timer but not the mark of the attempt, so after the next mount every attempt is
  taken for one that is already running, whatever the login state, the timers and later mounts do.
\<close>

theorem remount_never_connects:
  assumes "provider_inv s" and "pv_mounted s" and "pv_timer s \<noteq> None"
  shows "let s' = run provider_step s (PvUnmount # es) in
    \<not> pv_events s' \<and> \<not> pv_summary s' \<and> pv_connecting s' \<and> pv_timer s' = None"
proof -
  let ?stuck = "\<lambda>s. \<not> pv_events s \<and> \<not> pv_summary s \<and> pv_connecting s \<and> pv_timer s = None"
  have step: "?stuck (provider_step t e)" if "?stuck t" for t e
    using that by (cases e) (auto simp: provider_defs Let_def split: option.splits)
  have "?stuck (run provider_step t es)" if "?stuck t" for t
    using that step by (induction es arbitrary: t) auto
  moreover have "?stuck (provider_step s PvUnmount)"
    using assms by (auto simp: provider_inv_def unmount_provider_def)
  ultimately show ?thesis unfolding Let_def run_Cons by blast
qed

theorem remount_never_connects_witness:
  "\<not> pv_events (run provider_step (provider_init True True account_init trading_init)
     [PvMount, PvUnmount, PvMount, PvConnectTimer, PvWatchdog, PvConnectTimer, PvInitialPoll, PvConnectTimer])"
proof -
  let ?s = "run provider_step (provider_init True True account_init trading_init) [PvMount]"
  have inv: "provider_inv ?s" by (rule connection.inv_run)
  have "pv_mounted ?s" "pv_timer ?s \<noteq> None"
    by (simp_all add: mount_provider_def connect_def provider_init_def)
  from remount_never_connects [OF inv this,
      of "[PvMount, PvConnectTimer, PvWatchdog, PvConnectTimer, PvInitialPoll, PvConnectTimer]"]
  show ?thesis unfolding Let_def run_Cons run_Nil by simp
qed

end
