(* ===== verification/TradingHook.thy ===== *)
theory TradingHook
  imports TradingStore Effects
begin

text \<open>
  The trading operations of the pages (\<open>hooks/useTrading.ts\<close>) and the requests and results of
  \<open>client/trading.ts\<close>.  An operation is one run, with the outcomes of its remote calls as arguments.
  The hook keeps the time of the last reconnect attempt per account outside React.
\<close>

subsection \<open>The calls\<close>

text \<open>\<open>params.x || d\<close> in the requests.\<close>

definition with_default :: "string \<Rightarrow> jv \<Rightarrow> jv \<Rightarrow> string \<times> jv" where
  "with_default k d p = (k, js_or (jget k p) d)"

definition order_send_request :: "jv \<Rightarrow> jv" where
  "order_send_request p = JObj
     [(''accountId'', jget ''accountId'' p), (''symbol'', jget ''symbol'' p), (''type'', jget ''type'' p),
      (''volume'', jget ''volume'' p), with_default ''price'' zero p, with_default ''stopLoss'' zero p,
      with_default ''takeProfit'' zero p, with_default ''comment'' (JStr []) p,
      with_default ''magicNumber'' (JBig 0) p]"

definition order_modify_request :: "jv \<Rightarrow> jv" where
  "order_modify_request p = JObj
     [(''accountId'', jget ''accountId'' p), (''ticket'', jget ''ticket'' p),
      with_default ''stopLoss'' zero p, with_default ''takeProfit'' zero p, with_default ''price'' zero p]"

definition order_close_request :: "jv \<Rightarrow> jv" where
  "order_close_request p = JObj
     [(''accountId'', jget ''accountId'' p), (''ticket'', jget ''ticket'' p),
      with_default ''volume'' zero p, with_default ''price'' zero p]"

definition order_history_request :: "jv \<Rightarrow> jv" where
  "order_history_request p = JObj
     [(''accountId'', jget ''accountId'' p), with_default ''from'' (JStr []) p,
      with_default ''to'' (JStr []) p, with_default ''page'' (JNum (Fin 1)) p,
      with_default ''pageSize'' (JNum (Fin 50)) p]"

definition order_result :: "jv \<Rightarrow> jv" where
  "order_result response = JObj (List.map (\<lambda>k. (k, jget k response))
     [''order'', ''error'', ''retcode'', ''message'', ''requestId'', ''riskError''])"

definition order_history_result :: "jv \<Rightarrow> jv" where
  "order_history_result response = JObj (List.map (\<lambda>k. (k, jget k response))
     [''orders'', ''total'', ''page'', ''pageSize''])"

subsection \<open>State of the hook\<close>

record trading_hook =
  th_store :: trading_state
  th_reconnect_at :: "string \<rightharpoonup> int"

definition reconnect_cooldown_ms :: int where
  "reconnect_cooldown_ms = 15000"

text \<open>
  A failure of \<open>getPositions\<close>: whether it is a \<open>ConnectError\<close> with the code of a failed precondition,
  and the thrown value.
\<close>

type_synonym rpc_failure = "bool \<times> jv"

definition account_not_connected :: "rpc_failure \<Rightarrow> bool" where
  "account_not_connected f \<longleftrightarrow> fst f \<or>
     js_includes (js_lower (case jget ''message'' (snd f) of JStr m \<Rightarrow> m | _ \<Rightarrow> []))
       ''account not connected''"

definition th_set_positions :: "int \<Rightarrow> string \<Rightarrow> jv list \<Rightarrow> trading_hook \<Rightarrow> trading_hook" where
  "th_set_positions now a ps h = h\<lparr>th_store := set_positions now a (JArr ps) False (th_store h)\<rparr>"

definition th_set_loading :: "bool \<Rightarrow> trading_hook \<Rightarrow> trading_hook" where
  "th_set_loading b h = h\<lparr>th_store := set_trading_loading b (th_store h)\<rparr>"

text \<open>
  \<open>fetchPositions\<close>.  The last two outcomes are those of the reconnect and of the second read, which
  are only used where the code calls them.  The result is the list that is returned, the messages and
  whether a reconnect was attempted.
\<close>

definition reconnect_and_fetch ::
    "int \<Rightarrow> string \<Rightarrow> jv outcome \<Rightarrow> jv outcome \<Rightarrow> trading_hook \<Rightarrow> trading_hook \<times> jv list option" where
  "reconnect_and_fetch now a connect_outcome second_outcome h =
     (case connect_outcome of
        Inl _ \<Rightarrow> (h, None)
      | Inr result \<Rightarrow>
          (if jget ''success'' result = JBool False then (h, None)
           else case second_outcome of
                  Inl _ \<Rightarrow> (h, None)
                | Inr ps \<Rightarrow> (th_set_positions now a (jv_list ps) h, Some (jv_list ps))))"

definition fetch_positions ::
    "(string \<Rightarrow> string) \<Rightarrow> int \<Rightarrow> string \<Rightarrow> bool \<Rightarrow> rpc_failure + jv \<Rightarrow> jv outcome \<Rightarrow> jv outcome \<Rightarrow>
     trading_hook \<Rightarrow> trading_hook \<times> jv list \<times> toast list \<times> bool" where
  "fetch_positions t now a show_loading first connect_outcome second_outcome h =
     (if a = [] then (h, [], [], False)
      else
        (let h1 = (if show_loading then th_set_loading True h else h);
             done = (\<lambda>h. if show_loading then th_set_loading False h else h)
         in case first of
              Inr ps \<Rightarrow> (done (th_set_positions now a (jv_list ps) h1), jv_list ps, [], False)
            | Inl f \<Rightarrow>
                (if account_not_connected f then
                   (let last_attempt = (case th_reconnect_at h1 a of None \<Rightarrow> 0 | Some l \<Rightarrow> l)
                    in if now - last_attempt > reconnect_cooldown_ms then
                         (case reconnect_and_fetch now a connect_outcome second_outcome
                                 (h1\<lparr>th_reconnect_at := (th_reconnect_at h1)(a \<mapsto> now)\<rparr>) of
                            (h2, Some ps) \<Rightarrow> (done h2, ps, [], True)
                          | (h2, None) \<Rightarrow> (done h2, rows_at (th_store h2) a, [], True))
                       else (done h1, rows_at (th_store h1) a, [], False))
                 else
                   (done (th_set_positions now a [] h1), [],
                    [error_toast t (snd f) ''trading.messages.fetchPositionsFailed''], False))))"

subsection \<open>Orders\<close>

definition string_opt :: "jv \<Rightarrow> string option" where
  "string_opt v = (case v of JStr s \<Rightarrow> Some s | _ \<Rightarrow> None)"

text \<open>The message of a rejected order: the text of the risk code, or of the error.\<close>

definition order_error_toast :: "(string \<Rightarrow> string) \<Rightarrow> jv \<Rightarrow> toast" where
  "order_error_toast t result =
     ToastError (trading_risk_toast_message t (string_opt (jget ''code'' (jget ''riskError'' result)))
       (string_opt (jget ''error'' result)) (string_opt (jget ''message'' result))
       (translate_maybe_i18n_key t (jget ''error'' result) (js_string (jget ''error'' result))))"

definition run_order ::
    "(string \<Rightarrow> string) \<Rightarrow> string \<Rightarrow> string \<Rightarrow> jv outcome \<Rightarrow> trading_hook \<Rightarrow>
     trading_hook \<times> toast list \<times> jv outcome" where
  "run_order t success_key failed_key out h =
     (let h1 = th_set_loading True h
      in case out of
           Inr result \<Rightarrow>
             (th_set_loading False h1,
              if truthy (jget ''error'' result) then [order_error_toast t result]
              else [ToastSuccess (t success_key)],
              Inr (if truthy (jget ''error'' result) then JNull else jget ''order'' result))
         | Inl e \<Rightarrow> (th_set_loading False h1, [error_toast t e failed_key], Inl e))"

definition send_order ::
    "(string \<Rightarrow> string) \<Rightarrow> jv outcome \<Rightarrow> trading_hook \<Rightarrow> trading_hook \<times> toast list \<times> jv outcome" where
  "send_order t out h = run_order t ''trading.messages.orderSendSuccess'' ''trading.messages.orderSendFailed'' out h"

definition modify_order ::
    "(string \<Rightarrow> string) \<Rightarrow> jv outcome \<Rightarrow> trading_hook \<Rightarrow> trading_hook \<times> toast list \<times> jv outcome" where
  "modify_order t out h =
     run_order t ''trading.messages.orderModifySuccess'' ''trading.messages.orderModifyFailed'' out h"

definition close_order ::
    "(string \<Rightarrow> string) \<Rightarrow> jv outcome \<Rightarrow> trading_hook \<Rightarrow> trading_hook \<times> toast list \<times> jv outcome" where
  "close_order t out h =
     run_order t ''trading.messages.orderCloseSuccess'' ''trading.messages.orderCloseFailed'' out h"

definition get_pending_orders :: "(string \<Rightarrow> string) \<Rightarrow> jv outcome \<Rightarrow> jv \<times> toast list" where
  "get_pending_orders t out =
     (case out of Inr orders \<Rightarrow> (orders, [])
      | Inl e \<Rightarrow> (JArr [], [error_toast t e ''trading.messages.fetchPendingOrdersFailed'']))"

definition get_order_history :: "(string \<Rightarrow> string) \<Rightarrow> jv outcome \<Rightarrow> jv \<times> toast list" where
  "get_order_history t out =
     (case out of Inr result \<Rightarrow> (result, [])
      | Inl e \<Rightarrow>
          (JObj [(''orders'', JArr []), (''total'', zero), (''page'', JNum (Fin 1)), (''pageSize'', JNum (Fin 50))],
           [error_toast t e ''trading.messages.fetchOrderHistoryFailed'']))"

definition connect_trading_account :: "(string \<Rightarrow> string) \<Rightarrow> jv outcome \<Rightarrow> jv outcome \<times> toast list" where
  "connect_trading_account t out =
     (case out of Inr result \<Rightarrow> (Inr result, [])
      | Inl e \<Rightarrow> (Inl e, [error_toast t e ''accounts.messages.connectFailed'']))"

lemmas hook_defs = th_set_positions_def th_set_loading_def set_trading_loading_def

subsection \<open>The busy flag\<close>

lemma loading_set_positions [simp]: "ts_loading (set_positions now a v b s) = ts_loading s"
  by (simp add: set_positions_def put_rows_def)

lemma reconnect_frame:
  "ts_loading (th_store (fst (reconnect_and_fetch now a c g h))) = ts_loading (th_store h)"
  "th_reconnect_at (fst (reconnect_and_fetch now a c g h)) = th_reconnect_at h"
  by (auto simp: reconnect_and_fetch_def th_set_positions_def split: sum.splits)

lemma idle_after_fetch:
  assumes "\<not> ts_loading (th_store h)"
  shows "\<not> ts_loading (th_store (fst (fetch_positions t now a sl first c g h)))"
proof -
  let ?h = "if sl then th_set_loading True h else h"
  let ?r = "?h\<lparr>th_reconnect_at := (th_reconnect_at ?h)(a \<mapsto> now)\<rparr>"
  obtain h2 r where re: "reconnect_and_fetch now a c g ?r = (h2, r)" by fastforce
  with reconnect_frame(1) [of now a c g ?r] have "ts_loading (th_store h2) = ts_loading (th_store ?h)"
    by simp
  with assms re show ?thesis
    by (cases first; cases sl; cases r) (simp_all add: fetch_positions_def Let_def hook_defs)
qed

interpretation fetching_positions: busy_operation "\<lambda>h. ts_loading (th_store h)"
    "\<lambda>(t, now, a, sl, first, c, g) h. fetch_positions t now a sl first c g h"
  by unfold_locales (auto simp: idle_after_fetch)

interpretation ordering: busy_operation "\<lambda>h. ts_loading (th_store h)"
    "\<lambda>(t, k, f, out) h. run_order t k f out h"
  by unfold_locales (auto simp: run_order_def Let_def hook_defs split: sum.splits)

subsection \<open>Reconnect attempts\<close>

text \<open>Fetches of all accounts, one after another.\<close>

record fetch_call =
  fc_now :: int
  fc_account :: string
  fc_show :: bool
  fc_first :: "rpc_failure + jv"
  fc_connect :: "jv outcome"
  fc_second :: "jv outcome"

definition fetch_call_result ::
    "(string \<Rightarrow> string) \<Rightarrow> trading_hook \<Rightarrow> fetch_call \<Rightarrow> trading_hook \<times> jv list \<times> toast list \<times> bool" where
  "fetch_call_result t h c = fetch_positions t (fc_now c) (fc_account c) (fc_show c) (fc_first c)
     (fc_connect c) (fc_second c) h"

definition fetch_next :: "(string \<Rightarrow> string) \<Rightarrow> trading_hook \<Rightarrow> fetch_call \<Rightarrow> trading_hook" where
  "fetch_next t h c = fst (fetch_call_result t h c)"

text \<open>The time of a reconnect attempt for account \<open>a\<close>, if the call made one.\<close>

definition attempt_times :: "(string \<Rightarrow> string) \<Rightarrow> string \<Rightarrow> trading_hook \<Rightarrow> fetch_call \<Rightarrow> int list" where
  "attempt_times t a h c =
     (case fetch_call_result t h c of
        (_, _, _, attempted) \<Rightarrow> if attempted \<and> fc_account c = a then [fc_now c] else [])"

definition last_attempt_of :: "string \<Rightarrow> trading_hook \<Rightarrow> int" where
  "last_attempt_of a h = (case th_reconnect_at h a of None \<Rightarrow> 0 | Some l \<Rightarrow> l)"

lemma reconnect_at_set [simp]:
  "th_reconnect_at (th_set_positions now a ps h) = th_reconnect_at h"
  "th_reconnect_at (th_set_loading b h) = th_reconnect_at h"
  by (simp_all add: th_set_positions_def th_set_loading_def)

lemma fetch_reconnect_at:
  "case fetch_positions t now a sl first c g h of
     (h', _, _, attempted) \<Rightarrow>
       (if attempted then now - last_attempt_of a h > 15000 \<and> th_reconnect_at h' = (th_reconnect_at h)(a \<mapsto> now)
        else th_reconnect_at h' = th_reconnect_at h)"
proof -
  let ?h = "if sl then th_set_loading True h else h"
  let ?r = "?h\<lparr>th_reconnect_at := (th_reconnect_at ?h)(a \<mapsto> now)\<rparr>"
  obtain h2 r where re: "reconnect_and_fetch now a c g ?r = (h2, r)" by fastforce
  with reconnect_frame(2) [of now a c g ?r] have "th_reconnect_at h2 = (th_reconnect_at h)(a \<mapsto> now)"
    by (simp split: if_splits)
  with re show ?thesis
    by (cases first; cases sl; cases r)
      (simp_all add: fetch_positions_def Let_def last_attempt_of_def reconnect_cooldown_ms_def)
qed

lemma attempt_step:
  "attempt_times t a h c = [] \<and> last_attempt_of a (fetch_next t h c) = last_attempt_of a h \<or>
   (\<exists>now. (attempt_times t a h c = [] \<or> attempt_times t a h c = [now]) \<and>
      last_attempt_of a (fetch_next t h c) = now \<and> 15001 \<le> now - last_attempt_of a h)"
proof -
  obtain h' ps toasts attempted where r: "fetch_call_result t h c = (h', ps, toasts, attempted)"
    by (cases "fetch_call_result t h c")
  then show ?thesis
    using fetch_reconnect_at [where t = t and now = "fc_now c" and a = "fc_account c" and sl = "fc_show c"
        and first = "fc_first c" and c = "fc_connect c" and g = "fc_second c" and h = h]
    by (auto simp: attempt_times_def fetch_next_def fetch_call_result_def last_attempt_of_def split: if_splits)
qed

definition trading_hook_init :: "trading_state \<Rightarrow> trading_hook" where
  "trading_hook_init ts = \<lparr>th_store = ts, th_reconnect_at = Map.empty\<rparr>"

interpretation reconnects: throttled "trading_hook_init ts" "fetch_next t" "\<lambda>_. True" "last_attempt_of a"
    "attempt_times t a" 15001
  by unfold_locales (rule attempt_step TrueI | simp)+

subsection \<open>Properties\<close>

text \<open>
  C40. A broken account is not hammered: over any sequence of position fetches, of this and other
  accounts, two automatic reconnect attempts for the same account are more than 15 seconds apart.
\<close>

theorem reconnect_attempts_spaced:
  "successively (\<lambda>x y. y - x > 15000)
     (run_log (fetch_next t) (attempt_times t a) (trading_hook_init ts) calls)"
proof -
  have eq: "(\<lambda>x y :: int. y - x > 15000) = (\<lambda>x y. 15001 \<le> y - x)" by (intro ext) auto
  show ?thesis unfolding eq by (rule reconnects.spaced)
qed

text \<open>
  What a failed fetch does to the rows: if the account is only not connected and the reconnect does
  not help, the rows that are shown stay and are returned, without a message; any other failure empties
  the rows of that account and says so; and in every case the busy flag is down again.
\<close>

theorem failed_fetch_rows:
  assumes "a \<noteq> []" and "\<not> ts_loading (th_store h)"
    and "reconnect_and_fetch now a connect_out second_out = (\<lambda>h. (h, None))"
  shows "case fetch_positions t now a sl (Inl f) connect_out second_out h of
    (h', rows, toasts, _) \<Rightarrow>
      \<not> ts_loading (th_store h') \<and> rows = rows_at (th_store h') a \<and>
      (if account_not_connected f
       then rows = rows_at (th_store h) a \<and> toasts = []
       else rows = [] \<and> toasts = [error_toast t (snd f) ''trading.messages.fetchPositionsFailed''])"
proof -
  have "rows_at (th_store (th_set_loading b h)) a = rows_at (th_store h) a" for b h
    by (simp add: th_set_loading_def set_trading_loading_def rows_at_def)
  moreover have "rows_at (th_store (th_set_positions now a [] h)) a = []" for h
    by (simp add: th_set_positions_def merge_rows_def merge_full_def partial_shrink_def camel_rows_def Let_def)
  moreover have "\<not> ts_loading (th_store (fst (fetch_positions t now a sl (Inl f) connect_out second_out h)))"
    by (rule idle_after_fetch [OF assms(2)])
  ultimately show ?thesis
    using assms(1,3) by (simp add: fetch_positions_def Let_def split: if_splits)
qed

theorem failed_fetch_rows_witness:
  "case fetch_positions (\<lambda>k. k) 20000 ''A'' True (Inl (True, JNull)) (Inl JNull) (Inl JNull)
      (trading_hook_init trading_init) of (h', rows, toasts, _) \<Rightarrow> toasts = []"
proof -
  have a: "''A'' \<noteq> []" and b: "\<not> ts_loading (th_store (trading_hook_init trading_init))"
    and c: "reconnect_and_fetch 20000 ''A'' (Inl JNull) (Inl JNull) = (\<lambda>h. (h, None))"
    by (simp_all add: trading_hook_init_def trading_init_def reconnect_and_fetch_def fun_eq_iff)
  show ?thesis
    using failed_fetch_rows [OF a b c, where t = "\<lambda>k. k" and sl = True and f = "(True, JNull)"]
    by (auto simp: account_not_connected_def split: prod.splits)
qed

text \<open>
  A rejected order is never reported as done: the message of success is shown exactly when the call
  returns without an error text, the order is returned only then, a thrown failure is thrown on after
  its message, and the busy flag is down in every case.
\<close>

theorem order_outcome_reported:
  assumes "\<not> ts_loading (th_store h)"
  shows "case send_order t out h of (h', toasts, result) \<Rightarrow>
    \<not> ts_loading (th_store h') \<and> length toasts = 1 \<and>
    (toasts = [ToastSuccess (t ''trading.messages.orderSendSuccess'')] \<longleftrightarrow>
       (\<exists>r. out = Inr r \<and> \<not> truthy (jget ''error'' r) \<and> result = Inr (jget ''order'' r))) \<and>
    (\<forall>e. out = Inl e \<longrightarrow> result = Inl e)"
  using ordering.not_busy_after [OF assms, of "(t, _, _, out)"]
  by (auto simp: send_order_def run_order_def Let_def order_error_toast_def error_toast_def hook_defs
      split: sum.splits)

theorem order_outcome_reported_witness:
  "fst (snd (send_order (\<lambda>k. k) (Inr (JObj [(''order'', JStr ''o1'')])) (trading_hook_init trading_init))) =
     [ToastSuccess ''trading.messages.orderSendSuccess'']"
proof -
  have "\<not> ts_loading (th_store (trading_hook_init trading_init))"
    by (simp add: trading_hook_init_def trading_init_def)
  from order_outcome_reported [OF this, of "\<lambda>k. k" "Inr (JObj [(''order'', JStr ''o1'')])"]
  show ?thesis
    by (auto simp: send_order_def run_order_def Let_def jget_def split: prod.splits)
qed

end
