(* ===== verification/Json.thy ===== *)
theory Json
  imports JsNumber
begin

text \<open>
  \<open>JSON.parse\<close> and \<open>JSON.stringify\<close>, which the client uses on the answers of AI providers, on
  what it keeps in the local storage and on the defaults it injects into strategy code.  The parser
  is total: \<open>None\<close> is the exception.  Its recursion is justified by the length of the rest of the
  text; the guards that say so never fail, as the rest of a value is shorter than its text.
\<close>

subsection \<open>Strings\<close>

definition json_ws :: "char \<Rightarrow> bool" where
  "json_ws c \<longleftrightarrow> c \<in> {CHR '' '', CHR 0x09, CHR 0x0A, CHR 0x0D}"

definition skip_ws :: "string \<Rightarrow> string" where
  "skip_ws s = dropWhile json_ws s"

definition code_of :: "char \<Rightarrow> nat" where
  "code_of c = of_char c"

definition hex_val :: "char \<Rightarrow> nat option" where
  "hex_val c = (if radix_digit c < 16 then Some (radix_digit c) else None)"

fun hex4 :: "string \<Rightarrow> (nat \<times> string) option" where
  "hex4 (a # b # c # d # r) =
     (case (hex_val a, hex_val b, hex_val c, hex_val d) of
        (Some w, Some x, Some y, Some z) \<Rightarrow> Some (((w * 16 + x) * 16 + y) * 16 + z, r)
      | _ \<Rightarrow> None)"
| "hex4 _ = None"

definition utf8 :: "nat \<Rightarrow> string" where
  "utf8 n =
     (if n < 128 then [char_of n]
      else if n < 2048 then [char_of (192 + n div 64), char_of (128 + n mod 64)]
      else if n < 65536 then
        [char_of (224 + n div 4096), char_of (128 + n div 64 mod 64), char_of (128 + n mod 64)]
      else [char_of (240 + n div 262144), char_of (128 + n div 4096 mod 64),
            char_of (128 + n div 64 mod 64), char_of (128 + n mod 64)])"

text \<open>\<open>\\uXXXX\<close>, with a low surrogate joined to the high one before it.\<close>

definition unicode_escape :: "string \<Rightarrow> (string \<times> string) option" where
  "unicode_escape s =
     (case hex4 s of
        None \<Rightarrow> None
      | Some (n, r) \<Rightarrow>
          (if 0xD800 \<le> n \<and> n < 0xDC00 \<and> prefix [CHR 0x5C, CHR ''u''] r then
             (case hex4 (drop 2 r) of
                Some (m, r') \<Rightarrow>
                  if 0xDC00 \<le> m \<and> m < 0xE000
                  then Some (utf8 (0x10000 + (n - 0xD800) * 0x400 + (m - 0xDC00)), r')
                  else Some (utf8 n, r)
              | None \<Rightarrow> Some (utf8 n, r))
           else Some (utf8 n, r)))"

definition simple_escape :: "char \<Rightarrow> char option" where
  "simple_escape c =
     (if c = CHR 0x22 \<or> c = CHR 0x5C \<or> c = CHR ''/'' then Some c
      else if c = CHR ''b'' then Some (CHR 0x08)
      else if c = CHR ''f'' then Some (CHR 0x0C)
      else if c = CHR ''n'' then Some (CHR 0x0A)
      else if c = CHR ''r'' then Some (CHR 0x0D)
      else if c = CHR ''t'' then Some (CHR 0x09) else None)"

text \<open>The rest of a string literal, after its opening quote.\<close>

function string_rest :: "string \<Rightarrow> string \<Rightarrow> (string \<times> string) option" where
  "string_rest acc [] = None"
| "string_rest acc (c # s) =
     (if c = CHR 0x22 then Some (rev acc, s)
      else if code_of c < 32 then None
      else if c = CHR 0x5C then
        (case s of
           [] \<Rightarrow> None
         | e # s' \<Rightarrow>
             if e = CHR ''u'' then
               (case unicode_escape s' of
                  None \<Rightarrow> None
                | Some (u, r) \<Rightarrow>
                    if length r < length s then string_rest (rev u @ acc) r else None)
             else (case simple_escape e of
                     None \<Rightarrow> None
                   | Some d \<Rightarrow> string_rest (d # acc) s'))
      else string_rest (c # acc) s)"
  by pat_completeness auto

termination
  by (relation "measure (length \<circ> snd)") auto

subsection \<open>Numbers\<close>

definition json_num_char :: "char \<Rightarrow> bool" where
  "json_num_char c \<longleftrightarrow> is_digit c \<or> c \<in> {CHR ''-'', CHR ''+'', CHR ''.'', CHR ''e'', CHR ''E''}"

text \<open>
  The grammar of numbers: no leading zeros, no empty parts.  The value is that of the decimal
  literal.
\<close>

definition json_number :: "string \<Rightarrow> jsnum option" where
  "json_number s =
     (let neg = prefix ''-'' s;
          b = (if neg then tl s else s);
          ip = takeWhile is_digit b;
          r1 = dropWhile is_digit b;
          dot = prefix ''.'' r1;
          fp = (if dot then takeWhile is_digit (tl r1) else [])
      in if ip = [] \<or> length ip > 1 \<and> hd ip = CHR ''0'' \<or> dot \<and> fp = [] then None
         else (case decimal_literal (if neg then -1 else 1) b of NaN \<Rightarrow> None | n \<Rightarrow> Some n))"

subsection \<open>Values\<close>

lemma length_skip_ws: "length (skip_ws s) \<le> length s"
  by (simp add: skip_ws_def length_dropWhile_le)

lemma skip_ws_Cons_length: "skip_ws s = c # r \<Longrightarrow> length r < length s"
  using length_skip_ws [of s] by simp

function (sequential)
  json_value :: "string \<Rightarrow> (jv \<times> string) option"
and json_elems :: "string \<Rightarrow> jv list \<Rightarrow> (jv \<times> string) option"
and json_fields :: "string \<Rightarrow> (string \<times> jv) list \<Rightarrow> (jv \<times> string) option" where
  "json_value s =
     (case skip_ws s of
        [] \<Rightarrow> None
      | c # r \<Rightarrow>
          if c = CHR 0x22 then map_option (\<lambda>(x, r'). (JStr x, r')) (string_rest [] r)
          else if c = CHR ''['' then
            (if prefix '']'' (skip_ws r) then Some (JArr [], tl (skip_ws r)) else json_elems r [])
          else if c = CHR ''{'' then
            (if prefix ''}'' (skip_ws r) then Some (JObj [], tl (skip_ws r)) else json_fields r [])
          else if prefix ''true'' (c # r) then Some (JBool True, drop 3 r)
          else if prefix ''false'' (c # r) then Some (JBool False, drop 4 r)
          else if prefix ''null'' (c # r) then Some (JNull, drop 3 r)
          else map_option (\<lambda>n. (JNum n, dropWhile json_num_char (c # r)))
                 (json_number (takeWhile json_num_char (c # r))))"
| "json_elems s acc =
     (case json_value s of
        None \<Rightarrow> None
      | Some (v, r) \<Rightarrow>
          (case skip_ws r of
             [] \<Rightarrow> None
           | c # r' \<Rightarrow>
               if c = CHR '','' then
                 (if length r' < length s then json_elems r' (v # acc) else None)
               else if c = CHR '']'' then Some (JArr (rev (v # acc)), r') else None))"
| "json_fields s acc =
     (case skip_ws s of
        [] \<Rightarrow> None
      | q # k \<Rightarrow>
          if q \<noteq> CHR 0x22 then None
          else (case string_rest [] k of
            None \<Rightarrow> None
          | Some (key, r) \<Rightarrow>
              if \<not> prefix '':'' (skip_ws r) \<or> \<not> length (tl (skip_ws r)) < length s then None
              else (case json_value (tl (skip_ws r)) of
                 None \<Rightarrow> None
               | Some (v, r') \<Rightarrow>
                   (case skip_ws r' of
                      [] \<Rightarrow> None
                    | c # r'' \<Rightarrow>
                        if c = CHR '','' then
                          (if length r'' < length s then json_fields r'' (AList.update key v acc)
                           else None)
                        else if c = CHR ''}'' then Some (JObj (AList.update key v acc), r'')
                        else None))))"
  by pat_completeness auto

termination
  by (relation "measure (\<lambda>x. case x of Inl s \<Rightarrow> 2 * length s
        | Inr (Inl (s, _)) \<Rightarrow> 2 * length s + 1 | Inr (Inr (s, _)) \<Rightarrow> 2 * length s + 1)")
     (auto dest: skip_ws_Cons_length)

definition json_parse :: "string \<Rightarrow> jv option" where
  "json_parse s =
     (case json_value s of
        Some (v, r) \<Rightarrow> if skip_ws r = [] then Some v else None
      | None \<Rightarrow> None)"

subsection \<open>Printing\<close>

definition hex_digit :: "nat \<Rightarrow> char" where
  "hex_digit d = (if d < 10 then char_of (48 + d) else char_of (87 + d))"

definition escape_char :: "char \<Rightarrow> string" where
  "escape_char c =
     (if c = CHR 0x22 \<or> c = CHR 0x5C then [CHR 0x5C, c]
      else if c = CHR 0x08 then [CHR 0x5C, CHR ''b'']
      else if c = CHR 0x0C then [CHR 0x5C, CHR ''f'']
      else if c = CHR 0x0A then [CHR 0x5C, CHR ''n'']
      else if c = CHR 0x0D then [CHR 0x5C, CHR ''r'']
      else if c = CHR 0x09 then [CHR 0x5C, CHR ''t'']
      else if code_of c < 32 then
        [CHR 0x5C, CHR ''u'', CHR ''0'', CHR ''0'', hex_digit (code_of c div 16), hex_digit (code_of c mod 16)]
      else [c])"

definition json_quote :: "string \<Rightarrow> string" where
  "json_quote s = [CHR 0x22] @ concat (List.map escape_char s) @ [CHR 0x22]"

text \<open>
  A field that is \<open>undefined\<close> is left out, an element that is prints as \<open>null\<close>; big integers, on
  which \<open>stringify\<close> throws, do not occur where the client calls it.
\<close>

fun json_print :: "jv \<Rightarrow> string" where
  "json_print JUndef = ''null''"
| "json_print JNull = ''null''"
| "json_print (JBool b) = (if b then ''true'' else ''false'')"
| "json_print (JNum n) = (if num_finite n then num_str n else ''null'')"
| "json_print (JBig i) = int_str i"
| "json_print (JStr s) = json_quote s"
| "json_print (JArr xs) = ''['' @ js_join '','' (List.map json_print xs) @ '']''"
| "json_print (JObj fs) =
     ''{'' @ js_join '','' (List.map (\<lambda>(k, v). json_quote k @ '':'' @ json_print v)
                            (List.filter (\<lambda>(k, v). v \<noteq> JUndef) fs)) @ ''}''"

subsection \<open>Round trip\<close>

lemma hex_val_digit: "d < 16 \<Longrightarrow> hex_val (hex_digit d) = Some d"
proof -
  assume "d < 16"
  then consider "d < 10" | "10 \<le> d" "d < 16" by linarith
  then show ?thesis
  proof cases
    case 1
    then show ?thesis
      by (simp add: hex_val_def radix_digit_def hex_digit_def is_digit_def digit_val_def take_bit_eq_mod)
  next
    case 2
    then show ?thesis
      by (simp add: hex_val_def radix_digit_def hex_digit_def is_digit_def is_lower_def take_bit_eq_mod)
  qed
qed

lemma utf8_code: "code_of c < 128 \<Longrightarrow> utf8 (code_of c) = [c]"
  by (simp add: utf8_def code_of_def)

lemma unicode_escape_control:
  assumes "code_of c < 32"
  shows "unicode_escape (CHR ''0'' # CHR ''0'' # hex_digit (code_of c div 16) # hex_digit (code_of c mod 16) # s)
    = Some ([c], s)"
proof -
  have z: "hex_val (CHR ''0'') = Some 0" by code_simp
  have "hex_val (hex_digit (code_of c div 16)) = Some (code_of c div 16)"
    "hex_val (hex_digit (code_of c mod 16)) = Some (code_of c mod 16)"
    using assms by (simp_all add: hex_val_digit)
  then show ?thesis
    using assms by (simp add: unicode_escape_def z utf8_code)
qed

lemma string_rest_escape: "string_rest acc (escape_char c @ s) = string_rest (c # acc) s"
proof -
  consider "c \<in> {CHR 0x22, CHR 0x5C, CHR 0x08, CHR 0x0C, CHR 0x0A, CHR 0x0D, CHR 0x09}"
    | "code_of c < 32" "c \<notin> {CHR 0x22, CHR 0x5C, CHR 0x08, CHR 0x0C, CHR 0x0A, CHR 0x0D, CHR 0x09}"
    | "\<not> code_of c < 32" "c \<notin> {CHR 0x22, CHR 0x5C, CHR 0x08, CHR 0x0C, CHR 0x0A, CHR 0x0D, CHR 0x09}"
    by blast
  then show ?thesis
  proof cases
    case 1
    then show ?thesis
      by (auto simp: escape_char_def simple_escape_def code_of_def)
  next
    case 2
    then have "escape_char c = [CHR 0x5C, CHR ''u'', CHR ''0'', CHR ''0'', hex_digit (code_of c div 16), hex_digit (code_of c mod 16)]"
      by (simp add: escape_char_def)
    moreover have "\<not> code_of (CHR 0x5C) < 32" by (simp add: code_of_def)
    ultimately show ?thesis
      using 2 by (simp add: unicode_escape_control)
  next
    case 3
    then show ?thesis by (simp add: escape_char_def)
  qed
qed

lemma string_rest_quote:
  "string_rest acc (concat (List.map escape_char s) @ CHR 0x22 # r) = Some (rev acc @ s, r)"
  by (induction s arbitrary: acc) (simp_all add: string_rest_escape del: string_rest.simps(2), simp)


text \<open>Values that print and parse back: no numbers, and no two fields of the same name.\<close>

fun json_plain :: "jv \<Rightarrow> bool" where
  "json_plain JNull = True"
| "json_plain (JBool _) = True"
| "json_plain (JStr _) = True"
| "json_plain (JArr xs) = list_all json_plain xs"
| "json_plain (JObj fs) = (distinct (List.map fst fs) \<and> list_all (\<lambda>(k, v). json_plain v) fs)"
| "json_plain _ = False"

lemma skip_ws_keep [simp]: "\<not> json_ws c \<Longrightarrow> skip_ws (c # s) = c # s"
  by (simp add: skip_ws_def)

lemma json_ws_not [simp]:
  "\<not> json_ws (CHR 0x22)" "\<not> json_ws (CHR ''['')" "\<not> json_ws (CHR '']'')" "\<not> json_ws (CHR ''{'')"
  "\<not> json_ws (CHR ''}'')" "\<not> json_ws (CHR '','')" "\<not> json_ws (CHR '':'')" "\<not> json_ws (CHR ''t'')"
  "\<not> json_ws (CHR ''f'')" "\<not> json_ws (CHR ''n'')"
  by (simp_all add: json_ws_def)

lemma json_print_head:
  "json_plain v \<Longrightarrow> \<exists>c t. json_print v = c # t \<and> c \<in> {CHR ''n'', CHR ''t'', CHR ''f'', CHR 0x22, CHR ''['', CHR ''{''}"
  by (cases v) (auto simp: json_quote_def)

lemma json_elems_print:
  assumes "xs \<noteq> []" and "\<forall>x \<in> set xs. \<forall>r. json_value (json_print x @ r) = Some (x, r)"
  shows "json_elems (js_join '','' (List.map json_print xs) @ CHR '']'' # r) acc = Some (JArr (rev acc @ xs), r)"
  using assms
proof (induction xs arbitrary: acc)
  case Nil
  then show ?case by simp
next
  case (Cons x xs)
  show ?case
  proof (cases xs)
    case Nil
    with Cons.prems show ?thesis by (simp del: json_value.simps)
  next
    case (Cons y ys)
    with Cons.prems Cons.IH show ?thesis by (simp del: json_value.simps)
  qed
qed

lemma alist_update_fresh: "k \<notin> fst ` set fs \<Longrightarrow> AList.update k v fs = fs @ [(k, v)]"
  by (induction fs) auto

lemma json_fields_print:
  assumes "fs \<noteq> []" and "\<forall>(k, v) \<in> set fs. \<forall>r. json_value (json_print v @ r) = Some (v, r)"
    and "distinct (List.map fst (acc @ fs))"
  shows "json_fields (js_join '','' (List.map (\<lambda>(k, v). json_quote k @ '':'' @ json_print v) fs) @ CHR ''}'' # r) acc
    = Some (JObj (acc @ fs), r)"
  using assms
proof (induction fs arbitrary: acc)
  case Nil
  then show ?case by simp
next
  case (Cons f fs)
  obtain k v where f: "f = (k, v)" by (cases f)
  have fresh: "AList.update k v acc = acc @ [(k, v)]"
    using Cons.prems(3) by (intro alist_update_fresh) (auto simp: f)
  have val: "json_value (json_print v @ t) = Some (v, t)" for t
    using Cons.prems(2) by (simp add: f)
  show ?case
  proof (cases fs)
    case Nil
    then show ?thesis
      by (simp add: f json_quote_def string_rest_quote val fresh del: json_value.simps)
  next
    case (Cons g gs)
    have "json_fields (js_join '','' (List.map (\<lambda>(k, v). json_quote k @ '':'' @ json_print v) fs) @ CHR ''}'' # r)
        (acc @ [(k, v)]) = Some (JObj ((acc @ [(k, v)]) @ fs), r)"
      using Cons.prems Cons by (intro Cons.IH) (auto simp: f)
    then show ?thesis
      using Cons by (simp add: f json_quote_def string_rest_quote val fresh del: json_value.simps)
  qed
qed

lemma json_value_print: "json_plain v \<Longrightarrow> json_value (json_print v @ r) = Some (v, r)"
proof (induction v arbitrary: r)
  case (JArr xs)
  show ?case
  proof (cases xs)
    case Nil
    then show ?thesis by simp
  next
    case (Cons x ys)
    with JArr.prems have "json_plain x" by simp
    from json_print_head [OF this] obtain c t where c: "json_print x = c # t"
      "c \<in> {CHR ''n'', CHR ''t'', CHR ''f'', CHR 0x22, CHR ''['', CHR ''{''}" by blast
    let ?body = "js_join '','' (List.map json_print xs) @ CHR '']'' # r"
    obtain b where b: "?body = c # b" using Cons c(1) by (cases ys) auto
    have "json_elems ?body [] = Some (JArr xs, r)"
      using JArr Cons json_elems_print [of xs r "[]"] by (auto simp: list_all_iff)
    then show ?thesis
      using c(2) b by (auto simp: Cons_eq_append_conv)
  qed
next
  case (JObj fs)
  show ?case
  proof (cases fs)
    case Nil
    then show ?thesis by simp
  next
    case (Cons f gs)
    have flt: "List.filter (\<lambda>(k, v). v \<noteq> JUndef) fs = fs"
      using JObj.prems by (auto simp: list_all_iff intro!: filter_True)
    let ?body = "js_join '','' (List.map (\<lambda>(k, v). json_quote k @ '':'' @ json_print v) fs) @ CHR ''}'' # r"
    obtain b where b: "?body = CHR 0x22 # b"
      using Cons by (cases f; cases gs) (auto simp: json_quote_def)
    have "json_fields ?body [] = Some (JObj fs, r)"
      using JObj Cons json_fields_print [of fs "[]" r] by (fastforce simp: list_all_iff)
    then show ?thesis
      using b flt by (simp del: json_fields.simps)
  qed
qed (simp_all add: json_quote_def string_rest_quote)

lemma json_parse_print: "json_plain v \<Longrightarrow> json_parse (json_print v) = Some v"
  using json_value_print [of v "[]"] by (simp add: json_parse_def skip_ws_def)

end
