(* ===== verification/AiError.thy ===== *)
theory AiError
  imports Json
begin

text \<open>
  What the user sees of a failed call of an AI provider (\<open>toFriendlyAIError\<close> of \<open>client/ai.ts\<close>):
  the text is taken out of what was thrown, the provider's message out of its JSON wrapping, and the
  message is matched against the known failures in their order.  \<open>t\<close> is the translation function of
  \<open>i18next\<close>, \<open>ti\<close> the one with values to insert.  Texts that are not ASCII are given by the bytes
  of their UTF-8 encoding.
\<close>

text \<open>The bytes with the given hexadecimal digits, the low bit of a nibble first.\<close>

definition nibble :: "char \<Rightarrow> bool \<times> bool \<times> bool \<times> bool" where
  "nibble c =
     (if c = CHR ''0'' then (False, False, False, False)
      else if c = CHR ''1'' then (True, False, False, False)
      else if c = CHR ''2'' then (False, True, False, False)
      else if c = CHR ''3'' then (True, True, False, False)
      else if c = CHR ''4'' then (False, False, True, False)
      else if c = CHR ''5'' then (True, False, True, False)
      else if c = CHR ''6'' then (False, True, True, False)
      else if c = CHR ''7'' then (True, True, True, False)
      else if c = CHR ''8'' then (False, False, False, True)
      else if c = CHR ''9'' then (True, False, False, True)
      else if c = CHR ''A'' then (False, True, False, True)
      else if c = CHR ''B'' then (True, True, False, True)
      else if c = CHR ''C'' then (False, False, True, True)
      else if c = CHR ''D'' then (True, False, True, True)
      else if c = CHR ''E'' then (False, True, True, True)
      else (True, True, True, True))"

fun hx :: "string \<Rightarrow> string" where
  "hx (a # b # s) =
     (case nibble b of (b0, b1, b2, b3) \<Rightarrow> case nibble a of (b4, b5, b6, b7) \<Rightarrow>
        Char b0 b1 b2 b3 b4 b5 b6 b7 # hx s)"
| "hx _ = []"

subsection \<open>The text of what was thrown\<close>

text \<open>An instance of \<open>Error\<close> is its message; any other value is itself.\<close>

datatype thrown =
    ThrownError string
  | ThrownValue jv

fun blank :: "jv \<Rightarrow> bool" where
  "blank (JStr s) = (js_trim s = [])"
| "blank _ = True"

definition object_error_text :: "jv \<Rightarrow> string" where
  "object_error_text o' =
     (if \<not> blank (jget ''rawMessage'' o') then js_string (jget ''rawMessage'' o')
      else if \<not> blank (jget ''message'' o') then js_string (jget ''message'' o')
      else js_string o')"

fun pick_error_text :: "thrown \<Rightarrow> string" where
  "pick_error_text (ThrownError m) = m"
| "pick_error_text (ThrownValue v) =
     (if nullish v then []
      else case v of
          JObj _ \<Rightarrow> object_error_text v
        | JArr _ \<Rightarrow> object_error_text v
        | _ \<Rightarrow> js_string v)"

text \<open>\<open>raw.indexOf('{')\<close> and the text from there.\<close>

definition from_brace :: "string \<Rightarrow> string" where
  "from_brace raw = dropWhile (\<lambda>c. c \<noteq> CHR ''{'') raw"

definition inner_message :: "jv \<Rightarrow> jv" where
  "inner_message o' =
     js_coalesce (js_coalesce (js_coalesce (jget ''message'' (jget ''error'' o')) (jget ''message'' o'))
       (jget ''error'' o')) (JStr [])"

definition inner_text :: "jv \<Rightarrow> string" where
  "inner_text v =
     (case v of
        JStr s \<Rightarrow> s
      | JObj _ \<Rightarrow> json_print v
      | JArr _ \<Rightarrow> json_print v
      | _ \<Rightarrow> [])"

definition unwrap_provider_message :: "string \<Rightarrow> string" where
  "unwrap_provider_message raw =
     (if from_brace raw = [] then raw
      else case json_parse (from_brace raw) of
          None \<Rightarrow> raw
        | Some o' \<Rightarrow>
            (let inner = js_trim (inner_text (inner_message o')) in if inner \<noteq> [] then inner else raw))"

subsection \<open>The failures\<close>

definition insufficient_balance_lower :: "string list" where
  "insufficient_balance_lower =
     [''insufficient_quota'', ''insufficient quota'', ''insufficient_balance'',
      ''insufficient balance'', ''insufficient credits'', ''never purchased credits'',
      ''purchase more at'', ''status 402'', '' 402'', ''credit_balance_too_low'',
      ''exceeded your current quota'', ''exceeded your quota'', ''billing_not_active'',
      ''arrearage'', ''overdue-payment'', ''overdue payment'', ''product is not activated'',
      ''product not activated'', ''not activated, please confirm'']"

definition insufficient_balance_msg :: "string list" where
  "insufficient_balance_msg =
     [hx ''E4BD99E9A29DE4B88DE8B6B3'', hx ''E9A18DE5BAA6E4B88DE8B6B3'',
      hx ''E8B4A6E688B7E6ACA0E8B4B9'', hx ''E5B8B3E8999FE6ACA0E8B2BB'',
      hx ''E8AF95E794A8E5B7B2E7BB93E69D9F'', hx ''E8AF95E794A8E9A29DE5BAA6'',
      hx ''E8A9A6E794A8E5B7B2E7B590E69D9F'', hx ''E69CAAE5BC80E9809A'',
      hx ''E69CAAE6BF80E6B4BB'', hx ''E69CAAE9968BE9809A'', hx ''E5B09AE69CAAE5BC80E9809A'',
      hx ''E8AFB7E58588E5BC80E9809A'']"

definition insufficient_balance_text :: "string \<Rightarrow> string \<Rightarrow> bool" where
  "insufficient_balance_text lower msg \<longleftrightarrow> list_ex (js_includes lower) insufficient_balance_lower \<or>
     list_ex (js_includes msg) insufficient_balance_msg \<or>
     (js_includes lower ''please activate'' \<and> js_includes lower ''product'')"

definition rate_limited_lower :: "string list" where
  "rate_limited_lower =
     [''status 429'', '' 429'', ''too many requests'', ''rate_limit'', ''rate limit'',
      ''tpm limit'', ''rpm limit'']"

definition rate_limited_msg :: "string list" where
  "rate_limited_msg =
     [hx ''E8AFB7E6B182E8BF87E4BA8EE9A291E7B981'', hx ''E99990E6B581'']"

definition rate_limited_text :: "string \<Rightarrow> string \<Rightarrow> bool" where
  "rate_limited_text lower msg \<longleftrightarrow> list_ex (js_includes lower) rate_limited_lower \<or>
     list_ex (js_includes msg) rate_limited_msg"

definition unauthorized_lower :: "string list" where
  "unauthorized_lower =
     [''invalid_api_key'', ''invalid api key'', ''unauthorized'', '' 401'', ''status 401'']"

definition unauthorized_msg :: "string list" where
  "unauthorized_msg =
     [hx ''E5AF86E992A5E697A0E69588'', hx ''E989B4E69D83E5A4B1E8B4A5'']"

definition unauthorized_text :: "string \<Rightarrow> string \<Rightarrow> bool" where
  "unauthorized_text lower msg \<longleftrightarrow> list_ex (js_includes lower) unauthorized_lower \<or>
     list_ex (js_includes msg) unauthorized_msg"

definition forbidden_lower :: "string list" where
  "forbidden_lower =
     [''forbidden'', '' 403'', ''status 403'']"

definition forbidden_text :: "string \<Rightarrow> bool" where
  "forbidden_text lower \<longleftrightarrow> list_ex (js_includes lower) forbidden_lower"

definition invalid_model_lower :: "string list" where
  "invalid_model_lower =
     [''model_not_found'', ''model not found'', ''model does not exist'', ''invalid model id'',
      ''model_deprecated'', ''model deprecated'']"

definition invalid_model_msg :: "string list" where
  "invalid_model_msg =
     [hx ''E6A8A1E59E8BE4B88DE5AD98E59CA8'', hx ''E6A8A1E59E8BE5B7B2E4B88BE7BABF'',
      hx ''E6A8A1E59E8BE5B7B2E5819CE794A8'']"

definition invalid_model_text :: "string \<Rightarrow> string \<Rightarrow> bool" where
  "invalid_model_text lower msg \<longleftrightarrow> list_ex (js_includes lower) invalid_model_lower \<or>
     list_ex (js_includes msg) invalid_model_msg \<or>
     (js_includes lower (''the model '' @ [CHR 0x60]) \<and> js_includes lower ''does not exist'')"

definition context_too_long_lower :: "string list" where
  "context_too_long_lower =
     [''context_length_exceeded'', ''maximum context length'', ''request too large'',
      ''payload too large'']"

definition context_too_long_msg :: "string list" where
  "context_too_long_msg =
     [hx ''E4B88AE4B88BE69687E8B685E995BF'', hx ''E58685E5AEB9E8BF87E995BF'']"

definition context_too_long_text :: "string \<Rightarrow> string \<Rightarrow> bool" where
  "context_too_long_text lower msg \<longleftrightarrow> list_ex (js_includes lower) context_too_long_lower \<or>
     list_ex (js_includes msg) context_too_long_msg \<or>
     (js_includes lower ''context length'' \<and> js_includes lower ''exceed'')"

definition content_blocked_lower :: "string list" where
  "content_blocked_lower =
     [''content_filter'', ''content policy'', ''safety_block'']"

definition content_blocked_msg :: "string list" where
  "content_blocked_msg =
     [hx ''E58685E5AEB9E5AEA1E6A0B8'', hx ''E58685E5AEB9E8BF9DE8A784'',
      hx ''E6958FE6849FE58685E5AEB9'']"

definition content_blocked_text :: "string \<Rightarrow> string \<Rightarrow> bool" where
  "content_blocked_text lower msg \<longleftrightarrow> list_ex (js_includes lower) content_blocked_lower \<or>
     list_ex (js_includes msg) content_blocked_msg \<or>
     (js_includes lower ''blocked'' \<and> js_includes lower ''safety'')"

definition region_not_supported_lower :: "string list" where
  "region_not_supported_lower =
     [''not supported in your region'', ''country, region'',
      ''unsupported_country_region_territory'']"

definition region_not_supported_text :: "string \<Rightarrow> bool" where
  "region_not_supported_text lower \<longleftrightarrow> list_ex (js_includes lower) region_not_supported_lower"

definition provider_internal_lower :: "string list" where
  "provider_internal_lower =
     [''status 5'', '' 500'', '' 502'', '' 503'', '' 504'', ''overloaded'',
      ''service unavailable'', ''internal server error'']"

definition provider_internal_text :: "string \<Rightarrow> bool" where
  "provider_internal_text lower \<longleftrightarrow> list_ex (js_includes lower) provider_internal_lower"

definition network_unreachable_lower :: "string list" where
  "network_unreachable_lower =
     [''context deadline exceeded'', ''client.timeout exceeded'',
      ''timeout exceeded while awaiting headers'', ''i/o timeout'', ''timeout'',
      ''connection refused'', ''no such host'', ''dial tcp'', ''econnrefused'', ''etimedout'']"

definition network_unreachable_text :: "string \<Rightarrow> bool" where
  "network_unreachable_text lower \<longleftrightarrow> list_ex (js_includes lower) network_unreachable_lower \<or>
     (js_includes lower ''failed to send request'' \<and> js_includes lower ''chat/completions'')"

text \<open>\<open>/\b<code>\b/\<close>: the code between characters that are not part of a word.\<close>

definition word_char :: "char \<Rightarrow> bool" where
  "word_char c \<longleftrightarrow> is_lower c \<or> is_upper c \<or> is_digit c \<or> c = CHR ''_''"

definition word_here :: "string \<Rightarrow> string \<Rightarrow> bool" where
  "word_here w s \<longleftrightarrow> prefix w s \<and> (case drop (length w) s of [] \<Rightarrow> True | c # _ \<Rightarrow> \<not> word_char c)"

fun has_word_from :: "bool \<Rightarrow> string \<Rightarrow> string \<Rightarrow> bool" where
  "has_word_from in_word w [] = False"
| "has_word_from in_word w (c # s) =
     ((if in_word then False else word_here w (c # s)) \<or> has_word_from (word_char c) w s)"

definition edge_gateway_text :: "string \<Rightarrow> bool" where
  "edge_gateway_text lower \<longleftrightarrow>
     list_ex (\<lambda>w. has_word_from False w lower) [''524'', ''523'', ''522'', ''521'', ''520'']"

text \<open>
  \<open>msg.match(/(?:Invalid model id|model `?)([\w./:-]+)/i)\<close>: the group of the leftmost match.
\<close>

definition model_char :: "char \<Rightarrow> bool" where
  "model_char c \<longleftrightarrow> word_char c \<or> c \<in> {CHR ''.'', CHR ''/'', CHR '':'', CHR ''-''}"

definition model_after :: "string \<Rightarrow> string \<Rightarrow> string" where
  "model_after intro s =
     (if prefix intro (js_lower s)
      then (let r = drop (length intro) s;
                r = (if intro = ''model '' \<and> prefix [CHR 0x60] r then tl r else r)
            in takeWhile model_char r)
      else [])"

fun model_group :: "string \<Rightarrow> string option" where
  "model_group [] = None"
| "model_group (c # s) =
     (if model_after ''invalid model id'' (c # s) \<noteq> [] then Some (model_after ''invalid model id'' (c # s))
      else if model_after ''model '' (c # s) \<noteq> [] then Some (model_after ''model '' (c # s))
      else model_group s)"

definition model_in_brackets :: "string \<Rightarrow> string" where
  "model_in_brackets msg =
     (case model_group msg of None \<Rightarrow> [] | Some m \<Rightarrow> hx ''EFBC88'' @ m @ hx ''EFBC89'')"

definition to_friendly_ai_error ::
    "(string \<Rightarrow> string) \<Rightarrow> (string \<Rightarrow> (string \<times> string) list \<Rightarrow> string) \<Rightarrow> thrown \<Rightarrow> string" where
  "to_friendly_ai_error t ti raw =
     (let raw_msg = js_trim (pick_error_text raw);
          msg = unwrap_provider_message raw_msg;
          lower = js_lower msg
      in if raw_msg = [] then t ''ai.client.errors.requestFailed''
         else if insufficient_balance_text lower msg then t ''ai.client.errors.insufficientBalance''
         else if rate_limited_text lower msg then t ''ai.client.errors.rateLimited''
         else if unauthorized_text lower msg then t ''ai.client.errors.unauthorized''
         else if forbidden_text lower then t ''ai.client.errors.forbidden''
         else if invalid_model_text lower msg
         then ti ''ai.client.errors.invalidModelId'' [(''model'', model_in_brackets msg)]
         else if context_too_long_text lower msg then t ''ai.client.errors.contextTooLong''
         else if content_blocked_text lower msg then t ''ai.client.errors.contentBlocked''
         else if region_not_supported_text lower then t ''ai.client.errors.regionNotSupported''
         else if edge_gateway_text lower then t ''ai.client.errors.edgeGatewayTimeout''
         else if provider_internal_text lower then t ''ai.client.errors.providerInternalError''
         else if network_unreachable_text lower then t ''ai.client.errors.networkUnreachable''
         else msg)"

subsection \<open>Facts\<close>

lemma js_lower_append: "js_lower (a @ b) = js_lower a @ js_lower b"
  by (simp add: js_lower_def)

lemma unwrap_not_empty: "raw \<noteq> [] \<Longrightarrow> unwrap_provider_message raw \<noteq> []"
  by (auto simp: unwrap_provider_message_def Let_def split: option.splits)

lemma unwrap_plain: "from_brace raw = [] \<Longrightarrow> unwrap_provider_message raw = raw"
  by (simp add: unwrap_provider_message_def)

lemma model_group_here:
  "model_after ''invalid model id'' s \<noteq> [] \<Longrightarrow> model_group s = Some (model_after ''invalid model id'' s)"
  by (cases s) (simp_all add: model_after_def)

lemma model_after_invalid_id: "model_after ''invalid model id'' (''Invalid model id: '' @ s) = '':''"
proof -
  have l: "js_lower ''Invalid model id: '' = ''invalid model id: ''" by code_simp
  have m: "model_char CHR '':''" "\<not> model_char CHR '' ''" by code_simp+
  show ?thesis
    unfolding model_after_def js_lower_append l by (simp add: m)
qed

lemma rate_limited_429: "rate_limited_text (js_lower (p @ '' 429'' @ s)) m"
proof -
  have l: "js_lower '' 429'' = '' 429''" by code_simp
  have "js_includes (js_lower (p @ '' 429'' @ s)) '' 429''"
    unfolding js_lower_append l js_includes_sublist by (rule sublist_appendI)
  then show ?thesis
    unfolding rate_limited_text_def rate_limited_lower_def by (simp only: list.pred_inject list_ex_iff) simp
qed

text \<open>What the user sees of a failure is never empty if no translation is.\<close>

theorem friendly_error_never_empty:
  assumes "\<And>k. t k \<noteq> []" and "\<And>k vs. ti k vs \<noteq> []"
  shows "to_friendly_ai_error t ti e \<noteq> []"
  unfolding to_friendly_ai_error_def Let_def
  using assms unwrap_not_empty by (simp only: split: if_split) blast

theorem friendly_error_never_empty_witness:
  "to_friendly_ai_error (\<lambda>k. k @ ''!'') (\<lambda>k vs. k @ ''!'') (ThrownValue JNull) \<noteq> []"
  by (rule friendly_error_never_empty) simp_all

text \<open>A provider's "Invalid model id: x" names the model as a colon, whatever x is.\<close>

theorem invalid_model_shows_colon:
  "model_in_brackets (''Invalid model id: '' @ model) = hx ''EFBC88'' @ '':'' @ hx ''EFBC89''"
  unfolding model_in_brackets_def
  by (subst model_group_here) (simp_all only: model_after_invalid_id option.case list.distinct not_False_eq_True)

text \<open>
  A message in which a number begins with 429 after a space, such as a count of tokens, is taken for a
  rate limit unless it is already taken for a lack of balance.
\<close>

theorem token_count_reported_as_rate_limit:
  assumes "from_brace (p @ '' 429'' @ s) = []" and "js_trim (p @ '' 429'' @ s) = p @ '' 429'' @ s"
    and "\<not> insufficient_balance_text (js_lower (p @ '' 429'' @ s)) (p @ '' 429'' @ s)"
  shows "to_friendly_ai_error t ti (ThrownError (p @ '' 429'' @ s)) = t ''ai.client.errors.rateLimited''"
  using assms rate_limited_429 [of p s "p @ '' 429'' @ s"]
  by (simp only: to_friendly_ai_error_def Let_def pick_error_text.simps unwrap_plain if_True if_False append_is_Nil_conv list.distinct simp_thms)

theorem token_count_reported_as_rate_limit_witness:
  "to_friendly_ai_error t ti (ThrownError
     (''maximum context length exceeded:'' @ '' 429'' @ ''7''))
   = t ''ai.client.errors.rateLimited''"
proof (rule token_count_reported_as_rate_limit)
qed code_simp+

end
