(* ===== verification/AiClient.thy ===== *)
theory AiClient
  imports AiError
begin

text \<open>
  The client of the AI service (\<open>client/ai.ts\<close>): the requests it builds, the views it makes of the
  answers, and the streamed chat.  The service is outside the program: what a call returns or throws
  is an argument (\<open>reply\<close>).  Dates are milliseconds; \<open>td\<close> is \<open>timestampDate\<close> of the protobuf library
  and \<open>now\<close> what \<open>new Date()\<close> gives where the code asks for it.  A field of an answer that may be
  missing is an option.
\<close>

type_synonym 'a reply = "thrown + 'a"

definition or_empty :: "string option \<Rightarrow> string" where
  "or_empty v = (case v of None \<Rightarrow> [] | Some s \<Rightarrow> s)"

definition or_text :: "string option \<Rightarrow> string \<Rightarrow> string" where
  "or_text v d = (if or_empty v = [] then d else or_empty v)"

definition or_zero :: "nat option \<Rightarrow> nat" where
  "or_zero v = (case v of None \<Rightarrow> 0 | Some n \<Rightarrow> n)"

definition or_list :: "'a list option \<Rightarrow> 'a list" where
  "or_list v = (case v of None \<Rightarrow> [] | Some xs \<Rightarrow> xs)"

fun map_reply :: "('a \<Rightarrow> 'b) \<Rightarrow> 'a reply \<Rightarrow> 'b reply" where
  "map_reply f (Inl e) = Inl e"
| "map_reply f (Inr v) = Inr (f v)"

definition proto_date :: "('ts \<Rightarrow> int) \<Rightarrow> int \<Rightarrow> 'ts option \<Rightarrow> int" where
  "proto_date td now ts = (case ts of None \<Rightarrow> now | Some d \<Rightarrow> td d)"

subsection \<open>Roles\<close>

datatype chat_role = RoleUser | RoleAssistant | RoleSystem

fun role_name :: "chat_role \<Rightarrow> string" where
  "role_name RoleUser = ''user''"
| "role_name RoleAssistant = ''assistant''"
| "role_name RoleSystem = ''system''"

definition to_conversation_role :: "string \<Rightarrow> chat_role" where
  "to_conversation_role role =
     (if role = ''user'' then RoleUser
      else if role = ''assistant'' then RoleAssistant
      else if role = ''system'' then RoleSystem else RoleUser)"

subsection \<open>Agents\<close>

record agent_def =
  agd_id :: "string option"
  agd_agent_key :: "string option"
  agd_type :: "string option"
  agd_name :: "string option"
  agd_identity :: "string option"
  agd_input_hint :: "string option"
  agd_enabled :: "bool option"
  agd_position :: "jsnum option"
  agd_provider_id :: "string option"
  agd_model_override :: "string option"

record agent_view =
  agv_id :: string
  agv_agent_key :: string
  agv_type :: string
  agv_name :: string
  agv_identity :: string
  agv_input_hint :: string
  agv_enabled :: bool
  agv_position :: jsnum
  agv_provider_id :: string
  agv_model_override :: string

definition to_agent_view :: "agent_def \<Rightarrow> agent_view" where
  "to_agent_view a =
     \<lparr>agv_id = or_empty (agd_id a), agv_agent_key = or_empty (agd_agent_key a),
      agv_type = or_empty (agd_type a), agv_name = or_empty (agd_name a),
      agv_identity = or_empty (agd_identity a), agv_input_hint = or_empty (agd_input_hint a),
      agv_enabled = (agd_enabled a = Some True),
      agv_position = (case agd_position a of Some n \<Rightarrow> n | None \<Rightarrow> Fin 0),
      agv_provider_id = or_empty (agd_provider_id a),
      agv_model_override = or_empty (agd_model_override a)\<rparr>"

definition view_to_agent_definition :: "agent_view \<Rightarrow> agent_def" where
  "view_to_agent_definition a =
     \<lparr>agd_id = Some (agv_id a), agd_agent_key = Some (agv_agent_key a), agd_type = Some (agv_type a),
      agd_name = Some (agv_name a), agd_identity = Some (agv_identity a),
      agd_input_hint = Some (agv_input_hint a), agd_enabled = Some (agv_enabled a),
      agd_position = Some (agv_position a), agd_provider_id = Some (agv_provider_id a),
      agd_model_override = Some (agv_model_override a)\<rparr>"

definition list_agents :: "agent_def list option reply \<Rightarrow> agent_view list reply" where
  "list_agents r = map_reply (\<lambda>agents. List.map to_agent_view (or_list agents)) r"

text \<open>\<open>setAgents\<close> with the service as a function of the request.\<close>

definition set_agents_call ::
    "(agent_def list \<Rightarrow> agent_def list option reply) \<Rightarrow> agent_view list \<Rightarrow> agent_view list reply" where
  "set_agents_call service agents = list_agents (service (List.map view_to_agent_definition agents))"

subsection \<open>The primary model\<close>

record primary_model =
  pm_provider_id :: "string option"
  pm_model :: "string option"

definition primary_view :: "primary_model \<Rightarrow> string \<times> string" where
  "primary_view r = (or_empty (pm_provider_id r), or_empty (pm_model r))"

definition get_primary :: "primary_model reply \<Rightarrow> (string \<times> string) reply" where
  "get_primary r = map_reply primary_view r"

definition set_primary ::
    "(string \<times> string \<Rightarrow> primary_model reply) \<Rightarrow> string \<times> string \<Rightarrow> (string \<times> string) reply" where
  "set_primary service input = map_reply primary_view (service input)"

subsection \<open>Conversations\<close>

record 'ts wire_conversation =
  wc_id :: string
  wc_title :: "string option"
  wc_message_count :: "nat option"
  wc_created_at :: "'ts option"
  wc_updated_at :: "'ts option"

record conversation_summary =
  cs_id :: string
  cs_title :: string
  cs_message_count :: nat
  cs_created_at :: int
  cs_updated_at :: int

record 'ts wire_message =
  wm_id :: string
  wm_role :: string
  wm_content :: string
  wm_created_at :: "'ts option"

record conversation_message =
  cm_id :: string
  cm_role :: chat_role
  cm_content :: string
  cm_created_at :: int

record conversation_detail = conversation_summary +
  cd_messages :: "conversation_message list"

definition map_conversation_summary ::
    "('ts \<Rightarrow> int) \<Rightarrow> int \<Rightarrow> 'ts wire_conversation \<Rightarrow> conversation_summary" where
  "map_conversation_summary td now c =
     \<lparr>cs_id = wc_id c, cs_title = or_text (wc_title c) ''Untitled'',
      cs_message_count = or_zero (wc_message_count c),
      cs_created_at = proto_date td now (wc_created_at c),
      cs_updated_at = proto_date td now (wc_updated_at c)\<rparr>"

definition list_conversations ::
    "('ts \<Rightarrow> int) \<Rightarrow> int \<Rightarrow> 'ts wire_conversation list option reply \<Rightarrow> conversation_summary list reply" where
  "list_conversations td now r =
     map_reply (\<lambda>cs. List.map (map_conversation_summary td now) (or_list cs)) r"

definition map_conversation_message ::
    "('ts \<Rightarrow> int) \<Rightarrow> int \<Rightarrow> 'ts wire_message \<Rightarrow> conversation_message" where
  "map_conversation_message td now m =
     \<lparr>cm_id = wm_id m, cm_role = to_conversation_role (wm_role m), cm_content = wm_content m,
      cm_created_at = proto_date td now (wm_created_at m)\<rparr>"

text \<open>The answer of \<open>getConversation\<close>: the conversation, if there is one, and its messages.\<close>

definition get_conversation ::
    "('ts \<Rightarrow> int) \<Rightarrow> int \<Rightarrow> string \<Rightarrow>
     ('ts wire_conversation option \<times> 'ts wire_message list option) reply \<Rightarrow> conversation_detail reply" where
  "get_conversation td now cid r =
     map_reply (\<lambda>(conv, msgs).
       let base = (case conv of
             Some c \<Rightarrow> map_conversation_summary td now c
           | None \<Rightarrow> \<lparr>cs_id = cid, cs_title = [], cs_message_count = 0, cs_created_at = now,
                      cs_updated_at = now\<rparr>)
       in \<lparr>cs_id = (case conv of Some c \<Rightarrow> if wc_id c = [] then cid else wc_id c | None \<Rightarrow> cid),
           cs_title = cs_title base, cs_message_count = cs_message_count base,
           cs_created_at = cs_created_at base, cs_updated_at = cs_updated_at base,
           cd_messages = List.map (map_conversation_message td now) (or_list msgs)\<rparr>) r"

definition create_conversation_title :: "string option \<Rightarrow> string" where
  "create_conversation_title title = or_text title ''New conversation''"

definition create_conversation ::
    "('ts \<Rightarrow> int) \<Rightarrow> int \<Rightarrow> 'ts wire_conversation option reply \<Rightarrow> conversation_summary reply" where
  "create_conversation td now r =
     (case r of
        Inl e \<Rightarrow> Inl e
      | Inr None \<Rightarrow> Inl (ThrownError ''createConversation: empty response'')
      | Inr (Some c) \<Rightarrow> Inr (map_conversation_summary td now c))"

definition success_flag :: "bool option reply \<Rightarrow> bool reply" where
  "success_flag r = map_reply (\<lambda>s. s = Some True) r"

definition delete_conversation_call :: "bool option reply \<Rightarrow> bool reply" where
  "delete_conversation_call r = success_flag r"

definition update_conversation_title :: "bool option reply \<Rightarrow> bool reply" where
  "update_conversation_title r = success_flag r"

subsection \<open>Reports\<close>

record reports_request =
  rr_account_id :: string
  rr_limit :: nat

definition or_default :: "nat \<Rightarrow> nat option \<Rightarrow> nat" where
  "or_default d v = (if or_zero v = 0 then d else or_zero v)"

definition get_reports_request :: "string option \<Rightarrow> nat option \<Rightarrow> reports_request" where
  "get_reports_request account_id limit =
     \<lparr>rr_account_id = or_empty account_id, rr_limit = or_default 10 limit\<rparr>"

record report_request =
  gr_account_id :: string
  gr_report_type :: string
  gr_period :: string

definition generate_report_request :: "string \<Rightarrow> string \<Rightarrow> string \<Rightarrow> report_request" where
  "generate_report_request account_id report_type period =
     \<lparr>gr_account_id = account_id, gr_report_type = report_type, gr_period = period\<rparr>"

subsection \<open>Chat\<close>

record chat_request =
  cr_message :: string
  cr_context :: string
  cr_account_id :: string
  cr_conversation_id :: string

definition make_chat_request ::
    "string \<Rightarrow> string option \<Rightarrow> string option \<Rightarrow> string option \<Rightarrow> chat_request" where
  "make_chat_request message context' account_id conversation_id =
     \<lparr>cr_message = message, cr_context = or_empty context', cr_account_id = or_empty account_id,
      cr_conversation_id = or_empty conversation_id\<rparr>"

record chat_result =
  ch_message :: string
  ch_suggestions :: "string list"

definition chat_answer :: "(string \<times> string list option) reply \<Rightarrow> chat_result reply" where
  "chat_answer r = map_reply (\<lambda>(m, sg). \<lparr>ch_message = m, ch_suggestions = or_list sg\<rparr>) r"

text \<open>
  The streamed chat: the chunks the stream gives and how it ends, \<open>Some e\<close> where iterating throws.
  The result is what \<open>onDelta\<close> was called with and what the call returns or throws.
\<close>

record chat_chunk =
  ck_delta :: string
  ck_error_message :: string
  ck_done :: bool

fun chat_stream_loop ::
    "string \<Rightarrow> chat_chunk list \<Rightarrow> thrown option \<Rightarrow> string list \<times> chat_result reply" where
  "chat_stream_loop full [] finish =
     ([], case finish of Some e \<Rightarrow> Inl e | None \<Rightarrow> Inr \<lparr>ch_message = full, ch_suggestions = []\<rparr>)"
| "chat_stream_loop full (chunk # rest) finish =
     (let full' = full @ ck_delta chunk;
          deltas = (if ck_delta chunk \<noteq> [] then [ck_delta chunk] else [])
      in if ck_error_message chunk \<noteq> [] then (deltas, Inl (ThrownError (ck_error_message chunk)))
         else if ck_done chunk then (deltas, Inr \<lparr>ch_message = full', ch_suggestions = []\<rparr>)
         else (case chat_stream_loop full' rest finish of (ds, r) \<Rightarrow> (deltas @ ds, r)))"

definition chat_streaming :: "chat_chunk list \<Rightarrow> thrown option \<Rightarrow> string list \<times> chat_result reply" where
  "chat_streaming chunks finish = chat_stream_loop [] chunks finish"

subsection \<open>Workflows\<close>

record 'ts wire_workflow_run =
  wr_id :: string
  wr_title :: "string option"
  wr_status :: "string option"
  wr_created_at :: "'ts option"
  wr_updated_at :: "'ts option"
  wr_step_count :: "nat option"

record workflow_run =
  wf_id :: string
  wf_title :: string
  wf_status :: string
  wf_created_at :: int
  wf_updated_at :: int
  wf_step_count :: nat

record 'ts wire_workflow_step =
  ws_id :: string
  ws_run_id :: string
  ws_key :: string
  ws_title :: "string option"
  ws_status :: "string option"
  ws_input :: "string option"
  ws_output :: "string option"
  ws_error :: "string option"
  ws_duration_ms :: "int option"
  ws_created_at :: "'ts option"

record workflow_step =
  wp_id :: string
  wp_run_id :: string
  wp_key :: string
  wp_title :: string
  wp_status :: string
  wp_input :: string
  wp_output :: string
  wp_error :: string
  wp_duration_ms :: jsnum
  wp_created_at :: int

definition map_workflow_run_summary :: "('ts \<Rightarrow> int) \<Rightarrow> int \<Rightarrow> 'ts wire_workflow_run \<Rightarrow> workflow_run" where
  "map_workflow_run_summary td now r =
     \<lparr>wf_id = wr_id r, wf_title = or_empty (wr_title r), wf_status = or_empty (wr_status r),
      wf_created_at = proto_date td now (wr_created_at r),
      wf_updated_at = proto_date td now (wr_updated_at r), wf_step_count = or_zero (wr_step_count r)\<rparr>"

definition map_workflow_step :: "('ts \<Rightarrow> int) \<Rightarrow> int \<Rightarrow> 'ts wire_workflow_step \<Rightarrow> workflow_step" where
  "map_workflow_step td now s =
     \<lparr>wp_id = ws_id s, wp_run_id = ws_run_id s, wp_key = ws_key s, wp_title = or_empty (ws_title s),
      wp_status = or_empty (ws_status s), wp_input = or_empty (ws_input s),
      wp_output = or_empty (ws_output s), wp_error = or_empty (ws_error s),
      wp_duration_ms = js_number (case ws_duration_ms s of Some i \<Rightarrow> JBig i | None \<Rightarrow> JBig 0),
      wp_created_at = proto_date td now (ws_created_at s)\<rparr>"

text \<open>The title and context of a new run.\<close>

definition create_workflow_run_request :: "string option \<Rightarrow> string option \<Rightarrow> string \<times> string" where
  "create_workflow_run_request title context_json = (or_text title ''New workflow run'', or_empty context_json)"

definition create_workflow_run ::
    "('ts \<Rightarrow> int) \<Rightarrow> int \<Rightarrow> 'ts wire_workflow_run option reply \<Rightarrow> workflow_run reply" where
  "create_workflow_run td now r =
     (case r of
        Inl e \<Rightarrow> Inl e
      | Inr None \<Rightarrow> Inl (ThrownError ''createWorkflowRun: empty run'')
      | Inr (Some w) \<Rightarrow> Inr (map_workflow_run_summary td now w))"

record step_request =
  sq_run_id :: string
  sq_key :: string
  sq_title :: string
  sq_status :: string
  sq_input :: string
  sq_output :: string
  sq_error :: string
  sq_duration_ms :: int

text \<open>\<open>BigInt(n)\<close> throws on numbers that are not integers.\<close>

fun bigint_of :: "jsnum \<Rightarrow> int option" where
  "bigint_of (Fin q) = (if of_int \<lfloor>q\<rfloor> = q then Some \<lfloor>q\<rfloor> else None)"
| "bigint_of _ = None"

definition append_workflow_step_request ::
    "string \<Rightarrow> string \<Rightarrow> string \<Rightarrow> string \<Rightarrow> string option \<Rightarrow> string option \<Rightarrow> string option \<Rightarrow>
     jsnum option \<Rightarrow> step_request option" where
  "append_workflow_step_request run_id key title status input output err duration =
     map_option (\<lambda>d.
       \<lparr>sq_run_id = run_id, sq_key = key, sq_title = title, sq_status = status,
        sq_input = or_empty input, sq_output = or_empty output, sq_error = or_empty err,
        sq_duration_ms = d\<rparr>)
      (bigint_of (case duration of Some n \<Rightarrow> n | None \<Rightarrow> Fin 0))"

definition append_workflow_step ::
    "('ts \<Rightarrow> int) \<Rightarrow> int \<Rightarrow> 'ts wire_workflow_step option reply \<Rightarrow> workflow_step reply" where
  "append_workflow_step td now r =
     (case r of
        Inl e \<Rightarrow> Inl e
      | Inr None \<Rightarrow> Inl (ThrownError ''appendWorkflowStep: empty step'')
      | Inr (Some s) \<Rightarrow> Inr (map_workflow_step td now s))"

definition list_workflow_runs_request :: "nat option \<Rightarrow> nat option \<Rightarrow> nat \<times> nat" where
  "list_workflow_runs_request limit offset = (or_default 20 limit, or_zero offset)"

definition list_workflow_runs ::
    "('ts \<Rightarrow> int) \<Rightarrow> int \<Rightarrow> 'ts wire_workflow_run list option reply \<Rightarrow> workflow_run list reply" where
  "list_workflow_runs td now r =
     map_reply (\<lambda>runs. List.map (map_workflow_run_summary td now) (or_list runs)) r"

record workflow_run_detail =
  wd_run :: workflow_run
  wd_steps :: "workflow_step list"
  wd_context_json :: string

definition get_workflow_run ::
    "('ts \<Rightarrow> int) \<Rightarrow> int \<Rightarrow> string \<Rightarrow>
     ('ts wire_workflow_run option \<times> 'ts wire_workflow_step list option \<times> string option) reply \<Rightarrow>
     workflow_run_detail reply" where
  "get_workflow_run td now rid r =
     map_reply (\<lambda>(run', steps, context_json).
       \<lparr>wd_run = (case run' of
            Some w \<Rightarrow> map_workflow_run_summary td now w
          | None \<Rightarrow> \<lparr>wf_id = rid, wf_title = [], wf_status = [], wf_created_at = now,
                     wf_updated_at = now, wf_step_count = 0\<rparr>),
        wd_steps = List.map (map_workflow_step td now) (or_list steps),
        wd_context_json = or_empty context_json\<rparr>) r"

subsection \<open>Facts\<close>

lemma or_simps [simp]: "or_empty (Some s) = s" "or_empty None = []" "or_list (Some xs) = xs" "or_list None = []"
  by (simp_all add: or_empty_def or_list_def)

lemma to_agent_view_definition: "to_agent_view (view_to_agent_definition v) = v"
  by (simp add: to_agent_view_def view_to_agent_definition_def)

lemma map_agent_views [simp]: "List.map (to_agent_view \<circ> view_to_agent_definition) vs = vs"
  by (simp add: map_idI to_agent_view_definition)

lemma role_of_name: "to_conversation_role (role_name r) = r"
  by (cases r) (simp_all add: to_conversation_role_def)

lemma chat_stream_loop_message:
  "chat_stream_loop full chunks finish = (ds, Inr res) \<Longrightarrow> ch_message res = full @ concat ds"
proof (induction chunks arbitrary: full ds)
  case Nil
  then show ?case by (auto split: option.splits)
next
  case (Cons c cs)
  then show ?case by (fastforce simp: Let_def split: if_splits prod.splits)
qed

lemma chat_stream_loop_deltas_not_empty:
  "[] \<notin> set (fst (chat_stream_loop full chunks finish))"
proof (induction chunks arbitrary: full)
  case (Cons c cs)
  show ?case
    using Cons.IH [of "full @ ck_delta c"]
    by (cases "chat_stream_loop (full @ ck_delta c) cs finish") (auto simp: Let_def)
qed simp

text \<open>\<open>setAgents\<close> with a service that stores what it is sent returns the agents it was given.\<close>

theorem agents_saved_roundtrip:
  "set_agents_call (\<lambda>defs. Inr (Some defs)) agents = Inr agents"
  by (simp add: set_agents_call_def list_agents_def)

text \<open>
  A streamed chat that returns returns the concatenation of the pieces it passed on, and it passed
  on no empty piece.
\<close>

theorem chat_streaming_concatenates:
  assumes "chat_streaming chunks finish = (deltas, Inr res)"
  shows "ch_message res = concat deltas \<and> [] \<notin> set deltas"
  using assms chat_stream_loop_message [of "[]" chunks finish deltas res]
    chat_stream_loop_deltas_not_empty [of "[]" chunks finish]
  by (simp add: chat_streaming_def)

theorem chat_streaming_concatenates_witness:
  "ch_message \<lparr>ch_message = ''ab'', ch_suggestions = []\<rparr> = concat [''a'', ''b''] \<and> [] \<notin> set [''a'', ''b'']"
proof (rule chat_streaming_concatenates)
  show "chat_streaming [\<lparr>ck_delta = ''a'', ck_error_message = [], ck_done = False\<rparr>,
        \<lparr>ck_delta = [], ck_error_message = [], ck_done = False\<rparr>,
        \<lparr>ck_delta = ''b'', ck_error_message = [], ck_done = True\<rparr>,
        \<lparr>ck_delta = ''c'', ck_error_message = [], ck_done = True\<rparr>] None
      = ([''a'', ''b''], Inr \<lparr>ch_message = ''ab'', ch_suggestions = []\<rparr>)"
    by (simp add: chat_streaming_def)
qed

text \<open>The messages of a conversation that was read have one of the three roles the client knows,
  the known names read as themselves and anything else as the user.\<close>

theorem conversation_roles:
  "to_conversation_role (role_name r) = r \<and>
   (if s \<in> {''user'', ''assistant'', ''system''} then role_name (to_conversation_role s) = s
    else to_conversation_role s = RoleUser)"
  using role_of_name by (auto simp: to_conversation_role_def)

end
