(* ===== verification/AiStore.thy ===== *)
theory AiStore
  imports AiClient Effects TaskTable
begin

text \<open>
  The store of the AI chat (\<open>stores/aiStore.ts\<close>).  Its operations wait for the AI service and for one
  another only through the store, so an operation is a task that is resumed by the answers to its
  requests: \<open>ai_tasks\<close> holds where each running operation is suspended, with the local variables it
  still needs.  A step starts an operation or delivers an answer, and gives the requests and messages
  it causes and the value that \<open>sendMessageAndGetResponse\<close> returns.
\<close>

subsection \<open>State\<close>

record ai_message =
  am_id :: string
  am_role :: chat_role
  am_content :: string
  am_timestamp :: int
  am_loading :: bool

type_synonym conversation = conversation_summary

definition to_conv :: "conversation_summary \<Rightarrow> conversation" where
  "to_conv c = \<lparr>cs_id = cs_id c, cs_title = cs_title c, cs_message_count = cs_message_count c,
     cs_created_at = cs_created_at c, cs_updated_at = cs_updated_at c\<rparr>"

text \<open>\<open>sendMessage\<close> and \<open>sendMessageAndGetResponse\<close> differ in what they return.\<close>

datatype send_kind = PlainSend | SendForResponse

record send_call =
  sc_kind :: send_kind
  sc_content :: string
  sc_account :: "string option"
  sc_ready :: bool
  sc_conversation :: string
  sc_message_id :: string

datatype ai_task =
    TaskLoad
  | TaskNew
  | TaskSelect string
  | TaskDelete string
  | TaskReports
  | TaskGenerate
  | TaskCreating send_kind string "string option"
  | TaskStreaming send_call string
  | TaskFallback send_call
  | TaskListing send_call string

record ai_state =
  ai_conversations :: "conversation list"
  ai_active :: string
  ai_messages :: "ai_message list"
  ai_loading :: bool
  ai_sending :: bool
  ai_loaded :: bool
  ai_prefs :: "string option"
  ai_tasks :: "(nat \<times> ai_task) list"
  ai_next :: nat

definition ai_init :: "string option \<Rightarrow> ai_state" where
  "ai_init prefs = \<lparr>ai_conversations = [], ai_active = [], ai_messages = [], ai_loading = False,
     ai_sending = False, ai_loaded = False, ai_prefs = prefs, ai_tasks = [], ai_next = 0\<rparr>"

text \<open>
  The surroundings: the translation functions, the language, and whether the local storage can be
  used (reading and writing it are in \<open>try\<close> blocks).
\<close>

record ai_env =
  ae_t :: "string \<Rightarrow> string"
  ae_ti :: "string \<Rightarrow> (string \<times> string) list \<Rightarrow> string"
  ae_language :: string
  ae_storage :: bool

datatype ai_request =
    ReqList
  | ReqCreate string
  | ReqGet string
  | ReqDelete string
  | ReqChatStream chat_request
  | ReqChat chat_request
  | ReqReports reports_request
  | ReqReport report_request

datatype ai_effect =
    AiToast toast
  | AiRequest ai_request
  | AiReturn string
  | AiReturnReports "jv list"
  | AiReturnReport jv

subsection \<open>Preferences and context\<close>

definition load_user_prefs :: "ai_env \<Rightarrow> ai_state \<Rightarrow> string" where
  "load_user_prefs env s = (if ae_storage env then or_empty (ai_prefs s) else [])"

definition save_user_prefs :: "ai_env \<Rightarrow> string \<Rightarrow> ai_state \<Rightarrow> ai_state" where
  "save_user_prefs env next' s = (if ae_storage env then s\<lparr>ai_prefs := Some next'\<rparr> else s)"

definition strategy_validation_rules_text :: "ai_env \<Rightarrow> string" where
  "strategy_validation_rules_text env = js_join newline
     [ae_t env ''ai.store.strategyRules.title'', [],
      ae_t env ''ai.store.strategyRules.rules.noImport'',
      ae_t env ''ai.store.strategyRules.rules.noGlobal'',
      ae_t env ''ai.store.strategyRules.rules.noDunderAccess'',
      ae_t env ''ai.store.strategyRules.rules.noDunderName'',
      ae_t env ''ai.store.strategyRules.rules.noDangerousCalls'',
      ae_t env ''ai.store.strategyRules.rules.runSignature'',
      ae_t env ''ai.store.strategyRules.rules.mustDefineEntry'', [],
      ae_t env ''ai.store.strategyRules.allowedGlobals'']"

definition build_chat_context :: "ai_env \<Rightarrow> ai_state \<Rightarrow> string" where
  "build_chat_context env s =
     (let prefs = js_trim (load_user_prefs env s)
      in js_join newline
          ([js_trim (''Locale: '' @ ae_language env), [], strategy_validation_rules_text env] @
           (if prefs \<noteq> [] then [[], ae_t env ''ai.store.context.userPrefsTitle'', prefs] else []) @
           [[], ae_t env ''ai.store.context.outputTitle'',
            ae_t env ''ai.store.context.outputRules.wrapPython'',
            ae_t env ''ai.store.context.outputRules.validateFirst'',
            ae_t env ''ai.store.context.outputRules.noImport'']))"

subsection \<open>Tasks\<close>

definition start_task :: "ai_task \<Rightarrow> ai_state \<Rightarrow> ai_state" where
  "start_task task s = s\<lparr>ai_tasks := ai_tasks s @ [(ai_next s, task)], ai_next := Suc (ai_next s)\<rparr>"

definition end_task :: "nat \<Rightarrow> ai_state \<Rightarrow> ai_state" where
  "end_task i s = s\<lparr>ai_tasks := AList.delete i (ai_tasks s)\<rparr>"

definition move_task :: "nat \<Rightarrow> ai_task \<Rightarrow> ai_state \<Rightarrow> ai_state" where
  "move_task i task s = s\<lparr>ai_tasks := AList.update i task (ai_tasks s)\<rparr>"

subsection \<open>Sending\<close>

definition send_return :: "send_kind \<Rightarrow> string \<Rightarrow> ai_effect list" where
  "send_return kind v = (case kind of PlainSend \<Rightarrow> [] | SendForResponse \<Rightarrow> [AiReturn v])"

definition set_content :: "string \<Rightarrow> string \<Rightarrow> bool \<Rightarrow> ai_message list \<Rightarrow> ai_message list" where
  "set_content mid content loading ms =
     update_where (\<lambda>m. am_id m = mid) (\<lambda>m. m\<lparr>am_content := content, am_loading := loading\<rparr>) ms"

definition chat_request_of :: "ai_env \<Rightarrow> send_call \<Rightarrow> ai_state \<Rightarrow> chat_request" where
  "chat_request_of env c s =
     make_chat_request (sc_content c) (Some (build_chat_context env s)) (sc_account c)
       (Some (if sc_ready c then sc_conversation c else []))"

definition time_id :: "string \<Rightarrow> int \<Rightarrow> string" where
  "time_id pre now = pre @ int_str now"

text \<open>From reading the messages to the request of the streamed chat.\<close>

definition send_messages ::
    "ai_env \<Rightarrow> int \<Rightarrow> nat \<Rightarrow> send_kind \<Rightarrow> string \<Rightarrow> string option \<Rightarrow> bool \<Rightarrow> string \<Rightarrow> ai_state \<Rightarrow>
     ai_state \<times> ai_effect list" where
  "send_messages env now i kind content account ready conv s =
     (let user_message = \<lparr>am_id = time_id ''user-'' now, am_role = RoleUser, am_content = content,
            am_timestamp = now, am_loading = False\<rparr>;
          ai_message = \<lparr>am_id = time_id ''ai-'' now, am_role = RoleAssistant, am_content = [],
            am_timestamp = now, am_loading = True\<rparr>;
          call = \<lparr>sc_kind = kind, sc_content = content, sc_account = account, sc_ready = ready,
            sc_conversation = conv, sc_message_id = time_id ''ai-'' now\<rparr>;
          s = s\<lparr>ai_messages := ai_messages s @ [user_message, ai_message], ai_sending := True\<rparr>
      in (move_task i (TaskStreaming call []) s, [AiRequest (ReqChatStream (chat_request_of env call s))]))"

definition add_conversation :: "conversation \<Rightarrow> ai_state \<Rightarrow> ai_state" where
  "add_conversation conv s = s\<lparr>ai_conversations := conv # ai_conversations s, ai_active := cs_id conv,
     ai_messages := []\<rparr>"

definition send_begin ::
    "ai_env \<Rightarrow> int \<Rightarrow> send_kind \<Rightarrow> string \<Rightarrow> string option \<Rightarrow> ai_state \<Rightarrow> ai_state \<times> ai_effect list" where
  "send_begin env now kind content account s =
     (let trimmed = js_trim content; pre = ae_t env ''ai.store.prefs.rememberPrefix''
      in if ai_sending s then (s, send_return kind [])
         else if js_starts trimmed pre then
           (save_user_prefs env (js_trim (drop (length pre) trimmed)) s,
            AiToast (ToastSuccess (ae_t env ''ai.store.prefs.rememberedToast'')) #
            send_return kind (ae_t env ''ai.store.prefs.savedReply''))
         else if ai_active s = [] then
           (start_task (TaskCreating kind content account) s,
            [AiRequest (ReqCreate (ae_t env ''ai.store.conversations.newConversationTitle''))])
         else send_messages env now (ai_next s) kind content account True (ai_active s)
                (start_task (TaskCreating kind content account) s))"

definition conversation_created ::
    "ai_env \<Rightarrow> int \<Rightarrow> nat \<Rightarrow> send_kind \<Rightarrow> string \<Rightarrow> string option \<Rightarrow> conversation_summary reply \<Rightarrow>
     ai_state \<Rightarrow> ai_state \<times> ai_effect list" where
  "conversation_created env now i kind content account r s =
     (case r of
        Inr c \<Rightarrow> send_messages env now i kind content account True (cs_id c) (add_conversation (to_conv c) s)
      | Inl _ \<Rightarrow> send_messages env now i kind content account False [] s)"

definition stream_delta :: "nat \<Rightarrow> send_call \<Rightarrow> string \<Rightarrow> string \<Rightarrow> ai_state \<Rightarrow> ai_state" where
  "stream_delta i c acc delta s =
     move_task i (TaskStreaming c (acc @ delta))
       (s\<lparr>ai_messages := set_content (sc_message_id c) (acc @ delta) True (ai_messages s)\<rparr>)"

definition send_done :: "nat \<Rightarrow> ai_state \<Rightarrow> ai_state" where
  "send_done i s = (end_task i s)\<lparr>ai_sending := False\<rparr>"

definition send_failed :: "ai_env \<Rightarrow> nat \<Rightarrow> send_call \<Rightarrow> thrown \<Rightarrow> ai_state \<Rightarrow> ai_state \<times> ai_effect list" where
  "send_failed env i c e s =
     (let friendly = to_friendly_ai_error (ae_t env) (ae_ti env) e
      in (send_done i (s\<lparr>ai_messages := set_content (sc_message_id c)
            (ae_t env ''ai.store.messages.sendFailedInline'') False (ai_messages s)\<rparr>),
          AiToast (ToastError (if friendly \<noteq> [] then friendly
                               else ae_t env ''ai.store.messages.sendFailedToast'')) #
          send_return (sc_kind c) []))"

definition got_response :: "nat \<Rightarrow> send_call \<Rightarrow> string \<Rightarrow> ai_state \<Rightarrow> ai_state \<times> ai_effect list" where
  "got_response i c response s =
     (let s = s\<lparr>ai_messages := set_content (sc_message_id c) response False (ai_messages s)\<rparr>
      in if sc_ready c then (move_task i (TaskListing c response) s, [AiRequest ReqList])
         else (send_done i s, send_return (sc_kind c) response))"

definition ai_stream_ended ::
    "ai_env \<Rightarrow> nat \<Rightarrow> send_call \<Rightarrow> chat_result reply \<Rightarrow> ai_state \<Rightarrow> ai_state \<times> ai_effect list" where
  "ai_stream_ended env i c r s =
     (case r of
        Inr res \<Rightarrow> got_response i c (ch_message res) s
      | Inl _ \<Rightarrow> (move_task i (TaskFallback c) s, [AiRequest (ReqChat (chat_request_of env c s))]))"

definition fallback_answered ::
    "ai_env \<Rightarrow> nat \<Rightarrow> send_call \<Rightarrow> chat_result reply \<Rightarrow> ai_state \<Rightarrow> ai_state \<times> ai_effect list" where
  "fallback_answered env i c r s =
     (case r of
        Inr res \<Rightarrow> got_response i c (ch_message res) s
      | Inl e \<Rightarrow> send_failed env i c e s)"

definition send_listed ::
    "ai_env \<Rightarrow> nat \<Rightarrow> send_call \<Rightarrow> string \<Rightarrow> conversation_summary list reply \<Rightarrow> ai_state \<Rightarrow>
     ai_state \<times> ai_effect list" where
  "send_listed env i c response r s =
     (case r of
        Inr l \<Rightarrow> (send_done i (s\<lparr>ai_conversations := List.map to_conv l\<rparr>), send_return (sc_kind c) response)
      | Inl e \<Rightarrow> send_failed env i c e s)"

subsection \<open>Conversations\<close>

definition load_conversations :: "ai_state \<Rightarrow> ai_state \<times> ai_effect list" where
  "load_conversations s = (start_task TaskLoad s, [AiRequest ReqList])"

definition conversations_loaded :: "nat \<Rightarrow> conversation_summary list reply \<Rightarrow> ai_state \<Rightarrow> ai_state" where
  "conversations_loaded i r s =
     (case r of
        Inr l \<Rightarrow> (end_task i s)\<lparr>ai_conversations := List.map to_conv l, ai_loaded := True\<rparr>
      | Inl _ \<Rightarrow> (end_task i s)\<lparr>ai_loaded := True\<rparr>)"

definition new_conversation :: "ai_env \<Rightarrow> ai_state \<Rightarrow> ai_state \<times> ai_effect list" where
  "new_conversation env s =
     (start_task TaskNew s, [AiRequest (ReqCreate (ae_t env ''ai.store.conversations.newConversationTitle''))])"

definition new_conversation_answered ::
    "ai_env \<Rightarrow> nat \<Rightarrow> conversation_summary reply \<Rightarrow> ai_state \<Rightarrow> ai_state \<times> ai_effect list" where
  "new_conversation_answered env i r s =
     (case r of
        Inr c \<Rightarrow> (add_conversation (to_conv c) (end_task i s), [])
      | Inl _ \<Rightarrow> (end_task i s, [AiToast (ToastError (ae_t env ''ai.store.messages.createConversationFailed''))]))"

definition select_conversation :: "string \<Rightarrow> ai_state \<Rightarrow> ai_state \<times> ai_effect list" where
  "select_conversation cid s =
     (start_task (TaskSelect cid) (s\<lparr>ai_active := cid, ai_messages := [], ai_loading := True\<rparr>),
      [AiRequest (ReqGet cid)])"

definition message_of_detail :: "conversation_message \<Rightarrow> ai_message" where
  "message_of_detail m = \<lparr>am_id = cm_id m, am_role = cm_role m, am_content = cm_content m,
     am_timestamp = cm_created_at m, am_loading = False\<rparr>"

definition conversation_selected ::
    "ai_env \<Rightarrow> nat \<Rightarrow> conversation_detail reply \<Rightarrow> ai_state \<Rightarrow> ai_state \<times> ai_effect list" where
  "conversation_selected env i r s =
     (case r of
        Inr d \<Rightarrow> ((end_task i s)\<lparr>ai_messages := List.map message_of_detail (cd_messages d), ai_loading := False\<rparr>, [])
      | Inl _ \<Rightarrow> ((end_task i s)\<lparr>ai_loading := False\<rparr>,
                 [AiToast (ToastError (ae_t env ''ai.store.messages.loadConversationFailed''))]))"

definition delete_conversation :: "string \<Rightarrow> ai_state \<Rightarrow> ai_state \<times> ai_effect list" where
  "delete_conversation cid s = (start_task (TaskDelete cid) s, [AiRequest (ReqDelete cid)])"

text \<open>The boolean that the call returns is not looked at.\<close>

definition conversation_deleted ::
    "ai_env \<Rightarrow> nat \<Rightarrow> string \<Rightarrow> bool reply \<Rightarrow> ai_state \<Rightarrow> ai_state \<times> ai_effect list" where
  "conversation_deleted env i cid r s =
     (case r of
        Inl _ \<Rightarrow> (end_task i s, [AiToast (ToastError (ae_t env ''ai.store.messages.deleteConversationFailed''))])
      | Inr _ \<Rightarrow>
          (let s = end_task i s; cur = List.filter (\<lambda>c. cs_id c \<noteq> cid) (ai_conversations s)
           in if ai_active s = cid then
                (case cur of
                   [] \<Rightarrow> (s\<lparr>ai_conversations := [], ai_active := [], ai_messages := []\<rparr>, [])
                 | c # _ \<Rightarrow> select_conversation (cs_id c)
                     (s\<lparr>ai_conversations := cur, ai_active := cs_id c, ai_messages := []\<rparr>))
              else (s\<lparr>ai_conversations := cur\<rparr>, [])))"

definition clear_messages :: "ai_env \<Rightarrow> ai_state \<Rightarrow> ai_state \<times> ai_effect list" where
  "clear_messages env s =
     (s\<lparr>ai_messages := []\<rparr>, [AiToast (ToastSuccess (ae_t env ''ai.store.messages.clearedLocalOnly''))])"

subsection \<open>Reports\<close>

definition get_reports :: "string option \<Rightarrow> ai_state \<Rightarrow> ai_state \<times> ai_effect list" where
  "get_reports account s =
     (start_task TaskReports s, [AiRequest (ReqReports (get_reports_request account None))])"

definition reports_answered ::
    "ai_env \<Rightarrow> nat \<Rightarrow> jv list reply \<Rightarrow> ai_state \<Rightarrow> ai_state \<times> ai_effect list" where
  "reports_answered env i r s =
     (case r of
        Inr l \<Rightarrow> (end_task i s, [AiReturnReports l])
      | Inl _ \<Rightarrow> (end_task i s, [AiToast (ToastError (ae_t env ''ai.store.messages.getReportsFailed'')),
                              AiReturnReports []]))"

definition generate_report :: "string \<Rightarrow> string \<Rightarrow> string \<Rightarrow> ai_state \<Rightarrow> ai_state \<times> ai_effect list" where
  "generate_report account report_type period s =
     (start_task TaskGenerate s, [AiRequest (ReqReport (generate_report_request account report_type period))])"

definition report_answered ::
    "ai_env \<Rightarrow> nat \<Rightarrow> jv reply \<Rightarrow> ai_state \<Rightarrow> ai_state \<times> ai_effect list" where
  "report_answered env i r s =
     (case r of
        Inr v \<Rightarrow> (end_task i s, [AiToast (ToastSuccess (ae_t env ''ai.store.messages.generateReportSuccess'')),
                              AiReturnReport v])
      | Inl _ \<Rightarrow> (end_task i s, [AiToast (ToastError (ae_t env ''ai.store.messages.generateReportFailed'')),
                              AiReturnReport JNull]))"

subsection \<open>Steps\<close>

datatype ai_answer =
    AnsConversations "conversation_summary list reply"
  | AnsConversation "conversation_summary reply"
  | AnsDetail "conversation_detail reply"
  | AnsDeleted "bool reply"
  | AnsDelta string
  | AnsChat "chat_result reply"
  | AnsReports "jv list reply"
  | AnsReport "jv reply"

datatype ai_action =
    AiLoad
  | AiSend int send_kind string "string option"
  | AiNew
  | AiSelect string
  | AiDelete string
  | AiClear
  | AiGetReports "string option"
  | AiGenerate string string string
  | AiSetLoading bool
  | AiAnswer int nat ai_answer

text \<open>An answer resumes the task that waits for it; a task that waits for something else is not resumed.\<close>

definition ai_resume ::
    "ai_env \<Rightarrow> int \<Rightarrow> nat \<Rightarrow> ai_task \<Rightarrow> ai_answer \<Rightarrow> ai_state \<Rightarrow> ai_state \<times> ai_effect list" where
  "ai_resume env now i task a s =
     (case (task, a) of
        (TaskLoad, AnsConversations r) \<Rightarrow> (conversations_loaded i r s, [])
      | (TaskNew, AnsConversation r) \<Rightarrow> new_conversation_answered env i r s
      | (TaskSelect cid, AnsDetail r) \<Rightarrow> conversation_selected env i r s
      | (TaskDelete cid, AnsDeleted r) \<Rightarrow> conversation_deleted env i cid r s
      | (TaskReports, AnsReports r) \<Rightarrow> reports_answered env i r s
      | (TaskGenerate, AnsReport r) \<Rightarrow> report_answered env i r s
      | (TaskCreating kind content account, AnsConversation r) \<Rightarrow>
          conversation_created env now i kind content account r s
      | (TaskStreaming c acc, AnsDelta d) \<Rightarrow> (stream_delta i c acc d s, [])
      | (TaskStreaming c acc, AnsChat r) \<Rightarrow> ai_stream_ended env i c r s
      | (TaskFallback c, AnsChat r) \<Rightarrow> fallback_answered env i c r s
      | (TaskListing c response, AnsConversations r) \<Rightarrow> send_listed env i c response r s
      | _ \<Rightarrow> (s, []))"

fun ai_step :: "ai_env \<Rightarrow> ai_state \<Rightarrow> ai_action \<Rightarrow> ai_state \<times> ai_effect list" where
  "ai_step env s AiLoad = load_conversations s"
| "ai_step env s (AiSend now kind content account) = send_begin env now kind content account s"
| "ai_step env s AiNew = new_conversation env s"
| "ai_step env s (AiSelect cid) = select_conversation cid s"
| "ai_step env s (AiDelete cid) = delete_conversation cid s"
| "ai_step env s AiClear = clear_messages env s"
| "ai_step env s (AiGetReports account) = get_reports account s"
| "ai_step env s (AiGenerate account report_type period) = generate_report account report_type period s"
| "ai_step env s (AiSetLoading b) = (s\<lparr>ai_loading := b\<rparr>, [])"
| "ai_step env s (AiAnswer now i a) =
     (case map_of (ai_tasks s) i of None \<Rightarrow> (s, []) | Some task \<Rightarrow> ai_resume env now i task a s)"

definition ai_next_state :: "ai_env \<Rightarrow> ai_state \<Rightarrow> ai_action \<Rightarrow> ai_state" where
  "ai_next_state env s a = fst (ai_step env s a)"

lemmas ai_defs =
  load_conversations_def conversations_loaded_def new_conversation_def new_conversation_answered_def
  select_conversation_def conversation_selected_def delete_conversation_def conversation_deleted_def
  clear_messages_def get_reports_def reports_answered_def generate_report_def report_answered_def
  send_begin_def conversation_created_def send_messages_def stream_delta_def ai_stream_ended_def
  fallback_answered_def send_listed_def got_response_def send_failed_def send_done_def
  add_conversation_def save_user_prefs_def start_task_def end_task_def move_task_def

subsection \<open>The sending flag\<close>

text \<open>A send that has shown its messages and is not finished.\<close>

fun active_send :: "ai_task \<Rightarrow> bool" where
  "active_send (TaskStreaming _ _) = True"
| "active_send (TaskFallback _) = True"
| "active_send (TaskListing _ _) = True"
| "active_send _ = False"

definition has_active_send :: "ai_state \<Rightarrow> bool" where
  "has_active_send s \<longleftrightarrow> has_entry active_send (ai_tasks s)"

definition fresh_tasks :: "ai_state \<Rightarrow> bool" where
  "fresh_tasks s \<longleftrightarrow> fresh_table (ai_next s) (ai_tasks s)"

definition ai_inv :: "ai_state \<Rightarrow> bool" where
  "ai_inv s \<longleftrightarrow> fresh_tasks s \<and> (ai_sending s \<longrightarrow> has_active_send s)"

lemma fresh_start [simp]: "fresh_tasks s \<Longrightarrow> fresh_tasks (start_task task s)"
  by (simp add: fresh_tasks_def start_task_def)

lemma fresh_end [simp]: "fresh_tasks s \<Longrightarrow> fresh_tasks (end_task i s)"
  by (simp add: fresh_tasks_def end_task_def)

lemma fresh_move [simp]: "fresh_tasks s \<Longrightarrow> i < ai_next s \<Longrightarrow> fresh_tasks (move_task i task s)"
  by (simp add: fresh_tasks_def move_task_def)

lemma active_start [simp]: "has_active_send s \<Longrightarrow> has_active_send (start_task task s)"
  by (simp add: has_active_send_def start_task_def)

lemma active_move [simp]: "fresh_tasks s \<Longrightarrow> active_send task \<Longrightarrow> has_active_send (move_task i task s)"
  by (simp add: has_active_send_def move_task_def fresh_tasks_def has_entry_update)

lemma active_end [simp]:
  "fresh_tasks s \<Longrightarrow> has_active_send s \<Longrightarrow> map_of (ai_tasks s) i = Some task \<Longrightarrow> \<not> active_send task \<Longrightarrow>
    has_active_send (end_task i s)"
  by (simp add: has_active_send_def end_task_def fresh_tasks_def has_entry_delete)

text \<open>What the invariants read of a state.\<close>

lemma task_view [simp]:
  "fresh_tasks (s\<lparr>ai_messages := ms\<rparr>) = fresh_tasks s"
  "fresh_tasks (s\<lparr>ai_conversations := cs\<rparr>) = fresh_tasks s"
  "fresh_tasks (s\<lparr>ai_active := a\<rparr>) = fresh_tasks s"
  "fresh_tasks (s\<lparr>ai_loading := b\<rparr>) = fresh_tasks s"
  "fresh_tasks (s\<lparr>ai_loaded := b\<rparr>) = fresh_tasks s"
  "fresh_tasks (s\<lparr>ai_sending := b\<rparr>) = fresh_tasks s"
  "fresh_tasks (s\<lparr>ai_prefs := q\<rparr>) = fresh_tasks s"
  "has_active_send (s\<lparr>ai_messages := ms\<rparr>) = has_active_send s"
  "has_active_send (s\<lparr>ai_conversations := cs\<rparr>) = has_active_send s"
  "has_active_send (s\<lparr>ai_active := a\<rparr>) = has_active_send s"
  "has_active_send (s\<lparr>ai_loading := b\<rparr>) = has_active_send s"
  "has_active_send (s\<lparr>ai_loaded := b\<rparr>) = has_active_send s"
  "has_active_send (s\<lparr>ai_sending := b\<rparr>) = has_active_send s"
  "has_active_send (s\<lparr>ai_prefs := q\<rparr>) = has_active_send s"
  by (simp_all add: fresh_tasks_def has_active_send_def)

lemma task_fields [simp]:
  "ai_sending (start_task task s) = ai_sending s" "ai_sending (end_task i s) = ai_sending s"
  "ai_sending (move_task i task s) = ai_sending s" "ai_next (end_task i s) = ai_next s"
  "ai_next (move_task i task s) = ai_next s" "ai_next (start_task task s) = Suc (ai_next s)"
  "ai_active (end_task i s) = ai_active s" "ai_conversations (end_task i s) = ai_conversations s"
  "ai_messages (start_task task s) = ai_messages s" "ai_messages (move_task i task s) = ai_messages s"
  "ai_messages (end_task i s) = ai_messages s"
  by (simp_all add: start_task_def end_task_def move_task_def)

lemma send_messages_inv:
  "fresh_tasks s \<Longrightarrow> i < ai_next s \<Longrightarrow> ai_inv (fst (send_messages env now i kind content account ready conv s))"
  by (simp add: ai_inv_def send_messages_def Let_def)

lemma send_done_inv: "fresh_tasks s \<Longrightarrow> ai_inv (send_done i s)"
  by (simp add: ai_inv_def send_done_def)

lemma send_failed_inv: "fresh_tasks s \<Longrightarrow> ai_inv (fst (send_failed env i c e s))"
  by (simp add: send_failed_def Let_def send_done_inv)

lemma got_response_inv:
  "fresh_tasks s \<Longrightarrow> i < ai_next s \<Longrightarrow> ai_inv (fst (got_response i c response s))"
  by (cases "sc_ready c") (simp_all add: got_response_def Let_def send_done_inv ai_inv_def [of "move_task _ _ _"])

lemma ai_inv_view [simp]:
  "ai_inv (s\<lparr>ai_messages := ms\<rparr>) = ai_inv s" "ai_inv (s\<lparr>ai_conversations := cs\<rparr>) = ai_inv s"
  "ai_inv (s\<lparr>ai_active := a\<rparr>) = ai_inv s" "ai_inv (s\<lparr>ai_loading := b\<rparr>) = ai_inv s"
  "ai_inv (s\<lparr>ai_loaded := b\<rparr>) = ai_inv s" "ai_inv (s\<lparr>ai_prefs := q\<rparr>) = ai_inv s"
  by (simp_all add: ai_inv_def)

lemma ai_inv_start [simp]: "ai_inv s \<Longrightarrow> ai_inv (start_task task s)"
  by (simp add: ai_inv_def)

lemma send_begin_inv: "ai_inv s \<Longrightarrow> ai_inv (fst (send_begin env now kind content account s))"
  by (cases "fresh_tasks s") (auto simp: send_begin_def Let_def send_messages_inv save_user_prefs_def, simp add: ai_inv_def)

lemma ai_inv_end:
  "ai_inv s \<Longrightarrow> map_of (ai_tasks s) i = Some task \<Longrightarrow> \<not> active_send task \<Longrightarrow> ai_inv (end_task i s)"
  by (auto simp: ai_inv_def)

lemma resume_inv:
  assumes inv: "ai_inv s" and task: "map_of (ai_tasks s) i = Some task"
  shows "ai_inv (fst (ai_resume env now i task a s))"
proof -
  have fresh: "fresh_tasks s" and lt: "i < ai_next s"
    using inv task by (auto simp: ai_inv_def fresh_tasks_def dest: fresh_table_lt)
  have end': "ai_inv (end_task i s)" if "\<not> active_send task"
    using inv task that by (rule ai_inv_end)
  show ?thesis
  proof (cases "active_send task")
    case False
    then show ?thesis
      using inv fresh lt end'
      by (auto simp: ai_resume_def conversations_loaded_def new_conversation_answered_def add_conversation_def
          conversation_selected_def conversation_deleted_def select_conversation_def Let_def reports_answered_def
          report_answered_def conversation_created_def send_messages_inv
          split: ai_task.splits ai_answer.splits sum.splits list.splits)
  next
    case True
    then show ?thesis
      using inv fresh lt
      by (auto simp: ai_resume_def stream_delta_def ai_stream_ended_def fallback_answered_def send_listed_def
          got_response_inv send_failed_inv send_done_inv ai_inv_def [of "move_task _ _ _"] 
          split: ai_task.splits ai_answer.splits sum.splits)
  qed
qed

lemma ai_inv_step: "ai_inv s \<Longrightarrow> ai_inv (ai_next_state env s a)"
  by (cases a) (auto simp: ai_next_state_def load_conversations_def new_conversation_def select_conversation_def
      delete_conversation_def clear_messages_def get_reports_def generate_report_def send_begin_inv resume_inv
      split: option.splits)

lemma ai_inv_init: "ai_inv (ai_init prefs)"
  by (simp add: ai_inv_def fresh_tasks_def ai_init_def)

interpretation ai_store: machine "ai_init prefs" "ai_next_state env" ai_inv
  by unfold_locales (simp_all add: ai_inv_init ai_inv_step)

text \<open>A store that shows a message in sending has a send in flight: the flag is never left up with nothing to lower it.\<close>

theorem ai_sending_in_flight:
  "\<not> (ai_sending (run (ai_next_state env) (ai_init prefs) es) \<and>
      \<not> has_active_send (run (ai_next_state env) (ai_init prefs) es))"
  using ai_store.inv_run [of env prefs es] by (simp add: ai_inv_def)

end
