(* ===== verification/AiSending.thy ===== *)
theory AiSending
  imports AiStore
begin

text \<open>
  Whole runs of the AI chat store: a send from the question to the refreshed list, its failures, what
  happens when operations overlap.
\<close>

subsection \<open>One send\<close>

lemma fresh_key: "fresh_tasks s \<Longrightarrow> ai_next s \<notin> fst ` set (ai_tasks s)"
  unfolding fresh_tasks_def by (rule fresh_table_key)

text \<open>The state while the newest task is in flight.\<close>

definition with_task :: "ai_state \<Rightarrow> ai_task \<Rightarrow> ai_message list \<Rightarrow> ai_state" where
  "with_task s task ms = s\<lparr>ai_messages := ms, ai_sending := True,
     ai_tasks := ai_tasks s @ [(ai_next s, task)], ai_next := Suc (ai_next s)\<rparr>"

definition user_turn :: "int \<Rightarrow> string \<Rightarrow> ai_message" where
  "user_turn now content = \<lparr>am_id = time_id ''user-'' now, am_role = RoleUser, am_content = content,
     am_timestamp = now, am_loading = False\<rparr>"

definition ai_turn :: "int \<Rightarrow> string \<Rightarrow> bool \<Rightarrow> ai_message" where
  "ai_turn now content loading = \<lparr>am_id = time_id ''ai-'' now, am_role = RoleAssistant, am_content = content,
     am_timestamp = now, am_loading = loading\<rparr>"

definition call_of :: "ai_state \<Rightarrow> int \<Rightarrow> send_kind \<Rightarrow> string \<Rightarrow> string option \<Rightarrow> send_call" where
  "call_of s now kind content account = \<lparr>sc_kind = kind, sc_content = content, sc_account = account,
     sc_ready = True, sc_conversation = ai_active s, sc_message_id = time_id ''ai-'' now\<rparr>"

definition sendable :: "ai_env \<Rightarrow> ai_state \<Rightarrow> int \<Rightarrow> string \<Rightarrow> bool" where
  "sendable env s now content \<longleftrightarrow> fresh_tasks s \<and> \<not> ai_sending s \<and> ai_active s \<noteq> [] \<and>
     \<not> js_starts (js_trim content) (ae_t env ''ai.store.prefs.rememberPrefix'') \<and>
     time_id ''ai-'' now \<notin> am_id ` set (ai_messages s)"

lemma chat_request_with_task [simp]: "chat_request_of env c (with_task s task ms) = chat_request_of env c s"
  by (simp add: chat_request_of_def build_chat_context_def load_user_prefs_def with_task_def Let_def)

lemma send_begins:
  fixes kind account
  assumes "sendable env s now content"
  defines "c \<equiv> call_of s now kind content account"
  shows "send_begin env now kind content account s =
    (with_task s (TaskStreaming c []) (ai_messages s @ [user_turn now content, ai_turn now [] True]),
     [AiRequest (ReqChatStream (chat_request_of env c s))])"
proof -
  have "ai_next s \<notin> fst ` set (ai_tasks s)"
    using assms(1) by (simp add: sendable_def fresh_key)
  then show ?thesis
    using assms(1) unfolding c_def
    by (simp add: sendable_def send_begin_def send_messages_def Let_def with_task_def start_task_def move_task_def
        update_last user_turn_def ai_turn_def call_of_def chat_request_of_def build_chat_context_def load_user_prefs_def)
qed

lemma set_content_turn:
  assumes "time_id ''ai-'' now \<notin> am_id ` set ms"
  shows "set_content (time_id ''ai-'' now) content b (ms @ [user_turn now u, ai_turn now x b']) =
    ms @ [user_turn now u, ai_turn now content b]"
proof -
  have "update_where (\<lambda>m. am_id m = time_id ''ai-'' now) f ms = ms" for f
    using assms by (intro update_where_absent ballI) (metis imageI)
  then show ?thesis
    by (simp add: set_content_def update_where_def user_turn_def ai_turn_def time_id_def)
qed

lemma answer_with_task:
  "fresh_tasks s \<Longrightarrow> ai_step env (with_task s task ms) (AiAnswer t (ai_next s) a) =
    ai_resume env t (ai_next s) task a (with_task s task ms)"
  using map_of_last [OF fresh_key] by (simp add: with_task_def)

lemma move_with_task:
  "fresh_tasks s \<Longrightarrow> move_task (ai_next s) task' ((with_task s task ms)\<lparr>ai_messages := ms'\<rparr>) = with_task s task' ms'"
  "fresh_tasks s \<Longrightarrow> move_task (ai_next s) task' (with_task s task ms) = with_task s task' ms"
  by (simp_all add: with_task_def move_task_def update_last fresh_key)

definition after_send :: "ai_state \<Rightarrow> ai_message list \<Rightarrow> ai_state" where
  "after_send s ms = s\<lparr>ai_messages := ms, ai_next := Suc (ai_next s)\<rparr>"

lemma done_with_task:
  assumes "fresh_tasks s" and "\<not> ai_sending s"
  shows "send_done (ai_next s) ((with_task s task ms)\<lparr>ai_messages := ms'\<rparr>) = after_send s ms'"
    "send_done (ai_next s) ((with_task s task ms)\<lparr>ai_conversations := cs\<rparr>) = (after_send s ms)\<lparr>ai_conversations := cs\<rparr>"
  using assms by (simp_all add: send_done_def end_task_def with_task_def after_send_def delete_last fresh_key)

lemma messages_with_task [simp]: "ai_messages (with_task s task ms) = ms"
  by (simp add: with_task_def)

lemma deltas_run:
  fixes kind account acc
  assumes s: "sendable env s now content"
  defines "ms \<equiv> \<lambda>x b. ai_messages s @ [user_turn now content, ai_turn now x b]" and "c \<equiv> call_of s now kind content account"
  shows "run (ai_next_state env) (with_task s (TaskStreaming c acc) (ms acc True))
      (List.map (\<lambda>d. AiAnswer t (ai_next s) (AnsDelta d)) ds) =
      with_task s (TaskStreaming c (acc @ concat ds)) (ms (acc @ concat ds) True)
    \<and> run_log (ai_next_state env) (\<lambda>s a. snd (ai_step env s a))
      (with_task s (TaskStreaming c acc) (ms acc True))
      (List.map (\<lambda>d. AiAnswer t (ai_next s) (AnsDelta d)) ds) = []"
proof (induction ds arbitrary: acc)
  case Nil
  then show ?case by simp
next
  case (Cons d ds)
  have f: "fresh_tasks s" "time_id ''ai-'' now \<notin> am_id ` set (ai_messages s)"
    using s by (simp_all add: sendable_def)
  have "set_content (sc_message_id c) (acc @ d) True (ms acc True) = ms (acc @ d) True"
    using set_content_turn [OF f(2)] by (simp add: ms_def c_def call_of_def)
  then have "ai_step env (with_task s (TaskStreaming c acc) (ms acc True))
      (AiAnswer t (ai_next s) (AnsDelta d)) =
      (with_task s (TaskStreaming c (acc @ d)) (ms (acc @ d) True), [])"
    by (simp only: answer_with_task [OF f(1)]) (simp add: ai_resume_def stream_delta_def move_with_task [OF f(1)])
  then show ?case
    using Cons.IH [of "acc @ d"] by (simp add: ai_next_state_def del: ai_step.simps)
qed


text \<open>The steps of a send that answers and then refreshes the list.\<close>

lemma stream_answered:
  fixes kind account
  assumes s: "sendable env s now content"
  defines "ms \<equiv> \<lambda>x b. ai_messages s @ [user_turn now content, ai_turn now x b]" and "c \<equiv> call_of s now kind content account"
  shows "ai_step env (with_task s (TaskStreaming c acc) (ms x True))
      (AiAnswer t (ai_next s) (AnsChat (Inr res))) =
      (with_task s (TaskListing c (ch_message res)) (ms (ch_message res) False), [AiRequest ReqList])"
    and "ai_step env (with_task s (TaskStreaming c acc) (ms x True))
      (AiAnswer t (ai_next s) (AnsChat (Inl e))) =
      (with_task s (TaskFallback c) (ms x True), [AiRequest (ReqChat (chat_request_of env c s))])"
    and "ai_step env (with_task s (TaskFallback c) (ms x True))
      (AiAnswer t (ai_next s) (AnsChat (Inr res))) =
      (with_task s (TaskListing c (ch_message res)) (ms (ch_message res) False), [AiRequest ReqList])"
    and "ai_step env (with_task s (TaskListing c reply) (ms x False))
      (AiAnswer t (ai_next s) (AnsConversations (Inr l))) =
      ((after_send s (ms x False))\<lparr>ai_conversations := List.map to_conv l\<rparr>, send_return kind reply)"
    and "snd (ai_step env (with_task s (TaskListing c reply) (ms x False))
      (AiAnswer t (ai_next s) (AnsConversations (Inl e)))) =
      AiToast (ToastError (if to_friendly_ai_error (ae_t env) (ae_ti env) e \<noteq> []
         then to_friendly_ai_error (ae_t env) (ae_ti env) e
         else ae_t env ''ai.store.messages.sendFailedToast'')) # send_return kind []"
    and "fst (ai_step env (with_task s (TaskListing c reply) (ms x False))
      (AiAnswer t (ai_next s) (AnsConversations (Inl e)))) =
      after_send s (ms (ae_t env ''ai.store.messages.sendFailedInline'') False)"
    and "fst (ai_step env (with_task s (TaskFallback c) (ms x True))
      (AiAnswer t (ai_next s) (AnsChat (Inl e)))) =
      after_send s (ms (ae_t env ''ai.store.messages.sendFailedInline'') False)"
    and "snd (ai_step env (with_task s (TaskFallback c) (ms x True)) (AiAnswer t (ai_next s) (AnsChat (Inl e)))) =
      AiToast (ToastError (if to_friendly_ai_error (ae_t env) (ae_ti env) e \<noteq> []
         then to_friendly_ai_error (ae_t env) (ae_ti env) e
         else ae_t env ''ai.store.messages.sendFailedToast'')) # send_return kind []"
  using s unfolding ms_def c_def
  by (simp_all add: sendable_def answer_with_task ai_resume_def ai_stream_ended_def fallback_answered_def
      got_response_def send_listed_def send_failed_def move_with_task done_with_task call_of_def
      set_content_turn Let_def del: ai_step.simps)

text \<open>
  An uninterrupted send: the pieces \<open>ds\<close> of the stream, its end \<open>str\<close>, the answer \<open>fb\<close> of the fallback when
  the stream failed, and the answer \<open>lst\<close> of the refresh when one of the two brought the reply.
\<close>

definition send_answers ::
    "nat \<Rightarrow> int \<Rightarrow> string list \<Rightarrow> chat_result reply \<Rightarrow> chat_result reply \<Rightarrow> conversation_summary list reply \<Rightarrow>
     ai_action list" where
  "send_answers i t ds str fb lst =
     List.map (\<lambda>d. AiAnswer t i (AnsDelta d)) ds @ AiAnswer t i (AnsChat str) #
     (case str of
        Inr _ \<Rightarrow> [AiAnswer t i (AnsConversations lst)]
      | Inl _ \<Rightarrow> AiAnswer t i (AnsChat fb) #
          (case fb of Inr _ \<Rightarrow> [AiAnswer t i (AnsConversations lst)] | Inl _ \<Rightarrow> []))"

text \<open>The reply of a send that succeeds as a whole.\<close>

definition sent_reply ::
    "chat_result reply \<Rightarrow> chat_result reply \<Rightarrow> conversation_summary list reply \<Rightarrow> string option" where
  "sent_reply str fb lst =
     (case lst of
        Inl _ \<Rightarrow> None
      | Inr _ \<Rightarrow> (case str of
          Inr res \<Rightarrow> Some (ch_message res)
        | Inl _ \<Rightarrow> (case fb of Inr res \<Rightarrow> Some (ch_message res) | Inl _ \<Rightarrow> None)))"

lemma send_runs:
  assumes s: "sendable env s now content"
  defines "streaming \<equiv> \<lambda>kind account ds. with_task s (TaskStreaming (call_of s now kind content account) (concat ds))
    (ai_messages s @ [user_turn now content, ai_turn now (concat ds) True])"
  shows "run (ai_next_state env) s (AiSend now kind content account #
      List.map (\<lambda>d. AiAnswer t (ai_next s) (AnsDelta d)) ds @ es) = run (ai_next_state env) (streaming kind account ds) es"
    and "run_log (ai_next_state env) (\<lambda>s a. snd (ai_step env s a)) s (AiSend now kind content account #
      List.map (\<lambda>d. AiAnswer t (ai_next s) (AnsDelta d)) ds @ es) =
      AiRequest (ReqChatStream (chat_request_of env (call_of s now kind content account) s)) #
        run_log (ai_next_state env) (\<lambda>s a. snd (ai_step env s a)) (streaming kind account ds) es"
  using deltas_run [OF s, where kind = kind and account = account and acc = "[]" and t = t and ds = ds]
  by (simp_all add: ai_next_state_def send_begins [OF s] streaming_def run_log_append)

text \<open>
  C6. A message that is sent in an active conversation, with nothing else done meanwhile, ends however the stream,
  the fallback and the refresh answer: the question and its answer are the last two messages, the answer being
  the reply when one of the two brought it and the list was read, and the failure text otherwise; the store has
  what it had before in flight and is ready for the next message, and the caller gets the reply or the empty text.
\<close>

theorem ai_send_completes:
  fixes kind account content now t ds str fb lst
  assumes s: "sendable env s now content"
  defines "es \<equiv> AiSend now kind content account # send_answers (ai_next s) t ds str fb lst"
  defines "u \<equiv> run (ai_next_state env) s es"
  shows "ai_messages u = ai_messages s @ [user_turn now content, ai_turn now (case sent_reply str fb lst of
        Some m \<Rightarrow> m | None \<Rightarrow> ae_t env ''ai.store.messages.sendFailedInline'') False] \<and>
    ai_tasks u = ai_tasks s \<and> \<not> ai_sending u \<and> ai_active u = ai_active s \<and>
    (case kind of PlainSend \<Rightarrow> True | SendForResponse \<Rightarrow>
      last (run_log (ai_next_state env) (\<lambda>s a. snd (ai_step env s a)) s es) =
        AiReturn (case sent_reply str fb lst of Some m \<Rightarrow> m | None \<Rightarrow> []))"
  using s unfolding u_def es_def send_answers_def send_runs [OF s]
  by (cases str; cases fb; cases lst; cases kind)
    (simp_all add: ai_next_state_def stream_answered [OF s] sent_reply_def send_return_def
      after_send_def sendable_def del: ai_step.simps)

definition demo_env :: ai_env where
  "demo_env = \<lparr>ae_t = (\<lambda>k. k), ae_ti = (\<lambda>k vs. k), ae_language = ''en'', ae_storage = True\<rparr>"

definition demo_ai :: ai_state where
  "demo_ai = (ai_init None)\<lparr>ai_active := ''c1''\<rparr>"

lemma demo_sendable: "sendable demo_env demo_ai 5 ''hi''"
  by code_simp

theorem ai_send_completes_witness:
  "ai_messages (run (ai_next_state demo_env) demo_ai
     [AiSend 5 PlainSend ''hi'' None, AiAnswer 6 0 (AnsDelta ''yes''),
      AiAnswer 6 0 (AnsChat (Inl (ThrownError ''x''))),
      AiAnswer 6 0 (AnsChat (Inr \<lparr>ch_message = ''yes'', ch_suggestions = []\<rparr>)),
      AiAnswer 6 0 (AnsConversations (Inr []))]) = [user_turn 5 ''hi'', ai_turn 5 ''yes'' False]"
proof -
  have n: "ai_next demo_ai = 0" "ai_messages demo_ai = []"
    by (simp_all add: demo_ai_def ai_init_def)
  show ?thesis
    using ai_send_completes [OF demo_sendable, where kind = PlainSend and account = None and t = 6 and ds = "[''yes'']" and
        str = "Inl (ThrownError ''x'')" and fb = "Inr \<lparr>ch_message = ''yes'', ch_suggestions = []\<rparr>" and lst = "Inr []"]
    by (simp add: n send_answers_def sent_reply_def del: run_Cons)
qed

text \<open>
  When the list cannot be refreshed after the answer has arrived, the answer on the screen is replaced
  by the failure text, and the caller gets the empty string.
\<close>

theorem refresh_failure_replaces_reply:
  fixes account content now t ds res e
  assumes s: "sendable env s now content"
  defines "es \<equiv> AiSend now SendForResponse content account #
      List.map (\<lambda>d. AiAnswer t (ai_next s) (AnsDelta d)) ds @
      [AiAnswer t (ai_next s) (AnsChat (Inr res)), AiAnswer t (ai_next s) (AnsConversations (Inl e))]"
  shows "ai_messages (run (ai_next_state env) s es) = ai_messages s @ [user_turn now content,
      ai_turn now (ae_t env ''ai.store.messages.sendFailedInline'') False] \<and>
    last (run_log (ai_next_state env) (\<lambda>s a. snd (ai_step env s a)) s es) = AiReturn []"
  using deltas_run [OF s, where kind = SendForResponse and account = account and acc = "[]" and t = t and ds = ds]
  by (simp add: es_def ai_next_state_def send_begins [OF s] stream_answered [OF s] run_log_append
      send_return_def after_send_def del: ai_step.simps(10))

theorem refresh_failure_replaces_reply_witness:
  "ai_messages (run (ai_next_state demo_env) demo_ai
     [AiSend 5 SendForResponse ''hi'' None,
      AiAnswer 6 0 (AnsChat (Inr \<lparr>ch_message = ''yes'', ch_suggestions = []\<rparr>)),
      AiAnswer 6 0 (AnsConversations (Inl (ThrownError ''offline'')))])
    = [user_turn 5 ''hi'', ai_turn 5 (ae_t demo_env ''ai.store.messages.sendFailedInline'') False]"
proof -
  have n: "ai_next demo_ai = 0" "ai_messages demo_ai = []"
    by (simp_all add: demo_ai_def ai_init_def)
  show ?thesis
    using refresh_failure_replaces_reply [OF demo_sendable, where account = None and t = 6 and
        ds = "[]" and res = "\<lparr>ch_message = ''yes'', ch_suggestions = []\<rparr>" and e = "ThrownError ''offline''"]
    by (simp add: n del: run_Cons)
qed

text \<open>
  While the conversation of a first message is being created a second message is not held back: it
  has a conversation of its own created.
\<close>

theorem concurrent_sends_create_twice:
  assumes "\<not> ai_sending s" and "ai_active s = []"
    and "\<not> js_starts (js_trim a) (ae_t env ''ai.store.prefs.rememberPrefix'')"
    and "\<not> js_starts (js_trim b) (ae_t env ''ai.store.prefs.rememberPrefix'')"
  shows "run_log (ai_next_state env) (\<lambda>s a. snd (ai_step env s a)) s
      [AiSend now kind a account, AiSend now' kind' b account'] =
    replicate 2 (AiRequest (ReqCreate (ae_t env ''ai.store.conversations.newConversationTitle'')))"
  using assms by (simp add: ai_next_state_def send_begin_def Let_def start_task_def numeral_2_eq_2)

theorem concurrent_sends_create_twice_witness:
  "run_log (ai_next_state demo_env) (\<lambda>s a. snd (ai_step demo_env s a)) (ai_init None)
      [AiSend 1 PlainSend ''a'' None, AiSend 2 PlainSend ''b'' None] =
    replicate 2 (AiRequest (ReqCreate (ae_t demo_env ''ai.store.conversations.newConversationTitle'')))"
  by (rule concurrent_sends_create_twice) code_simp+

text \<open>
  Two conversations selected one after the other: when the answers come in the other order, the active
  conversation is the second one and the messages are those of the first.
\<close>

theorem late_selection_shows_other_messages:
  fixes env a b da db t t'
  assumes "fresh_tasks s"
  defines "s' \<equiv> run (ai_next_state env) s
      [AiSelect a, AiSelect b, AiAnswer t (Suc (ai_next s)) (AnsDetail (Inr db)),
       AiAnswer t' (ai_next s) (AnsDetail (Inr da))]"
  shows "ai_active s' = b \<and> ai_messages s' = List.map message_of_detail (cd_messages da) \<and> \<not> ai_loading s'"
proof -
  let ?n = "ai_next s" and ?T = "ai_tasks s"
  have f: "?n \<notin> fst ` set ?T" "Suc ?n \<notin> fst ` set ?T"
    using assms(1) by (force simp: fresh_tasks_def fresh_table_def)+
  have "map_of (?T @ [(?n, TaskSelect a), (Suc ?n, TaskSelect b)]) (Suc ?n) = Some (TaskSelect b)"
    "map_of (AList.delete (Suc ?n) (?T @ [(?n, TaskSelect a), (Suc ?n, TaskSelect b)])) ?n = Some (TaskSelect a)"
    using f by (simp_all add: delete_conv' map_add_def map_of_eq_None_iff [symmetric] del: map_of_eq_None_iff)
  then show ?thesis
    by (simp add: s'_def ai_next_state_def select_conversation_def conversation_selected_def ai_resume_def
        start_task_def end_task_def)
qed

theorem late_selection_shows_other_messages_witness:
  "ai_messages (run (ai_next_state demo_env) (ai_init None)
     [AiSelect ''a'', AiSelect ''b'',
      AiAnswer 1 (Suc 0) (AnsDetail (Inr \<lparr>cs_id = ''b'', cs_title = [], cs_message_count = 0, cs_created_at = 0,
         cs_updated_at = 0, cd_messages = []\<rparr>)),
      AiAnswer 1 0 (AnsDetail (Inr \<lparr>cs_id = ''a'', cs_title = [], cs_message_count = 1, cs_created_at = 0,
         cs_updated_at = 0, cd_messages = [\<lparr>cm_id = ''m'', cm_role = RoleUser, cm_content = ''of a'', cm_created_at = 0\<rparr>]\<rparr>))])
   = [\<lparr>am_id = ''m'', am_role = RoleUser, am_content = ''of a'', am_timestamp = 0, am_loading = False\<rparr>]"
proof -
  have f: "fresh_tasks (ai_init None)" and n: "ai_next (ai_init None) = 0"
    by (simp_all add: fresh_tasks_def ai_init_def)
  show ?thesis
    using late_selection_shows_other_messages [OF f, of demo_env "''a''" "''b''" 1
        "\<lparr>cs_id = ''b'', cs_title = [], cs_message_count = 0, cs_created_at = 0, cs_updated_at = 0, cd_messages = []\<rparr>" 1
        "\<lparr>cs_id = ''a'', cs_title = [], cs_message_count = 1, cs_created_at = 0, cs_updated_at = 0,
          cd_messages = [\<lparr>cm_id = ''m'', cm_role = RoleUser, cm_content = ''of a'', cm_created_at = 0\<rparr>]\<rparr>"]
    by (simp add: n message_of_detail_def del: run_Cons)
qed

end
