(* ===== verification/DebateApi.thy ===== *)
theory DebateApi
  imports AiClient
begin

text \<open>
  The debate service as the client sees it (\<open>client/debateV2.ts\<close>, without the wait for jobs, which is
  the theory DebateJob): the views of its sessions and template parameters, and the requests.  The
  calls themselves are outside the program, so a call is the function \<open>service\<close> from the request to
  what the service returns or throws.
\<close>

subsection \<open>Template parameters\<close>

record wire_param =
  tp_name :: string
  tp_type :: string
  tp_default :: string
  tp_min :: string
  tp_max :: string
  tp_step :: string
  tp_label :: string
  tp_description :: string
  tp_options :: "string list"

record template_param =
  vp_name :: string
  vp_type :: string
  vp_default :: "string option"
  vp_min :: "string option"
  vp_max :: "string option"
  vp_step :: "string option"
  vp_label :: "string option"
  vp_description :: "string option"
  vp_options :: "string list option"

text \<open>\<open>s || undefined\<close>; a list is never falsy.\<close>

definition or_undefined :: "string \<Rightarrow> string option" where
  "or_undefined s = (if s = [] then None else Some s)"

definition to_param :: "wire_param \<Rightarrow> template_param" where
  "to_param p =
     \<lparr>vp_name = tp_name p, vp_type = tp_type p, vp_default = or_undefined (tp_default p),
      vp_min = or_undefined (tp_min p), vp_max = or_undefined (tp_max p),
      vp_step = or_undefined (tp_step p), vp_label = or_undefined (tp_label p),
      vp_description = or_undefined (tp_description p), vp_options = Some (tp_options p)\<rparr>"

definition from_param :: "template_param \<Rightarrow> wire_param" where
  "from_param p =
     \<lparr>tp_name = vp_name p, tp_type = vp_type p, tp_default = or_empty (vp_default p),
      tp_min = or_empty (vp_min p), tp_max = or_empty (vp_max p), tp_step = or_empty (vp_step p),
      tp_label = or_empty (vp_label p), tp_description = or_empty (vp_description p),
      tp_options = or_list (vp_options p)\<rparr>"

subsection \<open>Sessions\<close>

record wire_turn =
  wt_id :: string
  wt_role :: string
  wt_content :: string
  wt_kind :: string

record debate_turn =
  dt_id :: string
  dt_role :: chat_role
  dt_content :: string
  dt_kind :: "string option"

record wire_step =
  wst_step_key :: string
  wst_agent_key :: string
  wst_agent_name :: string
  wst_messages :: "wire_turn list option"

record debate_step =
  ds_step_key :: string
  ds_agent_key :: "string option"
  ds_agent_name :: "string option"
  ds_messages :: "debate_turn list"

record debate_code =
  dc_text :: string
  dc_python :: string

record debate_usage =
  du_prompt_tokens :: nat
  du_completion_tokens :: nat
  du_total_tokens :: nat

record wire_session =
  wse_id :: string
  wse_title :: string
  wse_status :: string
  wse_current_step :: string
  wse_agents :: "string list option"
  wse_steps :: "wire_step list option"
  wse_param_schema :: "wire_param list option"
  wse_code :: "debate_code option"
  wse_provider :: string
  wse_model :: string
  wse_usage :: "debate_usage option"
  wse_created_at :: string
  wse_updated_at :: string

record debate_session =
  se_id :: string
  se_title :: string
  se_status :: string
  se_current_step :: string
  se_agents :: "string list"
  se_steps :: "debate_step list"
  se_param_schema :: "template_param list"
  se_code :: "debate_code option"
  se_provider :: "string option"
  se_model :: "string option"
  se_usage :: "debate_usage option"
  se_created_at :: string
  se_updated_at :: string

definition to_turn :: "wire_turn \<Rightarrow> debate_turn" where
  "to_turn m = \<lparr>dt_id = wt_id m, dt_role = (if wt_role m = ''user'' then RoleUser else RoleAssistant),
     dt_content = wt_content m, dt_kind = or_undefined (wt_kind m)\<rparr>"

definition to_step :: "wire_step \<Rightarrow> debate_step" where
  "to_step s = \<lparr>ds_step_key = wst_step_key s, ds_agent_key = or_undefined (wst_agent_key s),
     ds_agent_name = or_undefined (wst_agent_name s),
     ds_messages = List.map to_turn (or_list (wst_messages s))\<rparr>"

definition to_session :: "wire_session \<Rightarrow> debate_session" where
  "to_session s =
     \<lparr>se_id = wse_id s, se_title = wse_title s, se_status = wse_status s,
      se_current_step = wse_current_step s, se_agents = or_list (wse_agents s),
      se_steps = List.map to_step (or_list (wse_steps s)),
      se_param_schema = List.map to_param (or_list (wse_param_schema s)),
      se_code = map_option (\<lambda>c. \<lparr>dc_text = dc_text c, dc_python = dc_python c\<rparr>) (wse_code s),
      se_provider = or_undefined (wse_provider s), se_model = or_undefined (wse_model s),
      se_usage = map_option (\<lambda>u. \<lparr>du_prompt_tokens = du_prompt_tokens u,
          du_completion_tokens = du_completion_tokens u, du_total_tokens = du_total_tokens u\<rparr>) (wse_usage s),
      se_created_at = wse_created_at s, se_updated_at = wse_updated_at s\<rparr>"

subsection \<open>Requests\<close>

datatype debate_request =
    DrStart "string list" string string
  | DrChat string string string
  | DrAdvance string string
  | DrStartAdvanceJob string string
  | DrGetAdvanceJob string
  | DrPrepareChatJob string string string
  | DrRunChatJob string
  | DrGetChatJob string
  | DrBack string string
  | DrSetParams string "wire_param list" string
  | DrListSessions string nat
  | DrGetSession string string
  | DrDeleteSession string
  | DrRejectCode string string string
  | DrStartRejectCodeJob string string string

record job_ref =
  jr_job_id :: string
  jr_session_id :: string

record wire_job_phase =
  wj_phase :: string
  wj_message :: "string option"
  wj_session_id :: string

record job_phase =
  jp_phase :: string
  jp_message :: string
  jp_session_id :: string

definition session_request ::
    "(debate_request \<Rightarrow> wire_session reply) \<Rightarrow> debate_request \<Rightarrow> debate_session reply" where
  "session_request service r = map_reply to_session (service r)"

definition debate_start where
  "debate_start service agents title locale =
     session_request service (DrStart (or_list agents) (or_empty title) (or_empty locale))"

definition debate_chat where
  "debate_chat service session_id message locale =
     session_request service (DrChat session_id message (or_empty locale))"

definition debate_advance where
  "debate_advance service session_id locale =
     session_request service (DrAdvance session_id (or_empty locale))"

definition debate_back where
  "debate_back service session_id locale = session_request service (DrBack session_id (or_empty locale))"

definition debate_set_params where
  "debate_set_params service session_id params locale =
     session_request service
       (DrSetParams session_id (List.map from_param (or_list params)) (or_empty locale))"

definition debate_get_session where
  "debate_get_session service session_id locale =
     session_request service (DrGetSession session_id (or_empty locale))"

definition debate_reject_code where
  "debate_reject_code service session_id feedback locale =
     session_request service (DrRejectCode session_id feedback (or_empty locale))"

definition job_request :: "(debate_request \<Rightarrow> job_ref reply) \<Rightarrow> debate_request \<Rightarrow> job_ref reply" where
  "job_request service r =
     map_reply (\<lambda>d. \<lparr>jr_job_id = jr_job_id d, jr_session_id = jr_session_id d\<rparr>) (service r)"

definition start_advance_job where
  "start_advance_job service session_id locale =
     job_request service (DrStartAdvanceJob session_id (or_empty locale))"

definition prepare_chat_job where
  "prepare_chat_job service session_id message locale =
     job_request service (DrPrepareChatJob session_id message (or_empty locale))"

definition start_reject_code_job where
  "start_reject_code_job service session_id feedback locale =
     job_request service (DrStartRejectCodeJob session_id feedback (or_empty locale))"

definition run_chat_job :: "(debate_request \<Rightarrow> 'a reply) \<Rightarrow> string \<Rightarrow> unit reply" where
  "run_chat_job service job_id = map_reply (\<lambda>_. ()) (service (DrRunChatJob job_id))"

definition phase_request :: "(debate_request \<Rightarrow> wire_job_phase reply) \<Rightarrow> debate_request \<Rightarrow> job_phase reply" where
  "phase_request service r =
     map_reply (\<lambda>d. \<lparr>jp_phase = wj_phase d, jp_message = or_empty (wj_message d),
       jp_session_id = wj_session_id d\<rparr>) (service r)"

definition get_advance_job where
  "get_advance_job service job_id = phase_request service (DrGetAdvanceJob job_id)"

definition get_chat_job where
  "get_chat_job service job_id = phase_request service (DrGetChatJob job_id)"

definition list_sessions ::
    "(debate_request \<Rightarrow> wire_session list option reply) \<Rightarrow> string option \<Rightarrow> debate_session list reply" where
  "list_sessions service locale =
     map_reply (\<lambda>ss. List.map to_session (or_list ss)) (service (DrListSessions (or_empty locale) 50))"

definition delete_session :: "(debate_request \<Rightarrow> 'a reply) \<Rightarrow> string \<Rightarrow> unit reply" where
  "delete_session service session_id = map_reply (\<lambda>_. ()) (service (DrDeleteSession session_id))"

subsection \<open>Facts\<close>

lemma or_empty_undefined [simp]: "or_empty (or_undefined s) = s"
  by (simp add: or_undefined_def)

lemma from_to_param: "from_param (to_param p) = p"
  by (simp add: from_param_def to_param_def)

lemma to_from_param: "to_param (from_param (to_param p)) = to_param p"
  by (simp add: from_to_param)

lemma map_from_to_param [simp]: "List.map (from_param \<circ> to_param) ps = ps"
  by (simp add: map_idI from_to_param)

text \<open>
  The template parameters of a session that was read and is saved unchanged go back to the service as
  it sent them, and the views of what it then stores are the ones that were saved.
\<close>

theorem debate_params_roundtrip:
  "debate_set_params service session_id (Some (se_param_schema (to_session s))) locale =
     session_request service (DrSetParams session_id (or_list (wse_param_schema s)) (or_empty locale)) \<and>
   List.map to_param (List.map from_param (se_param_schema (to_session s))) = se_param_schema (to_session s)"
  by (simp add: debate_set_params_def to_session_def comp_def to_from_param from_to_param)

end
