(* ===== verification/DebateFlow.thy ===== *)
theory DebateFlow
  imports DebateApi Effects TaskTable
begin

text \<open>
  The debate page (\<open>pages/ai/debate/flow/useDebateFlow.ts\<close>): the state of the hook, what it derives
  from it, and its operations.  An operation waits several times for the debate service or for a
  background job, so it is a task with the place where it is suspended; the session it captured when
  it was called is in the task.  Operations are called from the last render, so what they read of the
  state when they are called is the current one.  \<open>fl_waits\<close> are the job streams that are open, with
  the task that opened each.
\<close>

subsection \<open>State\<close>

record chat_turn =
  ct_id :: string
  ct_role :: chat_role
  ct_content :: string
  ct_loading :: bool
  ct_kickoff :: bool

record flow_pending =
  fp_step :: string
  fp_user :: chat_turn
  fp_loading :: chat_turn

datatype flow_op = OpSend | OpAdvance | OpReject | OpRetry

datatype flow_task =
    FtStart
  | FtBack
  | FtJob flow_op string
  | FtRun string "unit reply option"
  | FtWait flow_op string
  | FtRefresh flow_op string
  | FtAdvance string
  | FtResync flow_op
  | FtRetryRead string
  | FtRetryBack string
  | FtRetryReread string

record flow_state =
  fl_selected :: "agent_view list"
  fl_session :: "debate_session option"
  fl_pending :: "flow_pending option"
  fl_code_loading :: bool
  fl_sending :: bool
  fl_force_selection :: bool
  fl_wait_started :: "int option"
  fl_wait_elapsed :: int
  fl_optimistic :: "string option"
  fl_advance_preview :: string
  fl_chat_preview :: string
  fl_tasks :: "(nat \<times> flow_task) list"
  fl_waits :: "(nat \<times> flow_op) list"
  fl_next :: nat

definition flow_init :: flow_state where
  "flow_init = \<lparr>fl_selected = [], fl_session = None, fl_pending = None, fl_code_loading = False,
     fl_sending = False, fl_force_selection = False, fl_wait_started = None, fl_wait_elapsed = 0,
     fl_optimistic = None, fl_advance_preview = [], fl_chat_preview = [], fl_tasks = [], fl_waits = [],
     fl_next = 0\<rparr>"

record flow_env =
  fe_t :: "string \<Rightarrow> string"
  fe_ti :: "string \<Rightarrow> (string \<times> string) list \<Rightarrow> string"
  fe_language :: string

definition flow_locale :: "flow_env \<Rightarrow> string" where
  "flow_locale env = (if fe_language env = [] then ''zh-CN'' else fe_language env)"

datatype flow_effect =
    FlowToast toast
  | FlowRequest debate_request
  | FlowOpenWait flow_op string

subsection \<open>What the page shows\<close>

definition agent_key_of :: "agent_view \<Rightarrow> string" where
  "agent_key_of a = (if agv_agent_key a = [] then agv_type a else agv_agent_key a)"

definition step_key_for_agent :: "agent_view \<Rightarrow> string" where
  "step_key_for_agent a = ''agent:'' @ agent_key_of a"

definition session_step :: "flow_state \<Rightarrow> string" where
  "session_step s =
     (case fl_session s of
        None \<Rightarrow> ''agent_selection''
      | Some x \<Rightarrow>
          if fl_force_selection s then ''agent_selection''
          else if se_current_step x = [] then ''intent''
          else if se_current_step x = ''done'' then ''code''
          else se_current_step x)"

definition current_step :: "flow_state \<Rightarrow> string" where
  "current_step s = (case fl_optimistic s of Some k \<Rightarrow> k | None \<Rightarrow> session_step s)"

definition unknown_agent :: "string \<Rightarrow> agent_view" where
  "unknown_agent key = \<lparr>agv_id = [], agv_agent_key = key, agv_type = key, agv_name = key,
     agv_identity = [], agv_input_hint = [], agv_enabled = True, agv_position = Fin 0,
     agv_provider_id = [], agv_model_override = []\<rparr>"

text \<open>A \<open>Map\<close> keeps the last agent of a key.\<close>

definition effective_agents :: "flow_state \<Rightarrow> agent_view list" where
  "effective_agents s =
     (case fl_session s of
        None \<Rightarrow> fl_selected s
      | Some x \<Rightarrow>
          List.map (\<lambda>key. case map_of (rev (List.map (\<lambda>a. (agent_key_of a, a)) (fl_selected s))) key of
              Some a \<Rightarrow> a | None \<Rightarrow> unknown_agent key) (se_agents x))"

definition builtin_types :: "string list" where
  "builtin_types = [''style'', ''signals'', ''risk'', ''macro'', ''sentiment'', ''portfolio'', ''execution'', ''code'']"

definition agent_label :: "flow_env \<Rightarrow> agent_view \<Rightarrow> string" where
  "agent_label env a =
     (if agv_type a \<in> set builtin_types then fe_t env (''ai.settings.agent.types.'' @ agv_type a)
      else if agv_name a = [] then agv_type a else agv_name a)"

definition step_labels :: "flow_env \<Rightarrow> flow_state \<Rightarrow> (string \<times> string) list" where
  "step_labels env s =
     [(''agent_selection'', fe_t env ''ai.debate.v2.steps.agentSelection''),
      (''intent'', fe_t env ''ai.debate.v2.steps.intent'')] @
     List.map (\<lambda>a. (step_key_for_agent a, agent_label env a)) (effective_agents s) @
     [(''code'', fe_t env ''ai.debate.v2.steps.code'')]"

text \<open>\<open>findIndex\<close>; \<open>None\<close> is its \<open>-1\<close>.\<close>

fun find_index :: "('a \<Rightarrow> bool) \<Rightarrow> 'a list \<Rightarrow> nat option" where
  "find_index P [] = None"
| "find_index P (x # xs) = (if P x then Some 0 else map_option Suc (find_index P xs))"

definition step_index :: "flow_env \<Rightarrow> flow_state \<Rightarrow> nat" where
  "step_index env s =
     (case find_index (\<lambda>p. fst p = current_step s) (step_labels env s) of None \<Rightarrow> 0 | Some i \<Rightarrow> i)"

record step_view =
  sv_messages :: "chat_turn list"
  sv_extracted :: string
  sv_draft :: string

definition empty_step :: step_view where
  "empty_step = \<lparr>sv_messages = [], sv_extracted = [], sv_draft = []\<rparr>"

definition turn_view :: "debate_turn \<Rightarrow> chat_turn" where
  "turn_view m = \<lparr>ct_id = dt_id m, ct_role = dt_role m, ct_content = dt_content m, ct_loading = False,
     ct_kickoff = (dt_kind m = Some ''kickoff'')\<rparr>"

definition steps_by_key :: "flow_state \<Rightarrow> string \<Rightarrow> step_view option" where
  "steps_by_key s =
     (case fl_session s of
        None \<Rightarrow> (\<lambda>_. None)
      | Some x \<Rightarrow> map_of (rev (List.map (\<lambda>st. (ds_step_key st,
            \<lparr>sv_messages = List.map turn_view (ds_messages st), sv_extracted = [], sv_draft = []\<rparr>))
          (se_steps x))))"

definition step_state :: "flow_state \<Rightarrow> string \<Rightarrow> step_view" where
  "step_state s key =
     (let base = (case steps_by_key s key of Some v \<Rightarrow> v | None \<Rightarrow> empty_step)
      in case fl_pending s of
           None \<Rightarrow> base
         | Some p \<Rightarrow>
             if fp_step p \<noteq> key then base
             else base\<lparr>sv_messages := sv_messages base @
                    [fp_user p, (fp_loading p)\<lparr>ct_content := fl_chat_preview s, ct_loading := True\<rparr>]\<rparr>)"

record code_view =
  cv_text :: string
  cv_python :: string
  cv_loading :: bool
  cv_elapsed :: int

definition code_state :: "flow_state \<Rightarrow> code_view" where
  "code_state s =
     (let c = (case fl_session s of None \<Rightarrow> None | Some x \<Rightarrow> se_code x);
          stream = js_trim (fl_advance_preview s)
      in \<lparr>cv_text = (if stream \<noteq> [] then stream else case c of None \<Rightarrow> [] | Some x \<Rightarrow> dc_text x),
          cv_python = (case c of None \<Rightarrow> [] | Some x \<Rightarrow> dc_python x),
          cv_loading = fl_code_loading s,
          cv_elapsed = (if fl_code_loading s then fl_wait_elapsed s else 0)\<rparr>)"

definition flow_usage :: "flow_state \<Rightarrow> debate_usage" where
  "flow_usage s =
     (case fl_session s of
        Some x \<Rightarrow> (case se_usage x of Some u \<Rightarrow> u
           | None \<Rightarrow> \<lparr>du_prompt_tokens = 0, du_completion_tokens = 0, du_total_tokens = 0\<rparr>)
      | None \<Rightarrow> \<lparr>du_prompt_tokens = 0, du_completion_tokens = 0, du_total_tokens = 0\<rparr>)"

definition model_wait_active :: "flow_state \<Rightarrow> bool" where
  "model_wait_active s \<longleftrightarrow> fl_wait_started s \<noteq> None \<and>
     (fl_sending s \<or> fl_code_loading s \<or>
      (case fl_pending s of None \<Rightarrow> False | Some p \<Rightarrow> ct_loading (fp_loading p)))"

text \<open>The clock of the wait, once a second while it is active.\<close>

definition wait_tick :: "int \<Rightarrow> flow_state \<Rightarrow> flow_state" where
  "wait_tick now s =
     (case fl_wait_started s of
        None \<Rightarrow> s
      | Some t0 \<Rightarrow> if model_wait_active s then s\<lparr>fl_wait_elapsed := max 0 ((now - t0) div 1000)\<rparr> else s)"

text \<open>What is shown of a stream: a piece that repeats the text so far replaces it.\<close>

definition merge_stream_chunk :: "string \<Rightarrow> string \<Rightarrow> string" where
  "merge_stream_chunk prev delta =
     (if delta = [] then prev
      else if prev = delta then prev
      else if prev = [] then delta
      else if js_starts delta prev then delta
      else prev @ delta)"

subsection \<open>Tasks and waits\<close>

definition flow_start_task :: "flow_task \<Rightarrow> flow_state \<Rightarrow> flow_state" where
  "flow_start_task task s = s\<lparr>fl_tasks := fl_tasks s @ [(fl_next s, task)], fl_next := Suc (fl_next s)\<rparr>"

definition flow_end_task :: "nat \<Rightarrow> flow_state \<Rightarrow> flow_state" where
  "flow_end_task i s = s\<lparr>fl_tasks := AList.delete i (fl_tasks s)\<rparr>"

definition flow_move_task :: "nat \<Rightarrow> flow_task \<Rightarrow> flow_state \<Rightarrow> flow_state" where
  "flow_move_task i task s = s\<lparr>fl_tasks := AList.update i task (fl_tasks s)\<rparr>"

definition begin_model_wait :: "int \<Rightarrow> flow_state \<Rightarrow> flow_state" where
  "begin_model_wait now s = s\<lparr>fl_wait_started := Some now, fl_wait_elapsed := 0\<rparr>"

definition end_model_wait :: "flow_state \<Rightarrow> flow_state" where
  "end_model_wait s = s\<lparr>fl_wait_started := None, fl_wait_elapsed := 0\<rparr>"

text \<open>The \<open>finally\<close> blocks.\<close>

fun finish_flags :: "flow_op \<Rightarrow> flow_state \<Rightarrow> flow_state" where
  "finish_flags OpSend s = end_model_wait (s\<lparr>fl_chat_preview := [], fl_pending := None, fl_sending := False\<rparr>)"
| "finish_flags OpAdvance s =
     (end_model_wait (s\<lparr>fl_advance_preview := [], fl_code_loading := False, fl_sending := False\<rparr>))
       \<lparr>fl_optimistic := None\<rparr>"
| "finish_flags OpReject s =
     end_model_wait (s\<lparr>fl_advance_preview := [], fl_code_loading := False, fl_sending := False\<rparr>)"
| "finish_flags OpRetry s =
     end_model_wait (s\<lparr>fl_advance_preview := [], fl_code_loading := False, fl_sending := False\<rparr>)"

definition finish_op :: "nat \<Rightarrow> flow_op \<Rightarrow> flow_state \<Rightarrow> flow_state" where
  "finish_op i op s = flow_end_task i (finish_flags op s)"

definition flow_error_toast :: "flow_env \<Rightarrow> thrown \<Rightarrow> flow_effect" where
  "flow_error_toast env e = FlowToast (ToastError (to_friendly_ai_error (fe_t env) (fe_ti env) e))"

text \<open>The \<open>catch\<close> blocks of the operations that then read the session again.\<close>

definition op_failed :: "flow_env \<Rightarrow> nat \<Rightarrow> flow_op \<Rightarrow> string \<Rightarrow> thrown \<Rightarrow> flow_state \<Rightarrow> flow_state \<times> flow_effect list" where
  "op_failed env i op sid e s =
     (flow_move_task i (FtResync op) s,
      [flow_error_toast env e, FlowRequest (DrGetSession sid (flow_locale env))])"

definition resynced :: "nat \<Rightarrow> flow_op \<Rightarrow> debate_session reply \<Rightarrow> flow_state \<Rightarrow> flow_state" where
  "resynced i op r s =
     finish_op i op (case r of Inr x \<Rightarrow> s\<lparr>fl_session := Some x\<rparr> | Inl _ \<Rightarrow> s)"

definition refreshed ::
    "flow_env \<Rightarrow> nat \<Rightarrow> flow_op \<Rightarrow> string \<Rightarrow> debate_session reply \<Rightarrow> flow_state \<Rightarrow> flow_state \<times> flow_effect list" where
  "refreshed env i op sid r s =
     (case r of
        Inr x \<Rightarrow> (finish_op i op (s\<lparr>fl_session := Some x\<rparr>), [])
      | Inl e \<Rightarrow> op_failed env i op sid e s)"

text \<open>After the wait for the job.\<close>

definition job_waited ::
    "flow_env \<Rightarrow> nat \<Rightarrow> flow_op \<Rightarrow> string \<Rightarrow> unit reply \<Rightarrow> flow_state \<Rightarrow> flow_state \<times> flow_effect list" where
  "job_waited env i op sid r s =
     (case r of
        Inr _ \<Rightarrow> (flow_move_task i (FtRefresh op sid) s, [FlowRequest (DrGetSession sid (flow_locale env))])
      | Inl e \<Rightarrow> op_failed env i op sid e s)"

text \<open>After the job is known: its stream is opened, and a chat job is then run.\<close>

definition job_started ::
    "flow_env \<Rightarrow> nat \<Rightarrow> flow_op \<Rightarrow> string \<Rightarrow> job_ref reply \<Rightarrow> flow_state \<Rightarrow> flow_state \<times> flow_effect list" where
  "job_started env i op sid r s =
     (case r of
        Inl e \<Rightarrow> op_failed env i op sid e s
      | Inr j \<Rightarrow>
          (let s = s\<lparr>fl_waits := fl_waits s @ [(i, op)]\<rparr>
           in if op = OpSend then
                (flow_move_task i (FtRun sid None) s,
                 [FlowOpenWait op (jr_job_id j), FlowRequest (DrRunChatJob (jr_job_id j))])
              else (flow_move_task i (FtWait op sid) s, [FlowOpenWait op (jr_job_id j)])))"

definition chat_job_run ::
    "flow_env \<Rightarrow> nat \<Rightarrow> string \<Rightarrow> unit reply option \<Rightarrow> unit reply \<Rightarrow> flow_state \<Rightarrow>
     flow_state \<times> flow_effect list" where
  "chat_job_run env i sid settled r s =
     (case r of
        Inl e \<Rightarrow> op_failed env i OpSend sid e s
      | Inr _ \<Rightarrow>
          (case settled of
             Some w \<Rightarrow> job_waited env i OpSend sid w s
           | None \<Rightarrow> (flow_move_task i (FtWait OpSend sid) s, [])))"

subsection \<open>Operations\<close>

definition set_selected_agents :: "agent_view list \<Rightarrow> flow_state \<Rightarrow> flow_state" where
  "set_selected_agents agents s = s\<lparr>fl_selected := agents\<rparr>"

definition flow_reset :: "flow_state \<Rightarrow> flow_state" where
  "flow_reset s = end_model_wait (s\<lparr>fl_session := None, fl_selected := [], fl_pending := None,
     fl_code_loading := False, fl_sending := False, fl_force_selection := True, fl_optimistic := None,
     fl_advance_preview := [], fl_chat_preview := []\<rparr>)"

definition start_flow :: "flow_env \<Rightarrow> flow_state \<Rightarrow> flow_state \<times> flow_effect list" where
  "start_flow env s =
     (flow_start_task FtStart (s\<lparr>fl_sending := True\<rparr>),
      [FlowRequest (DrStart (List.map agent_key_of (fl_selected s)) [] (flow_locale env))])"

definition flow_started ::
    "flow_env \<Rightarrow> nat \<Rightarrow> debate_session reply \<Rightarrow> flow_state \<Rightarrow> flow_state \<times> flow_effect list" where
  "flow_started env i r s =
     (case r of
        Inr x \<Rightarrow> ((flow_end_task i s)\<lparr>fl_session := Some x, fl_force_selection := False, fl_sending := False\<rparr>, [])
      | Inl e \<Rightarrow> ((flow_end_task i s)\<lparr>fl_sending := False\<rparr>, [flow_error_toast env e]))"

text \<open>\<open>uid\<close> and \<open>lid\<close> are the identifiers that \<open>mkId\<close> makes for the two messages.\<close>

definition flow_send_message ::
    "flow_env \<Rightarrow> int \<Rightarrow> string \<Rightarrow> string \<Rightarrow> string \<Rightarrow> flow_state \<Rightarrow> flow_state \<times> flow_effect list" where
  "flow_send_message env now uid lid text s =
     (let trimmed = js_trim text
      in case fl_session s of
           None \<Rightarrow> (s, [])
         | Some x \<Rightarrow>
             if trimmed = [] then (s, [])
             else if fl_sending s then (s, [])
             else if session_step s = ''agent_selection'' \<or> session_step s = ''code'' then (s, [])
             else
               (let user = \<lparr>ct_id = uid, ct_role = RoleUser, ct_content = trimmed, ct_loading = False,
                      ct_kickoff = False\<rparr>;
                    loading = \<lparr>ct_id = lid, ct_role = RoleAssistant, ct_content = [], ct_loading = True,
                      ct_kickoff = False\<rparr>;
                    s' = (begin_model_wait now s)\<lparr>fl_chat_preview := [],
                      fl_pending := Some \<lparr>fp_step = session_step s, fp_user = user, fp_loading = loading\<rparr>,
                      fl_sending := True\<rparr>
                in (flow_start_task (FtJob OpSend (se_id x)) s',
                    [FlowRequest (DrPrepareChatJob (se_id x) trimmed (flow_locale env))])))"

definition next_step_key :: "flow_env \<Rightarrow> flow_state \<Rightarrow> string option" where
  "next_step_key env s =
     (case find_index (\<lambda>p. fst p = session_step s) (step_labels env s) of
        None \<Rightarrow> None
      | Some i \<Rightarrow>
          if Suc i < length (step_labels env s) then Some (fst (step_labels env s ! Suc i)) else None)"

definition async_advance :: "string option \<Rightarrow> bool" where
  "async_advance next' = (case next' of None \<Rightarrow> False | Some k \<Rightarrow> k = ''code'' \<or> js_starts k ''agent:'')"

definition flow_advance :: "flow_env \<Rightarrow> int \<Rightarrow> flow_state \<Rightarrow> flow_state \<times> flow_effect list" where
  "flow_advance env now s =
     (case fl_session s of
        None \<Rightarrow> (s, [])
      | Some x \<Rightarrow>
          if fl_sending s then (s, [])
          else
            (let next' = next_step_key env s;
                 s' = (case next' of
                     Some k \<Rightarrow> if k \<noteq> [] then s\<lparr>fl_optimistic := Some k\<rparr> else s | None \<Rightarrow> s);
                 s' = (if next' = Some ''code'' then s'\<lparr>fl_code_loading := True\<rparr> else s');
                 s' = (begin_model_wait now s')\<lparr>fl_sending := True, fl_advance_preview := []\<rparr>
             in if async_advance next'
                then (flow_start_task (FtJob OpAdvance (se_id x)) s',
                      [FlowRequest (DrStartAdvanceJob (se_id x) (flow_locale env))])
                else (flow_start_task (FtAdvance (se_id x)) s',
                      [FlowRequest (DrAdvance (se_id x) (flow_locale env))])))"

definition flow_reject_code ::
    "flow_env \<Rightarrow> int \<Rightarrow> string \<Rightarrow> flow_state \<Rightarrow> flow_state \<times> flow_effect list" where
  "flow_reject_code env now feedback s =
     (case fl_session s of
        None \<Rightarrow> (s, [])
      | Some x \<Rightarrow>
          if js_trim feedback = [] then (s, [])
          else
            (flow_start_task (FtJob OpReject (se_id x))
               ((begin_model_wait now (s\<lparr>fl_code_loading := True\<rparr>))\<lparr>fl_sending := True, fl_advance_preview := []\<rparr>),
             [FlowRequest (DrStartRejectCodeJob (se_id x) (js_trim feedback) (flow_locale env))]))"

definition flow_retry :: "flow_env \<Rightarrow> int \<Rightarrow> flow_state \<Rightarrow> flow_state \<times> flow_effect list" where
  "flow_retry env now s =
     (case fl_session s of
        None \<Rightarrow> (s, [])
      | Some x \<Rightarrow>
          if se_id x = [] \<or> fl_sending s then (s, [])
          else
            (flow_start_task (FtRetryRead (se_id x))
               (begin_model_wait now (s\<lparr>fl_sending := True, fl_code_loading := True\<rparr>)),
             [FlowRequest (DrGetSession (se_id x) (flow_locale env))]))"

definition has_body :: "debate_session \<Rightarrow> bool" where
  "has_body x = (case se_code x of None \<Rightarrow> False
     | Some c \<Rightarrow> js_trim (dc_python c) \<noteq> [] \<or> js_trim (dc_text c) \<noteq> [])"

definition retry_read ::
    "flow_env \<Rightarrow> nat \<Rightarrow> string \<Rightarrow> debate_session reply \<Rightarrow> flow_state \<Rightarrow> flow_state \<times> flow_effect list" where
  "retry_read env i sid r s =
     (case r of
        Inl e \<Rightarrow> op_failed env i OpRetry sid e s
      | Inr x \<Rightarrow>
          (let s = s\<lparr>fl_session := Some x\<rparr>
           in if se_current_step x \<noteq> ''code'' then
                (finish_op i OpRetry s, [FlowToast (ToastWarning (fe_t env ''ai.debate.v2.retryCodeWrongStep''))])
              else if has_body x then
                (finish_op i OpRetry s, [FlowToast (ToastInfo (fe_t env ''ai.debate.v2.retryCodeAlreadyHave''))])
              else (flow_move_task i (FtRetryBack sid) s, [FlowRequest (DrBack sid (flow_locale env))])))"

definition retry_back ::
    "flow_env \<Rightarrow> nat \<Rightarrow> string \<Rightarrow> debate_session reply \<Rightarrow> flow_state \<Rightarrow> flow_state \<times> flow_effect list" where
  "retry_back env i sid r s =
     (case r of
        Inl e \<Rightarrow> op_failed env i OpRetry sid e s
      | Inr _ \<Rightarrow> (flow_move_task i (FtRetryReread sid) s, [FlowRequest (DrGetSession sid (flow_locale env))]))"

definition retry_reread ::
    "flow_env \<Rightarrow> nat \<Rightarrow> string \<Rightarrow> debate_session reply \<Rightarrow> flow_state \<Rightarrow> flow_state \<times> flow_effect list" where
  "retry_reread env i sid r s =
     (case r of
        Inl e \<Rightarrow> op_failed env i OpRetry sid e s
      | Inr x \<Rightarrow> (flow_move_task i (FtJob OpRetry sid) (s\<lparr>fl_session := Some x, fl_advance_preview := []\<rparr>),
                 [FlowRequest (DrStartAdvanceJob sid (flow_locale env))]))"

definition flow_back :: "flow_env \<Rightarrow> flow_state \<Rightarrow> flow_state \<times> flow_effect list" where
  "flow_back env s =
     (case fl_session s of
        None \<Rightarrow> (s, [])
      | Some x \<Rightarrow> (flow_start_task FtBack (s\<lparr>fl_sending := True\<rparr>),
                  [FlowRequest (DrBack (se_id x) (flow_locale env))]))"

definition back_answered ::
    "flow_env \<Rightarrow> nat \<Rightarrow> debate_session reply \<Rightarrow> flow_state \<Rightarrow> flow_state \<times> flow_effect list" where
  "back_answered env i r s =
     (case r of
        Inr x \<Rightarrow> ((flow_end_task i s)\<lparr>fl_session := Some x, fl_sending := False, fl_optimistic := None\<rparr>, [])
      | Inl e \<Rightarrow> ((flow_end_task i s)\<lparr>fl_sending := False, fl_optimistic := None\<rparr>, [flow_error_toast env e]))"

subsection \<open>Steps\<close>

datatype flow_answer =
    FaSession "debate_session reply"
  | FaJob "job_ref reply"
  | FaDone "unit reply"

datatype flow_action =
    FlowSelectAgents "agent_view list"
  | FlowStart
  | FlowSend int string string string
  | FlowAdvance int
  | FlowReject int string
  | FlowRetry int
  | FlowBack
  | FlowReset
  | FlowTick int
  | FlowChunk nat string
  | FlowWaitDone nat "unit reply"
  | FlowAnswer nat flow_answer

definition flow_resume ::
    "flow_env \<Rightarrow> nat \<Rightarrow> flow_task \<Rightarrow> flow_answer \<Rightarrow> flow_state \<Rightarrow> flow_state \<times> flow_effect list" where
  "flow_resume env i task a s =
     (case (task, a) of
        (FtStart, FaSession r) \<Rightarrow> flow_started env i r s
      | (FtBack, FaSession r) \<Rightarrow> back_answered env i r s
      | (FtJob op sid, FaJob r) \<Rightarrow> job_started env i op sid r s
      | (FtRun sid settled, FaDone r) \<Rightarrow> chat_job_run env i sid settled r s
      | (FtRefresh op sid, FaSession r) \<Rightarrow> refreshed env i op sid r s
      | (FtAdvance sid, FaSession r) \<Rightarrow> refreshed env i OpAdvance sid r s
      | (FtResync op, FaSession r) \<Rightarrow> (resynced i op r s, [])
      | (FtRetryRead sid, FaSession r) \<Rightarrow> retry_read env i sid r s
      | (FtRetryBack sid, FaSession r) \<Rightarrow> retry_back env i sid r s
      | (FtRetryReread sid, FaSession r) \<Rightarrow> retry_reread env i sid r s
      | _ \<Rightarrow> (s, []))"

text \<open>
  The wait of a task is over: its stream is closed, and the task goes on if it is at the \<open>await\<close> of the
  wait.  A chat job that is still being run finds the outcome later.
\<close>

definition wait_done ::
    "flow_env \<Rightarrow> nat \<Rightarrow> unit reply \<Rightarrow> flow_state \<Rightarrow> flow_state \<times> flow_effect list" where
  "wait_done env i r s =
     (if map_of (fl_waits s) i = None then (s, [])
      else
        (let s = s\<lparr>fl_waits := AList.delete i (fl_waits s)\<rparr>
         in case map_of (fl_tasks s) i of
              Some (FtWait op sid) \<Rightarrow> job_waited env i op sid r s
            | Some (FtRun sid None) \<Rightarrow> (flow_move_task i (FtRun sid (Some r)) s, [])
            | _ \<Rightarrow> (s, [])))"

definition stream_chunk :: "nat \<Rightarrow> string \<Rightarrow> flow_state \<Rightarrow> flow_state" where
  "stream_chunk i delta s =
     (case map_of (fl_waits s) i of
        None \<Rightarrow> s
      | Some op \<Rightarrow>
          if op = OpSend then s\<lparr>fl_chat_preview := merge_stream_chunk (fl_chat_preview s) delta\<rparr>
          else s\<lparr>fl_advance_preview := merge_stream_chunk (fl_advance_preview s) delta\<rparr>)"

fun flow_step :: "flow_env \<Rightarrow> flow_state \<Rightarrow> flow_action \<Rightarrow> flow_state \<times> flow_effect list" where
  "flow_step env s (FlowSelectAgents agents) = (set_selected_agents agents s, [])"
| "flow_step env s FlowStart = start_flow env s"
| "flow_step env s (FlowSend now uid lid text) = flow_send_message env now uid lid text s"
| "flow_step env s (FlowAdvance now) = flow_advance env now s"
| "flow_step env s (FlowReject now feedback) = flow_reject_code env now feedback s"
| "flow_step env s (FlowRetry now) = flow_retry env now s"
| "flow_step env s FlowBack = flow_back env s"
| "flow_step env s FlowReset = (flow_reset s, [])"
| "flow_step env s (FlowTick now) = (wait_tick now s, [])"
| "flow_step env s (FlowChunk i delta) = (stream_chunk i delta s, [])"
| "flow_step env s (FlowWaitDone i r) = wait_done env i r s"
| "flow_step env s (FlowAnswer i a) =
     (case map_of (fl_tasks s) i of None \<Rightarrow> (s, []) | Some task \<Rightarrow> flow_resume env i task a s)"

definition flow_next_state :: "flow_env \<Rightarrow> flow_state \<Rightarrow> flow_action \<Rightarrow> flow_state" where
  "flow_next_state env s a = fst (flow_step env s a)"

subsection \<open>Flags and operations in flight\<close>

fun op_of :: "flow_task \<Rightarrow> flow_op option" where
  "op_of FtStart = None"
| "op_of FtBack = None"
| "op_of (FtJob op _) = Some op"
| "op_of (FtRun _ _) = Some OpSend"
| "op_of (FtWait op _) = Some op"
| "op_of (FtRefresh op _) = Some op"
| "op_of (FtAdvance _) = Some OpAdvance"
| "op_of (FtResync op) = Some op"
| "op_of (FtRetryRead _) = Some OpRetry"
| "op_of (FtRetryBack _) = Some OpRetry"
| "op_of (FtRetryReread _) = Some OpRetry"

text \<open>A flag that is up is up for an operation in flight that will lower it.\<close>

definition in_flight :: "(flow_op option \<Rightarrow> bool) \<Rightarrow> flow_state \<Rightarrow> bool" where
  "in_flight P s \<longleftrightarrow> has_entry (P \<circ> op_of) (fl_tasks s)"

definition op_flags_ok :: "flow_state \<Rightarrow> bool" where
  "op_flags_ok s \<longleftrightarrow>
     (fl_sending s \<longrightarrow> in_flight (\<lambda>_. True) s) \<and>
     (fl_pending s \<noteq> None \<longrightarrow> in_flight (\<lambda>o'. o' = Some OpSend) s) \<and>
     (fl_code_loading s \<longrightarrow> in_flight (\<lambda>o'. o' \<notin> {None, Some OpSend}) s) \<and>
     (fl_optimistic s \<noteq> None \<longrightarrow> in_flight (\<lambda>o'. o' = Some OpAdvance) s) \<and>
     (fl_wait_started s \<noteq> None \<longrightarrow> in_flight (\<lambda>o'. o' \<noteq> None) s)"

definition flow_inv :: "flow_state \<Rightarrow> bool" where
  "flow_inv s \<longleftrightarrow> fresh_table (fl_next s) (fl_tasks s) \<and> op_flags_ok s"

text \<open>Every answer leaves less to wait for.\<close>

fun flow_rank :: "flow_task \<Rightarrow> nat" where
  "flow_rank FtStart = 1"
| "flow_rank FtBack = 1"
| "flow_rank (FtResync _) = 1"
| "flow_rank (FtRefresh _ _) = 2"
| "flow_rank (FtAdvance _) = 2"
| "flow_rank (FtWait _ _) = 3"
| "flow_rank (FtRun _ w) = (if w = None then 5 else 4)"
| "flow_rank (FtJob _ _) = 6"
| "flow_rank (FtRetryReread _) = 7"
| "flow_rank (FtRetryBack _) = 8"
| "flow_rank (FtRetryRead _) = 9"

definition flow_work :: "flow_state \<Rightarrow> nat" where
  "flow_work s = table_work flow_rank (fl_tasks s)"

lemmas flow_task_defs = flow_start_task_def flow_end_task_def flow_move_task_def

text \<open>Moving a task within its operation changes no flag and no operation in flight.\<close>

lemma in_flight_move:
  assumes "fresh_table (fl_next s) (fl_tasks s)" and "map_of (fl_tasks s) i = Some task"
    and "op_of task' = op_of task"
  shows "in_flight P s \<Longrightarrow> in_flight P (flow_move_task i task' s)"
  using assms by (simp add: in_flight_def flow_move_task_def has_entry_update_keep)

lemma in_flight_end:
  assumes "fresh_table (fl_next s) (fl_tasks s)" and "map_of (fl_tasks s) i = Some task" and "\<not> P (op_of task)"
  shows "in_flight P s \<Longrightarrow> in_flight P (flow_end_task i s)"
  using assms by (simp add: in_flight_def flow_end_task_def has_entry_delete)

lemma flow_move_fields [simp]:
  "fl_sending (flow_move_task i t s) = fl_sending s" "fl_pending (flow_move_task i t s) = fl_pending s"
  "fl_code_loading (flow_move_task i t s) = fl_code_loading s" "fl_optimistic (flow_move_task i t s) = fl_optimistic s"
  "fl_wait_started (flow_move_task i t s) = fl_wait_started s" "fl_next (flow_move_task i t s) = fl_next s"
  by (simp_all add: flow_move_task_def)

lemma flow_end_fields [simp]:
  "fl_sending (flow_end_task i s) = fl_sending s" "fl_pending (flow_end_task i s) = fl_pending s"
  "fl_code_loading (flow_end_task i s) = fl_code_loading s" "fl_optimistic (flow_end_task i s) = fl_optimistic s"
  "fl_wait_started (flow_end_task i s) = fl_wait_started s" "fl_next (flow_end_task i s) = fl_next s"
  "fl_session (flow_end_task i s) = fl_session s"
  by (simp_all add: flow_end_task_def)

lemma flow_inv_move:
  assumes "flow_inv s" and "map_of (fl_tasks s) i = Some task" and "op_of task' = op_of task"
  shows "flow_inv (flow_move_task i task' s)"
proof -
  have fresh: "fresh_table (fl_next s) (fl_tasks s)" and ok: "op_flags_ok s"
    using assms(1) by (simp_all add: flow_inv_def)
  have "fresh_table (fl_next s) (fl_tasks (flow_move_task i task' s))"
    using fresh fresh_table_lt [OF fresh assms(2)] by (simp add: flow_move_task_def)
  moreover have "op_flags_ok (flow_move_task i task' s)"
    using ok in_flight_move [OF fresh assms(2,3)] unfolding op_flags_ok_def by simp
  ultimately show ?thesis by (simp add: flow_inv_def)
qed

text \<open>Fields that the invariant does not read.\<close>

lemma flow_inv_view [simp]:
  "flow_inv (s\<lparr>fl_session := x\<rparr>) = flow_inv s" "flow_inv (s\<lparr>fl_waits := w\<rparr>) = flow_inv s"
  "flow_inv (s\<lparr>fl_advance_preview := p\<rparr>) = flow_inv s" "flow_inv (s\<lparr>fl_chat_preview := p\<rparr>) = flow_inv s"
  "flow_inv (s\<lparr>fl_selected := a\<rparr>) = flow_inv s" "flow_inv (s\<lparr>fl_wait_elapsed := e\<rparr>) = flow_inv s"
  "flow_inv (s\<lparr>fl_force_selection := b\<rparr>) = flow_inv s"
  by (simp_all add: flow_inv_def op_flags_ok_def in_flight_def)

lemma flow_inv_finish:
  assumes inv: "flow_inv s" and task: "map_of (fl_tasks s) i = Some task" "op_of task = Some op"
  shows "flow_inv (finish_op i op s)"
proof -
  have fresh: "fresh_table (fl_next s) (fl_tasks s)" and ok: "op_flags_ok s"
    using inv by (simp_all add: flow_inv_def)
  have eq: "fl_tasks (finish_op i op s) = AList.delete i (fl_tasks s)" "fl_next (finish_op i op s) = fl_next s"
    by (cases op; simp add: finish_op_def end_model_wait_def flow_end_task_def)+
  have keep: "in_flight P s \<Longrightarrow> \<not> P (Some op) \<Longrightarrow> in_flight P (finish_op i op s)" for P
    using fresh task by (simp add: in_flight_def eq has_entry_delete)
  have "op_flags_ok (finish_op i op s)"
    using ok keep unfolding op_flags_ok_def
    by (cases op) (simp_all add: finish_op_def end_model_wait_def)
  then show ?thesis
    using fresh by (simp add: flow_inv_def eq)
qed

lemma flow_inv_failed:
  "flow_inv s \<Longrightarrow> map_of (fl_tasks s) i = Some task \<Longrightarrow> op_of task = Some op \<Longrightarrow>
    flow_inv (fst (op_failed env i op sid e s))"
  by (simp add: op_failed_def flow_inv_move)

lemma flow_inv_waited:
  "flow_inv s \<Longrightarrow> map_of (fl_tasks s) i = Some task \<Longrightarrow> op_of task = Some op \<Longrightarrow>
    flow_inv (fst (job_waited env i op sid r s))"
  by (cases r) (auto simp: job_waited_def flow_inv_failed flow_inv_move)

text \<open>The two operations that end with the sending flag (and the optimistic step) only.\<close>

lemma flow_inv_plain_end:
  assumes "flow_inv s" and "map_of (fl_tasks s) i = Some task" and "op_of task = None"
  shows "flow_inv ((flow_end_task i s)\<lparr>fl_sending := False\<rparr>)"
    and "flow_inv ((flow_end_task i s)\<lparr>fl_sending := False, fl_optimistic := None\<rparr>)"
    and "flow_inv ((flow_end_task i s)\<lparr>fl_session := x, fl_force_selection := b, fl_sending := False\<rparr>)"
    and "flow_inv ((flow_end_task i s)\<lparr>fl_session := x, fl_sending := False, fl_optimistic := None\<rparr>)"
proof -
  have fresh: "fresh_table (fl_next s) (fl_tasks s)" and ok: "op_flags_ok s"
    using assms(1) by (simp_all add: flow_inv_def)
  have keep: "in_flight P s \<Longrightarrow> \<not> P None \<Longrightarrow> has_entry (P \<circ> op_of) (AList.delete i (fl_tasks s))" for P
    using fresh assms(2,3) by (simp add: in_flight_def has_entry_delete)
  show "flow_inv ((flow_end_task i s)\<lparr>fl_sending := False\<rparr>)"
    "flow_inv ((flow_end_task i s)\<lparr>fl_sending := False, fl_optimistic := None\<rparr>)"
    "flow_inv ((flow_end_task i s)\<lparr>fl_session := x, fl_force_selection := b, fl_sending := False\<rparr>)"
    "flow_inv ((flow_end_task i s)\<lparr>fl_session := x, fl_sending := False, fl_optimistic := None\<rparr>)"
    using fresh ok keep unfolding flow_inv_def op_flags_ok_def in_flight_def
    by (simp_all add: flow_end_task_def)
qed

lemma flow_inv_resume:
  assumes inv: "flow_inv s" and task: "map_of (fl_tasks s) i = Some task"
  shows "flow_inv (fst (flow_resume env i task a s))"
proof -
  have inv': "flow_inv (s\<lparr>fl_session := x\<rparr>)" "map_of (fl_tasks (s\<lparr>fl_session := x\<rparr>)) i = Some task" for x
    using inv task by simp_all
  show ?thesis
    using inv task flow_inv_plain_end [OF inv task] flow_inv_finish [OF inv task] flow_inv_finish [OF inv']
      flow_inv_failed [OF inv task] flow_inv_waited [OF inv task] flow_inv_move [OF inv task] flow_inv_move [OF inv']
    by (cases task; cases a)
      (auto simp: flow_resume_def flow_started_def back_answered_def job_started_def chat_job_run_def refreshed_def
        resynced_def retry_read_def retry_back_def retry_reread_def Let_def
        intro!: flow_inv_move split: sum.splits option.splits)
qed


lemma flow_inv_wait_done:
  assumes inv: "flow_inv s"
  shows "flow_inv (fst (wait_done env i r s))"
proof -
  let ?s = "s\<lparr>fl_waits := AList.delete i (fl_waits s)\<rparr>"
  have inv': "flow_inv ?s" using inv by simp
  show ?thesis
  proof (cases "map_of (fl_tasks s) i")
    case None
    with inv' show ?thesis using inv by (simp add: wait_done_def)
  next
    case (Some task)
    then have t: "map_of (fl_tasks ?s) i = Some task" by simp
    show ?thesis
      using inv inv' Some flow_inv_waited [OF inv' t] flow_inv_move [OF inv' t]
      by (cases task) (auto simp: wait_done_def Let_def split: option.splits)
  qed
qed

text \<open>Starting an operation.\<close>

lemma flow_inv_start:
  assumes "flow_inv s" and "fl_tasks s' = fl_tasks s" and "fl_next s' = fl_next s"
    and "fl_pending s' = fl_pending s \<or> op_of task = Some OpSend"
    and "fl_code_loading s' = fl_code_loading s \<or> op_of task \<notin> {None, Some OpSend}"
    and "fl_optimistic s' = fl_optimistic s \<or> op_of task = Some OpAdvance"
    and "fl_wait_started s' = fl_wait_started s \<or> op_of task \<noteq> None"
  shows "flow_inv (flow_start_task task s')"
proof -
  let ?t = "flow_start_task task s'"
  have fl: "in_flight P ?t \<longleftrightarrow> in_flight P s \<or> P (op_of task)" for P
    using assms(2) by (simp add: in_flight_def flow_start_task_def)
  have fields: "fl_pending ?t = fl_pending s'" "fl_code_loading ?t = fl_code_loading s'"
    "fl_optimistic ?t = fl_optimistic s'" "fl_wait_started ?t = fl_wait_started s'"
    by (simp_all add: flow_start_task_def)
  have fresh: "fresh_table (fl_next ?t) (fl_tasks ?t)"
    using assms(1-3) by (simp add: flow_inv_def flow_start_task_def)
  have ok: "op_flags_ok s" using assms(1) by (simp add: flow_inv_def)
  have "op_flags_ok ?t"
    unfolding op_flags_ok_def fl fields
  proof (intro conjI)
    show "fl_pending s' \<noteq> None \<longrightarrow> in_flight (\<lambda>o'. o' = Some OpSend) s \<or> op_of task = Some OpSend"
      using assms(4) ok by (auto simp: op_flags_ok_def)
    show "fl_code_loading s' \<longrightarrow> in_flight (\<lambda>o'. o' \<notin> {None, Some OpSend}) s \<or> op_of task \<notin> {None, Some OpSend}"
      using assms(5) ok by (auto simp: op_flags_ok_def)
    show "fl_optimistic s' \<noteq> None \<longrightarrow> in_flight (\<lambda>o'. o' = Some OpAdvance) s \<or> op_of task = Some OpAdvance"
      using assms(6) ok by (auto simp: op_flags_ok_def)
    show "fl_wait_started s' \<noteq> None \<longrightarrow> in_flight (\<lambda>o'. o' \<noteq> None) s \<or> op_of task \<noteq> None"
      using assms(7) ok by (auto simp: op_flags_ok_def)
  qed simp
  with fresh show ?thesis by (simp add: flow_inv_def)
qed

lemma flow_inv_step:
  assumes "flow_inv s"
  shows "flow_inv (flow_next_state env s a)"
proof (cases a)
  case FlowReset
  then show ?thesis
    using assms by (simp add: flow_next_state_def flow_reset_def end_model_wait_def flow_inv_def op_flags_ok_def)
next
  case (FlowAnswer i ans)
  then show ?thesis
    using assms by (auto simp: flow_next_state_def flow_inv_resume split: option.splits)
next
  case (FlowWaitDone i r)
  then show ?thesis using assms by (simp add: flow_next_state_def flow_inv_wait_done)
next
  case (FlowAdvance now)
  show ?thesis
    using assms unfolding FlowAdvance
    by (cases "fl_session s")
      (auto simp: flow_next_state_def flow_advance_def Let_def begin_model_wait_def
        intro!: flow_inv_start [OF assms] split: option.splits)
qed (use assms in \<open>auto simp: flow_next_state_def set_selected_agents_def start_flow_def flow_send_message_def
    flow_reject_code_def flow_retry_def flow_back_def wait_tick_def stream_chunk_def Let_def begin_model_wait_def
    intro!: flow_inv_start split: option.splits\<close>)

lemma flow_inv_init: "flow_inv flow_init"
  by (simp add: flow_inv_def op_flags_ok_def flow_init_def)

interpretation debate_flow: machine flow_init "flow_next_state env" flow_inv
  by unfold_locales (simp_all add: flow_inv_init flow_inv_step)

text \<open>What the page shows of an activity.\<close>

definition page_active :: "flow_state \<Rightarrow> bool" where
  "page_active s \<longleftrightarrow> fl_sending s \<or> fl_code_loading s \<or> fl_pending s \<noteq> None \<or>
     fl_optimistic s \<noteq> None \<or> fl_wait_started s \<noteq> None"

text \<open>
  When nothing is in flight the page shows no activity: no message is pending, no code is loading, no
  step is shown ahead of the session, and nothing is waited for.
\<close>

theorem debate_flow_settles_quiet:
  "\<not> (fl_tasks (run (flow_next_state env) flow_init es) = [] \<and>
      page_active (run (flow_next_state env) flow_init es))"
  using debate_flow.inv_run [of env es] by (auto simp: flow_inv_def op_flags_ok_def in_flight_def page_active_def)

end
