(* ===== verification/DebateRuns.thy ===== *)
theory DebateRuns
  imports DebateFlow
begin

text \<open>
  Runs of the debate page: the length of an operation, a whole advance, what is shown of a stream and of
  the steps, and operations that overlap.
\<close>

subsection \<open>Every operation ends\<close>

text \<open>An answer from outside: of a request, or of the wait for a job.\<close>

type_synonym flow_event = "nat \<times> (flow_answer + unit reply)"

fun flow_event_action :: "flow_event \<Rightarrow> flow_action" where
  "flow_event_action (i, Inl a) = FlowAnswer i a"
| "flow_event_action (i, Inr r) = FlowWaitDone i r"

text \<open>The task it resumes, if it is what the task waits for.\<close>

fun answers_task :: "flow_task \<Rightarrow> flow_answer \<Rightarrow> bool" where
  "answers_task (FtJob _ _) (FaJob _) = True"
| "answers_task (FtRun _ _) (FaDone _) = True"
| "answers_task (FtJob _ _) _ = False"
| "answers_task (FtRun _ _) _ = False"
| "answers_task (FtWait _ _) _ = False"
| "answers_task _ (FaSession _) = True"
| "answers_task _ _ = False"

fun effective_event :: "flow_state \<Rightarrow> flow_event \<Rightarrow> bool" where
  "effective_event s (i, Inl a) =
     (case map_of (fl_tasks s) i of None \<Rightarrow> False | Some task \<Rightarrow> answers_task task a)"
| "effective_event s (i, Inr r) =
     (map_of (fl_waits s) i \<noteq> None \<and>
      (case map_of (fl_tasks s) i of
         Some (FtWait _ _) \<Rightarrow> True | Some (FtRun _ None) \<Rightarrow> True | _ \<Rightarrow> False))"

fun effective_events :: "flow_env \<Rightarrow> flow_state \<Rightarrow> flow_event list \<Rightarrow> nat" where
  "effective_events env s [] = 0"
| "effective_events env s (e # es) =
     of_bool (effective_event s e) + effective_events env (flow_next_state env s (flow_event_action e)) es"

lemma rank_positive [simp]: "0 < flow_rank task"
  by (cases task) simp_all

lemma work_move:
  "map_of (fl_tasks s) i = Some task \<Longrightarrow> flow_rank task' < flow_rank task \<Longrightarrow>
    flow_work (flow_move_task i task' s) < flow_work s"
  by (simp add: flow_work_def flow_move_task_def table_work_update)

lemma work_delete:
  "map_of (fl_tasks s) i = Some task \<Longrightarrow> table_work flow_rank (AList.delete i (fl_tasks s)) < flow_work s"
  unfolding flow_work_def by (erule table_work_delete) simp

lemma work_finish: "map_of (fl_tasks s) i = Some task \<Longrightarrow> flow_work (finish_op i op s) < flow_work s"
  using work_delete [of s i task]
  by (cases op) (simp_all add: flow_work_def finish_op_def end_model_wait_def flow_end_task_def)

lemma work_end:
  "map_of (fl_tasks s) i = Some task \<Longrightarrow> flow_work (flow_end_task i s) < flow_work s"
  using work_delete [of s i task] by (simp add: flow_work_def flow_end_task_def)

lemma work_view [simp]:
  "flow_work (s\<lparr>fl_session := x\<rparr>) = flow_work s" "flow_work (s\<lparr>fl_sending := b\<rparr>) = flow_work s"
  "flow_work (s\<lparr>fl_force_selection := b\<rparr>) = flow_work s" "flow_work (s\<lparr>fl_optimistic := q\<rparr>) = flow_work s"
  "flow_work (s\<lparr>fl_waits := w\<rparr>) = flow_work s" "flow_work (s\<lparr>fl_advance_preview := p\<rparr>) = flow_work s"
  by (simp_all add: flow_work_def)

lemma flow_work_resume:
  assumes task: "map_of (fl_tasks s) i = Some task" and a: "answers_task task a"
  shows "flow_work (fst (flow_resume env i task a s)) < flow_work s"
proof -
  have task': "map_of (fl_tasks (s\<lparr>fl_session := x\<rparr>)) i = Some task"
    "map_of (fl_tasks (s\<lparr>fl_waits := w\<rparr>)) i = Some task"
    "map_of (fl_tasks (s\<lparr>fl_session := x, fl_advance_preview := []\<rparr>)) i = Some task" for x w
    using task by simp_all
  note facts = work_finish [OF task] work_finish [OF task'(1)] work_end [OF task]
    work_move [OF task] work_move [OF task'(1)] work_move [OF task'(2)] work_move [OF task'(3)]
  show ?thesis
    using a facts
    by (cases task; cases a)
      (auto simp: flow_resume_def flow_started_def back_answered_def job_started_def chat_job_run_def
        job_waited_def refreshed_def resynced_def retry_read_def retry_back_def retry_reread_def op_failed_def Let_def
        split: sum.splits option.splits)
qed

lemma flow_work_wait_done:
  "flow_work (fst (wait_done env i r s)) + of_bool (effective_event s (i, Inr r)) \<le> flow_work s"
proof (cases "map_of (fl_tasks s) i")
  case None
  then show ?thesis by (simp add: wait_done_def)
next
  case (Some task)
  have t: "map_of (fl_tasks (s\<lparr>fl_waits := w\<rparr>)) i = Some task" for w
    using Some by simp
  show ?thesis
    using Some work_move [OF t]
    by (cases task) (auto simp: wait_done_def Let_def job_waited_def op_failed_def Suc_le_eq
        split: option.splits sum.splits)
qed

lemma flow_resume_ignored: "\<not> answers_task task a \<Longrightarrow> flow_resume env i task a s = (s, [])"
  by (cases task; cases a) (simp_all add: flow_resume_def)

lemma flow_work_event:
  "flow_work (flow_next_state env s (flow_event_action e)) + of_bool (effective_event s e) \<le> flow_work s"
proof (cases e)
  case (Pair i x)
  show ?thesis
  proof (cases x)
    case (Inl a)
    show ?thesis
    proof (cases "map_of (fl_tasks s) i")
      case None
      then show ?thesis by (simp add: Pair Inl flow_next_state_def)
    next
      case (Some task)
      then show ?thesis
        using flow_work_resume [OF Some, of a env] flow_resume_ignored [of task a env i s]
        by (cases "answers_task task a") (simp_all add: Pair Inl flow_next_state_def)
    qed
  next
    case (Inr r)
    then show ?thesis
      using flow_work_wait_done [of env i r s] by (simp add: Pair flow_next_state_def)
  qed
qed

lemma effective_events_work: "effective_events env s es \<le> flow_work s"
proof (induction es arbitrary: s)
  case Nil
  then show ?case by simp
next
  case (Cons e es)
  have "effective_events env (flow_next_state env s (flow_event_action e)) es
      \<le> flow_work (flow_next_state env s (flow_event_action e))"
    by (rule Cons.IH)
  with flow_work_event [of env s e] show ?case
    unfolding effective_events.simps by linarith
qed

lemma flow_work_bound: "flow_work s \<le> 9 * length (fl_tasks s)"
proof -
  have "flow_rank task \<le> 9" for task by (cases task) simp_all
  then have "table_work flow_rank al \<le> 9 * length al" for al :: "(nat \<times> flow_task) list"
    by (induction al) (auto simp: table_work_def intro: add_mono)
  then show ?thesis by (simp add: flow_work_def)
qed

text \<open>
  What a task waits for is asked for: a task at a wait has its wait open, and the requests that were sent are those
  that were answered to their task and those that the tasks in flight still wait for.
\<close>

fun awaits_request :: "flow_task \<Rightarrow> bool" where
  "awaits_request (FtWait _ _) = False"
| "awaits_request _ = True"

fun awaits_wait :: "flow_task \<Rightarrow> bool" where
  "awaits_wait (FtWait _ _) = True"
| "awaits_wait (FtRun _ None) = True"
| "awaits_wait _ = False"

definition waits_open :: "flow_state \<Rightarrow> bool" where
  "waits_open s \<longleftrightarrow> (\<forall>p \<in> set (fl_tasks s). awaits_wait (snd p) \<longrightarrow> map_of (fl_waits s) (fst p) \<noteq> None)"

definition requests_owed :: "flow_state \<Rightarrow> nat" where
  "requests_owed s = table_work (\<lambda>task. of_bool (awaits_request task)) (fl_tasks s)"

fun is_request :: "flow_effect \<Rightarrow> bool" where
  "is_request (FlowRequest _) = True"
| "is_request _ = False"

fun takes_answer :: "flow_state \<Rightarrow> flow_action \<Rightarrow> bool" where
  "takes_answer s (FlowAnswer i a) = effective_event s (i, Inl a)"
| "takes_answer s _ = False"

fun answers_taken :: "flow_env \<Rightarrow> flow_state \<Rightarrow> flow_action list \<Rightarrow> nat" where
  "answers_taken env s [] = 0"
| "answers_taken env s (a # as) = of_bool (takes_answer s a) + answers_taken env (flow_next_state env s a) as"

lemma owed_update:
  "map_of al i = Some x \<Longrightarrow> table_work r (AList.update i y al) + r x = table_work r al + r y"
  by (induction al) (auto simp: table_work_def split: if_splits)

lemma owed_delete:
  "distinct (List.map fst al) \<Longrightarrow> map_of al i = Some x \<Longrightarrow> table_work r (AList.delete i al) + r x = table_work r al"
proof (induction al)
  case (Cons p al)
  then show ?case
    by (cases p) (auto simp: table_work_def delete_idem split: if_splits)
qed simp

lemma owed_view [simp]:
  "requests_owed (s\<lparr>fl_session := x\<rparr>) = requests_owed s" "requests_owed (s\<lparr>fl_sending := b\<rparr>) = requests_owed s"
  "requests_owed (s\<lparr>fl_force_selection := b\<rparr>) = requests_owed s" "requests_owed (s\<lparr>fl_optimistic := q\<rparr>) = requests_owed s"
  "requests_owed (s\<lparr>fl_waits := w\<rparr>) = requests_owed s" "requests_owed (s\<lparr>fl_advance_preview := p\<rparr>) = requests_owed s"
  by (simp_all add: requests_owed_def)

lemma owed_move:
  "map_of (fl_tasks s) i = Some task \<Longrightarrow>
    requests_owed (flow_move_task i task' s) + of_bool (awaits_request task) = requests_owed s + of_bool (awaits_request task')"
  using owed_update [of "fl_tasks s" i task "\<lambda>task. of_bool (awaits_request task)" task']
  by (simp add: requests_owed_def flow_move_task_def)

lemma owed_end:
  assumes "flow_inv s" "map_of (fl_tasks s) i = Some task"
  shows "requests_owed (flow_end_task i s) + of_bool (awaits_request task) = requests_owed s"
    and "requests_owed (finish_op i op s) + of_bool (awaits_request task) = requests_owed s"
proof -
  have eq: "fl_tasks (finish_op i op s) = AList.delete i (fl_tasks s)"
    by (cases op) (simp_all add: finish_op_def end_model_wait_def flow_end_task_def)
  show "requests_owed (flow_end_task i s) + of_bool (awaits_request task) = requests_owed s"
    "requests_owed (finish_op i op s) + of_bool (awaits_request task) = requests_owed s"
    using owed_delete [OF _ assms(2), of "\<lambda>task. of_bool (awaits_request task)"] assms(1)
    by (simp_all add: requests_owed_def flow_inv_def fresh_table_def flow_end_task_def eq)
qed

lemma owed_start: "fl_tasks s' = fl_tasks s \<Longrightarrow>
    requests_owed (flow_start_task task s') = requests_owed s + of_bool (awaits_request task)"
  by (simp add: requests_owed_def flow_start_task_def table_work_def)

lemma owed_resume:
  assumes inv: "flow_inv s" and task: "map_of (fl_tasks s) i = Some task" and a: "answers_task task a"
  shows "requests_owed (fst (flow_resume env i task a s)) + 1 =
    requests_owed s + length (filter is_request (snd (flow_resume env i task a s)))"
proof -
  have inv': "flow_inv (s\<lparr>fl_session := x\<rparr>)" "map_of (fl_tasks (s\<lparr>fl_session := x\<rparr>)) i = Some task"
    "map_of (fl_tasks (s\<lparr>fl_waits := w\<rparr>)) i = Some task"
    "map_of (fl_tasks (s\<lparr>fl_session := x, fl_advance_preview := []\<rparr>)) i = Some task" for x w
    using inv task by simp_all
  note facts = owed_end [OF inv task] owed_end [OF inv'(1,2)] owed_move [OF task] owed_move [OF inv'(2)]
    owed_move [OF inv'(3)] owed_move [OF inv'(4)]
  show ?thesis
    using a facts
    by (cases task; cases a)
      (auto simp: flow_resume_def flow_started_def back_answered_def job_started_def chat_job_run_def flow_error_toast_def
        job_waited_def refreshed_def resynced_def retry_read_def retry_back_def retry_reread_def op_failed_def Let_def
        split: sum.splits option.splits)
qed

lemma owed_wait_done:
  "requests_owed (fst (wait_done env i r s)) = requests_owed s + length (filter is_request (snd (wait_done env i r s)))"
proof (cases "map_of (fl_tasks s) i")
  case None
  then show ?thesis by (simp add: wait_done_def)
next
  case (Some task)
  have t: "map_of (fl_tasks (s\<lparr>fl_waits := w\<rparr>)) i = Some task" for w
    using Some by simp
  have run: "requests_owed (flow_move_task i (FtRun sid (Some r)) (s\<lparr>fl_waits := w\<rparr>)) = requests_owed s"
    if "task = FtRun sid None" for sid w
    using owed_move [OF t, where task' = "FtRun sid (Some r)"] that by simp
  show ?thesis
    using Some owed_move [OF t] run
    by (cases task) (auto simp: wait_done_def Let_def job_waited_def op_failed_def flow_error_toast_def
        split: option.splits sum.splits)
qed

lemma owed_step:
  assumes "flow_inv s"
  shows "requests_owed (flow_next_state env s a) + of_bool (takes_answer s a) =
    requests_owed s + length (filter is_request (snd (flow_step env s a)))"
proof (cases a)
  case (FlowAnswer i ans)
  show ?thesis
  proof (cases "map_of (fl_tasks s) i")
    case (Some task)
    then show ?thesis
      using owed_resume [OF assms Some, of ans env] flow_resume_ignored [of task ans env i s]
      by (cases "answers_task task ans") (simp_all add: FlowAnswer flow_next_state_def)
  qed (simp add: FlowAnswer flow_next_state_def)
next
  case (FlowWaitDone i r)
  then show ?thesis using owed_wait_done [of env i r s] by (simp add: flow_next_state_def)
next
  case (FlowAdvance now)
  then show ?thesis
    by (cases "fl_session s") (auto simp: flow_next_state_def flow_advance_def Let_def begin_model_wait_def owed_start [of _ s]
        split: option.splits)
qed (auto simp: flow_next_state_def set_selected_agents_def start_flow_def flow_send_message_def flow_reject_code_def
    flow_retry_def flow_back_def flow_reset_def end_model_wait_def wait_tick_def stream_chunk_def Let_def begin_model_wait_def
    flow_start_task_def requests_owed_def table_work_def split: option.splits)

lemma owed_run:
  "flow_inv s \<Longrightarrow> answers_taken env s acts + requests_owed (run (flow_next_state env) s acts) =
    requests_owed s + length (filter is_request (run_log (flow_next_state env) (\<lambda>s a. snd (flow_step env s a)) s acts))"
proof (induction acts arbitrary: s)
  case (Cons a acts)
  from Cons.IH [OF flow_inv_step [OF Cons.prems, of env a]] owed_step [OF Cons.prems, of env a] show ?case by simp
qed simp

text \<open>The waits that tasks are at are open.\<close>

lemma waits_open_change:
  assumes "waits_open s"
    and "\<And>p. p \<in> set (fl_tasks s') \<Longrightarrow> awaits_wait (snd p) \<Longrightarrow> map_of (fl_waits s') (fst p) = None \<Longrightarrow>
      p \<in> set (fl_tasks s) \<and> map_of (fl_waits s) (fst p) = None"
  shows "waits_open s'"
  unfolding waits_open_def
proof (intro ballI impI notI)
  fix p
  assume "p \<in> set (fl_tasks s')" "awaits_wait (snd p)" "map_of (fl_waits s') (fst p) = None"
  moreover from assms(2) [OF this] have "p \<in> set (fl_tasks s)" "map_of (fl_waits s) (fst p) = None" by simp_all
  ultimately show False using assms(1) unfolding waits_open_def by blast
qed

lemma waits_open_move:
  assumes "flow_inv s" "waits_open s" "awaits_wait task' \<longrightarrow> map_of (fl_waits s) i \<noteq> None"
  shows "waits_open (flow_move_task i task' s)"
    and "\<not> awaits_wait task' \<Longrightarrow> waits_open (flow_move_task i task' (s\<lparr>fl_waits := AList.delete i (fl_waits s)\<rparr>))"
  by (rule waits_open_change [OF assms(2)];
      use assms(1,3) in \<open>force simp: flow_move_task_def flow_inv_def fresh_table_def set_update delete_conv' map_add_def
        split: option.splits if_splits\<close>)+

lemma waits_open_opened:
  assumes "flow_inv s" "waits_open s"
  shows "waits_open (flow_move_task i task' (s\<lparr>fl_waits := fl_waits s @ [(i, op)]\<rparr>))"
  by (rule waits_open_change [OF assms(2)];
      use assms(1) in \<open>force simp: flow_move_task_def flow_inv_def fresh_table_def set_update map_add_def
        split: option.splits if_splits\<close>)

lemma waits_open_end:
  assumes "waits_open s"
  shows "waits_open (flow_end_task i s)" "waits_open (finish_op i op s)"
proof -
  have eq: "fl_tasks (finish_op i op s) = AList.delete i (fl_tasks s)" "fl_waits (finish_op i op s) = fl_waits s"
    by (cases op; simp add: finish_op_def end_model_wait_def flow_end_task_def)+
  show "waits_open (flow_end_task i s)" "waits_open (finish_op i op s)"
    using assms by (auto simp: waits_open_def eq flow_end_task_def set_delete)
qed

lemma waits_open_view [simp]:
  "waits_open (s\<lparr>fl_session := x\<rparr>) = waits_open s" "waits_open (s\<lparr>fl_sending := b\<rparr>) = waits_open s"
  "waits_open (s\<lparr>fl_force_selection := b\<rparr>) = waits_open s" "waits_open (s\<lparr>fl_optimistic := q\<rparr>) = waits_open s"
  "waits_open (s\<lparr>fl_advance_preview := p\<rparr>) = waits_open s"
  by (simp_all add: waits_open_def)

lemma waits_open_resume:
  assumes inv: "flow_inv s" and w: "waits_open s" and task: "map_of (fl_tasks s) i = Some task"
  shows "waits_open (fst (flow_resume env i task a s))"
proof -
  have there: "awaits_wait task \<longrightarrow> map_of (fl_waits s) i \<noteq> None"
    using w map_of_SomeD [OF task] by (force simp: waits_open_def)
  have inv': "flow_inv (s\<lparr>fl_session := x\<rparr>)" "waits_open (s\<lparr>fl_session := x\<rparr>)"
    "flow_inv (s\<lparr>fl_session := x, fl_advance_preview := []\<rparr>)" "waits_open (s\<lparr>fl_session := x, fl_advance_preview := []\<rparr>)" for x
    using inv w by simp_all
  note moves = waits_open_move(1) [OF inv w] waits_open_opened [OF inv w] waits_open_move(1) [OF inv'(1,2)] waits_open_move(1) [OF inv'(3,4)]
    waits_open_end [OF w] waits_open_end [OF inv'(2)]
  show ?thesis
    using there w
    by (cases task; cases a)
      (auto simp: flow_resume_def flow_started_def back_answered_def job_started_def chat_job_run_def
        job_waited_def refreshed_def resynced_def retry_read_def retry_back_def retry_reread_def op_failed_def Let_def moves
        split: sum.splits option.splits)
qed

lemma waits_open_wait_done:
  assumes inv: "flow_inv s" and w: "waits_open s"
  shows "waits_open (fst (wait_done env i r s))"
proof -
  have gone: "waits_open (s\<lparr>fl_waits := AList.delete i (fl_waits s)\<rparr>)"
    if "\<And>task. map_of (fl_tasks s) i = Some task \<Longrightarrow> \<not> awaits_wait task"
  proof (rule waits_open_change [OF w])
    fix p
    assume p: "p \<in> set (fl_tasks (s\<lparr>fl_waits := AList.delete i (fl_waits s)\<rparr>))" "awaits_wait (snd p)"
      "map_of (fl_waits (s\<lparr>fl_waits := AList.delete i (fl_waits s)\<rparr>)) (fst p) = None"
    then have "map_of (fl_tasks s) (fst p) = Some (snd p)"
      using inv by (simp add: flow_inv_def fresh_table_def)
    with p that show "p \<in> set (fl_tasks s) \<and> map_of (fl_waits s) (fst p) = None"
      by (auto simp: delete_conv' split: if_splits)
  qed
  show ?thesis
  proof (cases "map_of (fl_tasks s) i")
    case None
    with gone w show ?thesis by (simp add: wait_done_def)
  next
    case (Some task)
    then show ?thesis
      using w gone waits_open_move(2) [OF inv w]
      by (cases task) (auto simp: wait_done_def Let_def job_waited_def op_failed_def split: option.splits sum.splits)
  qed
qed

lemma waits_open_start:
  "waits_open s \<Longrightarrow> fl_tasks s' = fl_tasks s \<Longrightarrow> fl_waits s' = fl_waits s \<Longrightarrow> \<not> awaits_wait task \<Longrightarrow>
    waits_open (flow_start_task task s')"
  by (auto simp: waits_open_def flow_start_task_def)

lemma waits_open_step:
  assumes inv: "flow_inv s" and w: "waits_open s"
  shows "waits_open (flow_next_state env s a)"
proof (cases a)
  case (FlowAnswer i ans)
  then show ?thesis using w by (auto simp: flow_next_state_def waits_open_resume [OF inv w] split: option.splits)
next
  case (FlowWaitDone i r)
  then show ?thesis by (simp add: flow_next_state_def waits_open_wait_done [OF inv w])
next
  case (FlowAdvance now)
  then show ?thesis
    using w by (cases "fl_session s") (auto simp: flow_next_state_def flow_advance_def Let_def begin_model_wait_def
        intro!: waits_open_start split: option.splits)
qed (use w in \<open>auto simp: flow_next_state_def set_selected_agents_def start_flow_def flow_send_message_def flow_reject_code_def
    flow_retry_def flow_back_def flow_reset_def end_model_wait_def wait_tick_def stream_chunk_def Let_def begin_model_wait_def
    waits_open_def flow_start_task_def split: option.splits\<close>)

interpretation debate_progress: machine flow_init "flow_next_state env" "\<lambda>s. flow_inv s \<and> waits_open s"
  by unfold_locales (simp_all add: flow_inv_init flow_inv_step waits_open_step, simp add: waits_open_def flow_init_def)

lemma task_goes_on:
  assumes "flow_inv s" "waits_open s" "p \<in> set (fl_tasks s)"
  shows "\<exists>x. effective_event s (fst p, x)"
proof -
  have p: "map_of (fl_tasks s) (fst p) = Some (snd p)"
    using assms(1,3) by (simp add: flow_inv_def fresh_table_def)
  show ?thesis
  proof (cases "\<exists>op sid. snd p = FtWait op sid")
    case True
    with p assms(2,3) have "effective_event s (fst p, Inr (Inr ()))" by (auto simp: waits_open_def)
    then show ?thesis ..
  next
    case False
    define r :: "debate_session reply" where "r = Inl (ThrownError [])"
    have "answers_task (snd p) (FaSession r) \<or> answers_task (snd p) (FaJob (Inl (ThrownError []))) \<or> answers_task (snd p) (FaDone (Inr ()))"
      using False by (cases "snd p") simp_all
    with p have "effective_event s (fst p, Inl (FaSession r)) \<or> effective_event s (fst p, Inl (FaJob (Inl (ThrownError [])))) \<or>
        effective_event s (fst p, Inl (FaDone (Inr ())))" by simp
    then show ?thesis by blast
  qed
qed

text \<open>
  C8. Every operation of the page ends, whatever is done before: in every reachable state each operation in flight can
  go on, since what it waits for is an open wait or a request that was sent (the requests sent are those answered to
  their operation and those that operations in flight still wait for); whatever the answers are, all operations in
  flight together take no more than nine each; and when none is in flight the page shows no activity.
\<close>

theorem debate_operations_end:
  fixes env acts es
  defines "s \<equiv> run (flow_next_state env) flow_init acts"
    and "sent \<equiv> run_log (flow_next_state env) (\<lambda>s a. snd (flow_step env s a)) flow_init acts"
  shows "list_all (\<lambda>p. \<exists>x. effective_event s (fst p, x)) (fl_tasks s) \<and>
    length (filter is_request sent) = answers_taken env flow_init acts + requests_owed s \<and>
    effective_events env s es \<le> flow_work s \<and> flow_work s \<le> 9 * length (fl_tasks s) \<and>
    \<not> (fl_tasks s = [] \<and> page_active s)"
proof -
  have inv: "flow_inv s" "waits_open s" unfolding s_def using debate_progress.inv_run [of env acts] by simp_all
  have "requests_owed flow_init = 0" by (simp add: requests_owed_def table_work_def flow_init_def)
  then have "answers_taken env flow_init acts + requests_owed s = length (filter is_request sent)"
    unfolding s_def sent_def using owed_run [OF flow_inv_init, of env acts] by simp
  moreover have "\<not> (fl_tasks s = [] \<and> page_active s)" unfolding s_def by (rule debate_flow_settles_quiet)
  ultimately show ?thesis
    using task_goes_on [OF inv] effective_events_work flow_work_bound by (simp add: list_all_iff)
qed

subsection \<open>What is shown of a stream\<close>

text \<open>Pieces none of which begins with the text before it.\<close>

fun live_pieces :: "string \<Rightarrow> string list \<Rightarrow> bool" where
  "live_pieces prev [] = True"
| "live_pieces prev (d # ds) = (d \<noteq> [] \<and> (prev = [] \<or> \<not> js_starts d prev) \<and> live_pieces (prev @ d) ds)"

lemma merge_live: "live_pieces prev ds \<Longrightarrow> foldl merge_stream_chunk prev ds = prev @ concat ds"
proof (induction ds arbitrary: prev)
  case (Cons d ds)
  then have "merge_stream_chunk prev d = prev @ d"
    by (auto simp: merge_stream_chunk_def js_starts_def)
  with Cons show ?case by simp
qed simp

text \<open>
  The preview of a stream whose pieces do not begin with the text before them is the whole text, also
  after a reconnect that sends what was already shown and more.
\<close>

theorem stream_preview_complete:
  assumes "live_pieces [] ds"
  shows "foldl merge_stream_chunk [] ds = concat ds \<and>
    foldl merge_stream_chunk [] (ds @ [concat ds @ rest]) = concat ds @ rest"
  using merge_live [OF assms] by (auto simp: merge_stream_chunk_def js_starts_def)

theorem stream_preview_complete_witness:
  "foldl merge_stream_chunk [] [''def '', ''run'', ''(x)''] = ''def run(x)'' \<and>
   foldl merge_stream_chunk [] ([''def '', ''run'', ''(x)''] @ [''def run(x)'' @ '':'']) = ''def run(x)'' @ '':''"
  using stream_preview_complete [of "[''def '', ''run'', ''(x)'']" "'':''"] by (simp add: js_starts_def merge_stream_chunk_def)

text \<open>A stream that begins by saying the same thing twice is shown as saying it once.\<close>

theorem stream_preview_drops_repeat:
  "foldl merge_stream_chunk [] [d, d] = d \<and> foldl merge_stream_chunk [] [d, d @ e] = d @ e"
  by (simp add: merge_stream_chunk_def js_starts_def)

subsection \<open>Steps\<close>

lemma agent_key_unknown [simp]: "agent_key_of (unknown_agent key) = key"
  by (simp add: agent_key_of_def unknown_agent_def)

lemma effective_agent_keys:
  "fl_session s = Some x \<Longrightarrow> List.map agent_key_of (effective_agents s) = se_agents x"
proof -
  have "agent_key_of (case map_of (rev (List.map (\<lambda>a. (agent_key_of a, a)) as)) key of
      Some a \<Rightarrow> a | None \<Rightarrow> unknown_agent key) = key" for as key
    by (auto dest!: map_of_SomeD split: option.splits)
  then show "fl_session s = Some x \<Longrightarrow> List.map agent_key_of (effective_agents s) = se_agents x"
    by (simp add: effective_agents_def comp_def)
qed

text \<open>
  The steps of a session are the selection, the intent, one step for each agent of the server's list
  in its order, whatever agents are selected on the page, and the code; the index of the step that is
  shown is one of them.
\<close>

theorem debate_step_keys:
  "List.map fst (step_labels env (s\<lparr>fl_session := Some x\<rparr>)) =
     [''agent_selection'', ''intent''] @ List.map ((@) ''agent:'') (se_agents x) @ [''code''] \<and>
   step_index env s < length (step_labels env s)"
proof
  have "List.map agent_key_of (effective_agents (s\<lparr>fl_session := Some x\<rparr>)) = se_agents x"
    by (rule effective_agent_keys) simp
  then have "List.map ((@) ''agent:'' \<circ> agent_key_of) (effective_agents (s\<lparr>fl_session := Some x\<rparr>)) =
      List.map ((@) ''agent:'') (se_agents x)"
    by (metis map_map)
  then show "List.map fst (step_labels env (s\<lparr>fl_session := Some x\<rparr>)) =
     [''agent_selection'', ''intent''] @ List.map ((@) ''agent:'') (se_agents x) @ [''code'']"
    by (simp add: step_labels_def comp_def step_key_for_agent_def)
  have "find_index P xs = Some i \<Longrightarrow> i < length xs" for P i and xs :: "(string \<times> string) list"
    by (induction xs arbitrary: i) (auto split: if_splits)
  then show "step_index env s < length (step_labels env s)"
    by (cases "find_index (\<lambda>p. fst p = current_step s) (step_labels env s)")
      (simp_all add: step_index_def, simp add: step_labels_def)
qed

subsection \<open>A whole advance\<close>

lemma flow_key: "flow_inv s \<Longrightarrow> fl_next s \<notin> fst ` set (fl_tasks s)"
  by (simp add: flow_inv_def fresh_table_key)

text \<open>The state while an advance by a job is under way: its newest task, and its preview.\<close>

definition advancing :: "flow_env \<Rightarrow> int \<Rightarrow> flow_state \<Rightarrow> flow_task \<Rightarrow> (nat \<times> flow_op) list \<Rightarrow> string \<Rightarrow> flow_state" where
  "advancing env now s task waits preview =
     s\<lparr>fl_optimistic := next_step_key env s,
       fl_code_loading := (if next_step_key env s = Some ''code'' then True else fl_code_loading s),
       fl_wait_started := Some now, fl_wait_elapsed := 0, fl_sending := True, fl_advance_preview := preview,
       fl_tasks := fl_tasks s @ [(fl_next s, task)], fl_waits := waits, fl_next := Suc (fl_next s)\<rparr>"

definition advanced :: "flow_state \<Rightarrow> debate_session \<Rightarrow> flow_state" where
  "advanced s x = s\<lparr>fl_session := Some x, fl_optimistic := None, fl_code_loading := False,
     fl_wait_started := None, fl_wait_elapsed := 0, fl_sending := False, fl_advance_preview := [],
     fl_next := Suc (fl_next s)\<rparr>"

definition can_advance :: "flow_env \<Rightarrow> flow_state \<Rightarrow> debate_session \<Rightarrow> bool" where
  "can_advance env s x \<longleftrightarrow> flow_inv s \<and> fl_next s \<notin> fst ` set (fl_waits s) \<and> \<not> fl_sending s \<and>
     fl_session s = Some x \<and> async_advance (next_step_key env s)"

lemma advance_begins:
  assumes "can_advance env s x"
  shows "flow_advance env now s =
    (advancing env now s (FtJob OpAdvance (se_id x)) (fl_waits s) [],
     [FlowRequest (DrStartAdvanceJob (se_id x) (flow_locale env))])"
proof -
  obtain k where "next_step_key env s = Some k" "k \<noteq> []"
    using assms by (fastforce simp: can_advance_def async_advance_def js_starts_def split: option.splits)
  then show ?thesis
    using assms by (auto simp: can_advance_def flow_advance_def Let_def begin_model_wait_def flow_start_task_def advancing_def)
qed

lemma advancing_steps:
  assumes s: "can_advance env s x"
  shows "flow_step env (advancing env now s (FtJob OpAdvance sid) (fl_waits s) p) (FlowAnswer (fl_next s) (FaJob (Inr j))) =
      (advancing env now s (FtWait OpAdvance sid) (fl_waits s @ [(fl_next s, OpAdvance)]) p,
       [FlowOpenWait OpAdvance (jr_job_id j)])"
    and "flow_step env (advancing env now s (FtWait OpAdvance sid) (fl_waits s @ [(fl_next s, OpAdvance)]) p)
        (FlowChunk (fl_next s) d) =
      (advancing env now s (FtWait OpAdvance sid) (fl_waits s @ [(fl_next s, OpAdvance)]) (merge_stream_chunk p d), [])"
    and "flow_step env (advancing env now s (FtWait OpAdvance sid) (fl_waits s @ [(fl_next s, OpAdvance)]) p)
        (FlowWaitDone (fl_next s) (Inr ())) =
      (advancing env now s (FtRefresh OpAdvance sid) (fl_waits s) p, [FlowRequest (DrGetSession sid (flow_locale env))])"
    and "flow_step env (advancing env now s (FtRefresh OpAdvance sid) (fl_waits s) p)
        (FlowAnswer (fl_next s) (FaSession (Inr y))) = (advanced s y, [])"
  using s flow_key [of s]
  by (simp_all add: can_advance_def advancing_def map_of_last flow_resume_def job_started_def Let_def
      flow_move_task_def flow_end_task_def stream_chunk_def wait_done_def job_waited_def refreshed_def finish_op_def
      end_model_wait_def advanced_def del: map_of_append)

lemma advancing_chunks:
  assumes s: "can_advance env s x"
  shows "run (flow_next_state env) (advancing env now s (FtWait OpAdvance sid) (fl_waits s @ [(fl_next s, OpAdvance)]) p)
      (List.map (FlowChunk (fl_next s)) ds) =
    advancing env now s (FtWait OpAdvance sid) (fl_waits s @ [(fl_next s, OpAdvance)]) (foldl merge_stream_chunk p ds)"
proof (induction ds arbitrary: p)
  case (Cons d ds)
  then show ?case
    using advancing_steps(2) [OF s, of now sid p d] by (simp add: flow_next_state_def del: flow_step.simps)
qed simp

text \<open>
  C11. An advance to an agent or to the code that nothing interrupts and whose job, wait and reading of the session
  succeed: while the job streams, the page shows the next step and the merged pieces as the code's text, and in the
  end the session that the service then has, with no flag left up.
\<close>

theorem debate_advance_completes:
  fixes env s x now j ds y
  assumes "can_advance env s x"
  defines "streaming \<equiv> [FlowAdvance now, FlowAnswer (fl_next s) (FaJob (Inr j))] @ List.map (FlowChunk (fl_next s)) ds"
    and "ending \<equiv> [FlowWaitDone (fl_next s) (Inr ()), FlowAnswer (fl_next s) (FaSession (Inr y))]"
  shows "Some (current_step (run (flow_next_state env) s streaming)) = next_step_key env s \<and>
    fl_advance_preview (run (flow_next_state env) s streaming) = foldl merge_stream_chunk [] ds \<and>
    run (flow_next_state env) s (streaming @ ending) = advanced s y"
proof -
  let ?w = "fl_waits s @ [(fl_next s, OpAdvance)]"
  have streaming: "run (flow_next_state env) s streaming =
      advancing env now s (FtWait OpAdvance (se_id x)) ?w (foldl merge_stream_chunk [] ds)"
    using advancing_chunks [OF assms(1), of now "se_id x" "[]" ds] advancing_steps(1) [OF assms(1), of now "se_id x" "[]" j]
    by (simp add: streaming_def flow_next_state_def advance_begins [OF assms(1)] del: flow_step.simps(12))
  moreover obtain k where "next_step_key env s = Some k"
    using assms(1) by (auto simp: can_advance_def async_advance_def split: option.splits)
  ultimately have "Some (current_step (run (flow_next_state env) s streaming)) = next_step_key env s"
    "fl_advance_preview (run (flow_next_state env) s streaming) = foldl merge_stream_chunk [] ds"
    by (simp_all add: current_step_def advancing_def)
  moreover have "run (flow_next_state env) s (streaming @ ending) = advanced s y"
    using advancing_steps(3,4) [OF assms(1)]
    by (simp add: streaming ending_def flow_next_state_def del: flow_step.simps)
  ultimately show ?thesis by simp
qed

definition demo_flow_env :: flow_env where
  "demo_flow_env = \<lparr>fe_t = (\<lambda>k. k), fe_ti = (\<lambda>k vs. k), fe_language = ''en''\<rparr>"

definition demo_session :: "string \<Rightarrow> debate_session" where
  "demo_session step = \<lparr>se_id = ''s1'', se_title = [], se_status = [], se_current_step = step,
     se_agents = [''risk''], se_steps = [], se_param_schema = [], se_code = None, se_provider = None,
     se_model = None, se_usage = None, se_created_at = [], se_updated_at = []\<rparr>"

definition demo_flow :: flow_state where
  "demo_flow = flow_init\<lparr>fl_session := Some (demo_session ''intent'')\<rparr>"

lemma demo_flow_inv: "flow_inv demo_flow"
  by (simp add: demo_flow_def flow_inv_init)

lemma demo_can_advance: "can_advance demo_flow_env demo_flow (demo_session ''intent'')"
  unfolding can_advance_def using demo_flow_inv by (intro conjI, assumption) code_simp+

lemma demo_next: "next_step_key demo_flow_env demo_flow = Some ''agent:risk''" "fl_next demo_flow = 0"
  by code_simp+

theorem debate_advance_completes_witness:
  "current_step (run (flow_next_state demo_flow_env) demo_flow
     [FlowAdvance 1, FlowAnswer 0 (FaJob (Inr \<lparr>jr_job_id = ''j'', jr_session_id = ''s1''\<rparr>)), FlowChunk 0 ''a'']) =
     ''agent:risk'' \<and>
   fl_session (run (flow_next_state demo_flow_env) demo_flow
     [FlowAdvance 1, FlowAnswer 0 (FaJob (Inr \<lparr>jr_job_id = ''j'', jr_session_id = ''s1''\<rparr>)), FlowChunk 0 ''a'',
      FlowWaitDone 0 (Inr ()), FlowAnswer 0 (FaSession (Inr (demo_session ''agent:risk'')))]) =
     Some (demo_session ''agent:risk'')"
  using debate_advance_completes [OF demo_can_advance, of 1 "\<lparr>jr_job_id = ''j'', jr_session_id = ''s1''\<rparr>" "[''a'']"
      "demo_session ''agent:risk''"]
  by (simp add: demo_next advanced_def del: run_Cons)

lemma find_index_nth:
  "distinct (List.map fst xs) \<Longrightarrow> k < length xs \<Longrightarrow> find_index (\<lambda>p. fst p = fst (xs ! k)) xs = Some k"
proof (induction xs arbitrary: k)
  case (Cons p xs)
  show ?case
  proof (cases k)
    case 0
    then show ?thesis by simp
  next
    case (Suc m)
    with Cons.prems have "fst (xs ! m) \<in> set (List.map fst xs)" by (simp add: nth_mem)
    with Cons.prems(1) have "fst p \<noteq> fst (xs ! m)"
      by (metis distinct.simps(2) list.simps(9))
    with Suc Cons show ?thesis by simp
  qed
qed simp

text \<open>
  The step that an advance announces is the one that follows the session's step in the list, and
  there is none after the last.
\<close>

theorem debate_next_step_follows:
  assumes "distinct (List.map fst (step_labels env s))" and "k < length (step_labels env s)"
    and "session_step s = fst (step_labels env s ! k)"
  shows "next_step_key env s =
    (if Suc k < length (step_labels env s) then Some (fst (step_labels env s ! Suc k)) else None)"
  using find_index_nth [OF assms(1,2)] by (simp add: next_step_key_def assms(3))

theorem debate_next_step_follows_witness:
  "next_step_key demo_flow_env demo_flow =
    (if Suc 1 < length (step_labels demo_flow_env demo_flow)
     then Some (fst (step_labels demo_flow_env demo_flow ! Suc 1)) else None)"
  by (rule debate_next_step_follows) code_simp+

subsection \<open>Operations that overlap\<close>

text \<open>
  Going back while an advance is under way lowers the sending flag, and with it the guard against a
  second advance, although the job of the first is not finished.
\<close>

theorem back_unlocks_running_advance:
  fixes env s x now r
  assumes "can_advance env s x"
  defines "s' \<equiv> run (flow_next_state env) s [FlowAdvance now, FlowBack, FlowAnswer (Suc (fl_next s)) (FaSession r)]"
  shows "\<not> fl_sending s' \<and> fl_optimistic s' = None \<and>
    map_of (fl_tasks s') (fl_next s) = Some (FtJob OpAdvance (se_id x))"
proof -
  have "fresh_table (fl_next s) (fl_tasks s)" and x: "fl_session s = Some x"
    using assms(1) by (simp_all add: can_advance_def flow_inv_def)
  then have k: "fl_next s \<notin> fst ` set (fl_tasks s)" "Suc (fl_next s) \<notin> fst ` set (fl_tasks s)"
    by (force simp: fresh_table_def)+
  have "map_of (fl_tasks s @ [(fl_next s, FtJob OpAdvance (se_id x)), (Suc (fl_next s), FtBack)]) (Suc (fl_next s)) =
      Some FtBack"
    "map_of (AList.delete (Suc (fl_next s)) (fl_tasks s @ [(fl_next s, FtJob OpAdvance (se_id x)), (Suc (fl_next s), FtBack)]))
      (fl_next s) = Some (FtJob OpAdvance (se_id x))"
    using k by (simp_all add: delete_conv' map_add_def map_of_eq_None_iff [symmetric] del: map_of_eq_None_iff)
  then show ?thesis
    using x unfolding s'_def
    by (cases r) (simp_all add: flow_next_state_def advance_begins [OF assms(1)] advancing_def flow_back_def
        flow_start_task_def flow_resume_def back_answered_def flow_end_task_def del: map_of_append)
qed

theorem back_unlocks_running_advance_witness:
  "\<not> fl_sending (run (flow_next_state demo_flow_env) demo_flow
     [FlowAdvance 1, FlowBack, FlowAnswer 1 (FaSession (Inr (demo_session ''intent'')))])"
  using back_unlocks_running_advance [OF demo_can_advance, of 1 "Inr (demo_session ''intent'')"]
  by (simp add: demo_next del: run_Cons)

text \<open>
  An answer that arrives after the page was reset puts the abandoned session back: the page is at the
  selection, but its steps are the agents of that session, not those selected since.
\<close>

theorem late_answer_after_reset:
  fixes env agents x
  assumes "map_of (fl_tasks s) i = Some (FtRefresh op sid)"
  defines "s' \<equiv> run (flow_next_state env) s [FlowReset, FlowSelectAgents agents, FlowAnswer i (FaSession (Inr x))]"
  shows "fl_session s' = Some x \<and> session_step s' = ''agent_selection'' \<and> fl_selected s' = agents \<and>
    List.map agent_key_of (effective_agents s') = se_agents x"
proof -
  have "fl_session s' = Some x" "session_step s' = ''agent_selection''" "fl_selected s' = agents"
    using assms(1) unfolding s'_def
    by (cases op; simp add: flow_next_state_def flow_reset_def end_model_wait_def set_selected_agents_def
        flow_resume_def refreshed_def finish_op_def flow_end_task_def session_step_def)+
  with effective_agent_keys show ?thesis by simp
qed

theorem late_answer_after_reset_witness:
  "fl_session (run (flow_next_state demo_flow_env) (demo_flow\<lparr>fl_tasks := [(0, FtRefresh OpAdvance ''s1'')]\<rparr>)
     [FlowReset, FlowSelectAgents [], FlowAnswer 0 (FaSession (Inr (demo_session ''code'')))]) =
   Some (demo_session ''code'')"
  using late_answer_after_reset [of "demo_flow\<lparr>fl_tasks := [(0, FtRefresh OpAdvance ''s1'')]\<rparr>" 0 OpAdvance "''s1''"
      demo_flow_env "[]" "demo_session ''code''"] by (simp del: run_Cons)

text \<open>
  When running a chat job fails, its stream stays open after the operation has ended: a piece that it
  delivers then is shown as the preview of whatever is sent next.
\<close>

theorem failed_run_leaves_stream_open:
  fixes env e e' d
  assumes "map_of (fl_tasks s) i = Some (FtRun sid None)" and "map_of (fl_waits s) i = Some OpSend"
  defines "s' \<equiv> run (flow_next_state env) s [FlowAnswer i (FaDone (Inl e)), FlowAnswer i (FaSession (Inl e'))]"
  shows "\<not> fl_sending s' \<and> fl_pending s' = None \<and>
    fl_chat_preview (flow_next_state env s' (FlowChunk i d)) = d"
  using assms(1,2) unfolding s'_def
  by (simp add: flow_next_state_def flow_resume_def chat_job_run_def op_failed_def flow_move_task_def update_conv'
      resynced_def finish_op_def flow_end_task_def end_model_wait_def stream_chunk_def merge_stream_chunk_def)

theorem failed_run_leaves_stream_open_witness:
  "fl_chat_preview (flow_next_state demo_flow_env
     (run (flow_next_state demo_flow_env)
       (demo_flow\<lparr>fl_tasks := [(0, FtRun ''s1'' None)], fl_waits := [(0, OpSend)]\<rparr>)
       [FlowAnswer 0 (FaDone (Inl (ThrownError ''x''))), FlowAnswer 0 (FaSession (Inl (ThrownError ''y'')))])
     (FlowChunk 0 ''late'')) = ''late''"
  using failed_run_leaves_stream_open [of "demo_flow\<lparr>fl_tasks := [(0, FtRun ''s1'' None)], fl_waits := [(0, OpSend)]\<rparr>"
      0 "''s1''" demo_flow_env "ThrownError ''x''" "ThrownError ''y''" "''late''"] by (simp del: run_Cons)

end
