(* ===== verification/Decimal.thy ===== *)
theory Decimal
  imports JsNumber
begin

text \<open>
  The round trip \<open>Number(String(x))\<close> on decimal fractions, for forms that keep their numbers as text: the
  numbers are those with at most twenty digits after the point.
\<close>

definition decimal20 :: "rat \<Rightarrow> bool" where
  "decimal20 q \<longleftrightarrow> of_int \<lfloor>q * 10 ^ 20\<rfloor> = q * 10 ^ 20"

lemma decimal20_of_int [simp]: "decimal20 (of_int i)"
proof -
  have "of_int i * 10 ^ 20 = (of_int (i * 10 ^ 20) :: rat)" by simp
  then show ?thesis unfolding decimal20_def by (metis floor_of_int)
qed

lemma nat_of_digits_append:
  "nat_of_digits (a @ b) = nat_of_digits a * 10 ^ length b + nat_of_digits b"
proof -
  have acc: "foldl (\<lambda>n c. 10 * n + digit_val c) k b = k * 10 ^ length b + nat_of_digits b" for k
  proof (induction b arbitrary: k)
    case Nil
    then show ?case by (simp add: nat_of_digits_def)
  next
    case (Cons c b)
    have "nat_of_digits (c # b) = foldl (\<lambda>n c. 10 * n + digit_val c) (digit_val c) b"
      by (simp add: nat_of_digits_def)
    with Cons show ?case by (simp add: algebra_simps)
  qed
  show ?thesis
    using acc [of "nat_of_digits a"] by (simp add: nat_of_digits_def)
qed

lemma frac_digits_value:
  "0 \<le> f \<Longrightarrow> f < 1 \<Longrightarrow> of_int m = f * 10 ^ n \<Longrightarrow>
    list_all is_digit (frac_digits n f) \<and>
    of_nat (nat_of_digits (frac_digits n f)) = f * 10 ^ length (frac_digits n f)"
proof (induction n arbitrary: f m)
  case 0
  then have "0 \<le> (of_int m :: rat)" "of_int m < (1 :: rat)" by simp_all
  then have "m = 0" by simp
  with 0 show ?case by (simp add: nat_of_digits_def)
next
  case (Suc n)
  show ?case
  proof (cases "f = 0")
    case True
    then show ?thesis by (simp add: nat_of_digits_def)
  next
    case False
    let ?d = "\<lfloor>10 * f\<rfloor>" and ?f = "10 * f - of_int \<lfloor>10 * f\<rfloor>"
    have d: "0 \<le> ?d" "?d < 10"
      using Suc.prems(1,2) by (simp_all add: floor_less_iff)
    have dn: "nat ?d < 10"
      unfolding nat_less_iff [OF d(1)] using d(2) by (simp only: of_nat_numeral)
    have f: "0 \<le> ?f" "?f < 1" by linarith+
    have "of_int (m - ?d * 10 ^ n) = ?f * 10 ^ n"
      using Suc.prems(3) by (simp add: algebra_simps)
    from Suc.IH [OF f this]
    have IH: "list_all is_digit (frac_digits n ?f)"
      "of_nat (nat_of_digits (frac_digits n ?f)) = ?f * 10 ^ length (frac_digits n ?f)" by simp_all
    have split: "nat_of_digits (digit_char (nat ?d) # frac_digits n ?f) =
        nat ?d * 10 ^ length (frac_digits n ?f) + nat_of_digits (frac_digits n ?f)"
      using nat_of_digits_append [of "[digit_char (nat ?d)]" "frac_digits n ?f"] digit_char_props(2) [OF dn]
      by (simp add: nat_of_digits_def)
    have "(of_nat (nat ?d) :: rat) = of_int ?d" using d(1) by simp
    then have "(of_nat (nat_of_digits (digit_char (nat ?d) # frac_digits n ?f)) :: rat) =
        f * 10 ^ Suc (length (frac_digits n ?f))"
      unfolding split of_nat_add of_nat_mult IH(2) by (simp add: algebra_simps)
    with False IH(1) digit_char_props(1) [OF dn] show ?thesis by simp
  qed
qed

lemma frac_digits_not_Nil: "f \<noteq> 0 \<Longrightarrow> frac_digits (Suc n) f \<noteq> []"
  by simp

definition unsigned_str :: "rat \<Rightarrow> string" where
  "unsigned_str a = nat_str (nat \<lfloor>a\<rfloor>) @
     (if a - of_int \<lfloor>a\<rfloor> = 0 then [] else CHR ''.'' # frac_digits 20 (a - of_int \<lfloor>a\<rfloor>))"

lemma unsigned_literal:
  assumes "0 \<le> a" and "decimal20 a"
  shows "decimal_literal g (unsigned_str a) = Fin (g * a)"
proof -
  let ?i = "nat_str (nat \<lfloor>a\<rfloor>)" and ?f = "a - of_int \<lfloor>a\<rfloor>"
  have i: "list_all is_digit ?i" "?i \<noteq> []" by (simp_all add: nat_str_digits)
  have tw: "takeWhile is_digit (?i @ r) = ?i @ takeWhile is_digit r"
    "dropWhile is_digit (?i @ r) = dropWhile is_digit r" for r
    using i(1) by (simp_all add: list_all_iff)
  then have tw0: "takeWhile is_digit ?i = ?i" "dropWhile is_digit ?i = []"
    using tw [of "[]"] by simp_all
  have ai: "(of_nat (nat \<lfloor>a\<rfloor>) :: rat) = of_int \<lfloor>a\<rfloor>" using assms(1) by simp
  show ?thesis
  proof (cases "?f = 0")
    case True
    then have "a = of_int \<lfloor>a\<rfloor>" by simp
    then show ?thesis
      using i ai True
      by (simp add: tw0 unsigned_str_def decimal_literal_def Let_def exponent_part_def scale10_def nat_of_digits_str)
  next
    case False
    let ?ds = "frac_digits 20 ?f"
    have f: "0 \<le> ?f" "?f < 1" by linarith+
    have "of_int (\<lfloor>a * 10 ^ 20\<rfloor> - \<lfloor>a\<rfloor> * 10 ^ 20) = ?f * 10 ^ 20"
      using assms(2) by (simp add: decimal20_def algebra_simps)
    from frac_digits_value [OF f this]
    have ds: "list_all is_digit ?ds" "of_nat (nat_of_digits ?ds) = ?f * 10 ^ length ?ds" by simp_all
    have ne: "?ds \<noteq> []"
      using False frac_digits_not_Nil [of ?f 19] by simp
    have dtw: "takeWhile is_digit ?ds = ?ds" "dropWhile is_digit ?ds = []"
      using ds(1) by (simp_all add: list_all_iff)
    have dot: "\<not> is_digit (CHR ''.'')" by (simp add: is_digit_def)
    have val: "(of_nat (nat_of_digits (?i @ ?ds)) :: rat) = a * 10 ^ length ?ds"
      by (simp add: nat_of_digits_append nat_of_digits_str ds(2) ai algebra_simps)
    have "scale10 (- int (length ?ds)) = 1 / 10 ^ length ?ds"
      using ne by (simp add: scale10_def)
    with val show ?thesis
      using False i ne dot
      by (simp add: unsigned_str_def decimal_literal_def Let_def tw dtw exponent_part_def)
  qed
qed

lemma rat_str_unsigned: "rat_str q = (if q < 0 then CHR ''-'' # unsigned_str \<bar>q\<bar> else unsigned_str \<bar>q\<bar>)"
  by (simp add: rat_str_def unsigned_str_def Let_def)

lemma sign_split_digits:
  "list_all is_digit s \<Longrightarrow> s \<noteq> [] \<Longrightarrow> sign_split (s @ r) = (1, s @ r)"
  by (cases s) (auto dest: is_digit_plain)

lemma unsigned_str_shape:
  "\<exists>c s. unsigned_str a = c # s \<and> is_digit c \<and> (s = [] \<or> hd s = CHR ''.'' \<or> is_digit (hd s)) \<and>
    \<not> js_ws (last (c # s))"
proof -
  let ?i = "nat_str (nat \<lfloor>a\<rfloor>)" and ?f = "a - of_int \<lfloor>a\<rfloor>"
  have i: "list_all is_digit ?i" "?i \<noteq> []" by (simp_all add: nat_str_digits)
  have fd: "list_all is_digit (frac_digits n f)" if "0 \<le> f" "f < 1" for n f
    using that
  proof (induction n arbitrary: f)
    case (Suc n)
    have d: "0 \<le> \<lfloor>10 * f\<rfloor>" "\<lfloor>10 * f\<rfloor> < 10" using Suc.prems by (simp_all add: floor_less_iff)
    have "nat \<lfloor>10 * f\<rfloor> < 10"
      unfolding nat_less_iff [OF d(1)] using d(2) by (simp only: of_nat_numeral)
    then have "is_digit (digit_char (nat \<lfloor>10 * f\<rfloor>))" by (rule digit_char_props(1))
    moreover have "0 \<le> 10 * f - of_int \<lfloor>10 * f\<rfloor>" "10 * f - of_int \<lfloor>10 * f\<rfloor> < 1" by linarith+
    ultimately show ?case using Suc.IH by simp
  qed simp
  obtain c t where ct: "?i = c # t" using i(2) by (cases ?i) simp_all
  have all: "list_all is_digit (c # t)" using i(1) by (simp add: ct)
  show ?thesis
  proof (cases "?f = 0")
    case True
    then have "unsigned_str a = c # t" by (simp add: unsigned_str_def ct)
    moreover have "\<not> js_ws (last (c # t))"
      using all is_digit_plain by (metis last_in_set list.distinct(1) list_all_iff)
    ultimately show ?thesis
      using all by (cases t) auto
  next
    case False
    then have "unsigned_str a = c # t @ CHR ''.'' # frac_digits 20 ?f" by (simp add: unsigned_str_def ct)
    moreover have "list_all is_digit (frac_digits 20 ?f)" by (rule fd) linarith+
    moreover have "frac_digits 20 ?f \<noteq> []" using False frac_digits_not_Nil [of ?f 19] by simp
    ultimately have "is_digit (last (frac_digits 20 ?f))"
      "last (unsigned_str a) = last (frac_digits 20 ?f)"
      by (simp_all del: frac_digits.simps add: list_all_iff)
    then have "\<not> js_ws (last (unsigned_str a))"
      using is_digit_plain by simp
    with \<open>unsigned_str a = c # t @ CHR ''.'' # frac_digits 20 ?f\<close> all show ?thesis
      by (cases t) auto
  qed
qed

lemma js_trim_ends: "\<not> js_ws c \<Longrightarrow> \<not> js_ws (last (c # s)) \<Longrightarrow> js_trim (c # s) = c # s"
proof (cases s rule: rev_cases)
  case Nil
  assume "\<not> js_ws c"
  then show ?thesis by (simp add: Nil js_trim_def)
next
  case (snoc t d)
  assume "\<not> js_ws c" "\<not> js_ws (last (c # s))"
  then show ?thesis by (simp add: snoc js_trim_def)
qed

text \<open>The round trip \<open>Number(String(x))\<close>.\<close>

lemma number_of_rat_str:
  assumes "decimal20 q"
  shows "number_of_string (rat_str q) = Fin q"
proof -
  obtain c s where u: "unsigned_str \<bar>q\<bar> = c # s" "is_digit c" "s = [] \<or> hd s = CHR ''.'' \<or> is_digit (hd s)"
    "\<not> js_ws (last (c # s))"
    using unsigned_str_shape by blast
  have abs_dec: "decimal20 \<bar>q\<bar>"
  proof (cases "q < 0")
    case True
    have "(- q) * 10 ^ 20 = of_int (- \<lfloor>q * 10 ^ 20\<rfloor>)"
      using assms unfolding decimal20_def by (simp only: of_int_minus minus_mult_left)
    then show ?thesis
      using True unfolding decimal20_def by (metis abs_of_neg floor_of_int)
  next
    case False
    with assms show ?thesis by simp
  qed
  have c: "\<not> js_ws c" "c \<noteq> CHR ''-''" "c \<noteq> CHR ''+''" "c \<noteq> CHR ''I''"
    using is_digit_plain [OF u(2)] by auto
  have radix: "radix_of (c # s) = None" "radix_of (CHR ''-'' # c # s) = None"
  proof -
    have "s = [] \<or> hd s \<notin> set ''xXoObB''"
      using u(3) is_digit_plain [of "hd s"] by auto
    then show "radix_of (c # s) = None" by (cases s) auto
  qed simp
  have lit: "decimal_literal g (c # s) = Fin (g * \<bar>q\<bar>)" for g
    using unsigned_literal [OF _ abs_dec, of g] by (simp add: u(1))
  show ?thesis
  proof (cases "q < 0")
    case True
    have "js_trim (CHR ''-'' # c # s) = CHR ''-'' # c # s"
      using u(4) by (intro js_trim_ends) (simp_all add: js_ws_def)
    then show ?thesis
      using True c lit [of "-1"] u(1) by (simp add: rat_str_unsigned number_of_string_def radix Let_def)
  next
    case False
    have "js_trim (c # s) = c # s" using c(1) u(4) by (rule js_trim_ends)
    then show ?thesis
      using False c lit [of 1] u(1) by (simp add: rat_str_unsigned number_of_string_def radix Let_def)
  qed
qed

end
