(* ===== verification/ScheduleForm.thy ===== *)
theory ScheduleForm
  imports Decimal
begin

text \<open>
  The parameters of a strategy schedule (\<open>pages/strategy/StrategyScheduleParams.ts\<close>): the fields of
  the launch and edit forms are stored as texts under fixed keys, and read back into the form when
  the schedule is edited.
\<close>

subsection \<open>The form\<close>

record schedule_form =
  sf_name :: "string option"
  sf_default_volume :: "jsnum option"
  sf_max_positions :: "jsnum option"
  sf_stop_loss :: "jsnum option"
  sf_take_profit :: "jsnum option"
  sf_max_drawdown :: "jsnum option"
  sf_lot :: "jsnum option"
  sf_grid_count :: "jsnum option"
  sf_lower_price :: "jsnum option"
  sf_upper_price :: "jsnum option"
  sf_interval_hours :: "jsnum option"

definition empty_form :: schedule_form where
  "empty_form = \<lparr>sf_name = None, sf_default_volume = None, sf_max_positions = None, sf_stop_loss = None,
     sf_take_profit = None, sf_max_drawdown = None, sf_lot = None, sf_grid_count = None,
     sf_lower_price = None, sf_upper_price = None, sf_interval_hours = None\<rparr>"

fun math_floor :: "jsnum \<Rightarrow> jsnum" where
  "math_floor (Fin q) = Fin (of_int \<lfloor>q\<rfloor>)"
| "math_floor n = n"

text \<open>\<open>v && cond(v)\<close> on an optional number, and what is written if it holds.\<close>

definition text_if :: "(jsnum \<Rightarrow> bool) \<Rightarrow> (jsnum \<Rightarrow> jsnum) \<Rightarrow> jsnum option \<Rightarrow> string option" where
  "text_if cond f v =
     (case v of
        None \<Rightarrow> None
      | Some n \<Rightarrow> if truthy (JNum n) \<and> cond n then Some (js_string (JNum (f n))) else None)"

text \<open>The assignments in their order; a field that is left out is \<open>None\<close>.\<close>

definition form_entries :: "schedule_form \<Rightarrow> (string \<times> string option) list" where
  "form_entries v =
     [(''__schedule.name'', case sf_name v of None \<Rightarrow> None
         | Some s \<Rightarrow> if s \<noteq> [] \<and> js_trim s \<noteq> [] then Some (js_trim s) else None),
      (''__risk.default_volume'', text_if (\<lambda>n. Fin 0 < n) id (sf_default_volume v)),
      (''__risk.max_positions'', text_if (\<lambda>n. Fin 1 \<le> n) math_floor (sf_max_positions v)),
      (''__risk.stop_loss_price_offset'', text_if (\<lambda>n. Fin 0 < n) id (sf_stop_loss v)),
      (''__risk.take_profit_price_offset'', text_if (\<lambda>n. Fin 0 < n) id (sf_take_profit v)),
      (''__risk.max_drawdown_pct'', text_if (\<lambda>n. Fin 0 < n \<and> n \<le> Fin 1) id (sf_max_drawdown v)),
      (''lot'', text_if (\<lambda>n. Fin 0 < n) id (sf_lot v)),
      (''grid_count'', text_if (\<lambda>n. Fin 0 < n) math_floor (sf_grid_count v)),
      (''lower_price'', map_option (\<lambda>n. js_string (JNum n)) (sf_lower_price v)),
      (''upper_price'', map_option (\<lambda>n. js_string (JNum n)) (sf_upper_price v)),
      (''interval_hours'', text_if (\<lambda>n. Fin 0 < n) math_floor (sf_interval_hours v))]"

definition set_entry :: "(string \<times> string) list \<Rightarrow> string \<times> string option \<Rightarrow> (string \<times> string) list" where
  "set_entry out e = (case snd e of None \<Rightarrow> out | Some v \<Rightarrow> AList.update (fst e) v out)"

definition build_parameters_from_form :: "schedule_form \<Rightarrow> (string \<times> string) list" where
  "build_parameters_from_form v = foldl set_entry [] (form_entries v)"

subsection \<open>Reading back\<close>

definition get_num :: "jv \<Rightarrow> string \<Rightarrow> jsnum option" where
  "get_num p k =
     (let raw = jget k p
      in if nullish raw \<or> raw = JStr [] then None
         else if num_finite (js_number raw) then Some (js_number raw) else None)"

definition parse_parameters_to_form :: "jv \<Rightarrow> schedule_form" where
  "parse_parameters_to_form p =
     (if \<not> truthy p then empty_form
      else
        (let name = js_trim (js_string (js_or (jget ''__schedule.name'' p) (JStr [])))
         in \<lparr>sf_name = (if name = [] then None else Some name),
             sf_default_volume = get_num p ''__risk.default_volume'',
             sf_max_positions = map_option math_floor (get_num p ''__risk.max_positions''),
             sf_stop_loss = get_num p ''__risk.stop_loss_price_offset'',
             sf_take_profit = get_num p ''__risk.take_profit_price_offset'',
             sf_max_drawdown = get_num p ''__risk.max_drawdown_pct'',
             sf_lot = get_num p ''lot'',
             sf_grid_count = map_option math_floor (get_num p ''grid_count''),
             sf_lower_price = get_num p ''lower_price'',
             sf_upper_price = get_num p ''upper_price'',
             sf_interval_hours = map_option math_floor (get_num p ''interval_hours'')\<rparr>))"

text \<open>The parameters as the schedule stores them: an object of texts.\<close>

definition stored_params :: "(string \<times> string) list \<Rightarrow> jv" where
  "stored_params ps = JObj (List.map (\<lambda>(k, v). (k, JStr v)) ps)"

subsection \<open>Facts\<close>

lemma map_of_set_entries:
  "distinct (List.map fst es) \<Longrightarrow>
    map_of (foldl set_entry out es) k =
      (case map_of es k of Some (Some v) \<Rightarrow> Some v | _ \<Rightarrow> map_of out k)"
proof (induction es arbitrary: out)
  case (Cons e es)
  obtain k' v where e: "e = (k', v)" by (cases e)
  from Cons.prems have "map_of es k' = None"
    by (simp add: e map_of_eq_None_iff)
  with Cons show ?case
    by (cases v) (auto simp: e set_entry_def update_conv' split: option.splits)
qed simp

lemma jget_stored: "jget k (stored_params ps) = (case map_of ps k of None \<Rightarrow> JUndef | Some v \<Rightarrow> JStr v)"
  by (induction ps) (auto simp: jget_def stored_params_def split: option.splits)

lemma form_keys: "distinct (List.map fst (form_entries v))"
  by (simp add: form_entries_def)

lemma stored_entry:
  "jget k (stored_params (build_parameters_from_form v)) =
    (case map_of (form_entries v) k of Some (Some x) \<Rightarrow> JStr x | _ \<Rightarrow> JUndef)"
  unfolding jget_stored build_parameters_from_form_def map_of_set_entries [OF form_keys]
  by (auto split: option.splits)

text \<open>Fields the form can hold: a trimmed name, decimal numbers in the range of the field.\<close>

definition decimal_where :: "(rat \<Rightarrow> bool) \<Rightarrow> jsnum option \<Rightarrow> bool" where
  "decimal_where P v = (case v of None \<Rightarrow> True | Some (Fin q) \<Rightarrow> decimal20 q \<and> P q | _ \<Rightarrow> False)"

definition form_ok :: "schedule_form \<Rightarrow> bool" where
  "form_ok v \<longleftrightarrow> (case sf_name v of None \<Rightarrow> True | Some s \<Rightarrow> s \<noteq> [] \<and> js_trim s = s) \<and>
     decimal_where (\<lambda>q. 0 < q) (sf_default_volume v) \<and>
     decimal_where (\<lambda>q. 1 \<le> q \<and> of_int \<lfloor>q\<rfloor> = q) (sf_max_positions v) \<and>
     decimal_where (\<lambda>q. 0 < q) (sf_stop_loss v) \<and>
     decimal_where (\<lambda>q. 0 < q) (sf_take_profit v) \<and>
     decimal_where (\<lambda>q. 0 < q \<and> q \<le> 1) (sf_max_drawdown v) \<and>
     decimal_where (\<lambda>q. 0 < q) (sf_lot v) \<and>
     decimal_where (\<lambda>q. 1 \<le> q \<and> of_int \<lfloor>q\<rfloor> = q) (sf_grid_count v) \<and>
     decimal_where (\<lambda>_. True) (sf_lower_price v) \<and>
     decimal_where (\<lambda>_. True) (sf_upper_price v) \<and>
     decimal_where (\<lambda>q. 1 \<le> q \<and> of_int \<lfloor>q\<rfloor> = q) (sf_interval_hours v)"

lemma rat_str_not_Nil: "rat_str q \<noteq> []"
  by (simp add: rat_str_def Let_def)

lemma get_num_stored:
  "get_num (stored_params (build_parameters_from_form v)) k =
    (case map_of (form_entries v) k of
       Some (Some x) \<Rightarrow> if x \<noteq> [] \<and> num_finite (number_of_string x) then Some (number_of_string x) else None
     | _ \<Rightarrow> None)"
  by (auto simp: get_num_def stored_entry Let_def split: option.splits)

lemma read_back:
  assumes "decimal_where P v" and "\<And>q. v = Some (Fin q) \<Longrightarrow> P q \<Longrightarrow> q \<noteq> 0 \<and> cond (Fin q) \<and> f (Fin q) = Fin q"
  shows "(case text_if cond f v of
       Some x \<Rightarrow> if x \<noteq> [] \<and> num_finite (number_of_string x) then Some (number_of_string x) else None
     | None \<Rightarrow> None) = v"
  using assms by (auto simp: decimal_where_def text_if_def number_of_rat_str rat_str_not_Nil
      split: option.splits jsnum.splits)

lemma price_back:
  assumes "decimal_where (\<lambda>_. True) v"
  shows "(case Some (map_option (\<lambda>n. js_string (JNum n)) v) of
       Some (Some x) \<Rightarrow> if x \<noteq> [] \<and> num_finite (number_of_string x) then Some (number_of_string x) else None
     | _ \<Rightarrow> None) = v"
  using assms by (auto simp: decimal_where_def number_of_rat_str rat_str_not_Nil
      split: option.splits jsnum.splits)

lemma floor_back:
  "decimal_where (\<lambda>q. 1 \<le> q \<and> of_int \<lfloor>q\<rfloor> = q) v \<Longrightarrow> map_option math_floor v = v"
  by (auto simp: decimal_where_def split: option.splits jsnum.splits)

lemma name_back:
  "jget ''__schedule.name'' (stored_params (build_parameters_from_form v)) =
    (case sf_name v of None \<Rightarrow> JUndef
     | Some s \<Rightarrow> if s \<noteq> [] \<and> js_trim s \<noteq> [] then JStr (js_trim s) else JUndef)"
  unfolding stored_entry by (simp add: form_entries_def split: option.splits)

lemmas read_back_fields =
  read_back [where P = "\<lambda>q. 0 < q" and cond = "\<lambda>n. Fin 0 < n" and f = id, simplified]
  read_back [where P = "\<lambda>q. 0 < q \<and> q \<le> 1" and cond = "\<lambda>n. Fin 0 < n \<and> n \<le> Fin 1" and f = id, simplified]
  read_back [where P = "\<lambda>q. 1 \<le> q \<and> of_int \<lfloor>q\<rfloor> = q" and cond = "\<lambda>n. Fin 1 \<le> n" and f = math_floor, simplified]
  read_back [where P = "\<lambda>q. 1 \<le> q \<and> of_int \<lfloor>q\<rfloor> = q" and cond = "\<lambda>n. Fin 0 < n" and f = math_floor, simplified]

text \<open>C13. What the edit form reads is what the launch form wrote, for every form within the ranges of its fields.\<close>

theorem schedule_form_roundtrip:
  assumes "form_ok v"
  shows "parse_parameters_to_form (stored_params (build_parameters_from_form v)) = v"
proof -
  let ?p = "stored_params (build_parameters_from_form v)"
  have pos: "truthy (JNum (Fin q))" if "0 < q" for q using that by simp
  note ok = assms [unfolded form_ok_def]
  have num: "get_num ?p ''__risk.default_volume'' = sf_default_volume v"
    "get_num ?p ''__risk.max_positions'' = sf_max_positions v"
    "get_num ?p ''__risk.stop_loss_price_offset'' = sf_stop_loss v"
    "get_num ?p ''__risk.take_profit_price_offset'' = sf_take_profit v"
    "get_num ?p ''__risk.max_drawdown_pct'' = sf_max_drawdown v"
    "get_num ?p ''lot'' = sf_lot v" "get_num ?p ''grid_count'' = sf_grid_count v"
    "get_num ?p ''interval_hours'' = sf_interval_hours v"
    using ok by (simp_all add: get_num_stored form_entries_def read_back_fields)
  have prices: "decimal_where (\<lambda>_. True) (sf_lower_price v)" "decimal_where (\<lambda>_. True) (sf_upper_price v)"
    using ok by simp_all
  have entry: "map_of (form_entries v) ''lower_price'' = Some (map_option (\<lambda>n. js_string (JNum n)) (sf_lower_price v))"
    "map_of (form_entries v) ''upper_price'' = Some (map_option (\<lambda>n. js_string (JNum n)) (sf_upper_price v))"
    by (simp_all add: form_entries_def)
  have price: "get_num ?p ''lower_price'' = sf_lower_price v" "get_num ?p ''upper_price'' = sf_upper_price v"
    by (simp_all only: get_num_stored entry price_back [OF prices(1)] price_back [OF prices(2)])
  have whole: "decimal_where (\<lambda>q. 1 \<le> q \<and> of_int \<lfloor>q\<rfloor> = q) (sf_max_positions v)"
    "decimal_where (\<lambda>q. 1 \<le> q \<and> of_int \<lfloor>q\<rfloor> = q) (sf_grid_count v)"
    "decimal_where (\<lambda>q. 1 \<le> q \<and> of_int \<lfloor>q\<rfloor> = q) (sf_interval_hours v)"
    using ok by blast+
  note floor = whole [THEN floor_back]
  have "case sf_name v of None \<Rightarrow> True | Some s \<Rightarrow> s \<noteq> [] \<and> js_trim s = s"
    using ok by blast
  then have name: "(let name = js_trim (js_string (js_or (jget ''__schedule.name'' ?p) (JStr [])))
      in if name = [] then None else Some name) = sf_name v"
    by (auto simp: name_back js_or_def Let_def split: option.splits)
  show ?thesis
    using name unfolding parse_parameters_to_form_def num price floor
    by (simp add: stored_params_def Let_def)
qed

text \<open>
  A grid of less than one line is stored as \<open>0\<close>, read back as zero and dropped when it is saved again.
\<close>

theorem fractional_grid_lost:
  assumes "0 < q" and "q < 1"
  defines "stored \<equiv> build_parameters_from_form (empty_form\<lparr>sf_grid_count := Some (Fin q)\<rparr>)"
  shows "map_of stored ''grid_count'' = Some ''0'' \<and>
    build_parameters_from_form (parse_parameters_to_form (stored_params stored)) = []"
proof -
  have "\<lfloor>q\<rfloor> = 0" using assms(1,2) by (simp add: floor_eq_iff)
  moreover have z: "nat_str 0 = ''0''" by code_simp
  ultimately have st: "stored = [(''grid_count'', ''0'')]"
    using assms(1) unfolding stored_def
    by (simp add: build_parameters_from_form_def form_entries_def empty_form_def set_entry_def text_if_def rat_str_def)
  have "build_parameters_from_form (parse_parameters_to_form (stored_params [(''grid_count'', ''0'')])) = []"
    by code_simp
  with st show ?thesis by simp
qed

theorem fractional_grid_lost_witness:
  "map_of (build_parameters_from_form (empty_form\<lparr>sf_grid_count := Some (Fin (1 / 2))\<rparr>)) ''grid_count'' = Some ''0''"
  using fractional_grid_lost [of "1 / 2"] by simp

definition demo_form :: schedule_form where
  "demo_form = empty_form\<lparr>sf_name := Some ''grid 1'', sf_lot := Some (Fin (1 / 4)),
     sf_grid_count := Some (Fin 10), sf_lower_price := Some (Fin (- 3 / 2))\<rparr>"

theorem schedule_form_roundtrip_witness:
  "parse_parameters_to_form (stored_params (build_parameters_from_form demo_form)) = demo_form"
  by (rule schedule_form_roundtrip) code_simp

end
