(* ===== verification/StrategyClient.thy ===== *)
theory StrategyClient
  imports AiClient
begin

text \<open>
  The requests of the strategy service (\<open>client/strategy.ts\<close>) and of the backtest service
  (\<open>client/pythonStrategy.ts\<close>).
  A field that is \<open>undefined\<close> in a request is \<open>None\<close>.
\<close>

subsection \<open>Integers\<close>

text \<open>\<open>BigInt(s)\<close> on a text that is not blank; \<open>None\<close> where it throws.\<close>

definition bigint_of_text :: "string \<Rightarrow> int option" where
  "bigint_of_text raw =
     (let s = js_trim raw
      in case radix_of s of
           Some b \<Rightarrow> bigint_of (radix_literal b (drop 2 s))
         | None \<Rightarrow>
             (case sign_split s of (g, ds) \<Rightarrow>
                if ds \<noteq> [] \<and> list_all is_digit ds
                then Some ((if g < 0 then -1 else 1) * int (nat_of_digits ds)) else None))"

definition to_bigint :: "jv \<Rightarrow> int" where
  "to_bigint v =
     (case v of
        JBig i \<Rightarrow> i
      | JNum (Fin q) \<Rightarrow> \<lfloor>q\<rfloor>
      | JStr s \<Rightarrow>
          if js_trim s = [] then 0
          else (case bigint_of_text s of Some i \<Rightarrow> i | None \<Rightarrow> 0)
      | _ \<Rightarrow> 0)"

subsection \<open>Schedules\<close>

record schedule_config =
  sc_cron_expression :: string
  sc_interval_ms :: int
  sc_event_trigger :: string
  sc_trigger_mode :: string
  sc_stable_override_interval_ms :: int
  sc_hf_cooldown_ms :: int

definition config_text :: "jv \<Rightarrow> string" where
  "config_text v = js_string (js_coalesce v (JStr []))"

definition normalize_schedule_config :: "jv \<Rightarrow> schedule_config" where
  "normalize_schedule_config cfg =
     (if \<not> truthy cfg
      then \<lparr>sc_cron_expression = [], sc_interval_ms = 0, sc_event_trigger = [], sc_trigger_mode = [],
            sc_stable_override_interval_ms = 0, sc_hf_cooldown_ms = 0\<rparr>
      else \<lparr>sc_cron_expression = config_text (jget ''cronExpression'' cfg),
            sc_interval_ms = to_bigint (jget ''intervalMs'' cfg),
            sc_event_trigger = config_text (jget ''eventTrigger'' cfg),
            sc_trigger_mode = config_text (jget ''triggerMode'' cfg),
            sc_stable_override_interval_ms = to_bigint (jget ''stableOverrideIntervalMs'' cfg),
            sc_hf_cooldown_ms = to_bigint (jget ''hfCooldownMs'' cfg)\<rparr>)"

record create_schedule_request =
  cq_template_id :: string
  cq_account_id :: string
  cq_name :: string
  cq_symbol :: string
  cq_timeframe :: string
  cq_parameters :: "(string \<times> string) list"
  cq_schedule_type :: string
  cq_schedule_config :: schedule_config

definition create_schedule ::
    "string \<Rightarrow> string \<Rightarrow> string \<Rightarrow> string \<Rightarrow> string \<Rightarrow> (string \<times> string) list option \<Rightarrow> string \<Rightarrow> jv \<Rightarrow>
     create_schedule_request" where
  "create_schedule template_id account_id name symbol timeframe parameters schedule_type config =
     \<lparr>cq_template_id = template_id, cq_account_id = account_id, cq_name = name, cq_symbol = symbol,
      cq_timeframe = timeframe, cq_parameters = or_list parameters, cq_schedule_type = schedule_type,
      cq_schedule_config = normalize_schedule_config config\<rparr>"

record update_schedule_request =
  uq_id :: string
  uq_name :: "string option"
  uq_symbol :: "string option"
  uq_timeframe :: "string option"
  uq_parameters :: "(string \<times> string) list option"
  uq_schedule_type :: "string option"
  uq_schedule_config :: "schedule_config option"

definition update_schedule ::
    "string \<Rightarrow> string option \<Rightarrow> string option \<Rightarrow> string option \<Rightarrow> (string \<times> string) list option \<Rightarrow>
     string option \<Rightarrow> jv \<Rightarrow> update_schedule_request" where
  "update_schedule sid name symbol timeframe parameters schedule_type config =
     \<lparr>uq_id = sid, uq_name = name, uq_symbol = symbol, uq_timeframe = timeframe,
      uq_parameters = parameters, uq_schedule_type = schedule_type,
      uq_schedule_config = (if truthy config then Some (normalize_schedule_config config) else None)\<rparr>"

subsection \<open>Templates\<close>

record create_template_request =
  ct_name :: string
  ct_description :: string
  ct_code :: string
  ct_parameters :: "jv list"
  ct_is_public :: bool
  ct_tags :: "string list"

definition create_template ::
    "string \<Rightarrow> string \<Rightarrow> string \<Rightarrow> jv list option \<Rightarrow> bool option \<Rightarrow> string list option \<Rightarrow>
     create_template_request" where
  "create_template name description code parameters is_public tags =
     \<lparr>ct_name = name, ct_description = description, ct_code = code, ct_parameters = or_list parameters,
      ct_is_public = (is_public = Some True), ct_tags = or_list tags\<rparr>"

record update_template_request =
  ut_id :: string
  ut_name :: "string option"
  ut_description :: "string option"
  ut_code :: "string option"
  ut_parameters :: "jv list option"
  ut_is_public :: "bool option"
  ut_tags :: "string list option"

definition update_template ::
    "string \<Rightarrow> string option \<Rightarrow> string option \<Rightarrow> string option \<Rightarrow> jv list option \<Rightarrow> bool option \<Rightarrow>
     string list option \<Rightarrow> update_template_request" where
  "update_template tid name description code parameters is_public tags =
     \<lparr>ut_id = tid, ut_name = name, ut_description = description, ut_code = code,
      ut_parameters = parameters, ut_is_public = is_public, ut_tags = tags\<rparr>"

text \<open>The draft variant sends empty lists for what is left out.\<close>

definition update_template_draft ::
    "string \<Rightarrow> string option \<Rightarrow> string option \<Rightarrow> string option \<Rightarrow> jv list option \<Rightarrow> string list option \<Rightarrow>
     update_template_request" where
  "update_template_draft tid name description code parameters tags =
     \<lparr>ut_id = tid, ut_name = name, ut_description = description, ut_code = code,
      ut_parameters = Some (or_list parameters), ut_is_public = None, ut_tags = Some (or_list tags)\<rparr>"

subsection \<open>Backtests\<close>

record backtest_request =
  bq_template_id :: string
  bq_account_id :: string
  bq_symbol :: string
  bq_timeframe :: string
  bq_parameters :: "(string \<times> string) list"
  bq_initial_capital :: jsnum

definition capital_or :: "jsnum \<Rightarrow> jsnum option \<Rightarrow> jsnum" where
  "capital_or d v = (case v of Some n \<Rightarrow> if truthy (JNum n) then n else d | None \<Rightarrow> d)"

definition run_backtest_request ::
    "string \<Rightarrow> string \<Rightarrow> string \<Rightarrow> string \<Rightarrow> (string \<times> string) list option \<Rightarrow> jsnum option \<Rightarrow> backtest_request" where
  "run_backtest_request template_id account_id symbol timeframe parameters capital =
     \<lparr>bq_template_id = template_id, bq_account_id = account_id, bq_symbol = symbol, bq_timeframe = timeframe,
      bq_parameters = or_list parameters, bq_initial_capital = capital_or (Fin 10000) capital\<rparr>"

text \<open>A time stamp: seconds and nanoseconds of a date in milliseconds.  The remainder of JavaScript has the sign of the dividend.\<close>

definition js_rem :: "int \<Rightarrow> int \<Rightarrow> int" where
  "js_rem a b = sgn a * (\<bar>a\<bar> mod \<bar>b\<bar>)"

definition to_timestamp :: "int \<Rightarrow> int \<times> int" where
  "to_timestamp ms = (ms div 1000, js_rem ms 1000 * 1000000)"

datatype backtest_mode = KlineRange | Dataset

record start_run_request =
  srq_code :: string
  srq_account_id :: string
  srq_symbol :: string
  srq_timeframe :: string
  srq_initial_capital :: jsnum
  srq_mode :: backtest_mode
  srq_from :: "(int \<times> int) option"
  srq_to :: "(int \<times> int) option"
  srq_dataset_id :: "string option"
  srq_template_id :: "string option"
  srq_template_draft_id :: "string option"
  srq_extra_symbols :: "string list"

definition start_backtest_run ::
    "string \<Rightarrow> string \<Rightarrow> string \<Rightarrow> string \<Rightarrow> jsnum option \<Rightarrow> backtest_mode \<Rightarrow> int option \<Rightarrow> int option \<Rightarrow>
     string option \<Rightarrow> string option \<Rightarrow> string option \<Rightarrow> string list option \<Rightarrow> start_run_request" where
  "start_backtest_run code account_id symbol timeframe capital mode from_ms to_ms dataset_id template_id
       draft_id extra =
     \<lparr>srq_code = code, srq_account_id = account_id, srq_symbol = symbol, srq_timeframe = timeframe,
      srq_initial_capital = (case capital of Some n \<Rightarrow> n | None \<Rightarrow> Fin 10000), srq_mode = mode,
      srq_from = (if mode = KlineRange then map_option to_timestamp from_ms else None),
      srq_to = (if mode = KlineRange then map_option to_timestamp to_ms else None),
      srq_dataset_id = (if mode = Dataset then dataset_id else None),
      srq_template_id = template_id, srq_template_draft_id = draft_id,
      srq_extra_symbols = List.filter (\<lambda>s. s \<noteq> [] \<and> s \<noteq> symbol) (or_list extra)\<rparr>"

definition list_backtest_runs_request :: "string option \<Rightarrow> nat option \<Rightarrow> nat option \<Rightarrow> string option \<times> nat \<times> nat" where
  "list_backtest_runs_request account limit offset =
     (account, case limit of Some n \<Rightarrow> n | None \<Rightarrow> 50, case offset of Some n \<Rightarrow> n | None \<Rightarrow> 0)"

record validate_result =
  vr_valid :: bool
  vr_errors :: "string list"
  vr_warnings :: "string list"

definition validate_answer :: "bool option \<Rightarrow> string list option \<Rightarrow> string list option \<Rightarrow> validate_result" where
  "validate_answer valid errors warnings =
     \<lparr>vr_valid = (valid = Some True), vr_errors = or_list errors, vr_warnings = or_list warnings\<rparr>"

text \<open>The stream of a run: its updates go to \<open>onUpdate\<close>; an error that says it was aborted is swallowed.\<close>

definition aborted_error :: "string \<Rightarrow> string \<Rightarrow> bool" where
  "aborted_error name text \<longleftrightarrow> name = ''AbortError'' \<or> js_includes text ''canceled'' \<or> js_includes text ''aborted''"

definition watch_backtest_run :: "'u list \<Rightarrow> (string \<times> string) option \<Rightarrow> 'u list \<times> string option" where
  "watch_backtest_run updates finish =
     (updates,
      case finish of
        None \<Rightarrow> None
      | Some (name, text) \<Rightarrow> if aborted_error name text then None else Some text)"

subsection \<open>Facts\<close>

lemma js_rem_nonneg: "0 \<le> a \<Longrightarrow> 0 < b \<Longrightarrow> js_rem a b = a mod b"
  by (cases "a = 0") (simp_all add: js_rem_def)

text \<open>
  The time stamp of a date after 1970 denotes that date, with nanoseconds in their range.
\<close>

theorem timestamp_denotes_date:
  assumes "0 \<le> ms"
  shows "fst (to_timestamp ms) * 1000 + snd (to_timestamp ms) div 1000000 = ms \<and>
    0 \<le> snd (to_timestamp ms) \<and> snd (to_timestamp ms) < 10 ^ 9"
proof -
  have "0 \<le> ms mod 1000" "ms mod 1000 < 1000" by simp_all
  then show ?thesis
    using assms by (simp add: to_timestamp_def js_rem_nonneg)
qed

theorem timestamp_denotes_date_witness:
  "fst (to_timestamp 1500) * 1000 + snd (to_timestamp 1500) div 1000000 = 1500"
  using timestamp_denotes_date [of 1500] by simp

text \<open>The time stamp of a date before 1970 that is not a whole second is one second early, with negative nanoseconds.\<close>

theorem timestamp_before_1970_early:
  fixes k r :: int
  assumes "0 \<le> k" and "0 < r" and "r < 1000"
  defines "ms \<equiv> - (1000 * k + r)"
  shows "fst (to_timestamp ms) * 1000 + snd (to_timestamp ms) div 1000000 = ms - 1000 \<and> snd (to_timestamp ms) < 0"
proof -
  have "ms div 1000 = (1000 * (- k - 1) + (1000 - r)) div 1000"
    by (simp add: ms_def)
  also have "\<dots> = - k - 1 + (1000 - r) div 1000"
    by (rule div_mult_self4) simp
  also have "(1000 - r) div 1000 = 0"
    using assms by simp
  finally have d: "ms div 1000 = - k - 1" by simp
  have a: "\<bar>ms\<bar> = 1000 * k + r" "sgn ms = - 1"
    using assms by (simp_all add: ms_def)
  have "js_rem ms 1000 = - r"
    using assms by (simp add: js_rem_def a)
  with d show ?thesis
    using assms by (simp add: to_timestamp_def ms_def)
qed

theorem timestamp_before_1970_early_witness:
  "fst (to_timestamp (- (1000 * 1 + 500))) * 1000 + snd (to_timestamp (- (1000 * 1 + 500))) div 1000000 =
    - (1000 * 1 + 500) - 1000"
  using timestamp_before_1970_early [of 1 500] by simp

end
