(* ===== verification/CodeValidator.thy ===== *)
theory CodeValidator
  imports AiError
begin

text \<open>
  The check of generated strategy code in the browser (\<open>pages/ai/debate/flow/codeValidator.ts\<close>): the
  code without its comments and docstrings is searched for what the sandbox forbids.  The regular
  expressions are written out as scanners that find the same leftmost, greedy match; \<open>\s\<close> is ASCII
  white space.
\<close>

subsection \<open>Lines\<close>

fun split_lines :: "string \<Rightarrow> string list" where
  "split_lines [] = [[]]"
| "split_lines (c # s) =
     (if c = CHR 0x0A then [] # split_lines s
      else case split_lines s of [] \<Rightarrow> [[c]] | l # ls \<Rightarrow> (c # l) # ls)"

lemma split_lines_not_Nil [simp]: "split_lines s \<noteq> []"
  by (cases s) (auto split: list.splits)

lemma join_split_lines: "js_join newline (split_lines s) = s"
proof (induction s)
  case Nil
  then show ?case by simp
next
  case (Cons c s)
  obtain l ls where s: "split_lines s = l # ls" by (cases "split_lines s") simp_all
  show ?case
  proof (cases "c = CHR 0x0A")
    case True
    with Cons s show ?thesis by simp
  next
    case False
    with Cons s show ?thesis by (cases ls) auto
  qed
qed

subsection \<open>Comments and docstrings\<close>

text \<open>The text after the first occurrence of a pattern.\<close>

fun after_first :: "string \<Rightarrow> string \<Rightarrow> string option" where
  "after_first p [] = (if p = [] then Some [] else None)"
| "after_first p (c # s) = (if prefix p (c # s) then Some (drop (length p) (c # s)) else after_first p s)"

lemma after_first_length: "after_first p s = Some r \<Longrightarrow> length r \<le> length s"
  by (induction p s rule: after_first.induct) (auto split: if_splits)

text \<open>\<open>src.replace(/qqq[\s\S]*?qqq/g, 'qq')\<close> for a quote \<open>q\<close>.\<close>

function strip_triple :: "char \<Rightarrow> string \<Rightarrow> string" where
  "strip_triple q [] = []"
| "strip_triple q (c # s) =
     (if prefix [q, q, q] (c # s) then
        (case after_first [q, q, q] (drop 2 s) of
           Some r \<Rightarrow> q # q # strip_triple q r
         | None \<Rightarrow> c # strip_triple q s)
      else c # strip_triple q s)"
  by pat_completeness auto

termination
  by (relation "measure (length \<circ> snd)") (auto dest!: after_first_length)

text \<open>One line up to the comment; \<open>in_s\<close> and \<open>in_d\<close> say whether a quote is open.\<close>

fun cut_comment :: "bool \<Rightarrow> bool \<Rightarrow> string \<Rightarrow> string" where
  "cut_comment in_s in_d [] = []"
| "cut_comment in_s in_d [c] =
     (if c \<noteq> CHR 0x5C \<and> \<not> in_s \<and> \<not> in_d \<and> c = CHR ''#'' then [] else [c])"
| "cut_comment in_s in_d (c # d # s) =
     (if c = CHR 0x5C then c # d # cut_comment in_s in_d s
      else if \<not> in_d \<and> c = CHR 0x27 then c # cut_comment (\<not> in_s) in_d (d # s)
      else if \<not> in_s \<and> c = CHR 0x22 then c # cut_comment in_s (\<not> in_d) (d # s)
      else if \<not> in_s \<and> \<not> in_d \<and> c = CHR ''#'' then []
      else c # cut_comment in_s in_d (d # s))"

definition strip_python_comments :: "string \<Rightarrow> string" where
  "strip_python_comments src =
     js_join newline (List.map (cut_comment False False)
       (split_lines (strip_triple (CHR 0x27) (strip_triple (CHR 0x22) src))))"

subsection \<open>Matches\<close>

definition line_end :: "char \<Rightarrow> bool" where
  "line_end c \<longleftrightarrow> c = CHR 0x0A \<or> c = CHR 0x0D"

text \<open>A leftmost match of an expression that begins with \<open>^\<close>, in multi-line mode.\<close>

fun at_line_start :: "(string \<Rightarrow> 'a option) \<Rightarrow> bool \<Rightarrow> string \<Rightarrow> 'a option" where
  "at_line_start m start [] = (if start then m [] else None)"
| "at_line_start m start (c # s) =
     (case (if start then m (c # s) else None) of
        Some x \<Rightarrow> Some x
      | None \<Rightarrow> at_line_start m (line_end c) s)"

text \<open>White space and other text, as long as possible: \<open>\s+\<close> and \<open>\S+\<close>, which need a character.\<close>

definition spaces :: "string \<Rightarrow> (string \<times> string) option" where
  "spaces s = (if takeWhile js_ws s = [] then None else Some (takeWhile js_ws s, dropWhile js_ws s))"

definition token :: "string \<Rightarrow> (string \<times> string) option" where
  "token s = (if takeWhile (\<lambda>c. \<not> js_ws c) s = [] then None
     else Some (takeWhile (\<lambda>c. \<not> js_ws c) s, dropWhile (\<lambda>c. \<not> js_ws c) s))"

definition literal :: "string \<Rightarrow> string \<Rightarrow> (string \<times> string) option" where
  "literal p s = (if prefix p s then Some (p, drop (length p) s) else None)"

definition optional_spaces :: "string \<Rightarrow> (string \<times> string) option" where
  "optional_spaces s = Some (takeWhile js_ws s, dropWhile js_ws s)"

text \<open>A sequence of expressions, each of which has only one way to match.\<close>

fun in_sequence :: "(string \<Rightarrow> (string \<times> string) option) list \<Rightarrow> string \<Rightarrow> (string \<times> string) option" where
  "in_sequence [] s = Some ([], s)"
| "in_sequence (m # ms) s =
     (case m s of
        None \<Rightarrow> None
      | Some (x, r) \<Rightarrow> map_option (\<lambda>(y, r'). (x @ y, r')) (in_sequence ms r))"

text \<open>\<open>/^\s*(?:import\s+\S+|from\s+\S+\s+import\s+)/m\<close>\<close>

definition import_here :: "string \<Rightarrow> string option" where
  "import_here s =
     (case in_sequence [optional_spaces, literal ''import'', spaces, token] s of
        Some (x, _) \<Rightarrow> Some x
      | None \<Rightarrow> map_option fst
          (in_sequence [optional_spaces, literal ''from'', spaces, token, spaces, literal ''import'', spaces] s))"

definition import_match :: "string \<Rightarrow> string option" where
  "import_match s = at_line_start import_here True s"

text \<open>\<open>/__[A-Za-z_]+__/\<close>\<close>

definition name_char :: "char \<Rightarrow> bool" where
  "name_char c \<longleftrightarrow> is_lower c \<or> is_upper c \<or> c = CHR ''_''"

definition dunder_here :: "string \<Rightarrow> string option" where
  "dunder_here s =
     (if prefix ''__'' s then
        map_option (\<lambda>p. ''__'' @ p)
          (List.find (\<lambda>p. 3 \<le> length p \<and> suffix ''__'' p) (rev (prefixes (takeWhile name_char (drop 2 s)))))
      else None)"

fun dunder_match :: "string \<Rightarrow> string option" where
  "dunder_match [] = None"
| "dunder_match (c # s) =
     (case dunder_here (c # s) of Some x \<Rightarrow> Some x | None \<Rightarrow> dunder_match s)"

text \<open>\<open>(^|[^A-Za-z0-9_])name\s*[ends]\<close>\<close>

fun word_then :: "bool \<Rightarrow> string \<Rightarrow> char list \<Rightarrow> string \<Rightarrow> bool" where
  "word_then in_word name ends [] = False"
| "word_then in_word name ends (c # s) =
     (if \<not> in_word \<and> prefix name (c # s) \<and>
          (case dropWhile js_ws (drop (length name) (c # s)) of [] \<Rightarrow> False | e # _ \<Rightarrow> e \<in> set ends)
      then True else word_then (word_char c) name ends s)"

text \<open>\<open>/^def\s+run\s*\(\s*context\s*\)\s*:/m\<close> and \<open>/^def\s+run\s*\(/m\<close>\<close>

definition run_signature_here :: "string \<Rightarrow> string option" where
  "run_signature_here s = map_option fst
     (in_sequence [literal ''def'', spaces, literal ''run'', optional_spaces, literal ''('',
        optional_spaces, literal ''context'', optional_spaces, literal '')'', optional_spaces, literal '':''] s)"

definition any_run_here :: "string \<Rightarrow> string option" where
  "any_run_here s = map_option fst
     (in_sequence [literal ''def'', spaces, literal ''run'', optional_spaces, literal ''(''] s)"

subsection \<open>Violations\<close>

datatype violation_code =
    VImport
  | VDunder
  | VBannedIdentifier
  | VForbiddenPackage
  | VMissingRun
  | VWrongSignature
  | VFenceInside
  | VEmpty

fun violation_name :: "violation_code \<Rightarrow> string" where
  "violation_name VImport = ''import''"
| "violation_name VDunder = ''dunder''"
| "violation_name VBannedIdentifier = ''banned_identifier''"
| "violation_name VForbiddenPackage = ''forbidden_package''"
| "violation_name VMissingRun = ''missing_run''"
| "violation_name VWrongSignature = ''wrong_signature''"
| "violation_name VFenceInside = ''fence_inside''"
| "violation_name VEmpty = ''empty''"

record violation =
  vi_code :: violation_code
  vi_message :: string
  vi_hit :: "string option"

definition banned_identifiers :: "string list" where
  "banned_identifiers =
     [''open'', ''eval'', ''exec'', ''compile'', ''globals'', ''locals'', ''vars'', ''dir'', ''input'',
      ''breakpoint'', ''help'', ''exit'', ''quit'', ''getattr'', ''setattr'', ''delattr'', ''hasattr'']"

definition forbidden_packages :: "string list" where
  "forbidden_packages =
     [''pandas'', ''numpy'', ''backtrader'', ''ccxt'', ''requests'', ''os'', ''sys'', ''subprocess'',
      ''pathlib'', ''pickle'', ''socket'', ''shutil'', ''multiprocessing'', ''threading'', ''asyncio'']"

abbreviation backtick :: string where
  "backtick \<equiv> [CHR 0x60]"

definition fence :: string where
  "fence = [CHR 0x60, CHR 0x60, CHR 0x60]"

definition fence_violation :: "string \<Rightarrow> violation list" where
  "fence_violation code =
     (if js_includes code fence
      then [\<lparr>vi_code = VFenceInside, vi_message = ''The code body still contains '' @ fence @ '' fences.'',
             vi_hit = None\<rparr>] else [])"

definition import_violation :: "string \<Rightarrow> violation list" where
  "import_violation stripped =
     (case import_match stripped of
        None \<Rightarrow> []
      | Some x \<Rightarrow> [\<lparr>vi_code = VImport,
          vi_message = ''Python '' @ backtick @ ''import'' @ backtick @ '' statements are not allowed in the sandbox.'',
          vi_hit = Some (js_trim x)\<rparr>])"

definition dunder_violation :: "string \<Rightarrow> violation list" where
  "dunder_violation stripped =
     (case dunder_match stripped of
        None \<Rightarrow> []
      | Some x \<Rightarrow> [\<lparr>vi_code = VDunder,
          vi_message = ''Dunder attribute access is not allowed (hit: '' @ x @ '').'', vi_hit = Some x\<rparr>])"

definition banned_violation :: "string \<Rightarrow> violation list" where
  "banned_violation stripped =
     (case List.find (\<lambda>w. word_then False w ''('' stripped) banned_identifiers of
        None \<Rightarrow> []
      | Some w \<Rightarrow> [\<lparr>vi_code = VBannedIdentifier,
          vi_message = ''Calling the banned builtin '' @ backtick @ w @ ''(...)'' @ backtick @ '' is not allowed.'',
          vi_hit = Some w\<rparr>])"

definition package_violation :: "string \<Rightarrow> violation list" where
  "package_violation stripped =
     (case List.find (\<lambda>w. word_then False w ''.('' stripped) forbidden_packages of
        None \<Rightarrow> []
      | Some w \<Rightarrow> [\<lparr>vi_code = VForbiddenPackage,
          vi_message = ''Third-party / system package '' @ backtick @ w @ backtick @ '' is not available in the sandbox.'',
          vi_hit = Some w\<rparr>])"

definition run_violation :: "string \<Rightarrow> violation list" where
  "run_violation stripped =
     (if at_line_start run_signature_here True stripped \<noteq> None then []
      else case at_line_start any_run_here True stripped of
          Some x \<Rightarrow> [\<lparr>vi_code = VWrongSignature,
            vi_message = ''The entry point must be '' @ backtick @ ''def run(context):'' @ backtick @
              '' (found: '' @ x @ '').'', vi_hit = Some x\<rparr>]
        | None \<Rightarrow> [\<lparr>vi_code = VMissingRun,
            vi_message = ''Missing the '' @ backtick @ ''def run(context):'' @ backtick @
              '' entry point at top level.'', vi_hit = None\<rparr>])"

definition validate_python_sandbox :: "string \<Rightarrow> violation list" where
  "validate_python_sandbox code =
     (if js_trim code = []
      then [\<lparr>vi_code = VEmpty, vi_message = ''The generated code is empty.'', vi_hit = None\<rparr>]
      else
        (let stripped = strip_python_comments code
         in fence_violation code @ import_violation stripped @ dunder_violation stripped @
            banned_violation stripped @ package_violation stripped @ run_violation stripped))"

definition feedback_head :: string where
  "feedback_head = ''The previous code failed the sandbox validator. Please rewrite so that ALL of the '' @
     ''following are fixed:''"

definition feedback_tail :: "string list" where
  "feedback_tail =
     [''Reminders:'',
      ''- The entry must be exactly '' @ backtick @ ''def run(context):'' @ backtick @ '' at top level.'',
      ''- Do NOT use any '' @ backtick @ ''import'' @ backtick @ '' statement, any dunder (e.g. __import__), or '' @
        ''banned builtins (open/eval/exec/compile/globals/locals/getattr/...).'',
      ''- Do NOT use pandas / numpy / backtrader / os / sys / requests etc.; read everything from '' @
        backtick @ ''context'' @ backtick @ ''.'',
      ''- Output only ONE '' @ fence @ ''python ...'' @ fence @ '' fenced block.'']"

fun numbered :: "nat \<Rightarrow> violation list \<Rightarrow> string list" where
  "numbered n [] = []"
| "numbered n (v # vs) =
     (nat_str n @ ''. ['' @ violation_name (vi_code v) @ ''] '' @ vi_message v) # numbered (Suc n) vs"

definition violations_to_feedback :: "violation list \<Rightarrow> string" where
  "violations_to_feedback vs =
     (if vs = [] then []
      else js_join newline ([feedback_head] @ numbered 1 vs @ [[]] @ feedback_tail))"

subsection \<open>Facts\<close>

lemma at_line_start_None:
  "at_line_start m start s = None \<Longrightarrow>
    (start \<longrightarrow> m s = None) \<and> (\<forall>a c b. s = a @ c # b \<and> line_end c \<longrightarrow> m b = None)"
proof (induction m start s rule: at_line_start.induct)
  case (1 m start)
  then show ?case by (simp split: if_splits)
next
  case (2 m start c s)
  have here: "start \<longrightarrow> m (c # s) = None" and rest: "at_line_start m (line_end c) s = None"
    using "2.prems" by (auto split: option.splits if_splits)
  have IH: "(line_end c \<longrightarrow> m s = None) \<and> (\<forall>a d b. s = a @ d # b \<and> line_end d \<longrightarrow> m b = None)"
    using "2.IH" rest here by auto
  show ?case
  proof (intro conjI allI impI)
    show "m (c # s) = None" if start using here that by simp
    fix a d b
    assume "c # s = a @ d # b \<and> line_end d"
    then show "m b = None" using IH by (cases a) auto
  qed
qed

lemma at_line_start_Some:
  "at_line_start m start s = Some x \<Longrightarrow>
    \<exists>a b. s = a @ b \<and> m b = Some x \<and> (a = [] \<and> start \<or> a \<noteq> [] \<and> line_end (last a))"
proof (induction m start s rule: at_line_start.induct)
  case (1 m start)
  then show ?case by (simp split: if_splits)
next
  case (2 m start c s)
  show ?case
  proof (cases "if start then m (c # s) else None")
    case None
    with 2 obtain a b where "s = a @ b" "m b = Some x" "a = [] \<and> line_end c \<or> a \<noteq> [] \<and> line_end (last a)"
      by auto
    then show ?thesis by (intro exI [of _ "c # a"] exI [of _ b]) auto
  next
    case (Some y)
    with "2.prems" show ?thesis by (intro exI [of _ "[]"] exI [of _ "c # s"]) (auto split: if_splits)
  qed
qed

lemma takeWhile_ws:
  "list_all js_ws w \<Longrightarrow> r = [] \<or> \<not> js_ws (hd r) \<Longrightarrow> takeWhile js_ws (w @ r) = w"
  "list_all js_ws w \<Longrightarrow> r = [] \<or> \<not> js_ws (hd r) \<Longrightarrow> dropWhile js_ws (w @ r) = r"
  by (induction w; cases r; auto)+

lemma takeWhile_name:
  "list_all (\<lambda>c. \<not> js_ws c) n \<Longrightarrow> js_ws (hd w) \<Longrightarrow> w \<noteq> [] \<Longrightarrow> takeWhile (\<lambda>c. \<not> js_ws c) (n @ w @ r) = n"
  "list_all (\<lambda>c. \<not> js_ws c) n \<Longrightarrow> js_ws (hd w) \<Longrightarrow> w \<noteq> [] \<Longrightarrow> dropWhile (\<lambda>c. \<not> js_ws c) (n @ w @ r) = w @ r"
  by (induction n; cases w; auto)+

lemma in_sequence_literal [simp]: "in_sequence (literal p # ms) (p @ r) = map_option (\<lambda>(y, r'). (p @ y, r')) (in_sequence ms r)"
  by (simp add: literal_def)

lemma in_sequence_spaces:
  assumes "list_all js_ws w" and "r = [] \<or> \<not> js_ws (hd r)"
  shows "in_sequence (optional_spaces # ms) (w @ r) = map_option (\<lambda>(y, r'). (w @ y, r')) (in_sequence ms r)"
    and "w \<noteq> [] \<Longrightarrow> in_sequence (spaces # ms) (w @ r) = map_option (\<lambda>(y, r'). (w @ y, r')) (in_sequence ms r)"
  using takeWhile_ws [OF assms] by (simp_all add: optional_spaces_def spaces_def)

lemma in_sequence_token:
  assumes "list_all (\<lambda>c. \<not> js_ws c) n" "n \<noteq> []" "js_ws (hd w)" "w \<noteq> []"
  shows "in_sequence (token # ms) (n @ w @ r) = map_option (\<lambda>(y, r'). (n @ y, r')) (in_sequence ms (w @ r))"
  using takeWhile_name [OF assms(1,3,4)] assms(2) by (simp add: token_def)

lemma literal_SomeE:
  assumes "in_sequence (literal p # ms) s = Some (x, r)"
  obtains y s' where "s = p @ s'" "in_sequence ms s' = Some (y, r)"
  using assms that by (auto simp: literal_def elim!: prefixE split: if_splits)

lemma takeWhile_ws_split: "s = takeWhile js_ws s @ dropWhile js_ws s" "list_all js_ws (takeWhile js_ws s)"
  by (auto simp: list_all_iff dest: set_takeWhileD)

lemma spaces_SomeE:
  assumes "in_sequence (spaces # ms) s = Some (x, r)"
  obtains w y s' where "s = w @ s'" "list_all js_ws w" "w \<noteq> []" "in_sequence ms s' = Some (y, r)"
proof -
  from assms obtain y where "takeWhile js_ws s \<noteq> []" "in_sequence ms (dropWhile js_ws s) = Some (y, r)"
    by (auto simp: spaces_def split: if_splits)
  with takeWhile_ws_split [of s] show thesis by (intro that)
qed

lemma optional_spaces_SomeE:
  assumes "in_sequence (optional_spaces # ms) s = Some (x, r)"
  obtains w y s' where "s = w @ s'" "list_all js_ws w" "in_sequence ms s' = Some (y, r)"
proof -
  from assms obtain y where "in_sequence ms (dropWhile js_ws s) = Some (y, r)"
    by (auto simp: optional_spaces_def)
  with takeWhile_ws_split [of s] show thesis by (intro that)
qed

subsection \<open>What accepted code is\<close>

text \<open>The texts that begin at a line of a text.\<close>

definition at_line :: "string \<Rightarrow> string \<Rightarrow> bool" where
  "at_line s b \<longleftrightarrow> (\<exists>a. s = a @ b \<and> (a = [] \<or> line_end (last a)))"

text \<open>The entry point, the two forms of an import, a use of a name, and a name between double underscores.\<close>

definition entry_point :: "string \<Rightarrow> bool" where
  "entry_point b \<longleftrightarrow> (\<exists>u v w x y z. list_all js_ws (u @ v @ w @ x @ y) \<and> u \<noteq> [] \<and>
     b = ''def'' @ u @ ''run'' @ v @ ''('' @ w @ ''context'' @ x @ '')'' @ y @ '':'' @ z)"

definition import_statement :: "string \<Rightarrow> bool" where
  "import_statement b \<longleftrightarrow>
     (\<exists>u v n r. list_all js_ws (u @ v) \<and> v \<noteq> [] \<and> \<not> js_ws n \<and> b = u @ ''import'' @ v @ n # r) \<or>
     (\<exists>u v n w x r. list_all js_ws (u @ v @ w @ x) \<and> v \<noteq> [] \<and> w \<noteq> [] \<and> x \<noteq> [] \<and>
        list_all (\<lambda>c. \<not> js_ws c) n \<and> n \<noteq> [] \<and> b = u @ ''from'' @ v @ n @ w @ ''import'' @ x @ r)"

definition uses_name :: "string \<Rightarrow> char set \<Rightarrow> string \<Rightarrow> bool" where
  "uses_name name ends s \<longleftrightarrow>
     (\<exists>a w e b. s = a @ name @ w @ e # b \<and> list_all js_ws w \<and> e \<in> ends \<and> (a = [] \<or> \<not> word_char (last a)))"

definition has_dunder :: "string \<Rightarrow> bool" where
  "has_dunder s \<longleftrightarrow> (\<exists>a n b. s = a @ ''__'' @ n @ ''__'' @ b \<and> n \<noteq> [] \<and> list_all name_char n)"

lemma ws_letters [simp]: "\<not> js_ws (CHR ''i'')" "\<not> js_ws (CHR ''f'')"
  by (simp_all add: js_ws_def)

lemma import_here_found: "import_statement b \<Longrightarrow> import_here b \<noteq> None"
proof -
  assume "import_statement b"
  then consider (plain) u v n r where "list_all js_ws u" "list_all js_ws v" "v \<noteq> []" "\<not> js_ws n" "b = u @ ''import'' @ v @ n # r"
    | (sub) u v n w x r where "list_all js_ws u" "list_all js_ws v" "list_all js_ws w" "list_all js_ws x" "v \<noteq> []" "w \<noteq> []" "x \<noteq> []"
        "list_all (\<lambda>c. \<not> js_ws c) n" "n \<noteq> []" "b = u @ ''from'' @ v @ n @ w @ ''import'' @ x @ r"
    unfolding import_statement_def by (auto simp del: append.simps)
  then show ?thesis
  proof cases
    case plain
    then have "in_sequence [optional_spaces, literal ''import'', spaces, token] b \<noteq> None"
      using in_sequence_spaces(1) [OF plain(1), of "''import'' @ v @ n # r"]
        in_sequence_literal [of "''import''" "[spaces, token]" "v @ n # r"] in_sequence_spaces(2) [OF plain(2) _ plain(3), of "n # r"]
      by (simp add: token_def del: in_sequence.simps(2) in_sequence_literal)
        (simp add: token_def)
    then show ?thesis by (auto simp: import_here_def split: option.splits)
  next
    case sub
    have hd: "js_ws (hd w)" using sub(3,6) by (cases w) auto
    have nh: "\<not> js_ws (hd (n @ q))" for q using sub(8,9) by (cases n) auto
    have "in_sequence [spaces] (x @ r) \<noteq> None"
      using sub(4,7) by (cases x) (simp_all add: spaces_def)
    then have "in_sequence [optional_spaces, literal ''from'', spaces, token, spaces, literal ''import'', spaces] b \<noteq> None"
      using in_sequence_spaces(1) [OF sub(1), of "''from'' @ v @ n @ w @ ''import'' @ x @ r"]
        in_sequence_literal [of "''from''" _ "v @ n @ w @ ''import'' @ x @ r"]
        in_sequence_spaces(2) [OF sub(2) _ sub(5), of "n @ w @ ''import'' @ x @ r"]
        in_sequence_token [OF sub(8,9) hd sub(6), of _ "''import'' @ x @ r"]
        in_sequence_spaces(2) [OF sub(3) _ sub(6), of "''import'' @ x @ r"]
        in_sequence_literal [of "''import''" "[spaces]" "x @ r"] sub(10) nh
      by (simp del: in_sequence.simps in_sequence_literal)
    then show ?thesis by (auto simp: import_here_def split: option.splits)
  qed
qed

lemma run_signature_entry:
  assumes "run_signature_here b = Some x"
  shows "entry_point b"
proof -
  obtain y r where "in_sequence [literal ''def'', spaces, literal ''run'', optional_spaces, literal ''('',
        optional_spaces, literal ''context'', optional_spaces, literal '')'', optional_spaces, literal '':''] b = Some (y, r)"
    using assms by (auto simp: run_signature_here_def simp del: in_sequence.simps)
  then obtain u v w x y z where "b = ''def'' @ u @ ''run'' @ v @ ''('' @ w @ ''context'' @ x @ '')'' @ y @ '':'' @ z"
      "list_all js_ws u" "list_all js_ws v" "list_all js_ws w" "list_all js_ws x" "list_all js_ws y" "u \<noteq> []"
    by (elim literal_SomeE spaces_SomeE optional_spaces_SomeE) (simp del: append.simps)
  then show ?thesis
    unfolding entry_point_def by (intro exI [of _ u] exI [of _ v] exI [of _ w] exI [of _ x] exI [of _ y] exI [of _ z]) simp
qed

lemma word_then_uses:
  assumes "\<not> word_then in_word name ends s" "s = a @ name @ w @ e # b" "e \<in> set ends"
    and "name \<noteq> []" "list_all js_ws w" "\<not> js_ws e"
  shows "if a = [] then in_word else word_char (last a)"
  using assms(1-3)
proof (induction in_word name ends s arbitrary: a rule: word_then.induct)
  case (2 in_word name ends c s)
  have rest: "dropWhile js_ws (w @ e # b) = e # b" using assms(5,6) by (intro takeWhile_ws) simp_all
  show ?case
  proof (cases a)
    case Nil
    then have "drop (length name) (c # s) = w @ e # b" "prefix name (c # s)" using "2.prems"(2) by simp_all
    then have "in_word" using "2.prems"(1) rest "2.prems"(3) by (auto split: if_splits)
    with Nil show ?thesis by simp
  next
    case (Cons d a')
    with "2.IH" [of a'] "2.prems" show ?thesis by (auto split: if_splits)
  qed
qed (use assms(4) in simp)

lemma word_then_unused:
  assumes "\<not> word_then False name ends s" "name \<noteq> []" "\<forall>e \<in> set ends. \<not> js_ws e"
  shows "\<not> uses_name name (set ends) s"
proof
  assume "uses_name name (set ends) s"
  then obtain a w e b where u: "s = a @ name @ w @ e # b" "list_all js_ws w" "e \<in> set ends" "a = [] \<or> \<not> word_char (last a)"
    by (auto simp: uses_name_def)
  then show False
    using word_then_uses [OF assms(1) u(1) u(3) assms(2) u(2)] assms(3) by (auto split: if_splits)
qed

lemma dunder_here_found:
  assumes "n \<noteq> []" "list_all name_char n"
  shows "dunder_here (''__'' @ n @ ''__'' @ b) \<noteq> None"
proof -
  have "takeWhile name_char (n @ ''__'' @ b) = n @ ''__'' @ takeWhile name_char b"
    using assms(2) by (induction n) (simp_all add: name_char_def)
  then have "prefix (n @ ''__'') (takeWhile name_char (n @ ''__'' @ b))" by simp
  then have "n @ ''__'' \<in> set (rev (prefixes (takeWhile name_char (n @ ''__'' @ b))))" by simp
  moreover have "3 \<le> length (n @ ''__'') \<and> suffix ''__'' (n @ ''__'')"
    using assms(1) by (cases n) (auto simp: suffix_def)
  ultimately have "List.find (\<lambda>p. 3 \<le> length p \<and> suffix ''__'' p) (rev (prefixes (takeWhile name_char (n @ ''__'' @ b)))) \<noteq> None"
    unfolding find_None_iff by blast
  then show ?thesis by (simp add: dunder_here_def del: append.simps) (simp add: dunder_here_def)
qed

lemma dunder_match_here: "dunder_match (a @ b) = None \<Longrightarrow> b \<noteq> [] \<Longrightarrow> dunder_here b = None"
proof (induction a)
  case Nil
  then show ?case by (cases b) (simp_all split: option.splits)
qed (simp split: option.splits)

lemma no_dunder: "dunder_match s = None \<Longrightarrow> \<not> has_dunder s"
proof
  assume none: "dunder_match s = None" and "has_dunder s"
  then obtain a n b where "s = a @ (''__'' @ n @ ''__'' @ b)" "n \<noteq> []" "list_all name_char n" by (auto simp: has_dunder_def)
  then show False using dunder_match_here [of a "''__'' @ n @ ''__'' @ b"] none dunder_here_found [of n b] by simp
qed


definition demo_code :: string where
  "demo_code = ''def run(context):'' @ newline @ ''    return 1'' @ newline"

lemma demo_code_accepted: "validate_python_sandbox demo_code = []"
  by code_simp


text \<open>A forbidden builtin that is used without being called at once is accepted.\<close>

theorem builtin_alias_accepted:
  "validate_python_sandbox (''def run(context):'' @ newline @ ''    f = eval'' @ newline @ ''    return f(1)'') = []"
  by code_simp

text \<open>
  A comment that contains three quotes hides the code up to the next such comment, imports and all.
\<close>

theorem quoted_comment_hides_import:
  "validate_python_sandbox
     (''# '' @ [CHR 0x22, CHR 0x22, CHR 0x22] @ newline @ ''import os'' @ newline @
      ''# '' @ [CHR 0x22, CHR 0x22, CHR 0x22] @ newline @ demo_code) = []"
  by code_simp

lemma sublist_join: "x \<in> set xs \<Longrightarrow> sublist x (js_join sep xs)"
proof (induction xs rule: js_join.induct [of _ sep])
  case (3 sep x' y ys)
  then show ?case
    by (auto simp: sublist_appendI intro: sublist_append_rightI sublist_order.order_trans [OF _ sublist_append_leftI])
qed simp_all

lemma numbered_messages: "v \<in> set vs \<Longrightarrow> \<exists>line \<in> set (numbered n vs). sublist (vi_message v) line"
proof (induction n vs rule: numbered.induct)
  case (2 n w vs)
  have "sublist (vi_message w) (nat_str n @ ''. ['' @ violation_name (vi_code w) @ ''] '' @ vi_message w)"
    using sublist_append_leftI [of "vi_message w" "nat_str n @ ''. ['' @ violation_name (vi_code w) @ ''] ''"] by simp
  with 2 show ?case by auto
qed simp

text \<open>The feedback for the model is empty exactly when there are no violations.\<close>

theorem feedback_empty: "violations_to_feedback vs = [] \<longleftrightarrow> vs = []"
  by (cases vs) (simp_all add: violations_to_feedback_def feedback_head_def)

text \<open>The feedback for the model contains the message of every violation.\<close>

theorem feedback_names_violations:
  assumes "v \<in> set vs"
  shows "js_includes (violations_to_feedback vs) (vi_message v)"
proof -
  obtain line where line: "line \<in> set (numbered 1 vs)" "sublist (vi_message v) line"
    using numbered_messages [OF assms] by blast
  then have "sublist line (violations_to_feedback vs)"
    using assms by (auto simp: violations_to_feedback_def simp del: js_join.simps intro!: sublist_join)
  with line show ?thesis
    unfolding js_includes_sublist by (metis sublist_order.order_trans)
qed

lemma cut_comment_prefix: "prefix (cut_comment in_s in_d l) l"
  by (induction in_s in_d l rule: cut_comment.induct) auto

end
