(* ===== verification/StrategyPages.thy ===== *)
theory StrategyPages
  imports StrategyClient Effects CodeValidator
begin

text \<open>
  Helpers of the strategy pages: metrics and titles of backtest runs
  (\<open>pages/strategy/StrategyTemplatePage.utils.ts\<close>), the score and the creation of a schedule
  (\<open>StrategyTemplatePage.schedule.ts\<close>), the injection of parameters into strategy code
  (\<open>backtestParamInjection.ts\<close>), and the strict validation of code (\<open>utils/strategyValidation.ts\<close>).
\<close>

subsection \<open>Metrics\<close>

definition pick_num :: "jv \<Rightarrow> rat option" where
  "pick_num v =
     (case v of
        JNum (Fin q) \<Rightarrow> Some q
      | JStr s \<Rightarrow>
          if js_trim s \<noteq> [] then (case number_of_string s of Fin q \<Rightarrow> Some q | _ \<Rightarrow> None) else None
      | _ \<Rightarrow> None)"

fun pick_metric :: "jv \<Rightarrow> string list \<Rightarrow> rat option" where
  "pick_metric metrics [] = None"
| "pick_metric metrics (k # ks) =
     (case pick_num (jget k metrics) of Some q \<Rightarrow> Some q | None \<Rightarrow> pick_metric metrics ks)"

definition clamp01 :: "rat \<Rightarrow> rat" where
  "clamp01 x = (if x < 0 then 0 else if x > 1 then 1 else x)"

definition math_round :: "rat \<Rightarrow> int" where
  "math_round q = \<lfloor>q + 1 / 2\<rfloor>"

definition part_score :: "(rat \<Rightarrow> rat) \<Rightarrow> rat option \<Rightarrow> rat" where
  "part_score f v = (case v of None \<Rightarrow> 1 / 2 | Some x \<Rightarrow> clamp01 (f x))"

definition compute_score_value :: "jv \<Rightarrow> int option" where
  "compute_score_value metrics =
     (if \<not> truthy metrics then None
      else
        (let total_return = pick_metric metrics [''totalReturn'', ''total_return''];
             max_drawdown = pick_metric metrics [''maxDrawdown'', ''max_drawdown''];
             sharpe = pick_metric metrics [''sharpeRatio'', ''sharpe_ratio''];
             win_rate = pick_metric metrics [''winRate'', ''win_rate''];
             dd_score = part_score (\<lambda>x. 1 - x / (3 / 10)) max_drawdown;
             sr_score = part_score (\<lambda>x. (x + 1 / 2) / 3) sharpe;
             wr_score = part_score (\<lambda>x. (x - 3 / 10) / (1 / 2)) win_rate;
             ret_score = part_score (\<lambda>x. (x + 1 / 5) / (3 / 5)) total_return
         in Some (math_round ((dd_score * (35 / 100) + sr_score * (25 / 100) + wr_score * (20 / 100) +
               ret_score * (20 / 100)) * 100))))"

subsection \<open>Runs\<close>

definition is_terminal_run :: "jv \<Rightarrow> bool" where
  "is_terminal_run r \<longleftrightarrow> truthy (js_or (jget ''isTerminal'' r) (jget ''is_terminal'' r))"

definition is_succeeded_run :: "jv \<Rightarrow> bool" where
  "is_succeeded_run r \<longleftrightarrow> truthy (js_or (jget ''isSucceeded'' r) (jget ''is_succeeded'' r))"

definition trimmed_field :: "jv list \<Rightarrow> string" where
  "trimmed_field vs = js_trim (js_string (foldr js_or vs (JStr [])))"

definition is_err_template_not_draft :: "jv \<Rightarrow> bool" where
  "is_err_template_not_draft e =
     (let msg = js_string (foldr js_or [jget ''rawMessage'' e, jget ''message'' e, e] (JStr []))
      in js_includes (js_lower msg) ''not a draft'' \<or> js_includes (js_lower msg) ''template is not a draft'')"

definition get_run_template_ref :: "jv \<Rightarrow> string option \<times> string option" where
  "get_run_template_ref r =
     (let template_id = trimmed_field [jget ''templateId'' r, jget ''template_id'' r];
          draft_id = trimmed_field [jget ''templateDraftId'' r, jget ''template_draft_id'' r]
      in (if template_id = [] then None else Some template_id, if draft_id = [] then None else Some draft_id))"

definition quick_range_label :: "(string \<Rightarrow> string) \<Rightarrow> string \<Rightarrow> string" where
  "quick_range_label t key =
     (if key = ''1D'' then t ''strategy.templates.backtest.quickRange.1d''
      else if key = ''3D'' then t ''strategy.templates.backtest.quickRange.3d''
      else if key = ''1W'' then t ''strategy.templates.backtest.quickRange.1w''
      else if key = ''1Y'' then t ''strategy.templates.backtest.quickRange.1y''
      else t ''strategy.templates.backtest.quickRange.custom'')"

text \<open>The titles are kept in the local storage; \<open>None\<close> is an item that is not there.\<close>

definition load_run_titles :: "string option \<Rightarrow> jv" where
  "load_run_titles item =
     (case item of
        None \<Rightarrow> JObj []
      | Some raw \<Rightarrow>
          if raw = [] then JObj []
          else (case json_parse raw of
              None \<Rightarrow> JObj []
            | Some o' \<Rightarrow> if truthy o' \<and> is_object o' then o' else JObj []))"

text \<open>A named field that is assigned to an array is not printed.\<close>

definition save_run_title :: "string \<Rightarrow> string \<Rightarrow> string option \<Rightarrow> string option" where
  "save_run_title run_id title item =
     (if run_id = [] then item
      else (case load_run_titles item of
          JArr xs \<Rightarrow> Some (json_print (JArr xs))
        | titles \<Rightarrow> Some (json_print (jset run_id (JStr title) titles))))"

subsection \<open>Schedules\<close>

text \<open>\<open>tn\<close> is the translation of the name template with the symbol, the time frame and the time.\<close>

definition build_schedule_name :: "(string \<Rightarrow> string \<Rightarrow> string \<Rightarrow> string) \<Rightarrow> string \<Rightarrow> jv \<Rightarrow> string" where
  "build_schedule_name tn now_text r =
     (let symbol = trimmed_field [jget ''symbol'' r]; timeframe = trimmed_field [jget ''timeframe'' r];
          title = trimmed_field [jget ''title'' r]
      in if title \<noteq> [] then title else js_trim (tn symbol timeframe now_text))"

record schedule_launch_form =
  lf_account_id :: string
  lf_symbol :: string
  lf_timeframe :: string
  lf_schedule_type :: string
  lf_interval_ms :: jsnum
  lf_hf_cooldown_ms :: jsnum

record launch_params =
  lp_template_id :: string
  lp_run :: jv
  lp_enable :: bool
  lp_form :: "schedule_launch_form option"
  lp_parameters :: "(string \<times> jv) list"

text \<open>What the creation does, in order.\<close>

datatype launch_effect =
    LeToast toast
  | LeGetTemplate string
  | LeCreate create_schedule_request
  | LeToggle string
  | LeCreating bool
  | LeFetchTemplates
  | LeFetchRuns
  | LeClose

definition form_field :: "(schedule_launch_form \<Rightarrow> string) \<Rightarrow> launch_params \<Rightarrow> jv" where
  "form_field f p = (case lp_form p of None \<Rightarrow> JUndef | Some form \<Rightarrow> JStr (f form))"

definition launch_number :: "(schedule_launch_form \<Rightarrow> jsnum) \<Rightarrow> jsnum \<Rightarrow> launch_params \<Rightarrow> int option" where
  "launch_number f d p =
     bigint_of (case lp_form p of None \<Rightarrow> d | Some form \<Rightarrow> if truthy (JNum (f form)) then f form else d)"

text \<open>\<open>None\<close> where \<open>BigInt\<close> throws.\<close>

definition launch_config :: "string \<Rightarrow> launch_params \<Rightarrow> jv option" where
  "launch_config schedule_type p =
     (if schedule_type = ''interval'' then
        map_option (\<lambda>i. JObj [(''intervalMs'', JBig i)]) (launch_number lf_interval_ms (Fin 300000) p)
      else if schedule_type = ''hf_quote'' then
        map_option (\<lambda>i. JObj [(''triggerMode'', JStr ''hf_quote_stream''), (''hfCooldownMs'', JBig i)])
          (launch_number lf_hf_cooldown_ms (Fin 1000) p)
      else if schedule_type = ''kline_close'' then Some (JObj [(''triggerMode'', JStr ''stable_kline'')])
      else Some (JObj []))"

definition launch_schedule_type :: "launch_params \<Rightarrow> string" where
  "launch_schedule_type p =
     (case lp_form p of None \<Rightarrow> ''kline_close''
      | Some form \<Rightarrow> if lf_schedule_type form = [] then ''kline_close'' else lf_schedule_type form)"

definition launch_request ::
    "(string \<Rightarrow> string \<Rightarrow> string \<Rightarrow> string) \<Rightarrow> string \<Rightarrow> launch_params \<Rightarrow> jv \<Rightarrow> create_schedule_request" where
  "launch_request tn now_text p config =
     (let parameters = List.map (\<lambda>(k, v). (k, js_string v)) (lp_parameters p);
          custom = js_trim (case map_of parameters ''__schedule.name'' of None \<Rightarrow> [] | Some s \<Rightarrow> s);
          fallback = build_schedule_name tn now_text (lp_run p)
      in create_schedule (lp_template_id p)
           (trimmed_field [form_field lf_account_id p, jget ''accountId'' (lp_run p), jget ''account_id'' (lp_run p)])
           (if custom \<noteq> [] then custom else fallback)
           (trimmed_field [form_field lf_symbol p, jget ''symbol'' (lp_run p)])
           (trimmed_field [form_field lf_timeframe p, jget ''timeframe'' (lp_run p)])
           (Some parameters) (launch_schedule_type p) config)"

definition created_id :: "jv \<Rightarrow> string" where
  "created_id resp = trimmed_field [jget ''id'' resp, jget ''id'' (jget ''schedule'' resp)]"

definition launch_failed :: "(string \<Rightarrow> string) \<Rightarrow> jv \<Rightarrow> launch_effect list" where
  "launch_failed t e =
     [LeToast (ToastError (js_string (foldr js_or [jget ''message'' e, e]
        (JStr (t ''strategy.templates.messages.createScheduleFailed''))))), LeCreating False]"

text \<open>After the schedule was created: \<open>toggled\<close> is the outcome of enabling it, if it is asked for.\<close>

definition schedule_created ::
    "(string \<Rightarrow> string) \<Rightarrow> launch_params \<Rightarrow> jv \<Rightarrow> unit outcome \<Rightarrow> launch_effect list" where
  "schedule_created t p resp toggled =
     (let sid = created_id resp;
          finished = [LeToast (ToastSuccess (if lp_enable p
                then t ''strategy.templates.messages.scheduleCreatedAndEnabled''
                else t ''strategy.templates.messages.scheduleCreated'')),
              LeFetchTemplates, LeFetchRuns, LeClose, LeCreating False]
      in if sid \<noteq> [] \<and> lp_enable p
         then LeToggle sid # (case toggled of Inr _ \<Rightarrow> finished | Inl e \<Rightarrow> launch_failed t e)
         else finished)"

text \<open>
  The arguments after the parameters are the answers to the three calls.  \<open>None\<close> is a call that throws
  before it does anything.
\<close>

definition create_schedule_from_run ::
    "(string \<Rightarrow> string) \<Rightarrow> (string \<Rightarrow> string \<Rightarrow> string \<Rightarrow> string) \<Rightarrow> string \<Rightarrow> launch_params \<Rightarrow> jv outcome \<Rightarrow>
     jv outcome \<Rightarrow> unit outcome \<Rightarrow> launch_effect list option" where
  "create_schedule_from_run t tn now_text p template created toggled =
     map_option (\<lambda>config.
       let rq = launch_request tn now_text p config
       in if lp_template_id p = [] \<or> cq_account_id rq = [] \<or> cq_symbol rq = [] \<or> cq_timeframe rq = []
          then [LeToast (ToastError (t ''strategy.templates.messages.missingScheduleInfo''))]
          else LeGetTemplate (js_trim (lp_template_id p)) #
            (case template of
               Inl _ \<Rightarrow> [LeToast (ToastWarning (t ''strategy.templates.messages.readTemplateStatusFailed''))]
             | Inr tpl \<Rightarrow>
                 if js_lower (trimmed_field [jget ''status'' tpl]) \<noteq> ''published''
                 then [LeToast (ToastWarning
                        (t ''strategy.templates.messages.templateNotPublishedCannotCreateSchedule''))]
                 else [LeCreating True, LeCreate rq] @
                   (case created of
                      Inl e \<Rightarrow> launch_failed t e
                    | Inr resp \<Rightarrow> schedule_created t p resp toggled)))
      (launch_config (launch_schedule_type p) p)"

subsection \<open>Parameter injection\<close>

definition to_python_literal :: "jv \<Rightarrow> string" where
  "to_python_literal v =
     (if nullish v then ''None''
      else case v of
          JBool b \<Rightarrow> if b then ''True'' else ''False''
        | JNum n \<Rightarrow> if num_finite n then js_string v else ''None''
        | _ \<Rightarrow> json_quote (js_string v))"

definition injected_entries :: "(string \<times> jv) list \<Rightarrow> (string \<times> jv) list" where
  "injected_entries params = List.filter (\<lambda>(k, v). \<not> nullish v \<and> v \<noteq> JStr []) params"

definition trim_end :: "string \<Rightarrow> string" where
  "trim_end s = rev (dropWhile js_ws (rev s))"

definition quoted :: "string \<Rightarrow> string" where
  "quoted s = [CHR 0x22] @ s @ [CHR 0x22]"

definition injected_wrapper :: "string \<Rightarrow> string" where
  "injected_wrapper dict_body = js_join newline
     [[],
      ''# anttrader: backtest params injected at submit time (do NOT edit)'',
      ''__ANTTRADER_BACKTEST_PARAMS__ = {'',
      dict_body,
      ''}'',
      ''try:'',
      ''    __anttrader_orig_run = run  # noqa: F821'',
      ''    def run(context):  # type: ignore[misc]'',
      ''        ctx = dict(context or {})'',
      ''        ctx['' @ quoted ''params'' @ ''] = {**__ANTTRADER_BACKTEST_PARAMS__, **(ctx.get('' @
        quoted ''params'' @ '') or {})}'',
      ''        return __anttrader_orig_run(ctx)'',
      ''except NameError:'',
      ''    pass'',
      []]"

definition wrap_strategy_code_with_params :: "string \<Rightarrow> (string \<times> jv) list \<Rightarrow> string" where
  "wrap_strategy_code_with_params code params =
     (let entries = injected_entries params
      in if entries = [] then code
         else trim_end code @ newline @
           injected_wrapper (js_join newline
             (List.map (\<lambda>(k, v). ''    '' @ json_quote k @ '': '' @ to_python_literal v @ '','') entries)))"

subsection \<open>Strict validation\<close>

definition validate_strategy_code_strict ::
    "(string \<Rightarrow> string) \<Rightarrow> bool \<Rightarrow> validate_result \<Rightarrow> (bool \<times> validate_result) \<times> toast list" where
  "validate_strategy_code_strict t show_message res =
     (let ok = vr_valid res \<and> vr_errors res = [] \<and> vr_warnings res = [];
          first_text = (case filter (\<lambda>s. s \<noteq> []) (take 1 (vr_errors res) @ take 1 (vr_warnings res)) of
             s # _ \<Rightarrow> s | [] \<Rightarrow> t ''strategy.validation.notPassed'')
      in ((ok, res),
          if show_message then [if ok then ToastSuccess (t ''strategy.validation.passed'') else ToastError first_text]
          else []))"

end
