(* ===== verification/StrategyRuns.thy ===== *)
theory StrategyRuns
  imports StrategyPages
begin

text \<open>
  What the helpers of the strategy pages guarantee: the range of the score, the titles of runs as a map
  that survives the local storage, the outcomes of creating a schedule from a run, and what becomes of
  code with injected parameters.
\<close>

subsection \<open>The score\<close>

lemma clamp01_bounds: "0 \<le> clamp01 x" "clamp01 x \<le> 1"
  by (simp_all add: clamp01_def)

lemma part_score_bounds: "0 \<le> part_score f v" "part_score f v \<le> 1"
  by (cases v; simp add: part_score_def clamp01_bounds)+

lemma math_round_mono: "a \<le> b \<Longrightarrow> math_round a \<le> math_round b"
  by (simp add: math_round_def floor_mono)

text \<open>
  The score of a run is a whole number between 0 and 100, and it is missing only where there are no
  metrics.
\<close>

theorem score_between_0_and_100:
  "case compute_score_value metrics of
     None \<Rightarrow> \<not> truthy metrics
   | Some n \<Rightarrow> truthy metrics \<and> 0 \<le> n \<and> n \<le> 100"
proof (cases "truthy metrics")
  case True
  define dd where "dd = part_score (\<lambda>x. 1 - x / (3 / 10)) (pick_metric metrics [''maxDrawdown'', ''max_drawdown''])"
  define sr where "sr = part_score (\<lambda>x. (x + 1 / 2) / 3) (pick_metric metrics [''sharpeRatio'', ''sharpe_ratio''])"
  define wr where "wr = part_score (\<lambda>x. (x - 3 / 10) / (1 / 2)) (pick_metric metrics [''winRate'', ''win_rate''])"
  define rt where "rt = part_score (\<lambda>x. (x + 1 / 5) / (3 / 5)) (pick_metric metrics [''totalReturn'', ''total_return''])"
  define v where "v = (dd * (35 / 100) + sr * (25 / 100) + wr * (20 / 100) + rt * (20 / 100)) * 100"
  have b: "0 \<le> dd" "dd \<le> 1" "0 \<le> sr" "sr \<le> 1" "0 \<le> wr" "wr \<le> 1" "0 \<le> rt" "rt \<le> 1"
    by (simp_all add: dd_def sr_def wr_def rt_def part_score_bounds)
  then have "0 \<le> v" "v \<le> 100" by (simp_all add: v_def)
  then have "math_round 0 \<le> math_round v" "math_round v \<le> math_round 100" by (blast intro: math_round_mono)+
  moreover have "math_round 0 = 0" "math_round 100 = 100" by (simp_all add: math_round_def floor_eq_iff)
  moreover have "compute_score_value metrics = Some (math_round v)"
    using True by (simp add: compute_score_value_def Let_def v_def dd_def sr_def wr_def rt_def)
  ultimately show ?thesis using True by simp
qed (simp add: compute_score_value_def)

subsection \<open>Titles of runs\<close>

definition run_titles :: "string option \<Rightarrow> string \<Rightarrow> string option" where
  "run_titles item i = (case jget i (load_run_titles item) of JStr title \<Rightarrow> Some title | _ \<Rightarrow> None)"

definition title_fields :: "(string \<times> string) list \<Rightarrow> jv" where
  "title_fields ts = JObj (List.map (\<lambda>(i, title). (i, JStr title)) ts)"

definition titles_stored :: "(string \<times> string) list \<Rightarrow> string option \<Rightarrow> bool" where
  "titles_stored ts item \<longleftrightarrow> distinct (List.map fst ts) \<and> load_run_titles item = title_fields ts"

lemma load_run_titles_print:
  assumes "distinct (List.map fst ts)"
  shows "load_run_titles (Some (json_print (title_fields ts))) = title_fields ts"
proof -
  have p: "json_plain (title_fields ts)"
    using assms by (auto simp: title_fields_def list_all_iff case_prod_beta comp_def)
  have "json_print (title_fields ts) \<noteq> []" by (simp add: title_fields_def)
  then show ?thesis
    using json_parse_print [OF p] by (simp add: load_run_titles_def) (simp add: title_fields_def)
qed

lemma titles_stored_save:
  assumes "titles_stored ts item" "i \<noteq> []"
  shows "titles_stored (AList.update i title ts) (save_run_title i title item)"
proof -
  have d: "distinct (List.map fst (AList.update i title ts))"
    using assms(1) by (simp add: titles_stored_def distinct_update)
  have u: "AList.update i (JStr title) (List.map (\<lambda>(j, x). (j, JStr x)) ts)
         = List.map (\<lambda>(j, x). (j, JStr x)) (AList.update i title ts)"
    by (induction ts) auto
  have "save_run_title i title item = Some (json_print (title_fields (AList.update i title ts)))"
    using assms by (simp add: save_run_title_def titles_stored_def title_fields_def jset_def u)
  then show ?thesis using load_run_titles_print [OF d] d by (simp add: titles_stored_def)
qed

lemma run_titles_stored: "titles_stored ts item \<Longrightarrow> run_titles item = map_of ts"
  by (rule ext) (auto simp: titles_stored_def run_titles_def title_fields_def jget_def map_of_map
      split: option.splits)

text \<open>
  C12. Saving and reading titles through the text in the local storage implements a map from run ids to
  titles: whatever titles are saved, reading gives every run the title that was saved last.
\<close>

theorem run_titles_refine_map:
  "run_titles (fold (\<lambda>(i, title). save_run_title i title) ops None) =
   fold (\<lambda>(i, title) m. if i = [] then m else m(i \<mapsto> title)) ops Map.empty"
proof -
  have "titles_stored [] None" by (simp add: titles_stored_def load_run_titles_def title_fields_def)
  moreover have "titles_stored ts item \<Longrightarrow> run_titles (fold (\<lambda>(i, title). save_run_title i title) ops item) =
      fold (\<lambda>(i, title) m. if i = [] then m else m(i \<mapsto> title)) ops (map_of ts)" for ts item
  proof (induction ops arbitrary: ts item)
    case Nil
    then show ?case by (simp add: run_titles_stored)
  next
    case (Cons op ops)
    obtain i title where op: "op = (i, title)" by (cases op)
    show ?case
    proof (cases "i = []")
      case True
      then show ?thesis using Cons by (simp add: op save_run_title_def)
    next
      case False
      then show ?thesis
        using Cons.IH [OF titles_stored_save [OF Cons.prems False]] by (simp add: op update_conv' fun_upd_def)
    qed
  qed
  ultimately show ?thesis by fastforce
qed


subsection \<open>A schedule from a run\<close>

definition is_create :: "launch_effect \<Rightarrow> bool" where
  "is_create e = (case e of LeCreate _ \<Rightarrow> True | _ \<Rightarrow> False)"

definition is_success :: "launch_effect \<Rightarrow> bool" where
  "is_success e = (case e of LeToast (ToastSuccess _) \<Rightarrow> True | _ \<Rightarrow> False)"

lemma launch_cases:
  assumes "create_schedule_from_run t tn now_text p template created toggled = Some es"
  obtains (missing) m where "es = [LeToast (ToastError m)]"
  | (unpublished) i m where "es = [LeGetTemplate i, LeToast (ToastWarning m)]"
  | (failed) i rq m where "es = [LeGetTemplate i, LeCreating True, LeCreate rq, LeToast (ToastError m), LeCreating False]"
  | (answered) i rq resp where "created = Inr resp"
      "es = [LeGetTemplate i, LeCreating True, LeCreate rq] @ schedule_created t p resp toggled"
  using assms
  by (auto simp: create_schedule_from_run_def Let_def launch_failed_def split: if_splits sum.splits)

lemma created_cases:
  obtains (quiet) m where "lp_enable p \<Longrightarrow> created_id resp = []"
      "schedule_created t p resp toggled = [LeToast (ToastSuccess m), LeFetchTemplates, LeFetchRuns, LeClose, LeCreating False]"
  | (enabled) m where "toggled = Inr ()" "schedule_created t p resp toggled =
      [LeToggle (created_id resp), LeToast (ToastSuccess m), LeFetchTemplates, LeFetchRuns, LeClose, LeCreating False]"
  | (failed) m where "schedule_created t p resp toggled =
      [LeToggle (created_id resp), LeToast (ToastError m), LeCreating False]"
proof (cases "created_id resp = [] \<or> \<not> lp_enable p")
  case True
  then show thesis by (intro quiet) (auto simp: schedule_created_def Let_def)
next
  case False
  then show thesis
    using enabled failed by (cases toggled) (simp_all add: schedule_created_def Let_def launch_failed_def)
qed

lemmas effect_kinds = is_create_def is_success_def

text \<open>
  Creating a schedule from a run asks the server at most once, always takes the busy mark back, and
  closes the dialog exactly when success is reported; then the schedule was created, and enabled where
  that was asked for and the answer has an id.
\<close>

theorem schedule_from_run_outcomes:
  assumes "create_schedule_from_run t tn now_text p template created toggled = Some es"
  shows "length (filter is_create es) \<le> 1 \<and>
    (LeCreating True \<in> set es \<longrightarrow> last es = LeCreating False) \<and>
    (LeClose \<in> set es \<longleftrightarrow> filter is_success es \<noteq> []) \<and>
    (LeClose \<in> set es \<longrightarrow> filter is_create es \<noteq> [] \<and> (\<exists>resp. created = Inr resp \<and>
       (lp_enable p \<and> created_id resp \<noteq> [] \<longrightarrow> LeToggle (created_id resp) \<in> set es \<and> toggled = Inr ())))"
  using assms
proof (cases rule: launch_cases)
  case (answered i rq resp)
  then show ?thesis
    by (cases rule: created_cases [of p resp t toggled]) (auto simp: effect_kinds)
qed (simp_all add: effect_kinds)

text \<open>
  Where the schedule is created and enabling it fails, the attempt is reported as failed and the dialog
  stays open, so that a second attempt creates the same schedule again.
\<close>

theorem failed_toggle_creates_again:
  assumes "launch_config (launch_schedule_type p) p = Some config"
    and "rq = launch_request tn now_text p config"
    and "lp_template_id p \<noteq> []" "cq_account_id rq \<noteq> []" "cq_symbol rq \<noteq> []" "cq_timeframe rq \<noteq> []"
    and "js_lower (trimmed_field [jget ''status'' tpl]) = ''published''"
    and "created_id resp \<noteq> []" "lp_enable p"
  shows "\<exists>es. create_schedule_from_run t tn now_text p (Inr tpl) (Inr resp) (Inl e) = Some es \<and>
      filter is_create (es @ es) = [LeCreate rq, LeCreate rq] \<and> LeClose \<notin> set es \<and> filter is_success es = []"
  using assms
  by (auto simp: create_schedule_from_run_def Let_def schedule_created_def launch_failed_def is_create_def is_success_def)

definition demo_launch :: launch_params where
  "demo_launch = \<lparr>lp_template_id = ''t1'', lp_run = JObj [(''accountId'', JStr ''a1''), (''symbol'', JStr ''EURUSD''),
     (''timeframe'', JStr ''H1'')], lp_enable = True, lp_form = None, lp_parameters = []\<rparr>"

definition demo_launch_effects :: "launch_effect list option" where
  "demo_launch_effects = create_schedule_from_run id (\<lambda>s f n. s) ''now'' demo_launch
     (Inr (JObj [(''status'', JStr ''PUBLISHED'')])) (Inr (JObj [(''id'', JStr ''s1'')])) (Inr ())"

theorem schedule_from_run_outcomes_witness:
  "\<exists>es. demo_launch_effects = Some es \<and> LeClose \<in> set es \<and> filter is_success es \<noteq> []"
proof -
  have "map_option (\<lambda>es. LeClose \<in> set es) demo_launch_effects = Some True" by code_simp
  then obtain es where es: "demo_launch_effects = Some es" "LeClose \<in> set es" by auto
  with schedule_from_run_outcomes [OF es(1) [unfolded demo_launch_effects_def]] show ?thesis by blast
qed

theorem failed_toggle_creates_again_witness:
  "\<exists>rq es. create_schedule_from_run id (\<lambda>s f n. s) ''now'' demo_launch (Inr (JObj [(''status'', JStr ''published'')]))
       (Inr (JObj [(''id'', JStr ''s1'')])) (Inl (JStr ''timeout'')) = Some es \<and>
     filter is_create (es @ es) = [LeCreate rq, LeCreate rq] \<and> LeClose \<notin> set es"
proof -
  obtain config where c: "launch_config (launch_schedule_type demo_launch) demo_launch = Some config"
    by (simp add: launch_config_def launch_schedule_type_def demo_launch_def)
  have f: "launch_request (\<lambda>s f n. s) ''now'' demo_launch config = launch_request (\<lambda>s f n. s) ''now'' demo_launch
      (JObj [(''triggerMode'', JStr ''stable_kline'')])"
    using c by (simp add: launch_config_def launch_schedule_type_def demo_launch_def)
  have n: "lp_template_id demo_launch \<noteq> []" "lp_enable demo_launch" by (simp_all add: demo_launch_def)
  have q: "cq_account_id (launch_request (\<lambda>s f n. s) ''now'' demo_launch config) \<noteq> []"
    "cq_symbol (launch_request (\<lambda>s f n. s) ''now'' demo_launch config) \<noteq> []"
    "cq_timeframe (launch_request (\<lambda>s f n. s) ''now'' demo_launch config) \<noteq> []"
    unfolding f by code_simp+
  have s: "js_lower (trimmed_field [jget ''status'' (JObj [(''status'', JStr ''published'')])]) = ''published''"
    "created_id (JObj [(''id'', JStr ''s1'')]) \<noteq> []" by code_simp+
  show ?thesis
    using failed_toggle_creates_again [OF c refl n(1) q s n(2)] by blast
qed

subsection \<open>Injected parameters\<close>

lemma strip_triple_keep: "q \<notin> set a \<Longrightarrow> strip_triple q (a @ b) = a @ strip_triple q b"
  by (induction a) auto

lemma split_lines_append: "split_lines (a @ newline @ b) = split_lines a @ split_lines b"
  by (induction a rule: split_lines.induct) (auto split: list.splits)

lemma js_join_append: "xs \<noteq> [] \<Longrightarrow> ys \<noteq> [] \<Longrightarrow> js_join sep (xs @ ys) = js_join sep xs @ sep @ js_join sep ys"
  by (induction sep xs rule: js_join.induct) (auto simp: neq_Nil_conv)

lemma dunder_match_append: "dunder_match b \<noteq> None \<Longrightarrow> dunder_match (a @ b) \<noteq> None"
  by (induction a) (auto split: option.splits)

definition params_line :: string where
  "params_line = ''__ANTTRADER_BACKTEST_PARAMS__ = {''"

lemma params_line_facts:
  "split_lines params_line = [params_line]"
  "cut_comment False False params_line = params_line"
  "dunder_match (params_line @ b) \<noteq> None"
  by (simp_all add: params_line_def split_lines_append dunder_here_def name_char_def is_lower_def is_upper_def suffix_to_prefix)

lemma dunder_line_kept:
  assumes "CHR 0x22 \<notin> set a" "CHR 0x27 \<notin> set a" 
  shows "\<exists>x y. strip_python_comments (a @ newline @ params_line @ newline @ b) = x @ params_line @ y"
proof -
  have q: "CHR 0x22 \<notin> set (a @ newline @ params_line @ newline)" "CHR 0x27 \<notin> set (a @ newline @ params_line @ newline)"
    using assms by (simp_all add: params_line_def)
  obtain b' where b': "strip_triple (CHR 0x27) (strip_triple (CHR 0x22) (a @ newline @ params_line @ newline @ b)) =
      a @ newline @ params_line @ newline @ b'"
    using strip_triple_keep [OF q(1)] strip_triple_keep [OF q(2)] by (simp del: append_Cons)
  let ?ls = "List.map (cut_comment False False)"
  have "strip_python_comments (a @ newline @ params_line @ newline @ b) =
      js_join newline (?ls (split_lines a) @ [params_line] @ ?ls (split_lines b'))"
    unfolding strip_python_comments_def b' split_lines_append params_line_facts(1) by (simp add: params_line_facts(2))
  also have "\<dots> = js_join newline (?ls (split_lines a)) @ newline @ params_line @ newline @ js_join newline (?ls (split_lines b'))"
    by (subst js_join_append) (simp_all add: js_join_append neq_Nil_conv del: append_Cons)
  finally show ?thesis by (metis append.assoc)
qed

lemma js_trim_Nil_ws: "js_trim s = [] \<Longrightarrow> c \<in> set s \<Longrightarrow> js_ws c"
proof -
  assume "js_trim s = []" "c \<in> set s"
  then have "\<forall>x \<in> set (dropWhile js_ws s). js_ws x" by (auto simp: js_trim_def)
  then have "dropWhile js_ws s = []" using hd_dropWhile [of js_ws s] by (meson hd_in_set)
  with \<open>c \<in> set s\<close> show "js_ws c" by (simp add: dropWhile_eq_Nil_conv)
qed

lemma dunder_violation_kept:
  assumes "CHR 0x22 \<notin> set a" "CHR 0x27 \<notin> set a"
  shows "VDunder \<in> vi_code ` set (validate_python_sandbox (a @ newline @ params_line @ newline @ b))"
proof -
  obtain x y where s: "strip_python_comments (a @ newline @ params_line @ newline @ b) = x @ params_line @ y"
    using dunder_line_kept [OF assms] by blast
  have "CHR ''='' \<in> set (a @ newline @ params_line @ newline @ b)" by (simp add: params_line_def)
  moreover have "\<not> js_ws CHR ''=''" by code_simp
  ultimately have "js_trim (a @ newline @ params_line @ newline @ b) \<noteq> []"
    using js_trim_Nil_ws by blast
  moreover have "dunder_match (x @ params_line @ y) \<noteq> None"
    by (rule dunder_match_append) (rule params_line_facts(3))
  ultimately show ?thesis
    unfolding validate_python_sandbox_def Let_def s by (auto simp: dunder_violation_def)
qed

text \<open>
  Code with injected parameters always violates the rule against names in double underscores, so the
  code that the page submits for a backtest is code that the check of generated code forbids.
\<close>

theorem injected_code_rejected:
  assumes "injected_entries params \<noteq> []" "CHR 0x22 \<notin> set code" "CHR 0x27 \<notin> set code"
  shows "VDunder \<in> vi_code ` set (validate_python_sandbox (wrap_strategy_code_with_params code params))"
proof -
  let ?body = "js_join newline (List.map (\<lambda>(k, v). ''    '' @ json_quote k @ '': '' @ to_python_literal v @ '','')
    (injected_entries params))"
  obtain c rest where r: "injected_wrapper ?body = newline @ c @ newline @ params_line @ newline @ rest"
      and c: "CHR 0x22 \<notin> set c" "CHR 0x27 \<notin> set c"
    by (rule that [of "''# anttrader: backtest params injected at submit time (do NOT edit)''"])
      (simp_all add: injected_wrapper_def params_line_def)
  let ?a = "trim_end code @ newline @ newline @ c"
  have "set (trim_end code) \<subseteq> set code" by (auto simp: trim_end_def dest: set_dropWhileD)
  then have "CHR 0x22 \<notin> set ?a" "CHR 0x27 \<notin> set ?a"
    using assms(2,3) c by auto
  moreover have "wrap_strategy_code_with_params code params = ?a @ newline @ params_line @ newline @ rest"
    using assms(1) by (simp only: wrap_strategy_code_with_params_def Let_def r if_False append.assoc)
  ultimately show ?thesis using dunder_violation_kept by presburger
qed

theorem injected_code_rejected_witness:
  "validate_python_sandbox demo_code = [] \<and>
   VDunder \<in> vi_code ` set (validate_python_sandbox
     (wrap_strategy_code_with_params demo_code [(''period'', JNum (Fin 14))]))"
  using demo_code_accepted injected_code_rejected [of "[(''period'', JNum (Fin 14))]" demo_code]
  by (simp add: injected_entries_def demo_code_def )

end
