(* ===== verification/WatchRun.thy ===== *)
theory WatchRun
  imports StrategyPages
begin

text \<open>
  The hook that follows one backtest run (\<open>hooks/useWatchBacktestRun.ts\<close>): a first snapshot, then the
  stream of updates, and polling where the stream fails.  Every effect of the hook has variables of its
  own, while the flag \<open>stoppedRef\<close> and the timer \<open>pollTimerRef\<close> are shared by all of them.
\<close>

subsection \<open>The state\<close>

datatype watch_stream = StNone | StOpen | StAborted | StEnded

record watch_effect =
  we_run_id :: string
  we_fetching :: bool
  we_unsubscribe :: bool
  we_stream :: watch_stream
  we_polls :: nat

record watch_run_state =
  wr_run :: jv
  wr_metrics :: jv
  wr_equity :: jv
  wr_error :: "string option"
  wr_stopped :: bool
  wr_timer :: "nat option"
  wr_run_id :: "string option"
  wr_current :: "nat option"
  wr_effects :: "watch_effect list"
  wr_mounted :: bool

text \<open>The first effect of a hook that is mounted without a run leaves this state.\<close>

definition watch_run_init :: watch_run_state where
  "watch_run_init = \<lparr>wr_run = JNull, wr_metrics = JNull, wr_equity = JArr [], wr_error = None, wr_stopped = False,
     wr_timer = None, wr_run_id = None, wr_current = None, wr_effects = [], wr_mounted = True\<rparr>"

definition watch_loading :: "watch_run_state \<Rightarrow> bool" where
  "watch_loading s \<longleftrightarrow>
     (case wr_run_id s of None \<Rightarrow> False | Some r \<Rightarrow> r \<noteq> [] \<and> wr_error s = None \<and> nullish (wr_run s))"

definition watch_terminal :: "watch_run_state \<Rightarrow> bool" where
  "watch_terminal s = is_terminal_run (wr_run s)"

subsection \<open>Steps inside an effect\<close>

definition change_effect :: "nat \<Rightarrow> (watch_effect \<Rightarrow> watch_effect) \<Rightarrow> watch_run_state \<Rightarrow> watch_run_state" where
  "change_effect i f s = s\<lparr>wr_effects := (wr_effects s)[i := f (wr_effects s ! i)]\<rparr>"

definition show_snapshot :: "jv \<Rightarrow> watch_run_state \<Rightarrow> watch_run_state" where
  "show_snapshot u s = s\<lparr>wr_run := js_coalesce (jget ''run'' u) JNull,
     wr_metrics := js_coalesce (jget ''metrics'' u) JNull,
     wr_equity := js_coalesce (jget ''equityCurve'' u) (JArr [])\<rparr>"

definition stop_polling :: "watch_run_state \<Rightarrow> watch_run_state" where
  "stop_polling s = s\<lparr>wr_timer := None\<rparr>"

definition start_polling :: "nat \<Rightarrow> watch_run_state \<Rightarrow> watch_run_state" where
  "start_polling i s = (if wr_timer s \<noteq> None then s else s\<lparr>wr_timer := Some i\<rparr>)"

text \<open>Aborting a stream that has ended does nothing.\<close>

definition abort_stream :: "watch_effect \<Rightarrow> watch_effect" where
  "abort_stream e = (if we_unsubscribe e \<and> we_stream e = StOpen then e\<lparr>we_stream := StAborted\<rparr> else e)"

definition finish_watch :: "nat \<Rightarrow> watch_run_state \<Rightarrow> watch_run_state" where
  "finish_watch i s =
     stop_polling (change_effect i (\<lambda>e. (abort_stream e)\<lparr>we_unsubscribe := False\<rparr>) (s\<lparr>wr_stopped := True\<rparr>))"

definition take_update :: "nat \<Rightarrow> jv \<Rightarrow> watch_run_state \<Rightarrow> watch_run_state" where
  "take_update i u s =
     (if is_terminal_run (jget ''run'' u) then finish_watch i (show_snapshot u s) else show_snapshot u s)"

definition watch_failed :: "nat \<Rightarrow> jv \<Rightarrow> watch_run_state \<Rightarrow> watch_run_state" where
  "watch_failed i e s = start_polling i (s\<lparr>wr_error := Some (js_string e)\<rparr>)"

subsection \<open>The effect and its events\<close>

definition watch_cleanup :: "watch_run_state \<Rightarrow> watch_run_state" where
  "watch_cleanup s =
     (case wr_current s of
        None \<Rightarrow> s
      | Some i \<Rightarrow> stop_polling (change_effect i abort_stream (s\<lparr>wr_stopped := True, wr_current := None\<rparr>)))"

definition watch_effect_body :: "string option \<Rightarrow> watch_run_state \<Rightarrow> watch_run_state" where
  "watch_effect_body r s =
     (let s = s\<lparr>wr_stopped := False, wr_run_id := r\<rparr>
      in case r of
           Some (c # i) \<Rightarrow> s\<lparr>wr_error := None, wr_current := Some (length (wr_effects s)),
             wr_effects := wr_effects s @ [\<lparr>we_run_id = c # i, we_fetching = True, we_unsubscribe = False,
               we_stream = StNone, we_polls = 0\<rparr>]\<rparr>
         | _ \<Rightarrow> (stop_polling s)\<lparr>wr_run := JNull, wr_metrics := JNull, wr_equity := JArr [], wr_error := None\<rparr>)"

definition set_run_id :: "string option \<Rightarrow> watch_run_state \<Rightarrow> watch_run_state" where
  "set_run_id r s = (if r = wr_run_id s then s else watch_effect_body r (watch_cleanup s))"

definition first_snapshot :: "nat \<Rightarrow> jv outcome \<Rightarrow> watch_run_state \<Rightarrow> watch_run_state" where
  "first_snapshot i answer s =
     (let s = change_effect i (\<lambda>e. e\<lparr>we_fetching := False\<rparr>) s
      in if wr_stopped s then s
         else case answer of
             Inl e \<Rightarrow> watch_failed i e s
           | Inr u \<Rightarrow> change_effect i (\<lambda>e. e\<lparr>we_unsubscribe := True, we_stream := StOpen\<rparr>) (show_snapshot u s))"

definition stream_update :: "nat \<Rightarrow> jv \<Rightarrow> watch_run_state \<Rightarrow> watch_run_state" where
  "stream_update i u s = (if wr_stopped s then s else take_update i u s)"

definition watch_stream_failed :: "nat \<Rightarrow> jv \<Rightarrow> watch_run_state \<Rightarrow> watch_run_state" where
  "watch_stream_failed i e s =
     (let s = change_effect i (\<lambda>e. e\<lparr>we_stream := StEnded\<rparr>) s
      in if wr_stopped s then s else watch_failed i e s)"

definition watch_polled :: "nat \<Rightarrow> jv outcome \<Rightarrow> watch_run_state \<Rightarrow> watch_run_state" where
  "watch_polled i answer s =
     (let s = change_effect i (\<lambda>e. e\<lparr>we_polls := we_polls e - 1\<rparr>) s
      in case answer of
           Inl _ \<Rightarrow> s
         | Inr u \<Rightarrow> if wr_stopped s then s else take_update i u s)"

text \<open>
  What can happen: the page passes another run id or drops the hook, an answer or an item arrives, the
  server ends the stream, the timer fires.
\<close>

datatype watch_event =
    WaRunId "string option"
  | WaUnmount
  | WaSnapshot nat "jv outcome"
  | WaItem nat jv
  | WaFailed nat jv
  | WaEnded nat
  | WaTick
  | WaPolled nat "jv outcome"

definition effect_is :: "(watch_effect \<Rightarrow> bool) \<Rightarrow> nat \<Rightarrow> watch_run_state \<Rightarrow> bool" where
  "effect_is P i s \<longleftrightarrow> i < length (wr_effects s) \<and> P (wr_effects s ! i)"

definition is_open :: "watch_effect \<Rightarrow> bool" where
  "is_open e \<longleftrightarrow> we_stream e = StOpen"

definition watch_run_step :: "watch_run_state \<Rightarrow> watch_event \<Rightarrow> watch_run_state" where
  "watch_run_step s a =
     (case a of
        WaRunId r \<Rightarrow> if wr_mounted s then set_run_id r s else s
      | WaUnmount \<Rightarrow> if wr_mounted s then (watch_cleanup s)\<lparr>wr_mounted := False\<rparr> else s
      | WaSnapshot i answer \<Rightarrow> if effect_is we_fetching i s then first_snapshot i answer s else s
      | WaItem i u \<Rightarrow> if effect_is is_open i s then stream_update i u s else s
      | WaFailed i e \<Rightarrow> if effect_is is_open i s then watch_stream_failed i e s else s
      | WaEnded i \<Rightarrow> if effect_is is_open i s then change_effect i (\<lambda>e. e\<lparr>we_stream := StEnded\<rparr>) s else s
      | WaTick \<Rightarrow> (case wr_timer s of
            None \<Rightarrow> s | Some i \<Rightarrow> change_effect i (\<lambda>e. e\<lparr>we_polls := Suc (we_polls e)\<rparr>) s)
      | WaPolled i answer \<Rightarrow> if effect_is (\<lambda>e. 0 < we_polls e) i s then watch_polled i answer s else s)"

lemmas watch_defs =
  show_snapshot_def stop_polling_def start_polling_def finish_watch_def take_update_def watch_failed_def
  watch_cleanup_def watch_effect_body_def set_run_id_def first_snapshot_def stream_update_def
  watch_stream_failed_def watch_polled_def change_effect_def effect_is_def is_open_def abort_stream_def

subsection \<open>A run that is watched has a source of news\<close>

definition watch_source :: "watch_effect \<Rightarrow> bool" where
  "watch_source e \<longleftrightarrow> we_fetching e \<or> we_stream e = StOpen \<or> we_stream e = StEnded"

definition watch_inv :: "watch_run_state \<Rightarrow> bool" where
  "watch_inv s \<longleftrightarrow>
     (case wr_current s of
        None \<Rightarrow> True
      | Some i \<Rightarrow> i < length (wr_effects s) \<and>
          (wr_stopped s \<or> wr_timer s \<noteq> None \<or> watch_source (wr_effects s ! i)))"

lemma watch_inv_step: "watch_inv s \<Longrightarrow> watch_inv (watch_run_step s a)"
  by (cases a)
    (auto simp: watch_inv_def watch_run_step_def watch_defs watch_source_def Let_def nth_list_update nth_append
      split: option.splits list.splits sum.splits if_splits)

interpretation watch_machine: machine watch_run_init watch_run_step watch_inv
  by unfold_locales (simp add: watch_inv_def watch_run_init_def, rule watch_inv_step)

text \<open>
  A run that is watched and not marked as stopped always has a source of news: its first snapshot is
  outstanding, its stream is open or was ended by the server, or the timer polls.
\<close>

theorem watch_has_source:
  "let s = run watch_run_step watch_run_init as
   in wr_stopped s \<or> wr_timer s \<noteq> None \<or>
      (case wr_current s of None \<Rightarrow> True | Some i \<Rightarrow> effect_is watch_source i s)"
  using watch_machine.inv_run [of as] by (auto simp: watch_inv_def Let_def effect_is_def split: option.splits)

subsection \<open>What is shown at the end\<close>

definition watch_view :: "watch_run_state \<Rightarrow> jv \<times> jv \<times> jv \<times> string option \<times> string option" where
  "watch_view s = (wr_run s, wr_metrics s, wr_equity s, wr_error s, wr_run_id s)"

definition changes_run :: "watch_event \<Rightarrow> bool" where
  "changes_run a = (case a of WaRunId _ \<Rightarrow> True | _ \<Rightarrow> False)"

lemma watch_stopped_step:
  "wr_stopped s \<Longrightarrow> \<not> changes_run a \<Longrightarrow>
     wr_stopped (watch_run_step s a) \<and> watch_view (watch_run_step s a) = watch_view s"
  by (cases a) (auto simp: watch_run_step_def watch_defs changes_run_def watch_view_def Let_def
      split: option.splits sum.splits)

lemma watch_stopped_run:
  "wr_stopped s \<Longrightarrow> \<not> list_ex changes_run as \<Longrightarrow>
     wr_stopped (run watch_run_step s as) \<and> watch_view (run watch_run_step s as) = watch_view s"
proof (induction as arbitrary: s)
  case (Cons a as)
  then show ?case using watch_stopped_step [of s a] by simp
qed simp

text \<open>
  A terminal update is the last thing that is shown: whatever arrives later changes nothing until the
  page passes another run id.
\<close>

theorem terminal_update_stays:
  assumes "is_terminal_run (jget ''run'' u)" "effect_is is_open i s" "\<not> wr_stopped s" "\<not> list_ex changes_run as"
  shows "wr_run (run watch_run_step s (WaItem i u # as)) = jget ''run'' u"
proof -
  let ?s = "watch_run_step s (WaItem i u)"
  have "\<not> nullish (jget ''run'' u)"
    using assms(1) by (cases "jget ''run'' u") (simp_all add: is_terminal_run_def jget_def js_or_def)
  with assms have "wr_stopped ?s \<and> wr_run ?s = jget ''run'' u"
    by (simp add: watch_run_step_def watch_defs js_coalesce_def)
  with watch_stopped_run [of ?s as] assms(4) show ?thesis by (simp add: watch_view_def)
qed

theorem terminal_update_stays_witness:
  "wr_run (run watch_run_step (run watch_run_step watch_run_init [WaRunId (Some ''r''), WaSnapshot 0 (Inr (JObj []))])
     (WaItem 0 (JObj [(''run'', JObj [(''isTerminal'', JBool True)])]) # [WaItem 0 JNull])) =
   JObj [(''isTerminal'', JBool True)]"
proof -
  let ?s = "run watch_run_step watch_run_init [WaRunId (Some ''r''), WaSnapshot 0 (Inr (JObj []))]"
  let ?u = "JObj [(''run'', JObj [(''isTerminal'', JBool True)])]"
  have "is_terminal_run (jget ''run'' ?u)" "effect_is is_open 0 ?s" "\<not> wr_stopped ?s" "\<not> list_ex changes_run [WaItem 0 JNull]"
    by code_simp+
  from terminal_update_stays [OF this] show ?thesis by (simp add: jget_def del: run_Cons)
qed

subsection \<open>Nothing stays open\<close>

definition orderly :: "watch_run_state \<Rightarrow> watch_event \<Rightarrow> bool" where
  "orderly s a \<longleftrightarrow> \<not> (changes_run a \<and> (\<exists>i. wr_current s = Some i \<and> effect_is we_fetching i s))"

fun orderly_run :: "watch_run_state \<Rightarrow> watch_event list \<Rightarrow> bool" where
  "orderly_run s [] = True"
| "orderly_run s (a # as) = (orderly s a \<and> orderly_run (watch_run_step s a) as)"

definition tidy_effect :: "watch_run_state \<Rightarrow> nat \<Rightarrow> watch_effect \<Rightarrow> bool" where
  "tidy_effect s i e \<longleftrightarrow>
     (we_fetching e \<longrightarrow> wr_current s = Some i \<or> \<not> wr_mounted s \<and> wr_stopped s) \<and>
     (we_stream e = StOpen \<longrightarrow> we_unsubscribe e \<and> wr_current s = Some i)"

fun below :: "nat option \<Rightarrow> nat \<Rightarrow> bool" where
  "below None n = True"
| "below (Some i) n = (i < n)"

definition tidy :: "watch_run_state \<Rightarrow> bool" where
  "tidy s \<longleftrightarrow> (\<forall>i < length (wr_effects s). tidy_effect s i (wr_effects s ! i)) \<and>
     below (wr_current s) (length (wr_effects s)) \<and>
     (wr_current s = None \<longrightarrow> wr_timer s = None) \<and> (wr_mounted s \<or> wr_current s = None)"

definition idle_effect :: "watch_effect \<Rightarrow> bool" where
  "idle_effect e \<longleftrightarrow> \<not> we_fetching e \<and> we_stream e \<noteq> StOpen"

lemma tidy_cleanup:
  assumes "tidy s" "wr_mounted s" "\<not> (\<exists>i. wr_current s = Some i \<and> effect_is we_fetching i s)"
  shows "list_all idle_effect (wr_effects (watch_cleanup s))"
  using assms
  by (cases "wr_current s")
    (auto simp: tidy_def tidy_effect_def watch_cleanup_def stop_polling_def change_effect_def list_all_length idle_effect_def Let_def
      nth_list_update abort_stream_def effect_is_def)

lemma tidy_effect_body:
  assumes "list_all idle_effect (wr_effects s)" "wr_mounted s" "wr_current s = None"
  shows "tidy (watch_effect_body r s)"
proof (cases "\<exists>c i. r = Some (c # i)")
  case True
  then obtain c i where "r = Some (c # i)" by blast
  with assms show ?thesis
    by (simp add: tidy_def tidy_effect_def watch_effect_body_def Let_def list_all_length idle_effect_def nth_append)
next
  case False
  then have "r = None \<or> r = Some []" by (metis not_Some_eq list.exhaust)
  then have "watch_effect_body r s = (stop_polling (s\<lparr>wr_stopped := False, wr_run_id := r\<rparr>))
      \<lparr>wr_run := JNull, wr_metrics := JNull, wr_equity := JArr [], wr_error := None\<rparr>"
    by (elim disjE) (simp_all add: watch_effect_body_def)
  with assms show ?thesis
    by (simp add: tidy_def tidy_effect_def stop_polling_def list_all_length idle_effect_def)
qed

lemma cleanup_current: "wr_current (watch_cleanup s) = None" "wr_mounted (watch_cleanup s) = wr_mounted s"
  by (simp_all add: watch_cleanup_def stop_polling_def change_effect_def split: option.splits)

lemma tidy_change:
  assumes "tidy s" "i < length (wr_effects s) \<Longrightarrow> tidy_effect s i (f (wr_effects s ! i))"
  shows "tidy (change_effect i f s)"
proof -
  have e: "tidy_effect (change_effect i f s) j e = tidy_effect s j e" for j e
    by (simp add: tidy_effect_def change_effect_def)
  have "tidy_effect s j ((wr_effects s)[i := f (wr_effects s ! i)] ! j)" if "j < length (wr_effects s)" for j
    using assms that by (cases "j = i") (simp_all add: tidy_def)
  with assms(1) show ?thesis by (simp add: tidy_def e) (simp add: change_effect_def)
qed

lemma tidy_parts:
  "tidy s \<Longrightarrow> tidy (s\<lparr>wr_stopped := True\<rparr>)"
  "tidy s \<Longrightarrow> tidy (s\<lparr>wr_error := e\<rparr>)"
  "tidy s \<Longrightarrow> tidy (show_snapshot u s)"
  "tidy s \<Longrightarrow> tidy (stop_polling s)"
  "tidy s \<Longrightarrow> wr_current s \<noteq> None \<Longrightarrow> tidy (start_polling i s)"
  by (auto simp: tidy_def tidy_effect_def show_snapshot_def stop_polling_def start_polling_def)

lemma tidy_at: "tidy s \<Longrightarrow> i < length (wr_effects s) \<Longrightarrow> tidy_effect s i (wr_effects s ! i)"
  by (simp add: tidy_def)

lemma tidy_take_update:
  assumes "tidy s"
  shows "tidy (take_update i u s)"
proof -
  have "tidy (finish_watch i s)" if "tidy s" for s
    unfolding finish_watch_def
    by (intro tidy_parts tidy_change that)
      (use tidy_at [OF tidy_parts(1) [OF that]] in \<open>auto simp: tidy_effect_def abort_stream_def\<close>)
  then show ?thesis using assms by (simp add: take_update_def tidy_parts)
qed

lemma tidy_watch_failed: "tidy s \<Longrightarrow> wr_current s \<noteq> None \<Longrightarrow> tidy (watch_failed i e s)"
  unfolding watch_failed_def by (intro tidy_parts) simp_all

lemma change_effect_fields [simp]:
  "wr_stopped (change_effect i f s) = wr_stopped s" "wr_current (change_effect i f s) = wr_current s"
  "wr_mounted (change_effect i f s) = wr_mounted s" "wr_timer (change_effect i f s) = wr_timer s"
  "length (wr_effects (change_effect i f s)) = length (wr_effects s)"
  by (simp_all add: change_effect_def)

lemma show_snapshot_fields [simp]:
  "wr_effects (show_snapshot u s) = wr_effects s" "wr_current (show_snapshot u s) = wr_current s"
  by (simp_all add: show_snapshot_def)

lemma tidy_step:
  assumes "tidy s" "orderly s a"
  shows "tidy (watch_run_step s a)"
proof (cases a)
  case (WaRunId r)
  then have "tidy (watch_effect_body r (watch_cleanup s))" if "wr_mounted s"
    using assms that by (intro tidy_effect_body tidy_cleanup) (auto simp: orderly_def changes_run_def cleanup_current)
  with WaRunId assms show ?thesis by (simp add: watch_run_step_def set_run_id_def)
next
  case WaUnmount
  show ?thesis
  proof (cases "wr_current s")
    case None
    with assms(1) WaUnmount show ?thesis
      by (auto simp: tidy_def tidy_effect_def watch_run_step_def watch_cleanup_def)
  next
    case (Some i)
    with assms(1) have i: "i < length (wr_effects s)"
      and e: "\<And>j. j < length (wr_effects s) \<Longrightarrow> tidy_effect s j (wr_effects s ! j)" by (auto simp: tidy_def)
    have "wr_mounted s" using assms(1) Some by (auto simp: tidy_def)
    then have s': "wr_effects (watch_run_step s a) = (wr_effects s)[i := abort_stream (wr_effects s ! i)]"
        "wr_current (watch_run_step s a) = None" "wr_timer (watch_run_step s a) = None"
        "wr_stopped (watch_run_step s a)" "\<not> wr_mounted (watch_run_step s a)"
      using WaUnmount Some by (simp_all add: watch_run_step_def watch_cleanup_def stop_polling_def change_effect_def)
    have "tidy_effect (watch_run_step s a) j (wr_effects (watch_run_step s a) ! j)" if "j < length (wr_effects s)" for j
      using e [OF that] Some that unfolding tidy_effect_def s'
      by (cases "j = i") (auto simp: s' abort_stream_def)
    then show ?thesis by (simp add: tidy_def s')
  qed
next
  case (WaSnapshot i answer)
  have "tidy (first_snapshot i answer s)" if f: "effect_is we_fetching i s"
  proof -
    let ?s = "change_effect i (\<lambda>e. e\<lparr>we_fetching := False\<rparr>) s"
    have s: "tidy ?s" using tidy_at [OF assms(1)] by (intro tidy_change assms(1)) (auto simp: tidy_effect_def)
    have c: "wr_current s = Some i" if "\<not> wr_stopped s"
      using tidy_at [OF assms(1)] f that by (auto simp: tidy_effect_def effect_is_def)
    have "tidy (change_effect i (\<lambda>e. e\<lparr>we_unsubscribe := True, we_stream := StOpen\<rparr>) (show_snapshot u ?s))"
      if "\<not> wr_stopped s" for u
      by (intro tidy_change tidy_parts s)
        (use f c [OF that] in \<open>simp add: tidy_effect_def effect_is_def change_effect_def\<close>)
    then show ?thesis
      using s c by (auto simp: first_snapshot_def Let_def intro: tidy_watch_failed split: sum.split)
  qed
  with WaSnapshot assms(1) show ?thesis by (simp add: watch_run_step_def)
next
  case (WaItem i u)
  with assms(1) show ?thesis by (simp add: watch_run_step_def stream_update_def tidy_take_update)
next
  case (WaFailed i e)
  have "tidy (watch_stream_failed i e s)" if f: "effect_is is_open i s"
  proof -
    have "tidy (change_effect i (\<lambda>e. e\<lparr>we_stream := StEnded\<rparr>) s)"
      using tidy_at [OF assms(1)] by (intro tidy_change assms(1)) (auto simp: tidy_effect_def)
    moreover have "wr_current s \<noteq> None"
      using tidy_at [OF assms(1)] f by (auto simp: tidy_effect_def effect_is_def is_open_def)
    ultimately show ?thesis by (simp add: watch_stream_failed_def Let_def tidy_watch_failed)
  qed
  with WaFailed assms(1) show ?thesis by (simp add: watch_run_step_def)
next
  case (WaEnded i)
  have "tidy (change_effect i (\<lambda>e. e\<lparr>we_stream := StEnded\<rparr>) s)"
    using tidy_at [OF assms(1)] by (intro tidy_change assms(1)) (auto simp: tidy_effect_def)
  with WaEnded assms(1) show ?thesis by (simp add: watch_run_step_def)
next
  case WaTick
  have "tidy (change_effect i (\<lambda>e. e\<lparr>we_polls := Suc (we_polls e)\<rparr>) s)" for i
    using tidy_at [OF assms(1)] by (intro tidy_change assms(1)) (auto simp: tidy_effect_def)
  with WaTick assms(1) show ?thesis by (simp add: watch_run_step_def split: option.split)
next
  case (WaPolled i answer)
  have "tidy (change_effect i (\<lambda>e. e\<lparr>we_polls := we_polls e - 1\<rparr>) s)"
    using tidy_at [OF assms(1)] by (intro tidy_change assms(1)) (auto simp: tidy_effect_def)
  with WaPolled assms(1) show ?thesis
    by (simp add: watch_run_step_def watch_polled_def Let_def tidy_take_update split: sum.split)
qed

lemma tidy_run: "tidy s \<Longrightarrow> orderly_run s as \<Longrightarrow> tidy (run watch_run_step s as)"
  by (induction as arbitrary: s) (simp_all add: tidy_step)

definition held :: "watch_run_state \<Rightarrow> nat list" where
  "held s = filter (\<lambda>i. is_open (wr_effects s ! i)) [0..<length (wr_effects s)]"

text \<open>
  C29. Where the run id never changes while the first snapshot of the run before is outstanding, a hook that
  is gone holds no stream and no timer.
\<close>

theorem watch_released:
  assumes "orderly_run watch_run_init as" "\<not> wr_mounted (run watch_run_step watch_run_init as)"
  shows "held (run watch_run_step watch_run_init as) = [] \<and> wr_timer (run watch_run_step watch_run_init as) = None"
proof -
  have "tidy watch_run_init" by (simp add: tidy_def watch_run_init_def)
  from tidy_run [OF this assms(1)] assms(2) show ?thesis
    by (auto simp: tidy_def tidy_effect_def held_def is_open_def Let_def filter_empty_conv)
qed

subsection \<open>Answers for the run before\<close>

text \<open>
  The flag is shared by all effects, so that the effect of the next run takes back the mark that the
  cleanup set: a snapshot of the run before that arrives late is shown for the new run, and opens a
  stream that nothing ever closes.
\<close>

theorem late_snapshot_leaks_stream:
  "let s = run watch_run_step watch_run_init
       [WaRunId (Some (CHR ''a'' # r1)), WaRunId (Some (CHR ''b'' # r2)), WaSnapshot 0 (Inr u)]
   in wr_run_id s = Some (CHR ''b'' # r2) \<and> wr_run s = js_coalesce (jget ''run'' u) JNull \<and>
      held (watch_run_step s WaUnmount) = [0]"
proof -
  let ?e = "\<lambda>r. \<lparr>we_run_id = r, we_fetching = True, we_unsubscribe = False, we_stream = StNone, we_polls = 0\<rparr>"
  let ?s2 = "run watch_run_step watch_run_init [WaRunId (Some (CHR ''a'' # r1)), WaRunId (Some (CHR ''b'' # r2))]"
  have s2: "wr_effects ?s2 = [?e (CHR ''a'' # r1), ?e (CHR ''b'' # r2)]" "wr_current ?s2 = Some 1" "\<not> wr_stopped ?s2"
      "wr_run_id ?s2 = Some (CHR ''b'' # r2)" "wr_mounted ?s2"
    by (simp_all add: watch_run_init_def watch_run_step_def set_run_id_def watch_effect_body_def watch_cleanup_def
        stop_polling_def change_effect_def Let_def abort_stream_def)
  let ?s3 = "watch_run_step ?s2 (WaSnapshot 0 (Inr u))"
  have "effect_is we_fetching 0 ?s2" by (simp add: effect_is_def s2 del: run_Cons)
  then have "wr_effects ?s3 = [(?e (CHR ''a'' # r1))\<lparr>we_fetching := False, we_unsubscribe := True, we_stream := StOpen\<rparr>,
        ?e (CHR ''b'' # r2)]" "wr_current ?s3 = Some 1" "wr_run_id ?s3 = Some (CHR ''b'' # r2)" "wr_mounted ?s3"
      "wr_run ?s3 = js_coalesce (jget ''run'' u) JNull"
    by (simp_all add: watch_run_step_def first_snapshot_def change_effect_def show_snapshot_def s2 Let_def del: run_Cons)
  moreover from this have "held (watch_run_step ?s3 WaUnmount) = [0]"
    by (simp add: watch_run_step_def [of _ WaUnmount] watch_cleanup_def stop_polling_def change_effect_def
        abort_stream_def held_def is_open_def upt_rec del: run_Cons)
  ultimately show ?thesis by (simp add: Let_def)
qed

text \<open>
  An answer to a poll of the run before that arrives late and is terminal stops the watch of the new
  run: the old run is shown under the new id for good.
\<close>

theorem late_poll_ends_new_watch:
  assumes "is_terminal_run (jget ''run'' u)" "\<not> list_ex changes_run as"
  shows "let s = run watch_run_step watch_run_init ([WaRunId (Some (CHR ''a'' # r1)), WaSnapshot 0 (Inl e), WaTick,
           WaRunId (Some (CHR ''b'' # r2)), WaPolled 0 (Inr u)] @ as)
         in wr_run_id s = Some (CHR ''b'' # r2) \<and> wr_run s = jget ''run'' u"
proof -
  let ?s = "run watch_run_step watch_run_init [WaRunId (Some (CHR ''a'' # r1)), WaSnapshot 0 (Inl e), WaTick,
      WaRunId (Some (CHR ''b'' # r2)), WaPolled 0 (Inr u)]"
  have n: "\<not> nullish (jget ''run'' u)"
    using assms(1) by (cases "jget ''run'' u") (simp_all add: is_terminal_run_def jget_def js_or_def)
  have "wr_stopped ?s \<and> wr_run_id ?s = Some (CHR ''b'' # r2) \<and> wr_run ?s = jget ''run'' u"
    using assms(1) n
    by (simp add: watch_run_init_def watch_run_step_def set_run_id_def watch_effect_body_def watch_cleanup_def
        first_snapshot_def watch_failed_def start_polling_def watch_polled_def take_update_def finish_watch_def
        show_snapshot_def stop_polling_def change_effect_def effect_is_def Let_def abort_stream_def js_coalesce_def)
  then show ?thesis
    using watch_stopped_run [OF _ assms(2), of ?s] unfolding Let_def run_append by (simp add: watch_view_def del: run_Cons)
qed

theorem late_poll_ends_new_watch_witness:
  "\<exists>s. s = run watch_run_step watch_run_init ([WaRunId (Some ''a1''), WaSnapshot 0 (Inl (JStr ''down'')), WaTick,
        WaRunId (Some ''b2''), WaPolled 0 (Inr (JObj [(''run'', JObj [(''isTerminal'', JBool True)])]))] @
        [WaSnapshot 1 (Inr (JObj [(''run'', JObj [])]))]) \<and>
     wr_run_id s = Some ''b2'' \<and> wr_run s = JObj [(''isTerminal'', JBool True)]"
proof -
  let ?u = "JObj [(''run'', JObj [(''isTerminal'', JBool True)])]"
  have "is_terminal_run (jget ''run'' ?u)" "\<not> list_ex changes_run [WaSnapshot 1 (Inr (JObj [(''run'', JObj [])]))]"
    by code_simp+
  from late_poll_ends_new_watch [OF this, of "''1''" "JStr ''down''" "''2''"] show ?thesis
    by (simp add: Let_def jget_def del: run_Cons)
qed

definition demo_watch :: "watch_event list" where
  "demo_watch = [WaRunId (Some ''r''), WaSnapshot 0 (Inr (JObj [])), WaFailed 0 (JStr ''cut''), WaRunId (Some ''q''),
     WaSnapshot 1 (Inr (JObj [])), WaUnmount]"

theorem watch_released_witness:
  "held (run watch_run_step watch_run_init demo_watch) = [] \<and> wr_timer (run watch_run_step watch_run_init demo_watch) = None"
proof -
  have "orderly_run watch_run_init demo_watch" by (simp add: demo_watch_def orderly_def changes_run_def
      watch_run_init_def watch_run_step_def watch_defs Let_def)
  moreover have "\<not> wr_mounted (run watch_run_step watch_run_init demo_watch)"
    by code_simp
  ultimately show ?thesis using watch_released by blast
qed

end
