(* ===== verification/TemplateRuns.thy ===== *)
theory TemplateRuns
  imports StrategyPages TaskTable
begin

text \<open>
  The list of backtest runs of the template page and its streams
  (\<open>pages/strategy/hooks/useStrategyTemplateRuns.ts\<close>): the list is fetched, every run that is not
  terminal gets a stream, the updates of a stream change the row of the run, and a terminal run gives
  its stream back.  A subscription is the number under which it was made.
\<close>

subsection \<open>The state\<close>

text \<open>The calls that are waited for.\<close>

datatype runs_task = RtFetch | RtCancel | RtCancelFetch | RtDelete | RtDeleteFetch

record runs_state =
  rs_runs :: "jv list"
  rs_runs_loading :: bool
  rs_canceling :: bool
  rs_selected :: string
  rs_subs :: "(string \<times> nat) list"
  rs_made :: nat
  rs_open :: "nat list"
  rs_mounted :: bool
  rs_tasks :: "(nat \<times> runs_task) list"
  rs_next_task :: nat

definition runs_init :: runs_state where
  "runs_init = \<lparr>rs_runs = [], rs_runs_loading = False, rs_canceling = False, rs_selected = [], rs_subs = [],
     rs_made = 0, rs_open = [], rs_mounted = True,
     rs_tasks = [], rs_next_task = 0\<rparr>"

definition row_id :: "jv \<Rightarrow> string" where
  "row_id r = js_string (js_or (jget ''id'' r) (JStr []))"

subsection \<open>Fetching the list\<close>

definition titled_run :: "jv \<Rightarrow> jv \<Rightarrow> jv" where
  "titled_run titles r = jspread r (JObj
     [(''title'', js_or (jget (row_id r) titles) (JStr [])),
      (''templateId'', js_or (jget ''templateId'' r) (jget ''template_id'' r)),
      (''templateDraftId'', js_or (jget ''templateDraftId'' r) (jget ''template_draft_id'' r))])"

definition fetch_runs_begin :: "runs_state \<Rightarrow> runs_state" where
  "fetch_runs_begin s = s\<lparr>rs_runs_loading := True\<rparr>"

text \<open>The list of the answer is an array of rows; anything else throws, and so does a row that is missing.\<close>

definition listed_runs :: "string option \<Rightarrow> jv outcome \<Rightarrow> jv list" where
  "listed_runs item answer =
     (case answer of
        Inl _ \<Rightarrow> []
      | Inr resp \<Rightarrow>
          (case js_or (jget ''runs'' resp) (JArr []) of
             JArr rs \<Rightarrow> if list_ex nullish rs then [] else List.map (titled_run (load_run_titles item)) rs
           | _ \<Rightarrow> []))"

subsection \<open>Streams\<close>

definition drop_subscription :: "string \<Rightarrow> runs_state \<Rightarrow> runs_state" where
  "drop_subscription i s =
     s\<lparr>rs_open := (case map_of (rs_subs s) i of None \<Rightarrow> rs_open s | Some h \<Rightarrow> removeAll h (rs_open s)),
       rs_subs := AList.delete i (rs_subs s)\<rparr>"

definition add_subscription :: "string \<Rightarrow> runs_state \<Rightarrow> runs_state" where
  "add_subscription i s =
     s\<lparr>rs_subs := AList.update i (rs_made s) (rs_subs s), rs_open := rs_made s # rs_open s,
       rs_made := Suc (rs_made s)\<rparr>"

definition sync_stream :: "jv \<Rightarrow> runs_state \<Rightarrow> runs_state" where
  "sync_stream r s =
     (let i = row_id r
      in if i = [] then s
         else if is_terminal_run r then drop_subscription i s
         else if map_of (rs_subs s) i \<noteq> None then s
         else add_subscription i s)"

definition sync_streams :: "runs_state \<Rightarrow> runs_state" where
  "sync_streams s = fold sync_stream (rs_runs s) s"

text \<open>A change of the list, and the effect that follows it.\<close>

definition put_runs :: "jv list \<Rightarrow> runs_state \<Rightarrow> runs_state" where
  "put_runs rs s = sync_streams (s\<lparr>rs_runs := rs\<rparr>)"

definition update_id :: "jv \<Rightarrow> string" where
  "update_id u = js_string (foldr js_or
     [jget ''id'' (jget ''run'' u), jget ''runId'' (jget ''run'' u), jget ''runId'' u] (JStr []))"

definition updated_row :: "jv \<Rightarrow> jv \<Rightarrow> jv" where
  "updated_row u r =
     jspread (jspread r (jget ''run'' u)) (JObj
       [(''status'', js_coalesce (jget ''status'' (jget ''run'' u)) (jget ''status'' r)),
        (''error'', js_coalesce (jget ''error'' (jget ''run'' u)) (jget ''error'' r)),
        (''metrics'', js_coalesce (jget ''metrics'' u) (jget ''metrics'' r)),
        (''equityCurve'', (case jget ''equityCurve'' u of JArr xs \<Rightarrow> JArr xs | _ \<Rightarrow> jget ''equityCurve'' r))])"

definition update_run_from_stream :: "jv \<Rightarrow> runs_state \<Rightarrow> runs_state" where
  "update_run_from_stream u s =
     (let i = update_id u
      in if i = [] then s
         else
           (let rows = update_where (\<lambda>r. row_id r = i) (updated_row u) (rs_runs s);
                s1 = (if is_terminal_run (jget ''run'' u) then drop_subscription i s else s)
            in put_runs rows s1))"

definition fetch_runs_done :: "string option \<Rightarrow> jv outcome \<Rightarrow> runs_state \<Rightarrow> runs_state" where
  "fetch_runs_done item answer s = put_runs (listed_runs item answer) (s\<lparr>rs_runs_loading := False\<rparr>)"

definition release_streams :: "runs_state \<Rightarrow> runs_state" where
  "release_streams s =
     s\<lparr>rs_open := filter (\<lambda>h. h \<notin> snd ` set (rs_subs s)) (rs_open s), rs_subs := [], rs_mounted := False\<rparr>"

subsection \<open>Events\<close>

definition begin_task :: "runs_task \<Rightarrow> runs_state \<Rightarrow> runs_state" where
  "begin_task k s = s\<lparr>rs_tasks := rs_tasks s @ [(rs_next_task s, k)], rs_next_task := Suc (rs_next_task s)\<rparr>"

definition fetch_runs :: "runs_task \<Rightarrow> runs_state \<Rightarrow> runs_state" where
  "fetch_runs k s = fetch_runs_begin (begin_task k s)"

definition cancel_run :: "runs_state \<Rightarrow> runs_state" where
  "cancel_run s = (if rs_selected s = [] then s else begin_task RtCancel (s\<lparr>rs_canceling := True\<rparr>))"

definition cancel_answered :: "(string \<Rightarrow> string) \<Rightarrow> unit outcome \<Rightarrow> runs_state \<Rightarrow> runs_state \<times> toast list" where
  "cancel_answered t answer s =
     (case answer of
        Inl _ \<Rightarrow> (s\<lparr>rs_canceling := False\<rparr>, [ToastError (t ''strategy.templates.messages.backtestCancelFailed'')])
      | Inr _ \<Rightarrow> (fetch_runs RtCancelFetch s,
          [ToastSuccess (t ''strategy.templates.messages.backtestCancelRequested'')]))"

definition delete_run :: "string \<Rightarrow> runs_state \<Rightarrow> runs_state" where
  "delete_run i s = (if i = [] then s else begin_task RtDelete s)"

definition delete_answered :: "(string \<Rightarrow> string) \<Rightarrow> jv outcome \<Rightarrow> runs_state \<Rightarrow> runs_state \<times> toast list" where
  "delete_answered t answer s =
     (case answer of
        Inl _ \<Rightarrow> (s, [ToastError (t ''common.deleteFailed'')])
      | Inr resp \<Rightarrow> (fetch_runs RtDeleteFetch s,
          [if truthy (jget ''deleted'' resp) then ToastSuccess (t ''strategy.templates.messages.backtestReportDeleted'')
           else ToastWarning (t ''strategy.templates.messages.backtestReportNotFound'')]))"

datatype runs_event =
    RvFetch
  | RvSelect string
  | RvCancel
  | RvDelete string
  | RvSetRuns "jv list"
  | RvListed nat "string option" "jv outcome"
  | RvCancelled nat "unit outcome"
  | RvDeleted nat "jv outcome"
  | RvUpdate nat jv
  | RvEnds nat
  | RvUnmount

definition answer_task :: "nat \<Rightarrow> runs_state \<Rightarrow> runs_state" where
  "answer_task i s = s\<lparr>rs_tasks := AList.delete i (rs_tasks s)\<rparr>"

text \<open>A stream that ends or fails calls nothing; the subscription stays in the table.\<close>

definition runs_step_out :: "(string \<Rightarrow> string) \<Rightarrow> runs_state \<Rightarrow> runs_event \<Rightarrow> runs_state \<times> toast list" where
  "runs_step_out t s a =
     (if \<not> rs_mounted s then (s, [])
      else case a of
        RvFetch \<Rightarrow> (fetch_runs RtFetch s, [])
      | RvSelect i \<Rightarrow> (s\<lparr>rs_selected := i\<rparr>, [])
      | RvCancel \<Rightarrow> (cancel_run s, [])
      | RvDelete i \<Rightarrow> (delete_run i s, [])
      | RvSetRuns rs \<Rightarrow> (put_runs rs s, [])
      | RvListed i item answer \<Rightarrow>
          (case map_of (rs_tasks s) i of
             Some RtCancelFetch \<Rightarrow> ((fetch_runs_done item answer (answer_task i s))\<lparr>rs_canceling := False\<rparr>, [])
           | Some RtFetch \<Rightarrow> (fetch_runs_done item answer (answer_task i s), [])
           | Some RtDeleteFetch \<Rightarrow> (fetch_runs_done item answer (answer_task i s), [])
           | _ \<Rightarrow> (s, []))
      | RvCancelled i answer \<Rightarrow>
          if map_of (rs_tasks s) i = Some RtCancel then cancel_answered t answer (answer_task i s) else (s, [])
      | RvDeleted i answer \<Rightarrow>
          if map_of (rs_tasks s) i = Some RtDelete then delete_answered t answer (answer_task i s) else (s, [])
      | RvUpdate h u \<Rightarrow> if h \<in> set (rs_open s) then (update_run_from_stream u s, []) else (s, [])
      | RvEnds h \<Rightarrow> (s\<lparr>rs_open := removeAll h (rs_open s)\<rparr>, [])
      | RvUnmount \<Rightarrow> (release_streams s, []))"

definition runs_step :: "(string \<Rightarrow> string) \<Rightarrow> runs_state \<Rightarrow> runs_event \<Rightarrow> runs_state" where
  "runs_step t s a = fst (runs_step_out t s a)"

subsection \<open>One stream for every run\<close>

definition streams_inv :: "runs_state \<Rightarrow> bool" where
  "streams_inv s \<longleftrightarrow> distinct (rs_open s) \<and> set (rs_open s) \<subseteq> snd ` set (rs_subs s) \<and>
     distinct (List.map fst (rs_subs s)) \<and> distinct (List.map snd (rs_subs s)) \<and>
     (\<forall>h \<in> snd ` set (rs_subs s). h < rs_made s)"

lemma streams_inv_init: "streams_inv runs_init"
  by (simp add: streams_inv_def runs_init_def)

lemma streams_inv_cong:
  "rs_open s' = rs_open s \<Longrightarrow> rs_subs s' = rs_subs s \<Longrightarrow> rs_made s' = rs_made s \<Longrightarrow> streams_inv s' = streams_inv s"
  by (simp add: streams_inv_def)

lemma distinct_snd_delete: "distinct (List.map snd al) \<Longrightarrow> distinct (List.map snd (AList.delete i al))"
  by (simp add: AList.delete_eq distinct_map_filter)

lemma streams_inv_drop:
  assumes "streams_inv s"
  shows "streams_inv (drop_subscription i s)"
proof (cases "map_of (rs_subs s) i")
  case None
  moreover from None have "AList.delete i (rs_subs s) = rs_subs s" by (simp add: delete_idem map_of_eq_None_iff)
  ultimately have "drop_subscription i s = s" by (simp add: drop_subscription_def)
  with assms show ?thesis by simp
next
  case (Some h0)
  have "h \<in> snd ` {p \<in> set (rs_subs s). fst p \<noteq> i}" if "h \<in> set (rs_open s)" "h \<noteq> h0" for h
  proof -
    from assms that(1) obtain k where k: "(k, h) \<in> set (rs_subs s)" by (auto simp: streams_inv_def)
    with assms have "map_of (rs_subs s) k = Some h" by (simp add: streams_inv_def)
    with Some that(2) have "k \<noteq> i" by auto
    with k show ?thesis by force
  qed
  with assms Some show ?thesis
    by (auto simp: streams_inv_def drop_subscription_def distinct_removeAll distinct_delete distinct_snd_delete set_delete)
qed

lemma streams_inv_add:
  assumes "streams_inv s" "map_of (rs_subs s) i = None"
  shows "streams_inv (add_subscription i s)"
proof -
  have "i \<notin> fst ` set (rs_subs s)" using assms(2) by (simp add: map_of_eq_None_iff)
  then have "AList.update i (rs_made s) (rs_subs s) = rs_subs s @ [(i, rs_made s)]" by (rule update_fresh)
  moreover have "rs_made s \<notin> snd ` set (rs_subs s)" using assms(1) by (auto simp: streams_inv_def)
  moreover from this have "rs_made s \<notin> set (rs_open s)" using assms(1) by (auto simp: streams_inv_def)
  ultimately show ?thesis
    using assms(1) \<open>i \<notin> fst ` set (rs_subs s)\<close> by (auto simp: streams_inv_def add_subscription_def less_Suc_eq)
qed

lemma streams_inv_sync: "streams_inv s \<Longrightarrow> streams_inv (sync_stream r s)"
  by (simp add: sync_stream_def Let_def streams_inv_drop streams_inv_add)

lemma streams_inv_fold: "streams_inv s \<Longrightarrow> streams_inv (fold sync_stream rs s)"
  by (induction rs arbitrary: s) (simp_all add: streams_inv_sync)

lemma streams_inv_put: "streams_inv s \<Longrightarrow> streams_inv (put_runs rs s)"
  unfolding put_runs_def sync_streams_def by (rule streams_inv_fold) (simp add: streams_inv_def)

lemma streams_inv_release: "streams_inv s \<Longrightarrow> streams_inv (release_streams s)"
  by (auto simp: streams_inv_def release_streams_def)

lemma streams_inv_fields [simp]:
  "streams_inv (s\<lparr>rs_runs_loading := b\<rparr>) = streams_inv s" "streams_inv (s\<lparr>rs_canceling := b\<rparr>) = streams_inv s"
  "streams_inv (s\<lparr>rs_selected := i\<rparr>) = streams_inv s" "streams_inv (answer_task n s) = streams_inv s"
  "streams_inv (begin_task k s) = streams_inv s" "streams_inv (fetch_runs k s) = streams_inv s"
  by (simp_all add: streams_inv_def answer_task_def begin_task_def fetch_runs_def fetch_runs_begin_def)

lemma streams_inv_done: "streams_inv s \<Longrightarrow> streams_inv (fetch_runs_done item answer s)"
  unfolding fetch_runs_done_def by (rule streams_inv_put) simp

lemma streams_inv_update: "streams_inv s \<Longrightarrow> streams_inv (update_run_from_stream u s)"
  by (simp add: update_run_from_stream_def Let_def streams_inv_put streams_inv_drop)

lemma streams_inv_step: "streams_inv s \<Longrightarrow> streams_inv (runs_step t s a)"
proof (cases a)
  case (RvEnds h)
  then show "streams_inv s \<Longrightarrow> ?thesis"
    by (auto simp: runs_step_def runs_step_out_def streams_inv_def distinct_removeAll)
qed (auto simp: runs_step_def runs_step_out_def cancel_run_def delete_run_def cancel_answered_def delete_answered_def
    streams_inv_put streams_inv_done streams_inv_update streams_inv_release
    split: option.split runs_task.split sum.split)

interpretation run_streams: machine runs_init "runs_step t" streams_inv
  by unfold_locales (rule streams_inv_init, rule streams_inv_step)

lemma mounted_kept [simp]:
  "rs_mounted (sync_stream r s) = rs_mounted s" "rs_mounted (fetch_runs k s) = rs_mounted s"
  "rs_mounted (answer_task n s) = rs_mounted s" "rs_mounted (begin_task k s) = rs_mounted s"
  by (simp_all add: sync_stream_def drop_subscription_def add_subscription_def fetch_runs_def fetch_runs_begin_def
      answer_task_def begin_task_def Let_def)

lemma mounted_put [simp]: "rs_mounted (put_runs rs s) = rs_mounted s"
proof -
  have "rs_mounted (fold sync_stream rs s) = rs_mounted s" for s
    by (induction rs arbitrary: s) simp_all
  then show ?thesis by (simp add: put_runs_def sync_streams_def)
qed

lemma mounted_update [simp]: "rs_mounted (update_run_from_stream u s) = rs_mounted s"
  by (simp add: update_run_from_stream_def Let_def drop_subscription_def)

lemma mounted_done [simp]: "rs_mounted (fetch_runs_done item answer s) = rs_mounted s"
  by (simp add: fetch_runs_done_def)

lemma mounted_step:
  "rs_mounted s \<Longrightarrow> a \<noteq> RvUnmount \<Longrightarrow> rs_mounted (runs_step t s a)"
  by (cases a) (auto simp: runs_step_def runs_step_out_def cancel_run_def delete_run_def cancel_answered_def
      delete_answered_def split: option.split runs_task.split sum.split)

lemma released_step:
  assumes "rs_mounted s \<or> rs_open s = []" "streams_inv s"
  shows "rs_mounted (runs_step t s a) \<or> rs_open (runs_step t s a) = []"
proof (cases "rs_mounted s")
  case True
  show ?thesis
  proof (cases "a = RvUnmount")
    case True
    with \<open>rs_mounted s\<close> assms(2) show ?thesis
      by (auto simp: runs_step_def runs_step_out_def release_streams_def streams_inv_def filter_empty_conv)
  qed (simp add: mounted_step True)
next
  case False
  with assms show ?thesis by (simp add: runs_step_def runs_step_out_def)
qed

interpretation released_streams: machine runs_init "runs_step t"
  "\<lambda>s. streams_inv s \<and> (rs_mounted s \<or> rs_open s = [])"
  by unfold_locales (simp add: streams_inv_init, simp add: runs_init_def, simp add: streams_inv_step released_step)

text \<open>
  C28. There is at most one open stream for every run, every open stream is in the table that the cleanup
  goes through, and a page that is gone has no stream.
\<close>

theorem one_stream_per_run:
  "let s = run (runs_step t) runs_init as
   in distinct (rs_open s) \<and> distinct (List.map fst (rs_subs s)) \<and> distinct (List.map snd (rs_subs s)) \<and>
      set (rs_open s) \<subseteq> snd ` set (rs_subs s) \<and> (rs_mounted s \<or> rs_open s = [])"
  using released_streams.inv_run [of t as] by (simp add: streams_inv_def Let_def)

subsection \<open>Every run has a stream\<close>

definition needs_stream :: "jv \<Rightarrow> bool" where
  "needs_stream r \<longleftrightarrow> row_id r \<noteq> [] \<and> \<not> is_terminal_run r"

lemma sync_stream_subs:
  "map_of (rs_subs (sync_stream r s)) i =
     (if row_id r \<noteq> i \<or> i = [] then map_of (rs_subs s) i
      else if is_terminal_run r then None
      else Some (case map_of (rs_subs s) i of None \<Rightarrow> rs_made s | Some h \<Rightarrow> h))"
  by (auto simp: sync_stream_def Let_def drop_subscription_def add_subscription_def delete_conv' update_conv'
      split: option.split)

lemma fold_sync_other:
  "i \<notin> row_id ` set rs \<Longrightarrow> map_of (rs_subs (fold sync_stream rs s)) i = map_of (rs_subs s) i"
  by (induction rs arbitrary: s) (auto simp: sync_stream_subs)

lemma fold_sync_row:
  assumes "distinct (List.map row_id rs)" "r \<in> set rs" "row_id r \<noteq> []"
  shows "map_of (rs_subs (fold sync_stream rs s)) (row_id r) \<noteq> None \<longleftrightarrow> \<not> is_terminal_run r"
  using assms
proof (induction rs arbitrary: s)
  case (Cons q rs)
  show ?case
  proof (cases "q = r")
    case True
    with Cons.prems(1) have "row_id r \<notin> row_id ` set rs" by auto
    with True Cons.prems(3) show ?thesis by (simp add: fold_sync_other sync_stream_subs)
  next
    case False
    with Cons show ?thesis by simp
  qed
qed simp

text \<open>
  After every change of the list exactly the runs that are not terminal have a subscription.
\<close>

theorem every_run_has_stream:
  assumes "distinct (List.map row_id rs)" "r \<in> set rs" "row_id r \<noteq> []"
  shows "map_of (rs_subs (put_runs rs s)) (row_id r) \<noteq> None \<longleftrightarrow> \<not> is_terminal_run r"
  using fold_sync_row [OF assms] by (simp add: put_runs_def sync_streams_def)

theorem every_run_has_stream_witness:
  "map_of (rs_subs (put_runs [JObj [(''id'', JStr ''r1'')], JObj [(''id'', JStr ''r2''), (''isTerminal'', JBool True)]]
     runs_init)) ''r1'' \<noteq> None"
proof -
  let ?r = "JObj [(''id'', JStr ''r1'')]" and ?q = "JObj [(''id'', JStr ''r2''), (''isTerminal'', JBool True)]"
  have i: "row_id ?r = ''r1''" "row_id ?q = ''r2''" "\<not> is_terminal_run ?r" by code_simp+
  then have "distinct (List.map row_id [?r, ?q])" "?r \<in> set [?r, ?q]" "row_id ?r \<noteq> []" by simp_all
  from every_run_has_stream [OF this, of runs_init] i show ?thesis by simp
qed

subsection \<open>Streams that end, and runs that are gone\<close>

lemma fold_sync_dead:
  assumes "h < rs_made s" "map_of (rs_subs s) i = Some h" "h \<notin> set (rs_open s)" "i \<noteq> []"
    "\<not> list_ex (\<lambda>r. row_id r = i \<and> is_terminal_run r) rs"
  shows "map_of (rs_subs (fold sync_stream rs s)) i = Some h \<and> h \<notin> set (rs_open (fold sync_stream rs s))"
  using assms
proof (induction rs arbitrary: s)
  case (Cons r rs)
  have "h < rs_made (sync_stream r s)" "h \<notin> set (rs_open (sync_stream r s))"
    using Cons.prems(1,3) by (auto simp: sync_stream_def Let_def drop_subscription_def add_subscription_def split: option.split)
  moreover have "map_of (rs_subs (sync_stream r s)) i = Some h"
    using Cons.prems by (simp add: sync_stream_subs)
  ultimately show ?case using Cons by simp
qed simp

text \<open>
  A stream that ends or fails leaves its entry in the table, so that no later list brings a new stream
  for the run: its row stays as it is.
\<close>

theorem ended_run_stream_never_restarts:
  assumes "map_of (rs_subs s) i = Some h" "h < rs_made s" "i \<noteq> []" "rs_mounted s"
    "\<not> list_ex (\<lambda>r. row_id r = i \<and> is_terminal_run r) rs"
  shows "let s' = put_runs rs (runs_step t s (RvEnds h))
         in map_of (rs_subs s') i = Some h \<and> h \<notin> set (rs_open s')"
proof -
  let ?s = "(runs_step t s (RvEnds h))\<lparr>rs_runs := rs\<rparr>"
  have "h < rs_made ?s" "map_of (rs_subs ?s) i = Some h" "h \<notin> set (rs_open ?s)"
    using assms by (simp_all add: runs_step_def runs_step_out_def)
  from fold_sync_dead [OF this assms(3,5)] show ?thesis
    by (simp add: put_runs_def sync_streams_def Let_def)
qed

theorem ended_run_stream_never_restarts_witness:
  "let s' = put_runs [JObj [(''id'', JStr ''r1'')]]
       (runs_step id (put_runs [JObj [(''id'', JStr ''r1'')]] runs_init) (RvEnds 0))
   in map_of (rs_subs s') ''r1'' = Some 0 \<and> 0 \<notin> set (rs_open s')"
proof -
  let ?rs = "[JObj [(''id'', JStr ''r1'')]]"
  let ?s = "put_runs ?rs runs_init"
  have "map_of (rs_subs ?s) ''r1'' = Some 0" "0 < rs_made ?s" "''r1'' \<noteq> []" "rs_mounted ?s"
    "\<not> list_ex (\<lambda>r. row_id r = ''r1'' \<and> is_terminal_run r) ?rs" by code_simp+
  then show ?thesis by (rule ended_run_stream_never_restarts)
qed

text \<open>
  Runs that leave the list, because they were deleted or the list could not be fetched, keep their
  streams.
\<close>

theorem missing_run_keeps_stream:
  "let s' = put_runs [] s in rs_runs s' = [] \<and> rs_open s' = rs_open s \<and> rs_subs s' = rs_subs s"
  by (simp add: put_runs_def sync_streams_def Let_def)

end
