(* ===== verification/ScheduleSymbols.thy ===== *)
theory ScheduleSymbols
  imports StrategyRuns TaskTable
begin

text \<open>
  The symbols of an account that the form of a schedule offers (\<open>loadSymbols\<close> of
  \<open>pages/strategy/StrategySchedulePage.tsx\<close>), with the field of the form that their reading may change: a field
  without a value is the empty text, which the code treats alike.
\<close>

text \<open>The first of equal texts stays; \<open>seen\<close> is the set of the code.\<close>

fun keep_first :: "string list \<Rightarrow> string list \<Rightarrow> string list" where
  "keep_first seen [] = []"
| "keep_first seen (v # vs) = (if v \<in> set seen then keep_first seen vs else v # keep_first (v # seen) vs)"

definition symbol_options :: "jv list \<Rightarrow> string list" where
  "symbol_options rows =
     keep_first [] (filter (\<lambda>v. v \<noteq> []) (List.map (\<lambda>s. trimmed_field [jget ''symbol'' s]) rows))"

record symbols_state =
  sy_symbols :: "string list"
  sy_loading :: bool
  sy_account :: string
  sy_symbol :: string
  sy_tasks :: "(nat \<times> string \<times> string) list"
  sy_next :: nat

text \<open>A request keeps the account and the symbol that it should keep.\<close>

definition load_symbols :: "string \<Rightarrow> string \<Rightarrow> symbols_state \<Rightarrow> symbols_state" where
  "load_symbols account keep s =
     (if account = [] then s\<lparr>sy_symbols := [], sy_symbol := []\<rparr>
      else s\<lparr>sy_loading := True, sy_tasks := sy_tasks s @ [(sy_next s, account, keep)], sy_next := Suc (sy_next s)\<rparr>)"

definition symbols_answered :: "nat \<Rightarrow> jv list outcome \<Rightarrow> symbols_state \<Rightarrow> symbols_state" where
  "symbols_answered i answer s =
     (case map_of (sy_tasks s) i of
        None \<Rightarrow> s
      | Some (account, keep) \<Rightarrow>
          (let s = s\<lparr>sy_tasks := AList.delete i (sy_tasks s)\<rparr>
           in (case answer of
                 Inl _ \<Rightarrow> s\<lparr>sy_symbols := [], sy_symbol := []\<rparr>
               | Inr rows \<Rightarrow>
                   (let opts = symbol_options rows;
                        next_symbol = (if keep \<noteq> [] then keep else sy_symbol s)
                    in s\<lparr>sy_symbols := opts,
                         sy_symbol := (if opts \<noteq> [] \<and> (next_symbol = [] \<or> next_symbol \<notin> set opts) then hd opts
                                       else sy_symbol s)\<rparr>))\<lparr>sy_loading := False\<rparr>))"

text \<open>While a schedule is created, choosing an account loads its symbols.\<close>

definition choose_account :: "string \<Rightarrow> symbols_state \<Rightarrow> symbols_state" where
  "choose_account account s =
     (let s = s\<lparr>sy_account := account\<rparr>
      in if account = [] then s\<lparr>sy_symbols := []\<rparr> else load_symbols account [] s)"

end
