(* ===== verification/ScheduleEdit.thy ===== *)
theory ScheduleEdit
  imports ScheduleForm ScheduleSymbols TradingHook
begin

text \<open>
  Creating and editing a schedule on the schedule page (\<open>pages/strategy/StrategySchedulePage.tsx\<close> with the
  rules of \<open>components/EditScheduleModal.tsx\<close>): how a stored schedule becomes the values of the form, how
  the values become a request, and what saving does in its order.  The table of the default templates is
  an argument.
\<close>

subsection \<open>The form\<close>

record edit_form =
  ef_template_id :: "string option"
  ef_account_id :: "string option"
  ef_name :: "string option"
  ef_symbol :: "string option"
  ef_timeframe :: "string option"
  ef_risk :: schedule_form
  ef_type :: string
  ef_interval_ms :: "jsnum option"
  ef_hf_cooldown_ms :: "jsnum option"
  ef_active :: bool
  ef_parameters_json :: "string option"

definition create_form :: edit_form where
  "create_form = \<lparr>ef_template_id = None, ef_account_id = None, ef_name = None, ef_symbol = Some [],
     ef_timeframe = Some ''H1'', ef_risk = empty_form, ef_type = ''kline_close'', ef_interval_ms = Some (Fin 300000),
     ef_hf_cooldown_ms = Some (Fin 1000), ef_active = True, ef_parameters_json = Some ''{}''\<rparr>"

definition text_field :: "string \<Rightarrow> jv \<Rightarrow> string option" where
  "text_field k row = (case jget k row of JStr s \<Rightarrow> Some s | _ \<Rightarrow> None)"

definition shown_type :: "jv \<Rightarrow> string" where
  "shown_type row =
     (let conf = js_or (jget ''scheduleConfig'' row) (JObj []);
          raw_type = js_lower (js_string (js_or (jget ''scheduleType'' row) (JStr [])));
          trigger_mode = js_string (js_or (jget ''triggerMode'' conf) (JStr ''stable_kline''))
      in if raw_type = ''interval'' \<or> raw_type = ''cron'' then ''interval''
         else if trigger_mode = ''hf_quote_stream'' \<or> raw_type = ''hf_quote'' then ''hf_quote''
         else ''kline_close'')"

definition config_number :: "string \<Rightarrow> jsnum \<Rightarrow> jv \<Rightarrow> jsnum" where
  "config_number k d conf = (case jget k conf of JNum n \<Rightarrow> n | JBig i \<Rightarrow> Fin (of_int i) | _ \<Rightarrow> d)"

text \<open>\<open>JSON.stringify(p, null, 2)\<close> on an object of texts, which the parameters of a schedule are.\<close>

definition pretty_field :: "string \<times> jv \<Rightarrow> string" where
  "pretty_field = (\<lambda>(k, v). ''  '' @ json_quote k @ '': '' @ json_print v)"

definition pretty_params :: "(string \<times> jv) list \<Rightarrow> string" where
  "pretty_params fs =
     (if fs = [] then ''{}''
      else ''{'' @ newline @ js_join ('','' @ newline) (List.map pretty_field fs) @ newline @ ''}'')"

definition risk_fields :: "schedule_form \<Rightarrow> schedule_form" where
  "risk_fields p = empty_form\<lparr>sf_default_volume := sf_default_volume p, sf_max_positions := sf_max_positions p,
     sf_stop_loss := sf_stop_loss p, sf_take_profit := sf_take_profit p, sf_max_drawdown := sf_max_drawdown p\<rparr>"

text \<open>The values of the form, and the reading of the symbols of the account that starts with them.\<close>

definition update_form :: "jv \<Rightarrow> edit_form" where
  "update_form row =
     (let conf = js_or (jget ''scheduleConfig'' row) (JObj []);
          params = jget ''parameters'' row
      in \<lparr>ef_template_id = text_field ''templateId'' row, ef_account_id = text_field ''accountId'' row,
          ef_name = text_field ''name'' row, ef_symbol = text_field ''symbol'' row,
          ef_timeframe = text_field ''timeframe'' row,
          ef_risk = risk_fields (parse_parameters_to_form (js_or params (JObj []))),
          ef_type = shown_type row,
          ef_interval_ms = Some (config_number ''intervalMs'' (Fin 300000) conf),
          ef_hf_cooldown_ms = Some (config_number ''hfCooldownMs'' (Fin 1000) conf),
          ef_active = False,
          ef_parameters_json = Some (if truthy params then pretty_params (jfields params) else ''{}'')\<rparr>)"

definition text_or_empty :: "string option \<Rightarrow> string" where
  "text_or_empty v = (case v of None \<Rightarrow> [] | Some s \<Rightarrow> s)"

definition open_update :: "jv \<Rightarrow> symbols_state \<Rightarrow> edit_form \<times> symbols_state" where
  "open_update row s =
     (let f = update_form row;
          account = text_or_empty (ef_account_id f); symbol = text_or_empty (ef_symbol f)
      in (f, load_symbols account symbol (s\<lparr>sy_account := account, sy_symbol := symbol\<rparr>)))"

text \<open>The form with the symbol that it has after the readings.\<close>

definition form_shown :: "edit_form \<Rightarrow> symbols_state \<Rightarrow> edit_form" where
  "form_shown f s = f\<lparr>ef_symbol := Some (sy_symbol s)\<rparr>"

subsection \<open>The rules\<close>

text \<open>The length of a text in code points.\<close>

definition char_count :: "string \<Rightarrow> nat" where
  "char_count s = length (filter (\<lambda>c. \<not> (0x80 \<le> code_of c \<and> code_of c < 0xC0)) s)"

definition filled :: "string option \<Rightarrow> bool" where
  "filled v = (case v of None \<Rightarrow> False | Some s \<Rightarrow> s \<noteq> [])"

definition at_least :: "rat \<Rightarrow> jsnum option \<Rightarrow> bool" where
  "at_least m v = (case v of None \<Rightarrow> False | Some n \<Rightarrow> Fin m \<le> n)"

definition edit_valid :: "bool \<Rightarrow> edit_form \<Rightarrow> bool" where
  "edit_valid creating f \<longleftrightarrow>
     (creating \<longrightarrow> filled (ef_template_id f) \<and> filled (ef_account_id f)) \<and>
     filled (ef_name f) \<and> char_count (the (ef_name f)) \<le> 100 \<and>
     filled (ef_symbol f) \<and> filled (ef_timeframe f) \<and> ef_type f \<noteq> [] \<and>
     (ef_type f = ''interval'' \<longrightarrow> at_least 1000 (ef_interval_ms f)) \<and>
     (ef_type f = ''hf_quote'' \<longrightarrow> at_least 100 (ef_hf_cooldown_ms f)) \<and>
     (case sf_max_drawdown (ef_risk f) of None \<Rightarrow> True | Some n \<Rightarrow> Fin 0 \<le> n \<and> n \<le> Fin 1)"

subsection \<open>The request\<close>

text \<open>
  The text of the parameters: \<open>Inl\<close> the value that is thrown.  What the parser says of a text that is not
  JSON is an argument.
\<close>

definition thrown_error :: "string \<Rightarrow> jv" where
  "thrown_error m = JObj [(''message'', JStr m)]"

definition param_text :: "jv \<Rightarrow> string" where
  "param_text v = (case v of JStr s \<Rightarrow> s | _ \<Rightarrow> json_print v)"

definition parse_parameters ::
    "(string \<Rightarrow> string) \<Rightarrow> (string \<Rightarrow> string) \<Rightarrow> string option \<Rightarrow> (string \<times> string) list outcome" where
  "parse_parameters t syntax_error raw =
     (case raw of
        None \<Rightarrow> Inr []
      | Some s \<Rightarrow>
          if s = [] \<or> js_trim s = [] then Inr []
          else (case json_parse s of
              None \<Rightarrow> Inl (thrown_error (syntax_error s))
            | Some (JObj fs) \<Rightarrow> Inr (foldl (\<lambda>out (k, v). AList.update k (param_text v) out) [] fs)
            | Some _ \<Rightarrow> Inl (thrown_error (t ''strategy.schedules.validation.parametersMustBeJsonObject''))))"

definition merge_params :: "(string \<times> string) list \<Rightarrow> (string \<times> string) list \<Rightarrow> (string \<times> string) list" where
  "merge_params params form = foldl (\<lambda>out (k, v). AList.update k v out) params form"

definition form_type :: "edit_form \<Rightarrow> string" where
  "form_type f = (if ef_type f = [] then ''kline_close'' else ef_type f)"

text \<open>\<open>BigInt(Math.max(lo, Math.floor(Number(v || d))))\<close>; \<open>None\<close> where \<open>BigInt\<close> throws.\<close>

definition whole_ms :: "int \<Rightarrow> jsnum \<Rightarrow> jsnum option \<Rightarrow> int option" where
  "whole_ms lo d v =
     (case (case v of Some n \<Rightarrow> if truthy (JNum n) then n else d | None \<Rightarrow> d) of
        Fin q \<Rightarrow> Some (max lo \<lfloor>q\<rfloor>) | MInf \<Rightarrow> Some lo | _ \<Rightarrow> None)"

definition form_config :: "edit_form \<Rightarrow> jv option" where
  "form_config f =
     (let interval = (if form_type f = ''interval'' then whole_ms 1000 (Fin 300000) (ef_interval_ms f) else Some 0);
          cooldown = (if form_type f = ''hf_quote'' then whole_ms 100 (Fin 1000) (ef_hf_cooldown_ms f) else Some 0)
      in case (interval, cooldown) of
           (Some i, Some c) \<Rightarrow> Some (JObj
             [(''cronExpression'', JStr []), (''intervalMs'', JBig i), (''eventTrigger'', JStr []),
              (''triggerMode'', JStr (if form_type f = ''hf_quote'' then ''hf_quote_stream'' else ''stable_kline'')),
              (''stableOverrideIntervalMs'', JBig 0), (''hfCooldownMs'', JBig c)])
         | _ \<Rightarrow> None)"

definition backend_type :: "edit_form \<Rightarrow> string" where
  "backend_type f = (if form_type f = ''interval'' then ''interval'' else ''cron'')"

subsection \<open>Saving\<close>

record default_template =
  dt_id :: string
  dt_name :: string
  dt_description :: string
  dt_code :: string
  dt_public :: bool

datatype page_effect =
    PeToast toast
  | PeLoading bool
  | PeUpdate update_schedule_request
  | PeCreateTemplate create_template_request
  | PeCreate create_schedule_request
  | PeToggle string bool
  | PeDelete string
  | PeCloseEdit
  | PeRefresh

definition message_or :: "(string \<Rightarrow> string) \<Rightarrow> jv \<Rightarrow> string \<Rightarrow> toast" where
  "message_or t e key = ToastError (js_string (js_or (jget ''message'' e) (JStr (t key))))"

definition save_done :: "(string \<Rightarrow> string) \<Rightarrow> string \<Rightarrow> page_effect list" where
  "save_done t key = [PeToast (ToastSuccess (t key)), PeCloseEdit, PeRefresh, PeLoading False]"

definition save_failed :: "(string \<Rightarrow> string) \<Rightarrow> jv \<Rightarrow> page_effect list" where
  "save_failed t e = [PeToast (message_or t e ''common.saveFailed''), PeLoading False]"

definition save_update ::
    "(string \<Rightarrow> string) \<Rightarrow> string \<Rightarrow> edit_form \<Rightarrow> (string \<times> string) list \<Rightarrow> jv \<Rightarrow> unit outcome \<Rightarrow> page_effect list" where
  "save_update t sid f merged config updated =
     PeUpdate (update_schedule sid (ef_name f) (ef_symbol f) (ef_timeframe f) (Some merged) (Some (backend_type f)) config) #
     (case updated of Inr _ \<Rightarrow> save_done t ''common.updated'' | Inl e \<Rightarrow> save_failed t e)"

text \<open>The import of a default template: its requests, and the id of the template or what is thrown.\<close>

definition import_template ::
    "(string \<Rightarrow> string) \<Rightarrow> default_template list \<Rightarrow> string \<Rightarrow> jv outcome \<Rightarrow> page_effect list \<times> string outcome" where
  "import_template t defaults tid template =
     (if \<not> js_starts tid ''default-'' then ([], Inr tid)
      else case List.find (\<lambda>d. dt_id d = tid) defaults of
          None \<Rightarrow> ([], Inl (thrown_error (t ''strategy.schedules.messages.defaultTemplateNotFound'')))
        | Some d \<Rightarrow>
            ([PeCreateTemplate (create_template (dt_name d) (dt_description d) (dt_code d) (Some [])
                (Some (dt_public d)) (Some []))],
             case template of
               Inl e \<Rightarrow> Inl e
             | Inr created \<Rightarrow>
                 if truthy (jget ''id'' created) then Inr (js_string (jget ''id'' created))
                 else Inl (thrown_error (t ''strategy.schedules.messages.importDefaultTemplateFailedNoId''))))"

definition after_create ::
    "(string \<Rightarrow> string) \<Rightarrow> edit_form \<Rightarrow> jv outcome \<Rightarrow> unit outcome \<Rightarrow> page_effect list" where
  "after_create t f created toggled =
     (case created of
        Inl e \<Rightarrow> save_failed t e
      | Inr s \<Rightarrow>
          (let sid = js_string (js_or (jget ''id'' s) (JStr []))
           in if ef_active f \<and> sid \<noteq> []
              then PeToggle sid True #
                (case toggled of Inr _ \<Rightarrow> save_done t ''common.created'' | Inl e \<Rightarrow> save_failed t e)
              else save_done t ''common.created''))"

definition save_create ::
    "(string \<Rightarrow> string) \<Rightarrow> default_template list \<Rightarrow> edit_form \<Rightarrow> (string \<times> string) list \<Rightarrow> jv \<Rightarrow>
     jv outcome \<Rightarrow> jv outcome \<Rightarrow> unit outcome \<Rightarrow> page_effect list" where
  "save_create t defaults f merged config template created toggled =
     (case import_template t defaults (text_or_empty (ef_template_id f)) template of
        (es, Inl e) \<Rightarrow> es @ save_failed t e
      | (es, Inr tid) \<Rightarrow>
          es @ [PeCreate (create_schedule tid (text_or_empty (ef_account_id f)) (text_or_empty (ef_name f))
            (text_or_empty (ef_symbol f)) (text_or_empty (ef_timeframe f)) (Some merged) (backend_type f) config)] @
          after_create t f created toggled)"

text \<open>
  The whole of \<open>submitEdit\<close>.  A form that breaks a rule sends nothing, and neither does one whose
  parameters cannot be read.
\<close>

record save_answers =
  sa_updated :: "unit outcome"
  sa_template :: "jv outcome"
  sa_created :: "jv outcome"
  sa_toggled :: "unit outcome"

definition submit_edit ::
    "(string \<Rightarrow> string) \<Rightarrow> (string \<Rightarrow> string) \<Rightarrow> default_template list \<Rightarrow> jv \<Rightarrow> edit_form \<Rightarrow> save_answers \<Rightarrow>
     page_effect list" where
  "submit_edit t syntax_error defaults editing f ans =
     (let eid = jget ''id'' editing
      in if \<not> edit_valid (\<not> truthy eid) f then []
         else case parse_parameters t syntax_error (ef_parameters_json f) of
             Inl e \<Rightarrow> [PeToast (message_or t e ''strategy.schedules.messages.parametersParseFailed'')]
           | Inr params \<Rightarrow>
               (case form_config f of
                  None \<Rightarrow> []
                | Some config \<Rightarrow>
                    (let merged = merge_params params (build_parameters_from_form (ef_risk f))
                     in PeLoading True #
                       (if truthy eid
                        then save_update t (js_string eid) f merged config (sa_updated ans)
                        else save_create t defaults f merged config (sa_template ans) (sa_created ans) (sa_toggled ans)))))"

subsection \<open>The other operations on a schedule\<close>

definition toggle_active ::
    "(string \<Rightarrow> string) \<Rightarrow> string \<Rightarrow> bool \<Rightarrow> unit outcome \<Rightarrow> page_effect list" where
  "toggle_active t sid activate answer =
     [PeLoading True, PeToggle sid activate] @
     (case answer of
        Inr _ \<Rightarrow> [PeToast (ToastSuccess (t (if activate then ''common.enabled'' else ''common.disabled''))), PeRefresh]
      | Inl e \<Rightarrow> [PeToast (message_or t e ''common.operationFailed'')]) @ [PeLoading False]"

definition delete_schedule :: "(string \<Rightarrow> string) \<Rightarrow> string \<Rightarrow> unit outcome \<Rightarrow> page_effect list" where
  "delete_schedule t sid answer =
     [PeLoading True, PeDelete sid] @
     (case answer of
        Inr _ \<Rightarrow> [PeToast (ToastSuccess (t ''common.deleted'')), PeRefresh]
      | Inl e \<Rightarrow> [PeToast (message_or t e ''common.deleteFailed'')]) @ [PeLoading False]"

end
