(* ===== verification/ScheduleSaving.thy ===== *)
theory ScheduleSaving
  imports ScheduleEdit
begin

text \<open>
  What saving a schedule guarantees, and what becomes of a schedule that is opened for editing.
\<close>

subsection \<open>The text of the parameters\<close>

lemma json_ws_space [simp]: "json_ws CHR '' ''" "json_ws CHR 0x0A"
  by (simp_all add: json_ws_def)

lemma skip_ws_ws [simp]: "json_ws c \<Longrightarrow> skip_ws (c # s) = skip_ws s"
  by (simp add: skip_ws_def)

lemma json_value_text: "json_value (CHR '' '' # CHR 0x22 # concat (List.map escape_char s) @ CHR 0x22 # r) = Some (JStr s, r)"
  by (simp add: string_rest_quote)

lemma json_fields_pretty:
  assumes "fs \<noteq> []" and "distinct (List.map fst (acc @ List.map (\<lambda>(k, v). (k, JStr v)) fs))"
  shows "json_fields (newline @ js_join ('','' @ newline) (List.map pretty_field (List.map (\<lambda>(k, v). (k, JStr v)) fs)) @
      newline @ CHR ''}'' # r) acc = Some (JObj (acc @ List.map (\<lambda>(k, v). (k, JStr v)) fs), r)"
  using assms
proof (induction fs arbitrary: acc)
  case Nil
  then show ?case by simp
next
  case (Cons f fs)
  obtain k v where f: "f = (k, v)" by (cases f)
  have fresh: "AList.update k (JStr v) acc = acc @ [(k, JStr v)]"
    using Cons.prems(2) by (intro alist_update_fresh) (auto simp: f)
  show ?case
  proof (cases fs)
    case Nil
    then show ?thesis
      by (simp add: f pretty_field_def json_quote_def string_rest_quote json_value_text fresh del: json_value.simps)
  next
    case (Cons g gs)
    have "json_fields (newline @ js_join ('','' @ newline) (List.map pretty_field (List.map (\<lambda>(k, v). (k, JStr v)) fs)) @
        newline @ CHR ''}'' # r) (acc @ [(k, JStr v)]) =
      Some (JObj ((acc @ [(k, JStr v)]) @ List.map (\<lambda>(k, v). (k, JStr v)) fs), r)"
      using Cons.prems Cons by (intro Cons.IH) (auto simp: f)
    then show ?thesis
      using Cons by (simp add: f pretty_field_def json_quote_def string_rest_quote json_value_text fresh
          del: json_value.simps json_fields.simps(1) add: json_fields.simps [of "CHR 0x0A # CHR '' '' # s" for s])
  qed
qed

lemma parse_pretty:
  assumes "distinct (List.map fst ps)"
  shows "json_parse (pretty_params (List.map (\<lambda>(k, v). (k, JStr v)) ps)) = Some (JObj (List.map (\<lambda>(k, v). (k, JStr v)) ps))"
proof (cases ps)
  case Nil
  then show ?thesis by (simp add: pretty_params_def json_parse_def skip_ws_def)
next
  case (Cons p qs)
  obtain k v where p: "p = (k, v)" by (cases p)
  let ?fs = "List.map (\<lambda>(k, v). (k, JStr v)) ps"
  let ?body = "newline @ js_join ('','' @ newline) (List.map pretty_field ?fs) @ newline @ ''}''"
  have d: "distinct (List.map fst ([] @ ?fs))" using assms by (simp add: case_prod_beta comp_def)
  have f: "json_fields ?body [] = Some (JObj ?fs, [])"
    using json_fields_pretty [of ps "[]" "[]", OF _ d] Cons by simp
  have q: "\<exists>b. skip_ws ?body = CHR 0x22 # b"
    using Cons p by (cases qs) (simp_all add: pretty_field_def json_quote_def)
  have "json_value (CHR ''{'' # ?body) = Some (JObj ?fs, [])"
    using f q by (auto simp del: json_fields.simps)
  then show ?thesis using Cons by (simp add: pretty_params_def json_parse_def skip_ws_def del: json_value.simps)
qed

subsection \<open>Opening a stored schedule\<close>

text \<open>A schedule as the server gives it back: the values of the request, and an id.\<close>

definition config_value :: "schedule_config \<Rightarrow> jv" where
  "config_value c = JObj [(''cronExpression'', JStr (sc_cron_expression c)), (''intervalMs'', JBig (sc_interval_ms c)),
     (''eventTrigger'', JStr (sc_event_trigger c)), (''triggerMode'', JStr (sc_trigger_mode c)),
     (''stableOverrideIntervalMs'', JBig (sc_stable_override_interval_ms c)), (''hfCooldownMs'', JBig (sc_hf_cooldown_ms c))]"

definition stored_row :: "string \<Rightarrow> create_schedule_request \<Rightarrow> jv" where
  "stored_row sid rq = JObj [(''id'', JStr sid), (''templateId'', JStr (cq_template_id rq)),
     (''accountId'', JStr (cq_account_id rq)), (''name'', JStr (cq_name rq)), (''symbol'', JStr (cq_symbol rq)),
     (''timeframe'', JStr (cq_timeframe rq)), (''parameters'', stored_params (cq_parameters rq)),
     (''scheduleType'', JStr (cq_schedule_type rq)), (''scheduleConfig'', config_value (cq_schedule_config rq))]"

lemma stored_row_fields [simp]:
  "jget ''id'' (stored_row sid rq) = JStr sid" "jget ''name'' (stored_row sid rq) = JStr (cq_name rq)"
  "jget ''symbol'' (stored_row sid rq) = JStr (cq_symbol rq)" "jget ''timeframe'' (stored_row sid rq) = JStr (cq_timeframe rq)"
  "jget ''templateId'' (stored_row sid rq) = JStr (cq_template_id rq)"
  "jget ''accountId'' (stored_row sid rq) = JStr (cq_account_id rq)"
  "jget ''parameters'' (stored_row sid rq) = stored_params (cq_parameters rq)"
  "jget ''scheduleType'' (stored_row sid rq) = JStr (cq_schedule_type rq)"
  "jget ''scheduleConfig'' (stored_row sid rq) = config_value (cq_schedule_config rq)"
  by (simp_all add: stored_row_def jget_def)

lemma config_value_fields [simp]:
  "jget ''intervalMs'' (config_value c) = JBig (sc_interval_ms c)"
  "jget ''hfCooldownMs'' (config_value c) = JBig (sc_hf_cooldown_ms c)"
  "jget ''triggerMode'' (config_value c) = JStr (sc_trigger_mode c)" "truthy (config_value c)"
  by (simp_all add: config_value_def jget_def)

lemma truthy_stored_params [simp]: "truthy (stored_params ps)" "jfields (stored_params ps) = List.map (\<lambda>(k, v). (k, JStr v)) ps"
  by (simp_all add: stored_params_def)

definition schedule_of :: "string \<Rightarrow> edit_form \<Rightarrow> (string \<times> string) list \<Rightarrow> jv \<Rightarrow> create_schedule_request" where
  "schedule_of tid f ps config = create_schedule tid (text_or_empty (ef_account_id f)) (text_or_empty (ef_name f))
     (text_or_empty (ef_symbol f)) (text_or_empty (ef_timeframe f)) (Some ps) (backend_type f) config"

lemma form_config_values:
  assumes "form_config f = Some config"
  shows "sc_interval_ms (normalize_schedule_config config) =
      (if form_type f = ''interval'' then the (whole_ms 1000 (Fin 300000) (ef_interval_ms f)) else 0)"
    "sc_hf_cooldown_ms (normalize_schedule_config config) =
      (if form_type f = ''hf_quote'' then the (whole_ms 100 (Fin 1000) (ef_hf_cooldown_ms f)) else 0)"
    "sc_trigger_mode (normalize_schedule_config config) =
      (if form_type f = ''hf_quote'' then ''hf_quote_stream'' else ''stable_kline'')"
  using assms by (auto simp: form_config_def Let_def normalize_schedule_config_def jget_def to_bigint_def config_text_def
      js_coalesce_def split: option.splits if_splits)

lemma lower_types [simp]: "js_lower ''interval'' = ''interval''" "js_lower ''cron'' = ''cron''"
  by code_simp+

text \<open>
  A schedule that runs on closed bars or on quotes is stored with the type \<open>cron\<close>, which the edit form
  reads as an interval of 0 ms: it opens as an interval schedule, and cannot be saved as it is.
\<close>

theorem edit_shows_interval:
  fixes sid tid ps
  assumes "form_config f = Some config" "form_type f \<noteq> ''interval''"
  defines "g \<equiv> update_form (stored_row sid (schedule_of tid f ps config))"
  shows "ef_type g = ''interval'' \<and> ef_interval_ms g = Some (Fin 0) \<and> \<not> edit_valid False g"
proof -
  have "ef_type g = ''interval''"
    using assms(2) by (simp add: g_def update_form_def Let_def shown_type_def schedule_of_def create_schedule_def backend_type_def js_or_def)
  moreover have "ef_interval_ms g = Some (Fin 0)"
    using form_config_values(1) [OF assms(1)] assms(2)
    by (simp add: g_def update_form_def Let_def schedule_of_def create_schedule_def js_or_def config_number_def)
  ultimately show ?thesis by (simp add: edit_valid_def at_least_def)
qed

subsection \<open>Editing\<close>

lemma foldl_update_fresh:
  "distinct (List.map fst (out @ ps)) \<Longrightarrow> foldl (\<lambda>out (k, v). AList.update k v out) out ps = out @ ps"
proof (induction ps arbitrary: out)
  case (Cons p ps)
  obtain k v where p: "p = (k, v)" by (cases p)
  have "AList.update k v out = out @ [(k, v)]"
    using Cons.prems by (intro alist_update_fresh) (auto simp: p)
  with Cons show ?case by (simp add: p)
qed simp

lemma js_trim_brace: "js_trim (CHR ''{'' # s) \<noteq> []"
proof
  assume "js_trim (CHR ''{'' # s) = []"
  then have "js_ws CHR ''{''" by (rule js_trim_Nil_ws) simp
  then show False by (simp add: js_ws_def)
qed

lemma parse_parameters_pretty:
  assumes "distinct (List.map fst ps)"
  shows "parse_parameters t syntax_error (Some (pretty_params (List.map (\<lambda>(k, v). (k, JStr v)) ps))) = Inr ps"
proof -
  obtain s where s: "pretty_params (List.map (\<lambda>(k, v). (k, JStr v)) ps) = CHR ''{'' # s"
    by (cases ps) (simp_all add: pretty_params_def)
  have "foldl (\<lambda>out (k, v). AList.update k (param_text v) out) out (List.map (\<lambda>(k, v). (k, JStr v)) ps) =
      foldl (\<lambda>out (k, v). AList.update k v out) out ps" for out
    by (induction ps arbitrary: out) (auto simp: param_text_def)
  then show ?thesis
    using parse_pretty [OF assms] foldl_update_fresh [of "[]" ps] assms
    by (simp add: parse_parameters_def s js_trim_brace)
qed

definition risk_keys :: "string list" where
  "risk_keys = [''__risk.default_volume'', ''__risk.max_positions'', ''__risk.stop_loss_price_offset'',
     ''__risk.take_profit_price_offset'', ''__risk.max_drawdown_pct'']"

lemma built_from_risk: "map_of (build_parameters_from_form (risk_fields p)) k \<noteq> None \<Longrightarrow> k \<in> set risk_keys"
  unfolding build_parameters_from_form_def map_of_set_entries [OF form_keys]
  by (simp add: form_entries_def risk_fields_def empty_form_def text_if_def risk_keys_def split: if_splits)

lemma merge_params_keep:
  "map_of ds k = None \<Longrightarrow> map_of (merge_params ps ds) k = map_of ps k"
  unfolding merge_params_def
  by (induction ds arbitrary: ps) (auto simp: update_conv' split: if_splits)

lemma build_empty [simp]: "build_parameters_from_form (risk_fields empty_form) = []"
  by (simp add: build_parameters_from_form_def form_entries_def risk_fields_def empty_form_def text_if_def set_entry_def)

lemma symbol_view [simp]:
  "form_type (f\<lparr>ef_symbol := v\<rparr>) = form_type f" "form_config (f\<lparr>ef_symbol := v\<rparr>) = form_config f"
  "backend_type (f\<lparr>ef_symbol := v\<rparr>) = backend_type f"
  by (simp_all add: form_type_def form_config_def backend_type_def)

text \<open>What the reading of the symbols makes of the symbol of a form that was opened with it.\<close>

lemma opened_symbol:
  assumes "filled (ef_account_id (update_form row))" "sy_tasks sy = []"
  defines "p \<equiv> open_update row sy" and "symbol \<equiv> text_or_empty (ef_symbol (update_form row))"
  shows "fst p = update_form row"
    and "ef_symbol (form_shown (fst p) (symbols_answered (sy_next sy) answer (snd p))) =
      Some (case answer of Inl _ \<Rightarrow> []
        | Inr rows \<Rightarrow> if symbol_options rows \<noteq> [] \<and> (symbol = [] \<or> symbol \<notin> set (symbol_options rows))
            then hd (symbol_options rows) else symbol)"
proof -
  have "text_or_empty (ef_account_id (update_form row)) \<noteq> []"
    using assms(1) by (auto simp: filled_def text_or_empty_def split: option.splits)
  then show "fst p = update_form row"
    and "ef_symbol (form_shown (fst p) (symbols_answered (sy_next sy) answer (snd p))) =
      Some (case answer of Inl _ \<Rightarrow> []
        | Inr rows \<Rightarrow> if symbol_options rows \<noteq> [] \<and> (symbol = [] \<or> symbol \<notin> set (symbol_options rows))
            then hd (symbol_options rows) else symbol)"
    using assms(2) by (auto simp: p_def symbol_def open_update_def form_shown_def load_symbols_def symbols_answered_def Let_def
        split: sum.split)
qed

lemma stored_form_fields:
  fixes sid tid ps config
  assumes "filled (ef_name f)" "filled (ef_symbol f)" "filled (ef_timeframe f)" "filled (ef_account_id f)"
  defines "g \<equiv> update_form (stored_row sid (schedule_of tid f ps config))"
  shows "ef_name g = ef_name f" "ef_symbol g = ef_symbol f" "ef_timeframe g = ef_timeframe f" "ef_account_id g = ef_account_id f"
    and "ef_parameters_json g = Some (pretty_params (List.map (\<lambda>(k, v). (k, JStr v)) ps))" "\<exists>p. ef_risk g = risk_fields p"
  using assms(1-4) by (auto simp: g_def update_form_def Let_def text_field_def schedule_of_def create_schedule_def
      filled_def text_or_empty_def or_list_def split: option.splits)

lemma stored_interval:
  fixes sid tid ps config
  assumes "ef_type f = ''interval''" "form_config f = Some config"
  defines "g \<equiv> update_form (stored_row sid (schedule_of tid f ps config))"
  shows "form_type g = ''interval''" "form_config g = Some config"
proof -
  have ft: "form_type f = ''interval''" using assms(1) by (simp add: form_type_def)
  obtain i where i: "whole_ms 1000 (Fin 300000) (ef_interval_ms f) = Some i"
    and config: "config = JObj [(''cronExpression'', JStr []), (''intervalMs'', JBig i), (''eventTrigger'', JStr []),
      (''triggerMode'', JStr ''stable_kline''), (''stableOverrideIntervalMs'', JBig 0), (''hfCooldownMs'', JBig 0)]"
    using assms(2) ft by (auto simp: form_config_def Let_def split: option.splits)
  have lo: "1000 \<le> i" using i by (auto simp: whole_ms_def split: option.splits jsnum.splits if_splits)
  have g: "ef_type g = ''interval''" "ef_interval_ms g = Some (Fin (of_int i))"
    using form_config_values(1) [OF assms(2)] ft i
    by (simp_all add: g_def update_form_def Let_def shown_type_def schedule_of_def create_schedule_def backend_type_def
        js_or_def config_number_def)
  then show "form_type g = ''interval''" "form_config g = Some config"
    using lo by (simp_all add: form_config_def form_type_def whole_ms_def config max_def)
qed


text \<open>
  Otherwise the form that is opened does not keep the symbol: an account that no longer lists it gives the form its
  first symbol, which an unchanged save then stores, and symbols that cannot be read empty the field.
\<close>

theorem opened_symbol_replaced:
  assumes "filled (ef_account_id (update_form row))" "sy_tasks sy = []"
    and "symbol_options rows \<noteq> []" "text_or_empty (ef_symbol (update_form row)) \<notin> set (symbol_options rows)"
  shows "ef_symbol (form_shown (fst (open_update row sy)) (symbols_answered (sy_next sy) (Inr rows) (snd (open_update row sy)))) =
      Some (hd (symbol_options rows)) \<and>
    \<not> edit_valid False (form_shown (fst (open_update row sy)) (symbols_answered (sy_next sy) (Inl e) (snd (open_update row sy))))"
  using opened_symbol(2) [OF assms(1,2), of "Inr rows"] opened_symbol(2) [OF assms(1,2), of "Inl e"] assms(3,4)
  by (simp add: edit_valid_def filled_def)

text \<open>
  Clearing all risk fields of a schedule and saving it stores exactly the old parameters, risk settings
  included: the text of the parameters still has them, and an empty field writes nothing over it.
\<close>

theorem cleared_risk_fields_stay:
  fixes sid tid ps f config
  assumes "distinct (List.map fst ps)" "sid \<noteq> []"
  defines "g \<equiv> (update_form (stored_row sid (schedule_of tid f ps config)))\<lparr>ef_risk := risk_fields empty_form\<rparr>"
  assumes "edit_valid False g" "form_config g = Some config'"
  shows "\<exists>rq. PeUpdate rq \<in> set (submit_edit t syntax_error defaults (stored_row sid (schedule_of tid f ps config)) g ans) \<and>
    uq_parameters rq = Some ps"
proof -
  have "ef_parameters_json g = Some (pretty_params (List.map (\<lambda>(k, v). (k, JStr v)) ps))" "ef_risk g = risk_fields empty_form"
    by (simp_all add: g_def update_form_def Let_def schedule_of_def create_schedule_def or_list_def)
  moreover have "merge_params ps [] = ps" by (simp add: merge_params_def)
  ultimately show ?thesis
    using assms(2,4,5) parse_parameters_pretty [OF assms(1), of t syntax_error]
    by (intro exI [of _ "update_schedule sid (ef_name g) (ef_symbol g) (ef_timeframe g) (Some ps)
        (Some (backend_type g)) config'"]) (simp add: submit_edit_def save_update_def, simp add: update_schedule_def)
qed

subsection \<open>Outcomes\<close>

definition creates :: "page_effect \<Rightarrow> bool" where
  "creates e = (case e of PeCreate _ \<Rightarrow> True | _ \<Rightarrow> False)"

definition succeeds :: "page_effect \<Rightarrow> bool" where
  "succeeds e = (case e of PeToast (ToastSuccess _) \<Rightarrow> True | _ \<Rightarrow> False)"

definition updates :: "page_effect \<Rightarrow> bool" where
  "updates e = (case e of PeUpdate _ \<Rightarrow> True | _ \<Rightarrow> False)"

lemmas effect_tests = creates_def succeeds_def updates_def

definition settled :: "page_effect list \<Rightarrow> bool" where
  "settled es \<longleftrightarrow> es \<noteq> [] \<and> last es = PeLoading False \<and> filter creates es = [] \<and> filter updates es = [] \<and>
     (PeCloseEdit \<in> set es \<longleftrightarrow> filter succeeds es \<noteq> [])"

lemma settled_ends [simp]: "settled (save_done t key)" "settled (save_failed t e)" "settled (PeToggle i b # es) = settled es"
  by (auto simp: settled_def save_done_def save_failed_def message_or_def effect_tests)

lemma settled_after_create: "settled (after_create t f created toggled)"
  by (auto simp: after_create_def Let_def split: sum.splits)

lemma saved_update:
  obtains rq es where "save_update t sid f merged config updated = PeUpdate rq # es" "settled es"
  by (rule that) (auto simp: save_update_def split: sum.split)

lemma saved_create:
  obtains (stopped) es where "save_create t defaults f merged config template created toggled = es" "settled es"
  | (imported) rq es where "save_create t defaults f merged config template created toggled = PeCreateTemplate rq # es" "settled es"
  | (created) rq es where "save_create t defaults f merged config template created toggled = PeCreate rq # es" "settled es"
  | (both) rq rq' es where
      "save_create t defaults f merged config template created toggled = PeCreateTemplate rq # PeCreate rq' # es" "settled es"
proof -
  obtain ts r where i: "import_template t defaults (text_or_empty (ef_template_id f)) template = (ts, r)" by fastforce
  then have "ts = [] \<or> (\<exists>rq. ts = [PeCreateTemplate rq])"
    by (auto simp: import_template_def split: if_splits option.splits)
  then show thesis
    using settled_after_create [of t f created toggled] i stopped imported created both
    by (cases r) (auto simp: save_create_def)
qed

definition edit_result_ok :: "page_effect list \<Rightarrow> bool" where
  "edit_result_ok es \<longleftrightarrow> length (filter creates es) + length (filter updates es) \<le> 1 \<and>
     (es = [] \<or> (\<exists>m. es = [PeToast (ToastError m)]) \<or> hd es = PeLoading True \<and> last es = PeLoading False) \<and>
     (PeCloseEdit \<in> set es \<longleftrightarrow> filter succeeds es \<noteq> [])"

lemma edit_result_settled:
  assumes "settled es" "length (filter creates p) + length (filter updates p) \<le> 1" "PeCloseEdit \<notin> set p"
    "filter succeeds p = []"
  shows "edit_result_ok (PeLoading True # p @ es)"
  using assms by (auto simp: settled_def edit_result_ok_def effect_tests)

text \<open>
  C26. Saving a schedule creates or updates at most one schedule, lowers the busy mark that it raised, and
  closes the form exactly when it reports success.
\<close>

theorem edit_outcomes: "edit_result_ok (submit_edit t syntax_error defaults editing f ans)"
proof -
  let ?eid = "jget ''id'' editing"
  have "edit_result_ok (PeLoading True # save_update t sid f merged config updated)" for sid merged config updated
  proof (cases rule: saved_update [of t sid f merged config updated])
    case (1 rq es)
    then show ?thesis using edit_result_settled [of es "[PeUpdate rq]"] by (simp add: effect_tests)
  qed
  moreover have "edit_result_ok (PeLoading True # save_create t defaults f merged config template created toggled)"
    for merged config template created toggled
  proof (cases rule: saved_create [of t defaults f merged config template created toggled])
    case (stopped es)
    then show ?thesis using edit_result_settled [of es "[]"] by simp
  next
    case (imported rq es)
    then show ?thesis using edit_result_settled [of es "[PeCreateTemplate rq]"] by (simp add: effect_tests)
  next
    case (created rq es)
    then show ?thesis using edit_result_settled [of es "[PeCreate rq]"] by (simp add: effect_tests)
  next
    case (both rq rq' es)
    then show ?thesis using edit_result_settled [of es "[PeCreateTemplate rq, PeCreate rq']"] by (simp add: effect_tests)
  qed
  moreover have "edit_result_ok []" "edit_result_ok [PeToast (message_or t e k)]" for e k
    by (simp_all add: edit_result_ok_def effect_tests message_or_def)
  ultimately show ?thesis
    by (simp add: submit_edit_def Let_def split: sum.split option.split)
qed

text \<open>
  Where a schedule is created and enabling it fails, the form stays open as a form for a new schedule,
  and saving again creates the same schedule a second time.
\<close>

theorem failed_enable_creates_again:
  assumes "ef_active f" "js_string (js_or (jget ''id'' s) (JStr [])) \<noteq> []" "Inl e = sa_toggled ans" "Inr s = sa_created ans"
    and "edit_valid True f" "parse_parameters t syntax_error (ef_parameters_json f) = Inr params" "form_config f = Some config"
    and "\<not> js_starts (text_or_empty (ef_template_id f)) ''default-''"
  shows "\<exists>rq. filter creates (submit_edit t syntax_error defaults JNull f ans @
      submit_edit t syntax_error defaults JNull f ans) = [PeCreate rq, PeCreate rq] \<and>
    PeCloseEdit \<notin> set (submit_edit t syntax_error defaults JNull f ans)"
  using assms(1,2,5-8) assms(3,4) [symmetric]
  by (simp add: submit_edit_def jget_def save_create_def import_template_def after_create_def Let_def save_failed_def
      message_or_def effect_tests)

subsection \<open>Examples\<close>

definition demo_edit :: edit_form where
  "demo_edit = create_form\<lparr>ef_template_id := Some ''t1'', ef_account_id := Some ''a1'', ef_name := Some ''n'',
     ef_symbol := Some ''EURUSD'', ef_type := ''interval'', ef_parameters_json := Some ''{}''\<rparr>"

definition demo_config :: jv where
  "demo_config = JObj [(''cronExpression'', JStr []), (''intervalMs'', JBig 300000), (''eventTrigger'', JStr []),
      (''triggerMode'', JStr ''stable_kline''), (''stableOverrideIntervalMs'', JBig 0), (''hfCooldownMs'', JBig 0)]"

definition demo_kline :: edit_form where
  "demo_kline = demo_edit\<lparr>ef_type := ''kline_close''\<rparr>"

lemma demo_edit_facts:
  "form_config demo_edit = Some demo_config" "ef_type demo_edit = ''interval''" "filled (ef_name demo_edit)"
  "filled (ef_symbol demo_edit)" "filled (ef_timeframe demo_edit)" "form_config demo_kline \<noteq> None"
  "form_type demo_kline \<noteq> ''interval''" "edit_valid True demo_edit" "ef_active demo_edit"
  "parse_parameters id id (ef_parameters_json demo_edit) = Inr []"
  "\<not> js_starts (text_or_empty (ef_template_id demo_edit)) ''default-''"
  by code_simp+

theorem edit_shows_interval_witness:
  "\<exists>config. form_config demo_kline = Some config \<and>
     ef_type (update_form (stored_row ''s'' (schedule_of ''t1'' demo_kline [] config))) = ''interval''"
  using demo_edit_facts(6,7) edit_shows_interval [of demo_kline _ "''s''" "''t1''" "[]"] by blast

definition demo_symbols :: symbols_state where
  "demo_symbols = \<lparr>sy_symbols = [], sy_loading = False, sy_account = [], sy_symbol = [], sy_tasks = [], sy_next = 0\<rparr>"


theorem opened_symbol_replaced_witness:
  "let row = stored_row ''s'' (schedule_of ''t1'' demo_edit [] demo_config); p = open_update row demo_symbols
   in ef_symbol (form_shown (fst p) (symbols_answered 0 (Inr [JObj [(''symbol'', JStr ''OTHER'')]]) (snd p))) = Some ''OTHER''"
proof -
  let ?row = "stored_row ''s'' (schedule_of ''t1'' demo_edit [] demo_config)"
  have o: "symbol_options [JObj [(''symbol'', JStr ''OTHER'')]] = [''OTHER'']" by code_simp
  have "filled (ef_account_id (update_form ?row))" "text_or_empty (ef_symbol (update_form ?row)) \<notin> set [''OTHER'']" by code_simp+
  moreover have "sy_tasks demo_symbols = []" "sy_next demo_symbols = 0" by (simp_all add: demo_symbols_def)
  ultimately show ?thesis
    using opened_symbol_replaced [of ?row demo_symbols "[JObj [(''symbol'', JStr ''OTHER'')]]" JNull] by (simp add: Let_def o)
qed

theorem cleared_risk_fields_stay_witness:
  "\<exists>rq. PeUpdate rq \<in> set (submit_edit id id [] (stored_row ''s'' (schedule_of ''t1'' demo_edit
       [(''__risk.stop_loss_price_offset'', ''0.002'')] demo_config))
       ((update_form (stored_row ''s'' (schedule_of ''t1'' demo_edit [(''__risk.stop_loss_price_offset'', ''0.002'')] demo_config)))
          \<lparr>ef_risk := risk_fields empty_form\<rparr>)
       \<lparr>sa_updated = Inr (), sa_template = Inr JNull, sa_created = Inr JNull, sa_toggled = Inr ()\<rparr>) \<and>
     uq_parameters rq = Some [(''__risk.stop_loss_price_offset'', ''0.002'')]"
proof -
  let ?ps = "[(''__risk.stop_loss_price_offset'', ''0.002'')]"
  let ?g = "(update_form (stored_row ''s'' (schedule_of ''t1'' demo_edit ?ps demo_config)))\<lparr>ef_risk := risk_fields empty_form\<rparr>"
  have "distinct (List.map fst ?ps)" "''s'' \<noteq> []" by simp_all
  moreover have "edit_valid False ?g" "form_config ?g = Some demo_config" by code_simp+
  ultimately show ?thesis by (rule cleared_risk_fields_stay)
qed

theorem failed_enable_creates_again_witness:
  "\<exists>rq. filter creates (submit_edit id id [] JNull demo_edit \<lparr>sa_updated = Inr (), sa_template = Inr JNull,
       sa_created = Inr (JObj [(''id'', JStr ''s'')]), sa_toggled = Inl (JStr ''timeout'')\<rparr> @
     submit_edit id id [] JNull demo_edit \<lparr>sa_updated = Inr (), sa_template = Inr JNull,
       sa_created = Inr (JObj [(''id'', JStr ''s'')]), sa_toggled = Inl (JStr ''timeout'')\<rparr>) = [PeCreate rq, PeCreate rq]"
proof -
  let ?ans = "\<lparr>sa_updated = Inr (), sa_template = Inr JNull, sa_created = Inr (JObj [(''id'', JStr ''s'')]),
    sa_toggled = Inl (JStr ''timeout'')\<rparr>"
  have s: "js_string (js_or (jget ''id'' (JObj [(''id'', JStr ''s'')])) (JStr [])) \<noteq> []" by code_simp
  have "Inl (JStr ''timeout'') = sa_toggled ?ans" "Inr (JObj [(''id'', JStr ''s'')]) = sa_created ?ans" by simp_all
  from failed_enable_creates_again [OF demo_edit_facts(9) s this demo_edit_facts(8,10,1,11), of "[]"] show ?thesis by blast
qed

end
