(* ===== verification/SchedulePage.thy ===== *)
theory SchedulePage
  imports ScheduleSymbols TradingHook
begin

text \<open>
  The schedule page around the form (\<open>pages/strategy/StrategySchedulePage.tsx\<close>): the templates that are offered,
  what the reading of symbols comes to, and the manual trigger, which runs the strategy of a schedule once and sends an order
  for its signal (with \<open>components/TriggerModal.tsx\<close>).
\<close>

subsection \<open>Templates\<close>

definition templates_for_select :: "jv list \<Rightarrow> jv list \<Rightarrow> jv list" where
  "templates_for_select templates defaults =
     (let own = filter (\<lambda>x. truthy (jget ''id'' x)) templates;
          seen = List.map (\<lambda>x. js_string (jget ''id'' x)) own
      in own @ filter (\<lambda>x. truthy (jget ''id'' x) \<and> js_string (jget ''id'' x) \<notin> set seen) defaults)"

subsection \<open>Lists\<close>

record page_lists =
  pl_templates :: "jv list"
  pl_accounts :: "jv list"
  pl_schedules :: "jv list"
  pl_loading :: bool

text \<open>The three lists are asked for together; one failure fails all.\<close>

definition page_refreshed ::
    "(string \<Rightarrow> string) \<Rightarrow> (jv list \<times> jv list \<times> jv list) outcome \<Rightarrow> page_lists \<Rightarrow> page_lists \<times> toast list" where
  "page_refreshed t answer s =
     (case answer of
        Inl e \<Rightarrow> (s\<lparr>pl_loading := False\<rparr>,
          [ToastError (js_string (js_or (jget ''message'' e) (JStr (t ''common.loadingFailed''))))])
      | Inr (tpls, accs, schs) \<Rightarrow>
          (\<lparr>pl_templates = tpls, pl_accounts = accs, pl_schedules = schs, pl_loading = False\<rparr>, []))"

subsection \<open>The signal\<close>

definition signal_action :: "jv \<Rightarrow> string" where
  "signal_action sig = js_lower (js_trim (js_string (js_coalesce (jget ''type'' sig)
     (js_coalesce (jget ''signalType'' sig) (js_coalesce (jget ''signal'' sig) (JStr []))))))"

definition signal_number :: "string \<Rightarrow> jv \<Rightarrow> jsnum" where
  "signal_number k sig = (case jget k sig of JNum n \<Rightarrow> n | v \<Rightarrow> js_number v)"

definition signal_number_or_zero :: "string \<Rightarrow> jv \<Rightarrow> jsnum" where
  "signal_number_or_zero k sig = (case jget k sig of JNum n \<Rightarrow> n | v \<Rightarrow> js_number (js_or v (JNum (Fin 0))))"

definition can_order :: "jv \<Rightarrow> bool" where
  "can_order sig \<longleftrightarrow> truthy sig \<and> signal_action sig \<in> {''buy'', ''sell''} \<and>
     num_finite (signal_number ''volume'' sig) \<and> Fin 0 < signal_number ''volume'' sig"

definition order_payload :: "jv \<Rightarrow> jv \<Rightarrow> jv" where
  "order_payload schedule sig = JObj
     [(''accountId'', jget ''accountId'' schedule),
      (''symbol'', js_or (jget ''symbol'' sig) (jget ''symbol'' schedule)),
      (''type'', JStr (signal_action sig)),
      (''volume'', JNum (signal_number ''volume'' sig)),
      (''price'', JNum (signal_number_or_zero ''price'' sig)),
      (''stopLoss'', JNum (signal_number_or_zero ''stopLoss'' sig)),
      (''takeProfit'', JNum (signal_number_or_zero ''takeProfit'' sig)),
      (''comment'', JStr (js_string (js_or (jget ''comment'' sig) (JStr [])))),
      (''magicNumber'', jget ''magicNumber'' sig)]"

subsection \<open>The manual trigger\<close>

record trigger_result =
  tg_logs :: jv
  tg_signal :: jv
  tg_meta :: jv

datatype trigger_task = TtTemplate jv | TtExecute jv | TtOrder

record trigger_state =
  tr_open :: bool
  tr_triggering :: bool
  tr_context :: "jv option"
  tr_result :: "trigger_result option"
  tr_tasks :: "(nat \<times> trigger_task) list"
  tr_next :: nat

definition trigger_init :: trigger_state where
  "trigger_init = \<lparr>tr_open = False, tr_triggering = False, tr_context = None, tr_result = None, tr_tasks = [],
     tr_next = 0\<rparr>"

datatype trigger_effect =
    TeGetTemplate jv
  | TeExecute jv jv
  | TeOrder jv
  | TeToast toast

definition begin_trigger_task :: "trigger_task \<Rightarrow> trigger_state \<Rightarrow> trigger_state" where
  "begin_trigger_task k s = s\<lparr>tr_tasks := tr_tasks s @ [(tr_next s, k)], tr_next := Suc (tr_next s)\<rparr>"

definition manual_trigger :: "jv \<Rightarrow> trigger_state \<Rightarrow> trigger_state \<times> trigger_effect list" where
  "manual_trigger row s =
     (begin_trigger_task (TtTemplate row)
        (s\<lparr>tr_triggering := True, tr_result := None, tr_context := Some row, tr_open := True\<rparr>),
      [TeGetTemplate (jget ''templateId'' row)])"

definition trigger_failed :: "(string \<Rightarrow> string) \<Rightarrow> jv \<Rightarrow> trigger_state \<Rightarrow> trigger_state" where
  "trigger_failed t e s =
     s\<lparr>tr_result := Some \<lparr>tg_logs = JArr [], tg_signal = JNull,
         tg_meta = JObj [(''error'', js_or (jget ''message'' e) (JStr (t ''strategy.schedules.messages.executeFailed'')))]\<rparr>,
       tr_triggering := False\<rparr>"

definition trigger_thrown :: "jv \<Rightarrow> jv" where
  "trigger_thrown m = JObj [(''message'', JStr (js_string m))]"

definition trigger_template ::
    "(string \<Rightarrow> string) \<Rightarrow> nat \<Rightarrow> jv \<Rightarrow> jv outcome \<Rightarrow> trigger_state \<Rightarrow> trigger_state \<times> trigger_effect list" where
  "trigger_template t i row answer s =
     (case answer of
        Inl e \<Rightarrow> (trigger_failed t e (s\<lparr>tr_tasks := AList.delete i (tr_tasks s)\<rparr>), [])
      | Inr tpl \<Rightarrow>
          if \<not> truthy (jget ''code'' tpl)
          then (trigger_failed t (trigger_thrown (JStr (t ''strategy.schedules.messages.templateCodeEmptyCannotExecute'')))
                  (s\<lparr>tr_tasks := AList.delete i (tr_tasks s)\<rparr>), [])
          else (s\<lparr>tr_tasks := AList.update i (TtExecute row) (tr_tasks s)\<rparr>, [TeExecute row (jget ''code'' tpl)]))"

definition result_meta :: "jv \<Rightarrow> jv" where
  "result_meta row = JObj [(''templateId'', jget ''templateId'' row), (''scheduleId'', jget ''id'' row)]"

definition trigger_executed ::
    "(string \<Rightarrow> string) \<Rightarrow> jv \<Rightarrow> jv outcome \<Rightarrow> trigger_state \<Rightarrow> trigger_state" where
  "trigger_executed t row answer s =
     (case answer of
        Inl e \<Rightarrow> trigger_failed t e s
      | Inr x \<Rightarrow>
          if \<not> truthy (jget ''success'' x)
          then trigger_failed t (trigger_thrown (js_or (jget ''error'' x)
                 (JStr (t ''strategy.schedules.messages.strategyExecuteFailed'')))) s
          else s\<lparr>tr_result := Some \<lparr>tg_logs = js_or (jget ''logs'' x) (JArr []), tg_signal = jget ''signal'' x,
                   tg_meta = result_meta row\<rparr>,
                 tr_triggering := False\<rparr>)"

definition shown_signal :: "trigger_state \<Rightarrow> jv" where
  "shown_signal s = (case tr_result s of None \<Rightarrow> JUndef | Some r \<Rightarrow> tg_signal r)"

text \<open>
  The order.  The checks of the code come after those of the dialog, which lets the button through only
  where \<open>can_order\<close> holds.
\<close>

definition do_order_send :: "(string \<Rightarrow> string) \<Rightarrow> trigger_state \<Rightarrow> trigger_state \<times> trigger_effect list" where
  "do_order_send t s =
     (case tr_context s of
        None \<Rightarrow> (s, [])
      | Some schedule \<Rightarrow>
          (let sig = shown_signal s; v = signal_number ''volume'' sig
           in if \<not> truthy sig then (s, [TeToast (ToastError (t ''strategy.schedules.messages.noOrderableSignal''))])
              else if signal_action sig \<notin> {''buy'', ''sell''}
              then (s, [TeToast (ToastError (t ''strategy.schedules.messages.signalHoldCannotOrder''))])
              else if \<not> (num_finite v \<and> Fin 0 < v)
              then (s, [TeToast (ToastError (t ''strategy.schedules.messages.volumeInvalid''))])
              else (begin_trigger_task TtOrder (s\<lparr>tr_triggering := True\<rparr>),
                    [TeOrder (order_send_request (order_payload schedule sig))])))"

definition text_of :: "jv \<Rightarrow> string option" where
  "text_of v = (if nullish v then None else Some (js_string v))"

definition order_answered ::
    "(string \<Rightarrow> string) \<Rightarrow> jv outcome \<Rightarrow> trigger_state \<Rightarrow> trigger_state \<times> trigger_effect list" where
  "order_answered t answer s =
     (case answer of
        Inl e \<Rightarrow> (s\<lparr>tr_triggering := False\<rparr>,
          [TeToast (ToastError (js_string (js_or (jget ''message'' e) (JStr (t ''strategy.schedules.messages.orderFailed'')))))])
      | Inr res \<Rightarrow>
          if truthy (jget ''error'' res)
          then (s\<lparr>tr_triggering := False\<rparr>,
            [TeToast (ToastError (trading_risk_toast_message t (text_of (jget ''code'' (jget ''riskError'' res)))
               (text_of (jget ''error'' res)) (text_of (jget ''message'' res)) (js_string (jget ''error'' res))))])
          else (s\<lparr>tr_open := False, tr_context := None, tr_result := None, tr_triggering := False\<rparr>,
            [TeToast (ToastSuccess (t ''strategy.schedules.messages.orderSubmitted''))]))"

definition close_trigger :: "trigger_state \<Rightarrow> trigger_state" where
  "close_trigger s = s\<lparr>tr_open := False, tr_result := None, tr_context := None\<rparr>"

text \<open>
  What can happen.  The dialog covers the table while it is open, and its buttons do nothing while the
  busy mark is up.
\<close>

datatype trigger_event =
    TgTrigger jv
  | TgRerun
  | TgClose
  | TgConfirm
  | TgTemplate nat "jv outcome"
  | TgExecuted nat "jv outcome"
  | TgOrdered nat "jv outcome"

definition trigger_step_out ::
    "(string \<Rightarrow> string) \<Rightarrow> trigger_state \<Rightarrow> trigger_event \<Rightarrow> trigger_state \<times> trigger_effect list" where
  "trigger_step_out t s a =
     (case a of
        TgTrigger row \<Rightarrow> if tr_open s then (s, []) else manual_trigger row s
      | TgRerun \<Rightarrow>
          (case tr_context s of
             Some row \<Rightarrow> if tr_open s \<and> \<not> tr_triggering s then manual_trigger row s else (s, [])
           | None \<Rightarrow> (s, []))
      | TgClose \<Rightarrow> if tr_open s \<and> \<not> tr_triggering s then (close_trigger s, []) else (s, [])
      | TgConfirm \<Rightarrow> if tr_open s \<and> \<not> tr_triggering s \<and> can_order (shown_signal s) then do_order_send t s else (s, [])
      | TgTemplate i answer \<Rightarrow>
          (case map_of (tr_tasks s) i of Some (TtTemplate row) \<Rightarrow> trigger_template t i row answer s | _ \<Rightarrow> (s, []))
      | TgExecuted i answer \<Rightarrow>
          (case map_of (tr_tasks s) i of
             Some (TtExecute row) \<Rightarrow> (trigger_executed t row answer (s\<lparr>tr_tasks := AList.delete i (tr_tasks s)\<rparr>), [])
           | _ \<Rightarrow> (s, []))
      | TgOrdered i answer \<Rightarrow>
          (case map_of (tr_tasks s) i of
             Some TtOrder \<Rightarrow> order_answered t answer (s\<lparr>tr_tasks := AList.delete i (tr_tasks s)\<rparr>)
           | _ \<Rightarrow> (s, [])))"

definition trigger_step :: "(string \<Rightarrow> string) \<Rightarrow> trigger_state \<Rightarrow> trigger_event \<Rightarrow> trigger_state" where
  "trigger_step t s a = fst (trigger_step_out t s a)"

subsection \<open>What the trigger keeps\<close>

definition task_ready :: "trigger_state \<Rightarrow> trigger_task \<Rightarrow> bool" where
  "task_ready s k = (case k of
     TtTemplate row \<Rightarrow> tr_context s = Some row \<and> tr_result s = None
   | TtExecute row \<Rightarrow> tr_context s = Some row \<and> tr_result s = None
   | TtOrder \<Rightarrow> True)"

definition signal_placed :: "trigger_state \<Rightarrow> bool" where
  "signal_placed s \<longleftrightarrow> (truthy (shown_signal s) \<longrightarrow>
     (\<exists>row r. tr_context s = Some row \<and> tr_result s = Some r \<and> tg_meta r = result_meta row))"

definition waiting_ok :: "trigger_state \<Rightarrow> bool" where
  "waiting_ok s \<longleftrightarrow> tr_tasks s = [] \<and> \<not> tr_triggering s \<or>
     (\<exists>i k. tr_tasks s = [(i, k)] \<and> tr_triggering s \<and> tr_open s \<and> task_ready s k)"

definition trigger_inv :: "trigger_state \<Rightarrow> bool" where
  "trigger_inv s \<longleftrightarrow> waiting_ok s \<and> (tr_open s \<longleftrightarrow> tr_context s \<noteq> None) \<and> signal_placed s"

lemmas trigger_inv_defs = trigger_inv_def waiting_ok_def signal_placed_def task_ready_def shown_signal_def

lemma trigger_inv_init: "trigger_inv trigger_init"
  by (simp add: trigger_inv_defs trigger_init_def)

lemma waiting_idle: "waiting_ok s \<Longrightarrow> \<not> tr_triggering s \<Longrightarrow> tr_tasks s = []"
  by (auto simp: waiting_ok_def)

lemma waiting_one:
  assumes "waiting_ok s" "map_of (tr_tasks s) i = Some k"
  shows "tr_tasks s = [(i, k)]" "tr_triggering s" "tr_open s" "task_ready s k"
  using assms by (auto simp: waiting_ok_def split: if_splits)

lemma manual_trigger_inv: "tr_tasks s = [] \<Longrightarrow> trigger_inv (fst (manual_trigger row s))"
  by (simp add: manual_trigger_def begin_trigger_task_def trigger_inv_defs)

lemma trigger_failed_inv:
  "tr_tasks s = [] \<Longrightarrow> tr_open s \<Longrightarrow> tr_context s \<noteq> None \<Longrightarrow> trigger_inv (trigger_failed t e s)"
  by (simp add: trigger_failed_def trigger_inv_defs)

lemma close_trigger_inv: "tr_tasks s = [] \<Longrightarrow> \<not> tr_triggering s \<Longrightarrow> trigger_inv (close_trigger s)"
  by (simp add: close_trigger_def trigger_inv_defs)

lemma do_order_inv:
  "trigger_inv s \<Longrightarrow> tr_tasks s = [] \<Longrightarrow> tr_open s \<Longrightarrow> trigger_inv (fst (do_order_send t s))"
  by (cases "tr_context s")
     (simp_all add: do_order_send_def Let_def begin_trigger_task_def trigger_inv_defs)

lemma trigger_template_inv:
  assumes "trigger_inv s" "tr_tasks s = [(i, TtTemplate row)]"
  shows "trigger_inv (fst (trigger_template t i row answer s))"
proof -
  have "tr_open s" "tr_context s = Some row" "tr_result s = None" "tr_triggering s"
    using assms by (simp_all add: trigger_inv_defs)
  then show ?thesis
    using assms(2) trigger_failed_inv
    by (simp add: trigger_template_def split: sum.split) (simp add: trigger_inv_defs)
qed

lemma trigger_executed_inv:
  assumes "trigger_inv s" "tr_tasks s = [(i, TtExecute row)]"
  shows "trigger_inv (trigger_executed t row answer (s\<lparr>tr_tasks := []\<rparr>))"
proof -
  have "tr_open s" "tr_context s = Some row" using assms by (simp_all add: trigger_inv_defs)
  then show ?thesis
    using trigger_failed_inv
    by (simp add: trigger_executed_def split: sum.split) (simp add: trigger_inv_defs)
qed

lemma order_answered_inv:
  assumes "trigger_inv s" "tr_tasks s = [(i, TtOrder)]"
  shows "trigger_inv (fst (order_answered t answer (s\<lparr>tr_tasks := []\<rparr>)))"
  using assms by (auto simp: order_answered_def trigger_inv_defs split: sum.split)

lemma trigger_inv_step:
  assumes "trigger_inv s"
  shows "trigger_inv (trigger_step t s a)"
proof -
  have w: "waiting_ok s" and c: "tr_open s \<longleftrightarrow> tr_context s \<noteq> None" and p: "signal_placed s"
    using assms by (simp_all add: trigger_inv_def)
  show ?thesis
  proof (cases a)
    case (TgTrigger row)
    show ?thesis
    proof (cases "tr_open s")
      case True
      then show ?thesis using assms TgTrigger by (simp add: trigger_step_def trigger_step_out_def)
    next
      case False
      then have "tr_tasks s = []" using w by (auto simp: waiting_ok_def)
      then show ?thesis using manual_trigger_inv False TgTrigger by (simp add: trigger_step_def trigger_step_out_def)
    qed
  next
    case TgRerun
    then show ?thesis using assms manual_trigger_inv waiting_idle [OF w]
      by (auto simp: trigger_step_def trigger_step_out_def split: option.split)
  next
    case TgClose
    then show ?thesis using assms close_trigger_inv waiting_idle [OF w]
      by (auto simp: trigger_step_def trigger_step_out_def)
  next
    case TgConfirm
    then show ?thesis using assms do_order_inv [OF assms] waiting_idle [OF w]
      by (auto simp: trigger_step_def trigger_step_out_def)
  next
    case (TgTemplate i answer)
    then show ?thesis using assms trigger_template_inv [OF assms] waiting_one(1) [OF w, of i]
      by (auto simp: trigger_step_def trigger_step_out_def split: option.split trigger_task.split)
  next
    case (TgExecuted i answer)
    then show ?thesis using assms trigger_executed_inv [OF assms] waiting_one(1) [OF w, of i]
      by (auto simp: trigger_step_def trigger_step_out_def split: option.split trigger_task.split)
  next
    case (TgOrdered i answer)
    then show ?thesis using assms order_answered_inv [OF assms] waiting_one(1) [OF w, of i]
      by (auto simp: trigger_step_def trigger_step_out_def split: option.split trigger_task.split)
  qed
qed

interpretation manual_trigger: machine trigger_init "trigger_step t" trigger_inv
  by unfold_locales (rule trigger_inv_init, rule trigger_inv_step)

text \<open>
  C20. While the dialog is open it is about one schedule; at most one request is in flight, exactly while the
  busy mark is up, and a signal that is shown came from that schedule.
\<close>

theorem trigger_single_flight:
  "let s = run (trigger_step t) trigger_init as
   in length (tr_tasks s) = (if tr_triggering s then 1 else 0) \<and> (tr_open s \<longleftrightarrow> tr_context s \<noteq> None) \<and> signal_placed s"
  using manual_trigger.inv_run [of t as]
  by (auto simp: trigger_inv_def waiting_ok_def Let_def)


subsection \<open>Where orders come from\<close>

text \<open>An execution of the strategy of \<open>row\<close> was answered by \<open>x\<close>.\<close>

definition executed_for :: "(string \<Rightarrow> string) \<Rightarrow> trigger_event list \<Rightarrow> jv \<Rightarrow> jv \<Rightarrow> bool" where
  "executed_for t as row x \<longleftrightarrow>
     (\<exists>bs i cs. as = bs @ TgExecuted i (Inr x) # cs \<and>
        map_of (tr_tasks (run (trigger_step t) trigger_init bs)) i = Some (TtExecute row))"

lemma executed_for_last:
  "map_of (tr_tasks (run (trigger_step t) trigger_init as)) i = Some (TtExecute row) \<Longrightarrow>
   executed_for t (as @ [TgExecuted i (Inr x)]) row x"
  unfolding executed_for_def by blast

lemma executed_for_more: "executed_for t as row x \<Longrightarrow> executed_for t (as @ bs) row x"
  unfolding executed_for_def by force

definition signal_from :: "trigger_state \<Rightarrow> jv \<Rightarrow> jv \<Rightarrow> bool" where
  "signal_from s row x \<longleftrightarrow> tr_context s = Some row \<and> truthy (jget ''success'' x) \<and> shown_signal s = jget ''signal'' x"

text \<open>A signal that a step shows was shown before the step or is that of the answer of the step.\<close>

lemma signal_step:
  assumes "trigger_inv s" "truthy (shown_signal (trigger_step t s a))"
  shows "tr_context (trigger_step t s a) = tr_context s \<and> shown_signal (trigger_step t s a) = shown_signal s \<or>
    (\<exists>i row x. a = TgExecuted i (Inr x) \<and> map_of (tr_tasks s) i = Some (TtExecute row) \<and>
       signal_from (trigger_step t s a) row x)"
proof -
  have w: "waiting_ok s" using assms(1) by (simp add: trigger_inv_def)
  show ?thesis
  proof (cases a)
    case (TgExecuted i answer)
    show ?thesis
    proof (cases "\<exists>row. map_of (tr_tasks s) i = Some (TtExecute row)")
      case True
      then obtain row where r: "map_of (tr_tasks s) i = Some (TtExecute row)" by blast
      moreover have "tr_context s = Some row" using waiting_one(4) [OF w r] by (simp add: task_ready_def)
      ultimately show ?thesis using assms(2) TgExecuted
        by (auto simp: trigger_step_def trigger_step_out_def trigger_executed_def trigger_failed_def shown_signal_def
            signal_from_def split: sum.splits if_splits)
    next
      case False
      then show ?thesis using TgExecuted
        by (auto simp: trigger_step_def trigger_step_out_def split: option.split trigger_task.split)
    qed
  qed (use assms(2) in \<open>auto simp: trigger_step_def trigger_step_out_def manual_trigger_def begin_trigger_task_def
      shown_signal_def close_trigger_def do_order_send_def trigger_template_def trigger_failed_def order_answered_def
      Let_def split: option.splits trigger_task.splits sum.splits if_splits\<close>)
qed

lemma signal_has_source:
  "truthy (shown_signal (run (trigger_step t) trigger_init as)) \<Longrightarrow>
   \<exists>row x. executed_for t as row x \<and> signal_from (run (trigger_step t) trigger_init as) row x"
proof (induction as rule: rev_induct)
  case Nil
  then show ?case by (simp add: trigger_init_def shown_signal_def)
next
  case (snoc a as)
  let ?s = "run (trigger_step t) trigger_init as"
  have r: "run (trigger_step t) trigger_init (as @ [a]) = trigger_step t ?s a" by (simp add: run_def)
  from snoc.prems have tr: "truthy (shown_signal (trigger_step t ?s a))" by (simp only: r)
  from signal_step [OF manual_trigger.inv_run tr] show ?case
  proof
    assume same: "tr_context (trigger_step t ?s a) = tr_context ?s \<and> shown_signal (trigger_step t ?s a) = shown_signal ?s"
    with tr snoc.IH obtain row x where "executed_for t as row x" "signal_from ?s row x" by auto
    with same executed_for_more [of t as row x "[a]"] show ?thesis
      unfolding r by (intro exI [of _ row] exI [of _ x]) (simp add: signal_from_def)
  next
    assume "\<exists>i row x. a = TgExecuted i (Inr x) \<and> map_of (tr_tasks ?s) i = Some (TtExecute row) \<and>
      signal_from (trigger_step t ?s a) row x"
    then show ?thesis unfolding r using executed_for_last by blast
  qed
qed

text \<open>
  C5. Every order goes to the account of a schedule whose strategy was executed, for the signal that this
  execution returned, with the action and the positive volume of the signal.
\<close>

theorem order_follows_execution:
  assumes "TeOrder rq \<in> set (snd (trigger_step_out t (run (trigger_step t) trigger_init as) a))"
  shows "\<exists>row x. executed_for t as row x \<and> truthy (jget ''success'' x) \<and> can_order (jget ''signal'' x) \<and>
    rq = order_send_request (order_payload row (jget ''signal'' x))"
proof -
  let ?s = "run (trigger_step t) trigger_init as"
  from assms have a: "a = TgConfirm"
    by (cases a) (auto simp: trigger_step_out_def manual_trigger_def trigger_template_def order_answered_def
        split: option.splits trigger_task.splits sum.splits if_splits)
  with assms have c: "can_order (shown_signal ?s)"
    by (simp add: trigger_step_out_def split: if_splits)
  then obtain row x where "executed_for t as row x" and f: "signal_from ?s row x"
    using signal_has_source [of t as] by (auto simp: can_order_def)
  moreover have "rq = order_send_request (order_payload row (jget ''signal'' x))"
    using assms a c f by (auto simp: trigger_step_out_def do_order_send_def signal_from_def Let_def split: if_splits)
  ultimately show ?thesis using c by (auto simp: signal_from_def)
qed


subsection \<open>Symbols\<close>

lemma keep_first_spec:
  "distinct (keep_first seen vs) \<and> set (keep_first seen vs) = set vs - set seen"
  by (induction vs arbitrary: seen) auto

text \<open>The offered symbols are the names that the account has, each once and none of them empty.\<close>

theorem symbol_options_complete:
  "distinct (symbol_options rows) \<and>
   set (symbol_options rows) = (\<lambda>s. trimmed_field [jget ''symbol'' s]) ` set rows - {[]}"
  using keep_first_spec [of "[]"] by (auto simp: symbol_options_def)

text \<open>
  The answer for an account that is not chosen any more replaces the symbols of the account that is.
\<close>

theorem late_symbols_of_other_account:
  assumes "account \<noteq> []" "other \<noteq> []" "sy_tasks s = []" "symbol_options old \<noteq> symbol_options new"
  defines "asked \<equiv> choose_account other (choose_account account s)"
  defines "answered \<equiv> symbols_answered (sy_next s) (Inr old) (symbols_answered (Suc (sy_next s)) (Inr new) asked)"
  shows "sy_account answered = other \<and> sy_symbols answered = symbol_options old \<and>
    sy_symbols answered \<noteq> symbol_options new \<and> \<not> sy_loading answered"
  using assms(1-4)
  by (simp add: answered_def asked_def choose_account_def load_symbols_def symbols_answered_def Let_def)

text \<open>
  The templates that are offered have distinct ids where the ids of the stored ones and of the default
  ones are: a default template gives way to a stored one of its id.
\<close>

definition template_id :: "jv \<Rightarrow> string" where
  "template_id x = js_string (jget ''id'' x)"

theorem templates_offered_once:
  assumes "distinct (List.map template_id templates)" "distinct (List.map template_id defaults)"
  shows "distinct (List.map template_id (templates_for_select templates defaults))"
proof -
  let ?own = "filter (\<lambda>x. truthy (jget ''id'' x)) templates"
  let ?rest = "filter (\<lambda>x. truthy (jget ''id'' x) \<and> template_id x \<notin> set (List.map template_id ?own)) defaults"
  have "templates_for_select templates defaults = ?own @ ?rest"
    by (simp add: templates_for_select_def Let_def template_id_def [abs_def])
  moreover have "set (List.map template_id ?own) \<inter> set (List.map template_id ?rest) = {}" by (auto simp: image_iff)
  ultimately show ?thesis
    using assms by (simp only: map_append distinct_append distinct_map_filter simp_thms)
qed


subsection \<open>Examples\<close>

definition demo_trigger_row :: jv where
  "demo_trigger_row = JObj [(''id'', JStr ''s1''), (''templateId'', JStr ''t1''), (''accountId'', JStr ''a1''),
     (''symbol'', JStr ''EURUSD''), (''timeframe'', JStr ''H1'')]"

definition demo_trigger_answer :: jv where
  "demo_trigger_answer = JObj [(''success'', JBool True), (''logs'', JArr []),
     (''signal'', JObj [(''type'', JStr '' BUY ''), (''volume'', JStr ''0.1'')])]"

definition demo_trigger_events :: "trigger_event list" where
  "demo_trigger_events =
     [TgTrigger demo_trigger_row, TgTemplate 0 (Inr (JObj [(''code'', JStr ''x'')])), TgExecuted 0 (Inr demo_trigger_answer)]"

definition orders_of :: "trigger_effect list \<Rightarrow> jv list" where
  "orders_of es = concat (List.map (\<lambda>e. case e of TeOrder rq \<Rightarrow> [rq] | _ \<Rightarrow> []) es)"

lemma orders_of_hd: "orders_of es = rq # rqs \<Longrightarrow> TeOrder rq \<in> set es"
  by (induction es) (auto simp: orders_of_def split: trigger_effect.splits)

theorem order_follows_execution_witness:
  "\<exists>rq row x. orders_of (snd (trigger_step_out id (run (trigger_step id) trigger_init demo_trigger_events) TgConfirm)) = [rq] \<and>
     jget ''accountId'' rq = JStr ''a1'' \<and> executed_for id demo_trigger_events row x \<and>
     rq = order_send_request (order_payload row (jget ''signal'' x))"
proof -
  have "List.map (jget ''accountId'')
      (orders_of (snd (trigger_step_out id (run (trigger_step id) trigger_init demo_trigger_events) TgConfirm))) = [JStr ''a1'']"
    by code_simp
  then obtain rq where rq: "orders_of (snd (trigger_step_out id (run (trigger_step id) trigger_init demo_trigger_events) TgConfirm)) = [rq]"
    "jget ''accountId'' rq = JStr ''a1''" by auto
  with order_follows_execution [OF orders_of_hd [OF rq(1)]] show ?thesis by blast
qed

theorem templates_offered_once_witness:
  "distinct (List.map template_id (templates_for_select [JObj [(''id'', JStr ''default-ma'')]] [JObj [(''id'', JStr ''default-ma'')]]))"
  by (rule templates_offered_once) simp_all

theorem late_symbols_of_other_account_witness:
  "let s = \<lparr>sy_symbols = [], sy_loading = False, sy_account = [], sy_symbol = [], sy_tasks = [], sy_next = 0\<rparr>;
       r = symbols_answered 0 (Inr [JObj [(''symbol'', JStr ''EURUSD'')]])
             (symbols_answered 1 (Inr [JObj [(''symbol'', JStr ''XAUUSD'')]]) (choose_account ''a2'' (choose_account ''a1'' s)))
   in sy_account r = ''a2'' \<and> sy_symbols r = symbol_options [JObj [(''symbol'', JStr ''EURUSD'')]]"
proof -
  have d: "symbol_options [JObj [(''symbol'', JStr ''EURUSD'')]] \<noteq> symbol_options [JObj [(''symbol'', JStr ''XAUUSD'')]]"
    by code_simp
  let ?s = "\<lparr>sy_symbols = [], sy_loading = False, sy_account = [], sy_symbol = [], sy_tasks = [], sy_next = 0\<rparr>"
  have "''a1'' \<noteq> []" "''a2'' \<noteq> []" "sy_tasks ?s = []" by simp_all
  from late_symbols_of_other_account [OF this d] show ?thesis by (simp add: Let_def)
qed

end
