(* ===== verification/ScheduleHealth.thy ===== *)
theory ScheduleHealth
  imports ScheduleSaving TaskTable
begin

text \<open>
  The table of the schedules (\<open>pages/strategy/components/ScheduleTable.tsx\<close>) and the health panel of a
  schedule: its client (\<open>client/scheduleHealth.ts\<close>), its state on the schedule page
  (\<open>pages/strategy/StrategySchedulePage.tsx\<close>) and its grade (\<open>components/ScheduleHealthModal.tsx\<close>).
\<close>

subsection \<open>The client\<close>

definition health_request :: "string \<Rightarrow> jv" where
  "health_request sid = JObj [(''scheduleId'', JStr sid), (''runLimit'', JNum (Fin 30)), (''orderLimit'', JNum (Fin 20))]"

definition health_summary :: "jv \<Rightarrow> jv" where
  "health_summary response =
     (let s = jget ''summary'' response; f = (\<lambda>k d. (k, js_or (jget k s) d))
      in JObj
        [f ''totalRuns'' (JNum (Fin 0)), f ''successRuns'' (JNum (Fin 0)), f ''failedRuns'' (JNum (Fin 0)),
         f ''successRate'' (JNum (Fin 0)), (''lastRunAt'', jget ''lastRunAt'' s), f ''latestError'' (JStr []),
         f ''latestOrderTicket'' (JStr ''-''),
         (''latestOrderProfit'', if truthy (jget ''hasLatestOrderProfit'' s) then jget ''latestOrderProfit'' s else JNull),
         f ''gradeLevel'' (JStr ''unknown''), f ''gradeColor'' (JStr ''default''), f ''gradeNoteCode'' (JStr ''pending''),
         f ''greenSuccessRate'' (JNum (Fin 90)), f ''greenMaxFailedRuns'' (JNum (Fin 1)),
         f ''yellowSuccessRate'' (JNum (Fin 60)), f ''minSampleSize'' (JNum (Fin 1)),
         (''runLogs'', js_or (jget ''runLogs'' response) (JArr [])),
         (''orders'', js_or (jget ''orders'' response) (JArr []))])"

subsection \<open>The grade\<close>

record health_grade =
  hg_level :: jv
  hg_label :: string
  hg_color :: jv
  hg_note :: string

definition get_grade :: "(string \<Rightarrow> (string \<times> jv) list \<Rightarrow> string) \<Rightarrow> jv \<Rightarrow> health_grade" where
  "get_grade t summary =
     (let given = (\<lambda>label note opts. \<lparr>hg_level = jget ''gradeLevel'' summary, hg_label = t label [],
            hg_color = jget ''gradeColor'' summary, hg_note = t note opts\<rparr>);
          code = js_string (js_or (jget ''gradeNoteCode'' summary) (JStr ''pending''));
          field = (\<lambda>k. (k, jget k summary))
      in if \<not> truthy summary
         then \<lparr>hg_level = JStr ''unknown'', hg_label = t ''strategy.schedules.health.grade.pending'' [],
                hg_color = JStr ''default'', hg_note = t ''strategy.schedules.health.notes.pending'' []\<rparr>
         else if code = ''no_sample''
         then given ''strategy.schedules.health.grade.noSample'' ''strategy.schedules.health.notes.noSample''
                [field ''minSampleSize'']
         else if code = ''healthy''
         then given ''strategy.schedules.health.grade.healthy'' ''strategy.schedules.health.notes.healthy''
                [field ''greenSuccessRate'', field ''greenMaxFailedRuns'']
         else if code = ''watch''
         then given ''strategy.schedules.health.grade.watch'' ''strategy.schedules.health.notes.watch''
                [field ''yellowSuccessRate'']
         else given ''strategy.schedules.health.grade.alert'' ''strategy.schedules.health.notes.alert'' [])"

definition alert_type :: "health_grade \<Rightarrow> string" where
  "alert_type g = (if hg_level g = JStr ''red'' then ''error'' else if hg_level g = JStr ''yellow'' then ''warning'' else ''success'')"

subsection \<open>The panel\<close>

text \<open>A request in flight keeps the schedule that it asks about.\<close>

record health_state =
  he_open :: bool
  he_loading :: bool
  he_target :: jv
  he_summary :: jv
  he_tasks :: "(nat \<times> jv) list"
  he_next :: nat

definition health_init :: health_state where
  "health_init = \<lparr>he_open = False, he_loading = False, he_target = JNull, he_summary = JNull, he_tasks = [], he_next = 0\<rparr>"

definition load_schedule_health :: "jv \<Rightarrow> health_state \<Rightarrow> health_state \<times> jv list" where
  "load_schedule_health row s =
     (if \<not> truthy (jget ''id'' row) then (s, [])
      else (s\<lparr>he_loading := True, he_tasks := he_tasks s @ [(he_next s, row)], he_next := Suc (he_next s)\<rparr>,
            [health_request (js_string (jget ''id'' row))]))"

definition health_check :: "jv \<Rightarrow> health_state \<Rightarrow> health_state \<times> jv list" where
  "health_check row s = load_schedule_health row (s\<lparr>he_target := row, he_open := True\<rparr>)"

definition health_refresh :: "health_state \<Rightarrow> health_state \<times> jv list" where
  "health_refresh s = (if truthy (he_target s) then load_schedule_health (he_target s) s else (s, []))"

definition health_close :: "health_state \<Rightarrow> health_state" where
  "health_close s = s\<lparr>he_open := False, he_target := JNull, he_summary := JNull\<rparr>"

definition health_answered ::
    "(string \<Rightarrow> string) \<Rightarrow> nat \<Rightarrow> jv outcome \<Rightarrow> health_state \<Rightarrow> health_state \<times> toast list" where
  "health_answered t i answer s =
     (case map_of (he_tasks s) i of
        None \<Rightarrow> (s, [])
      | Some row \<Rightarrow>
          (let s = s\<lparr>he_tasks := AList.delete i (he_tasks s), he_loading := False\<rparr>
           in case answer of
                Inl e \<Rightarrow> (s\<lparr>he_summary := JNull\<rparr>,
                  [ToastError (js_string (js_or (jget ''message'' e) (JStr (t ''strategy.schedules.health.messages.loadFailed''))))])
              | Inr response \<Rightarrow> (s\<lparr>he_summary := health_summary response\<rparr>, [])))"

text \<open>The panel covers the table while it is open.\<close>

datatype health_event = HeCheck jv | HeRefresh | HeClose | HeAnswer nat "jv outcome"

definition health_step :: "(string \<Rightarrow> string) \<Rightarrow> health_state \<Rightarrow> health_event \<Rightarrow> health_state" where
  "health_step t s a =
     (case a of
        HeCheck row \<Rightarrow> if he_open s then s else fst (health_check row s)
      | HeRefresh \<Rightarrow> if he_open s \<and> \<not> he_loading s then fst (health_refresh s) else s
      | HeClose \<Rightarrow> if he_open s then health_close s else s
      | HeAnswer i answer \<Rightarrow> fst (health_answered t i answer s))"

subsection \<open>The table\<close>

definition interval_ms :: "jv \<Rightarrow> jsnum option" where
  "interval_ms v = (case v of JNum n \<Rightarrow> Some n | JBig i \<Rightarrow> Some (Fin (of_int i)) | _ \<Rightarrow> None)"

definition format_schedule :: "jv \<Rightarrow> string" where
  "format_schedule row =
     (let conf = js_or (jget ''scheduleConfig'' row) (JObj [])
      in if jget ''scheduleType'' row = JStr ''interval''
         then (case interval_ms (jget ''intervalMs'' conf) of
                 Some (Fin q) \<Rightarrow>
                   if 0 < q then ''interval: '' @ num_str (Fin (of_int (max 1 \<lfloor>q / 1000\<rfloor>))) @ ''s'' else ''-''
               | _ \<Rightarrow> ''-'')
         else (let cron = trimmed_field [jget ''cronExpression'' conf]
               in if cron = [] then ''-'' else ''cron: '' @ cron))"

text \<open>Of two rows with the same id the later one is found.\<close>

definition by_id :: "jv list \<Rightarrow> jv \<Rightarrow> jv option" where
  "by_id items i = List.find (\<lambda>x. truthy (jget ''id'' x) \<and> js_strict_eq (jget ''id'' x) i) (rev items)"

definition template_text :: "jv list \<Rightarrow> jv \<Rightarrow> jv" where
  "template_text templates i =
     (case by_id templates i of None \<Rightarrow> i | Some x \<Rightarrow> js_or (jget ''name'' x) i)"

definition account_text :: "jv list \<Rightarrow> jv \<Rightarrow> jv" where
  "account_text accounts i =
     (case by_id accounts i of
        Some x \<Rightarrow>
          if truthy (jget ''login'' x)
          then JStr (js_string (jget ''login'' x) @ '' ('' @ js_string (js_or (jget ''mtType'' x) (JStr [])) @ '')'')
          else i
      | None \<Rightarrow> i)"


subsection \<open>What the panel shows\<close>

lemma health_summary_field:
  "jget ''greenMaxFailedRuns'' (health_summary r) = js_or (jget ''greenMaxFailedRuns'' (jget ''summary'' r)) (JNum (Fin 1))"
  "jget ''gradeNoteCode'' (health_summary r) = js_or (jget ''gradeNoteCode'' (jget ''summary'' r)) (JStr ''pending'')"
  "jget ''greenSuccessRate'' (health_summary r) = js_or (jget ''greenSuccessRate'' (jget ''summary'' r)) (JNum (Fin 90))"
  "truthy (health_summary r)"
  by (simp_all add: health_summary_def Let_def jget_def)

text \<open>
  A grading that tolerates no failed run is shown, in the note of a healthy schedule, as one that
  tolerates one.
\<close>

theorem zero_tolerance_shown_as_one:
  assumes "jget ''greenMaxFailedRuns'' (jget ''summary'' r) = JNum (Fin 0)"
    and "jget ''gradeNoteCode'' (jget ''summary'' r) = JStr ''healthy''"
  shows "hg_note (get_grade t (health_summary r)) = t ''strategy.schedules.health.notes.healthy''
    [(''greenSuccessRate'', jget ''greenSuccessRate'' (health_summary r)), (''greenMaxFailedRuns'', JNum (Fin 1))]"
  using assms by (simp add: get_grade_def Let_def health_summary_field js_or_def)

text \<open>
  The answer about a schedule whose panel was closed is shown as the health of the schedule whose panel
  is open, and the busy mark of the request that is still out goes down.
\<close>

theorem late_health_of_other_schedule:
  fixes response t
  assumes "truthy (jget ''id'' old)" "truthy (jget ''id'' new)"
  defines "s \<equiv> run (health_step t) health_init [HeCheck old, HeClose, HeCheck new, HeAnswer 0 (Inr response)]"
  shows "he_open s \<and> he_target s = new \<and> he_summary s = health_summary response \<and> he_tasks s = [(1, new)] \<and> \<not> he_loading s"
  using assms
  by (simp add: run_def health_step_def health_init_def health_check_def load_schedule_health_def health_close_def
      health_answered_def Let_def)

definition idle_quiet :: "health_state \<Rightarrow> bool" where
  "idle_quiet s \<longleftrightarrow> (he_tasks s = [] \<longrightarrow> \<not> he_loading s) \<and> fresh_table (he_next s) (he_tasks s)"

lemma idle_quiet_load: "idle_quiet s \<Longrightarrow> idle_quiet (fst (load_schedule_health row s))"
  by (simp add: idle_quiet_def load_schedule_health_def)

lemma idle_quiet_fields [simp]:
  "idle_quiet (s\<lparr>he_target := row, he_open := b\<rparr>) = idle_quiet s" "idle_quiet (health_close s) = idle_quiet s"
  by (simp_all add: idle_quiet_def health_close_def)

lemma idle_quiet_step: "idle_quiet s \<Longrightarrow> idle_quiet (health_step t s a)"
proof (cases a)
  case (HeAnswer i answer)
  moreover assume "idle_quiet s"
  ultimately show ?thesis
    by (auto simp: health_step_def health_answered_def idle_quiet_def Let_def split: option.split sum.split)
qed (auto simp: health_step_def health_check_def health_refresh_def intro: idle_quiet_load)

interpretation health_panel: machine health_init "health_step t" idle_quiet
  by unfold_locales (simp add: idle_quiet_def health_init_def, rule idle_quiet_step)

text \<open>The busy mark never stays up when no answer is waited for.\<close>

theorem health_panel_settles: "idle_quiet (run (health_step t) health_init as)"
  by (rule health_panel.inv_run)

subsection \<open>What the table shows\<close>

lemma form_config_cron: "form_config f = Some config \<Longrightarrow> sc_cron_expression (normalize_schedule_config config) = []"
  by (auto simp: form_config_def Let_def normalize_schedule_config_def jget_def config_text_def js_coalesce_def
      split: option.splits if_splits)

lemma config_value_cron [simp]: "jget ''cronExpression'' (config_value c) = JStr (sc_cron_expression c)"
  by (simp add: config_value_def jget_def)

text \<open>
  A schedule of an interval shows its interval in whole seconds, at least one; a schedule that follows
  the market shows a dash, as if it had no schedule.
\<close>

theorem saved_schedule_shown:
  fixes sid tid ps
  assumes "form_config f = Some config"
  defines "row \<equiv> stored_row sid (schedule_of tid f ps config)"
  shows "format_schedule row =
    (if form_type f = ''interval''
     then ''interval: '' @ num_str (Fin (of_int (the (whole_ms 1000 (Fin 300000) (ef_interval_ms f)) div 1000))) @ ''s''
     else ''-'')"
proof (cases "form_type f = ''interval''")
  case True
  obtain i where i: "whole_ms 1000 (Fin 300000) (ef_interval_ms f) = Some i"
    using assms(1) True by (auto simp: form_config_def Let_def split: option.splits)
  then have "1000 \<le> i" by (auto simp: whole_ms_def split: option.splits jsnum.splits if_splits)
  then have "1 \<le> i div 1000" using zdiv_mono1 [of 1000 i 1000] by simp
  then have "max 1 (i div 1000) = i div 1000" by (rule max_absorb2)
  moreover have "0 < i" using \<open>1000 \<le> i\<close> by simp
  moreover have "\<lfloor>rat_of_int i / 1000\<rfloor> = i div 1000"
    using floor_divide_of_int_eq [of i 1000, where ?'a = rat] by simp
  moreover have "jget ''intervalMs'' (config_value (cq_schedule_config (schedule_of tid f ps config))) = JBig i"
    using form_config_values(1) [OF assms(1)] True i by (simp add: schedule_of_def create_schedule_def)
  ultimately show ?thesis
    using True i by (simp add: row_def format_schedule_def Let_def js_or_def interval_ms_def schedule_of_def
        create_schedule_def backend_type_def)
next
  case False
  then show ?thesis
    using form_config_cron [OF assms(1)] by (simp add: trimmed_field_def row_def format_schedule_def Let_def js_or_def schedule_of_def create_schedule_def backend_type_def)
qed


subsection \<open>Examples\<close>

definition demo_health_row :: "string \<Rightarrow> jv" where
  "demo_health_row i = JObj [(''id'', JStr i)]"

definition strict_health :: jv where
  "strict_health = JObj [(''summary'', JObj [(''greenMaxFailedRuns'', JNum (Fin 0)), (''gradeNoteCode'', JStr ''healthy'')])]"

theorem zero_tolerance_shown_as_one_witness:
  "hg_note (get_grade (\<lambda>k opts. k @ concat (List.map fst opts)) (health_summary strict_health)) =
     ''strategy.schedules.health.notes.healthygreenSuccessRategreenMaxFailedRuns''"
proof -
  have "jget ''greenMaxFailedRuns'' (jget ''summary'' strict_health) = JNum (Fin 0)"
    "jget ''gradeNoteCode'' (jget ''summary'' strict_health) = JStr ''healthy''"
    by (simp_all add: strict_health_def jget_def)
  from zero_tolerance_shown_as_one [OF this] show ?thesis by simp
qed

theorem late_health_of_other_schedule_witness:
  "let s = run (health_step id) health_init
       [HeCheck (demo_health_row ''a''), HeClose, HeCheck (demo_health_row ''b''), HeAnswer 0 (Inr strict_health)]
   in he_target s = demo_health_row ''b'' \<and> he_summary s = health_summary strict_health"
proof -
  have "truthy (jget ''id'' (demo_health_row ''a''))" "truthy (jget ''id'' (demo_health_row ''b''))"
    by (simp_all add: demo_health_row_def jget_def)
  from late_health_of_other_schedule [OF this] show ?thesis by (simp add: Let_def)
qed

theorem saved_schedule_shown_witness:
  "format_schedule (stored_row ''s'' (schedule_of ''t1'' demo_edit [] demo_config)) = ''interval: 300s''"
proof -
  have "form_type demo_edit = ''interval''" "the (whole_ms 1000 (Fin 300000) (ef_interval_ms demo_edit)) = 300000"
    "num_str (Fin (of_int (300000 div 1000))) = ''300''" by code_simp+
  then show ?thesis using saved_schedule_shown [OF demo_edit_facts(1), of "''s''" "''t1''" "[]"] by simp
qed

end
