(* ===== verification/TemplateEdit.thy ===== *)
theory TemplateEdit
  imports StrategyRuns TaskTable
begin

text \<open>
  The handlers of the template page (\<open>pages/strategy/StrategyTemplatePage.tsx\<close>): validating, saving and
  deleting a template, and preparing and submitting a backtest of it.  The analysis of the code is that
  of \<open>client/codeAssist.ts\<close>.
\<close>

subsection \<open>Analysis of the code\<close>

record param_spec =
  ps_key :: string
  ps_required :: bool
  ps_type :: "string option"
  ps_default :: jv
  ps_suggested :: jv

record code_check =
  cc_valid :: bool
  cc_errors :: "string list"
  cc_warnings :: "string list"
  cc_params :: "param_spec list"

definition parse_param_value :: "string \<Rightarrow> string \<Rightarrow> jv" where
  "parse_param_value v ty =
     (if v = [] then JUndef
      else if ty = ''bool'' then JBool (v = ''true'')
      else if ty = ''int'' \<or> ty = ''float''
      then (let n = number_of_string v in if num_finite n then JNum n else JUndef)
      else JStr v)"

text \<open>A parameter as the service describes it.\<close>

record wire_spec =
  wp_key :: string
  wp_required :: bool
  wp_type :: string
  wp_default :: string
  wp_suggested :: string

definition param_of_wire :: "wire_spec \<Rightarrow> param_spec" where
  "param_of_wire p =
     \<lparr>ps_key = wp_key p, ps_required = wp_required p, ps_type = (if wp_type p = [] then None else Some (wp_type p)),
      ps_default = parse_param_value (wp_default p) (wp_type p),
      ps_suggested = parse_param_value (wp_suggested p) (wp_type p)\<rparr>"

definition validate_extended ::
    "bool \<Rightarrow> string list option \<Rightarrow> string list option \<Rightarrow> wire_spec list option \<Rightarrow> code_check" where
  "validate_extended valid errors warnings params =
     \<lparr>cc_valid = valid, cc_errors = or_list errors, cc_warnings = or_list warnings,
      cc_params = List.map param_of_wire (or_list params)\<rparr>"

definition first_problem :: "(string \<Rightarrow> string) \<Rightarrow> code_check \<Rightarrow> toast" where
  "first_problem t c = ToastError
     (case filter (\<lambda>s. s \<noteq> []) (take 1 (cc_errors c) @ take 1 (cc_warnings c)) of
        s # _ \<Rightarrow> s | [] \<Rightarrow> t ''strategy.templates.messages.codeValidationNotPassed'')"

subsection \<open>Effects\<close>

datatype template_effect =
    XeToast toast
  | XeValidating bool
  | XeValidate string
  | XeValidated string
  | XeCreate create_template_request
  | XeUpdate update_template_request
  | XeDelete string
  | XeGet string
  | XeGroup string
  | XeEditor bool
  | XeFetchTemplates
  | XeSubmitting bool
  | XeStart start_run_request
  | XeTitle string string
  | XeBacktestDialog bool
  | XeSelectRun jv
  | XeFetchRuns

subsection \<open>Editing\<close>

text \<open>The result is whether the code passed.\<close>

definition validate_template_code ::
    "(string \<Rightarrow> string) \<Rightarrow> string \<Rightarrow> code_check outcome \<Rightarrow> template_effect list \<times> bool" where
  "validate_template_code t code answer =
     (if js_trim code = [] then ([XeToast (ToastWarning (t ''strategy.templates.messages.enterStrategyCode''))], False)
      else
        (let (es, ok) =
           (case answer of
              Inl e \<Rightarrow> ([XeToast (ToastError (js_string (foldr js_or [jget ''message'' e, e]
                (JStr (t ''strategy.templates.messages.codeValidationFailed'')))))], False)
            | Inr c \<Rightarrow>
                if \<not> cc_valid c then ([XeToast (first_problem t c)], False)
                else ([XeValidated code, XeToast (ToastSuccess (t ''strategy.templates.messages.codeValidationPassed''))], True))
         in ([XeValidating True, XeValidate code] @ es @ [XeValidating False], ok)))"

record template_values =
  tv_name :: string
  tv_description :: "string option"
  tv_code :: string
  tv_public :: bool

text \<open>The button of the editor: the code that was validated last is the one that is saved.\<close>

definition save_enabled :: "string \<Rightarrow> string \<Rightarrow> bool" where
  "save_enabled code last_validated \<longleftrightarrow> js_trim code \<noteq> [] \<and> code = last_validated"

definition description_or :: "template_values \<Rightarrow> string" where
  "description_or v = (case tv_description v of None \<Rightarrow> [] | Some d \<Rightarrow> d)"

definition save_request :: "jv \<Rightarrow> template_values \<Rightarrow> template_effect" where
  "save_request editing v =
     (if truthy editing
      then XeUpdate (update_template (js_string (jget ''id'' editing)) (Some (tv_name v)) (Some (description_or v))
             (Some (tv_code v)) (Some []) (Some (tv_public v)) (Some []))
      else XeCreate (create_template (tv_name v) (description_or v) (tv_code v) (Some []) (Some (tv_public v)) (Some [])))"

definition template_saved :: "(string \<Rightarrow> string) \<Rightarrow> jv \<Rightarrow> template_effect list" where
  "template_saved t editing =
     (if truthy editing then [XeToast (ToastSuccess (t ''strategy.templates.messages.templateUpdated''))]
      else [XeToast (ToastSuccess (t ''strategy.templates.messages.templateCreated'')), XeGroup ''user'']) @
     [XeEditor False, XeFetchTemplates]"

definition handle_save ::
    "(string \<Rightarrow> string) \<Rightarrow> jv \<Rightarrow> template_values \<Rightarrow> code_check outcome \<Rightarrow> unit outcome \<Rightarrow> template_effect list" where
  "handle_save t editing v checked saved =
     [XeValidating True, XeValidate (tv_code v)] @
     (case checked of
        Inl _ \<Rightarrow> [XeToast (ToastError (t ''common.saveFailed''))]
      | Inr c \<Rightarrow>
          if \<not> cc_valid c then [XeToast (first_problem t c)]
          else save_request editing v #
            (case saved of
               Inl _ \<Rightarrow> [XeToast (ToastError (t ''common.saveFailed''))]
             | Inr _ \<Rightarrow> template_saved t editing)) @
     [XeValidating False]"

definition read_only_error :: "jv \<Rightarrow> bool" where
  "read_only_error e \<longleftrightarrow>
     js_includes (js_lower (js_string (js_or (jget ''code'' e) (JStr [])))) ''permission'' \<or>
     js_includes (js_lower (js_string (foldr js_or [jget ''rawMessage'' e, jget ''message'' e] (JStr [])))) ''system template''"

definition handle_delete :: "(string \<Rightarrow> string) \<Rightarrow> string \<Rightarrow> unit outcome \<Rightarrow> template_effect list" where
  "handle_delete t i answer = XeDelete i #
     (case answer of
        Inr _ \<Rightarrow> [XeToast (ToastSuccess (t ''strategy.templates.messages.templateDeleted'')), XeFetchTemplates]
      | Inl e \<Rightarrow> [XeToast (ToastError (t (if read_only_error e then ''strategy.templates.messages.systemTemplateReadOnly''
          else ''common.deleteFailed'')))])"

subsection \<open>The code of a template\<close>

definition template_code :: "jv \<Rightarrow> string" where
  "template_code tpl = js_string (js_or (jget ''code'' tpl) (JStr []))"

definition tpl_id :: "jv \<Rightarrow> string" where
  "tpl_id tpl = js_string (js_or (jget ''id'' tpl) (JStr []))"

definition code_at_hand :: "jv \<Rightarrow> bool" where
  "code_at_hand tpl \<longleftrightarrow> js_starts (tpl_id tpl) ''default-'' \<or> template_code tpl \<noteq> []"

definition with_code :: "jv \<Rightarrow> jv \<Rightarrow> jv" where
  "with_code tpl full = jspread (jspread tpl full) (JObj [(''code'', JStr (template_code full))])"

definition fetch_template_code :: "jv \<Rightarrow> jv outcome \<Rightarrow> template_effect list \<times> jv outcome" where
  "fetch_template_code tpl answer =
     (if code_at_hand tpl then ([], Inr tpl)
      else ([XeGet (tpl_id tpl)], map_sum id (with_code tpl) answer))"

subsection \<open>Submitting a backtest\<close>

record backtest_values =
  bv_title :: jv
  bv_account :: jv
  bv_symbol :: jv
  bv_timeframe :: jv
  bv_capital :: jv
  bv_range :: "(int option \<times> int option) option"
  bv_extra :: jv

text \<open>The dates of the range in milliseconds, \<open>None\<close> for one that is not valid.\<close>

definition missing_params :: "param_spec list \<Rightarrow> (string \<times> jv) list \<Rightarrow> string list" where
  "missing_params specs values = List.map ps_key (filter (\<lambda>p. ps_required p \<and>
     (case map_of values (ps_key p) of None \<Rightarrow> True | Some v \<Rightarrow> nullish v \<or> v = JStr [])) specs)"

definition extra_symbols :: "backtest_values \<Rightarrow> string list" where
  "extra_symbols v =
     (case bv_extra v of
        JArr xs \<Rightarrow> filter (\<lambda>s. s \<noteq> [] \<and> s \<noteq> js_string (bv_symbol v)) (List.map js_string xs)
      | _ \<Rightarrow> [])"

definition backtest_run_request ::
    "jv \<Rightarrow> string \<Rightarrow> (string \<times> jv) list \<Rightarrow> backtest_values \<Rightarrow> int \<Rightarrow> int \<Rightarrow> start_run_request" where
  "backtest_run_request template code params v from_ms to_ms =
     start_backtest_run (wrap_strategy_code_with_params code params) (js_string (bv_account v)) (js_string (bv_symbol v))
       (js_string (bv_timeframe v)) (Some (js_number (js_or (bv_capital v) (JNum (Fin 10000))))) KlineRange
       (Some from_ms) (Some to_ms) None
       (if js_starts (tpl_id template) ''default-'' then None else Some (tpl_id template)) None (Some (extra_symbols v))"

definition backtest_error :: "(string \<Rightarrow> string) \<Rightarrow> string \<Rightarrow> jv \<Rightarrow> toast" where
  "backtest_error t key e =
     (let code = (if jget ''code'' e = JUndef then [] else ''code='' @ js_string (jget ''code'' e) @ '' '');
          text = js_string (foldr js_or [jget ''rawMessage'' e,
            JStr (code @ js_string (js_or (jget ''message'' e) (JStr [])))] e)
      in ToastError (if text = [] then t key else text))"

definition backtest_started :: "(string \<Rightarrow> string) \<Rightarrow> string \<Rightarrow> backtest_values \<Rightarrow> jv \<Rightarrow> template_effect list" where
  "backtest_started t today v resp =
     [XeTitle (js_string (js_or (jget ''runId'' resp) (JStr []))) (js_string (js_or (bv_title v) (JStr today))),
      XeToast (ToastSuccess (t ''strategy.templates.messages.backtestSubmitted'')), XeBacktestDialog False,
      XeSelectRun (jget ''runId'' resp), XeFetchRuns]"

definition submit_code ::
    "(string \<Rightarrow> string) \<Rightarrow> (string \<Rightarrow> string \<Rightarrow> string) \<Rightarrow> string \<Rightarrow> jv \<Rightarrow> param_spec list \<Rightarrow> (string \<times> jv) list \<Rightarrow>
     backtest_values \<Rightarrow> string \<Rightarrow> jv outcome \<Rightarrow> template_effect list" where
  "submit_code t tk today template specs params v code started =
     (if code = [] then [XeToast (ToastError (t ''strategy.templates.messages.strategyCodeEmptyCannotBacktest''))]
      else case bv_range v of
          None \<Rightarrow> [XeToast (ToastError (t ''strategy.templates.messages.selectBacktestRange''))]
        | Some (Some from_ms, Some to_ms) \<Rightarrow>
            if missing_params specs params \<noteq> []
            then [XeToast (ToastError (tk ''strategy.codeAssist.fillRequiredParams''
                   (js_join '', '' (missing_params specs params))))]
            else XeStart (backtest_run_request template code params v from_ms to_ms) #
              (case started of
                 Inl e \<Rightarrow> [XeToast (backtest_error t ''strategy.templates.messages.backtestSubmitFailed'' e)]
               | Inr resp \<Rightarrow> backtest_started t today v resp)
        | _ \<Rightarrow> [XeToast (ToastError (t ''strategy.templates.messages.backtestRangeInvalid''))])"

definition submit_backtest ::
    "(string \<Rightarrow> string) \<Rightarrow> (string \<Rightarrow> string \<Rightarrow> string) \<Rightarrow> string \<Rightarrow> jv option \<Rightarrow> param_spec list \<Rightarrow> (string \<times> jv) list \<Rightarrow>
     backtest_values \<Rightarrow> jv outcome \<Rightarrow> jv outcome \<Rightarrow> template_effect list" where
  "submit_backtest t tk today chosen specs params v fetched started =
     (case chosen of
        None \<Rightarrow> []
      | Some template \<Rightarrow>
          (let (gets, full) = fetch_template_code template fetched
           in [XeSubmitting True] @ gets @
              (case full of
                 Inl e \<Rightarrow> [XeToast (backtest_error t ''strategy.templates.messages.backtestSubmitFailed'' e)]
               | Inr x \<Rightarrow> submit_code t tk today template specs params v (template_code x) started) @
              [XeSubmitting False]))"

subsection \<open>Opening the backtest dialog\<close>

datatype panel_task = BtCode jv | BtCheck

record backtest_panel =
  bp_template :: "jv option"
  bp_required :: "param_spec list"
  bp_values :: "(string \<times> jv) list"
  bp_open :: bool
  bp_tasks :: "(nat \<times> panel_task) list"
  bp_next :: nat

definition panel_init :: backtest_panel where
  "panel_init = \<lparr>bp_template = None, bp_required = [], bp_values = [], bp_open = False, bp_tasks = [], bp_next = 0\<rparr>"

definition panel_chosen :: "nat \<Rightarrow> jv \<Rightarrow> backtest_panel \<Rightarrow> backtest_panel" where
  "panel_chosen i full s =
     s\<lparr>bp_template := Some full, bp_required := [], bp_values := [], bp_tasks := AList.update i BtCheck (bp_tasks s)\<rparr>"

definition open_backtest_modal :: "jv \<Rightarrow> backtest_panel \<Rightarrow> backtest_panel" where
  "open_backtest_modal template s =
     (let i = bp_next s; s = s\<lparr>bp_next := Suc i\<rparr>
      in if code_at_hand template then panel_chosen i template s
         else s\<lparr>bp_tasks := AList.update i (BtCode template) (bp_tasks s)\<rparr>)"

definition panel_fetched :: "nat \<Rightarrow> jv \<Rightarrow> jv outcome \<Rightarrow> backtest_panel \<Rightarrow> backtest_panel" where
  "panel_fetched i template answer s =
     (case answer of
        Inl _ \<Rightarrow> s\<lparr>bp_tasks := AList.delete i (bp_tasks s)\<rparr>
      | Inr full \<Rightarrow> panel_chosen i (with_code template full) s)"

definition panel_checked :: "nat \<Rightarrow> code_check outcome \<Rightarrow> backtest_panel \<Rightarrow> backtest_panel" where
  "panel_checked i answer s =
     (let s = s\<lparr>bp_tasks := AList.delete i (bp_tasks s), bp_open := True\<rparr>
      in case answer of
           Inr c \<Rightarrow> if cc_valid c then s\<lparr>bp_required := cc_params c\<rparr> else s
         | Inl _ \<Rightarrow> s)"

definition panel_cancel :: "backtest_panel \<Rightarrow> backtest_panel" where
  "panel_cancel s = s\<lparr>bp_open := False, bp_required := [], bp_values := []\<rparr>"

datatype panel_event =
    BtOpen jv
  | BtFetched nat "jv outcome"
  | BtChecked nat "code_check outcome"
  | BtFill "(string \<times> jv) list"
  | BtCancel

definition panel_step :: "backtest_panel \<Rightarrow> panel_event \<Rightarrow> backtest_panel" where
  "panel_step s a =
     (case a of
        BtOpen template \<Rightarrow> if bp_open s then s else open_backtest_modal template s
      | BtFetched i answer \<Rightarrow>
          (case map_of (bp_tasks s) i of Some (BtCode template) \<Rightarrow> panel_fetched i template answer s | _ \<Rightarrow> s)
      | BtChecked i answer \<Rightarrow> (case map_of (bp_tasks s) i of Some BtCheck \<Rightarrow> panel_checked i answer s | _ \<Rightarrow> s)
      | BtFill values \<Rightarrow> if bp_open s then s\<lparr>bp_values := values\<rparr> else s
      | BtCancel \<Rightarrow> if bp_open s then panel_cancel s else s)"


subsection \<open>What saving guarantees\<close>

definition saved_codes :: "template_effect list \<Rightarrow> string list" where
  "saved_codes es = concat (List.map (\<lambda>e. case e of XeCreate rq \<Rightarrow> [ct_code rq]
     | XeUpdate rq \<Rightarrow> (case ut_code rq of None \<Rightarrow> [] | Some c \<Rightarrow> [c]) | _ \<Rightarrow> []) es)"

lemma saved_codes_simps [simp]:
  "saved_codes [] = []" "saved_codes (es @ fs) = saved_codes es @ saved_codes fs"
  "saved_codes (XeToast m # es) = saved_codes es" "saved_codes (XeValidating b # es) = saved_codes es"
  "saved_codes (XeValidate c # es) = saved_codes es" "saved_codes (XeGroup g # es) = saved_codes es"
  "saved_codes (XeEditor b # es) = saved_codes es" "saved_codes (XeFetchTemplates # es) = saved_codes es"
  "saved_codes (save_request editing v # es) = tv_code v # saved_codes es"
  by (simp_all add: saved_codes_def save_request_def create_template_def update_template_def)

lemma save_request_other [simp]: "XeEditor b \<noteq> save_request editing v" "XeValidate c \<noteq> save_request editing v"
  by (simp_all add: save_request_def)

definition passed :: "code_check outcome \<Rightarrow> bool" where
  "passed answer = (case answer of Inl _ \<Rightarrow> False | Inr c \<Rightarrow> cc_valid c)"

definition answered_ok :: "'a outcome \<Rightarrow> bool" where
  "answered_ok answer = (case answer of Inl _ \<Rightarrow> False | Inr _ \<Rightarrow> True)"

text \<open>
  Saving sends the code that the service has just found valid, and no other code; the editor closes
  exactly when the service took the template, and the busy mark goes down in every case.
\<close>

theorem save_outcomes:
  "let es = handle_save t editing v checked saved
   in hd es = XeValidating True \<and> last es = XeValidating False \<and> XeValidate (tv_code v) \<in> set es \<and>
      saved_codes es = (if passed checked then [tv_code v] else []) \<and>
      (XeEditor False \<in> set es \<longleftrightarrow> passed checked \<and> answered_ok saved)"
  by (auto simp: handle_save_def first_problem_def template_saved_def passed_def answered_ok_def Let_def
      split: sum.splits)

subsection \<open>What submitting guarantees\<close>

definition starts :: "template_effect list \<Rightarrow> start_run_request list" where
  "starts es = concat (List.map (\<lambda>e. case e of XeStart rq \<Rightarrow> [rq] | _ \<Rightarrow> []) es)"

lemma starts_in: "XeStart rq \<in> set es \<longleftrightarrow> rq \<in> set (starts es)"
  by (induction es) (auto simp: starts_def split: template_effect.splits)

lemma starts_submit_code:
  "starts (submit_code t tk today template specs params v code started) =
    (case bv_range v of
       Some (Some from_ms, Some to_ms) \<Rightarrow>
         if code \<noteq> [] \<and> missing_params specs params = []
         then [backtest_run_request template code params v from_ms to_ms] else []
     | _ \<Rightarrow> [])"
  by (auto simp: submit_code_def starts_def backtest_error_def backtest_started_def Let_def
      split: option.split sum.split)

lemma starts_submit:
  "starts (submit_backtest t tk today chosen specs params v fetched started) =
    (case chosen of None \<Rightarrow> [] | Some template \<Rightarrow>
      (case snd (fetch_template_code template fetched) of
         Inl _ \<Rightarrow> []
       | Inr full \<Rightarrow> starts (submit_code t tk today template specs params v (template_code full) started)))"
  by (auto simp: submit_backtest_def fetch_template_code_def starts_def backtest_error_def Let_def
      split: option.split sum.split)

text \<open>
  C30. A backtest is started at most once, only with every required parameter filled and some code to run, and
  its other symbols are not its own.
\<close>

theorem started_backtest_is_filled:
  assumes "XeStart rq \<in> set (submit_backtest t tk today chosen specs params v fetched started)"
  shows "starts (submit_backtest t tk today chosen specs params v fetched started) = [rq] \<and>
    missing_params specs params = [] \<and>
    (\<exists>template full. chosen = Some template \<and> snd (fetch_template_code template fetched) = Inr full \<and>
       template_code full \<noteq> [] \<and> srq_code rq = wrap_strategy_code_with_params (template_code full) params \<and>
       (srq_template_id rq = None \<longleftrightarrow> js_starts (tpl_id template) ''default-'')) \<and>
    srq_symbol rq \<notin> set (srq_extra_symbols rq) \<and> [] \<notin> set (srq_extra_symbols rq)"
  using assms unfolding starts_in starts_submit starts_submit_code
  by (auto simp: backtest_run_request_def start_backtest_run_def split: option.splits sum.splits prod.splits if_splits)

text \<open>
  A backtest with a filled parameter runs code that the check of generated code forbids: the parameter is
  put into the code under a name in double underscores.
\<close>

theorem filled_backtest_breaks_sandbox:
  assumes "XeStart rq \<in> set (submit_backtest t tk today (Some template) specs params v fetched started)"
    and "injected_entries params \<noteq> []" "code_at_hand template"
    and "CHR 0x22 \<notin> set (template_code template)" "CHR 0x27 \<notin> set (template_code template)"
  shows "VDunder \<in> vi_code ` set (validate_python_sandbox (srq_code rq))"
proof -
  have "srq_code rq = wrap_strategy_code_with_params (template_code template) params"
    using assms(1,3) unfolding starts_in starts_submit starts_submit_code
    by (auto simp: fetch_template_code_def backtest_run_request_def start_backtest_run_def
        split: option.splits sum.splits prod.splits if_splits)
  with injected_code_rejected [OF assms(2,4,5)] show ?thesis by simp
qed

subsection \<open>What the dialog shows\<close>

definition panel_inv :: "backtest_panel \<Rightarrow> bool" where
  "panel_inv s \<longleftrightarrow> fresh_table (bp_next s) (bp_tasks s) \<and>
     (bp_open s \<or> has_entry (\<lambda>k. k = BtCheck) (bp_tasks s) \<longrightarrow> bp_template s \<noteq> None)"


lemma panel_inv_chosen:
  assumes "fresh_table (bp_next s) (bp_tasks s)" "i < bp_next s"
  shows "panel_inv (panel_chosen i x s)"
  using assms by (simp add: panel_inv_def panel_chosen_def)

lemma panel_inv_drop:
  assumes "panel_inv s" "map_of (bp_tasks s) i \<noteq> None"
  shows "panel_inv (s\<lparr>bp_tasks := AList.delete i (bp_tasks s)\<rparr>)"
  using assms by (fastforce simp: panel_inv_def has_entry_def set_delete)

lemma panel_inv_fetched:
  assumes "panel_inv s" "map_of (bp_tasks s) i = Some k"
  shows "panel_inv (panel_fetched i template answer s)"
proof (cases answer)
  case (Inl e)
  then show ?thesis using panel_inv_drop assms by (simp add: panel_fetched_def)
next
  case (Inr full)
  moreover have "i < bp_next s" using assms fresh_table_lt by (auto simp: panel_inv_def)
  ultimately show ?thesis using panel_inv_chosen assms(1) by (simp add: panel_fetched_def panel_inv_def)
qed

lemma panel_inv_checked:
  assumes "panel_inv s" "map_of (bp_tasks s) i = Some BtCheck"
  shows "panel_inv (panel_checked i answer s)"
proof -
  have "has_entry (\<lambda>k. k = BtCheck) (bp_tasks s)" using assms(2) by (force simp: has_entry_def dest: map_of_SomeD)
  then show ?thesis using assms by (auto simp: panel_checked_def panel_inv_def Let_def split: sum.split)
qed

lemma panel_inv_open:
  assumes "panel_inv s" "\<not> bp_open s"
  shows "panel_inv (open_backtest_modal template s)"
proof (cases "code_at_hand template")
  case True
  have "fresh_table (Suc (bp_next s)) (bp_tasks s)"
    using assms(1) by (auto simp: panel_inv_def fresh_table_def)
  then show ?thesis
    using True panel_inv_chosen [of "s\<lparr>bp_next := Suc (bp_next s)\<rparr>" "bp_next s"]
    by (simp add: open_backtest_modal_def Let_def)
next
  case False
  have f: "fresh_table (Suc (bp_next s)) (bp_tasks s)" "fresh_table (bp_next s) (bp_tasks s)"
    using assms(1) by (auto simp: panel_inv_def fresh_table_def)
  then have "set (AList.update (bp_next s) (BtCode template) (bp_tasks s)) \<subseteq>
      insert (bp_next s, BtCode template) (set (bp_tasks s))"
    by (auto simp: set_update fresh_table_def)
  then have "has_entry (\<lambda>k. k = BtCheck) (AList.update (bp_next s) (BtCode template) (bp_tasks s)) \<Longrightarrow>
      has_entry (\<lambda>k. k = BtCheck) (bp_tasks s)"
    by (force simp: has_entry_def)
  then show ?thesis
    using False assms f by (auto simp: open_backtest_modal_def panel_inv_def Let_def)
qed

lemma panel_inv_fields: "panel_inv s \<Longrightarrow> panel_inv (panel_cancel s)" "panel_inv s \<Longrightarrow> panel_inv (s\<lparr>bp_values := vs\<rparr>)"
  by (simp_all add: panel_inv_def panel_cancel_def)

lemma panel_inv_step: "panel_inv s \<Longrightarrow> panel_inv (panel_step s a)"
  by (cases a) (auto simp: panel_step_def intro: panel_inv_open panel_inv_fetched panel_inv_checked panel_inv_fields
      split: option.split panel_task.split)

interpretation backtest_dialog: machine panel_init panel_step panel_inv
  by unfold_locales (simp add: panel_inv_def panel_init_def, rule panel_inv_step)

text \<open>The dialog is open only with a template, so its button always submits something.\<close>

theorem open_dialog_has_template:
  "bp_open (run panel_step panel_init as) \<longrightarrow> bp_template (run panel_step panel_init as) \<noteq> None"
  using backtest_dialog.inv_run [of as] by (simp add: panel_inv_def)

text \<open>
  Of two templates that are opened one after the other, the dialog shows the second, and asks for the
  parameters of the first when its analysis is the later one to arrive.
\<close>

theorem late_analysis_of_other_template:
  assumes "code_at_hand a" "code_at_hand b" "cc_valid ca" "cc_valid cb"
  defines "s \<equiv> run panel_step panel_init [BtOpen a, BtOpen b, BtChecked 1 (Inr cb), BtChecked 0 (Inr ca)]"
  shows "bp_open s \<and> bp_template s = Some b \<and> bp_required s = cc_params ca \<and> bp_tasks s = []"
  using assms
  by (simp add: run_def panel_step_def panel_init_def open_backtest_modal_def panel_chosen_def panel_checked_def Let_def)

subsection \<open>Examples\<close>

definition demo_template :: jv where
  "demo_template = JObj [(''id'', JStr ''t1''), (''code'', JStr demo_code)]"

definition demo_spec :: "string \<Rightarrow> param_spec" where
  "demo_spec k = \<lparr>ps_key = k, ps_required = True, ps_type = Some ''int'', ps_default = JUndef, ps_suggested = JUndef\<rparr>"

definition demo_check :: "string \<Rightarrow> code_check" where
  "demo_check k = \<lparr>cc_valid = True, cc_errors = [], cc_warnings = [], cc_params = [demo_spec k]\<rparr>"

definition demo_values :: backtest_values where
  "demo_values = \<lparr>bv_title = JStr ''x'', bv_account = JStr ''a'', bv_symbol = JStr ''EURUSD'', bv_timeframe = JStr ''H1'',
     bv_capital = JNum (Fin 1000), bv_range = Some (Some 0, Some 1000),
     bv_extra = JArr [JStr ''EURUSD'', JStr [], JStr ''XAUUSD'']\<rparr>"

definition demo_submission :: "template_effect list" where
  "demo_submission = submit_backtest id (\<lambda>k x. k) [] (Some demo_template) [demo_spec ''period''] [(''period'', JNum (Fin 14))]
     demo_values (Inl JNull) (Inr (JObj [(''runId'', JStr ''r'')]))"

lemma demo_template_facts: "template_code demo_template = demo_code" "code_at_hand demo_template"
  "missing_params [demo_spec ''period''] [(''period'', JNum (Fin 14))] = []"
  by (simp_all add: template_code_def demo_template_def jget_def code_at_hand_def js_or_def demo_code_def missing_params_def
      demo_spec_def)

lemma demo_started: "\<exists>rq. starts demo_submission = [rq]"
  using demo_template_facts
  by (simp add: demo_submission_def starts_submit starts_submit_code fetch_template_code_def demo_values_def demo_code_def)

theorem started_backtest_is_filled_witness:
  "\<exists>rq. XeStart rq \<in> set demo_submission \<and> srq_symbol rq \<notin> set (srq_extra_symbols rq)"
proof -
  obtain rq where "starts demo_submission = [rq]" using demo_started by blast
  then have "XeStart rq \<in> set demo_submission" by (simp add: starts_in)
  with started_backtest_is_filled [OF this [unfolded demo_submission_def]] show ?thesis by blast
qed

theorem filled_backtest_breaks_sandbox_witness:
  "\<exists>rq. XeStart rq \<in> set demo_submission \<and> VDunder \<in> vi_code ` set (validate_python_sandbox (srq_code rq))"
proof -
  obtain rq where "starts demo_submission = [rq]" using demo_started by blast
  then have rq: "XeStart rq \<in> set demo_submission" by (simp add: starts_in)
  have "injected_entries [(''period'', JNum (Fin 14))] \<noteq> []" by (simp add: injected_entries_def)
  from filled_backtest_breaks_sandbox [OF rq [unfolded demo_submission_def] this demo_template_facts(2)]
  have "VDunder \<in> vi_code ` set (validate_python_sandbox (srq_code rq))"
    unfolding demo_template_facts(1) by (simp add: demo_code_def)
  with rq show ?thesis by blast
qed

theorem late_analysis_of_other_template_witness:
  "let s = run panel_step panel_init [BtOpen demo_template, BtOpen demo_template, BtChecked 1 (Inr (demo_check ''fast'')),
       BtChecked 0 (Inr (demo_check ''slow''))]
   in List.map ps_key (bp_required s) = [''slow'']"
  using late_analysis_of_other_template [OF demo_template_facts(2,2), of "demo_check ''slow''" "demo_check ''fast''"]
  by (simp add: Let_def demo_check_def demo_spec_def)

end
