(* ===== verification/TemplateLaunch.thy ===== *)
theory TemplateLaunch
  imports TemplateEdit ScheduleForm
begin

text \<open>
  Turning a backtest into a schedule on the template page: the dialog with the score of a run
  (\<open>components/StrategyTemplateBacktestRunsPanel.tsx\<close>, \<open>StrategyTemplatePage.tsx\<close>), publishing a draft
  (\<open>StrategyTemplateScheduleLaunchModal.tsx\<close>), and the form with the trade permission of the account
  (\<open>StrategyTemplateScheduleLaunchForm.tsx\<close>).
\<close>

subsection \<open>The score of a run\<close>

text \<open>A request in flight keeps the id of the run.\<close>

record score_state =
  sc_open :: bool
  sc_loading :: bool
  sc_run_id :: string
  sc_run :: jv
  sc_metrics :: jv
  sc_template :: "string option"
  sc_draft :: "string option"
  sc_enable :: bool
  sc_runs :: "jv list"
  sc_tasks :: "(nat \<times> string) list"
  sc_next :: nat

definition opt_field :: "string option \<Rightarrow> jv" where
  "opt_field v = (case v of None \<Rightarrow> JUndef | Some s \<Rightarrow> JStr s)"

definition run_row_is :: "string \<Rightarrow> jv \<Rightarrow> bool" where
  "run_row_is i row \<longleftrightarrow> js_string (js_or (jget ''id'' row) (JStr [])) = i"

definition view_score :: "string \<Rightarrow> score_state \<Rightarrow> score_state" where
  "view_score i s =
     s\<lparr>sc_run_id := i, sc_open := True, sc_loading := True, sc_run := JUndef, sc_metrics := JUndef,
       sc_tasks := AList.update (sc_next s) i (sc_tasks s), sc_next := Suc (sc_next s)\<rparr>"

definition score_answered :: "nat \<Rightarrow> string \<Rightarrow> jv outcome \<Rightarrow> score_state \<Rightarrow> score_state" where
  "score_answered n i answer s =
     (let s = s\<lparr>sc_tasks := AList.delete n (sc_tasks s), sc_loading := False\<rparr>
      in case answer of
           Inl _ \<Rightarrow> s\<lparr>sc_run := JNull, sc_metrics := JNull\<rparr>
         | Inr snap \<Rightarrow>
             (let r = js_coalesce (jget ''run'' snap) JNull;
                  s = s\<lparr>sc_run := r, sc_metrics := js_coalesce (jget ''metrics'' snap) JNull\<rparr>;
                  (tid, draft) = get_run_template_ref r
              in if truthy r
                 then s\<lparr>sc_template := tid, sc_draft := draft, sc_enable := True,
                   sc_runs := update_where (run_row_is i) (\<lambda>row. jspread row (JObj
                     [(''templateId'', opt_field tid), (''templateDraftId'', opt_field draft)])) (sc_runs s)\<rparr>
                 else s))"

definition launch_template :: "string \<Rightarrow> score_state \<Rightarrow> score_state" where
  "launch_template tid s =
     s\<lparr>sc_run_id := [], sc_run := JUndef, sc_metrics := JUndef, sc_enable := True, sc_template := Some tid,
       sc_draft := None, sc_open := True\<rparr>"

definition score_cancel :: "score_state \<Rightarrow> score_state" where
  "score_cancel s = s\<lparr>sc_open := False, sc_run_id := [], sc_run := JUndef, sc_metrics := JUndef\<rparr>"

datatype score_event = ScView string | ScAnswer nat "jv outcome" | ScLaunch string | ScCancel

text \<open>The dialog covers the lists while it is open.\<close>

definition score_step :: "score_state \<Rightarrow> score_event \<Rightarrow> score_state" where
  "score_step s a =
     (case a of
        ScView i \<Rightarrow> if sc_open s then s else view_score i s
      | ScLaunch tid \<Rightarrow> if sc_open s then s else launch_template tid s
      | ScCancel \<Rightarrow> if sc_open s then score_cancel s else s
      | ScAnswer n answer \<Rightarrow>
          (case map_of (sc_tasks s) n of None \<Rightarrow> s | Some i \<Rightarrow> score_answered n i answer s))"

definition score_init :: "jv list \<Rightarrow> score_state" where
  "score_init rows = \<lparr>sc_open = False, sc_loading = False, sc_run_id = [], sc_run = JUndef, sc_metrics = JUndef,
     sc_template = None, sc_draft = None, sc_enable = True, sc_runs = rows, sc_tasks = [], sc_next = 0\<rparr>"

subsection \<open>Publishing the draft of a run\<close>

datatype publish_effect =
    PbToast toast
  | PbPublishing bool
  | PbGet string
  | PbPublish string
  | PbCreateDraft string
  | PbUpdateDraft update_template_request
  | PbAdopt string

definition published_id :: "jv \<Rightarrow> string" where
  "published_id resp = trimmed_field [jget ''id'' resp, jget ''id'' (jget ''template'' resp), jget ''templateId'' resp]"

text \<open>Adopting a template: the dialog goes on with it and the row of the run names it.\<close>

definition adopt_template :: "string \<Rightarrow> string \<Rightarrow> score_state \<Rightarrow> score_state" where
  "adopt_template run_id tid s = s\<lparr>sc_template := Some tid,
     sc_runs := update_where (run_row_is run_id) (\<lambda>row. jspread row (JObj [(''templateId'', JStr tid)])) (sc_runs s)\<rparr>"

record publish_answers =
  pa_draft :: "jv outcome"
  pa_published :: "jv outcome"
  pa_again :: "jv outcome"
  pa_new_draft :: "jv outcome"
  pa_updated :: "unit outcome"
  pa_republished :: "jv outcome"

definition draft_update :: "jv \<Rightarrow> string \<Rightarrow> string \<Rightarrow> string \<Rightarrow> update_template_request" where
  "draft_update tpl new_id base_name code =
     update_template_draft new_id
       (Some (let n = trimmed_field [jget ''name'' tpl] in if n = [] then base_name else n))
       (Some (trimmed_field [jget ''description'' tpl])) (Some code)
       (Some (jv_list (jget ''parameters'' tpl))) (Some (List.map js_string (jv_list (jget ''tags'' tpl))))"

definition unknown_status :: "(string \<Rightarrow> string) \<Rightarrow> publish_effect list" where
  "unknown_status t = [PbToast (ToastWarning (t ''strategy.templates.messages.templateNotDraftUnknownPublishStatus''))]"

definition republish :: "(string \<Rightarrow> string) \<Rightarrow> jv \<Rightarrow> publish_answers \<Rightarrow> publish_effect list" where
  "republish t tpl ans =
     (let fallback = t ''strategy.templates.defaultDraftName'';
          base_name = (let n = js_trim (js_string (js_or (jget ''name'' tpl) (JStr fallback))) in if n = [] then fallback else n)
      in PbCreateDraft base_name #
        (case pa_new_draft ans of
           Inl _ \<Rightarrow> unknown_status t
         | Inr d \<Rightarrow>
             (let new_id = trimmed_field [jget ''id'' d]; code = trimmed_field [jget ''code'' tpl]
              in if new_id = []
                 then [PbToast (ToastWarning (t ''strategy.templates.messages.cannotPublishAndCreateDraftFailed''))]
                 else if code = []
                 then [PbToast (ToastError (t ''strategy.templates.messages.strategyCodeEmptyCannotPublish''))]
                 else PbUpdateDraft (draft_update tpl new_id base_name code) #
                   (case pa_updated ans of
                      Inl _ \<Rightarrow> unknown_status t
                    | Inr _ \<Rightarrow> PbPublish new_id #
                        (case pa_republished ans of
                           Inl _ \<Rightarrow> unknown_status t
                         | Inr resp \<Rightarrow>
                             if published_id resp = []
                             then [PbToast (ToastWarning (t ''strategy.templates.messages.republishedButNoTemplateId''))]
                             else [PbAdopt (published_id resp),
                               PbToast (ToastSuccess (t ''strategy.templates.messages.templateRepublished''))])))))"

definition publish_error :: "(string \<Rightarrow> string) \<Rightarrow> string \<Rightarrow> jv \<Rightarrow> publish_answers \<Rightarrow> publish_effect list" where
  "publish_error t draft_id e ans =
     (if \<not> is_err_template_not_draft e
      then [PbToast (backtest_error t ''strategy.templates.messages.publishFailed'' e)]
      else PbGet draft_id #
        (case pa_again ans of
           Inl _ \<Rightarrow> unknown_status t
         | Inr tpl \<Rightarrow>
             if js_lower (trimmed_field [jget ''status'' tpl]) \<noteq> ''published'' then republish t tpl ans
             else [PbAdopt draft_id, PbToast (ToastInfo (t ''strategy.templates.messages.templateAlreadyPublished''))]))"

definition publish_draft :: "(string \<Rightarrow> string) \<Rightarrow> string \<Rightarrow> publish_answers \<Rightarrow> publish_effect list" where
  "publish_draft t draft_id ans =
     PbGet draft_id #
     (case pa_draft ans of
        Inl e \<Rightarrow> publish_error t draft_id e ans
      | Inr d \<Rightarrow>
          if trimmed_field [jget ''code'' d] = []
          then [PbToast (ToastError (t ''strategy.templates.messages.strategyCodeEmptyCannotPublish''))]
          else PbPublish draft_id #
            (case pa_published ans of
               Inl e \<Rightarrow> publish_error t draft_id e ans
             | Inr resp \<Rightarrow>
                 if published_id resp = []
                 then [PbToast (ToastWarning (t ''strategy.templates.messages.publishedButNoTemplateId''))]
                 else [PbAdopt (published_id resp), PbToast (ToastSuccess (t ''strategy.templates.messages.templatePublished''))]))"

definition handle_publish_template ::
    "(string \<Rightarrow> string) \<Rightarrow> jv \<Rightarrow> string option \<Rightarrow> publish_answers \<Rightarrow> publish_effect list" where
  "handle_publish_template t r draft ans =
     (let draft_id = trimmed_field [opt_field draft]
      in if \<not> is_terminal_run r
         then [PbToast (ToastWarning (t ''strategy.templates.messages.backtestRunningCannotPublish''))]
         else if draft_id = []
         then [PbToast (ToastError (t ''strategy.templates.messages.missingDraftIdCannotPublish''))]
         else [PbPublishing True] @ publish_draft t draft_id ans @ [PbPublishing False])"


subsection \<open>The accounts and the values of the form\<close>

record account_option =
  ao_id :: string
  ao_label :: string
  ao_mt_type :: string
  ao_investor :: bool
  ao_disabled :: bool

definition middle_dot :: string where
  "middle_dot = '' '' @ [CHR 0xC2, CHR 0xB7] @ '' ''"

definition account_option_of :: "jv \<Rightarrow> account_option" where
  "account_option_of a =
     (let i = js_string (js_or (jget ''id'' a) (JStr []));
          login = trimmed_field [jget ''login'' a];
          alias = trimmed_field [jget ''alias'' a];
          mt = js_upper (js_string (foldr js_or [jget ''mtType'' a, jget ''mt_type'' a] (JStr [])));
          base = (if login = [] then i else login) @ '' ('' @ mt @ '')''
      in \<lparr>ao_id = i, ao_label = (if alias \<noteq> [] \<and> alias \<noteq> login then base @ middle_dot @ alias else base),
          ao_mt_type = mt, ao_investor = truthy (js_coalesce (jget ''isInvestor'' a) (jget ''is_investor'' a)),
          ao_disabled = truthy (js_coalesce (jget ''isDisabled'' a) (jget ''is_disabled'' a))\<rparr>)"

definition normalize_accounts :: "jv list \<Rightarrow> account_option list" where
  "normalize_accounts accounts = filter (\<lambda>x. ao_id x \<noteq> [])
     (List.map account_option_of
       (filter (\<lambda>a. truthy a \<and> \<not> truthy (jget ''isDisabled'' a) \<and> \<not> truthy (jget ''is_disabled'' a)) accounts))"

text \<open>The parameters: the risk settings of the form, and over them the parameters of the strategy.\<close>

definition param_set :: "jv \<Rightarrow> bool" where
  "param_set v \<longleftrightarrow> \<not> nullish v \<and> v \<noteq> JStr []"

definition launch_parameters :: "schedule_form \<Rightarrow> (string \<times> jv) list \<Rightarrow> (string \<times> string) list" where
  "launch_parameters form values =
     foldl (\<lambda>out (k, v). if k = [] \<or> \<not> param_set v then out else AList.update k (js_string v) out)
       (build_parameters_from_form form) values"

subsection \<open>The trade permission of the account\<close>

record trade_permission =
  tp_loading :: bool
  tp_has :: bool
  tp_investor :: bool
  tp_verified :: bool
  tp_message :: string

definition no_permission :: trade_permission where
  "no_permission = \<lparr>tp_loading = False, tp_has = False, tp_investor = False, tp_verified = False, tp_message = []\<rparr>"

definition verify_trade_permission :: "jv \<Rightarrow> trade_permission" where
  "verify_trade_permission r =
     \<lparr>tp_loading = False, tp_has = truthy (jget ''hasTradePermission'' r), tp_investor = truthy (jget ''isInvestor'' r),
      tp_verified = truthy (jget ''verified'' r), tp_message = js_string (js_or (jget ''message'' r) (JStr []))\<rparr>"

datatype permission_task = PtVerify string bool | PtPassword string

text \<open>
  \<open>pm_current\<close> is the request of the effect that has not been cleaned up; a request to verify keeps what
  the list says of the account, one for a password the account that it is for.
\<close>

record permission_state =
  pm_open :: bool
  pm_account :: string
  pm_permission :: trade_permission
  pm_dialog :: bool
  pm_submitting :: bool
  pm_current :: "nat option"
  pm_tasks :: "(nat \<times> permission_task) list"
  pm_next :: nat

definition permission_init :: permission_state where
  "permission_init = \<lparr>pm_open = False, pm_account = [], pm_permission = no_permission, pm_dialog = False,
     pm_submitting = False, pm_current = None, pm_tasks = [], pm_next = 0\<rparr>"

definition is_investor :: "account_option list \<Rightarrow> string \<Rightarrow> bool" where
  "is_investor accounts i = (case List.find (\<lambda>x. ao_id x = i) accounts of None \<Rightarrow> False | Some x \<Rightarrow> ao_investor x)"

definition permission_effect :: "account_option list \<Rightarrow> permission_state \<Rightarrow> permission_state" where
  "permission_effect accounts s =
     (let i = pm_account s; investor = is_investor accounts i
      in if \<not> pm_open s \<or> i = [] then s\<lparr>pm_permission := no_permission, pm_current := None\<rparr>
         else s\<lparr>pm_permission := \<lparr>tp_loading = True, tp_has = \<not> investor, tp_investor = investor, tp_verified = False,
                  tp_message = []\<rparr>,
                pm_current := Some (pm_next s),
                pm_tasks := AList.update (pm_next s) (PtVerify i investor) (pm_tasks s), pm_next := Suc (pm_next s)\<rparr>)"

definition select_account :: "account_option list \<Rightarrow> bool \<Rightarrow> string \<Rightarrow> permission_state \<Rightarrow> permission_state" where
  "select_account accounts opened i s =
     (if pm_open s = opened \<and> pm_account s = i then s
      else permission_effect accounts (s\<lparr>pm_open := opened, pm_account := i\<rparr>))"

definition permission_answered :: "nat \<Rightarrow> bool \<Rightarrow> jv outcome \<Rightarrow> permission_state \<Rightarrow> permission_state" where
  "permission_answered n investor answer s =
     (let s = s\<lparr>pm_tasks := AList.delete n (pm_tasks s)\<rparr>
      in if pm_current s \<noteq> Some n then s
         else s\<lparr>pm_permission := (case answer of
             Inr r \<Rightarrow> verify_trade_permission r
           | Inl e \<Rightarrow> no_permission\<lparr>tp_investor := investor,
               tp_message := js_string (foldr js_or [jget ''message'' e, e] (JStr []))\<rparr>)\<rparr>)"

definition password_submit :: "string \<Rightarrow> permission_state \<Rightarrow> permission_state" where
  "password_submit password s =
     (if password = [] \<or> pm_account s = [] then s
      else s\<lparr>pm_submitting := True, pm_tasks := AList.update (pm_next s) (PtPassword (pm_account s)) (pm_tasks s),
             pm_next := Suc (pm_next s)\<rparr>)"

definition password_answered ::
    "(string \<Rightarrow> string) \<Rightarrow> nat \<Rightarrow> jv outcome \<Rightarrow> permission_state \<Rightarrow> permission_state \<times> toast list" where
  "password_answered t n answer s =
     (let s = s\<lparr>pm_tasks := AList.delete n (pm_tasks s), pm_submitting := False\<rparr>
      in case answer of
           Inl e \<Rightarrow> (s, [ToastError (js_string (js_or (jget ''message'' e) e))])
         | Inr r \<Rightarrow>
             (let text = js_string (js_or (jget ''message'' r) (JStr []))
              in if \<not> truthy (jget ''success'' r)
                 then (s, [ToastError (if text = [] then t ''strategy.templates.scheduleLaunch.updatePasswordFailed'' else text)])
                 else (s\<lparr>pm_dialog := False,
                         pm_permission := (verify_trade_permission r)\<lparr>tp_verified := True\<rparr>\<rparr>,
                   [if truthy (jget ''isInvestor'' r)
                    then ToastWarning (t ''strategy.templates.scheduleLaunch.updatePasswordStillInvestor'')
                    else ToastSuccess (t ''strategy.templates.scheduleLaunch.updatePasswordOk'')])))"

datatype permission_event =
    PmSelect bool string
  | PmVerified nat "jv outcome"
  | PmDialog bool
  | PmPassword string
  | PmPasswordAnswer nat "jv outcome"

definition permission_step ::
    "(string \<Rightarrow> string) \<Rightarrow> account_option list \<Rightarrow> permission_state \<Rightarrow> permission_event \<Rightarrow> permission_state" where
  "permission_step t accounts s a =
     (case a of
        PmSelect opened i \<Rightarrow> if pm_dialog s then s else select_account accounts opened i s
      | PmVerified n answer \<Rightarrow>
          (case map_of (pm_tasks s) n of Some (PtVerify _ investor) \<Rightarrow> permission_answered n investor answer s | _ \<Rightarrow> s)
      | PmDialog opened \<Rightarrow> s\<lparr>pm_dialog := opened, pm_submitting := pm_submitting s \<and> opened\<rparr>
      | PmPassword password \<Rightarrow> if pm_dialog s then password_submit password s else s
      | PmPasswordAnswer n answer \<Rightarrow>
          (case map_of (pm_tasks s) n of Some (PtPassword _) \<Rightarrow> fst (password_answered t n answer s) | _ \<Rightarrow> s))"

text \<open>The button of the form: \<open>Inl\<close> what is shown instead of a submission.\<close>

definition handle_finish ::
    "(string \<Rightarrow> string) \<Rightarrow> (string \<Rightarrow> string \<Rightarrow> string) \<Rightarrow> trade_permission \<Rightarrow> param_spec list \<Rightarrow> (string \<times> jv) list \<Rightarrow>
     schedule_form \<Rightarrow> toast + (string \<times> string) list" where
  "handle_finish t tk permission specs values form =
     (if tp_verified permission \<and> tp_investor permission
      then Inl (ToastError (t ''strategy.templates.scheduleLaunch.errorInvestorAccount''))
      else if missing_params specs values \<noteq> []
      then Inl (ToastError (tk ''strategy.codeAssist.fillRequiredParams'' (js_join '', '' (missing_params specs values))))
      else Inr (launch_parameters form values))"


subsection \<open>The parameters that the template asks for\<close>

text \<open>\<open>an_current\<close> is the request of the effect that has not been cleaned up.\<close>

datatype analysis_task = AnGet string | AnCheck string

record analysis_state =
  an_open :: bool
  an_template :: "string option"
  an_params :: "param_spec list"
  an_values :: "(string \<times> jv) list"
  an_current :: "nat option"
  an_tasks :: "(nat \<times> analysis_task) list"
  an_next :: nat

definition analysis_init :: analysis_state where
  "analysis_init = \<lparr>an_open = False, an_template = None, an_params = [], an_values = [], an_current = None,
     an_tasks = [], an_next = 0\<rparr>"

definition analysis_effect :: "analysis_state \<Rightarrow> analysis_state" where
  "analysis_effect s =
     (let s = s\<lparr>an_params := [], an_values := [], an_current := None\<rparr>
      in case an_template s of
           None \<Rightarrow> s
         | Some tid \<Rightarrow>
             if \<not> an_open s \<or> tid = [] then s
             else s\<lparr>an_current := Some (an_next s), an_tasks := AList.update (an_next s) (AnGet tid) (an_tasks s),
               an_next := Suc (an_next s)\<rparr>)"

definition analysis_failed :: "nat \<Rightarrow> analysis_state \<Rightarrow> analysis_state" where
  "analysis_failed n s =
     (let s = s\<lparr>an_tasks := AList.delete n (an_tasks s)\<rparr>
      in if an_current s = Some n then s\<lparr>an_params := []\<rparr> else s)"

definition analysis_got :: "nat \<Rightarrow> string \<Rightarrow> jv outcome \<Rightarrow> analysis_state \<Rightarrow> analysis_state" where
  "analysis_got n tid answer s =
     (case answer of
        Inl _ \<Rightarrow> analysis_failed n s
      | Inr tpl \<Rightarrow>
          if js_trim (template_code tpl) = [] then s\<lparr>an_tasks := AList.delete n (an_tasks s)\<rparr>
          else s\<lparr>an_tasks := AList.update n (AnCheck tid) (an_tasks s)\<rparr>)"

definition analysis_checked :: "nat \<Rightarrow> code_check outcome \<Rightarrow> analysis_state \<Rightarrow> analysis_state" where
  "analysis_checked n answer s =
     (case answer of
        Inl _ \<Rightarrow> analysis_failed n s
      | Inr c \<Rightarrow>
          (let s = s\<lparr>an_tasks := AList.delete n (an_tasks s)\<rparr>
           in if an_current s = Some n \<and> cc_valid c then s\<lparr>an_params := cc_params c\<rparr> else s))"

datatype analysis_event =
    AnShow bool "string option"
  | AnGot nat "jv outcome"
  | AnChecked nat "code_check outcome"
  | AnFill "(string \<times> jv) list"

definition analysis_step :: "analysis_state \<Rightarrow> analysis_event \<Rightarrow> analysis_state" where
  "analysis_step s a =
     (case a of
        AnShow opened tid \<Rightarrow>
          if an_open s = opened \<and> an_template s = tid then s
          else analysis_effect (s\<lparr>an_open := opened, an_template := tid\<rparr>)
      | AnGot n answer \<Rightarrow> (case map_of (an_tasks s) n of Some (AnGet tid) \<Rightarrow> analysis_got n tid answer s | _ \<Rightarrow> s)
      | AnChecked n answer \<Rightarrow> (case map_of (an_tasks s) n of Some (AnCheck _) \<Rightarrow> analysis_checked n answer s | _ \<Rightarrow> s)
      | AnFill values \<Rightarrow> s\<lparr>an_values := values\<rparr>)"

subsection \<open>What publishing guarantees\<close>

definition adopted :: "publish_effect list \<Rightarrow> string list" where
  "adopted es = concat (List.map (\<lambda>e. case e of PbAdopt tid \<Rightarrow> [tid] | _ \<Rightarrow> []) es)"

lemma adopted_simps [simp]:
  "adopted [] = []" "adopted (es @ fs) = adopted es @ adopted fs" "adopted (PbAdopt tid # es) = tid # adopted es"
  "adopted (PbToast m # es) = adopted es" "adopted (PbPublishing b # es) = adopted es" "adopted (PbGet i # es) = adopted es"
  "adopted (PbPublish i # es) = adopted es" "adopted (PbCreateDraft n # es) = adopted es"
  "adopted (PbUpdateDraft rq # es) = adopted es"
  by (simp_all add: adopted_def)

text \<open>The template is one that the service says it published.\<close>

definition published_by :: "publish_answers \<Rightarrow> string \<Rightarrow> string \<Rightarrow> bool" where
  "published_by ans draft_id tid \<longleftrightarrow> tid \<noteq> [] \<and>
     ((\<exists>resp. pa_published ans = Inr resp \<and> tid = published_id resp) \<or>
      (\<exists>resp. pa_republished ans = Inr resp \<and> tid = published_id resp) \<or>
      tid = draft_id \<and> (\<exists>tpl. pa_again ans = Inr tpl \<and> js_lower (trimmed_field [jget ''status'' tpl]) = ''published''))"

definition adopts_published :: "publish_answers \<Rightarrow> string \<Rightarrow> publish_effect list \<Rightarrow> bool" where
  "adopts_published ans draft_id es \<longleftrightarrow>
     adopted es = [] \<or> (\<exists>tid. adopted es = [tid] \<and> published_by ans draft_id tid)"

lemma adopts_simps [simp]:
  "adopts_published ans d []" "adopts_published ans d (PbToast m # es) = adopts_published ans d es"
  "adopts_published ans d (PbGet i # es) = adopts_published ans d es"
  "adopts_published ans d (PbPublish i # es) = adopts_published ans d es"
  "adopts_published ans d (PbPublishing b # es) = adopts_published ans d es"
  "adopts_published ans d (PbCreateDraft i # es) = adopts_published ans d es"
  "adopts_published ans d (PbUpdateDraft rq # es) = adopts_published ans d es"
  "adopts_published ans d [PbAdopt tid, PbToast m] = published_by ans d tid"
  "adopts_published ans d (unknown_status t)" "adopts_published ans d (es @ [PbPublishing b]) = adopts_published ans d es"
  by (auto simp: adopts_published_def unknown_status_def)

lemma adopts_republish: "adopts_published ans draft_id (republish t tpl ans)"
  by (auto simp: republish_def published_by_def Let_def split: sum.split)

lemma adopts_publish_error: "draft_id \<noteq> [] \<Longrightarrow> adopts_published ans draft_id (publish_error t draft_id e ans)"
  by (auto simp: publish_error_def adopts_republish published_by_def split: sum.split)

lemma adopts_publish_draft: "draft_id \<noteq> [] \<Longrightarrow> adopts_published ans draft_id (publish_draft t draft_id ans)"
  by (auto simp: publish_draft_def adopts_publish_error published_by_def split: sum.split)

text \<open>
  C27. Publishing goes on with at most one template, which is one that the service says it published; the busy
  mark goes down after it went up.
\<close>

theorem publish_adopts_published:
  "let es = handle_publish_template t r draft ans
   in adopts_published ans (trimmed_field [opt_field draft]) es \<and>
      (PbPublishing True \<in> set es \<longleftrightarrow> last es = PbPublishing False)"
proof -
  have "PbPublishing b \<notin> set (publish_draft t draft_id ans)" for b draft_id
    by (auto simp: publish_draft_def publish_error_def republish_def unknown_status_def backtest_error_def Let_def
        split: sum.splits)
  then show ?thesis
    using adopts_publish_draft [of "trimmed_field [opt_field draft]" ans t]
    by (auto simp: handle_publish_template_def Let_def)
qed

subsection \<open>What the dialog is about\<close>

text \<open>
  A template that is opened for a schedule while the score of a run is still loading gives way, in the open
  dialog, to the template of that run.
\<close>

theorem late_score_changes_template:
  fixes rows snap i tid
  assumes "truthy (jget ''run'' snap)"
  defines "before \<equiv> run score_step (score_init rows) [ScView i, ScCancel, ScLaunch tid]"
  defines "after \<equiv> score_step before (ScAnswer 0 (Inr snap))"
  shows "sc_template before = Some tid \<and> sc_open after \<and> sc_template after = fst (get_run_template_ref (jget ''run'' snap)) \<and>
    sc_run after = jget ''run'' snap"
proof -
  have "js_coalesce (jget ''run'' snap) JNull = jget ''run'' snap"
    using assms(1) by (cases "jget ''run'' snap") (simp_all add: js_coalesce_def)
  then show ?thesis
    using assms(1)
    by (cases "get_run_template_ref (jget ''run'' snap)")
       (simp add: before_def after_def run_def score_step_def score_init_def view_score_def score_cancel_def launch_template_def
         score_answered_def Let_def)
qed

subsection \<open>What the trade permission is about\<close>

definition asks_for :: "string \<Rightarrow> permission_task \<Rightarrow> bool" where
  "asks_for i k = (case k of PtVerify j _ \<Rightarrow> j = i | PtPassword _ \<Rightarrow> True)"

definition permission_inv :: "permission_state \<Rightarrow> bool" where
  "permission_inv s \<longleftrightarrow> fresh_table (pm_next s) (pm_tasks s) \<and>
     (\<forall>n. pm_current s = Some n \<longrightarrow>
        n < pm_next s \<and> (\<forall>k. map_of (pm_tasks s) n = Some k \<longrightarrow> asks_for (pm_account s) k))"

lemma asks_for_simps [simp]: "asks_for i (PtVerify j b) = (j = i)" "asks_for i (PtPassword j)"
  by (simp_all add: asks_for_def)

lemma fresh_table_insert: "fresh_table n al \<Longrightarrow> fresh_table (Suc n) (AList.update n x al)"
  by (auto simp: fresh_table_def set_update distinct_update less_Suc_eq)

lemma permission_inv_effect: "fresh_table (pm_next s) (pm_tasks s) \<Longrightarrow> permission_inv (permission_effect accounts s)"
  by (auto simp: permission_effect_def permission_inv_def Let_def update_conv' intro: fresh_table_insert)

lemma permission_inv_drop:
  assumes "permission_inv s"
  shows "permission_inv (s\<lparr>pm_tasks := AList.delete n (pm_tasks s)\<rparr>)"
  using assms by (auto simp: permission_inv_def delete_conv' split: option.splits)

lemma permission_inv_fields:
  "permission_inv (s\<lparr>pm_permission := p\<rparr>) = permission_inv s" "permission_inv (s\<lparr>pm_submitting := b\<rparr>) = permission_inv s"
  "permission_inv (s\<lparr>pm_dialog := c\<rparr>) = permission_inv s"
  by (simp_all add: permission_inv_def)

lemma permission_inv_submit:
  assumes "permission_inv s"
  shows "permission_inv (password_submit password s)"
  using assms
  by (auto simp: password_submit_def permission_inv_def update_conv' intro: fresh_table_insert)

lemma permission_inv_password:
  assumes "permission_inv s"
  shows "permission_inv (fst (password_answered t n answer s))"
  using permission_inv_drop [OF assms, of n]
  by (auto simp: password_answered_def Let_def permission_inv_def split: sum.split)

lemma permission_inv_answered:
  assumes "permission_inv s"
  shows "permission_inv (permission_answered n investor answer s)"
  using permission_inv_drop [OF assms, of n]
  by (auto simp: permission_answered_def Let_def permission_inv_def split: sum.split)

lemma permission_inv_select:
  assumes "permission_inv s"
  shows "permission_inv (select_account accounts opened i s)"
  using assms permission_inv_effect [of "s\<lparr>pm_open := opened, pm_account := i\<rparr>" accounts]
  by (auto simp: select_account_def permission_inv_def [of s])

lemma permission_inv_step: "permission_inv s \<Longrightarrow> permission_inv (permission_step t accounts s a)"
  by (cases a) (auto simp: permission_step_def permission_inv_select permission_inv_answered permission_inv_submit
      permission_inv_password split: option.split permission_task.split, simp add: permission_inv_def)

interpretation permissions: machine permission_init "permission_step t accounts" permission_inv
  by unfold_locales (simp add: permission_inv_def permission_init_def, rule permission_inv_step)

text \<open>
  A verification changes the permission that is shown only when it was asked for the account that is
  selected.
\<close>

theorem verified_account_is_selected:
  assumes "s = run (permission_step t accounts) permission_init as"
    and "pm_permission (permission_step t accounts s (PmVerified n answer)) \<noteq> pm_permission s"
  shows "\<exists>investor. map_of (pm_tasks s) n = Some (PtVerify (pm_account s) investor)"
proof -
  have "permission_inv s" unfolding assms(1) by (rule permissions.inv_run)
  with assms(2) show ?thesis
    by (auto simp: permission_step_def permission_answered_def permission_inv_def asks_for_def Let_def
        split: option.splits permission_task.splits if_splits)
qed

text \<open>
  The answer for a password whose dialog was closed counts for the account that is selected by then: the
  form takes it for verified although nothing was asked about it.
\<close>

theorem late_password_marks_other_account:
  fixes accounts t
  assumes "a \<noteq> []" "b \<noteq> []" "a \<noteq> b" "password \<noteq> []" "truthy (jget ''success'' r)" "truthy (jget ''hasTradePermission'' r)"
  defines "s \<equiv> run (permission_step t accounts) permission_init
    [PmSelect True a, PmDialog True, PmPassword password, PmDialog False, PmSelect True b, PmPasswordAnswer 1 (Inr r)]"
  shows "pm_account s = b \<and> tp_verified (pm_permission s) \<and> tp_has (pm_permission s) \<and> \<not> tp_loading (pm_permission s)"
  using assms
  by (simp add: run_def permission_step_def permission_init_def select_account_def permission_effect_def password_submit_def
      password_answered_def verify_trade_permission_def Let_def)


subsection \<open>Which template the parameters belong to\<close>

fun about :: "string option \<Rightarrow> analysis_task \<Rightarrow> bool" where
  "about tid (AnGet i) = (tid = Some i)"
| "about tid (AnCheck i) = (tid = Some i)"

definition analysis_inv :: "analysis_state \<Rightarrow> bool" where
  "analysis_inv s \<longleftrightarrow> fresh_table (an_next s) (an_tasks s) \<and>
     (\<forall>n. an_current s = Some n \<longrightarrow> (\<forall>k. map_of (an_tasks s) n = Some k \<longrightarrow> about (an_template s) k))"

lemma analysis_inv_effect: "fresh_table (an_next s) (an_tasks s) \<Longrightarrow> analysis_inv (analysis_effect s)"
  by (auto simp: analysis_effect_def analysis_inv_def Let_def update_conv' split: option.split intro: fresh_table_insert)

lemma analysis_inv_drop: "analysis_inv s \<Longrightarrow> analysis_inv (s\<lparr>an_tasks := AList.delete n (an_tasks s)\<rparr>)"
  by (auto simp: analysis_inv_def delete_conv')

lemma analysis_inv_params [simp]: "analysis_inv (s\<lparr>an_params := ps\<rparr>) = analysis_inv s" "analysis_inv (s\<lparr>an_values := vs\<rparr>) = analysis_inv s"
  by (simp_all add: analysis_inv_def)

lemma analysis_inv_failed: "analysis_inv s \<Longrightarrow> analysis_inv (analysis_failed n s)"
  using analysis_inv_drop [of s n] by (simp add: analysis_failed_def Let_def)

lemma analysis_inv_checked: "analysis_inv s \<Longrightarrow> analysis_inv (analysis_checked n answer s)"
  using analysis_inv_drop [of s n] by (simp add: analysis_checked_def analysis_inv_failed Let_def split: sum.split)

lemma analysis_inv_got:
  assumes "analysis_inv s" "map_of (an_tasks s) n = Some (AnGet tid)"
  shows "analysis_inv (analysis_got n tid answer s)"
proof -
  have "n < an_next s" using assms fresh_table_lt by (auto simp: analysis_inv_def)
  then have "analysis_inv (s\<lparr>an_tasks := AList.update n (AnCheck tid) (an_tasks s)\<rparr>)"
    using assms by (auto simp: analysis_inv_def update_conv')
  then show ?thesis
    using assms(1) analysis_inv_drop [of s n] by (simp add: analysis_got_def analysis_inv_failed split: sum.split)
qed

lemma analysis_inv_show:
  "analysis_inv s \<Longrightarrow> analysis_inv (analysis_effect (s\<lparr>an_open := opened, an_template := tid\<rparr>))"
  by (rule analysis_inv_effect) (simp add: analysis_inv_def)

lemma analysis_inv_step: "analysis_inv s \<Longrightarrow> analysis_inv (analysis_step s a)"
  by (cases a) (auto simp: analysis_step_def analysis_inv_show analysis_inv_got analysis_inv_checked
      split: option.split analysis_task.split)

interpretation launch_analysis: machine analysis_init analysis_step analysis_inv
  by unfold_locales (simp add: analysis_inv_def analysis_init_def, rule analysis_inv_step)

text \<open>
  An analysis changes the parameters that the form asks for only when it is one of the template that the
  dialog is about, so the race of the backtest dialog does not happen here.
\<close>

theorem analysed_template_is_shown:
  assumes "s = run analysis_step analysis_init as" "an_params (analysis_step s (AnChecked n answer)) \<noteq> an_params s"
  shows "\<exists>tid. map_of (an_tasks s) n = Some (AnCheck tid) \<and> an_template s = Some tid"
proof -
  have "analysis_inv s" unfolding assms(1) by (rule launch_analysis.inv_run)
  with assms(2) show ?thesis
    by (auto simp: analysis_step_def analysis_checked_def analysis_failed_def analysis_inv_def Let_def
        split: option.splits analysis_task.splits sum.splits if_splits)
qed

subsection \<open>Examples\<close>

definition demo_score :: jv where
  "demo_score = JObj [(''run'', JObj [(''id'', JStr ''r''), (''templateId'', JStr ''t-run'')]), (''metrics'', JNull)]"

theorem late_score_changes_template_witness:
  "sc_template (score_step (run score_step (score_init []) [ScView ''r'', ScCancel, ScLaunch ''t-list'']) (ScAnswer 0 (Inr demo_score))) =
     Some ''t-run''"
proof -
  have "truthy (jget ''run'' demo_score)" "fst (get_run_template_ref (jget ''run'' demo_score)) = Some ''t-run''"
    by code_simp+
  with late_score_changes_template [of demo_score "[]" "''r''" "''t-list''"] show ?thesis by simp
qed

definition demo_verify :: permission_state where
  "demo_verify = run (permission_step id []) permission_init [PmSelect True ''a1'']"

theorem verified_account_is_selected_witness:
  "\<exists>investor. map_of (pm_tasks demo_verify) 0 = Some (PtVerify (pm_account demo_verify) investor)"
proof (rule verified_account_is_selected)
  show "demo_verify = run (permission_step id []) permission_init [PmSelect True ''a1'']" by (rule demo_verify_def)
  show "pm_permission (permission_step id [] demo_verify (PmVerified 0 (Inr JNull))) \<noteq> pm_permission demo_verify"
    by code_simp
qed

theorem late_password_marks_other_account_witness:
  "tp_verified (pm_permission (run (permission_step id []) permission_init
    [PmSelect True ''a1'', PmDialog True, PmPassword ''x'', PmDialog False, PmSelect True ''a2'',
     PmPasswordAnswer 1 (Inr (JObj [(''success'', JBool True), (''hasTradePermission'', JBool True)]))]))"
proof -
  let ?r = "JObj [(''success'', JBool True), (''hasTradePermission'', JBool True)]"
  have "''a1'' \<noteq> []" "''a2'' \<noteq> []" "''a1'' \<noteq> ''a2''" "''x'' \<noteq> []" "truthy (jget ''success'' ?r)"
    "truthy (jget ''hasTradePermission'' ?r)" by (simp_all add: jget_def)
  from late_password_marks_other_account [OF this] show ?thesis by blast
qed

definition demo_analysis :: analysis_state where
  "demo_analysis = run analysis_step analysis_init [AnShow True (Some ''t1''), AnGot 0 (Inr demo_template)]"

theorem analysed_template_is_shown_witness:
  "\<exists>tid. map_of (an_tasks demo_analysis) 0 = Some (AnCheck tid) \<and> an_template demo_analysis = Some tid"
proof (rule analysed_template_is_shown)
  show "demo_analysis = run analysis_step analysis_init [AnShow True (Some ''t1''), AnGot 0 (Inr demo_template)]"
    by (rule demo_analysis_def)
  show "an_params (analysis_step demo_analysis (AnChecked 0 (Inr (demo_check ''fast'')))) \<noteq> an_params demo_analysis"
    by code_simp
qed

end
