(* ===== verification/SystemAi.thy ===== *)
theory SystemAi
  imports TaskTable
begin

text \<open>
  The settings of the AI providers (\<open>pages/ai/systemai/hooks.ts\<close>, with \<open>api.ts\<close>, \<open>constants.ts\<close> and the
  handlers of \<open>pages/ai/SystemAI.tsx\<close>): one provider is edited at a time, its key is saved, its models are
  looked up and its connection is checked by timers that start when the draft changes.

  The timers are effects of React: after every event each of the three compares its dependencies with those
  of its last run and, where they differ, clears its timer and may start another one.  A timer keeps the
  draft of the run that started it.  What the URL parser says of the scheme is an argument.
\<close>

subsection \<open>Providers\<close>

record sys_config =
  sg_id :: string
  sg_name :: string
  sg_base_url :: string
  sg_organization :: string
  sg_models :: "string list"
  sg_default_model :: string
  sg_temperature :: jsnum
  sg_timeout :: jsnum
  sg_max_tokens :: jsnum
  sg_purposes :: "string list"
  sg_primary_for :: "string list"
  sg_enabled :: bool
  sg_has_secret :: bool
  sg_updated_at :: string

definition is_custom :: "string \<Rightarrow> bool" where
  "is_custom i \<longleftrightarrow> i = ''openai_compatible'' \<or> js_starts i ''openai_compatible_''"

definition official_base_urls :: "(string \<times> string) list" where
  "official_base_urls =
     [(''openai'', ''https://api.openai.com/v1''),
      (''anthropic'', ''https://api.anthropic.com/v1''),
      (''deepseek'', ''https://api.deepseek.com/v1''),
      (''moonshot'', ''https://api.moonshot.cn/v1''),
      (''qwen'', ''https://dashscope.aliyuncs.com/compatible-mode/v1''),
      (''zhipu'', ''https://open.bigmodel.cn/api/paas/v4'')]"

definition official_base :: "string \<Rightarrow> string" where
  "official_base i = (case map_of official_base_urls i of None \<Rightarrow> [] | Some u \<Rightarrow> u)"

definition enforced_base :: "sys_config \<Rightarrow> string" where
  "enforced_base c = (if is_custom (sg_id c) then sg_base_url c else official_base (sg_id c))"

definition new_custom :: "string \<Rightarrow> sys_config" where
  "new_custom i = \<lparr>sg_id = i, sg_name = [], sg_base_url = [], sg_organization = [], sg_models = [],
     sg_default_model = [], sg_temperature = Fin (1/5), sg_timeout = Fin 300, sg_max_tokens = Fin 4096,
     sg_purposes = [], sg_primary_for = [], sg_enabled = False, sg_has_secret = False, sg_updated_at = []\<rparr>"

subsection \<open>Requests\<close>

record config_request =
  cr_provider :: string
  cr_name :: string
  cr_base_url :: string
  cr_organization :: string
  cr_models :: "string list"
  cr_default_model :: string
  cr_temperature :: jsnum
  cr_timeout :: jsnum
  cr_max_tokens :: jsnum
  cr_purposes :: "string list"
  cr_primary_for :: "string list"
  cr_enabled :: bool

definition payload_number :: "jsnum \<Rightarrow> jsnum" where
  "payload_number n = (if truthy (JNum n) then n else Fin 0)"

definition config_request_of :: "sys_config \<Rightarrow> config_request" where
  "config_request_of c = \<lparr>cr_provider = sg_id c, cr_name = sg_name c, cr_base_url = sg_base_url c,
     cr_organization = sg_organization c, cr_models = sg_models c, cr_default_model = sg_default_model c,
     cr_temperature = payload_number (sg_temperature c), cr_timeout = payload_number (sg_timeout c),
     cr_max_tokens = payload_number (sg_max_tokens c), cr_purposes = sg_purposes c, cr_primary_for = sg_primary_for c,
     cr_enabled = sg_enabled c\<rparr>"

datatype sys_effect =
    SeList
  | SeConfig config_request
  | SeSecret string string
  | SeDiscover string
  | SeValidate string

subsection \<open>Messages\<close>

definition discover_key :: "string \<Rightarrow> string" where
  "discover_key k = ''ai.settings.discoverErrors.'' @ k"

text \<open>The texts that pick a message; the second list is matched in lower case.\<close>

definition says :: "string list \<Rightarrow> string \<Rightarrow> bool" where
  "says ps m \<longleftrightarrow> (\<exists>p \<in> set ps. js_includes m p)"

definition to_friendly_discover_message :: "(string \<Rightarrow> string) \<Rightarrow> (string \<Rightarrow> string \<Rightarrow> string) \<Rightarrow> string \<Rightarrow> string" where
  "to_friendly_discover_message t td m =
     (let low = js_lower m
      in if m = ''__DISCOVER_BASE_URL_EMPTY__'' \<or> js_includes m ''base_url'' then t (discover_key ''baseUrlRequired'')
         else if js_includes m ''base url format invalid'' then t (discover_key ''baseUrlInvalid'')
         else if says [''free-tier exhausted'', ''freetieronly'', ''free tier'', ''free-tier only''] low
         then t (discover_key ''freeTierExhausted'')
         else if says [''quota exhausted'', ''[resource_exhausted]'', ''status 429'', ''too many requests'', ''rate limit''] low
         then t (discover_key ''quotaOrRateLimit'')
         else if js_includes low ''status 403'' \<and> says [''quota'', ''exhaust'', ''allocation''] low
         then t (discover_key ''quotaForbidden403'')
         else if js_includes m ''unauthorized'' then t (discover_key ''unauthorized'')
         else if js_includes m ''endpoint'' then t (discover_key ''endpoint404'')
         else if js_includes m ''timeout'' then t (discover_key ''timeout'')
         else if js_includes m ''unreachable'' then t (discover_key ''unreachable'')
         else if js_includes m ''invalid /models'' then t (discover_key ''invalidModelsResponse'')
         else if js_includes m ''no models returned'' then t (discover_key ''noModelsReturned'')
         else if js_includes low ''user location is not supported'' then t (discover_key ''providerRegionBlocked'')
         else if js_trim m \<noteq> [] then td (discover_key ''genericDetail'') (js_trim m)
         else t (discover_key ''generic''))"

text \<open>What the page tells: the texts that are not translated are named by their place.\<close>

datatype sys_notice =
    TipNone
  | TipText string
  | TipSecretSaved
  | TipFound nat
  | TipAutoValidated nat
  | TipValidated nat
  | TipSaved
  | TipEnabled bool
  | TipReset

datatype sys_problem = PrNone | PrText string | PrLoadFailed | PrClearFailed | PrNeedsKey

text \<open>What can be asked of the translations and of the URL parser.\<close>

record sys_env =
  sv_t :: "string \<Rightarrow> string"
  sv_td :: "string \<Rightarrow> string \<Rightarrow> string"
  sv_scheme :: "string \<Rightarrow> string option"

definition validate_base_url :: "sys_env \<Rightarrow> string \<Rightarrow> string option" where
  "validate_base_url env v =
     (let u = js_trim v
      in if u = [] then Some ''__DISCOVER_BASE_URL_EMPTY__''
         else if sv_scheme env u \<in> {Some ''http:'', Some ''https:''} then None
         else Some ''base url format invalid'')"

definition friendly :: "sys_env \<Rightarrow> string \<Rightarrow> sys_problem" where
  "friendly env m = PrText (to_friendly_discover_message (sv_t env) (sv_td env) m)"

definition name_required :: "sys_env \<Rightarrow> string" where
  "name_required env = sv_t env ''ai.systemAI.customProvider.nameRequired''"

text \<open>\<open>persistDraftConfig\<close> throws for a custom provider without a name.\<close>

definition name_missing :: "sys_config \<Rightarrow> bool" where
  "name_missing c \<longleftrightarrow> is_custom (sg_id c) \<and> js_trim (sg_name c) = []"

subsection \<open>The state\<close>

text \<open>A suspended operation, with what its closure keeps.\<close>

datatype sys_task =
    SxList bool
  | SxSecret sys_config string
  | SxDiscoverSave sys_config string
  | SxDiscover sys_config string
  | SxValidateSave sys_config string bool
  | SxValidateSecret sys_config string bool
  | SxValidate sys_config string bool
  | SxSave sys_config
  | SxEnable sys_config bool
  | SxClear sys_config "sys_config list"
  | SxReset sys_config

record sys_state =
  sx_configs :: "sys_config list"
  sx_loading :: bool
  sx_saving_config :: bool
  sx_saving_secret :: bool
  sx_validating :: bool
  sx_discovering :: bool
  sx_validated :: bool
  sx_selected :: string
  sx_prev :: string
  sx_draft :: "sys_config option"
  sx_secret :: string
  sx_notice :: sys_notice
  sx_error :: sys_problem
  sx_discover_key :: string
  sx_saved_key :: string
  sx_validate_key :: string
  sx_models :: "string list"
  sx_secret_deps :: "(string option \<times> string \<times> string) option"
  sx_secret_timer :: "(sys_config \<times> string \<times> string) option"
  sx_discover_deps :: "(string option \<times> string option \<times> bool option \<times> string \<times> string) option"
  sx_discover_timer :: "(sys_config \<times> string \<times> string) option"
  sx_validate_deps :: "(string option \<times> string option \<times> string option \<times> bool option \<times> string \<times> string) option"
  sx_validate_timer :: "(sys_config \<times> string \<times> string) option"
  sx_tasks :: "(nat \<times> sys_task) list"
  sx_next :: nat


definition sys_init :: sys_state where
  "sys_init = \<lparr>sx_configs = [], sx_loading = True, sx_saving_config = False, sx_saving_secret = False,
     sx_validating = False, sx_discovering = False, sx_validated = False, sx_selected = [], sx_prev = [],
     sx_draft = None, sx_secret = [], sx_notice = TipNone, sx_error = PrNone, sx_discover_key = [], sx_saved_key = [],
     sx_validate_key = [], sx_models = [], sx_secret_deps = None, sx_secret_timer = None, sx_discover_deps = None,
     sx_discover_timer = None, sx_validate_deps = None, sx_validate_timer = None,
     sx_tasks = [(0, SxList True)], sx_next = 1\<rparr>"

definition begin_sys_task :: "sys_task \<Rightarrow> sys_state \<Rightarrow> sys_state" where
  "begin_sys_task k s = s\<lparr>sx_tasks := AList.update (sx_next s) k (sx_tasks s), sx_next := Suc (sx_next s)\<rparr>"

definition change_draft :: "(sys_config \<Rightarrow> sys_config) \<Rightarrow> sys_state \<Rightarrow> sys_state" where
  "change_draft f s = s\<lparr>sx_draft := map_option f (sx_draft s)\<rparr>"

definition config_of :: "string \<Rightarrow> sys_config list \<Rightarrow> sys_config option" where
  "config_of i cs = List.find (\<lambda>c. sg_id c = i) cs"

subsection \<open>The effect of the selected provider\<close>

definition sync_fields :: "sys_config \<Rightarrow> sys_config \<Rightarrow> sys_config" where
  "sync_fields sel d = d\<lparr>sg_has_secret := sg_has_secret sel, sg_updated_at := sg_updated_at sel,
     sg_models := (if sg_models d \<noteq> [] then sg_models d else sg_models sel)\<rparr>"

definition sync_draft :: "sys_state \<Rightarrow> sys_state" where
  "sync_draft s =
     (let sel = config_of (sx_selected s) (sx_configs s);
          next_id = (case sel of None \<Rightarrow> [] | Some c \<Rightarrow> sg_id c);
          changed = (next_id \<noteq> sx_prev s);
          s = s\<lparr>sx_prev := next_id\<rparr>;
          s = (case sel of
                 None \<Rightarrow> s\<lparr>sx_draft := (case sx_draft s of
                     Some d \<Rightarrow> if sg_id d = sx_selected s then Some d else None | None \<Rightarrow> None)\<rparr>
               | Some c \<Rightarrow> if changed then s\<lparr>sx_draft := Some (c\<lparr>sg_base_url := enforced_base c\<rparr>)\<rparr>
                   else change_draft (sync_fields c) s)
      in if changed
         then s\<lparr>sx_secret := [], sx_notice := TipNone, sx_error := PrNone, sx_validated := False, sx_saved_key := []\<rparr>
         else s)"

subsection \<open>The effects of the timers\<close>

definition draft_id :: "sys_state \<Rightarrow> string option" where
  "draft_id s = map_option sg_id (sx_draft s)"

definition bar :: "string list \<Rightarrow> string" where
  "bar = js_join ''|''"

definition secret_effect :: "sys_state \<Rightarrow> sys_state" where
  "secret_effect s =
     (let deps = (draft_id s, sx_secret s, sx_saved_key s); secret = js_trim (sx_secret s)
      in if sx_secret_deps s = Some deps then s
         else s\<lparr>sx_secret_deps := Some deps,
           sx_secret_timer := (case sx_draft s of
               None \<Rightarrow> None
             | Some d \<Rightarrow>
                 let key = bar [sg_id d, secret]
                 in if secret = [] \<or> key = sx_saved_key s then None else Some (d, secret, key))\<rparr>)"

definition discover_effect :: "sys_state \<Rightarrow> sys_state" where
  "discover_effect s =
     (let deps = (draft_id s, map_option sg_base_url (sx_draft s), map_option sg_has_secret (sx_draft s), sx_secret s,
            sx_discover_key s)
      in if sx_discover_deps s = Some deps then s
         else s\<lparr>sx_discover_deps := Some deps,
           sx_discover_timer := (case sx_draft s of
               None \<Rightarrow> None
             | Some d \<Rightarrow>
                 let base = js_trim (sg_base_url d);
                     key = bar [sg_id d, base, if sg_has_secret d then ''saved'' else ''pending'']
                 in if base = [] \<or> (\<not> sg_has_secret d \<and> js_trim (sx_secret s) = []) \<or> key = sx_discover_key s then None
                    else Some (d, base, key))\<rparr>)"

definition validate_effect :: "sys_env \<Rightarrow> sys_state \<Rightarrow> sys_state" where
  "validate_effect env s =
     (let deps = (draft_id s, map_option sg_base_url (sx_draft s), map_option sg_default_model (sx_draft s),
            map_option sg_has_secret (sx_draft s), sx_secret s, sx_validate_key s)
      in if sx_validate_deps s = Some deps then s
         else s\<lparr>sx_validate_deps := Some deps,
           sx_validate_timer := (case sx_draft s of
               None \<Rightarrow> None
             | Some d \<Rightarrow>
                 let model = js_trim (sg_default_model d); secret = js_trim (sx_secret s);
                     key = bar [sg_id d, sg_base_url d, model]
                 in if model = [] \<or> (\<not> sg_has_secret d \<and> secret = []) \<or> validate_base_url env (sg_base_url d) \<noteq> None \<or>
                       key = sx_validate_key s then None
                    else Some (d, secret, key))\<rparr>)"

definition timer_effects :: "sys_env \<Rightarrow> sys_state \<Rightarrow> sys_state" where
  "timer_effects env s = validate_effect env (discover_effect (secret_effect s))"

subsection \<open>The timers fire\<close>

definition silent_reload :: "sys_state \<Rightarrow> sys_state \<times> sys_effect list" where
  "silent_reload s = (begin_sys_task (SxList False) s, [SeList])"

definition fire_secret :: "sys_env \<Rightarrow> sys_state \<Rightarrow> sys_state \<times> sys_effect list" where
  "fire_secret env s =
     (case sx_secret_timer s of
        None \<Rightarrow> (s, [])
      | Some (d, secret, key) \<Rightarrow>
          (let s = s\<lparr>sx_secret_timer := None\<rparr>
           in if name_missing d then (s\<lparr>sx_error := PrText (name_required env)\<rparr>, [])
              else (begin_sys_task (SxSecret d key) (s\<lparr>sx_saving_secret := True\<rparr>), [SeSecret (sg_id d) secret])))"

definition fire_discover :: "sys_env \<Rightarrow> sys_state \<Rightarrow> sys_state \<times> sys_effect list" where
  "fire_discover env s =
     (case sx_discover_timer s of
        None \<Rightarrow> (s, [])
      | Some (d, base, key) \<Rightarrow>
          (let s = s\<lparr>sx_discover_timer := None\<rparr>
           in case validate_base_url env base of
                Some m \<Rightarrow> (s\<lparr>sx_error := friendly env m, sx_discovering := False\<rparr>, [])
              | None \<Rightarrow>
                  if name_missing d then (s\<lparr>sx_error := friendly env (name_required env), sx_discovering := False\<rparr>, [])
                  else (begin_sys_task (SxDiscoverSave d key) (s\<lparr>sx_discovering := True\<rparr>), [SeConfig (config_request_of d)])))"

definition validate_failed :: "sys_env \<Rightarrow> sys_config \<Rightarrow> string \<Rightarrow> bool \<Rightarrow> string \<Rightarrow> sys_state \<Rightarrow> sys_state" where
  "validate_failed env d secret auto m s =
     s\<lparr>sx_validated := False, sx_validating := False,
       sx_error := (if \<not> auto \<and> js_includes m ''401/403'' \<and> \<not> sg_has_secret d \<and> secret = [] then PrNeedsKey
         else friendly env m)\<rparr>"

definition start_validation ::
    "sys_env \<Rightarrow> sys_config \<Rightarrow> string \<Rightarrow> bool \<Rightarrow> sys_state \<Rightarrow> sys_state \<times> sys_effect list" where
  "start_validation env d secret auto s =
     (if name_missing d then (validate_failed env d secret auto (name_required env) s, [])
      else (begin_sys_task (SxValidateSave d secret auto) (s\<lparr>sx_validating := True\<rparr>), [SeConfig (config_request_of d)]))"

definition fire_validate :: "sys_env \<Rightarrow> sys_state \<Rightarrow> sys_state \<times> sys_effect list" where
  "fire_validate env s =
     (case sx_validate_timer s of
        None \<Rightarrow> (s, [])
      | Some (d, secret, key) \<Rightarrow>
          start_validation env d secret True (s\<lparr>sx_validate_timer := None, sx_validate_key := key\<rparr>))"

subsection \<open>What the user does\<close>

definition select_provider :: "string \<Rightarrow> sys_state \<Rightarrow> sys_state" where
  "select_provider i s =
     (if i = sx_selected s then s else sync_draft (s\<lparr>sx_selected := i, sx_validated := False\<rparr>))"

definition edit_base :: "string \<Rightarrow> sys_state \<Rightarrow> sys_state" where
  "edit_base u s =
     (case sx_draft s of
        Some d \<Rightarrow> if is_custom (sg_id d)
          then (change_draft (\<lambda>d. d\<lparr>sg_base_url := u\<rparr>) s)\<lparr>sx_validated := False, sx_discover_key := []\<rparr> else s
      | None \<Rightarrow> s)"

definition cleaned_models :: "string list \<Rightarrow> string list" where
  "cleaned_models vs = rev (remdups (rev (filter (\<lambda>v. v \<noteq> []) (List.map js_trim vs))))"

definition edit_models :: "string list \<Rightarrow> sys_state \<Rightarrow> sys_state" where
  "edit_models vs s =
     (let ms = cleaned_models vs
      in (change_draft (\<lambda>d. d\<lparr>sg_models := ms, sg_default_model := (if ms = [] then [] else hd ms)\<rparr>) s)
           \<lparr>sx_validated := False\<rparr>)"

definition edit_options :: "bool \<Rightarrow> jsnum \<Rightarrow> jsnum \<Rightarrow> jsnum \<Rightarrow> string list \<Rightarrow> sys_state \<Rightarrow> sys_state" where
  "edit_options enabled temperature timeout max_tokens primary_for s =
     change_draft (\<lambda>d. d\<lparr>sg_enabled := enabled, sg_temperature := temperature, sg_timeout := timeout,
       sg_max_tokens := max_tokens, sg_primary_for := primary_for\<rparr>) s"

definition start_new_custom :: "sys_env \<Rightarrow> string \<Rightarrow> sys_state \<Rightarrow> sys_state" where
  "start_new_custom env i s =
     sync_draft (s\<lparr>sx_prev := i,
       sx_configs := (if config_of i (sx_configs s) = None then sx_configs s @ [new_custom i] else sx_configs s),
       sx_selected := i, sx_draft := Some (new_custom i), sx_secret := [], sx_models := [], sx_validated := False,
       sx_notice := TipText (sv_t env ''ai.systemAI.customProvider.fillNameFirst''), sx_error := PrNone\<rparr>)"

definition save_config :: "sys_env \<Rightarrow> sys_state \<Rightarrow> sys_state \<times> sys_effect list" where
  "save_config env s =
     (case sx_draft s of
        None \<Rightarrow> (s, [])
      | Some d \<Rightarrow>
          if name_missing d then (s\<lparr>sx_error := PrText (name_required env)\<rparr>, [])
          else (begin_sys_task (SxSave d) (s\<lparr>sx_saving_config := True\<rparr>), [SeConfig (config_request_of d)]))"

definition enable_failed :: "bool \<Rightarrow> string \<Rightarrow> sys_state \<Rightarrow> sys_state" where
  "enable_failed on m s =
     (change_draft (\<lambda>d. d\<lparr>sg_enabled := \<not> on\<rparr>) s)\<lparr>sx_error := PrText m, sx_saving_config := False\<rparr>"

definition set_enabled :: "sys_env \<Rightarrow> bool \<Rightarrow> sys_state \<Rightarrow> sys_state \<times> sys_effect list" where
  "set_enabled env on s =
     (case sx_draft s of
        None \<Rightarrow> (s, [])
      | Some d \<Rightarrow>
          (let d = d\<lparr>sg_enabled := on\<rparr>; s = s\<lparr>sx_draft := Some d\<rparr>
           in if name_missing d then (enable_failed on (name_required env) s, [])
              else (begin_sys_task (SxEnable d on) (s\<lparr>sx_saving_config := True\<rparr>), [SeConfig (config_request_of d)])))"

definition clear_secret :: "sys_state \<Rightarrow> sys_state \<times> sys_effect list" where
  "clear_secret s =
     (case sx_draft s of
        None \<Rightarrow> (s, [])
      | Some d \<Rightarrow> (begin_sys_task (SxClear d (sx_configs s)) (s\<lparr>sx_saving_secret := True\<rparr>), [SeSecret (sg_id d) []]))"

definition validate_connection :: "sys_env \<Rightarrow> sys_state \<Rightarrow> sys_state \<times> sys_effect list" where
  "validate_connection env s =
     (case sx_draft s of
        None \<Rightarrow> (s, [])
      | Some d \<Rightarrow>
          (case validate_base_url env (sg_base_url d) of
             Some m \<Rightarrow> (s\<lparr>sx_validated := False, sx_error := friendly env m\<rparr>, [])
           | None \<Rightarrow> start_validation env d (js_trim (sx_secret s)) False s))"


subsection \<open>What the answers do\<close>

text \<open>An answer: the message of the error that was thrown, or what the call returns.\<close>

datatype sys_reply =
    RpFailed string
  | RpDone
  | RpConfigs "sys_config list"
  | RpModels "string list" string
  | RpCount nat

definition listed :: "bool \<Rightarrow> sys_reply \<Rightarrow> sys_state \<Rightarrow> sys_state" where
  "listed global r s =
     (let s = (if global then s\<lparr>sx_loading := False\<rparr> else s)
      in case r of
           RpConfigs cs \<Rightarrow> sync_draft (s\<lparr>sx_configs := cs\<rparr>)
         | _ \<Rightarrow> if global then s\<lparr>sx_error := PrLoadFailed\<rparr> else s)"

definition secret_saved :: "string \<Rightarrow> sys_reply \<Rightarrow> sys_state \<Rightarrow> sys_state \<times> sys_effect list" where
  "secret_saved key r s =
     (let s = s\<lparr>sx_saving_secret := False\<rparr>
      in case r of
           RpFailed m \<Rightarrow> (s\<lparr>sx_error := PrText m\<rparr>, [])
         | _ \<Rightarrow> silent_reload ((change_draft (\<lambda>d. d\<lparr>sg_has_secret := True\<rparr>) s)
             \<lparr>sx_saved_key := key, sx_error := PrNone, sx_validated := False, sx_discover_key := [],
              sx_notice := TipSecretSaved\<rparr>))"

definition discover_failed :: "sys_env \<Rightarrow> string \<Rightarrow> sys_state \<Rightarrow> sys_state" where
  "discover_failed env m s = s\<lparr>sx_error := friendly env m, sx_discovering := False\<rparr>"

definition take_default :: "string list \<Rightarrow> string \<Rightarrow> sys_config \<Rightarrow> sys_config" where
  "take_default ms def d =
     (if js_trim (sg_default_model d) = [] then d\<lparr>sg_default_model := (if def \<noteq> [] then def else hd ms)\<rparr> else d)"

definition discovered :: "sys_env \<Rightarrow> string \<Rightarrow> sys_reply \<Rightarrow> sys_state \<Rightarrow> sys_state" where
  "discovered env key r s =
     (case r of
        RpFailed m \<Rightarrow> discover_failed env m s
      | RpModels ms def \<Rightarrow>
          if ms = [] then s\<lparr>sx_discovering := False\<rparr>
          else (change_draft (take_default ms def) s)
            \<lparr>sx_models := ms, sx_notice := TipFound (length ms), sx_error := PrNone, sx_validated := False,
             sx_discover_key := key, sx_discovering := False\<rparr>
      | _ \<Rightarrow> s\<lparr>sx_discovering := False\<rparr>)"

definition put_config :: "sys_config \<Rightarrow> sys_config list \<Rightarrow> sys_config list" where
  "put_config d cs = (if config_of (sg_id d) cs = None then cs @ [d] else update_where (\<lambda>c. sg_id c = sg_id d) (\<lambda>_. d) cs)"

definition config_saved :: "sys_config \<Rightarrow> sys_reply \<Rightarrow> sys_state \<Rightarrow> sys_state \<times> sys_effect list" where
  "config_saved d r s =
     (let s = s\<lparr>sx_saving_config := False\<rparr>
      in case r of
           RpFailed m \<Rightarrow> (s\<lparr>sx_error := PrText m\<rparr>, [])
         | _ \<Rightarrow>
             (let s = s\<lparr>sx_configs := put_config d (sx_configs s), sx_notice := TipSaved, sx_error := PrNone\<rparr>
              in silent_reload (if sg_id d = sx_selected s then sync_draft s else s)))"

definition enable_saved :: "bool \<Rightarrow> sys_reply \<Rightarrow> sys_state \<Rightarrow> sys_state \<times> sys_effect list" where
  "enable_saved on r s =
     (case r of
        RpFailed m \<Rightarrow> (enable_failed on m s, [])
      | _ \<Rightarrow> silent_reload (s\<lparr>sx_saving_config := False, sx_notice := TipEnabled on, sx_error := PrNone\<rparr>))"

definition remove_local :: "sys_env \<Rightarrow> string \<Rightarrow> sys_config list \<Rightarrow> sys_state \<Rightarrow> sys_state \<times> sys_effect list" where
  "remove_local env i cs s =
     (let rest = filter (\<lambda>c. sg_id c \<noteq> i) cs;
          next_config = (case config_of ''openai_compatible'' rest of
              Some c \<Rightarrow> Some c | None \<Rightarrow> (case rest of [] \<Rightarrow> None | c # _ \<Rightarrow> Some c))
      in silent_reload (sync_draft (s\<lparr>sx_configs := rest,
           sx_selected := (case next_config of None \<Rightarrow> [] | Some c \<Rightarrow> sg_id c), sx_draft := next_config, sx_secret := [],
           sx_saved_key := [], sx_discover_key := [], sx_models := [],
           sx_notice := TipText (sv_t env ''ai.systemAI.customProvider.deleted''), sx_error := PrNone, sx_validated := False,
           sx_saving_secret := False\<rparr>)))"

definition reset_config :: "string \<Rightarrow> sys_config \<Rightarrow> sys_config" where
  "reset_config base d = d\<lparr>sg_base_url := base, sg_organization := [], sg_models := [], sg_default_model := [],
     sg_temperature := Fin (1/5), sg_timeout := Fin 300, sg_max_tokens := Fin 4096, sg_primary_for := [],
     sg_enabled := False, sg_has_secret := False\<rparr>"

definition removable :: "string \<Rightarrow> bool" where
  "removable i \<longleftrightarrow> js_starts i ''openai_compatible_''"

definition clear_failed :: "string \<Rightarrow> sys_state \<Rightarrow> sys_state" where
  "clear_failed m s = s\<lparr>sx_error := (if m = [] then PrClearFailed else PrText m), sx_saving_secret := False\<rparr>"

definition secret_cleared ::
    "sys_env \<Rightarrow> sys_config \<Rightarrow> sys_config list \<Rightarrow> sys_reply \<Rightarrow> sys_state \<Rightarrow> sys_state \<times> sys_effect list" where
  "secret_cleared env d cs r s =
     (case r of
        RpFailed m \<Rightarrow>
          if removable (sg_id d) \<and> (js_includes m ''404'' \<or> js_includes (js_lower m) ''not found'')
          then remove_local env (sg_id d) cs s
          else (clear_failed m s, [])
      | _ \<Rightarrow>
          if removable (sg_id d) then remove_local env (sg_id d) cs s
          else (begin_sys_task (SxReset d) s, [SeConfig (config_request_of (reset_config (official_base (sg_id d)) d))]))"

definition config_reset :: "sys_config \<Rightarrow> sys_reply \<Rightarrow> sys_state \<Rightarrow> sys_state \<times> sys_effect list" where
  "config_reset d r s =
     (case r of
        RpFailed m \<Rightarrow> (clear_failed m s, [])
      | _ \<Rightarrow> silent_reload ((change_draft (reset_config (official_base (sg_id d))) s)
          \<lparr>sx_secret := [], sx_saved_key := [], sx_discover_key := [], sx_models := [], sx_notice := TipReset,
           sx_error := PrNone, sx_validated := False, sx_saving_secret := False\<rparr>))"

definition validated :: "sys_env \<Rightarrow> sys_config \<Rightarrow> string \<Rightarrow> bool \<Rightarrow> sys_reply \<Rightarrow> sys_state \<Rightarrow> sys_state" where
  "validated env d secret auto r s =
     (case r of
        RpFailed m \<Rightarrow> validate_failed env d secret auto m s
      | _ \<Rightarrow>
          (let n = (case r of RpCount n \<Rightarrow> n | _ \<Rightarrow> 0)
           in s\<lparr>sx_validated := True, sx_error := PrNone, sx_validating := False,
                sx_notice := (if auto then TipAutoValidated n else TipValidated n)\<rparr>))"

definition sys_answer ::
    "sys_env \<Rightarrow> sys_task \<Rightarrow> sys_reply \<Rightarrow> sys_state \<Rightarrow> sys_state \<times> sys_effect list" where
  "sys_answer env k r s =
     (case k of
        SxList global \<Rightarrow> (listed global r s, [])
      | SxSecret d key \<Rightarrow> secret_saved key r s
      | SxDiscoverSave d key \<Rightarrow>
          (case r of RpFailed m \<Rightarrow> (discover_failed env m s, [])
           | _ \<Rightarrow> (begin_sys_task (SxDiscover d key) s, [SeDiscover (sg_id d)]))
      | SxDiscover d key \<Rightarrow> (discovered env key r s, [])
      | SxValidateSave d secret auto \<Rightarrow>
          (case r of RpFailed m \<Rightarrow> (validate_failed env d secret auto m s, [])
           | _ \<Rightarrow> if secret \<noteq> [] then (begin_sys_task (SxValidateSecret d secret auto) s, [SeSecret (sg_id d) secret])
               else (begin_sys_task (SxValidate d secret auto) s, [SeValidate (sg_id d)]))
      | SxValidateSecret d secret auto \<Rightarrow>
          (case r of RpFailed m \<Rightarrow> (validate_failed env d secret auto m s, [])
           | _ \<Rightarrow> (begin_sys_task (SxValidate d secret auto) s, [SeValidate (sg_id d)]))
      | SxValidate d secret auto \<Rightarrow> (validated env d secret auto r s, [])
      | SxSave d \<Rightarrow> config_saved d r s
      | SxEnable d on \<Rightarrow> enable_saved on r s
      | SxClear d cs \<Rightarrow> secret_cleared env d cs r s
      | SxReset d \<Rightarrow> config_reset d r s)"

subsection \<open>The page\<close>

datatype sys_event =
    PgSelect string
  | PgName string
  | PgBase string
  | PgModels "string list"
  | PgOptions bool jsnum jsnum jsnum "string list"
  | PgSecret string
  | PgNew string
  | PgLoad
  | PgSave
  | PgEnable bool
  | PgClear
  | PgValidate
  | PgSecretTimer
  | PgDiscoverTimer
  | PgValidateTimer
  | PgReply nat sys_reply

definition sys_handle :: "sys_env \<Rightarrow> sys_state \<Rightarrow> sys_event \<Rightarrow> sys_state \<times> sys_effect list" where
  "sys_handle env s a =
     (case a of
        PgSelect i \<Rightarrow> (select_provider i s, [])
      | PgName v \<Rightarrow> (change_draft (\<lambda>d. d\<lparr>sg_name := v\<rparr>) s, [])
      | PgBase u \<Rightarrow> (edit_base u s, [])
      | PgModels vs \<Rightarrow> (edit_models vs s, [])
      | PgOptions e te ti mt p \<Rightarrow> (edit_options e te ti mt p s, [])
      | PgSecret v \<Rightarrow> (s\<lparr>sx_secret := v\<rparr>, [])
      | PgNew i \<Rightarrow> (start_new_custom env i s, [])
      | PgLoad \<Rightarrow> (begin_sys_task (SxList True) (s\<lparr>sx_loading := True\<rparr>), [SeList])
      | PgSave \<Rightarrow> save_config env s
      | PgEnable on \<Rightarrow> set_enabled env on s
      | PgClear \<Rightarrow> if sx_saving_secret s then (s, []) else clear_secret s
      | PgValidate \<Rightarrow> validate_connection env s
      | PgSecretTimer \<Rightarrow> fire_secret env s
      | PgDiscoverTimer \<Rightarrow> fire_discover env s
      | PgValidateTimer \<Rightarrow> fire_validate env s
      | PgReply n r \<Rightarrow>
          (case map_of (sx_tasks s) n of
             None \<Rightarrow> (s, [])
           | Some k \<Rightarrow> sys_answer env k r (s\<lparr>sx_tasks := AList.delete n (sx_tasks s)\<rparr>)))"

definition sys_step_out :: "sys_env \<Rightarrow> sys_state \<Rightarrow> sys_event \<Rightarrow> sys_state \<times> sys_effect list" where
  "sys_step_out env s a = (let (s, es) = sys_handle env s a in (timer_effects env s, es))"

definition sys_step :: "sys_env \<Rightarrow> sys_state \<Rightarrow> sys_event \<Rightarrow> sys_state" where
  "sys_step env s a = fst (sys_step_out env s a)"

subsection \<open>The primary model\<close>

text \<open>\<open>components/DefaultPrimaryModelCard.tsx\<close>: the options are the models of the providers that can be used.\<close>

definition usable_models :: "sys_config \<Rightarrow> string list" where
  "usable_models c =
     (let ms = cleaned_models (sg_models c)
      in if ms \<noteq> [] then ms else if sg_default_model c \<noteq> [] then [sg_default_model c] else [])"

definition primary_options :: "sys_config list \<Rightarrow> string list" where
  "primary_options cs = concat (List.map (\<lambda>c. List.map (\<lambda>m. bar [sg_id c, m]) (usable_models c))
     (filter (\<lambda>c. sg_id c \<noteq> [] \<and> sg_has_secret c \<and> sg_enabled c) cs))"

definition decode_primary :: "string \<Rightarrow> string \<times> string" where
  "decode_primary v =
     (if CHR ''|'' \<in> set v then (takeWhile (\<lambda>c. c \<noteq> CHR ''|'') v, drop 1 (dropWhile (\<lambda>c. c \<noteq> CHR ''|'') v)) else (v, []))"

definition encode_primary :: "string \<Rightarrow> string \<Rightarrow> string" where
  "encode_primary provider model = (if provider = [] then [] else bar [provider, model])"

end
