(* ===== verification/SystemAiRuns.thy ===== *)
theory SystemAiRuns
  imports SystemAi
begin

text \<open>
  What the settings of the AI providers guarantee: keys go to the provider they were typed for, and what
  late answers do to the draft of another provider.
\<close>

subsection \<open>Where keys go\<close>

text \<open>The keys that wait to be sent, with the provider they are for.\<close>

definition task_keys :: "sys_task \<Rightarrow> (string \<times> string) set" where
  "task_keys k = (case k of SxValidateSave d x _ \<Rightarrow> {(sg_id d, x)} | _ \<Rightarrow> {})"

definition timer_keys :: "(sys_config \<times> string \<times> string) option \<Rightarrow> (string \<times> string) set" where
  "timer_keys v = (case v of None \<Rightarrow> {} | Some (d, x, _) \<Rightarrow> {(sg_id d, x)})"

definition keys_held :: "sys_state \<Rightarrow> (string \<times> string) set" where
  "keys_held s = timer_keys (sx_secret_timer s) \<union> timer_keys (sx_validate_timer s) \<union>
     (\<Union>p \<in> set (sx_tasks s). task_keys (snd p))"

text \<open>The key that stands in the form, with the provider of the form.\<close>

definition in_form :: "sys_state \<Rightarrow> (string \<times> string) set" where
  "in_form s = {(i, x). draft_id s = Some i \<and> x = js_trim (sx_secret s)}"

lemma task_keys_simps [simp]:
  "task_keys (SxList b) = {}" "task_keys (SxSecret d k) = {}" "task_keys (SxDiscoverSave d k) = {}"
  "task_keys (SxDiscover d k) = {}" "task_keys (SxValidateSave d x a) = {(sg_id d, x)}"
  "task_keys (SxValidateSecret d x a) = {}" "task_keys (SxValidate d x a) = {}" "task_keys (SxSave d) = {}"
  "task_keys (SxEnable d b) = {}" "task_keys (SxClear d cs) = {}" "task_keys (SxReset d) = {}"
  by (simp_all add: task_keys_def)

lemma timer_keys_simps [simp]: "timer_keys None = {}" "timer_keys (Some (d, x, k)) = {(sg_id d, x)}"
  by (simp_all add: timer_keys_def)

lemma set_update_subset: "set (AList.update n k al) \<subseteq> insert (n, k) (set al)"
  by (induction al) auto

lemma held_task: "keys_held (begin_sys_task k s) \<subseteq> keys_held s \<union> task_keys k"
  using set_update_subset [of "sx_next s" k "sx_tasks s"] by (fastforce simp: keys_held_def begin_sys_task_def)

lemma held_done: "keys_held (s\<lparr>sx_tasks := AList.delete n (sx_tasks s)\<rparr>) \<subseteq> keys_held s"
  by (auto simp: keys_held_def set_delete)

text \<open>Two states that wait with the same timers and the same tasks.\<close>

definition waits_like :: "sys_state \<Rightarrow> sys_state \<Rightarrow> bool" where
  "waits_like s' s \<longleftrightarrow> sx_secret_timer s' = sx_secret_timer s \<and> sx_validate_timer s' = sx_validate_timer s \<and>
     sx_tasks s' = sx_tasks s"

lemma held_like: "waits_like s' s \<Longrightarrow> keys_held s' = keys_held s"
  by (simp add: waits_like_def keys_held_def)

lemma waits_fields [simp]:
  "sx_secret_timer (change_draft f s) = sx_secret_timer s" "sx_validate_timer (change_draft f s) = sx_validate_timer s"
  "sx_tasks (change_draft f s) = sx_tasks s"
  "sx_secret_timer (sync_draft s) = sx_secret_timer s" "sx_validate_timer (sync_draft s) = sx_validate_timer s"
  "sx_tasks (sync_draft s) = sx_tasks s"
  by (simp_all add: sync_draft_def Let_def change_draft_def split: option.split)

lemma held_reload: "waits_like s' s \<Longrightarrow> keys_held (fst (silent_reload s')) \<subseteq> keys_held s"
  using held_task [of "SxList False" s'] held_like [of s' s] by (simp add: silent_reload_def)

lemma held_start_validation: "keys_held (fst (start_validation env d x auto s)) \<subseteq> keys_held s \<union> {(sg_id d, x)}"
proof -
  have "keys_held (validate_failed env d x auto m s) = keys_held s" for m
    by (rule held_like) (simp add: waits_like_def validate_failed_def)
  moreover have "keys_held (begin_sys_task (SxValidateSave d x auto) (s\<lparr>sx_validating := True\<rparr>)) \<subseteq> keys_held s \<union> {(sg_id d, x)}"
    using held_task [of "SxValidateSave d x auto" "s\<lparr>sx_validating := True\<rparr>"]
      held_like [of "s\<lparr>sx_validating := True\<rparr>" s] by (simp add: waits_like_def)
  ultimately show ?thesis by (auto simp: start_validation_def)
qed

lemma held_plain_task:
  assumes "waits_like s' s" "task_keys k = {}"
  shows "keys_held (begin_sys_task k s') \<subseteq> keys_held s"
  using held_task [of k s'] held_like [OF assms(1)] assms(2) by simp

lemma held_quiet: "waits_like s' s \<Longrightarrow> keys_held s' \<subseteq> keys_held s"
  by (simp add: held_like)

lemmas reply_defs = listed_def secret_saved_def discover_failed_def discovered_def config_saved_def enable_saved_def
  secret_cleared_def remove_local_def config_reset_def validated_def validate_failed_def enable_failed_def
  clear_failed_def Let_def

lemma held_reply: "keys_held (fst (sys_answer env k r s)) \<subseteq> keys_held s"
  by (cases k; cases r)
     (simp_all add: sys_answer_def reply_defs held_reload held_plain_task held_quiet waits_like_def)


lemma held_drop_timers:
  "keys_held (s\<lparr>sx_secret_timer := None\<rparr>) \<subseteq> keys_held s" "keys_held (s\<lparr>sx_validate_timer := None\<rparr>) \<subseteq> keys_held s"
  by (auto simp: keys_held_def)

lemma held_fire_secret: "keys_held (fst (fire_secret env s)) \<subseteq> keys_held s"
proof -
  have "keys_held s' \<subseteq> keys_held s" if "waits_like s' (s\<lparr>sx_secret_timer := None\<rparr>)" for s'
    using held_drop_timers(1) held_quiet [OF that] by blast
  moreover have "keys_held (begin_sys_task (SxSecret d k) s') \<subseteq> keys_held s" if "waits_like s' (s\<lparr>sx_secret_timer := None\<rparr>)" for s' d k
    using held_drop_timers(1) [of s] held_plain_task [OF that, of "SxSecret d k"] by auto
  ultimately show ?thesis
    by (auto simp: fire_secret_def waits_like_def Let_def split: option.split del: subsetI)
qed

lemma held_fire_discover: "keys_held (fst (fire_discover env s)) \<subseteq> keys_held s"
  by (simp add: fire_discover_def waits_like_def held_quiet held_plain_task Let_def split: option.split)

lemma held_fire_validate: "keys_held (fst (fire_validate env s)) \<subseteq> keys_held s"
proof (cases "sx_validate_timer s")
  case None
  then show ?thesis by (simp add: fire_validate_def)
next
  case (Some v)
  obtain d x k where v: "v = (d, x, k)" by (cases v)
  let ?s = "s\<lparr>sx_validate_timer := None, sx_validate_key := k\<rparr>"
  have "keys_held ?s \<subseteq> keys_held s" "(sg_id d, x) \<in> keys_held s" using Some v by (auto simp: keys_held_def)
  moreover have "fst (fire_validate env s) = fst (start_validation env d x True ?s)"
    using Some v by (simp add: fire_validate_def)
  ultimately show ?thesis using held_start_validation [of env d x True ?s] by auto
qed

lemma held_validate_connection: "keys_held (fst (validate_connection env s)) \<subseteq> keys_held s \<union> in_form s"
proof (cases "sx_draft s")
  case None
  then show ?thesis by (simp add: validate_connection_def)
next
  case (Some d)
  have "keys_held (s\<lparr>sx_validated := False, sx_error := e\<rparr>) \<subseteq> keys_held s" for e
    by (rule held_quiet) (simp add: waits_like_def)
  then show ?thesis
    using Some held_start_validation [of env d "js_trim (sx_secret s)" False s]
    by (auto simp: validate_connection_def in_form_def draft_id_def split: option.split)
qed

lemma held_user:
  "keys_held (select_provider i s) \<subseteq> keys_held s" "keys_held (edit_base u s) \<subseteq> keys_held s" "keys_held (edit_models vs s) \<subseteq> keys_held s"
  "keys_held (edit_options e te ti mt p s) \<subseteq> keys_held s" "keys_held (start_new_custom env i s) \<subseteq> keys_held s"
  "keys_held (change_draft f s) \<subseteq> keys_held s" "keys_held (s\<lparr>sx_secret := v\<rparr>) \<subseteq> keys_held s"
  by (auto simp: select_provider_def edit_base_def edit_models_def edit_options_def start_new_custom_def waits_like_def Let_def
      split: option.split intro!: held_quiet del: subsetI)

lemma held_operations:
  "keys_held (fst (save_config env s)) \<subseteq> keys_held s" "keys_held (fst (set_enabled env on s)) \<subseteq> keys_held s"
  "keys_held (fst (clear_secret s)) \<subseteq> keys_held s" "keys_held (begin_sys_task (SxList True) (s\<lparr>sx_loading := True\<rparr>)) \<subseteq> keys_held s"
  by (simp_all add: save_config_def set_enabled_def clear_secret_def enable_failed_def waits_like_def held_quiet held_plain_task
      Let_def split: option.split)

lemma held_handle: "keys_held (fst (sys_handle env s a)) \<subseteq> keys_held s \<union> in_form s"
proof (cases a)
  case (PgReply n r)
  let ?s = "s\<lparr>sx_tasks := AList.delete n (sx_tasks s)\<rparr>"
  have "keys_held (fst (sys_answer env k r ?s)) \<subseteq> keys_held s" for k
    using held_done [where s = s and n = n] held_reply [of env k r ?s] by (rule order_trans [rotated])
  then show ?thesis using PgReply by (simp add: sys_handle_def le_supI1 split: option.split)
next
  case PgValidate
  then show ?thesis using held_validate_connection by (simp add: sys_handle_def)
qed (use held_user held_operations held_fire_secret held_fire_discover held_fire_validate in
    \<open>simp_all add: sys_handle_def le_supI1\<close>)

lemma held_secret_effect: "keys_held (secret_effect s) \<subseteq> keys_held s \<union> in_form s"
  by (auto simp: secret_effect_def keys_held_def in_form_def draft_id_def Let_def split: option.split)

lemma held_discover_effect: "keys_held (discover_effect s) = keys_held s" "in_form (discover_effect s) = in_form s"
  by (simp_all add: discover_effect_def keys_held_def in_form_def draft_id_def Let_def)

lemma in_form_effects [simp]: "in_form (secret_effect s) = in_form s" "in_form (validate_effect env s) = in_form s"
  by (simp_all add: secret_effect_def validate_effect_def in_form_def draft_id_def Let_def)

lemma held_validate_effect: "keys_held (validate_effect env s) \<subseteq> keys_held s \<union> in_form s"
  by (auto simp: validate_effect_def keys_held_def in_form_def draft_id_def Let_def split: option.split)

lemma held_effects: "keys_held (timer_effects env s) \<subseteq> keys_held s \<union> in_form s" "in_form (timer_effects env s) = in_form s"
  using held_validate_effect [of env "discover_effect (secret_effect s)"] held_secret_effect [of s]
  by (auto simp: timer_effects_def held_discover_effect)

lemma held_step: "keys_held (sys_step env s a) \<subseteq> keys_held s \<union> in_form s \<union> in_form (sys_step env s a)"
  using held_handle [of env s a] held_effects [of env "fst (sys_handle env s a)"]
  by (auto simp: sys_step_def sys_step_out_def split: prod.split)

lemma sent_key_held:
  assumes "SeSecret i x \<in> set (snd (sys_step_out env s a))" "x \<noteq> []"
  shows "(i, x) \<in> keys_held s"
proof -
  have e: "SeSecret i x \<in> set (snd (sys_handle env s a))"
    using assms(1) by (simp add: sys_step_out_def split: prod.splits)
  show ?thesis
  proof (cases a)
    case (PgReply n r)
    then obtain k where k: "map_of (sx_tasks s) n = Some k"
      and sent: "SeSecret i x \<in> set (snd (sys_answer env k r (s\<lparr>sx_tasks := AList.delete n (sx_tasks s)\<rparr>)))"
      using e by (auto simp: sys_handle_def split: option.splits)
    have "(i, x) \<in> task_keys k"
      using sent assms(2)
      by (cases k; cases r) (auto simp: sys_answer_def reply_defs silent_reload_def split: if_splits)
    then show ?thesis using map_of_SomeD [OF k] by (force simp: keys_held_def)
  next
    case PgSecretTimer
    then show ?thesis using e by (auto simp: sys_handle_def fire_secret_def keys_held_def Let_def split: option.splits if_splits)
  qed (use e assms(2) in \<open>auto simp: sys_handle_def fire_discover_def fire_validate_def start_validation_def save_config_def
      set_enabled_def clear_secret_def validate_connection_def Let_def split: option.splits if_splits\<close>)
qed

text \<open>The form keeps its key only while it stays with its provider.\<close>

definition form_from :: "sys_state \<Rightarrow> sys_state \<Rightarrow> bool" where
  "form_from s s' \<longleftrightarrow> sx_secret s' = [] \<or> sx_secret s' = sx_secret s \<and> draft_id s' \<in> {None, draft_id s}"

lemma form_from_sync: "form_from s s' \<Longrightarrow> form_from s (sync_draft s')"
  by (auto simp: form_from_def draft_id_def sync_draft_def Let_def change_draft_def sync_fields_def
      split: option.splits if_splits)

lemma form_from_reload: "form_from s (fst (silent_reload s')) = form_from s s'"
  by (simp add: form_from_def draft_id_def silent_reload_def begin_sys_task_def)

lemma form_from_task [simp]: "form_from s (begin_sys_task k s') = form_from s s'"
  by (simp add: form_from_def draft_id_def begin_sys_task_def)

lemma draft_id_change: "(\<And>d. sg_id (f d) = sg_id d) \<Longrightarrow> draft_id (change_draft f s) = draft_id s"
  by (cases "sx_draft s") (simp_all add: draft_id_def change_draft_def)

lemma form_from_change:
  "(\<And>d. sg_id (f d) = sg_id d) \<Longrightarrow> form_from s (change_draft f s') = form_from s s'"
  by (simp add: form_from_def draft_id_change) (simp add: change_draft_def)

lemma form_from_fields [simp]:
  "form_from s (s'\<lparr>sx_tasks := ts\<rparr>) = form_from s s'" "form_from s (s'\<lparr>sx_configs := cs\<rparr>) = form_from s s'"
  "form_from s (s'\<lparr>sx_loading := b\<rparr>) = form_from s s'" "form_from s (s'\<lparr>sx_saving_config := b\<rparr>) = form_from s s'"
  "form_from s (s'\<lparr>sx_saving_secret := b\<rparr>) = form_from s s'" "form_from s (s'\<lparr>sx_validating := b\<rparr>) = form_from s s'"
  "form_from s (s'\<lparr>sx_discovering := b\<rparr>) = form_from s s'" "form_from s (s'\<lparr>sx_validated := b\<rparr>) = form_from s s'"
  "form_from s (s'\<lparr>sx_selected := i\<rparr>) = form_from s s'" "form_from s (s'\<lparr>sx_prev := i\<rparr>) = form_from s s'"
  "form_from s (s'\<lparr>sx_notice := n\<rparr>) = form_from s s'" "form_from s (s'\<lparr>sx_error := e\<rparr>) = form_from s s'"
  "form_from s (s'\<lparr>sx_discover_key := k\<rparr>) = form_from s s'" "form_from s (s'\<lparr>sx_saved_key := k\<rparr>) = form_from s s'"
  "form_from s (s'\<lparr>sx_validate_key := k\<rparr>) = form_from s s'" "form_from s (s'\<lparr>sx_models := ms\<rparr>) = form_from s s'"
  "form_from s (s'\<lparr>sx_secret_timer := t\<rparr>) = form_from s s'" "form_from s (s'\<lparr>sx_discover_timer := t\<rparr>) = form_from s s'"
  "form_from s (s'\<lparr>sx_validate_timer := t\<rparr>) = form_from s s'" "form_from s s" "form_from s (s'\<lparr>sx_secret := []\<rparr>)"
  by (simp_all add: form_from_def draft_id_def)

lemma form_from_empty: "sx_secret s' = [] \<Longrightarrow> form_from s s'"
  by (simp add: form_from_def)

lemma form_from_reply: "form_from s (fst (sys_answer env k r (s\<lparr>sx_tasks := ts\<rparr>)))"
  by (cases k; cases r)
     (simp_all add: sys_answer_def reply_defs form_from_reload form_from_sync form_from_change form_from_empty take_default_def
       reset_config_def)

lemma form_from_operations:
  "form_from s (select_provider i s)" "form_from s (edit_base u s)" "form_from s (edit_models vs s)"
  "form_from s (edit_options e te ti mt p s)" "form_from s (start_new_custom env i s)"
  "form_from s (fst (save_config env s))" "form_from s (fst (set_enabled env on s))" "form_from s (fst (clear_secret s))"
  "form_from s (fst (validate_connection env s))" "form_from s (fst (fire_secret env s))"
  "form_from s (fst (fire_discover env s))" "form_from s (fst (fire_validate env s))"
  by (simp_all add: select_provider_def edit_base_def edit_models_def edit_options_def start_new_custom_def save_config_def
      set_enabled_def clear_secret_def validate_connection_def fire_secret_def fire_discover_def fire_validate_def
      start_validation_def validate_failed_def enable_failed_def form_from_sync form_from_change form_from_empty Let_def
      split: option.split)
     (simp_all add: form_from_def draft_id_def change_draft_def)

lemma form_from_handle: "(\<And>v. a \<noteq> PgSecret v) \<Longrightarrow> form_from s (fst (sys_handle env s a))"
  by (cases a) (auto simp: sys_handle_def form_from_operations form_from_reply form_from_change split: option.split)

lemma form_from_in: "form_from s s' \<Longrightarrow> (i, x) \<in> in_form s' \<Longrightarrow> x \<noteq> [] \<Longrightarrow> (i, x) \<in> in_form s"
  by (auto simp: form_from_def in_form_def)

text \<open>The key was typed into the form while the form was that of the provider.\<close>

definition typed_for :: "sys_env \<Rightarrow> sys_event list \<Rightarrow> (string \<times> string) set" where
  "typed_for env as = {(i, x). \<exists>bs v cs. as = bs @ PgSecret v # cs \<and>
     draft_id (run (sys_step env) sys_init bs) = Some i \<and> x = js_trim v}"

lemma typed_for_mono: "typed_for env as \<subseteq> typed_for env (as @ bs)"
  unfolding typed_for_def by force

lemma typed_now: "draft_id (run (sys_step env) sys_init as) = Some i \<Longrightarrow> (i, js_trim v) \<in> typed_for env (as @ [PgSecret v])"
  unfolding typed_for_def by blast

lemma in_form_typed:
  "(i, x) \<in> in_form (run (sys_step env) sys_init as) \<Longrightarrow> x \<noteq> [] \<Longrightarrow> (i, x) \<in> typed_for env as"
proof (induction as arbitrary: i x rule: rev_induct)
  case Nil
  then show ?case by (simp add: run_def in_form_def draft_id_def sys_init_def)
next
  case (snoc a as)
  let ?s = "run (sys_step env) sys_init as"
  have step: "in_form (run (sys_step env) sys_init (as @ [a])) = in_form (fst (sys_handle env ?s a))"
    by (simp add: run_def sys_step_def sys_step_out_def held_effects split: prod.split)
  show ?case
  proof (cases "\<exists>v. a = PgSecret v")
    case True
    then obtain v where v: "a = PgSecret v" by blast
    then have "draft_id ?s = Some i" "x = js_trim v"
      using snoc.prems(1) unfolding step by (simp_all add: sys_handle_def in_form_def draft_id_def)
    with v typed_now show ?thesis by simp
  next
    case False
    then have "form_from ?s (fst (sys_handle env ?s a))" by (intro form_from_handle) blast
    then have "(i, x) \<in> in_form ?s" using snoc.prems unfolding step by (rule form_from_in)
    with snoc.IH snoc.prems(2) typed_for_mono show ?thesis by blast
  qed
qed

lemma held_typed:
  "(i, x) \<in> keys_held (run (sys_step env) sys_init as) \<Longrightarrow> x \<noteq> [] \<Longrightarrow> (i, x) \<in> typed_for env as"
proof (induction as rule: rev_induct)
  case Nil
  then show ?case by (simp add: run_def keys_held_def sys_init_def)
next
  case (snoc a as)
  let ?s = "run (sys_step env) sys_init as"
  have "run (sys_step env) sys_init (as @ [a]) = sys_step env ?s a" by (simp add: run_def)
  then have "(i, x) \<in> keys_held ?s \<union> in_form ?s \<union> in_form (run (sys_step env) sys_init (as @ [a]))"
    using snoc.prems(1) held_step [of env ?s a] by auto
  then show ?case
    using snoc.IH in_form_typed snoc.prems(2) typed_for_mono [of env as "[a]"] by blast
qed

text \<open>
  C4. A key is sent only to a provider in whose form it was typed: changing the provider while the key is being
  typed, saved or checked never sends it to another one.
\<close>

theorem key_goes_to_its_provider:
  assumes "SeSecret i x \<in> set (snd (sys_step_out env (run (sys_step env) sys_init as) a))" "x \<noteq> []"
  shows "\<exists>bs v cs. as = bs @ PgSecret v # cs \<and> draft_id (run (sys_step env) sys_init bs) = Some i \<and> js_trim v = x"
  using held_typed [OF sent_key_held [OF assms] assms(2)] by (auto simp: typed_for_def)

subsection \<open>Late answers\<close>

lemma draft_effects [simp]:
  "sx_draft (timer_effects env s) = sx_draft s" "sx_configs (timer_effects env s) = sx_configs s"
  "sx_notice (timer_effects env s) = sx_notice s" "sx_validate_key (timer_effects env s) = sx_validate_key s"
  by (simp_all add: timer_effects_def validate_effect_def discover_effect_def secret_effect_def Let_def)

lemma draft_task [simp]:
  "sx_draft (begin_sys_task k s) = sx_draft s" "sx_notice (begin_sys_task k s) = sx_notice s" "sx_configs (begin_sys_task k s) = sx_configs s"
  by (simp_all add: begin_sys_task_def)

lemma step_reply:
  "map_of (sx_tasks s) n = Some k \<Longrightarrow>
   sys_step env s (PgReply n r) =
     timer_effects env (fst (sys_answer env k r (s\<lparr>sx_tasks := AList.delete n (sx_tasks s)\<rparr>)))"
  by (simp add: sys_step_def sys_step_out_def sys_handle_def split: prod.split)

text \<open>
  The answer to the key of one provider, when another one is on the page by then, marks the other one as
  having a key.
\<close>

theorem late_secret_marks_other:
  assumes "map_of (sx_tasks s) n = Some (SxSecret d k)" "sx_draft s = Some b" "sg_id b \<noteq> sg_id d"
  shows "sx_draft (sys_step env s (PgReply n RpDone)) = Some (b\<lparr>sg_has_secret := True\<rparr>) \<and>
    sg_id (b\<lparr>sg_has_secret := True\<rparr>) \<noteq> sg_id d"
  using assms by (simp add: step_reply sys_answer_def secret_saved_def silent_reload_def change_draft_def Let_def)

lemma validate_effect_armed:
  assumes "sx_draft s = Some d" "js_trim (sg_default_model d) \<noteq> []" "sg_has_secret d"
    and "validate_base_url env (sg_base_url d) = None"
    and "sx_validate_key s \<noteq> bar [sg_id d, sg_base_url d, js_trim (sg_default_model d)]"
    and "sx_validate_deps s \<noteq> Some (draft_id s, Some (sg_base_url d), Some (sg_default_model d), Some True, sx_secret s,
      sx_validate_key s)"
  shows "\<exists>x k. sx_validate_timer (timer_effects env s) = Some (d, x, k)"
proof -
  have "validate_effect env (discover_effect (secret_effect s)) = timer_effects env s" by (simp add: timer_effects_def)
  then show ?thesis
    using assms
    by (simp add: timer_effects_def validate_effect_def discover_effect_def secret_effect_def draft_id_def Let_def)
qed

lemma deps_current:
  assumes "s = sys_step env s0 a"
  shows "sx_validate_deps s = Some (draft_id s, map_option sg_base_url (sx_draft s), map_option sg_default_model (sx_draft s),
      map_option sg_has_secret (sx_draft s), sx_secret s, sx_validate_key s)"
    "sx_secret_deps s = Some (draft_id s, sx_secret s, sx_saved_key s)"
proof -
  have "sx_validate_deps (timer_effects env s) = Some (draft_id (timer_effects env s),
      map_option sg_base_url (sx_draft (timer_effects env s)), map_option sg_default_model (sx_draft (timer_effects env s)),
      map_option sg_has_secret (sx_draft (timer_effects env s)), sx_secret (timer_effects env s),
      sx_validate_key (timer_effects env s))" for s
    by (simp add: timer_effects_def validate_effect_def discover_effect_def secret_effect_def draft_id_def Let_def)
  moreover have "sx_secret_deps (timer_effects env s) = Some (draft_id (timer_effects env s), sx_secret (timer_effects env s),
      sx_saved_key (timer_effects env s))" for s
    by (simp add: timer_effects_def validate_effect_def discover_effect_def secret_effect_def draft_id_def Let_def)
  ultimately show "sx_validate_deps s = Some (draft_id s, map_option sg_base_url (sx_draft s), map_option sg_default_model (sx_draft s),
      map_option sg_has_secret (sx_draft s), sx_secret s, sx_validate_key s)"
    "sx_secret_deps s = Some (draft_id s, sx_secret s, sx_saved_key s)"
    unfolding assms sys_step_def sys_step_out_def by (simp_all split: prod.split)
qed

text \<open>
  The models of one provider, when they arrive with another one on the page that has none chosen, give the
  other one its default model; and the check that follows by itself stores it.
\<close>

theorem late_models_stored_for_other:
  fixes s0
  assumes "s = sys_step env s0 a" "map_of (sx_tasks s) n = Some (SxDiscover d k)" "sx_draft s = Some b" "sg_id b \<noteq> sg_id d"
    and "sg_default_model b = []" "sg_has_secret b" "validate_base_url env (sg_base_url b) = None" "\<not> name_missing b"
    and "js_trim m \<noteq> []" "sx_validate_key s \<noteq> bar [sg_id b, sg_base_url b, js_trim m]"
  shows "SeConfig (config_request_of (b\<lparr>sg_default_model := m\<rparr>)) \<in>
    set (snd (sys_step_out env (sys_step env s (PgReply n (RpModels [m] []))) PgValidateTimer))"
proof -
  let ?b = "b\<lparr>sg_default_model := m\<rparr>"
  define s' where "s' = fst (sys_answer env (SxDiscover d k) (RpModels [m] []) (s\<lparr>sx_tasks := AList.delete n (sx_tasks s)\<rparr>))"
  have draft: "sx_draft s' = Some ?b"
    using assms(3,5) by (simp add: s'_def sys_answer_def discovered_def change_draft_def take_default_def)
  have rest: "sx_validate_key s' = sx_validate_key s" "sx_validate_deps s' = sx_validate_deps s"
    by (simp_all add: s'_def sys_answer_def discovered_def change_draft_def)
  have "\<exists>x k. sx_validate_timer (timer_effects env s') = Some (?b, x, k)"
  proof (rule validate_effect_armed [OF draft])
    show "sx_validate_deps s' \<noteq> Some (draft_id s', Some (sg_base_url ?b), Some (sg_default_model ?b), Some True, sx_secret s',
      sx_validate_key s')"
      using rest deps_current(1) [OF assms(1)] assms(3,5,9) by auto
  qed (use assms rest in simp_all)
  then obtain x key where t: "sx_validate_timer (timer_effects env s') = Some (?b, x, key)" by blast
  have "\<not> name_missing ?b" using assms(8) by (simp add: name_missing_def)
  moreover have "sys_step env s (PgReply n (RpModels [m] [])) = timer_effects env s'"
    using assms(2) by (simp add: step_reply s'_def)
  ultimately show ?thesis
    using t by (simp add: sys_step_out_def sys_handle_def fire_validate_def start_validation_def split: prod.split)
qed

text \<open>
  The reset of one provider, when it is answered with another one on the page, resets the draft of the other
  one and gives it the address of the first.
\<close>

theorem late_reset_changes_other:
  assumes "map_of (sx_tasks s) n = Some (SxReset d)" "sx_draft s = Some b" "sg_id b \<noteq> sg_id d"
  shows "\<exists>c. sx_draft (sys_step env s (PgReply n RpDone)) = Some c \<and> sg_id c = sg_id b \<and>
    sg_base_url c = official_base (sg_id d) \<and> sg_models c = [] \<and> \<not> sg_enabled c"
  using assms by (simp add: step_reply sys_answer_def config_reset_def silent_reload_def change_draft_def reset_config_def)

lemma config_of_in: "config_of i cs = Some c \<Longrightarrow> c \<in> set cs"
  by (induction cs) (auto simp: config_of_def split: if_splits)

lemma sync_clears_notice:
  "(case config_of (sx_selected s) (sx_configs s) of None \<Rightarrow> [] | Some c \<Rightarrow> sg_id c) \<noteq> sx_prev s \<Longrightarrow>
   sx_notice (sync_draft s) = TipNone"
  by (simp add: sync_draft_def Let_def split: option.split)

text \<open>
  The notice that a custom provider was deleted is never shown: the deletion moves to another provider, and
  that clears the notice.
\<close>

theorem deleted_notice_never_shown:
  assumes "map_of (sx_tasks s) n = Some (SxClear d cs)" "removable (sg_id d)" "sx_prev s = sg_id d"
  shows "sx_notice (sys_step env s (PgReply n RpDone)) = TipNone"
proof -
  have other: "(case config_of i (filter (\<lambda>c. sg_id c \<noteq> sg_id d) cs) of None \<Rightarrow> [] | Some c \<Rightarrow> sg_id c) \<noteq> sg_id d" for i
  proof (cases "config_of i (filter (\<lambda>c. sg_id c \<noteq> sg_id d) cs)")
    case None
    have "sg_id d \<noteq> []" using assms(2) by (auto simp: removable_def js_starts_def)
    with None show ?thesis by simp
  next
    case (Some c)
    then have "sg_id c \<noteq> sg_id d" using config_of_in [OF Some] by simp
    with Some show ?thesis by simp
  qed
  have "sx_notice (fst (remove_local env (sg_id d) cs (s\<lparr>sx_tasks := AList.delete n (sx_tasks s)\<rparr>))) = TipNone"
    using assms(3) other by (simp add: remove_local_def silent_reload_def Let_def sync_clears_notice)
  then show ?thesis
    using assms by (simp add: step_reply sys_answer_def secret_cleared_def)
qed

text \<open>
  A key that is typed for a custom provider before its name is not saved when the name is typed: no timer
  is left.
\<close>

theorem name_after_key_saves_nothing:
  fixes s0 v
  assumes "s = sys_step env s0 a" "sx_secret_timer s = Some (d, x, k)" "name_missing d"
  shows "sx_secret_timer (run (sys_step env) s [PgSecretTimer, PgName v]) = None"
proof -
  have same: "secret_effect s' = s'" if "sx_secret_deps s' = Some (draft_id s', sx_secret s', sx_saved_key s')" for s'
    using that by (simp add: secret_effect_def Let_def)
  have keep: "sx_secret_timer (timer_effects env s') = sx_secret_timer s'"
    if "sx_secret_deps s' = Some (draft_id s', sx_secret s', sx_saved_key s')" for s'
    using same [OF that] by (simp add: timer_effects_def validate_effect_def discover_effect_def Let_def)
  let ?s1 = "s\<lparr>sx_secret_timer := None, sx_error := PrText (name_required env)\<rparr>"
  have s1: "sys_step env s PgSecretTimer = timer_effects env ?s1"
    using assms(2,3) by (simp add: sys_step_def sys_step_out_def sys_handle_def fire_secret_def)
  have "sx_secret_deps ?s1 = Some (draft_id ?s1, sx_secret ?s1, sx_saved_key ?s1)"
    using deps_current(2) [OF assms(1)] by (simp add: draft_id_def)
  then have t1: "sx_secret_timer (sys_step env s PgSecretTimer) = None"
    using keep [of ?s1] by (simp add: s1)
  let ?s2 = "sys_step env s PgSecretTimer"
  let ?s3 = "change_draft (\<lambda>d. d\<lparr>sg_name := v\<rparr>) ?s2"
  have "sx_secret_deps ?s3 = Some (draft_id ?s3, sx_secret ?s3, sx_saved_key ?s3)"
    using deps_current(2) [OF refl, of env s PgSecretTimer] by (simp add: change_draft_def draft_id_def option.map_comp comp_def)
  then have "sx_secret_timer (timer_effects env ?s3) = None" using keep t1 by simp
  then show ?thesis by (simp add: run_def sys_step_def [of env "sys_step env s PgSecretTimer"] sys_step_out_def sys_handle_def)
qed

subsection \<open>The primary model\<close>

text \<open>The stored choice of the primary model is read back as it was chosen.\<close>

theorem primary_roundtrip:
  assumes "provider \<noteq> []" "CHR ''|'' \<notin> set provider"
  shows "decode_primary (encode_primary provider model) = (provider, model)"
proof -
  have p: "encode_primary provider model = provider @ CHR ''|'' # model"
    using assms(1) by (simp add: encode_primary_def bar_def)
  have "takeWhile (\<lambda>c. c \<noteq> CHR ''|'') (provider @ CHR ''|'' # model) = provider"
    "dropWhile (\<lambda>c. c \<noteq> CHR ''|'') (provider @ CHR ''|'' # model) = CHR ''|'' # model"
    using assms(2) by (auto simp: takeWhile_append dropWhile_append)
  then show ?thesis by (simp add: p decode_primary_def)
qed


subsection \<open>Examples\<close>

definition demo_sys_env :: sys_env where
  "demo_sys_env = \<lparr>sv_t = id, sv_td = (\<lambda>k x. k), sv_scheme = (\<lambda>u. Some ''https:'')\<rparr>"

definition demo_provider :: "string \<Rightarrow> sys_config" where
  "demo_provider i = (new_custom i)\<lparr>sg_has_secret := True, sg_name := ''n'', sg_base_url := ''u''\<rparr>"

definition demo_start :: "sys_event list" where
  "demo_start = [PgReply 0 (RpConfigs [demo_provider ''openai_compatible_a'', demo_provider ''qwen'']),
     PgSelect ''openai_compatible_a'']"

text \<open>The other provider is on the page when the answer to a call for the first one comes.\<close>

definition demo_key_state :: sys_state where
  "demo_key_state = run (sys_step demo_sys_env) sys_init (demo_start @ [PgSecret ''k'', PgSecretTimer, PgSelect ''qwen''])"

definition demo_models_state :: sys_state where
  "demo_models_state = run (sys_step demo_sys_env) sys_init
     (demo_start @ [PgDiscoverTimer, PgReply 1 RpDone, PgSelect ''qwen''])"

definition demo_reset_state :: sys_state where
  "demo_reset_state = run (sys_step demo_sys_env) sys_init
     [PgReply 0 (RpConfigs [demo_provider ''openai'', demo_provider ''qwen'']), PgSelect ''openai'', PgClear,
      PgReply 1 RpDone, PgSelect ''qwen'']"

definition demo_clear_state :: sys_state where
  "demo_clear_state = run (sys_step demo_sys_env) sys_init (demo_start @ [PgClear])"

definition demo_nameless_state :: sys_state where
  "demo_nameless_state = run (sys_step demo_sys_env) sys_init
     [PgReply 0 (RpConfigs []), PgNew ''openai_compatible_x'', PgSecret ''k'']"

definition waiting :: "nat \<Rightarrow> sys_state \<Rightarrow> sys_task" where
  "waiting n s = the (map_of (sx_tasks s) n)"

definition shown_draft :: "sys_state \<Rightarrow> sys_config" where
  "shown_draft s = the (sx_draft s)"

lemma demo_key_facts:
  "map_of (sx_tasks demo_key_state) 1 = Some (SxSecret (demo_provider ''openai_compatible_a'') ''openai_compatible_a|k'')"
  "sx_draft demo_key_state = Some ((demo_provider ''qwen'')\<lparr>sg_base_url := official_base ''qwen''\<rparr>)"
  by code_simp+

theorem late_secret_marks_other_witness:
  "map_option sg_has_secret (sx_draft (sys_step demo_sys_env demo_key_state (PgReply 1 RpDone))) = Some True"
proof -
  have "sg_id ((demo_provider ''qwen'')\<lparr>sg_base_url := official_base ''qwen''\<rparr>) \<noteq> sg_id (demo_provider ''openai_compatible_a'')"
    by code_simp
  from late_secret_marks_other [OF demo_key_facts this] show ?thesis by simp
qed

lemma demo_models_facts:
  "map_of (sx_tasks demo_models_state) 2 =
     Some (SxDiscover (demo_provider ''openai_compatible_a'') ''openai_compatible_a|u|saved'')"
  "sx_draft demo_models_state = Some ((demo_provider ''qwen'')\<lparr>sg_base_url := official_base ''qwen''\<rparr>)"
  by code_simp+

theorem late_models_stored_for_other_witness:
  "\<exists>rq. SeConfig rq \<in> set (snd (sys_step_out demo_sys_env (sys_step demo_sys_env demo_models_state (PgReply 2 (RpModels [''gpt''] [])))
       PgValidateTimer)) \<and> cr_provider rq = ''qwen'' \<and> cr_default_model rq = ''gpt''"
proof -
  let ?b = "(demo_provider ''qwen'')\<lparr>sg_base_url := official_base ''qwen''\<rparr>"
  have s: "demo_models_state = sys_step demo_sys_env (run (sys_step demo_sys_env) sys_init
      (demo_start @ [PgDiscoverTimer, PgReply 1 RpDone])) (PgSelect ''qwen'')"
    by (simp add: demo_models_state_def run_def)
  have "sg_id ?b \<noteq> sg_id (demo_provider ''openai_compatible_a'')" "sg_default_model ?b = []" "sg_has_secret ?b"
    "validate_base_url demo_sys_env (sg_base_url ?b) = None" "\<not> name_missing ?b" "js_trim ''gpt'' \<noteq> []"
    "sx_validate_key demo_models_state \<noteq> bar [sg_id ?b, sg_base_url ?b, js_trim ''gpt'']"
    by code_simp+
  from late_models_stored_for_other [OF s demo_models_facts this]
  show ?thesis
    by (intro exI [of _ "config_request_of (?b\<lparr>sg_default_model := ''gpt''\<rparr>)"] conjI)
       (simp_all add: config_request_of_def demo_provider_def new_custom_def)
qed

lemma demo_reset_facts:
  "map_of (sx_tasks demo_reset_state) 2 = Some (SxReset ((demo_provider ''openai'')\<lparr>sg_base_url := official_base ''openai''\<rparr>))"
  "sx_draft demo_reset_state = Some ((demo_provider ''qwen'')\<lparr>sg_base_url := official_base ''qwen''\<rparr>)"
  by code_simp+

theorem late_reset_changes_other_witness:
  "\<exists>c. sx_draft (sys_step demo_sys_env demo_reset_state (PgReply 2 RpDone)) = Some c \<and> sg_id c = ''qwen'' \<and>
     sg_base_url c = official_base ''openai''"
proof -
  have "sg_id ((demo_provider ''qwen'')\<lparr>sg_base_url := official_base ''qwen''\<rparr>) = ''qwen''"
    "sg_id ((demo_provider ''openai'')\<lparr>sg_base_url := official_base ''openai''\<rparr>) = ''openai''"
    by (simp_all add: demo_provider_def new_custom_def)
  with late_reset_changes_other [OF demo_reset_facts, of demo_sys_env] show ?thesis by auto
qed

lemma demo_clear_facts:
  "map_of (sx_tasks demo_clear_state) 1 =
     Some (SxClear (demo_provider ''openai_compatible_a'') [demo_provider ''openai_compatible_a'', demo_provider ''qwen''])"
  "removable (sg_id (demo_provider ''openai_compatible_a''))"
  "sx_prev demo_clear_state = sg_id (demo_provider ''openai_compatible_a'')"
  by code_simp+

theorem deleted_notice_never_shown_witness:
  "sx_notice (sys_step demo_sys_env demo_clear_state (PgReply 1 RpDone)) = TipNone"
  by (rule deleted_notice_never_shown [OF demo_clear_facts])

theorem name_after_key_saves_nothing_witness:
  "sx_secret_timer (run (sys_step demo_sys_env) demo_nameless_state [PgSecretTimer, PgName ''n'']) = None"
proof -
  have "demo_nameless_state = sys_step demo_sys_env (run (sys_step demo_sys_env) sys_init
      [PgReply 0 (RpConfigs []), PgNew ''openai_compatible_x'']) (PgSecret ''k'')"
    by (simp add: demo_nameless_state_def run_def)
  moreover have "sx_secret_timer demo_nameless_state = Some (new_custom ''openai_compatible_x'', ''k'', ''openai_compatible_x|k'')"
    "name_missing (new_custom ''openai_compatible_x'')" by code_simp+
  ultimately show ?thesis by (rule name_after_key_saves_nothing)
qed

lemma demo_key_sent:
  "snd (sys_step_out demo_sys_env (run (sys_step demo_sys_env) sys_init (demo_start @ [PgSecret '' k ''])) PgSecretTimer) =
     [SeSecret ''openai_compatible_a'' ''k'']"
  by code_simp

theorem key_goes_to_its_provider_witness:
  "\<exists>bs v cs. demo_start @ [PgSecret '' k ''] = bs @ PgSecret v # cs \<and>
     draft_id (run (sys_step demo_sys_env) sys_init bs) = Some ''openai_compatible_a'' \<and> js_trim v = ''k''"
proof (rule key_goes_to_its_provider)
  show "SeSecret ''openai_compatible_a'' ''k'' \<in>
      set (snd (sys_step_out demo_sys_env (run (sys_step demo_sys_env) sys_init (demo_start @ [PgSecret '' k ''])) PgSecretTimer))"
    unfolding demo_key_sent by simp
qed simp

theorem primary_roundtrip_witness: "decode_primary ''openai|gpt|x'' = (''openai'', ''gpt|x'')"
proof -
  have "encode_primary ''openai'' ''gpt|x'' = ''openai|gpt|x''" by code_simp
  with primary_roundtrip [of "''openai''" "''gpt|x''"] show ?thesis by simp
qed

end
