(* ===== verification/BindAccount.thy ===== *)
theory BindAccount
  imports AccountStore TaskTable
begin

text \<open>
  The wizard that binds a trading account (\<open>pages/accounts/BindAccount.tsx\<close>): broker search, the three
  pages, the request, with the calls of the account client that it uses (\<open>client/account.ts\<close>) and the
  detail text of a failure (\<open>utils/llmTranslate.ts\<close>).
\<close>

subsection \<open>The account client\<close>

definition search_request :: "string \<Rightarrow> string \<Rightarrow> jv" where
  "search_request company mt = JObj [(''company'', JStr company), (''mtType'', js_or (JStr mt) (JStr ''MT5''))]"

definition create_request :: "jv \<Rightarrow> jv" where
  "create_request data = JObj (List.map (\<lambda>k. (k, jget k data))
     [''login'', ''password'', ''mtType'', ''brokerCompany'', ''brokerServer'', ''brokerHost''])"

subsection \<open>Brokers\<close>

record broker_server =
  bs_name :: jv
  bs_access :: jv

record broker_company =
  bc_name :: jv
  bc_servers :: "broker_server list"

text \<open>\<open>None\<close> is a \<open>TypeError\<close>: a field of a nullish value, or \<open>map\<close> of what is no array.\<close>

definition read_server :: "jv \<Rightarrow> broker_server option" where
  "read_server s = (if nullish s then None else Some \<lparr>bs_name = jget ''name'' s, bs_access = jget ''access'' s\<rparr>)"

fun read_all :: "('a \<Rightarrow> 'b option) \<Rightarrow> 'a list \<Rightarrow> 'b list option" where
  "read_all f [] = Some []"
| "read_all f (x # xs) =
     (case f x of None \<Rightarrow> None | Some y \<Rightarrow> map_option ((#) y) (read_all f xs))"

definition read_company :: "jv \<Rightarrow> broker_company option" where
  "read_company c =
     (if nullish c then None
      else case js_or (jget ''servers'' c) (JArr []) of
          JArr ss \<Rightarrow> map_option (\<lambda>ss. \<lparr>bc_name = js_or (jget ''companyName'' c) (jget ''company_name'' c), bc_servers = ss\<rparr>)
                       (read_all read_server ss)
        | _ \<Rightarrow> None)"

text \<open>The notice of an empty result is sent to a name that the file does not import, which throws as well.\<close>

definition read_companies :: "jv \<Rightarrow> broker_company list option" where
  "read_companies companies = (case companies of JArr (c # cs) \<Rightarrow> read_all read_company (c # cs) | _ \<Rightarrow> None)"

text \<open>\<open>access[0] || ''\<close>; \<open>None\<close> is the \<open>TypeError\<close> of a nullish \<open>access\<close>.\<close>

fun first_access :: "jv \<Rightarrow> jv option" where
  "first_access JUndef = None"
| "first_access JNull = None"
| "first_access (JArr (x # _)) = Some (js_or x (JStr []))"
| "first_access (JStr (c # _)) = Some (JStr [c])"
| "first_access (JObj fs) = Some (js_or (jget ''0'' (JObj fs)) (JStr []))"
| "first_access _ = Some (JStr [])"

subsection \<open>Details of a failure\<close>

text \<open>
  The texts of the thrown value in the order of the code; \<open>to_text\<close> is its own \<open>toString\<close>, which a nullish
  value does not have.  The parameter \<open>json\<close> is \<open>JSON.stringify\<close>, without a value where it throws or
  yields none.
\<close>

definition detail_candidates :: "(jv \<Rightarrow> string) \<Rightarrow> jv \<Rightarrow> jv list" where
  "detail_candidates to_text e =
     [jget ''rawMessage'' e, jget ''details'' e, jget ''message'' (jget ''cause'' e), jget ''message'' e,
      if nullish e then JUndef else JStr (to_text e)]"

definition usable_detail :: "jv \<Rightarrow> string option" where
  "usable_detail c =
     (let s = js_trim (js_string (js_or c (JStr [])))
      in if s = [] \<or> js_starts s ''errors.'' then None else Some s)"

fun first_detail :: "jv list \<Rightarrow> string option" where
  "first_detail [] = None"
| "first_detail (c # cs) = (case usable_detail c of Some s \<Rightarrow> Some s | None \<Rightarrow> first_detail cs)"

definition extract_error_detail :: "(jv \<Rightarrow> string) \<Rightarrow> (jv \<Rightarrow> string option) \<Rightarrow> jv \<Rightarrow> string" where
  "extract_error_detail to_text json e =
     (case first_detail (detail_candidates to_text e) of
        Some s \<Rightarrow> s
      | None \<Rightarrow> (case json e of
          Some j \<Rightarrow> if j \<noteq> [] \<and> j \<noteq> ''{}'' \<and> \<not> js_includes j ''errors.'' then j else []
        | None \<Rightarrow> []))"

subsection \<open>The wizard\<close>

record bind_request =
  br_alias :: jv
  br_mt :: string
  br_login :: string
  br_password :: string
  br_company :: jv
  br_server :: jv
  br_host :: jv

definition request_value :: "bind_request \<Rightarrow> jv" where
  "request_value r = JObj
     [(''alias'', br_alias r), (''mtType'', JStr (br_mt r)), (''login'', JStr (br_login r)),
      (''password'', JStr (br_password r)), (''brokerCompany'', br_company r), (''brokerServer'', br_server r),
      (''brokerHost'', br_host r)]"

text \<open>A request in flight: a search keeps nothing of the page that its answer reads.\<close>

datatype bind_task = BtSearch | BtBind

record bind_state =
  bd_loading :: bool
  bd_searching :: bool
  bd_step :: nat
  bd_error :: "(string \<times> string) option"
  bd_mt :: string
  bd_query :: string
  bd_results :: "broker_company list"
  bd_company :: "broker_company option"
  bd_server :: "broker_server option"
  bd_login :: string
  bd_password :: string
  bd_alias :: jv
  bd_left :: bool
  bd_accounts :: account_state
  bd_tasks :: "(nat \<times> bind_task) list"
  bd_next :: nat

definition bind_init :: "account_state \<Rightarrow> bind_state" where
  "bind_init accounts =
     \<lparr>bd_loading = False, bd_searching = False, bd_step = 1, bd_error = None, bd_mt = ''MT4'', bd_query = [],
      bd_results = [], bd_company = None, bd_server = None, bd_login = [], bd_password = [], bd_alias = JStr [],
      bd_left = False, bd_accounts = accounts, bd_tasks = [], bd_next = 0\<rparr>"

datatype bind_effect =
    BfSearch jv
  | BfCreate jv
  | BfNavigate string
  | BfToast toast

definition start_bind_task :: "bind_task \<Rightarrow> bind_state \<Rightarrow> bind_state" where
  "start_bind_task k s = s\<lparr>bd_tasks := bd_tasks s @ [(bd_next s, k)], bd_next := Suc (bd_next s)\<rparr>"

definition handle_search :: "(string \<Rightarrow> string) \<Rightarrow> bind_state \<Rightarrow> bind_state \<times> bind_effect list" where
  "handle_search t s =
     (if js_trim (bd_query s) = [] then (s, [BfToast (ToastWarning (t ''accounts.bind.messages.enterBrokerName''))])
      else (start_bind_task BtSearch
              (s\<lparr>bd_searching := True, bd_results := [], bd_company := None, bd_server := None\<rparr>),
            [BfSearch (search_request (js_trim (bd_query s)) (bd_mt s))]))"

definition search_answered ::
    "(string \<Rightarrow> string) \<Rightarrow> jv outcome \<Rightarrow> bind_state \<Rightarrow> bind_state \<times> bind_effect list" where
  "search_answered t answer s =
     (case (case answer of Inl _ \<Rightarrow> None | Inr response \<Rightarrow> read_companies (jget ''companies'' response)) of
        Some results \<Rightarrow> (s\<lparr>bd_results := results, bd_searching := False\<rparr>,
          [BfToast (ToastSuccess (t ''accounts.bind.messages.foundBrokers''))])
      | None \<Rightarrow> (s\<lparr>bd_searching := False\<rparr>, [BfToast (ToastError (t ''accounts.bind.messages.searchFailed''))]))"

definition handle_company_change :: "jv \<Rightarrow> bind_state \<Rightarrow> bind_state" where
  "handle_company_change name s =
     s\<lparr>bd_company := List.find (\<lambda>c. js_strict_eq (bc_name c) name) (bd_results s), bd_server := None\<rparr>"

definition handle_server_change :: "jv \<Rightarrow> bind_state \<Rightarrow> bind_state" where
  "handle_server_change name s =
     (case bd_company s of
        None \<Rightarrow> s
      | Some c \<Rightarrow>
          (case List.find (\<lambda>v. js_strict_eq (bs_name v) name) (bc_servers c) of
             None \<Rightarrow> s
           | Some v \<Rightarrow> s\<lparr>bd_server := Some v, bd_alias := (if truthy (bd_alias s) then bd_alias s else bs_name v)\<rparr>))"

definition bind_request_of :: "broker_company \<Rightarrow> broker_server \<Rightarrow> jv \<Rightarrow> bind_state \<Rightarrow> bind_request" where
  "bind_request_of c v host s =
     \<lparr>br_alias = js_or (bd_alias s) (bs_name v), br_mt = bd_mt s, br_login = js_trim (bd_login s),
      br_password = bd_password s, br_company = bc_name c, br_server = bs_name v, br_host = host\<rparr>"

definition bind_failed ::
    "(string \<Rightarrow> string) \<Rightarrow> (jv \<Rightarrow> string) \<Rightarrow> (jv \<Rightarrow> string option) \<Rightarrow> jv \<Rightarrow> bind_state \<Rightarrow> bind_state" where
  "bind_failed t to_text json e s =
     s\<lparr>bd_error := Some (get_error_message t e (t ''accounts.bind.messages.bindFailed''), extract_error_detail to_text json e),
       bd_loading := False\<rparr>"

text \<open>The \<open>TypeError\<close> of a server without \<open>access\<close> is \<open>type_error\<close>.\<close>

definition handle_bind ::
    "(string \<Rightarrow> string) \<Rightarrow> (jv \<Rightarrow> string) \<Rightarrow> (jv \<Rightarrow> string option) \<Rightarrow> jv \<Rightarrow> bind_state \<Rightarrow>
     bind_state \<times> bind_effect list" where
  "handle_bind t to_text json type_error s =
     (let warn = (\<lambda>k. (s, [BfToast (ToastWarning (t k))]))
      in case (bd_company s, bd_server s) of
           (Some c, Some v) \<Rightarrow>
             if js_trim (bd_login s) = [] then warn ''accounts.bind.messages.enterTradingAccount''
             else if js_trim (bd_password s) = [] then warn ''accounts.bind.messages.enterPassword''
             else (case first_access (bs_access v) of
                 None \<Rightarrow> (bind_failed t to_text json type_error s, [])
               | Some host \<Rightarrow>
                   (start_bind_task BtBind
                      (s\<lparr>bd_loading := True, bd_accounts := set_account_loading True (bd_accounts s)\<rparr>),
                    [BfCreate (create_request (request_value (bind_request_of c v host s)))]))
         | _ \<Rightarrow> warn ''accounts.bind.messages.selectServer'')"

definition bind_answered ::
    "(string \<Rightarrow> string) \<Rightarrow> (jv \<Rightarrow> string) \<Rightarrow> (jv \<Rightarrow> string option) \<Rightarrow> jv outcome \<Rightarrow> bind_state \<Rightarrow>
     bind_state \<times> bind_effect list" where
  "bind_answered t to_text json answer s =
     (case bind_account t answer (bd_accounts s) of
        (accounts, toasts, result) \<Rightarrow>
          (let s = s\<lparr>bd_accounts := accounts\<rparr>; shown = List.map BfToast toasts
           in case result of
                Inr _ \<Rightarrow> (s\<lparr>bd_loading := False, bd_left := True\<rparr>,
                  shown @ [BfToast (ToastSuccess (t ''accounts.bind.messages.bindSuccess'')), BfNavigate ''/''])
              | Inl e \<Rightarrow> (bind_failed t to_text json e s, shown)))"

subsection \<open>What the user and the service do\<close>

datatype bind_event =
    BvPlatform string
  | BvQuery string
  | BvSearchClick
  | BvSearchEnter
  | BvCompany jv
  | BvServer jv
  | BvNext
  | BvPrevious
  | BvLogin string
  | BvPassword string
  | BvConfirm
  | BvCloseError
  | BvBack
  | BvSearchAnswer nat "jv outcome"
  | BvBindAnswer nat "jv outcome"

text \<open>What the page offers: its controls are those of the current page, and none while the failure is shown.\<close>

definition bind_offers :: "bind_state \<Rightarrow> bind_event \<Rightarrow> bool" where
  "bind_offers s a =
     (case a of
        BvSearchAnswer i _ \<Rightarrow> map_of (bd_tasks s) i = Some BtSearch
      | BvBindAnswer i _ \<Rightarrow> map_of (bd_tasks s) i = Some BtBind
      | BvCloseError \<Rightarrow> \<not> bd_left s \<and> bd_error s \<noteq> None
      | _ \<Rightarrow> \<not> bd_left s \<and> bd_error s = None \<and>
          (case a of
             BvPlatform p \<Rightarrow> bd_step s = 1 \<and> p \<in> {''MT4'', ''MT5''}
           | BvQuery _ \<Rightarrow> bd_step s = 1
           | BvSearchClick \<Rightarrow> bd_step s = 1 \<and> \<not> bd_searching s
           | BvSearchEnter \<Rightarrow> bd_step s = 1
           | BvCompany _ \<Rightarrow> bd_step s = 1 \<and> bd_results s \<noteq> []
           | BvServer _ \<Rightarrow> bd_step s = 1 \<and> bd_results s \<noteq> [] \<and> bd_company s \<noteq> None
           | BvNext \<Rightarrow> bd_step s = 1 \<and> bd_server s \<noteq> None \<or>
               bd_step s = 2 \<and> js_trim (bd_login s) \<noteq> [] \<and> js_trim (bd_password s) \<noteq> []
           | BvPrevious \<Rightarrow> bd_step s \<in> {2, 3}
           | BvLogin _ \<Rightarrow> bd_step s = 2
           | BvPassword _ \<Rightarrow> bd_step s = 2
           | BvConfirm \<Rightarrow> bd_step s = 3 \<and> \<not> bd_loading s
           | _ \<Rightarrow> True))"

definition end_bind_task :: "nat \<Rightarrow> bind_state \<Rightarrow> bind_state" where
  "end_bind_task i s = s\<lparr>bd_tasks := AList.delete i (bd_tasks s)\<rparr>"

definition bind_event_out ::
    "(string \<Rightarrow> string) \<Rightarrow> (jv \<Rightarrow> string) \<Rightarrow> (jv \<Rightarrow> string option) \<Rightarrow> jv \<Rightarrow> bind_state \<Rightarrow> bind_event \<Rightarrow>
     bind_state \<times> bind_effect list" where
  "bind_event_out t to_text json type_error s a =
     (case a of
        BvPlatform p \<Rightarrow> (s\<lparr>bd_mt := p\<rparr>, [])
      | BvQuery q \<Rightarrow> (s\<lparr>bd_query := q\<rparr>, [])
      | BvSearchClick \<Rightarrow> handle_search t s
      | BvSearchEnter \<Rightarrow> handle_search t s
      | BvCompany name \<Rightarrow> (handle_company_change name s, [])
      | BvServer name \<Rightarrow> (handle_server_change name s, [])
      | BvNext \<Rightarrow> (s\<lparr>bd_step := Suc (bd_step s)\<rparr>, [])
      | BvPrevious \<Rightarrow> (s\<lparr>bd_step := bd_step s - 1\<rparr>, [])
      | BvLogin x \<Rightarrow> (s\<lparr>bd_login := x\<rparr>, [])
      | BvPassword x \<Rightarrow> (s\<lparr>bd_password := x\<rparr>, [])
      | BvConfirm \<Rightarrow> handle_bind t to_text json type_error s
      | BvCloseError \<Rightarrow> (s\<lparr>bd_error := None\<rparr>, [])
      | BvBack \<Rightarrow> (s\<lparr>bd_left := True\<rparr>, [BfNavigate ''/''])
      | BvSearchAnswer i answer \<Rightarrow> search_answered t answer (end_bind_task i s)
      | BvBindAnswer i answer \<Rightarrow> bind_answered t to_text json answer (end_bind_task i s))"

definition bind_step_out ::
    "(string \<Rightarrow> string) \<Rightarrow> (jv \<Rightarrow> string) \<Rightarrow> (jv \<Rightarrow> string option) \<Rightarrow> jv \<Rightarrow> bind_state \<Rightarrow> bind_event \<Rightarrow>
     bind_state \<times> bind_effect list" where
  "bind_step_out t to_text json type_error s a =
     (if bind_offers s a then bind_event_out t to_text json type_error s a else (s, []))"

definition bind_step ::
    "(string \<Rightarrow> string) \<Rightarrow> (jv \<Rightarrow> string) \<Rightarrow> (jv \<Rightarrow> string option) \<Rightarrow> jv \<Rightarrow> bind_state \<Rightarrow> bind_event \<Rightarrow> bind_state" where
  "bind_step t to_text json type_error s a = fst (bind_step_out t to_text json type_error s a)"

definition bind_shown ::
    "(string \<Rightarrow> string) \<Rightarrow> (jv \<Rightarrow> string) \<Rightarrow> (jv \<Rightarrow> string option) \<Rightarrow> jv \<Rightarrow> bind_state \<Rightarrow> bind_event \<Rightarrow> bind_effect list" where
  "bind_shown t to_text json type_error s a = snd (bind_step_out t to_text json type_error s a)"


subsection \<open>Invariant of the wizard\<close>

definition bind_count :: "(nat \<times> bind_task) list \<Rightarrow> nat" where
  "bind_count tasks = length (filter (\<lambda>p. snd p = BtBind) tasks)"

definition wizard_inv :: "broker_company set \<Rightarrow> bind_state \<Rightarrow> bool" where
  "wizard_inv found s \<longleftrightarrow>
     set (bd_results s) \<subseteq> found \<and>
     (\<forall>c. bd_company s = Some c \<longrightarrow> c \<in> found) \<and>
     (\<forall>v. bd_server s = Some v \<longrightarrow> (\<exists>c. bd_company s = Some c \<and> v \<in> set (bc_servers c))) \<and>
     bd_mt s \<in> {''MT4'', ''MT5''} \<and> bd_step s \<in> {1, 2, 3} \<and>
     (bd_step s \<noteq> 1 \<longrightarrow> bd_server s \<noteq> None) \<and>
     (bd_step s = 3 \<longrightarrow> js_trim (bd_login s) \<noteq> [] \<and> js_trim (bd_password s) \<noteq> []) \<and>
     fresh_table (bd_next s) (bd_tasks s) \<and> bind_count (bd_tasks s) = (if bd_loading s then 1 else 0)"

lemma bind_count_append [simp]: "bind_count (al @ [(n, k)]) = bind_count al + (if k = BtBind then 1 else 0)"
  by (simp add: bind_count_def)

lemma bind_count_delete:
  "fresh_table n al \<Longrightarrow> map_of al i = Some k \<Longrightarrow>
   bind_count (AList.delete i al) = bind_count al - (if k = BtBind then 1 else 0)"
proof (induction al)
  case (Cons p al)
  then have fresh: "fresh_table n al" and new: "fst p \<notin> fst ` set al"
    by (auto simp: fresh_table_def)
  show ?case
  proof (cases "fst p = i")
    case True
    then have "AList.delete i al = al" using new by (simp add: delete_idem)
    then show ?thesis using True Cons.prems by (cases p) (auto simp: bind_count_def)
  next
    case False
    then have "map_of al i = Some k" using Cons.prems by (cases p) auto
    then have "k = BtBind \<Longrightarrow> 0 < bind_count al"
      by (force simp: bind_count_def filter_empty_conv dest!: map_of_SomeD)
    then show ?thesis using False Cons.IH [OF fresh \<open>map_of al i = Some k\<close>] Cons.prems
      by (cases p) (auto simp: bind_count_def)
  qed
qed simp

lemma find_member: "List.find P xs = Some x \<Longrightarrow> x \<in> set xs"
  by (auto simp: find_Some_iff)

lemma wizard_inv_init: "wizard_inv found (bind_init accounts)"
  by (simp add: wizard_inv_def bind_init_def bind_count_def)

lemma wizard_inv_search:
  "wizard_inv found s \<Longrightarrow> bd_step s = 1 \<Longrightarrow> wizard_inv found (fst (handle_search t s))"
  by (simp add: handle_search_def wizard_inv_def start_bind_task_def)

lemma wizard_inv_searched:
  assumes "wizard_inv found s"
    and "\<And>r cs. answer = Inr r \<Longrightarrow> read_companies (jget ''companies'' r) = Some cs \<Longrightarrow> set cs \<subseteq> found"
  shows "wizard_inv found (fst (search_answered t answer s))"
  using assms by (auto simp: search_answered_def wizard_inv_def split: option.split sum.split)

lemma wizard_inv_company:
  "wizard_inv found s \<Longrightarrow> bd_step s = 1 \<Longrightarrow> wizard_inv found (handle_company_change name s)"
  by (auto simp: handle_company_change_def wizard_inv_def dest: find_member)

lemma wizard_inv_server: "wizard_inv found s \<Longrightarrow> wizard_inv found (handle_server_change name s)"
  by (auto simp: handle_server_change_def wizard_inv_def dest: find_member split: option.split)

lemma wizard_inv_bind:
  "wizard_inv found s \<Longrightarrow> \<not> bd_loading s \<Longrightarrow> wizard_inv found (fst (handle_bind t to_text json e s))"
  by (auto simp: handle_bind_def Let_def wizard_inv_def start_bind_task_def bind_failed_def split: option.split)

lemma wizard_inv_bound:
  "wizard_inv found s' \<Longrightarrow> s' = s\<lparr>bd_loading := False\<rparr> \<Longrightarrow> wizard_inv found (fst (bind_answered t to_text json answer s))"
  by (auto simp: bind_answered_def Let_def wizard_inv_def bind_failed_def split: prod.split sum.split)

lemma wizard_inv_ended:
  assumes "wizard_inv found s" and "map_of (bd_tasks s) i = Some k"
  shows "wizard_inv found ((end_bind_task i s)\<lparr>bd_loading := bd_loading s \<and> k \<noteq> BtBind\<rparr>)"
  using assms bind_count_delete [of "bd_next s" "bd_tasks s" i k]
  by (auto simp: wizard_inv_def end_bind_task_def)

lemma wizard_inv_field:
  assumes "wizard_inv found s"
  shows "p \<in> {''MT4'', ''MT5''} \<Longrightarrow> wizard_inv found (s\<lparr>bd_mt := p\<rparr>)"
    and "wizard_inv found (s\<lparr>bd_mt := ''MT4''\<rparr>)" and "wizard_inv found (s\<lparr>bd_mt := ''MT5''\<rparr>)"
    and "wizard_inv found (s\<lparr>bd_query := q\<rparr>)" and "wizard_inv found (s\<lparr>bd_left := b\<rparr>)"
    and "wizard_inv found (s\<lparr>bd_error := e\<rparr>)"
    and "bd_step s = 2 \<Longrightarrow> wizard_inv found (s\<lparr>bd_login := x\<rparr>)"
    and "bd_step s = 2 \<Longrightarrow> wizard_inv found (s\<lparr>bd_password := x\<rparr>)"
  using assms by (auto simp: wizard_inv_def)

definition answered_companies :: "bind_event list \<Rightarrow> broker_company set" where
  "answered_companies as =
     {c. \<exists>i r cs. BvSearchAnswer i (Inr r) \<in> set as \<and> read_companies (jget ''companies'' r) = Some cs \<and> c \<in> set cs}"

lemma answered_companies_Cons: "answered_companies (a # as) = answered_companies [a] \<union> answered_companies as"
  by (auto simp: answered_companies_def)

lemma wizard_inv_step:
  assumes "wizard_inv found s" and "answered_companies [a] \<subseteq> found"
  shows "wizard_inv found (bind_step t to_text json e s a)"
proof (cases "bind_offers s a")
  case True
  show ?thesis
  proof (cases a)
    case (BvSearchAnswer i answer)
    with True assms(1) have "wizard_inv found (end_bind_task i s)"
      using wizard_inv_ended [of found s i BtSearch] by (simp add: bind_offers_def wizard_inv_def end_bind_task_def)
    with True BvSearchAnswer assms(2) show ?thesis
      by (auto simp: bind_step_def bind_step_out_def bind_event_out_def answered_companies_def
          intro!: wizard_inv_searched)
  next
    case (BvBindAnswer i answer)
    with True wizard_inv_ended [OF assms(1), of i BtBind] show ?thesis
      by (auto simp: bind_offers_def bind_step_def bind_step_out_def bind_event_out_def intro: wizard_inv_bound)
  next
    case BvNext
    with True assms(1) show ?thesis
      by (auto simp: wizard_inv_def bind_offers_def bind_step_def bind_step_out_def bind_event_out_def)
  next
    case BvPrevious
    with True assms(1) show ?thesis
      by (auto simp: wizard_inv_def bind_offers_def bind_step_def bind_step_out_def bind_event_out_def)
  qed (use True assms(1) in \<open>auto simp: bind_offers_def bind_step_def bind_step_out_def bind_event_out_def
        intro: wizard_inv_search wizard_inv_company wizard_inv_server wizard_inv_bind wizard_inv_field\<close>)
qed (use assms in \<open>simp add: bind_step_def bind_step_out_def\<close>)

lemma wizard_reachable:
  "answered_companies as \<subseteq> found \<Longrightarrow> wizard_inv found s \<Longrightarrow> wizard_inv found (run (bind_step t to_text json e) s as)"
proof (induction as arbitrary: s)
  case (Cons a as)
  then have "answered_companies [a] \<subseteq> found" "answered_companies as \<subseteq> found"
    using answered_companies_Cons [of a as] by auto
  with Cons show ?case by (simp add: wizard_inv_step)
qed simp


subsection \<open>What the wizard sends\<close>

definition request_complete :: "broker_company set \<Rightarrow> jv \<Rightarrow> bool" where
  "request_complete found r \<longleftrightarrow>
     (\<exists>c \<in> found. \<exists>v \<in> set (bc_servers c). \<exists>x p m. js_trim x \<noteq> [] \<and> js_trim p \<noteq> [] \<and> m \<in> {''MT4'', ''MT5''} \<and>
        r = JObj [(''login'', JStr (js_trim x)), (''password'', JStr p), (''mtType'', JStr m),
                  (''brokerCompany'', bc_name c), (''brokerServer'', bs_name v),
                  (''brokerHost'', the (first_access (bs_access v)))])"

lemma create_request_value:
  "create_request (request_value (bind_request_of c v host s)) = JObj
     [(''login'', JStr (js_trim (bd_login s))), (''password'', JStr (bd_password s)), (''mtType'', JStr (bd_mt s)),
      (''brokerCompany'', bc_name c), (''brokerServer'', bs_name v), (''brokerHost'', host)]"
  by (simp add: create_request_def request_value_def bind_request_of_def jget_def)

lemma request_completeI:
  assumes "c \<in> found" "v \<in> set (bc_servers c)" "js_trim (bd_login s) \<noteq> []" "js_trim (bd_password s) \<noteq> []"
    and "bd_mt s \<in> {''MT4'', ''MT5''}" "first_access (bs_access v) = Some host"
  shows "request_complete found (create_request (request_value (bind_request_of c v host s)))"
  unfolding request_complete_def create_request_value
  by (rule bexI [OF _ assms(1)], rule bexI [OF _ assms(2)], rule exI [of _ "bd_login s"], rule exI [of _ "bd_password s"],
      rule exI [of _ "bd_mt s"]) (use assms in simp)

lemma creates_only_confirm:
  "BfCreate r \<in> set (bind_shown t to_text json e s a) \<Longrightarrow> a = BvConfirm \<and> bind_offers s a"
  by (cases a) (auto simp: bind_shown_def bind_step_out_def bind_event_out_def handle_search_def search_answered_def
      bind_answered_def Let_def split: if_splits option.splits prod.splits sum.splits)

text \<open>
  C21. Every account that the wizard asks to bind has a login and a password, and a server of the company that
  is sent with it, which an answered search named; and the service is asked for one at a time.
\<close>

theorem bound_server_was_found:
  fixes acts accounts t to_text json e
  defines "s \<equiv> run (bind_step t to_text json e) (bind_init accounts) acts"
  assumes "BfCreate r \<in> set (bind_shown t to_text json e s a)"
  shows "request_complete (answered_companies acts) r \<and> \<not> bd_loading s \<and> bd_loading (bind_step t to_text json e s a)"
proof -
  have a: "a = BvConfirm" "bind_offers s BvConfirm" using creates_only_confirm [OF assms(2)] by auto
  have "wizard_inv (answered_companies acts) s"
    unfolding s_def by (rule wizard_reachable [OF order_refl wizard_inv_init])
  then show ?thesis
    using assms(2) a
    by (auto simp: bind_shown_def bind_step_def bind_step_out_def bind_event_out_def handle_bind_def Let_def
        wizard_inv_def bind_offers_def start_bind_task_def intro!: request_completeI
        split: option.splits if_splits)
qed

text \<open>
  On the last page the wizard never lacks anything: pressing the button sends the request, unless one is
  on its way or the server has no list of hosts.
\<close>

theorem confirm_always_sends:
  fixes acts accounts t to_text json e
  defines "s \<equiv> run (bind_step t to_text json e) (bind_init accounts) acts"
  assumes "bd_step s = 3" "\<not> bd_left s" "\<not> bd_loading s" "bd_error s = None"
    and "\<And>c v. c \<in> answered_companies acts \<Longrightarrow> v \<in> set (bc_servers c) \<Longrightarrow> first_access (bs_access v) \<noteq> None"
  shows "\<exists>r. bind_shown t to_text json e s BvConfirm = [BfCreate r] \<and> bd_loading (bind_step t to_text json e s BvConfirm)"
proof -
  have inv: "wizard_inv (answered_companies acts) s"
    unfolding s_def by (rule wizard_reachable [OF order_refl wizard_inv_init])
  then obtain c v where cv: "bd_company s = Some c" "bd_server s = Some v" "c \<in> answered_companies acts"
      "v \<in> set (bc_servers c)" "js_trim (bd_login s) \<noteq> []" "js_trim (bd_password s) \<noteq> []"
    using assms(2) by (fastforce simp: wizard_inv_def)
  moreover obtain host where "first_access (bs_access v) = Some host"
    using assms(6) [OF cv(3,4)] by auto
  ultimately show ?thesis
    using assms(2-5)
    by (simp add: bind_shown_def bind_step_def bind_step_out_def bind_event_out_def bind_offers_def handle_bind_def Let_def
        start_bind_task_def)
qed

text \<open>The alias that the wizard chooses is not among the fields that the client sends.\<close>

theorem alias_never_sent:
  "create_request (request_value (r\<lparr>br_alias := x\<rparr>)) = create_request (request_value r) \<and>
   jget ''alias'' (create_request (request_value r)) = JUndef"
  by (simp add: create_request_def request_value_def jget_def)

text \<open>
  A broker that was searched for one platform is bound as one of the other: changing the platform after the
  search keeps its results and the choice among them.
\<close>

theorem platform_of_other_search:
  fixes q response c v accounts login password t to_text json e
  assumes "read_companies (jget ''companies'' response) = Some [c]" and "bc_servers c = [v]"
    and "js_strict_eq (bc_name c) (bc_name c)" and "js_strict_eq (bs_name v) (bs_name v)"
    and "js_trim q \<noteq> []" "js_trim login \<noteq> []" "js_trim password \<noteq> []" "first_access (bs_access v) = Some host"
  defines "find_broker \<equiv> [BvQuery q]"
    and "choose_other \<equiv> [BvSearchClick, BvSearchAnswer 0 (Inr response), BvCompany (bc_name c), BvServer (bs_name v),
      BvPlatform ''MT5'', BvNext, BvLogin login, BvPassword password, BvNext]"
  shows "bind_shown t to_text json e (run (bind_step t to_text json e) (bind_init accounts) find_broker) BvSearchClick =
      [BfSearch (JObj [(''company'', JStr (js_trim q)), (''mtType'', JStr ''MT4'')])] \<and>
    bind_shown t to_text json e (run (bind_step t to_text json e) (bind_init accounts) (find_broker @ choose_other)) BvConfirm =
      [BfCreate (JObj [(''login'', JStr (js_trim login)), (''password'', JStr password), (''mtType'', JStr ''MT5''),
        (''brokerCompany'', bc_name c), (''brokerServer'', bs_name v), (''brokerHost'', host)])]"
  using assms(1-8)
  by (simp add: find_broker_def choose_other_def bind_shown_def bind_step_def bind_step_out_def bind_event_out_def bind_offers_def
      bind_init_def handle_search_def search_request_def start_bind_task_def js_or_def search_answered_def end_bind_task_def
      handle_company_change_def handle_server_change_def handle_bind_def Let_def create_request_value)

text \<open>
  The end of a binding: a bound account is in the store, reported and leads to the start page, a failure is
  shown in the dialog of the page that stays; in both cases nothing is marked busy.
\<close>

theorem bind_outcomes:
  fixes s answer
  assumes "bind_answered t to_text json answer s = (s', out)"
  shows "\<not> bd_loading s' \<and> \<not> ac_loading (bd_accounts s') \<and>
    (case answer of
       Inr account \<Rightarrow> bd_left s' \<and> bd_accounts s' = set_account_loading False (add_account account (set_account_loading True (bd_accounts s))) \<and>
         out = [BfToast (ToastSuccess (t ''accounts.messages.createdSuccess'')),
                BfToast (ToastSuccess (t ''accounts.bind.messages.bindSuccess'')), BfNavigate ''/'']
     | Inl err \<Rightarrow> bd_left s' = bd_left s \<and> ac_accounts (bd_accounts s') = ac_accounts (bd_accounts s) \<and>
         bd_error s' = Some (get_error_message t err (t ''accounts.bind.messages.bindFailed''), extract_error_detail to_text json err) \<and>
         out = [BfToast (error_toast t err ''accounts.messages.createFailed'')])"
  using assms
  by (auto simp: bind_answered_def bind_account_def create_account_def Let_def bind_failed_def set_account_loading_def
      add_account_def split: sum.splits)

text \<open>
  The detail of an error whose message is a key is that key after all, as its \<open>toString\<close> puts the name of
  the error before it.
\<close>

theorem message_key_shown_as_detail:
  assumes "\<not> nullish err" "usable_detail (jget ''rawMessage'' err) = None" "usable_detail (jget ''details'' err) = None"
    and "usable_detail (jget ''message'' (jget ''cause'' err)) = None" and "jget ''message'' err = JStr (''errors.'' @ k)"
    and "js_trim (''errors.'' @ k) = ''errors.'' @ k" and "to_text err = ''Error: errors.'' @ k"
    and "js_trim (''Error: errors.'' @ k) = ''Error: errors.'' @ k"
  shows "extract_error_detail to_text json err = ''Error: errors.'' @ k"
proof -
  have "usable_detail (JStr (''errors.'' @ k)) = None" "usable_detail (JStr (''Error: errors.'' @ k)) = Some (''Error: errors.'' @ k)"
    using assms(6,8) by (simp_all add: usable_detail_def Let_def js_or_def js_starts_def)
  then show ?thesis using assms(1-5,7) by (simp add: extract_error_detail_def detail_candidates_def)
qed

text \<open>
  The answer of an earlier search replaces the results under the company that was chosen from a later one.
\<close>

theorem late_search_replaces_results:
  fixes q r1 r2 c v c' accounts t to_text json e
  assumes "read_companies (jget ''companies'' r2) = Some [c]" and "read_companies (jget ''companies'' r1) = Some [c']"
    and "js_strict_eq (bc_name c) (bc_name c)" and "js_trim q1 \<noteq> []" "js_trim q2 \<noteq> []"
  defines "s \<equiv> run (bind_step t to_text json e) (bind_init accounts)
    [BvQuery q1, BvSearchEnter, BvQuery q2, BvSearchEnter, BvSearchAnswer 1 (Inr r2), BvCompany (bc_name c),
     BvSearchAnswer 0 (Inr r1)]"
  shows "bd_company s = Some c \<and> bd_results s = [c'] \<and> bd_tasks s = []"
  using assms(1-5)
  by (simp add: s_def bind_step_def bind_step_out_def bind_event_out_def bind_offers_def
      bind_init_def handle_search_def start_bind_task_def search_answered_def end_bind_task_def
      handle_company_change_def)

subsection \<open>Examples\<close>

definition demo_broker :: "string \<Rightarrow> jv" where
  "demo_broker n = JObj [(''companyName'', JStr n), (''servers'', JArr
     [JObj [(''name'', JStr (n @ ''-Live'')), (''access'', JArr [JStr ''h1'', JStr ''h2''])]])]"

definition demo_brokers :: "string \<Rightarrow> jv" where
  "demo_brokers n = JObj [(''companies'', JArr [demo_broker n])]"

definition demo_company :: "string \<Rightarrow> broker_company" where
  "demo_company n = \<lparr>bc_name = JStr n, bc_servers =
     [\<lparr>bs_name = JStr (n @ ''-Live''), bs_access = JArr [JStr ''h1'', JStr ''h2'']\<rparr>]\<rparr>"

lemma demo_brokers_read [simp]: "n \<noteq> [] \<Longrightarrow> read_companies (jget ''companies'' (demo_brokers n)) = Some [demo_company n]"
  by (simp add: demo_brokers_def demo_broker_def demo_company_def read_companies_def read_company_def read_server_def
      js_or_def jget_def)

definition demo_events :: "bind_event list" where
  "demo_events =
     [BvQuery ''acme '', BvSearchClick, BvSearchAnswer 0 (Inr (demo_brokers ''Acme'')), BvCompany (JStr ''Acme''),
      BvServer (JStr ''Acme-Live''), BvNext, BvLogin '' 12 '', BvPassword ''pw'', BvNext]"

definition demo_bind :: bind_state where
  "demo_bind = run (bind_step id js_string (\<lambda>_. None) JNull) (bind_init account_init) demo_events"

definition demo_create :: jv where
  "demo_create = JObj
     [(''login'', JStr ''12''), (''password'', JStr ''pw''), (''mtType'', JStr ''MT4''), (''brokerCompany'', JStr ''Acme''),
      (''brokerServer'', JStr ''Acme-Live''), (''brokerHost'', JStr ''h1'')]"

lemma demo_bind_facts:
  "bd_step demo_bind = 3 \<and> \<not> bd_left demo_bind \<and> \<not> bd_loading demo_bind \<and> bd_error demo_bind = None \<and>
   bind_shown id js_string (\<lambda>_. None) JNull demo_bind BvConfirm = [BfCreate demo_create]"
  by code_simp

lemma demo_answered: "answered_companies demo_events = {demo_company ''Acme''}"
  by (auto simp: answered_companies_def demo_events_def)

theorem bound_server_was_found_witness:
  "request_complete (answered_companies demo_events) demo_create"
proof -
  have "BfCreate demo_create \<in> set (bind_shown id js_string (\<lambda>_. None) JNull
      (run (bind_step id js_string (\<lambda>_. None) JNull) (bind_init account_init) demo_events) BvConfirm)"
    using demo_bind_facts by (simp add: demo_bind_def)
  from bound_server_was_found [OF this] show ?thesis by simp
qed

theorem confirm_always_sends_witness:
  "bd_loading (bind_step id js_string (\<lambda>_. None) JNull demo_bind BvConfirm)"
proof -
  have host: "first_access (bs_access v) \<noteq> None"
    if "c \<in> answered_companies demo_events" "v \<in> set (bc_servers c)" for c v
    using that by (auto simp: demo_answered demo_company_def)
  show ?thesis
    using confirm_always_sends [of id js_string "\<lambda>_. None" JNull account_init demo_events, OF _ _ _ _ host]
      demo_bind_facts by (simp add: demo_bind_def)
qed

theorem platform_of_other_search_witness:
  "bind_shown id js_string (\<lambda>_. None) JNull (run (bind_step id js_string (\<lambda>_. None) JNull) (bind_init account_init)
     [BvQuery ''acme'', BvSearchClick, BvSearchAnswer 0 (Inr (demo_brokers ''Acme'')), BvCompany (JStr ''Acme''),
      BvServer (JStr ''Acme-Live''), BvPlatform ''MT5'', BvNext, BvLogin ''12'', BvPassword ''pw'', BvNext]) BvConfirm =
   [BfCreate (JObj
     [(''login'', JStr ''12''), (''password'', JStr ''pw''), (''mtType'', JStr ''MT5''), (''brokerCompany'', JStr ''Acme''),
      (''brokerServer'', JStr ''Acme-Live''), (''brokerHost'', JStr ''h1'')])]"
proof -
  have "js_trim ''acme'' = ''acme''" "js_trim ''12'' = ''12''" "js_trim ''pw'' = ''pw''" by code_simp+
  with platform_of_other_search [OF demo_brokers_read [of "''Acme''"], of "hd (bc_servers (demo_company ''Acme''))"
      "''acme''" "''12''" "''pw''" "JStr ''h1''" id js_string "\<lambda>_. None" JNull account_init]
  show ?thesis by (simp add: demo_company_def js_or_def)
qed

theorem bind_outcomes_witness:
  "bd_left (fst (bind_answered id js_string (\<lambda>_. None) (Inr (sample_account ''a'' ''connected'')) demo_bind))"
proof -
  obtain s' out where "bind_answered id js_string (\<lambda>_. None) (Inr (sample_account ''a'' ''connected'')) demo_bind = (s', out)"
    by fastforce
  with bind_outcomes [OF this] show ?thesis by simp
qed

theorem message_key_shown_as_detail_witness:
  "extract_error_detail (\<lambda>_. ''Error: errors.busy'') (\<lambda>_. None) (JObj [(''details'', JArr []), (''message'', JStr ''errors.busy'')])
     = ''Error: errors.busy''"
proof -
  have "js_trim (''errors.'' @ ''busy'') = ''errors.'' @ ''busy''" "js_trim (''Error: errors.'' @ ''busy'') = ''Error: errors.'' @ ''busy''"
    by code_simp+
  with message_key_shown_as_detail [of "JObj [(''details'', JArr []), (''message'', JStr ''errors.busy'')]" "''busy''"
      "\<lambda>_. ''Error: errors.busy''" "\<lambda>_. None"]
  show ?thesis by (simp add: usable_detail_def js_or_def jget_def)
qed

theorem late_search_replaces_results_witness:
  "let s = run (bind_step id js_string (\<lambda>_. None) JNull) (bind_init account_init)
     [BvQuery ''a'', BvSearchEnter, BvQuery ''b'', BvSearchEnter, BvSearchAnswer 1 (Inr (demo_brokers ''B'')),
      BvCompany (JStr ''B''), BvSearchAnswer 0 (Inr (demo_brokers ''A''))]
   in bd_company s = Some (demo_company ''B'') \<and> bd_results s = [demo_company ''A'']"
proof -
  have "js_trim ''a'' = ''a''" "js_trim ''b'' = ''b''" "bc_name (demo_company ''B'') = JStr ''B''" by code_simp+
  with late_search_replaces_results [OF demo_brokers_read [of "''B''"] demo_brokers_read [of "''A''"], of "''a''" "''b''"
      id js_string "\<lambda>_. None" JNull account_init]
  show ?thesis by (simp add: Let_def)
qed

end
