(* ===== verification/ScheduleLogs.thy ===== *)
theory ScheduleLogs
  imports Effects TaskTable
begin

text \<open>
  The log page of a schedule (\<open>pages/strategy/StrategyScheduleLogsPage.tsx\<close>) with the requests of its client
  (\<open>client/log.ts\<close>): two paged tables that are read on every change of a page and with the refresh button.
  The formatting of times is left out.
\<close>

subsection \<open>The client\<close>

text \<open>A page and its size are numbers, schedules are named by texts.\<close>

datatype log_request =
    RqSchedule string
  | RqExec string nat nat
  | RqOrders string nat nat

definition page_fields :: "nat \<Rightarrow> nat \<Rightarrow> (string \<times> jv) list" where
  "page_fields p n =
     [(''page'', js_or (JNum (Fin (of_nat p))) (JNum (Fin 1))), (''pageSize'', js_or (JNum (Fin (of_nat n))) (JNum (Fin 20)))]"

definition run_logs_request :: "string \<Rightarrow> nat \<Rightarrow> nat \<Rightarrow> jv" where
  "run_logs_request sid p n = JObj (page_fields p n @ [(''scheduleId'', JStr sid)])"

text \<open>The filters that the page does not set are sent empty.\<close>

definition order_page_request :: "string \<Rightarrow> nat \<Rightarrow> nat \<Rightarrow> jv" where
  "order_page_request sid p n = JObj (page_fields p n @
     [(''accountId'', JStr []), (''symbol'', JStr []), (''startDate'', JStr []), (''endDate'', JStr []),
      (''scheduleId'', JStr sid)])"

fun log_wire :: "log_request \<Rightarrow> jv" where
  "log_wire (RqSchedule sid) = JObj [(''id'', JStr sid)]"
| "log_wire (RqExec sid p n) = run_logs_request sid p n"
| "log_wire (RqOrders sid p n) = order_page_request sid p n"

subsection \<open>The page\<close>

datatype log_tab = TabExec | TabOrders

text \<open>
  A request in flight belongs to a refresh or to none.  A refresh waits for three answers; one that failed is
  no longer waited for.
\<close>

record logs_state =
  lp_id :: string
  lp_loading :: bool
  lp_schedule :: jv
  lp_tab :: log_tab
  lp_exec_page :: nat
  lp_exec_size :: nat
  lp_exec_total :: jv
  lp_exec_logs :: jv
  lp_order_page :: nat
  lp_order_size :: nat
  lp_order_total :: jv
  lp_orders :: jv
  lp_tasks :: "(nat \<times> log_request \<times> nat option) list"
  lp_next :: nat
  lp_waits :: "(nat \<times> nat) list"
  lp_next_wait :: nat

definition logs_fresh :: "string \<Rightarrow> logs_state" where
  "logs_fresh sid =
     \<lparr>lp_id = sid, lp_loading = False, lp_schedule = JNull, lp_tab = TabExec,
      lp_exec_page = 1, lp_exec_size = 20, lp_exec_total = JNum (Fin 0), lp_exec_logs = JArr [],
      lp_order_page = 1, lp_order_size = 20, lp_order_total = JNum (Fin 0), lp_orders = JArr [],
      lp_tasks = [], lp_next = 0, lp_waits = [], lp_next_wait = 0\<rparr>"

datatype log_effect = LeAsk log_request | LeToast toast

definition ask_logs :: "log_request \<Rightarrow> nat option \<Rightarrow> logs_state \<Rightarrow> logs_state" where
  "ask_logs q w s = s\<lparr>lp_tasks := lp_tasks s @ [(lp_next s, q, w)], lp_next := Suc (lp_next s)\<rparr>"

definition schedule_query :: "logs_state \<Rightarrow> log_request" where
  "schedule_query s = RqSchedule (lp_id s)"

definition exec_query :: "logs_state \<Rightarrow> log_request" where
  "exec_query s = RqExec (lp_id s) (lp_exec_page s) (lp_exec_size s)"

definition orders_query :: "logs_state \<Rightarrow> log_request" where
  "orders_query s = RqOrders (lp_id s) (lp_order_page s) (lp_order_size s)"

text \<open>\<open>refreshSchedule\<close>, \<open>refreshExec\<close> and \<open>refreshOrders\<close> do nothing without a schedule.\<close>

definition refresh_one :: "log_request \<Rightarrow> nat option \<Rightarrow> logs_state \<Rightarrow> logs_state \<times> log_effect list" where
  "refresh_one q w s = (if lp_id s = [] then (s, []) else (ask_logs q w s, [LeAsk q]))"

definition logs_refresh :: "(string \<Rightarrow> string) \<Rightarrow> logs_state \<Rightarrow> logs_state \<times> log_effect list" where
  "logs_refresh t s =
     (if lp_id s = [] then (s, [LeToast (ToastError (t ''strategy.scheduleLogs.messages.missingScheduleId''))])
      else (let w = lp_next_wait s;
                s = s\<lparr>lp_loading := True, lp_waits := lp_waits s @ [(w, 3)], lp_next_wait := Suc w\<rparr>;
                (s, e1) = refresh_one (schedule_query s) (Some w) s;
                (s, e2) = refresh_one (exec_query s) (Some w) s;
                (s, e3) = refresh_one (orders_query s) (Some w) s
            in (s, e1 @ e2 @ e3)))"

text \<open>
  The effects of a render: a refresh when the schedule or a page changed, and the table of the current tab
  once more when its page or the tab changed.  The first render runs them all.
\<close>

definition differs :: "('s \<Rightarrow> 'a) \<Rightarrow> 's option \<Rightarrow> 's \<Rightarrow> bool" where
  "differs f old new = (case old of None \<Rightarrow> True | Some s \<Rightarrow> f s \<noteq> f new)"

definition logs_effects ::
    "(string \<Rightarrow> string) \<Rightarrow> logs_state option \<Rightarrow> logs_state \<Rightarrow> logs_state \<times> log_effect list" where
  "logs_effects t old new =
     (let (s, e1) = (if differs exec_query old new \<or> differs orders_query old new then logs_refresh t new else (new, []));
          (s, e2) = (if (differs lp_tab old new \<or> differs exec_query old new) \<and> lp_tab new = TabExec
                     then refresh_one (exec_query new) None s else (s, []));
          (s, e3) = (if (differs lp_tab old new \<or> differs orders_query old new) \<and> lp_tab new = TabOrders
                     then refresh_one (orders_query new) None s else (s, []))
      in (s, e1 @ e2 @ e3))"

definition logs_mounted :: "(string \<Rightarrow> string) \<Rightarrow> string \<Rightarrow> logs_state \<times> log_effect list" where
  "logs_mounted t sid = logs_effects t None (logs_fresh sid)"

fun take_logs :: "log_request \<Rightarrow> jv \<Rightarrow> logs_state \<Rightarrow> logs_state" where
  "take_logs (RqSchedule _) response s = s\<lparr>lp_schedule := response\<rparr>"
| "take_logs (RqExec _ _ _) response s =
     s\<lparr>lp_exec_logs := js_or (jget ''logs'' response) (JArr []), lp_exec_total := js_or (jget ''total'' response) (JNum (Fin 0))\<rparr>"
| "take_logs (RqOrders _ _ _) response s =
     s\<lparr>lp_orders := js_or (jget ''orders'' response) (JArr []), lp_order_total := js_or (jget ''total'' response) (JNum (Fin 0))\<rparr>"

text \<open>The refresh of an answered request: done with its last answer, or failed with its first failure.\<close>

definition wait_answered ::
    "(string \<Rightarrow> string) \<Rightarrow> nat option \<Rightarrow> jv outcome \<Rightarrow> logs_state \<Rightarrow> logs_state \<times> log_effect list" where
  "wait_answered t w answer s =
     (case w of None \<Rightarrow> (s, [])
      | Some w \<Rightarrow>
          (case map_of (lp_waits s) w of None \<Rightarrow> (s, [])
           | Some n \<Rightarrow>
               (case answer of
                  Inl e \<Rightarrow> (s\<lparr>lp_waits := AList.delete w (lp_waits s), lp_loading := False\<rparr>,
                    [LeToast (ToastError (js_string (js_or (jget ''message'' e) (JStr (t ''common.loadingFailed'')))))])
                | Inr _ \<Rightarrow>
                    if n \<le> 1 then (s\<lparr>lp_waits := AList.delete w (lp_waits s), lp_loading := False\<rparr>, [])
                    else (s\<lparr>lp_waits := AList.update w (n - 1) (lp_waits s)\<rparr>, []))))"

definition logs_answered ::
    "(string \<Rightarrow> string) \<Rightarrow> nat \<Rightarrow> jv outcome \<Rightarrow> logs_state \<Rightarrow> logs_state \<times> log_effect list" where
  "logs_answered t i answer s =
     (case map_of (lp_tasks s) i of
        None \<Rightarrow> (s, [])
      | Some (q, w) \<Rightarrow>
          (let s = s\<lparr>lp_tasks := AList.delete i (lp_tasks s)\<rparr>
           in wait_answered t w answer (case answer of Inl _ \<Rightarrow> s | Inr response \<Rightarrow> take_logs q response s)))"

datatype log_event =
    LgRoute string
  | LgTab log_tab
  | LgExecPage nat nat
  | LgOrderPage nat nat
  | LgRefresh
  | LgAnswer nat "jv outcome"

definition log_step_out ::
    "(string \<Rightarrow> string) \<Rightarrow> logs_state \<Rightarrow> log_event \<Rightarrow> logs_state \<times> log_effect list" where
  "log_step_out t s a =
     (case a of
        LgRoute sid \<Rightarrow> logs_effects t (Some s) (s\<lparr>lp_id := sid\<rparr>)
      | LgTab tab \<Rightarrow> logs_effects t (Some s) (s\<lparr>lp_tab := tab\<rparr>)
      | LgExecPage p n \<Rightarrow> logs_effects t (Some s) (s\<lparr>lp_exec_page := p, lp_exec_size := n\<rparr>)
      | LgOrderPage p n \<Rightarrow> logs_effects t (Some s) (s\<lparr>lp_order_page := p, lp_order_size := n\<rparr>)
      | LgRefresh \<Rightarrow> if lp_loading s then (s, []) else logs_refresh t s
      | LgAnswer i answer \<Rightarrow> logs_answered t i answer s)"

definition log_step :: "(string \<Rightarrow> string) \<Rightarrow> logs_state \<Rightarrow> log_event \<Rightarrow> logs_state" where
  "log_step t s a = fst (log_step_out t s a)"

definition log_shown :: "(string \<Rightarrow> string) \<Rightarrow> logs_state \<Rightarrow> log_event \<Rightarrow> log_effect list" where
  "log_shown t s a = snd (log_step_out t s a)"

subsection \<open>What the rows show\<close>

type_synonym tag = "string option \<times> string"

definition plain_text :: "jv \<Rightarrow> string \<Rightarrow> string" where
  "plain_text v d = js_string (js_or v (JStr d))"

definition status_color :: "string \<Rightarrow> string option" where
  "status_color s =
     (if s = ''completed'' \<or> s = ''success'' then Some ''green'' else if s = ''failed'' then Some ''red''
      else if s = ''running'' then Some ''blue'' else None)"

definition exec_status :: "(string \<Rightarrow> string) \<Rightarrow> jv \<Rightarrow> tag" where
  "exec_status t v =
     (let s = js_lower (js_trim (plain_text v []))
      in (status_color s,
          if s = ''pending'' then t ''strategy.scheduleLogs.execStatus.pending''
          else if s = ''running'' then t ''strategy.scheduleLogs.execStatus.running''
          else if s = ''completed'' \<or> s = ''success'' then t ''strategy.scheduleLogs.execStatus.completed''
          else if s = ''failed'' then t ''strategy.scheduleLogs.execStatus.failed''
          else if s = ''skipped'' then t ''strategy.scheduleLogs.execStatus.skipped''
          else plain_text v ''-''))"

definition operation_status :: "(string \<Rightarrow> string) \<Rightarrow> jv \<Rightarrow> tag" where
  "operation_status t v =
     (let s = js_lower (js_trim (plain_text v []))
      in (status_color s,
          if s = ''success'' \<or> s = ''completed'' then t ''strategy.scheduleLogs.operationStatus.success''
          else if s = ''failed'' then t ''strategy.scheduleLogs.operationStatus.failed''
          else if s = ''running'' then t ''strategy.scheduleLogs.operationStatus.running''
          else plain_text v ''-''))"

definition operation_action :: "(string \<Rightarrow> string) \<Rightarrow> jv \<Rightarrow> string" where
  "operation_action t v =
     (let s = js_lower (js_trim (plain_text v []))
      in if s = ''enable'' then t ''common.enable'' else if s = ''disable'' then t ''common.disable'' else plain_text v ''-'')"

definition duration_text :: "jv \<Rightarrow> string" where
  "duration_text v =
     (case v of
        JNum n \<Rightarrow> num_str n
      | JBig i \<Rightarrow> num_str (Fin (of_int i))
      | JStr s \<Rightarrow> (let n = js_number v in if num_finite n then num_str n else ''-'')
      | _ \<Rightarrow> ''-'')"

definition is_operation :: "jv \<Rightarrow> bool" where
  "is_operation row \<longleftrightarrow> js_lower (plain_text (jget ''kind'' row) []) = ''operation''"

definition row_action :: "(string \<Rightarrow> string) \<Rightarrow> jv \<Rightarrow> string" where
  "row_action t row =
     (if is_operation row then operation_action t (jget ''action'' row)
      else (let v = js_or (jget ''signalType'' row) (jget ''action'' row)
            in if js_lower (plain_text v []) = ''close'' then t ''strategy.scheduleLogs.orderSide.close''
               else plain_text v (t ''strategy.scheduleLogs.execTable.execute'')))"

definition row_status :: "(string \<Rightarrow> string) \<Rightarrow> jv \<Rightarrow> tag" where
  "row_status t row =
     (if is_operation row then operation_status t (jget ''status'' row) else exec_status t (jget ''status'' row))"

definition order_kinds :: "(string \<times> string \<times> string) list" where
  "order_kinds =
     [(''buy_stop_limit'', ''cyan'', ''buyStopLimit''), (''sell_stop_limit'', ''cyan'', ''sellStopLimit''),
      (''buy_limit'', ''blue'', ''buyLimit''), (''sell_limit'', ''blue'', ''sellLimit''),
      (''buy_stop'', ''purple'', ''buyStop''), (''sell_stop'', ''purple'', ''sellStop''),
      (''buy'', ''green'', ''buy''), (''sell'', ''red'', ''sell'')]"

definition order_type_tag :: "(string \<Rightarrow> string) \<Rightarrow> string \<Rightarrow> tag" where
  "order_type_tag t v =
     (let s = js_lower v; label = (\<lambda>k. t (''strategy.scheduleLogs.orderSide.'' @ k))
      in if s = ''close'' then (Some ''gold'', label ''close'')
         else case List.find (\<lambda>(k, _). js_includes s k) order_kinds of
             Some (_, c, k) \<Rightarrow> (Some c, label k)
           | None \<Rightarrow> (None, if v = [] then ''-'' else v))"

definition log_title :: "(string \<Rightarrow> (string \<times> string) list \<Rightarrow> string) \<Rightarrow> jv \<Rightarrow> string" where
  "log_title t schedule =
     (let name = js_trim (plain_text (jget ''name'' schedule) [])
      in if name = [] then t ''strategy.scheduleLogs.title'' [] else t ''strategy.scheduleLogs.titleWithName'' [(''name'', name)])"


subsection \<open>The busy mark\<close>

definition wait_count :: "nat \<Rightarrow> (nat \<times> log_request \<times> nat option) list \<Rightarrow> nat" where
  "wait_count w tasks = length (filter (\<lambda>p. snd (snd p) = Some w) tasks)"

definition logs_inv :: "logs_state \<Rightarrow> bool" where
  "logs_inv s \<longleftrightarrow>
     fresh_table (lp_next s) (lp_tasks s) \<and> fresh_table (lp_next_wait s) (lp_waits s) \<and>
     (\<forall>p \<in> set (lp_tasks s). \<forall>w. snd (snd p) = Some w \<longrightarrow> w < lp_next_wait s) \<and>
     (\<forall>p \<in> set (lp_waits s). 0 < snd p \<and> wait_count (fst p) (lp_tasks s) = snd p) \<and>
     (lp_loading s \<longrightarrow> lp_waits s \<noteq> [])"

lemma wait_count_simps [simp]:
  "wait_count w [] = 0"
  "wait_count w (al @ [(n, q, k)]) = wait_count w al + (if k = Some w then 1 else 0)"
  by (simp_all add: wait_count_def)

lemma wait_count_zero: "\<forall>p \<in> set al. \<forall>w. snd (snd p) = Some w \<longrightarrow> w < n \<Longrightarrow> wait_count n al = 0"
  by (force simp: wait_count_def filter_empty_conv)

lemma wait_count_delete:
  "distinct (List.map fst al) \<Longrightarrow> map_of al i = Some (q, k) \<Longrightarrow>
   wait_count w al = wait_count w (AList.delete i al) + (if k = Some w then 1 else 0)"
proof (induction al)
  case (Cons p al)
  show ?case
  proof (cases "fst p = i")
    case True
    then have "AList.delete i al = al" using Cons.prems(1) by (simp add: delete_idem)
    then show ?thesis using True Cons.prems by (cases p) (auto simp: wait_count_def)
  qed (use Cons in \<open>cases p; auto simp: wait_count_def\<close>)
qed simp

lemma logs_inv_ask:
  "logs_inv s \<Longrightarrow> logs_inv (fst (refresh_one q None s))"
  by (auto simp: refresh_one_def ask_logs_def logs_inv_def)

lemma fresh_table_append3:
  "fresh_table n al \<Longrightarrow> fresh_table (Suc (Suc (Suc n))) (al @ [(n, x), (Suc n, y), (Suc (Suc n), z)])"
  using fresh_table_append [of "Suc (Suc n)" "al @ [(n, x), (Suc n, y)]" z]
    fresh_table_append [of "Suc n" "al @ [(n, x)]" y] by simp

lemma logs_refresh_state:
  "lp_id s \<noteq> [] \<Longrightarrow> fst (logs_refresh t s) =
     s\<lparr>lp_loading := True, lp_waits := lp_waits s @ [(lp_next_wait s, 3)], lp_next_wait := Suc (lp_next_wait s),
       lp_tasks := lp_tasks s @ [(lp_next s, schedule_query s, Some (lp_next_wait s)),
         (Suc (lp_next s), exec_query s, Some (lp_next_wait s)), (Suc (Suc (lp_next s)), orders_query s, Some (lp_next_wait s))],
       lp_next := Suc (Suc (Suc (lp_next s)))\<rparr>"
  by (simp add: logs_refresh_def refresh_one_def ask_logs_def Let_def schedule_query_def exec_query_def orders_query_def)

lemma logs_inv_refresh: "logs_inv s \<Longrightarrow> logs_inv (fst (logs_refresh t s))"
proof (cases "lp_id s = []")
  case False
  assume inv: "logs_inv s"
  have count: "wait_count w (lp_tasks s @ [(a, q, Some v), (b, r, Some v), (c, u, Some v)]) =
      wait_count w (lp_tasks s) + (if w = v then 3 else 0)" for w a b c q r u v
    by (simp add: wait_count_def)
  have "wait_count (lp_next_wait s) (lp_tasks s) = 0" using inv by (intro wait_count_zero) (simp add: logs_inv_def)
  moreover have "fst p \<noteq> lp_next_wait s" if "p \<in> set (lp_waits s)" for p
    using that inv by (auto simp: logs_inv_def fresh_table_def)
  ultimately show ?thesis
    using inv unfolding logs_refresh_state [OF False] logs_inv_def
    by (simp add: count fresh_table_append3 ball_Un less_Suc_eq)
qed (simp add: logs_refresh_def)

lemma logs_inv_cong:
  "logs_inv s \<Longrightarrow> lp_tasks s' = lp_tasks s \<Longrightarrow> lp_next s' = lp_next s \<Longrightarrow> lp_waits s' = lp_waits s \<Longrightarrow>
   lp_next_wait s' = lp_next_wait s \<Longrightarrow> lp_loading s' = lp_loading s \<Longrightarrow> logs_inv s'"
  by (simp add: logs_inv_def)

lemma logs_effects_state:
  "fst (logs_effects t old new) =
    (let s = (if differs exec_query old new \<or> differs orders_query old new then fst (logs_refresh t new) else new);
         s = (if (differs lp_tab old new \<or> differs exec_query old new) \<and> lp_tab new = TabExec
              then fst (refresh_one (exec_query new) None s) else s)
     in if (differs lp_tab old new \<or> differs orders_query old new) \<and> lp_tab new = TabOrders
        then fst (refresh_one (orders_query new) None s) else s)"
  by (simp add: logs_effects_def Let_def split_beta)

lemma logs_inv_effects: "logs_inv new \<Longrightarrow> logs_inv (fst (logs_effects t old new))"
  unfolding logs_effects_state Let_def by (simp add: logs_inv_ask logs_inv_refresh)

lemma take_logs_fields [simp]:
  "lp_tasks (take_logs q r s) = lp_tasks s" "lp_next (take_logs q r s) = lp_next s" "lp_waits (take_logs q r s) = lp_waits s"
  "lp_next_wait (take_logs q r s) = lp_next_wait s" "lp_loading (take_logs q r s) = lp_loading s"
  "lp_id (take_logs q r s) = lp_id s" "lp_tab (take_logs q r s) = lp_tab s"
  "exec_query (take_logs q r s) = exec_query s" "orders_query (take_logs q r s) = orders_query s"
  by (cases q; simp add: exec_query_def orders_query_def)+


text \<open>One answer less is waited for by its own refresh, and by no other.\<close>

lemma logs_inv_wait:
  assumes "logs_inv s" and "map_of (lp_tasks s) i = Some (q, w)" and "lp_tasks s' = AList.delete i (lp_tasks s)"
    and same: "lp_next s' = lp_next s" "lp_waits s' = lp_waits s" "lp_next_wait s' = lp_next_wait s" "lp_loading s' = lp_loading s"
  shows "logs_inv (fst (wait_answered t w answer s'))"
proof -
  have inv: "fresh_table (lp_next s) (lp_tasks s)" "fresh_table (lp_next_wait s) (lp_waits s)"
      "\<forall>p \<in> set (lp_tasks s). \<forall>w. snd (snd p) = Some w \<longrightarrow> w < lp_next_wait s"
      "\<forall>p \<in> set (lp_waits s). 0 < snd p \<and> wait_count (fst p) (lp_tasks s) = snd p" "lp_loading s \<longrightarrow> lp_waits s \<noteq> []"
    using assms(1) by (simp_all add: logs_inv_def)
  have count: "wait_count v (lp_tasks s) = wait_count v (lp_tasks s') + (if w = Some v then 1 else 0)" for v
    unfolding assms(3) using inv(1) assms(2) by (intro wait_count_delete) (auto simp: fresh_table_def)
  have "fresh_table (lp_next s) (lp_tasks s')" using inv(1) by (simp add: assms(3))
  moreover have "\<forall>p \<in> set (lp_tasks s'). \<forall>w. snd (snd p) = Some w \<longrightarrow> w < lp_next_wait s"
    unfolding assms(3) set_delete using inv(3) by blast
  ultimately have tasks: "fresh_table (lp_next s) (lp_tasks s')"
    "\<forall>p \<in> set (lp_tasks s'). \<forall>w. snd (snd p) = Some w \<longrightarrow> w < lp_next_wait s" by simp_all
  have dist: "distinct (List.map fst (lp_waits s))" using inv(2) by (simp add: fresh_table_def)
  have others: "\<forall>p \<in> set (lp_waits s). w \<noteq> Some (fst p) \<longrightarrow> 0 < snd p \<and> wait_count (fst p) (lp_tasks s') = snd p"
    using inv(4) count by auto
  show ?thesis
  proof (cases w)
    case None
    then show ?thesis using tasks inv(2,5) others by (simp add: wait_answered_def logs_inv_def same)
  next
    case (Some v)
    show ?thesis
    proof (cases "map_of (lp_waits s) v")
      case None
      then have "v \<notin> fst ` set (lp_waits s)" by (simp add: map_of_eq_None_iff)
      then have "\<forall>p \<in> set (lp_waits s). w \<noteq> Some (fst p)" using Some by auto
      then show ?thesis using tasks inv(2,5) others None Some by (simp add: wait_answered_def logs_inv_def same)
    next
      case (Some n)
      then have n: "(v, n) \<in> set (lp_waits s)" by (rule map_of_SomeD)
      then have "wait_count v (lp_tasks s') = n - 1" "v < lp_next_wait s"
        using inv(2,4) count [of v] \<open>w = Some v\<close> by (auto simp: fresh_table_def)
      then show ?thesis
        using tasks inv(2) others dist Some \<open>w = Some v\<close>
        by (auto simp: wait_answered_def logs_inv_def same set_delete set_update split: sum.split)
    qed
  qed
qed

lemma logs_inv_answered: "logs_inv s \<Longrightarrow> logs_inv (fst (logs_answered t i answer s))"
proof (cases "map_of (lp_tasks s) i")
  case (Some p)
  assume inv: "logs_inv s"
  obtain q w where at: "map_of (lp_tasks s) i = Some (q, w)" using Some by (cases p) auto
  then show ?thesis
    using logs_inv_wait [OF inv at] by (cases answer) (simp_all add: logs_answered_def Let_def)
qed (simp add: logs_answered_def)

lemma logs_inv_step: "logs_inv s \<Longrightarrow> logs_inv (log_step t s a)"
  by (cases a) (auto simp: log_step_def log_step_out_def intro!: logs_inv_effects logs_inv_refresh logs_inv_answered
      elim: logs_inv_cong)

lemma logs_inv_mounted: "logs_inv (fst (logs_mounted t sid))"
  unfolding logs_mounted_def by (rule logs_inv_effects) (simp add: logs_inv_def logs_fresh_def)


interpretation log_page: machine "fst (logs_mounted t sid)" "log_step t" logs_inv
  by unfold_locales (rule logs_inv_mounted, rule logs_inv_step)

text \<open>When every request has been answered, in whatever order and with whatever failures, the page is not busy.\<close>

theorem log_page_settles:
  "let s = run (log_step t) (fst (logs_mounted t sid)) acts
   in lp_tasks s = [] \<longrightarrow> \<not> lp_loading s \<and> lp_waits s = []"
proof -
  have "logs_inv (run (log_step t) (fst (logs_mounted t sid)) acts)" by (rule log_page.inv_run)
  then show ?thesis by (cases "lp_waits (run (log_step t) (fst (logs_mounted t sid)) acts)") (auto simp: logs_inv_def Let_def)
qed

subsection \<open>Answers in the order of the requests\<close>

text \<open>A service whose answers do not change and arrive in the order in which they were asked for.\<close>

datatype fifo_event = FfUser log_event | FfDeliver

definition fifo_step :: "(string \<Rightarrow> string) \<Rightarrow> (log_request \<Rightarrow> jv) \<Rightarrow> logs_state \<Rightarrow> fifo_event \<Rightarrow> logs_state" where
  "fifo_step t srv s a =
     (case a of
        FfUser (LgAnswer _ _) \<Rightarrow> s
      | FfUser a \<Rightarrow> log_step t s a
      | FfDeliver \<Rightarrow> (case lp_tasks s of [] \<Rightarrow> s | (i, q, _) # _ \<Rightarrow> log_step t s (LgAnswer i (Inr (srv q)))))"

datatype log_kind = KSchedule | KExec | KOrders

fun kind_of :: "log_request \<Rightarrow> log_kind" where
  "kind_of (RqSchedule _) = KSchedule"
| "kind_of (RqExec _ _ _) = KExec"
| "kind_of (RqOrders _ _ _) = KOrders"

fun current_query :: "log_kind \<Rightarrow> logs_state \<Rightarrow> log_request" where
  "current_query KSchedule s = schedule_query s"
| "current_query KExec s = exec_query s"
| "current_query KOrders s = orders_query s"

text \<open>The page shows the answer to a request of each kind.\<close>

fun shows_answer :: "log_kind \<Rightarrow> jv \<Rightarrow> logs_state \<Rightarrow> bool" where
  "shows_answer KSchedule r s = (lp_schedule s = r)"
| "shows_answer KExec r s = (lp_exec_logs s = js_or (jget ''logs'' r) (JArr []) \<and>
     lp_exec_total s = js_or (jget ''total'' r) (JNum (Fin 0)))"
| "shows_answer KOrders r s = (lp_orders s = js_or (jget ''orders'' r) (JArr []) \<and>
     lp_order_total s = js_or (jget ''total'' r) (JNum (Fin 0)))"

definition pending_of :: "log_kind \<Rightarrow> logs_state \<Rightarrow> log_request list" where
  "pending_of k s = filter (\<lambda>q. kind_of q = k) (List.map (fst \<circ> snd) (lp_tasks s))"

definition up_to_date :: "(log_request \<Rightarrow> jv) \<Rightarrow> log_kind \<Rightarrow> logs_state \<Rightarrow> bool" where
  "up_to_date srv k s \<longleftrightarrow>
     (if pending_of k s = [] then shows_answer k (srv (current_query k s)) s else last (pending_of k s) = current_query k s)"

definition fifo_inv :: "(log_request \<Rightarrow> jv) \<Rightarrow> logs_state \<Rightarrow> bool" where
  "fifo_inv srv s \<longleftrightarrow> fresh_table (lp_next s) (lp_tasks s) \<and> (lp_id s \<noteq> [] \<longrightarrow> (\<forall>k. up_to_date srv k s))"

lemma kind_of_query [simp]:
  "kind_of (schedule_query s) = KSchedule" "kind_of (exec_query s) = KExec" "kind_of (orders_query s) = KOrders"
  by (simp_all add: schedule_query_def exec_query_def orders_query_def)

lemma fifo_inv_ask:
  assumes "fifo_inv srv s" and "q = current_query k s"
  shows "fifo_inv srv (fst (refresh_one q w s))"
proof -
  have q: "kind_of q = k" using assms(2) by (cases k) simp_all
  have "current_query j (ask_logs q w s) = current_query j s" "shows_answer j r (ask_logs q w s) = shows_answer j r s" for j r
    by (cases j; simp add: ask_logs_def schedule_query_def exec_query_def orders_query_def)+
  moreover have "pending_of j (ask_logs q w s) = pending_of j s @ (if j = k then [q] else [])" for j
    by (simp add: pending_of_def ask_logs_def q)
  ultimately show ?thesis
    using assms by (simp add: fifo_inv_def refresh_one_def up_to_date_def ask_logs_def split: if_splits)
qed

lemma fifo_inv_refresh:
  assumes "fresh_table (lp_next s) (lp_tasks s)"
  shows "fifo_inv srv (fst (logs_refresh t s))"
proof (cases "lp_id s = []")
  case False
  have "up_to_date srv k (fst (logs_refresh t s))" for k
    unfolding logs_refresh_state [OF False]
    by (cases k) (simp_all add: up_to_date_def pending_of_def schedule_query_def exec_query_def orders_query_def)
  then show ?thesis using assms unfolding fifo_inv_def logs_refresh_state [OF False] by (simp add: fresh_table_append3)
qed (use assms in \<open>simp add: fifo_inv_def logs_refresh_def\<close>)

lemma logs_refresh_page:
  "lp_id (fst (logs_refresh t s)) = lp_id s" "lp_exec_page (fst (logs_refresh t s)) = lp_exec_page s"
  "lp_exec_size (fst (logs_refresh t s)) = lp_exec_size s" "lp_order_page (fst (logs_refresh t s)) = lp_order_page s"
  "lp_order_size (fst (logs_refresh t s)) = lp_order_size s"
  by (simp_all add: logs_refresh_def refresh_one_def ask_logs_def Let_def split_beta)

lemma refresh_one_page:
  "lp_id (fst (refresh_one q w s)) = lp_id s" "lp_exec_page (fst (refresh_one q w s)) = lp_exec_page s"
  "lp_exec_size (fst (refresh_one q w s)) = lp_exec_size s" "lp_order_page (fst (refresh_one q w s)) = lp_order_page s"
  "lp_order_size (fst (refresh_one q w s)) = lp_order_size s"
  by (simp_all add: refresh_one_def ask_logs_def)

lemma refresh_queries [simp]:
  "exec_query (fst (logs_refresh t s)) = exec_query s" "orders_query (fst (logs_refresh t s)) = orders_query s"
  "exec_query (fst (refresh_one q w s)) = exec_query s" "orders_query (fst (refresh_one q w s)) = orders_query s"
  by (simp_all add: exec_query_def orders_query_def logs_refresh_page refresh_one_page)

lemma fifo_inv_effects:
  assumes "fresh_table (lp_next new) (lp_tasks new)"
    and "\<not> differs exec_query old new \<and> \<not> differs orders_query old new \<Longrightarrow> fifo_inv srv new"
  shows "fifo_inv srv (fst (logs_effects t old new))"
proof -
  define s where "s = (if differs exec_query old new \<or> differs orders_query old new then fst (logs_refresh t new) else new)"
  have s: "fifo_inv srv s" "exec_query s = exec_query new" "orders_query s = orders_query new"
    using assms by (simp_all add: s_def fifo_inv_refresh)
  define u where "u = (if (differs lp_tab old new \<or> differs exec_query old new) \<and> lp_tab new = TabExec
    then fst (refresh_one (exec_query new) None s) else s)"
  have "fifo_inv srv u" "orders_query u = orders_query new"
    using fifo_inv_ask [OF s(1), of "exec_query new" KExec None] s by (simp_all add: u_def)
  then have "fifo_inv srv (fst (refresh_one (orders_query new) None u))"
    using fifo_inv_ask [of srv u "orders_query new" KOrders None] by simp
  with \<open>fifo_inv srv u\<close> show ?thesis
    unfolding logs_effects_state Let_def s_def [symmetric] u_def [symmetric] by simp
qed


lemma fifo_inv_cong:
  assumes "fifo_inv srv s" and "exec_query s = exec_query s'" and "orders_query s = orders_query s'"
    and "lp_tasks s' = lp_tasks s" "lp_next s' = lp_next s" "\<And>k r. shows_answer k r s' = shows_answer k r s"
  shows "fifo_inv srv s'"
proof -
  have "current_query k s' = current_query k s" for k
    using assms(2,3) by (cases k) (auto simp: schedule_query_def exec_query_def orders_query_def)
  moreover have "pending_of k s' = pending_of k s" for k by (simp add: pending_of_def assms(4))
  moreover have "lp_id s' = lp_id s" using assms(2) by (simp add: exec_query_def)
  ultimately show ?thesis
    using assms by (simp add: fifo_inv_def up_to_date_def)
qed

lemma fifo_inv_changed:
  assumes "fifo_inv srv s" and "lp_tasks s' = lp_tasks s" "lp_next s' = lp_next s" "\<And>k r. shows_answer k r s' = shows_answer k r s"
  shows "fifo_inv srv (fst (logs_effects t (Some s) s'))"
proof (rule fifo_inv_effects)
  show "fresh_table (lp_next s') (lp_tasks s')" using assms(1-3) by (simp add: fifo_inv_def)
  assume "\<not> differs exec_query (Some s) s' \<and> \<not> differs orders_query (Some s) s'"
  then show "fifo_inv srv s'" using assms by (intro fifo_inv_cong [OF assms(1)]) (simp_all add: differs_def)
qed

lemma fifo_inv_user: "fifo_inv srv s \<Longrightarrow> \<forall>i r. a \<noteq> LgAnswer i r \<Longrightarrow> fifo_inv srv (log_step t s a)"
proof (cases a)
  case LgRefresh
  then show "fifo_inv srv s \<Longrightarrow> fifo_inv srv (log_step t s a)"
    by (auto simp: log_step_def log_step_out_def fifo_inv_def intro!: fifo_inv_refresh [unfolded fifo_inv_def])
next
  case (LgTab tab)
  moreover have "shows_answer k r (s\<lparr>lp_tab := tab\<rparr>) = shows_answer k r s" for k r by (cases k) simp_all
  ultimately show "fifo_inv srv s \<Longrightarrow> fifo_inv srv (log_step t s a)"
    by (simp add: log_step_def log_step_out_def fifo_inv_changed)
next
  case (LgRoute sid)
  moreover have "shows_answer k r (s\<lparr>lp_id := sid\<rparr>) = shows_answer k r s" for k r by (cases k) simp_all
  ultimately show "fifo_inv srv s \<Longrightarrow> fifo_inv srv (log_step t s a)"
    by (simp add: log_step_def log_step_out_def fifo_inv_changed)
next
  case (LgExecPage p n)
  moreover have "shows_answer k r (s\<lparr>lp_exec_page := p, lp_exec_size := n\<rparr>) = shows_answer k r s" for k r by (cases k) simp_all
  ultimately show "fifo_inv srv s \<Longrightarrow> fifo_inv srv (log_step t s a)"
    by (simp add: log_step_def log_step_out_def fifo_inv_changed)
next
  case (LgOrderPage p n)
  moreover have "shows_answer k r (s\<lparr>lp_order_page := p, lp_order_size := n\<rparr>) = shows_answer k r s" for k r by (cases k) simp_all
  ultimately show "fifo_inv srv s \<Longrightarrow> fifo_inv srv (log_step t s a)"
    by (simp add: log_step_def log_step_out_def fifo_inv_changed)
qed simp

lemma wait_answered_shows:
  "fifo_inv srv (fst (wait_answered t w answer s)) = fifo_inv srv s"
proof -
  have "fst (wait_answered t w answer s) =
     s\<lparr>lp_waits := lp_waits (fst (wait_answered t w answer s)), lp_loading := lp_loading (fst (wait_answered t w answer s))\<rparr>"
    by (auto simp: wait_answered_def split: option.split sum.split)
  moreover have "fifo_inv srv (s\<lparr>lp_waits := x, lp_loading := b\<rparr>) = fifo_inv srv s" for x b
  proof -
    have "current_query k (s\<lparr>lp_waits := x, lp_loading := b\<rparr>) = current_query k s"
      "shows_answer k r (s\<lparr>lp_waits := x, lp_loading := b\<rparr>) = shows_answer k r s" for k r
      by (cases k; simp add: schedule_query_def exec_query_def orders_query_def)+
    then show ?thesis by (simp add: fifo_inv_def up_to_date_def pending_of_def)
  qed
  ultimately show ?thesis by metis
qed

lemma take_logs_shows:
  "shows_answer k r (take_logs q x s) = (if kind_of q = k then shows_answer k r (take_logs q x s) else shows_answer k r s)"
  "kind_of q = k \<Longrightarrow> shows_answer k x (take_logs q x s)"
  "current_query k (take_logs q x s) = current_query k s"
  by (cases q; cases k; simp add: schedule_query_def exec_query_def orders_query_def)+

lemma fifo_inv_deliver:
  assumes "fifo_inv srv s" and "lp_tasks s = (i, q, w) # rest"
  shows "fifo_inv srv (log_step t s (LgAnswer i (Inr (srv q))))"
proof -
  let ?s = "take_logs q (srv q) (s\<lparr>lp_tasks := rest\<rparr>)"
  have rest: "AList.delete i (lp_tasks s) = rest" "fresh_table (lp_next s) rest"
    using assms fresh_table_delete [of "lp_next s" "lp_tasks s" i]
    by (auto simp: fifo_inv_def fresh_table_def delete_idem)
  have "up_to_date srv k ?s" if "lp_id s \<noteq> []" for k
  proof -
    have old: "up_to_date srv k s" using assms(1) that by (simp add: fifo_inv_def)
    have pend: "pending_of k s = (if kind_of q = k then [q] else []) @ pending_of k ?s"
      by (simp add: pending_of_def assms(2))
    have cur: "current_query k ?s = current_query k s" "shows_answer k r (s\<lparr>lp_tasks := rest\<rparr>) = shows_answer k r s" for r
      by (cases k; simp add: take_logs_shows(3) schedule_query_def exec_query_def orders_query_def)+
    show ?thesis
    proof (cases "pending_of k ?s = []")
      case True
      then show ?thesis
        using old pend cur take_logs_shows(2) [of q k "srv q"] take_logs_shows(1) [of k _ q]
        by (auto simp: up_to_date_def split: if_splits)
    next
      case False
      then show ?thesis using old pend cur by (auto simp: up_to_date_def split: if_splits)
    qed
  qed
  then have "fifo_inv srv ?s" using rest(2) by (simp add: fifo_inv_def)
  moreover have gone: "AList.delete i rest = rest" using rest(1) by (simp add: assms(2))
  ultimately show ?thesis
    by (simp add: log_step_def log_step_out_def logs_answered_def assms(2) gone wait_answered_shows Let_def)
qed

lemma fifo_inv_step: "fifo_inv srv s \<Longrightarrow> fifo_inv srv (fifo_step t srv s a)"
  by (cases a) (auto simp: fifo_step_def split: log_event.split list.split intro!: fifo_inv_user fifo_inv_deliver)

interpretation fifo_page: machine "fst (logs_mounted t sid)" "fifo_step t srv" "fifo_inv srv"
  by unfold_locales
    (auto simp: logs_mounted_def differs_def logs_fresh_def intro!: fifo_inv_effects fifo_inv_step)

text \<open>
  C22. Against a service that answers in the order of the requests, the page shows, once nothing is outstanding,
  the schedule, the logs and the orders of exactly the pages that are selected.
\<close>

theorem ordered_answers_show_pages:
  fixes t sid srv acts
  defines "s \<equiv> run (fifo_step t srv) (fst (logs_mounted t sid)) acts"
  assumes "lp_tasks s = []" and "lp_id s \<noteq> []"
  shows "lp_schedule s = srv (RqSchedule (lp_id s)) \<and>
    lp_exec_logs s = js_or (jget ''logs'' (srv (RqExec (lp_id s) (lp_exec_page s) (lp_exec_size s)))) (JArr []) \<and>
    lp_orders s = js_or (jget ''orders'' (srv (RqOrders (lp_id s) (lp_order_page s) (lp_order_size s)))) (JArr [])"
proof -
  have "fifo_inv srv s" unfolding s_def by (rule fifo_page.inv_run)
  then have "up_to_date srv k s" for k using assms(3) by (simp add: fifo_inv_def)
  from this [of KSchedule] this [of KExec] this [of KOrders] show ?thesis
    using assms(2) by (simp add: up_to_date_def pending_of_def schedule_query_def exec_query_def orders_query_def)
qed

text \<open>Every change of the page of the log in view asks for that page twice.\<close>

theorem changed_page_asked_twice:
  assumes "lp_id s \<noteq> []" and "lp_tab s = TabExec" and "(p, n) \<noteq> (lp_exec_page s, lp_exec_size s)"
  shows "log_shown t s (LgExecPage p n) =
    [LeAsk (RqSchedule (lp_id s)), LeAsk (RqExec (lp_id s) p n), LeAsk (orders_query s), LeAsk (RqExec (lp_id s) p n)]"
  using assms
  by (auto simp: log_shown_def log_step_out_def logs_effects_def Let_def differs_def logs_refresh_def refresh_one_def
      ask_logs_def schedule_query_def exec_query_def orders_query_def)

text \<open>Answers in another order leave the rows of one page under the number of the other.\<close>

theorem late_page_shown:
  fixes t sid r1 r2
  assumes "sid \<noteq> []"
  defines "s \<equiv> run (log_step t) (fst (logs_mounted t sid))
    [LgExecPage 2 20, LgAnswer 5 (Inr r2), LgAnswer 7 (Inr r2), LgAnswer 1 (Inr r1), LgAnswer 3 (Inr r1)]"
  shows "lp_exec_page s = 2 \<and> lp_exec_logs s = js_or (jget ''logs'' r1) (JArr []) \<and> pending_of KExec s = []"
  using assms
  by (simp add: s_def log_step_def log_step_out_def logs_mounted_def logs_fresh_def logs_effects_def Let_def differs_def
      logs_refresh_def refresh_one_def ask_logs_def schedule_query_def exec_query_def orders_query_def logs_answered_def
      wait_answered_def pending_of_def)

subsection \<open>Tags\<close>

text \<open>Each of the eight kinds of orders has its own tag.\<close>

theorem order_kinds_tagged:
  "\<forall>(k, c, l) \<in> set order_kinds. order_type_tag t k = (Some c, t (''strategy.scheduleLogs.orderSide.'' @ l))"
  by code_simp

subsection \<open>Examples\<close>

definition demo_logs :: "log_request \<Rightarrow> jv" where
  "demo_logs q =
     (case q of
        RqSchedule sid \<Rightarrow> JObj [(''name'', JStr sid)]
      | RqExec _ p _ \<Rightarrow> JObj [(''logs'', JArr [JNum (Fin (of_nat p))]), (''total'', JNum (Fin 40))]
      | RqOrders _ p _ \<Rightarrow> JObj [(''orders'', JArr [JNum (Fin (of_nat p))]), (''total'', JNum (Fin 30))])"

definition demo_log_events :: "fifo_event list" where
  "demo_log_events = [FfDeliver, FfUser (LgExecPage 2 20)] @ replicate 7 FfDeliver"

lemma demo_logs_facts:
  "(\<lambda>s. (lp_tasks s, lp_id s, lp_exec_page s, lp_exec_size s))
     (run (fifo_step id demo_logs) (fst (logs_mounted id ''s1'')) demo_log_events) = ([], ''s1'', 2, 20)"
  by code_simp

theorem ordered_answers_show_pages_witness:
  "lp_exec_logs (run (fifo_step id demo_logs) (fst (logs_mounted id ''s1'')) demo_log_events) = JArr [JNum (Fin 2)]"
  using ordered_answers_show_pages [of id demo_logs "''s1''" demo_log_events] demo_logs_facts
  by (simp add: demo_logs_def js_or_def jget_def)

theorem changed_page_asked_twice_witness:
  "length (log_shown id (fst (logs_mounted id ''s1'')) (LgExecPage 2 20)) = 4"
proof -
  have "lp_id (fst (logs_mounted id ''s1'')) \<noteq> []" "lp_tab (fst (logs_mounted id ''s1'')) = TabExec"
    "(2, 20) \<noteq> (lp_exec_page (fst (logs_mounted id ''s1'')), lp_exec_size (fst (logs_mounted id ''s1'')))"
    by code_simp+
  from changed_page_asked_twice [OF this] show ?thesis by simp
qed

theorem late_page_shown_witness:
  "lp_exec_logs (run (log_step id) (fst (logs_mounted id ''s1''))
     [LgExecPage 2 20, LgAnswer 5 (Inr (demo_logs (RqExec ''s1'' 2 20))), LgAnswer 7 (Inr (demo_logs (RqExec ''s1'' 2 20))),
      LgAnswer 1 (Inr (demo_logs (RqExec ''s1'' 1 20))), LgAnswer 3 (Inr (demo_logs (RqExec ''s1'' 1 20)))]) = JArr [JNum (Fin 1)]"
  using late_page_shown [of "''s1''" id "demo_logs (RqExec ''s1'' 2 20)" "demo_logs (RqExec ''s1'' 1 20)"]
  by (simp add: demo_logs_def js_or_def jget_def)

end
