(* ===== verification/LogManagement.thy ===== *)
theory LogManagement
  imports Effects TaskTable Json
begin

text \<open>
  The log page (\<open>pages/logs/LogManagement.tsx\<close>): four kinds of logs with their filters and pages, and the
  requests of their client (\<open>client/log.ts\<close>).  The formatting of times is left out.
\<close>

subsection \<open>The client\<close>

datatype log_type = LtConnection | LtExecution | LtOrders | LtOperations

fun log_filters :: "log_type \<Rightarrow> string list" where
  "log_filters LtConnection = [''accountId'', ''status'', ''startDate'', ''endDate'']"
| "log_filters LtExecution = [''accountId'', ''scheduleId'', ''symbol'', ''status'', ''startDate'', ''endDate'']"
| "log_filters LtOrders = [''accountId'', ''symbol'', ''startDate'', ''endDate'', ''scheduleId'']"
| "log_filters LtOperations = [''module'', ''action'', ''resourceType'', ''resourceId'', ''startDate'', ''endDate'']"

definition log_params :: "log_type \<Rightarrow> nat \<Rightarrow> nat \<Rightarrow> jv \<Rightarrow> jv" where
  "log_params k p n filters = JObj
     ([(''page'', js_or (JNum (Fin (of_nat p))) (JNum (Fin 1))), (''pageSize'', js_or (JNum (Fin (of_nat n))) (JNum (Fin 20)))] @
      List.map (\<lambda>f. (f, js_or (jget f filters) (JStr []))) (log_filters k))"

text \<open>The rows and the total of an answer; the rows of the order history have their own name.\<close>

definition answer_rows :: "log_type \<Rightarrow> jv \<Rightarrow> jv" where
  "answer_rows k response = jget (if k = LtOrders then ''orders'' else ''logs'') response"

subsection \<open>The page\<close>

text \<open>
  The form keeps the value of every field that was ever entered, and gives out those of the fields that the
  current tab shows.  A date range is the list of its two dates as texts.
\<close>

record log_page =
  lm_tab :: log_type
  lm_loading :: bool
  lm_logs :: jv
  lm_total :: jv
  lm_page :: nat
  lm_size :: nat
  lm_accounts :: "jv list"
  lm_risk_code :: string
  lm_request_id :: string
  lm_trigger :: string
  lm_result :: string
  lm_form :: jv
  lm_tasks :: "(nat \<times> log_type \<times> jv) list"
  lm_next :: nat

definition log_page_fresh :: log_page where
  "log_page_fresh =
     \<lparr>lm_tab = LtConnection, lm_loading = False, lm_logs = JArr [], lm_total = JNum (Fin 0), lm_page = 1, lm_size = 20,
      lm_accounts = [], lm_risk_code = [], lm_request_id = [], lm_trigger = [], lm_result = [], lm_form = JObj [],
      lm_tasks = [], lm_next = 0\<rparr>"

text \<open>A request asks for the tab and the page of the render in which its handler was made.\<close>

definition fetch_logs :: "jv \<Rightarrow> log_page \<Rightarrow> log_page \<times> jv list" where
  "fetch_logs filters s =
     (let q = log_params (lm_tab s) (lm_page s) (lm_size s) filters
      in (s\<lparr>lm_loading := True, lm_tasks := lm_tasks s @ [(lm_next s, lm_tab s, q)], lm_next := Suc (lm_next s)\<rparr>, [q]))"

definition log_page_mounted :: log_page where
  "log_page_mounted = fst (fetch_logs JUndef log_page_fresh)"

text \<open>The text of the code for a failed load, in Chinese.\<close>

definition load_failed_text :: string where
  "load_failed_text =
     [CHR 0xE5, CHR 0x8A, CHR 0xA0, CHR 0xE8, CHR 0xBD, CHR 0xBD, CHR 0xE6, CHR 0x97, CHR 0xA5, CHR 0xE5, CHR 0xBF, CHR 0x97,
      CHR 0xE5, CHR 0xA4, CHR 0xB1, CHR 0xE8, CHR 0xB4, CHR 0xA5]"

definition logs_page_answered ::
    "(string \<Rightarrow> string) \<Rightarrow> nat \<Rightarrow> jv outcome \<Rightarrow> log_page \<Rightarrow> log_page \<times> toast list" where
  "logs_page_answered t i answer s =
     (case map_of (lm_tasks s) i of
        None \<Rightarrow> (s, [])
      | Some (k, _) \<Rightarrow>
          (let s = s\<lparr>lm_tasks := AList.delete i (lm_tasks s), lm_loading := False\<rparr>
           in case answer of
                Inl e \<Rightarrow> (s, [ToastError (get_error_message t e load_failed_text)])
              | Inr response \<Rightarrow> (s\<lparr>lm_logs := answer_rows k response, lm_total := jget ''total'' response\<rparr>, [])))"

text \<open>The effect of a render: a change of the tab or of the page asks for it without filters.\<close>

definition page_changed :: "log_page \<Rightarrow> log_page \<Rightarrow> log_page \<times> jv list" where
  "page_changed old new =
     (if (lm_tab old, lm_page old, lm_size old) \<noteq> (lm_tab new, lm_page new, lm_size new) then fetch_logs JUndef new
      else (new, []))"

definition shown_fields :: "log_type \<Rightarrow> string list" where
  "shown_fields k =
     [''dateRange'', ''accountId''] @
     (case k of LtConnection \<Rightarrow> [''status''] | LtExecution \<Rightarrow> [''symbol''] | LtOrders \<Rightarrow> [''symbol'']
      | LtOperations \<Rightarrow> [''module'', ''action''])"

definition form_values :: "log_page \<Rightarrow> jv" where
  "form_values s = JObj (List.map (\<lambda>f. (f, jget f (lm_form s))) (shown_fields (lm_tab s)))"

definition date_filters :: "jv \<Rightarrow> (string \<times> jv) list" where
  "date_filters dates =
     (case dates of JArr [a, b] \<Rightarrow> [(''startDate'', a), (''endDate'', b)] | _ \<Rightarrow> [])"

definition search_filters :: "jv \<Rightarrow> jv" where
  "search_filters values = JObj
     (date_filters (jget ''dateRange'' values) @
      filter (\<lambda>(_, v). truthy v)
        (List.map (\<lambda>f. (f, jget f values)) [''status'', ''symbol'', ''accountId'', ''module'', ''action'']))"

text \<open>Each handler asks at once, with the old page, and its change of the page asks again.\<close>

definition ask_from_first :: "jv \<Rightarrow> log_page \<Rightarrow> log_page \<times> jv list" where
  "ask_from_first filters s =
     (let (u, out) = fetch_logs filters s; (v, out') = page_changed s (u\<lparr>lm_page := 1\<rparr>) in (v, out @ out'))"

definition log_search :: "log_page \<Rightarrow> log_page \<times> jv list" where
  "log_search s = ask_from_first (search_filters (form_values s)) s"

definition log_reset :: "log_page \<Rightarrow> log_page \<times> jv list" where
  "log_reset s = ask_from_first JUndef
     (s\<lparr>lm_form := JObj [], lm_risk_code := [], lm_request_id := [], lm_trigger := [], lm_result := []\<rparr>)"

definition risk_quick_filter :: "log_page \<Rightarrow> log_page \<times> jv list" where
  "risk_quick_filter s =
     (let form = jset ''action'' (JStr ''pre_trade_validate'') (jset ''module'' (JStr ''trading_risk'') (lm_form s));
          s = s\<lparr>lm_form := form\<rparr>;
          values = jset ''action'' (JStr ''pre_trade_validate'') (jset ''module'' (JStr ''trading_risk'') (form_values s))
      in ask_from_first values s)"

datatype log_page_event =
    LmTab log_type
  | LmPage nat nat
  | LmField string jv
  | LmSearch
  | LmReset
  | LmQuickFilter
  | LmRiskCode string
  | LmRequestId string
  | LmTrigger string
  | LmResult string
  | LmAccounts "jv outcome"
  | LmAnswer nat "jv outcome"

definition log_page_out :: "(string \<Rightarrow> string) \<Rightarrow> log_page \<Rightarrow> log_page_event \<Rightarrow> log_page \<times> jv list" where
  "log_page_out t s a =
     (case a of
        LmTab k \<Rightarrow> page_changed s (s\<lparr>lm_tab := k\<rparr>)
      | LmPage p n \<Rightarrow> page_changed s (s\<lparr>lm_page := p, lm_size := n\<rparr>)
      | LmField f v \<Rightarrow> (if f \<in> set (shown_fields (lm_tab s)) then s\<lparr>lm_form := jset f v (lm_form s)\<rparr> else s, [])
      | LmSearch \<Rightarrow> log_search s
      | LmReset \<Rightarrow> log_reset s
      | LmQuickFilter \<Rightarrow> if lm_tab s = LtOperations then risk_quick_filter s else (s, [])
      | LmRiskCode x \<Rightarrow> (s\<lparr>lm_risk_code := x\<rparr>, [])
      | LmRequestId x \<Rightarrow> (s\<lparr>lm_request_id := x\<rparr>, [])
      | LmTrigger x \<Rightarrow> (s\<lparr>lm_trigger := x\<rparr>, [])
      | LmResult x \<Rightarrow> (s\<lparr>lm_result := x\<rparr>, [])
      | LmAccounts answer \<Rightarrow>
          (s\<lparr>lm_accounts := (case answer of Inr (JArr accounts) \<Rightarrow> accounts | _ \<Rightarrow> [])\<rparr>, [])
      | LmAnswer i answer \<Rightarrow> (fst (logs_page_answered t i answer s), []))"

definition log_page_step :: "(string \<Rightarrow> string) \<Rightarrow> log_page \<Rightarrow> log_page_event \<Rightarrow> log_page" where
  "log_page_step t s a = fst (log_page_out t s a)"

definition log_page_asked :: "(string \<Rightarrow> string) \<Rightarrow> log_page \<Rightarrow> log_page_event \<Rightarrow> jv list" where
  "log_page_asked t s a = snd (log_page_out t s a)"

subsection \<open>The rows\<close>

definition operation_details :: "jv \<Rightarrow> jv" where
  "operation_details raw =
     (if \<not> truthy raw then JObj []
      else case json_parse (js_string raw) of
          Some parsed \<Rightarrow> if is_object parsed then parsed else JObj []
        | None \<Rightarrow> JObj [])"

definition detail_field :: "string \<Rightarrow> jv \<Rightarrow> string" where
  "detail_field k row = js_lower (js_string (js_or (jget k (operation_details (jget ''details'' row))) (JStr [])))"

definition row_matches :: "log_page \<Rightarrow> jv \<Rightarrow> bool" where
  "row_matches s row \<longleftrightarrow>
     (lm_risk_code s \<noteq> [] \<longrightarrow> js_includes (detail_field ''risk_code'' row) (js_lower (lm_risk_code s))) \<and>
     (lm_request_id s \<noteq> [] \<longrightarrow> js_includes (detail_field ''request_id'' row) (js_lower (lm_request_id s))) \<and>
     (lm_trigger s \<noteq> [] \<longrightarrow> detail_field ''trigger_source'' row = js_lower (lm_trigger s)) \<and>
     (lm_result s \<noteq> [] \<longrightarrow> detail_field ''result'' row = js_lower (lm_result s))"

definition filtered_logs :: "log_page \<Rightarrow> jv list" where
  "filtered_logs s =
     (case lm_logs s of JArr rows \<Rightarrow> if lm_tab s \<noteq> LtOperations then rows else filter (row_matches s) rows | _ \<Rightarrow> [])"

text \<open>Of two accounts with one id the later one is found.\<close>

definition server_cell :: "log_page \<Rightarrow> jv \<Rightarrow> string" where
  "server_cell s row =
     (let text = (\<lambda>v. js_string (js_or v (JStr [])));
          key = text (jget ''accountId'' row);
          a = List.find (\<lambda>a. truthy (jget ''id'' a) \<and> js_string (jget ''id'' a) = key) (rev (lm_accounts s));
          field = (\<lambda>k. case a of None \<Rightarrow> JUndef | Some a \<Rightarrow> jget k a);
          name = js_trim (text (js_or (field ''brokerServer'') (js_or (field ''brokerHost'') (field ''brokerCompany''))));
          host = js_trim (text (jget ''serverHost'' row));
          port = js_trim (js_string (js_coalesce (jget ''serverPort'' row) (JStr [])))
      in if name \<noteq> [] then name else if host \<noteq> [] \<and> port \<noteq> [] then host @ '':'' @ port
         else if host \<noteq> [] then host else ''-'')"

definition log_status_tag :: "(string \<Rightarrow> string) \<Rightarrow> jv \<Rightarrow> string \<times> string" where
  "log_status_tag t v =
     (let s = js_lower (js_string (js_or v (JStr [])));
          color = map_of [(''success'', ''green''), (''failed'', ''red''), (''completed'', ''green''), (''running'', ''blue''),
            (''pending'', ''orange''), (''skipped'', ''default'')] s
      in (case color of Some c \<Rightarrow> c | None \<Rightarrow> ''default'',
          if s = ''success'' then t ''logs.success'' else if s = ''failed'' then t ''logs.failed''
          else if s \<noteq> [] then js_upper s else ''-''))"

definition event_type_tag :: "jv \<Rightarrow> string \<times> string" where
  "event_type_tag v =
     (let s = js_lower (js_string (js_or v (JStr [])));
          color = map_of [(''connect'', ''blue''), (''disconnect'', ''orange''), (''reconnect'', ''cyan''), (''error'', ''red''),
            (''heartbeat'', ''green'')] s
      in (case color of Some c \<Rightarrow> c | None \<Rightarrow> ''default'', if s \<noteq> [] then js_upper s else ''-''))"


subsection \<open>What is shown\<close>

text \<open>A service whose answers do not change and arrive in the order in which they were asked for.\<close>

datatype log_page_input = LiUser log_page_event | LiDeliver

definition ordered_step :: "(string \<Rightarrow> string) \<Rightarrow> (log_type \<Rightarrow> jv \<Rightarrow> jv) \<Rightarrow> log_page \<Rightarrow> log_page_input \<Rightarrow> log_page" where
  "ordered_step t srv s a =
     (case a of
        LiUser (LmAnswer _ _) \<Rightarrow> s
      | LiUser a \<Rightarrow> log_page_step t s a
      | LiDeliver \<Rightarrow> (case lm_tasks s of [] \<Rightarrow> s | (i, k, q) # _ \<Rightarrow> log_page_step t s (LmAnswer i (Inr (srv k q)))))"

definition current_request :: "log_page \<Rightarrow> log_type \<times> jv \<Rightarrow> bool" where
  "current_request s kq \<longleftrightarrow> (\<exists>filters. kq = (lm_tab s, log_params (lm_tab s) (lm_page s) (lm_size s) filters))"

definition shows_request :: "(log_type \<Rightarrow> jv \<Rightarrow> jv) \<Rightarrow> log_page \<Rightarrow> log_type \<times> jv \<Rightarrow> bool" where
  "shows_request srv s kq \<longleftrightarrow>
     lm_logs s = answer_rows (fst kq) (srv (fst kq) (snd kq)) \<and> lm_total s = jget ''total'' (srv (fst kq) (snd kq))"

definition ordered_inv :: "(log_type \<Rightarrow> jv \<Rightarrow> jv) \<Rightarrow> log_page \<Rightarrow> bool" where
  "ordered_inv srv s \<longleftrightarrow> fresh_table (lm_next s) (lm_tasks s) \<and>
     (if lm_tasks s = [] then (\<exists>kq. current_request s kq \<and> shows_request srv s kq)
      else current_request s (snd (last (lm_tasks s))))"

lemma ordered_inv_fetch: "fresh_table (lm_next s) (lm_tasks s) \<Longrightarrow> ordered_inv srv (fst (fetch_logs filters s))"
  by (auto simp: ordered_inv_def fetch_logs_def Let_def current_request_def)

lemma ordered_inv_cong:
  assumes "ordered_inv srv s" and "lm_tab s' = lm_tab s" "lm_page s' = lm_page s" "lm_size s' = lm_size s"
    "lm_tasks s' = lm_tasks s" "lm_next s' = lm_next s" "lm_logs s' = lm_logs s" "lm_total s' = lm_total s"
  shows "ordered_inv srv s'"
proof -
  have "current_request s' = current_request s" "shows_request srv s' = shows_request srv s"
    using assms by (simp_all add: fun_eq_iff current_request_def shows_request_def)
  then show ?thesis using assms by (simp only: ordered_inv_def simp_thms) (elim conjE, assumption)
qed

lemma ordered_inv_changed:
  assumes "ordered_inv srv s" and "lm_tasks s' = lm_tasks s" "lm_next s' = lm_next s" "lm_logs s' = lm_logs s" "lm_total s' = lm_total s"
  shows "ordered_inv srv (fst (page_changed s s'))"
  using assms by (auto simp: page_changed_def ordered_inv_def [of srv s] intro: ordered_inv_fetch ordered_inv_cong [OF assms(1)])

lemma fetch_logs_page [simp]:
  "lm_tab (fst (fetch_logs filters s)) = lm_tab s" "lm_page (fst (fetch_logs filters s)) = lm_page s"
  "lm_size (fst (fetch_logs filters s)) = lm_size s"
  by (simp_all add: fetch_logs_def Let_def)

lemma ordered_inv_first:
  assumes "fresh_table (lm_next s) (lm_tasks s)"
  shows "ordered_inv srv (fst (ask_from_first filters s))"
proof -
  let ?u = "fst (fetch_logs filters s)"
  have u: "ordered_inv srv ?u" using assms by (rule ordered_inv_fetch)
  show ?thesis
  proof (cases "lm_page s = 1")
    case True
    then have "ordered_inv srv (?u\<lparr>lm_page := 1\<rparr>)" by (intro ordered_inv_cong [OF u]) simp_all
    then show ?thesis using True by (simp add: ask_from_first_def page_changed_def split_beta)
  next
    case False
    then show ?thesis
      using assms by (auto simp: ask_from_first_def page_changed_def split_beta intro!: ordered_inv_fetch)
        (simp add: fetch_logs_def Let_def)
  qed
qed

lemma ordered_inv_user:
  assumes "ordered_inv srv s" and "\<forall>i r. a \<noteq> LmAnswer i r"
  shows "ordered_inv srv (log_page_step t s a)"
proof -
  have fresh: "fresh_table (lm_next s) (lm_tasks s)" using assms(1) by (simp add: ordered_inv_def)
  then show ?thesis
    using assms
    by (cases a) (auto simp: log_page_step_def log_page_out_def log_search_def log_reset_def risk_quick_filter_def Let_def
        intro!: ordered_inv_changed ordered_inv_first elim: ordered_inv_cong)
qed

lemma ordered_inv_deliver:
  assumes "ordered_inv srv s" and "lm_tasks s = (i, k, q) # rest"
  shows "ordered_inv srv (log_page_step t s (LmAnswer i (Inr (srv k q))))"
proof -
  have "fresh_table (lm_next s) rest" "AList.delete i rest = rest"
    using assms by (auto simp: ordered_inv_def fresh_table_def delete_idem)
  then show ?thesis
    using assms
    by (cases "rest = []") (auto simp: log_page_step_def log_page_out_def logs_page_answered_def Let_def ordered_inv_def
        current_request_def shows_request_def)
qed

lemma ordered_inv_step: "ordered_inv srv s \<Longrightarrow> ordered_inv srv (ordered_step t srv s a)"
  by (cases a) (auto simp: ordered_step_def split: log_page_event.split list.split intro!: ordered_inv_user ordered_inv_deliver)

interpretation ordered_page: machine log_page_mounted "ordered_step t srv" "ordered_inv srv"
  by unfold_locales (auto simp: log_page_mounted_def log_page_fresh_def intro!: ordered_inv_fetch ordered_inv_step)

text \<open>
  Against a service that answers in the order of the requests, the rows are, once nothing is outstanding,
  those of the tab and the page that are selected, for some filters.
\<close>

theorem rows_of_current_tab:
  "let s = run (ordered_step t srv) log_page_mounted acts
   in lm_tasks s = [] \<longrightarrow>
     (\<exists>filters. lm_logs s = answer_rows (lm_tab s) (srv (lm_tab s) (log_params (lm_tab s) (lm_page s) (lm_size s) filters)))"
proof -
  have "ordered_inv srv (run (ordered_step t srv) log_page_mounted acts)" by (rule ordered_page.inv_run)
  then show ?thesis
    by (auto simp: Let_def ordered_inv_def current_request_def shows_request_def)
qed

subsection \<open>Filters that get lost\<close>

text \<open>A change of the page or of the tab asks without the filters of the form.\<close>

theorem page_change_drops_filters:
  assumes "(p, n) \<noteq> (lm_page s, lm_size s)" and "f \<in> set (log_filters (lm_tab s))"
  shows "\<exists>q. log_page_asked t s (LmPage p n) = [q] \<and> jget f q = JStr []"
proof -
  have "jget f (log_params (lm_tab s) p n JUndef) = JStr []"
    using assms(2) by (cases "lm_tab s") (auto simp: log_params_def js_or_def jget_def)
  then show ?thesis
    using assms(1) by (auto simp: log_page_asked_def log_page_out_def page_changed_def fetch_logs_def Let_def)
qed

text \<open>
  A search from a later page asks for that page of the filtered rows, then for the first page of all rows;
  answers in this order leave the unfiltered rows under the filters.
\<close>

theorem search_elsewhere_shows_all:
  assumes "lm_page s \<noteq> 1" and "lm_tasks s = []"
  defines "found \<equiv> search_filters (form_values s)" and "k \<equiv> lm_tab s" and "n \<equiv> lm_size s"
  shows "log_page_asked t s LmSearch = [log_params k (lm_page s) n found, log_params k 1 n JUndef] \<and>
    lm_logs (run (ordered_step t srv) s [LiUser LmSearch, LiDeliver, LiDeliver]) = answer_rows k (srv k (log_params k 1 n JUndef))"
  using assms(1,2)
  by (simp add: found_def k_def n_def log_page_asked_def ordered_step_def log_page_step_def log_page_out_def log_search_def
      ask_from_first_def page_changed_def fetch_logs_def Let_def logs_page_answered_def)

text \<open>The filter of the form that the risk shortcut keeps on screen is not sent: its rows are of all dates.\<close>

theorem quick_filter_ignores_dates:
  assumes "lm_tab s = LtOperations" and "lm_page s = 1"
  shows "\<exists>q. log_page_asked t s LmQuickFilter = [q] \<and> jget ''module'' q = JStr ''trading_risk'' \<and>
    jget ''startDate'' q = JStr [] \<and> jget ''endDate'' q = JStr []"
  using assms
  by (auto simp: log_page_asked_def log_page_out_def risk_quick_filter_def Let_def ask_from_first_def fetch_logs_def
      page_changed_def log_params_def form_values_def shown_fields_def jset_def js_or_def jget_def)

text \<open>The answer for a tab that was left puts its rows under the columns of the new tab.\<close>

theorem late_rows_of_other_tab:
  fixes t r1 r2
  defines "s \<equiv> run (log_page_step t) log_page_mounted [LmTab LtOrders, LmAnswer 1 (Inr r2), LmAnswer 0 (Inr r1)]"
  shows "lm_tab s = LtOrders \<and> lm_logs s = jget ''logs'' r1 \<and> lm_tasks s = []"
  by (simp add: s_def log_page_step_def log_page_out_def log_page_mounted_def log_page_fresh_def fetch_logs_def Let_def
      page_changed_def logs_page_answered_def answer_rows_def)


subsection \<open>Examples\<close>

text \<open>The second page of the operations, with a date range in the form.\<close>

definition demo_log_page :: log_page where
  "demo_log_page = log_page_fresh\<lparr>lm_tab := LtOperations, lm_page := 2,
     lm_form := JObj [(''dateRange'', JArr [JStr ''2024-01-01'', JStr ''2024-01-31''])]\<rparr>"

lemma demo_log_page_fields:
  "lm_tab demo_log_page = LtOperations" "lm_page demo_log_page = 2" "lm_size demo_log_page = 20" "lm_tasks demo_log_page = []"
  by (simp_all add: demo_log_page_def log_page_fresh_def)

theorem page_change_drops_filters_witness:
  "\<exists>q. log_page_asked id demo_log_page (LmPage 3 20) = [q] \<and> jget ''module'' q = JStr []"
proof -
  have "(3, 20) \<noteq> (lm_page demo_log_page, lm_size demo_log_page)" "''module'' \<in> set (log_filters (lm_tab demo_log_page))"
    by (simp_all add: demo_log_page_fields)
  then show ?thesis by (rule page_change_drops_filters)
qed

theorem search_elsewhere_shows_all_witness:
  "lm_logs (run (ordered_step id (\<lambda>_ q. JObj [(''logs'', jget ''page'' q)])) demo_log_page [LiUser LmSearch, LiDeliver, LiDeliver]) =
     JNum (Fin 1)"
  using search_elsewhere_shows_all [of demo_log_page id "\<lambda>_ q. JObj [(''logs'', jget ''page'' q)]"]
  by (simp add: demo_log_page_fields log_params_def answer_rows_def js_or_def jget_def)

theorem quick_filter_ignores_dates_witness:
  "\<exists>q. log_page_asked id (demo_log_page\<lparr>lm_page := 1\<rparr>) LmQuickFilter = [q] \<and> jget ''startDate'' q = JStr []"
  using quick_filter_ignores_dates [of "demo_log_page\<lparr>lm_page := 1\<rparr>" id] by (auto simp: demo_log_page_fields)

end
