(* ===== verification/AnalyticsPage.thy ===== *)
theory AnalyticsPage
  imports Effects TaskTable
begin

text \<open>
  The summary page of an account (\<open>pages/analytics/Summary.tsx\<close>) with the data of its charts
  (\<open>Summary.helpers.ts\<close>, \<open>Summary.constants.ts\<close>) and the calls of its client (\<open>client/analytics.ts\<close>).
\<close>

subsection \<open>The client\<close>

definition account_request :: "jv \<Rightarrow> jv" where
  "account_request account = JObj [(''accountId'', account)]"

definition monthly_request :: "jv \<Rightarrow> int \<Rightarrow> int \<Rightarrow> jv" where
  "monthly_request account this_year year =
     JObj [(''accountId'', account), (''year'', js_or (JNum (Fin (of_int year))) (JNum (Fin (of_int this_year))))]"

definition recent_trades_request :: "jv \<Rightarrow> jv \<Rightarrow> jv \<Rightarrow> jv" where
  "recent_trades_request account page per_page =
     JObj [(''accountId'', account), (''page'', js_or page (JNum (Fin 1))), (''pageSize'', js_or per_page (JNum (Fin 10)))]"

definition monthly_analysis :: "jv \<Rightarrow> jv" where
  "monthly_analysis response =
     JObj [(''years'', js_or (jget ''years'' response) (JArr [])), (''data'', js_or (jget ''data'' response) (JArr []))]"

definition pick_fields :: "string list \<Rightarrow> jv \<Rightarrow> jv" where
  "pick_fields ks row = JObj (List.map (\<lambda>k. (k, jget k row)) ks)"

definition picked_rows :: "string \<Rightarrow> string list \<Rightarrow> jv \<Rightarrow> jv" where
  "picked_rows k ks response = JArr (List.map (pick_fields ks) (jv_list (js_coalesce (jget k response) (JArr []))))"

definition monthly_bonus :: "jv \<Rightarrow> jv" where
  "monthly_bonus response = JObj
     [(''riskRatio'', js_coalesce (jget ''riskRatio'' response) (JNum (Fin 0))),
      (''symbolPopularity'', picked_rows ''symbolPopularity'' [''symbol'', ''trades'', ''sharePercent''] response),
      (''symbolRisks'', picked_rows ''symbolRiskRatios'' [''symbol'', ''riskRatio''] response),
      (''symbolHoldingSplit'', picked_rows ''symbolHoldingSplit'' [''symbol'', ''bullsSeconds'', ''shortTermSeconds''] response),
      (''averageHoldingSeconds'', js_coalesce (jget ''averageHoldingSeconds'' response) (JNum (Fin 0))),
      (''totalTrades'', js_coalesce (jget ''totalTrades'' response) (JNum (Fin 0)))]"

definition calendar_request :: "jv \<Rightarrow> string \<Rightarrow> jv" where
  "calendar_request params lang = JObj
     (List.map (\<lambda>k. (k, js_or (jget k params) (JStr []))) [''from'', ''to'', ''country'', ''symbol'', ''importance''] @
      [(''lang'', js_or (JStr lang) (JStr ''en''))])"

definition calendar_events :: "jv \<Rightarrow> jv list" where
  "calendar_events response =
     List.map (\<lambda>e. jset ''timestamp'' (JNum (js_number (jget ''timestamp'' e)) ) e) (jv_list (js_or (jget ''events'' response) (JArr [])))"

definition indicator_rows :: "jv \<Rightarrow> jv list" where
  "indicator_rows response = jv_list (js_or (jget ''indicators'' response) (JArr []))"

subsection \<open>Charts\<close>

definition chart_colors :: "string list" where
  "chart_colors = [''#D4AF37'', ''#2196F3'', ''#00A651'', ''#E53935'', ''#9C27B0'', ''#FF9800'']"

definition number_field :: "string \<Rightarrow> jv \<Rightarrow> jv" where
  "number_field k row = JNum (js_number (js_or (jget k row) (JNum (Fin 0))))"

definition chart_text_field :: "string \<Rightarrow> jv \<Rightarrow> jv" where
  "chart_text_field k row = JStr (js_string (js_or (jget k row) (JStr [])))"

definition equity_curve_data :: "jv list \<Rightarrow> jv list" where
  "equity_curve_data curve =
     List.map (\<lambda>p. JObj [(''date'', chart_text_field ''date'' p), (''equity'', number_field ''equity'' p)]) curve"

definition monthly_data :: "jv list \<Rightarrow> jv list" where
  "monthly_data rows =
     List.map (\<lambda>m. JObj [(''month'', chart_text_field ''month'' m), (''profit'', number_field ''profit'' m),
                      (''trades'', number_field ''trades'' m)]) rows"

record pie_slice =
  ps_name :: jv
  ps_value :: jv
  ps_color :: string

definition symbol_pie_data :: "jv list \<Rightarrow> pie_slice list" where
  "symbol_pie_data stats =
     List.map (\<lambda>(i, s). \<lparr>ps_name = jget ''symbol'' s, ps_value = jget ''trades'' s,
       ps_color = chart_colors ! (i mod length chart_colors)\<rparr>) (enumerate 0 (take 5 stats))"

definition direction_pie_data :: "(string \<Rightarrow> string) \<Rightarrow> jv \<Rightarrow> pie_slice list" where
  "direction_pie_data t stats =
     [\<lparr>ps_name = JStr (t ''analytics.summary.direction.buy''), ps_value = number_field ''buyTrades'' stats, ps_color = ''#00A651''\<rparr>,
      \<lparr>ps_name = JStr (t ''analytics.summary.direction.sell''), ps_value = number_field ''sellTrades'' stats, ps_color = ''#E53935''\<rparr>]"

definition profit_pie_data :: "(string \<Rightarrow> string) \<Rightarrow> jv \<Rightarrow> pie_slice list" where
  "profit_pie_data t stats =
     [\<lparr>ps_name = JStr (t ''analytics.summary.profit.win''), ps_value = js_or (jget ''winningTrades'' stats) (JNum (Fin 0)),
       ps_color = ''#00A651''\<rparr>,
      \<lparr>ps_name = JStr (t ''analytics.summary.profit.loss''), ps_value = js_or (jget ''losingTrades'' stats) (JNum (Fin 0)),
       ps_color = ''#E53935''\<rparr>]"

text \<open>The loop from this year down to the fifth before it.\<close>

function years_from :: "int \<Rightarrow> int \<Rightarrow> int list" where
  "years_from y first = (if first \<le> y then y # years_from (y - 1) first else [])"
  by pat_completeness auto

termination years_from
  by (relation "measure (\<lambda>(y, first). nat (y - first + 1))") auto

declare years_from.simps [simp del]

definition year_options :: "int \<Rightarrow> int list" where
  "year_options this_year = years_from this_year (this_year - 5)"

subsection \<open>The page\<close>

text \<open>
  The two requests for an account are answered together.  The requests for the calendar and for the
  indicators carry the number of the effect that started them, which a change of the language cancels.
\<close>

datatype analytics_task = AtAccount jv int | AtCalendar nat string | AtIndicators nat

record analytics_page =
  an_accounts :: "jv list"
  an_selected :: jv
  an_period :: string
  an_year :: int
  an_analytics :: jv
  an_loading :: bool
  an_language :: string
  an_effect :: nat
  an_events :: "jv list"
  an_events_loading :: bool
  an_indicators :: "jv list"
  an_indicators_loading :: bool
  an_tasks :: "(nat \<times> analytics_task) list"
  an_next :: nat

datatype analytics_call = AcAccount jv | AcMonthly jv | AcCalendar jv | AcIndicators

definition start_analytics :: "analytics_task \<Rightarrow> analytics_page \<Rightarrow> analytics_page" where
  "start_analytics k s = s\<lparr>an_tasks := an_tasks s @ [(an_next s, k)], an_next := Suc (an_next s)\<rparr>"

definition load_news :: "analytics_page \<Rightarrow> analytics_page \<times> analytics_call list" where
  "load_news s =
     (let e = Suc (an_effect s);
          s = start_analytics (AtCalendar e (an_language s)) (s\<lparr>an_effect := e, an_events_loading := True\<rparr>);
          s = start_analytics (AtIndicators e) (s\<lparr>an_indicators_loading := True\<rparr>)
      in (s, [AcCalendar (calendar_request JUndef (an_language s)), AcIndicators]))"

definition analytics_mounted :: "int \<Rightarrow> string \<Rightarrow> analytics_page \<times> analytics_call list" where
  "analytics_mounted this_year lang = load_news
     \<lparr>an_accounts = [], an_selected = JNull, an_period = ''month'', an_year = this_year, an_analytics = JNull,
      an_loading = False, an_language = lang, an_effect = 0, an_events = [], an_events_loading = False,
      an_indicators = [], an_indicators_loading = False, an_tasks = [], an_next = 0\<rparr>"

definition fetch_analytics :: "int \<Rightarrow> analytics_page \<Rightarrow> analytics_page \<times> analytics_call list" where
  "fetch_analytics this_year s =
     (if \<not> truthy (an_selected s) then (s, [])
      else (start_analytics (AtAccount (an_selected s) (an_year s)) (s\<lparr>an_loading := True\<rparr>),
            [AcAccount (account_request (an_selected s)), AcMonthly (monthly_request (an_selected s) this_year (an_year s))]))"

text \<open>An account is chosen for the user who has chosen none.\<close>

definition auto_select :: "analytics_page \<Rightarrow> analytics_page" where
  "auto_select s =
     (case an_accounts s of
        a # _ \<Rightarrow> if \<not> truthy (an_selected s) \<and> truthy (jget ''id'' a) then s\<lparr>an_selected := jget ''id'' a\<rparr> else s
      | [] \<Rightarrow> s)"

definition analytics_effects :: "int \<Rightarrow> analytics_page \<Rightarrow> analytics_page \<Rightarrow> analytics_page \<times> analytics_call list" where
  "analytics_effects this_year old new =
     (let new = auto_select new
      in if (an_selected old, an_period old, an_year old) \<noteq> (an_selected new, an_period new, an_year new)
         then fetch_analytics this_year new else (new, []))"

definition merged_analytics :: "jv \<Rightarrow> jv \<Rightarrow> jv" where
  "merged_analytics account monthly =
     jset ''monthlyPnl'' (js_or (jget ''monthlyPnl'' monthly) (js_or (jget ''monthlyPnl'' account) (JArr []))) account"

datatype analytics_answer = AaAccount "(jv \<times> jv) outcome" | AaNews "jv outcome"

definition analytics_answered :: "nat \<Rightarrow> analytics_answer \<Rightarrow> analytics_page \<Rightarrow> analytics_page" where
  "analytics_answered i answer s =
     (let gone = s\<lparr>an_tasks := AList.delete i (an_tasks s)\<rparr>
      in case (map_of (an_tasks s) i, answer) of
           (Some (AtAccount _ _), AaAccount answer) \<Rightarrow>
             gone\<lparr>an_loading := False,
               an_analytics := (case answer of Inl _ \<Rightarrow> JNull | Inr (account, monthly) \<Rightarrow> merged_analytics account monthly)\<rparr>
         | (Some (AtCalendar e _), AaNews answer) \<Rightarrow>
             if e \<noteq> an_effect s then gone
             else gone\<lparr>an_events_loading := False,
               an_events := (case answer of Inl _ \<Rightarrow> [] | Inr response \<Rightarrow> take 50 (calendar_events response))\<rparr>
         | (Some (AtIndicators e), AaNews answer) \<Rightarrow>
             if e \<noteq> an_effect s then gone
             else gone\<lparr>an_indicators_loading := False,
               an_indicators := (case answer of Inl _ \<Rightarrow> [] | Inr response \<Rightarrow> indicator_rows response)\<rparr>
         | _ \<Rightarrow> s)"

datatype analytics_event =
    AeAccounts "jv list"
  | AeSelect jv
  | AePeriod string
  | AeYear int
  | AeLanguage string
  | AeAnswer nat analytics_answer

definition analytics_out :: "int \<Rightarrow> analytics_page \<Rightarrow> analytics_event \<Rightarrow> analytics_page \<times> analytics_call list" where
  "analytics_out this_year s a =
     (case a of
        AeAccounts accounts \<Rightarrow> analytics_effects this_year s (s\<lparr>an_accounts := accounts\<rparr>)
      | AeSelect account \<Rightarrow> analytics_effects this_year s (s\<lparr>an_selected := account\<rparr>)
      | AePeriod p \<Rightarrow> analytics_effects this_year s (s\<lparr>an_period := p\<rparr>)
      | AeYear y \<Rightarrow> analytics_effects this_year s (s\<lparr>an_year := y\<rparr>)
      | AeLanguage lang \<Rightarrow> if lang = an_language s then (s, []) else load_news (s\<lparr>an_language := lang\<rparr>)
      | AeAnswer i answer \<Rightarrow> (analytics_answered i answer s, []))"

definition analytics_step :: "int \<Rightarrow> analytics_page \<Rightarrow> analytics_event \<Rightarrow> analytics_page" where
  "analytics_step this_year s a = fst (analytics_out this_year s a)"

definition analytics_calls :: "int \<Rightarrow> analytics_page \<Rightarrow> analytics_event \<Rightarrow> analytics_call list" where
  "analytics_calls this_year s a = snd (analytics_out this_year s a)"


subsection \<open>Charts: bounds\<close>

text \<open>The five slices of the symbols have five colours, and the years offered are the last six.\<close>

theorem symbol_slices:
  "length (symbol_pie_data stats) \<le> 5 \<and> distinct (List.map ps_color (symbol_pie_data stats))"
proof -
  have "List.map ps_color (symbol_pie_data stats) = List.map (\<lambda>i. chart_colors ! (i mod 6)) [0..<min 5 (length stats)]"
    by (rule nth_equalityI) (simp_all add: symbol_pie_data_def chart_colors_def nth_enumerate_eq)
  moreover have "i mod 6 = i" if "i \<in> {0..<min 5 (length stats)}" for i :: nat using that by simp
  ultimately have "List.map ps_color (symbol_pie_data stats) = take (min 5 (length stats)) chart_colors"
    by (intro nth_equalityI) (simp_all add: chart_colors_def)
  moreover have "distinct chart_colors" by (simp add: chart_colors_def)
  ultimately show ?thesis by (simp add: symbol_pie_data_def)
qed

theorem year_options_six: "year_options y = List.map (\<lambda>k. y - int k) [0..<6]"
  by (simp add: year_options_def years_from.simps upt_rec)

subsection \<open>News of the current language\<close>

fun news_task_ok :: "nat \<Rightarrow> string \<Rightarrow> analytics_task \<Rightarrow> bool" where
  "news_task_ok e lang (AtCalendar e' lang') = (e' \<le> e \<and> (e' = e \<longrightarrow> lang' = lang))"
| "news_task_ok e lang (AtIndicators e') = (e' \<le> e)"
| "news_task_ok e lang (AtAccount _ _) = True"

fun is_account_task :: "analytics_task \<Rightarrow> bool" where
  "is_account_task (AtAccount _ _) = True"
| "is_account_task _ = False"

fun is_calendar_of :: "nat \<Rightarrow> analytics_task \<Rightarrow> bool" where
  "is_calendar_of e (AtCalendar e' _) = (e' = e)"
| "is_calendar_of e _ = False"

fun is_indicators_of :: "nat \<Rightarrow> analytics_task \<Rightarrow> bool" where
  "is_indicators_of e (AtIndicators e') = (e' = e)"
| "is_indicators_of e _ = False"

definition news_inv :: "analytics_page \<Rightarrow> bool" where
  "news_inv s \<longleftrightarrow> fresh_table (an_next s) (an_tasks s) \<and>
     (\<forall>p \<in> set (an_tasks s). news_task_ok (an_effect s) (an_language s) (snd p)) \<and>
     (an_events_loading s \<longrightarrow> has_entry (is_calendar_of (an_effect s)) (an_tasks s)) \<and>
     (an_indicators_loading s \<longrightarrow> has_entry (is_indicators_of (an_effect s)) (an_tasks s)) \<and>
     (an_loading s \<longrightarrow> has_entry is_account_task (an_tasks s))"

lemma news_task_ok_next: "news_task_ok e lang k \<Longrightarrow> news_task_ok (Suc e) lang' k"
  by (cases k) auto

text \<open>A service whose calendar and indicators do not change; its answers may come in any order.\<close>

definition news_of :: "(string \<Rightarrow> jv) \<Rightarrow> jv \<Rightarrow> analytics_page \<Rightarrow> bool" where
  "news_of cal ind s \<longleftrightarrow>
     (an_events_loading s \<or> an_events s = take 50 (calendar_events (cal (an_language s)))) \<and>
     (an_indicators_loading s \<or> an_indicators s = indicator_rows ind)"

definition news_answer :: "(string \<Rightarrow> jv) \<Rightarrow> jv \<Rightarrow> analytics_task \<Rightarrow> jv" where
  "news_answer cal ind k = (case k of AtCalendar _ lang \<Rightarrow> cal lang | _ \<Rightarrow> ind)"

datatype news_event = NeUser analytics_event | NeDeliver nat

definition news_step :: "int \<Rightarrow> (string \<Rightarrow> jv) \<Rightarrow> jv \<Rightarrow> analytics_page \<Rightarrow> news_event \<Rightarrow> analytics_page" where
  "news_step this_year cal ind s a =
     (case a of
        NeUser (AeAnswer i (AaNews _)) \<Rightarrow> s
      | NeUser a \<Rightarrow> analytics_step this_year s a
      | NeDeliver i \<Rightarrow>
          (case map_of (an_tasks s) i of
             Some k \<Rightarrow> analytics_step this_year s (AeAnswer i (AaNews (Inr (news_answer cal ind k))))
           | None \<Rightarrow> s))"

definition news_state :: "(string \<Rightarrow> jv) \<Rightarrow> jv \<Rightarrow> analytics_page \<Rightarrow> bool" where
  "news_state cal ind s \<longleftrightarrow> news_inv s \<and> news_of cal ind s"

lemma fresh_table_append2: "fresh_table n al \<Longrightarrow> fresh_table (Suc (Suc n)) (al @ [(n, x), (Suc n, y)])"
  using fresh_table_append [of "Suc n" "al @ [(n, x)]" y] by simp

lemma has_entry_Cons [simp]: "has_entry P (p # al) \<longleftrightarrow> P (snd p) \<or> has_entry P al"
  by (simp add: has_entry_def)

lemma load_news_state:
  "fst (load_news s) = s\<lparr>an_effect := Suc (an_effect s), an_events_loading := True, an_indicators_loading := True,
     an_tasks := an_tasks s @ [(an_next s, AtCalendar (Suc (an_effect s)) (an_language s)),
       (Suc (an_next s), AtIndicators (Suc (an_effect s)))], an_next := Suc (Suc (an_next s))\<rparr>"
  by (simp add: load_news_def start_analytics_def Let_def)

lemma news_inv_load: "news_inv s \<Longrightarrow> news_inv (fst (load_news (s\<lparr>an_language := lang\<rparr>)))"
  unfolding load_news_state news_inv_def by (auto simp: fresh_table_append2 intro: news_task_ok_next)

lemma news_inv_fetch: "news_inv s \<Longrightarrow> news_inv (fst (fetch_analytics y s))"
  by (simp add: news_inv_def fetch_analytics_def start_analytics_def)

lemma news_inv_fields:
  "news_inv (s\<lparr>an_accounts := a\<rparr>) = news_inv s" "news_inv (s\<lparr>an_selected := b\<rparr>) = news_inv s"
  "news_inv (s\<lparr>an_period := c\<rparr>) = news_inv s" "news_inv (s\<lparr>an_year := d\<rparr>) = news_inv s"
  by (simp_all add: news_inv_def)

lemma news_inv_effects: "news_inv new \<Longrightarrow> news_inv (fst (analytics_effects y old new))"
  by (auto simp: analytics_effects_def auto_select_def Let_def news_inv_fields split: list.split intro: news_inv_fetch)

lemma news_inv_gone:
  assumes "news_inv s" and "map_of (an_tasks s) i = Some k"
    and "b \<longrightarrow> an_events_loading s \<and> \<not> is_calendar_of (an_effect s) k"
    and "c \<longrightarrow> an_indicators_loading s \<and> \<not> is_indicators_of (an_effect s) k"
    and "d \<longrightarrow> an_loading s \<and> \<not> is_account_task k"
  shows "news_inv (s\<lparr>an_tasks := AList.delete i (an_tasks s), an_events_loading := b, an_indicators_loading := c, an_loading := d\<rparr>)"
  using assms has_entry_delete [of "an_next s" "an_tasks s" _ i k]
  by (simp add: news_inv_def set_delete)

lemma news_inv_shown:
  "news_inv (s\<lparr>an_events := a\<rparr>) = news_inv s" "news_inv (s\<lparr>an_indicators := b\<rparr>) = news_inv s"
  "news_inv (s\<lparr>an_analytics := c\<rparr>) = news_inv s"
  by (simp_all add: news_inv_def)

lemma news_inv_answered: "news_inv s \<Longrightarrow> news_inv (analytics_answered i answer s)"
proof (cases "map_of (an_tasks s) i")
  case (Some k)
  assume inv: "news_inv s"
  note gone = news_inv_gone [OF inv Some]
  show ?thesis
  proof (cases k)
    case (AtAccount a y)
    then show ?thesis
      using inv Some gone [of "an_events_loading s" "an_indicators_loading s" False]
      by (cases answer) (simp_all add: analytics_answered_def Let_def news_inv_shown)
  next
    case (AtCalendar e lang)
    then show ?thesis
      using inv Some gone [of "an_events_loading s" "an_indicators_loading s" "an_loading s"]
        gone [of False "an_indicators_loading s" "an_loading s"]
      by (cases answer) (simp_all add: analytics_answered_def Let_def news_inv_shown)
  next
    case (AtIndicators e)
    then show ?thesis
      using inv Some gone [of "an_events_loading s" "an_indicators_loading s" "an_loading s"]
        gone [of "an_events_loading s" False "an_loading s"]
      by (cases answer) (simp_all add: analytics_answered_def Let_def news_inv_shown)
  qed
qed (simp add: analytics_answered_def Let_def)

lemma news_inv_step: "news_inv s \<Longrightarrow> news_inv (analytics_step y s a)"
  by (cases a) (auto simp: analytics_step_def analytics_out_def news_inv_fields
      intro!: news_inv_effects news_inv_answered news_inv_load)

lemma news_inv_mounted: "news_inv (fst (analytics_mounted y lang))"
  unfolding analytics_mounted_def load_news_state by (simp add: news_inv_def fresh_table_def)

interpretation analytics_news: machine "fst (analytics_mounted y lang)" "analytics_step y" news_inv
  by unfold_locales (rule news_inv_mounted, rule news_inv_step)

text \<open>Whatever fails, the page is not busy once nothing is outstanding.\<close>

theorem analytics_settles:
  "let s = run (analytics_step y) (fst (analytics_mounted y lang)) acts
   in an_tasks s = [] \<longrightarrow> \<not> an_loading s \<and> \<not> an_events_loading s \<and> \<not> an_indicators_loading s"
proof -
  have "news_inv (run (analytics_step y) (fst (analytics_mounted y lang)) acts)" by (rule analytics_news.inv_run)
  then show ?thesis by (simp add: news_inv_def Let_def) auto
qed

lemma news_of_user:
  assumes "news_of cal ind s" and "\<forall>i r. a \<noteq> AeAnswer i (AaNews r)"
  shows "news_of cal ind (analytics_step y s a)"
proof -
  have effects: "news_of cal ind (fst (analytics_effects y s s'))"
    if "an_events_loading s' = an_events_loading s" "an_events s' = an_events s" "an_language s' = an_language s"
      "an_indicators_loading s' = an_indicators_loading s" "an_indicators s' = an_indicators s" for s'
    using that assms(1)
    by (auto simp: news_of_def analytics_effects_def auto_select_def fetch_analytics_def start_analytics_def Let_def split: list.split)
  show ?thesis
  proof (cases a)
    case (AeAnswer i answer)
    with assms(2) obtain r where "answer = AaAccount r" by (cases answer) auto
    with AeAnswer assms(1) show ?thesis
      by (auto simp: analytics_step_def analytics_out_def analytics_answered_def Let_def news_of_def
          split: option.split analytics_task.split)
  next
    case (AeLanguage l)
    then show ?thesis
      using assms(1) by (simp add: analytics_step_def analytics_out_def load_news_state) (simp add: news_of_def)
  qed (simp_all add: analytics_step_def analytics_out_def effects)
qed

lemma news_of_deliver:
  assumes "news_inv s" "news_of cal ind s" "map_of (an_tasks s) i = Some k"
  shows "news_of cal ind (analytics_step y s (AeAnswer i (AaNews (Inr (news_answer cal ind k)))))"
proof -
  have "news_task_ok (an_effect s) (an_language s) k"
    using assms(1,3) by (force simp: news_inv_def dest!: map_of_SomeD)
  then show ?thesis
    using assms(2,3)
    by (cases k) (auto simp: analytics_step_def analytics_out_def analytics_answered_def Let_def news_of_def news_answer_def)
qed

lemma news_state_step: "news_state cal ind s \<Longrightarrow> news_state cal ind (news_step y cal ind s a)"
  unfolding news_state_def
  by (auto simp: news_step_def split: news_event.split analytics_event.split analytics_answer.split option.split
      intro: news_inv_step news_of_user news_of_deliver)

interpretation answered_news: machine "fst (analytics_mounted y lang)" "news_step y cal ind" "news_state cal ind"
  by unfold_locales
    (simp add: news_state_def news_inv_mounted, simp add: news_of_def analytics_mounted_def load_news_state, rule news_state_step)

text \<open>
  C34. In whatever order the answers come, the calendar that is shown when the page is not busy is that of the
  language that is set: the answers for a language that was left are not used.
\<close>

theorem calendar_of_current_language:
  fixes y cal ind lang acts
  defines "s \<equiv> run (news_step y cal ind) (fst (analytics_mounted y lang)) acts"
  assumes "an_tasks s = [] \<or> \<not> an_events_loading s"
  shows "an_events s = take 50 (calendar_events (cal (an_language s)))"
proof -
  have "news_state cal ind s" unfolding s_def by (rule answered_news.inv_run)
  then show ?thesis using assms(2) by (auto simp: news_state_def news_inv_def news_of_def)
qed

subsection \<open>The account\<close>

text \<open>The chosen period is in no request: choosing another one asks for the same data again.\<close>

theorem period_asks_for_the_same:
  assumes "truthy (an_selected s)" and "p \<noteq> an_period s"
  shows "analytics_calls y s (AePeriod p) =
    [AcAccount (account_request (an_selected s)), AcMonthly (monthly_request (an_selected s) y (an_year s))]"
  using assms by (auto simp: analytics_calls_def analytics_out_def analytics_effects_def auto_select_def fetch_analytics_def Let_def
      split: list.split)

text \<open>The analytics of the account that was left replace those of the account that is chosen.\<close>

theorem late_analytics_of_other_account:
  fixes y lang a b ra rb
  assumes "truthy (jget ''id'' a)" "truthy b" "b \<noteq> jget ''id'' a"
  defines "s \<equiv> run (analytics_step y) (fst (analytics_mounted y lang))
    [AeAccounts [a], AeSelect b, AeAnswer 3 (AaAccount (Inr rb)), AeAnswer 2 (AaAccount (Inr ra))]"
  shows "an_selected s = b \<and> an_analytics s = merged_analytics (fst ra) (snd ra) \<and> \<not> an_loading s"
proof -
  let ?s0 = "fst (analytics_mounted y lang)"
  have s0: "an_accounts ?s0 = []" "an_selected ?s0 = JNull" "an_next ?s0 = 2"
      "an_tasks ?s0 = [(0, AtCalendar 1 lang), (1, AtIndicators 1)]"
    by (simp_all add: analytics_mounted_def load_news_state)
  have s1: "analytics_step y ?s0 (AeAccounts [a]) = ?s0\<lparr>an_accounts := [a], an_selected := jget ''id'' a, an_loading := True,
      an_tasks := [(0, AtCalendar 1 lang), (1, AtIndicators 1), (2, AtAccount (jget ''id'' a) (an_year ?s0))], an_next := 3\<rparr>"
    (is "_ = ?s1")
    using assms(1) s0 by (auto simp: analytics_step_def analytics_out_def analytics_effects_def auto_select_def Let_def
        fetch_analytics_def start_analytics_def)
  have s2: "analytics_step y ?s1 (AeSelect b) = ?s1\<lparr>an_selected := b, an_tasks := [(0, AtCalendar 1 lang), (1, AtIndicators 1),
      (2, AtAccount (jget ''id'' a) (an_year ?s0)), (3, AtAccount b (an_year ?s0))], an_next := 4\<rparr>"
    using assms(2,3) by (simp add: analytics_step_def analytics_out_def analytics_effects_def auto_select_def Let_def
        fetch_analytics_def start_analytics_def)
  show ?thesis
    by (cases ra; cases rb)
      (simp add: s_def s1 s2 analytics_step_def [of _ _ "AeAnswer _ _"] analytics_out_def analytics_answered_def Let_def
          del: One_nat_def)
qed

subsection \<open>Examples\<close>

theorem period_asks_for_the_same_witness:
  "length (analytics_calls 2024 (fst (analytics_mounted 2024 ''en'')\<lparr>an_selected := JStr ''a''\<rparr>) (AePeriod ''week'')) = 2"
proof -
  have "truthy (an_selected (fst (analytics_mounted 2024 ''en'')\<lparr>an_selected := JStr ''a''\<rparr>))"
    "''week'' \<noteq> an_period (fst (analytics_mounted 2024 ''en'')\<lparr>an_selected := JStr ''a''\<rparr>)"
    by (simp_all add: analytics_mounted_def load_news_state)
  from period_asks_for_the_same [OF this] show ?thesis by simp
qed

theorem late_analytics_of_other_account_witness:
  "an_selected (run (analytics_step 2024) (fst (analytics_mounted 2024 ''en''))
     [AeAccounts [JObj [(''id'', JStr ''a'')]], AeSelect (JStr ''b''), AeAnswer 3 (AaAccount (Inr (JNull, JNull))),
      AeAnswer 2 (AaAccount (Inr (JObj [], JNull)))]) = JStr ''b''"
proof -
  have "truthy (jget ''id'' (JObj [(''id'', JStr ''a'')]))" "truthy (JStr ''b'')" "JStr ''b'' \<noteq> jget ''id'' (JObj [(''id'', JStr ''a'')])"
    by (simp_all add: jget_def)
  from late_analytics_of_other_account [OF this] show ?thesis by simp
qed

definition demo_calendar :: "string \<Rightarrow> jv" where
  "demo_calendar lang = JObj [(''events'', JArr [JObj [(''title'', JStr lang), (''timestamp'', JNum (Fin 0))]])]"

definition demo_news :: "news_event list" where
  "demo_news = [NeUser (AeLanguage ''de''), NeDeliver 2, NeDeliver 0]"

lemma demo_news_facts:
  defines "s \<equiv> run (news_step 2024 demo_calendar JNull) (fst (analytics_mounted 2024 ''en'')) demo_news"
  shows "\<not> an_events_loading s" "an_language s = ''de''"
    "List.map (jget ''title'') (take 50 (calendar_events (demo_calendar ''de''))) = [JStr ''de'']"
  unfolding s_def by code_simp+

theorem calendar_of_current_language_witness:
  "List.map (jget ''title'')
     (an_events (run (news_step 2024 demo_calendar JNull) (fst (analytics_mounted 2024 ''en'')) demo_news)) = [JStr ''de'']"
  using calendar_of_current_language [of 2024 demo_calendar JNull "''en''" demo_news] demo_news_facts by simp

end
