(* ===== verification/AdminConfig.thy ===== *)
theory AdminConfig
  imports Effects TaskTable Json
begin

text \<open>
  The configuration page of the administration (\<open>pages/admin/SystemConfig.tsx\<close>) with the calls of its client
  (\<open>client/admin.ts\<close>).  The messages of the page, which are fixed Chinese texts, are named by what they say.
\<close>

subsection \<open>JSON with indentation\<close>

text \<open>\<open>JSON.stringify(v, null, 2)\<close>; \<open>n\<close> is the indentation of the line in which the value starts.\<close>

definition json_block :: "string \<Rightarrow> string \<Rightarrow> nat \<Rightarrow> string list \<Rightarrow> string" where
  "json_block l r n items =
     (if items = [] then l @ r
      else l @ newline @ js_join ('','' @ newline) (List.map (\<lambda>x. replicate (n + 2) (CHR '' '') @ x) items) @
        newline @ replicate n (CHR '' '') @ r)"

fun json_pretty :: "nat \<Rightarrow> jv \<Rightarrow> string" where
  "json_pretty n (JArr xs) = json_block ''['' '']'' n (List.map (json_pretty (n + 2)) xs)"
| "json_pretty n (JObj fs) =
     json_block ''{'' ''}'' n (List.map (\<lambda>(k, v). json_quote k @ '': '' @ json_pretty (n + 2) v)
                                  (List.filter (\<lambda>(k, v). v \<noteq> JUndef) fs))"
| "json_pretty n v = json_print v"

subsection \<open>The client\<close>

definition set_config_request :: "jv \<Rightarrow> jv \<Rightarrow> jv" where
  "set_config_request key params =
     JObj [(''key'', key), (''value'', jget ''value'' params), (''description'', jget ''description'' params)]"

definition toggle_config_request :: "jv \<Rightarrow> bool \<Rightarrow> jv" where
  "toggle_config_request key enabled = JObj [(''key'', key), (''enabled'', JBool enabled)]"

subsection \<open>The page\<close>

datatype config_kind = CkCatalog | CkTranslation | CkHealth | CkPlain

definition kind_of_key :: "jv \<Rightarrow> config_kind" where
  "kind_of_key key =
     (if key = JStr ''ai.provider_catalog'' then CkCatalog
      else if key = JStr ''econ.translation.ai_config'' then CkTranslation
      else if key = JStr ''strategy.schedule.health_grading_config'' then CkHealth else CkPlain)"

definition listed_keys :: "jv list" where
  "listed_keys = [JStr ''max_accounts_per_user'', JStr ''ai.provider_catalog'', JStr ''econ.translation.ai_config'',
     JStr ''strategy.schedule.health_grading_config'']"

datatype config_notice =
    CnUpdated
  | CnEmptyJson
  | CnBadJson
  | CnBadRate string
  | CnRateOrder
  | CnBadCount string
  | CnNoApiKey
  | CnNoModel
  | CnToggled bool
  | CnFailed string

datatype config_task = CtList | CtSave | CtToggle bool

record config_page =
  cg_configs :: "jv list"
  cg_loading :: bool
  cg_open :: bool
  cg_current :: jv
  cg_form :: jv
  cg_tasks :: "(nat \<times> config_task) list"
  cg_next :: nat

datatype config_effect = CeList | CeSet jv | CeToggle jv | CeNotice config_notice

definition start_config :: "config_task \<Rightarrow> config_page \<Rightarrow> config_page" where
  "start_config k s = s\<lparr>cg_tasks := cg_tasks s @ [(cg_next s, k)], cg_next := Suc (cg_next s)\<rparr>"

definition fetch_configs :: "config_page \<Rightarrow> config_page \<times> config_effect list" where
  "fetch_configs s = (start_config CtList (s\<lparr>cg_loading := True\<rparr>), [CeList])"

definition config_page_mounted :: "config_page \<times> config_effect list" where
  "config_page_mounted = fetch_configs
     \<lparr>cg_configs = [], cg_loading = True, cg_open = False, cg_current = JNull, cg_form = JObj [], cg_tasks = [], cg_next = 0\<rparr>"

definition translation_defaults :: jv where
  "translation_defaults = JObj
     [(''provider'', JStr ''zhipu''), (''api_key'', JStr []), (''model'', JStr ''glm-4-flash''), (''base_url'', JStr []),
      (''enabled'', JBool True)]"

definition translation_initial :: "jv \<Rightarrow> jv" where
  "translation_initial config =
     (let raw = js_trim (js_string (js_or (jget ''value'' config) (JStr [])))
      in if raw = [] then translation_defaults
         else case json_parse raw of
             Some parsed \<Rightarrow> if is_object parsed then jspread translation_defaults parsed else translation_defaults
           | None \<Rightarrow> translation_defaults)"

definition set_fields :: "(string \<times> jv) list \<Rightarrow> jv \<Rightarrow> jv" where
  "set_fields fs form = jspread form (JObj fs)"

definition handle_edit :: "jv \<Rightarrow> config_page \<Rightarrow> config_page" where
  "handle_edit config s =
     (let fields = (if kind_of_key (jget ''key'' config) = CkTranslation
                    then (let initial = translation_initial config
                          in List.map (\<lambda>k. (k, jget k initial)) [''provider'', ''api_key'', ''model'', ''base_url'', ''enabled''])
                    else [(''value'', jget ''value'' config)])
      in s\<lparr>cg_current := config, cg_open := True,
           cg_form := set_fields (fields @ [(''description'', jget ''description'' config)]) (cg_form s)\<rparr>)"

definition entered :: "string \<Rightarrow> jv \<Rightarrow> string" where
  "entered k values = js_trim (js_string (js_or (jget k values) (JStr [])))"

text \<open>\<open>Number(v)\<close>; an array is read through its text.\<close>

definition to_number :: "jv \<Rightarrow> jsnum" where
  "to_number v = (case v of JArr _ \<Rightarrow> number_of_string (js_string v) | _ \<Rightarrow> js_number v)"

definition rate_ok :: "jsnum \<Rightarrow> bool" where
  "rate_ok n \<longleftrightarrow> num_finite n \<and> \<not> n < Fin 0 \<and> \<not> Fin 100 < n"

definition count_ok :: "jsnum \<Rightarrow> bool" where
  "count_ok n \<longleftrightarrow> num_finite n \<and> \<not> n < Fin 0"

definition health_check_value :: "string \<Rightarrow> config_notice option" where
  "health_check_value raw =
     (if raw = [] then Some CnEmptyJson
      else case json_parse raw of
          None \<Rightarrow> Some CnBadJson
        | Some parsed \<Rightarrow>
            (let field = (\<lambda>k. to_number (jget k parsed));
                 green = field ''green_success_rate''; yellow = field ''yellow_success_rate''
             in if \<not> rate_ok green then Some (CnBadRate ''green_success_rate'')
                else if \<not> rate_ok yellow then Some (CnBadRate ''yellow_success_rate'')
                else if green < yellow then Some CnRateOrder
                else if \<not> count_ok (field ''green_max_failed_runs'') then Some (CnBadCount ''green_max_failed_runs'')
                else if \<not> count_ok (field ''min_sample_size'') then Some (CnBadCount ''min_sample_size'')
                else None))"

definition translation_value :: "jv \<Rightarrow> jv" where
  "translation_value values = JObj
     [(''provider'', JStr (js_trim (js_string (js_or (jget ''provider'' values) (JStr ''zhipu''))))),
      (''api_key'', JStr (entered ''api_key'' values)), (''model'', JStr (entered ''model'' values)),
      (''base_url'', JStr (entered ''base_url'' values)), (''enabled'', JBool (jget ''enabled'' values \<noteq> JBool False))]"

text \<open>What saving does with the entered values: a message, a request, or neither.\<close>

definition config_save_request :: "jv \<Rightarrow> jv \<Rightarrow> config_notice + jv option" where
  "config_save_request current values =
     (case kind_of_key (jget ''key'' current) of
        CkCatalog \<Rightarrow>
          (let raw = entered ''value'' values
           in if raw = [] then Inl CnEmptyJson else if json_parse raw = None then Inl CnBadJson else Inr None)
      | CkHealth \<Rightarrow> (case health_check_value (entered ''value'' values) of Some m \<Rightarrow> Inl m | None \<Rightarrow> Inr None)
      | CkTranslation \<Rightarrow>
          if entered ''api_key'' values = [] then Inl CnNoApiKey
          else if entered ''model'' values = [] then Inl CnNoModel
          else Inr (Some (set_config_request (jget ''key'' current) (JObj
            [(''value'', JStr (json_print (translation_value values))),
             (''description'', js_or (jget ''description'' values) (js_or (jget ''description'' current) (JStr [])))])))
      | CkPlain \<Rightarrow> Inr (Some (set_config_request (jget ''key'' current) values)))"

definition config_saved_ok :: "config_page \<Rightarrow> config_page \<times> config_effect list" where
  "config_saved_ok s = (let (s, out) = fetch_configs (s\<lparr>cg_open := False\<rparr>) in (s, CeNotice CnUpdated # out))"

definition handle_save_config :: "jv \<Rightarrow> config_page \<Rightarrow> config_page \<times> config_effect list" where
  "handle_save_config values s =
     (if \<not> truthy (cg_current s) then (s, [])
      else case config_save_request (cg_current s) values of
          Inl m \<Rightarrow> (s, [CeNotice m])
        | Inr None \<Rightarrow> config_saved_ok s
        | Inr (Some r) \<Rightarrow> (start_config CtSave s, [CeSet r]))"

text \<open>The fields of the form that the kind of the current configuration shows, and their rules.\<close>

definition config_fields :: "config_kind \<Rightarrow> string list" where
  "config_fields k =
     (if k = CkTranslation then [''provider'', ''api_key'', ''model'', ''base_url'', ''enabled'', ''description'']
      else [''value'', ''description''])"

definition required_fields :: "config_kind \<Rightarrow> string list" where
  "required_fields k = (if k = CkTranslation then [''provider'', ''api_key'', ''model''] else [''value''])"

definition config_values :: "config_page \<Rightarrow> jv" where
  "config_values s = JObj (List.map (\<lambda>k. (k, jget k (cg_form s))) (config_fields (kind_of_key (jget ''key'' (cg_current s)))))"

definition submit_config :: "config_page \<Rightarrow> config_page \<times> config_effect list" where
  "submit_config s =
     (if list_all (\<lambda>k. jget k (cg_form s) \<notin> {JUndef, JNull, JStr []}) (required_fields (kind_of_key (jget ''key'' (cg_current s))))
      then handle_save_config (config_values s) s else (s, []))"

definition handle_format_json :: "config_page \<Rightarrow> config_page \<times> config_effect list" where
  "handle_format_json s =
     (let raw = entered ''value'' (cg_form s)
      in if \<not> truthy (cg_current s) \<or> kind_of_key (jget ''key'' (cg_current s)) \<notin> {CkCatalog, CkHealth} \<or> raw = [] then (s, [])
         else case json_parse raw of
             None \<Rightarrow> (s, [CeNotice CnBadJson])
           | Some v \<Rightarrow> (s\<lparr>cg_form := set_fields [(''value'', JStr (json_pretty 0 v))] (cg_form s)\<rparr>, []))"

definition health_template :: jv where
  "health_template = JObj
     [(''green_success_rate'', JNum (Fin 90)), (''green_max_failed_runs'', JNum (Fin 1)),
      (''yellow_success_rate'', JNum (Fin 60)), (''min_sample_size'', JNum (Fin 1))]"

definition handle_use_template :: "config_page \<Rightarrow> config_page" where
  "handle_use_template s =
     (if kind_of_key (jget ''key'' (cg_current s)) = CkHealth
      then s\<lparr>cg_form := set_fields [(''value'', JStr (json_pretty 0 health_template))] (cg_form s)\<rparr> else s)"

text \<open>The texts of the code for calls that failed, in Chinese.\<close>

fun config_failed_text :: "config_task \<Rightarrow> string" where
  "config_failed_text CtList =
    [CHR 0xE5, CHR 0x8A, CHR 0xA0, CHR 0xE8, CHR 0xBD, CHR 0xBD, CHR 0xE9, CHR 0x85, CHR 0x8D, CHR 0xE7, CHR 0xBD, CHR 0xAE,
     CHR 0xE5, CHR 0xA4, CHR 0xB1, CHR 0xE8, CHR 0xB4, CHR 0xA5]"
| "config_failed_text CtSave =
    [CHR 0xE6, CHR 0x9B, CHR 0xB4, CHR 0xE6, CHR 0x96, CHR 0xB0, CHR 0xE5, CHR 0xA4, CHR 0xB1, CHR 0xE8, CHR 0xB4, CHR 0xA5]"
| "config_failed_text (CtToggle _) =
    [CHR 0xE6, CHR 0x93, CHR 0x8D, CHR 0xE4, CHR 0xBD, CHR 0x9C, CHR 0xE5, CHR 0xA4, CHR 0xB1, CHR 0xE8, CHR 0xB4, CHR 0xA5]"

definition configs_answered :: "(string \<Rightarrow> string) \<Rightarrow> nat \<Rightarrow> jv outcome \<Rightarrow> config_page \<Rightarrow> config_page \<times> config_effect list" where
  "configs_answered t i answer s =
     (let gone = s\<lparr>cg_tasks := AList.delete i (cg_tasks s)\<rparr>;
          failed = (\<lambda>e k. CeNotice (CnFailed (get_error_message t e k)))
      in case (map_of (cg_tasks s) i, answer) of
           (Some CtList, Inr configs) \<Rightarrow>
             (gone\<lparr>cg_loading := False,
               cg_configs := filter (\<lambda>c. jget ''key'' c \<in> set listed_keys) (jv_list (js_or configs (JArr [])))\<rparr>, [])
         | (Some CtList, Inl e) \<Rightarrow> (gone\<lparr>cg_loading := False\<rparr>, [failed e (config_failed_text CtList)])
         | (Some CtSave, Inr _) \<Rightarrow> config_saved_ok gone
         | (Some CtSave, Inl e) \<Rightarrow> (gone, [failed e (config_failed_text CtSave)])
         | (Some (CtToggle b), Inr _) \<Rightarrow> (let (s, out) = fetch_configs gone in (s, CeNotice (CnToggled b) # out))
         | (Some (CtToggle b), Inl e) \<Rightarrow> (gone, [failed e (config_failed_text (CtToggle b))])
         | (None, _) \<Rightarrow> (s, []))"

datatype config_event =
    CvEdit jv
  | CvField string jv
  | CvSubmit
  | CvFormat
  | CvTemplate
  | CvCancel
  | CvToggle jv bool
  | CvAnswer nat "jv outcome"

text \<open>The dialog covers the table while it is open.\<close>

definition config_out :: "(string \<Rightarrow> string) \<Rightarrow> config_page \<Rightarrow> config_event \<Rightarrow> config_page \<times> config_effect list" where
  "config_out t s a =
     (case a of
        CvEdit config \<Rightarrow> if cg_open s \<or> config \<notin> set (cg_configs s) then (s, []) else (handle_edit config s, [])
      | CvField k v \<Rightarrow>
          if cg_open s \<and> k \<in> set (config_fields (kind_of_key (jget ''key'' (cg_current s))))
          then (s\<lparr>cg_form := set_fields [(k, v)] (cg_form s)\<rparr>, []) else (s, [])
      | CvSubmit \<Rightarrow> if cg_open s then submit_config s else (s, [])
      | CvFormat \<Rightarrow> if cg_open s then handle_format_json s else (s, [])
      | CvTemplate \<Rightarrow> if cg_open s then (handle_use_template s, []) else (s, [])
      | CvCancel \<Rightarrow> (s\<lparr>cg_open := False\<rparr>, [])
      | CvToggle key b \<Rightarrow>
          if cg_open s then (s, []) else (start_config (CtToggle b) s, [CeToggle (toggle_config_request key b)])
      | CvAnswer i answer \<Rightarrow> configs_answered t i answer s)"

definition config_step :: "(string \<Rightarrow> string) \<Rightarrow> config_page \<Rightarrow> config_event \<Rightarrow> config_page" where
  "config_step t s a = fst (config_out t s a)"

definition config_shown :: "(string \<Rightarrow> string) \<Rightarrow> config_page \<Rightarrow> config_event \<Rightarrow> config_effect list" where
  "config_shown t s a = snd (config_out t s a)"


subsection \<open>What is saved\<close>

lemma kind_of_key_eq:
  "kind_of_key key = CkCatalog \<longleftrightarrow> key = JStr ''ai.provider_catalog''"
  "kind_of_key key = CkHealth \<longleftrightarrow> key = JStr ''strategy.schedule.health_grading_config''"
  by (auto simp: kind_of_key_def)

lemma jget_map: "jget k (JObj (List.map (\<lambda>k. (k, f k)) ks)) = (if k \<in> set ks then f k else JUndef)"
  by (induction ks) (auto simp: jget_def)

lemma fetch_configs_out: "snd (fetch_configs s) = [CeList]" "cg_open (fst (fetch_configs s)) = cg_open s"
  by (simp_all add: fetch_configs_def start_config_def)

lemma config_saved_out:
  "snd (config_saved_ok s) = [CeNotice CnUpdated, CeList]" "\<not> cg_open (fst (config_saved_ok s))"
  by (simp_all add: config_saved_ok_def split_beta fetch_configs_out)

lemma checked_key_not_sent:
  assumes "CeSet r \<in> set (config_shown t s a)"
  shows "jget ''key'' r \<noteq> JStr ''ai.provider_catalog'' \<and> jget ''key'' r \<noteq> JStr ''strategy.schedule.health_grading_config''"
proof -
  have key: "jget ''key'' (set_config_request k v) = k" for k v by (simp add: set_config_request_def jget_def)
  have sent: "kind_of_key (jget ''key'' r) \<in> {CkTranslation, CkPlain}" if "config_save_request c vs = Inr (Some r)" for c vs
    using that by (auto simp: config_save_request_def Let_def key split: config_kind.splits option.splits if_splits)
  have "\<exists>c vs. config_save_request c vs = Inr (Some r)"
    using assms
    by (cases a) (auto simp: config_shown_def config_out_def submit_config_def handle_save_config_def handle_format_json_def
        configs_answered_def config_saved_out fetch_configs_out split_beta Let_def
        split: if_splits sum.splits option.splits config_task.splits)
  then show ?thesis using sent kind_of_key_eq [of "jget ''key'' r"] by force
qed

text \<open>The text that is entered passes the check of its configuration.\<close>

definition passes_check :: "string \<Rightarrow> jv \<Rightarrow> bool" where
  "passes_check k form =
     (let raw = entered ''value'' form
      in if k = ''ai.provider_catalog'' then raw \<noteq> [] \<and> json_parse raw \<noteq> None else health_check_value raw = None)"

text \<open>
  C23. The two configurations whose JSON is checked, the provider catalogue and the health grading, are never stored: a
  text that passes the check is reported as updated, the dialog closes and the list is read again, and no request to
  set a configuration that the page sends, in any state and for any event, is for that one.
\<close>

theorem checked_configs_never_sent:
  assumes "cg_open s" "truthy (cg_current s)" "jget ''key'' (cg_current s) = JStr k"
    and k: "k \<in> {''ai.provider_catalog'', ''strategy.schedule.health_grading_config''}"
    and "passes_check k (cg_form s)"
  shows "config_shown t s CvSubmit = [CeNotice CnUpdated, CeList] \<and> \<not> cg_open (config_step t s CvSubmit) \<and>
    (\<nexists>s' a r. CeSet r \<in> set (config_shown t s' a) \<and> jget ''key'' r = JStr k)"
proof -
  have kind: "kind_of_key (JStr k) = (if k = ''ai.provider_catalog'' then CkCatalog else CkHealth)"
    using k by (auto simp: kind_of_key_eq kind_of_key_def)
  have "entered ''value'' (cg_form s) \<noteq> []"
    using assms(5) by (auto simp: passes_check_def health_check_value_def Let_def split: if_splits)
  then have "jget ''value'' (cg_form s) \<notin> {JUndef, JNull, JStr []}" by (auto simp: entered_def js_or_def)
  moreover have "entered ''value'' (config_values s) = entered ''value'' (cg_form s)"
    by (simp add: entered_def config_values_def assms(3) kind config_fields_def jget_map del: list.map)
  ultimately have "config_shown t s CvSubmit = [CeNotice CnUpdated, CeList]" "\<not> cg_open (config_step t s CvSubmit)"
    using assms(1-3,5) k
    by (auto simp: config_shown_def config_step_def config_out_def submit_config_def required_fields_def handle_save_config_def
        config_save_request_def config_saved_out kind passes_check_def Let_def split: if_splits)
  then show ?thesis using checked_key_not_sent k by blast
qed

text \<open>The thresholds that pass the check are ordered percentages and counts that are not negative.\<close>

theorem accepted_grading:
  assumes "health_check_value raw = None"
  shows "\<exists>parsed g y f m. json_parse raw = Some parsed \<and>
    to_number (jget ''green_success_rate'' parsed) = Fin g \<and> to_number (jget ''yellow_success_rate'' parsed) = Fin y \<and>
    to_number (jget ''green_max_failed_runs'' parsed) = Fin f \<and> to_number (jget ''min_sample_size'' parsed) = Fin m \<and>
    0 \<le> y \<and> y \<le> g \<and> g \<le> 100 \<and> 0 \<le> f \<and> 0 \<le> m"
proof -
  have fin: "num_finite n \<Longrightarrow> \<exists>q. n = Fin q" for n by (cases n) auto
  obtain parsed where p: "json_parse raw = Some parsed"
    using assms by (auto simp: health_check_value_def split: if_splits option.splits)
  have ok: "rate_ok (to_number (jget ''green_success_rate'' parsed))" "rate_ok (to_number (jget ''yellow_success_rate'' parsed))"
      "\<not> to_number (jget ''green_success_rate'' parsed) < to_number (jget ''yellow_success_rate'' parsed)"
      "count_ok (to_number (jget ''green_max_failed_runs'' parsed))" "count_ok (to_number (jget ''min_sample_size'' parsed))"
    using assms p by (auto simp: health_check_value_def Let_def split: if_splits)
  then obtain g y f m where "to_number (jget ''green_success_rate'' parsed) = Fin g" "to_number (jget ''yellow_success_rate'' parsed) = Fin y"
      "to_number (jget ''green_max_failed_runs'' parsed) = Fin f" "to_number (jget ''min_sample_size'' parsed) = Fin m"
    using fin unfolding rate_ok_def count_ok_def by metis
  with ok p show ?thesis by (simp add: rate_ok_def count_ok_def not_less)
qed

subsection \<open>Opening what was saved\<close>

lemma js_trim_object: "js_trim (json_print (JObj fs)) = json_print (JObj fs)"
proof -
  have "js_trim (CHR ''{'' # s @ [CHR ''}'']) = CHR ''{'' # s @ [CHR ''}'']" for s
    by (simp add: js_trim_def js_ws_def)
  then show ?thesis by simp
qed

text \<open>C32. A translation configuration that was saved is opened with the values with which it was saved.\<close>

theorem translation_roundtrip:
  assumes "jget ''key'' current = JStr ''econ.translation.ai_config''" and "config_save_request current values = Inr (Some r)"
  shows "translation_initial r = translation_value values"
proof -
  let ?v = "translation_value values"
  have "kind_of_key (jget ''key'' current) = CkTranslation" using assms(1) by (simp add: kind_of_key_def)
  then have r: "jget ''value'' r = JStr (json_print ?v)"
    using assms(2) by (auto simp: config_save_request_def Let_def set_config_request_def jget_def split: if_splits)
  have parse: "json_parse (json_print ?v) = Some ?v"
    by (rule json_parse_print) (simp add: translation_value_def)
  have "js_trim (json_print ?v) = json_print ?v" unfolding translation_value_def by (rule js_trim_object)
  moreover have "json_print ?v \<noteq> []" by (simp add: translation_value_def)
  moreover have "is_object ?v" "jspread translation_defaults ?v = ?v"
    by (simp_all add: translation_value_def translation_defaults_def jspread_def)
  ultimately show ?thesis
    by (simp add: translation_initial_def r js_or_def parse Let_def)
qed


subsection \<open>The busy mark\<close>

definition config_inv :: "config_page \<Rightarrow> bool" where
  "config_inv s \<longleftrightarrow> fresh_table (cg_next s) (cg_tasks s) \<and> (cg_loading s \<longrightarrow> has_entry ((=) CtList) (cg_tasks s))"

lemma config_inv_fetch: "fresh_table (cg_next s) (cg_tasks s) \<Longrightarrow> config_inv (fst (fetch_configs s))"
  by (simp add: config_inv_def fetch_configs_def start_config_def)

lemma config_inv_saved: "fresh_table (cg_next s) (cg_tasks s) \<Longrightarrow> config_inv (fst (config_saved_ok s))"
  using config_inv_fetch [of "s\<lparr>cg_open := False\<rparr>"] by (simp add: config_saved_ok_def split_beta)

lemma config_inv_start: "config_inv s \<Longrightarrow> config_inv (start_config k s)"
  by (simp add: config_inv_def start_config_def)

lemma config_inv_fields:
  "config_inv (s\<lparr>cg_open := a\<rparr>) = config_inv s" "config_inv (s\<lparr>cg_form := b\<rparr>) = config_inv s"
  "config_inv (s\<lparr>cg_current := c\<rparr>) = config_inv s" "config_inv (s\<lparr>cg_configs := d\<rparr>) = config_inv s"
  by (simp_all add: config_inv_def)

lemma config_inv_submit: "config_inv s \<Longrightarrow> config_inv (fst (submit_config s))"
  by (auto simp: submit_config_def handle_save_config_def split: sum.split option.split 
      intro!: config_inv_saved config_inv_start) (simp add: config_inv_def)

lemma config_inv_answered:
  assumes "config_inv s"
  shows "config_inv (fst (configs_answered t i answer s))"
proof (cases "map_of (cg_tasks s) i")
  case (Some k)
  have fresh: "fresh_table (cg_next s) (AList.delete i (cg_tasks s))" using assms by (simp add: config_inv_def)
  have other: "config_inv (s\<lparr>cg_tasks := AList.delete i (cg_tasks s)\<rparr>)" if "k \<noteq> CtList"
    using assms Some that has_entry_delete [of "cg_next s" "cg_tasks s" "(=) CtList" i k]
    by (auto simp: config_inv_def)
  show ?thesis
    using Some fresh other
    by (cases k; cases answer) (auto simp: configs_answered_def Let_def split_beta config_inv_fields
        intro!: config_inv_saved config_inv_fetch, simp_all add: config_inv_def)
qed (use assms in \<open>simp add: configs_answered_def Let_def\<close>)

lemma config_inv_step: "config_inv s \<Longrightarrow> config_inv (config_step t s a)"
  by (cases a) (auto simp: config_step_def config_out_def handle_edit_def handle_format_json_def handle_use_template_def Let_def
      config_inv_fields split: option.split intro!: config_inv_submit config_inv_answered config_inv_start)

interpretation config_machine: machine "fst config_page_mounted" "config_step t" config_inv
  by unfold_locales (simp add: config_page_mounted_def config_inv_fetch, rule config_inv_step)

text \<open>The list is shown as loading only while an answer to a list request is waited for.\<close>

theorem config_loading_ends:
  "cg_loading (run (config_step t) (fst config_page_mounted) acts) \<longrightarrow>
   has_entry ((=) CtList) (cg_tasks (run (config_step t) (fst config_page_mounted) acts))"
  using config_machine.inv_run [of t acts] by (simp add: config_inv_def)

subsection \<open>Examples\<close>

text \<open>The template that the page offers passes its check.\<close>

lemma template_accepted: "health_check_value (js_trim (json_pretty 0 health_template)) = None"
  by code_simp

definition demo_grading :: config_page where
  "demo_grading = handle_use_template (handle_edit
     (JObj [(''key'', JStr ''strategy.schedule.health_grading_config''), (''value'', JStr [])]) (fst config_page_mounted))"

lemma demo_grading_fields:
  "cg_open demo_grading" "jget ''key'' (cg_current demo_grading) = JStr ''strategy.schedule.health_grading_config''"
  "truthy (cg_current demo_grading)" "jget ''value'' (cg_form demo_grading) = JStr (json_pretty 0 health_template)"
  by (simp_all add: demo_grading_def handle_use_template_def handle_edit_def kind_of_key_def set_fields_def jspread_def jget_def
      Let_def config_page_mounted_def fetch_configs_def start_config_def)

theorem accepted_grading_witness:
  "\<exists>parsed g. json_parse (js_trim (json_pretty 0 health_template)) = Some parsed \<and>
     to_number (jget ''green_success_rate'' parsed) = Fin g \<and> g \<le> 100"
  using accepted_grading [OF template_accepted] by blast

definition demo_translation :: jv where
  "demo_translation = JObj [(''key'', JStr ''econ.translation.ai_config'')]"

definition demo_translation_values :: jv where
  "demo_translation_values = JObj [(''provider'', JStr ''zhipu''), (''api_key'', JStr '' k1 ''), (''model'', JStr ''glm'')]"

theorem translation_roundtrip_witness:
  "\<exists>r. translation_initial r = JObj [(''provider'', JStr ''zhipu''), (''api_key'', JStr ''k1''), (''model'', JStr ''glm''),
     (''base_url'', JStr []), (''enabled'', JBool True)]"
proof -
  have v: "translation_value demo_translation_values = JObj [(''provider'', JStr ''zhipu''), (''api_key'', JStr ''k1''),
      (''model'', JStr ''glm''), (''base_url'', JStr []), (''enabled'', JBool True)]" by code_simp
  have e: "entered ''api_key'' demo_translation_values = ''k1''" "entered ''model'' demo_translation_values = ''glm''" by code_simp+
  have key: "jget ''key'' demo_translation = JStr ''econ.translation.ai_config''" by (simp add: demo_translation_def jget_def)
  obtain r where "config_save_request demo_translation demo_translation_values = Inr (Some r)"
    by (simp add: config_save_request_def key kind_of_key_def e)
  from translation_roundtrip [OF key this] show ?thesis by (auto simp: v)
qed

theorem checked_configs_never_sent_witness:
  "config_shown id demo_grading CvSubmit = [CeNotice CnUpdated, CeList] \<and>
   (\<nexists>s' a r. CeSet r \<in> set (config_shown id s' a) \<and> jget ''key'' r = JStr ''strategy.schedule.health_grading_config'')"
proof -
  have "passes_check ''strategy.schedule.health_grading_config'' (cg_form demo_grading)"
    using template_accepted unfolding passes_check_def entered_def demo_grading_fields js_or_def Let_def
    by (cases "json_pretty 0 health_template = []") (simp_all del: json_pretty.simps)
  with checked_configs_never_sent [OF demo_grading_fields(1,3,2), of id] show ?thesis by simp
qed

end
