(* ===== verification/AdminUsers.thy ===== *)
theory AdminUsers
  imports ScheduleEdit TaskTable
begin

text \<open>
  The user list of the administration (\<open>pages/admin/UserManagement.tsx\<close>) with the calls of its client
  (\<open>client/admin.ts\<close>): filters and pages, creating, changing, disabling and deleting users, and the dialog
  for a new password.  The default text of a failed load is fixed and in Chinese; the model names it by what
  it says.  The length of a password is counted in code points, as the form library does.
\<close>

subsection \<open>The client\<close>

definition pick :: "string list \<Rightarrow> jv \<Rightarrow> (string \<times> jv) list" where
  "pick ks v = List.map (\<lambda>k. (k, jget k v)) ks"

definition list_users_request :: "jv \<Rightarrow> jv" where
  "list_users_request params = JObj
     ([(''page'', js_or (jget ''page'' params) (JNum (Fin 1))), (''pageSize'', js_or (jget ''pageSize'' params) (JNum (Fin 10)))] @
      pick [''search'', ''status'', ''role''] params)"

definition create_user_request :: "jv \<Rightarrow> jv" where
  "create_user_request data = JObj (pick [''username'', ''email'', ''password'', ''role''] data)"

definition update_user_request :: "jv \<Rightarrow> jv \<Rightarrow> jv" where
  "update_user_request i data = JObj ((''id'', i) # pick [''username'', ''email'', ''role'', ''status''] data)"

definition id_request :: "jv \<Rightarrow> jv" where
  "id_request i = JObj [(''id'', i)]"

subsection \<open>The page\<close>

datatype user_task = UtList | UtCreate | UtUpdate | UtDelete | UtDisable | UtEnable | UtPassword

datatype user_call =
    UcList jv
  | UcCreate jv
  | UcUpdate jv
  | UcDelete jv
  | UcDisable jv
  | UcEnable jv
  | UcResetPassword jv

datatype user_dialog = UdNone | UdCreate | UdEdit | UdPassword | UdDetail

text \<open>
  The four dialogs open one at a time, as each covers the page.  A form is the object of its fields; the form
  of a dialog that is closed is kept.
\<close>

record user_page =
  us_users :: jv
  us_total :: jv
  us_loading :: bool
  us_params :: jv
  us_dialog :: user_dialog
  us_current :: jv
  us_create_form :: jv
  us_edit_form :: jv
  us_password_form :: jv
  us_tasks :: "(nat \<times> user_task) list"
  us_next :: nat

definition start_user :: "user_task \<Rightarrow> user_page \<Rightarrow> user_page" where
  "start_user k s = s\<lparr>us_tasks := us_tasks s @ [(us_next s, k)], us_next := Suc (us_next s)\<rparr>"

definition fetch_users :: "user_page \<Rightarrow> user_page \<times> user_call list" where
  "fetch_users s = (start_user UtList (s\<lparr>us_loading := True\<rparr>), [UcList (list_users_request (us_params s))])"

definition create_defaults :: jv where
  "create_defaults = JObj [(''role'', JStr ''user'')]"

definition users_mounted :: "user_page \<times> user_call list" where
  "users_mounted = fetch_users
     \<lparr>us_users = JArr [], us_total = JNum (Fin 0), us_loading = True,
      us_params = JObj [(''page'', JNum (Fin 1)), (''pageSize'', JNum (Fin 20))], us_dialog = UdNone, us_current = JNull,
      us_create_form = create_defaults, us_edit_form = JObj [], us_password_form = JObj [], us_tasks = [], us_next = 0\<rparr>"

text \<open>Every new object of parameters is asked for.\<close>

definition set_user_params :: "(string \<times> jv) list \<Rightarrow> user_page \<Rightarrow> user_page \<times> user_call list" where
  "set_user_params changes s = fetch_users (s\<lparr>us_params := jspread (us_params s) (JObj changes)\<rparr>)"

definition set_filter :: "string \<Rightarrow> jv \<Rightarrow> user_page \<Rightarrow> user_page \<times> user_call list" where
  "set_filter k v s = set_user_params [(k, v), (''page'', JNum (Fin 1))] s"

definition show_edit_modal :: "jv \<Rightarrow> user_page \<Rightarrow> user_page" where
  "show_edit_modal user s =
     s\<lparr>us_current := user, us_dialog := UdEdit,
       us_edit_form := jspread (us_edit_form s) (JObj (pick [''nickname'', ''role'', ''status''] user))\<rparr>"

definition show_password_modal :: "jv \<Rightarrow> user_page \<Rightarrow> user_page" where
  "show_password_modal user s = s\<lparr>us_current := user, us_dialog := UdPassword, us_password_form := JObj []\<rparr>"

definition show_detail :: "jv \<Rightarrow> user_page \<Rightarrow> user_page" where
  "show_detail user s = s\<lparr>us_current := user, us_dialog := UdDetail\<rparr>"

definition form_text :: "string \<Rightarrow> jv \<Rightarrow> string" where
  "form_text k form = (case jget k form of JStr x \<Rightarrow> x | _ \<Rightarrow> [])"

text \<open>The rules of the forms; \<open>email_ok\<close> is the address check of the form library.\<close>

definition create_valid :: "(string \<Rightarrow> bool) \<Rightarrow> jv \<Rightarrow> bool" where
  "create_valid email_ok form \<longleftrightarrow> form_text ''email'' form \<noteq> [] \<and> email_ok (form_text ''email'' form) \<and>
     8 \<le> char_count (form_text ''password'' form)"

definition is_letter :: "char \<Rightarrow> bool" where
  "is_letter c \<longleftrightarrow> is_lower c \<or> is_upper c"

definition password_valid :: "jv \<Rightarrow> bool" where
  "password_valid form \<longleftrightarrow>
     (let p = form_text ''newPassword'' form; line = takeWhile (\<lambda>c. c \<notin> {CHR 0x0A, CHR 0x0D}) p
      in 8 \<le> char_count p \<and> line = p \<and> list_ex is_letter p \<and> list_ex is_digit p \<and> form_text ''confirmPassword'' form = p)"

definition handle_create :: "jv \<Rightarrow> user_page \<Rightarrow> user_page \<times> user_call list" where
  "handle_create data s = (start_user UtCreate s, [UcCreate (create_user_request data)])"

definition handle_update :: "jv \<Rightarrow> user_page \<Rightarrow> user_page \<times> user_call list" where
  "handle_update data s =
     (if \<not> truthy (us_current s) then (s, [])
      else (start_user UtUpdate s, [UcUpdate (update_user_request (jget ''id'' (us_current s)) data)]))"

definition handle_delete_user :: "jv \<Rightarrow> user_page \<Rightarrow> user_page \<times> user_call list" where
  "handle_delete_user i s = (start_user UtDelete s, [UcDelete (id_request i)])"

definition handle_toggle_status :: "jv \<Rightarrow> user_page \<Rightarrow> user_page \<times> user_call list" where
  "handle_toggle_status user s =
     (if jget ''status'' user = JStr ''active'' then (start_user UtDisable s, [UcDisable (id_request (jget ''id'' user))])
      else (start_user UtEnable s, [UcEnable (id_request (jget ''id'' user))]))"

definition handle_update_password :: "jv \<Rightarrow> user_page \<Rightarrow> user_page \<times> user_call list" where
  "handle_update_password data s =
     (if \<not> truthy (us_current s) then (s, [])
      else (start_user UtPassword s, [UcResetPassword (id_request (jget ''id'' (us_current s)))]))"

definition close_dialog :: "user_dialog \<Rightarrow> user_page \<Rightarrow> user_page" where
  "close_dialog d s = (if us_dialog s = d then s\<lparr>us_dialog := UdNone\<rparr> else s)"

definition user_message :: "user_task \<Rightarrow> bool \<Rightarrow> string" where
  "user_message k ok =
     (case (k, ok) of
        (UtCreate, True) \<Rightarrow> ''admin.userManagement.messages.userCreatedSuccess''
      | (UtCreate, False) \<Rightarrow> ''admin.userManagement.messages.userCreateFailed''
      | (UtUpdate, True) \<Rightarrow> ''admin.userManagement.messages.userUpdatedSuccess''
      | (UtUpdate, False) \<Rightarrow> ''admin.userManagement.messages.userUpdateFailed''
      | (UtDelete, True) \<Rightarrow> ''admin.userManagement.messages.userDeletedSuccess''
      | (UtDelete, False) \<Rightarrow> ''admin.userManagement.messages.userDeleteFailed''
      | (UtDisable, True) \<Rightarrow> ''admin.userManagement.messages.userDisabled''
      | (UtEnable, True) \<Rightarrow> ''admin.userManagement.messages.userEnabled''
      | (UtPassword, True) \<Rightarrow> ''admin.userManagement.messages.passwordUpdatedSuccess''
      | (UtPassword, False) \<Rightarrow> ''admin.userManagement.messages.passwordUpdateFailed''
      | _ \<Rightarrow> ''common.operationFailed'')"

text \<open>What a call that succeeded changes on the page, before the list is asked for again.\<close>

definition user_call_done :: "user_task \<Rightarrow> user_page \<Rightarrow> user_page" where
  "user_call_done k s =
     (case k of
        UtCreate \<Rightarrow> (close_dialog UdCreate s)\<lparr>us_create_form := create_defaults\<rparr>
      | UtUpdate \<Rightarrow> (close_dialog UdEdit s)\<lparr>us_edit_form := JObj []\<rparr>
      | UtPassword \<Rightarrow> (close_dialog UdPassword s)\<lparr>us_password_form := JObj []\<rparr>
      | _ \<Rightarrow> s)"

text \<open>The text of the code for a list that cannot be loaded, in Chinese.\<close>

definition users_failed_text :: string where
  "users_failed_text =
    [CHR 0xE5, CHR 0x8A, CHR 0xA0, CHR 0xE8, CHR 0xBD, CHR 0xBD, CHR 0xE7, CHR 0x94, CHR 0xA8, CHR 0xE6, CHR 0x88, CHR 0xB7,
     CHR 0xE5, CHR 0x88, CHR 0x97, CHR 0xE8, CHR 0xA1, CHR 0xA8, CHR 0xE5, CHR 0xA4, CHR 0xB1, CHR 0xE8, CHR 0xB4, CHR 0xA5]"

definition user_answered ::
    "(string \<Rightarrow> string) \<Rightarrow> nat \<Rightarrow> jv outcome \<Rightarrow> user_page \<Rightarrow> user_page \<times> user_call list \<times> toast list" where
  "user_answered t i answer s =
     (let gone = s\<lparr>us_tasks := AList.delete i (us_tasks s)\<rparr>
      in case (map_of (us_tasks s) i, answer) of
           (None, _) \<Rightarrow> (s, [], [])
         | (Some UtList, Inr response) \<Rightarrow>
             (gone\<lparr>us_loading := False, us_users := jget ''users'' response, us_total := jget ''total'' response\<rparr>, [], [])
         | (Some UtList, Inl e) \<Rightarrow> (gone\<lparr>us_loading := False\<rparr>, [], [ToastError (get_error_message t e users_failed_text)])
         | (Some k, Inl _) \<Rightarrow> (gone, [], [ToastError (t (user_message k False))])
         | (Some k, Inr _) \<Rightarrow>
             (let s = user_call_done k gone;
                  (s, calls) = (if k = UtPassword then (s, []) else fetch_users s)
              in (s, calls, [ToastSuccess (t (user_message k True))])))"

datatype user_event =
    UvSearch string
  | UvStatus jv
  | UvRole jv
  | UvPage nat nat
  | UvAdd
  | UvEdit jv
  | UvDetail jv
  | UvChangePassword jv
  | UvToggle jv
  | UvDelete jv
  | UvField string string
  | UvSubmit
  | UvClose
  | UvAnswer nat "jv outcome"

definition enter_field :: "string \<Rightarrow> string \<Rightarrow> user_page \<Rightarrow> user_page" where
  "enter_field k x s =
     (case us_dialog s of
        UdCreate \<Rightarrow> s\<lparr>us_create_form := jset k (JStr x) (us_create_form s)\<rparr>
      | UdEdit \<Rightarrow> s\<lparr>us_edit_form := jset k (JStr x) (us_edit_form s)\<rparr>
      | UdPassword \<Rightarrow> s\<lparr>us_password_form := jset k (JStr x) (us_password_form s)\<rparr>
      | _ \<Rightarrow> s)"

definition submit_dialog :: "(string \<Rightarrow> bool) \<Rightarrow> user_page \<Rightarrow> user_page \<times> user_call list" where
  "submit_dialog email_ok s =
     (case us_dialog s of
        UdCreate \<Rightarrow> if create_valid email_ok (us_create_form s) then handle_create (us_create_form s) s else (s, [])
      | UdEdit \<Rightarrow> handle_update (us_edit_form s) s
      | UdPassword \<Rightarrow> if password_valid (us_password_form s) then handle_update_password (us_password_form s) s else (s, [])
      | _ \<Rightarrow> (s, []))"

definition user_out ::
    "(string \<Rightarrow> bool) \<Rightarrow> (string \<Rightarrow> string) \<Rightarrow> user_page \<Rightarrow> user_event \<Rightarrow> user_page \<times> user_call list \<times> toast list" where
  "user_out email_ok t s a =
     (let quiet = (\<lambda>(s, calls). (s, calls, [])); plain = (\<lambda>s. (s, [], []))
      in case a of
           UvAnswer i answer \<Rightarrow> user_answered t i answer s
         | UvField k x \<Rightarrow> plain (enter_field k x s)
         | UvSubmit \<Rightarrow> quiet (submit_dialog email_ok s)
         | UvClose \<Rightarrow> plain (s\<lparr>us_dialog := UdNone\<rparr>)
         | _ \<Rightarrow> if us_dialog s \<noteq> UdNone then plain s
             else (case a of
                UvSearch x \<Rightarrow> quiet (set_filter ''search'' (JStr x) s)
              | UvStatus v \<Rightarrow> quiet (set_filter ''status'' v s)
              | UvRole v \<Rightarrow> quiet (set_filter ''role'' v s)
              | UvPage p n \<Rightarrow> quiet (set_user_params [(''page'', JNum (Fin (of_nat p))), (''pageSize'', JNum (Fin (of_nat n)))] s)
              | UvAdd \<Rightarrow> plain (s\<lparr>us_dialog := UdCreate\<rparr>)
              | UvEdit user \<Rightarrow> plain (show_edit_modal user s)
              | UvDetail user \<Rightarrow> plain (show_detail user s)
              | UvChangePassword user \<Rightarrow> plain (show_password_modal user s)
              | UvToggle user \<Rightarrow> quiet (handle_toggle_status user s)
              | UvDelete user \<Rightarrow> quiet (handle_delete_user (jget ''id'' user) s)
              | _ \<Rightarrow> plain s))"

definition user_step :: "(string \<Rightarrow> bool) \<Rightarrow> (string \<Rightarrow> string) \<Rightarrow> user_page \<Rightarrow> user_event \<Rightarrow> user_page" where
  "user_step email_ok t s a = fst (user_out email_ok t s a)"

definition user_calls :: "(string \<Rightarrow> bool) \<Rightarrow> (string \<Rightarrow> string) \<Rightarrow> user_page \<Rightarrow> user_event \<Rightarrow> user_call list" where
  "user_calls email_ok t s a = fst (snd (user_out email_ok t s a))"


lemmas user_step_defs = user_step_def user_calls_def user_out_def Let_def

subsection \<open>The password\<close>

text \<open>
  The password that the administrator types is checked and then dropped: the request has the id of the user
  only, the password that the service answers with is dropped as well, and the change is reported as done.
\<close>

theorem typed_password_never_sent:
  assumes "us_dialog s = UdPassword" "truthy (us_current s)" "password_valid (us_password_form s)" "us_tasks s = []"
  shows "user_calls email_ok t s UvSubmit = [UcResetPassword (JObj [(''id'', jget ''id'' (us_current s))])] \<and>
    user_out email_ok t (user_step email_ok t s UvSubmit) (UvAnswer (us_next s) (Inr r)) =
      (s\<lparr>us_dialog := UdNone, us_password_form := JObj [], us_next := Suc (us_next s)\<rparr>, [],
       [ToastSuccess (t ''admin.userManagement.messages.passwordUpdatedSuccess'')])"
  using assms
  by (simp add: user_step_defs submit_dialog_def handle_update_password_def id_request_def start_user_def user_answered_def
      user_call_done_def close_dialog_def user_message_def)

text \<open>A reset is only asked for with a password of letters and digits, entered twice.\<close>

theorem reset_needs_password:
  assumes "UcResetPassword r \<in> set (user_calls email_ok t s a)"
  shows "us_dialog s = UdPassword \<and> password_valid (us_password_form s) \<and> r = id_request (jget ''id'' (us_current s))"
  using assms
  by (cases a) (auto simp: user_step_defs submit_dialog_def handle_create_def handle_update_def handle_update_password_def
      handle_delete_user_def handle_toggle_status_def set_filter_def set_user_params_def fetch_users_def user_answered_def
      split: user_dialog.splits if_splits option.splits sum.splits user_task.splits)

text \<open>The nickname of the forms is in no request.\<close>

theorem nickname_never_sent:
  "create_user_request (jset ''nickname'' x data) = create_user_request data \<and>
   update_user_request i (jset ''nickname'' x data) = update_user_request i data"
  by (simp add: create_user_request_def update_user_request_def pick_def)

text \<open>Every user is created with an address that the form accepts and a password of at least eight characters.\<close>

theorem created_user_valid:
  assumes "UcCreate r \<in> set (user_calls email_ok t s a)"
  shows "email_ok (form_text ''email'' r) \<and> 8 \<le> char_count (form_text ''password'' r) \<and> jget ''username'' r = jget ''username'' (us_create_form s)"
proof -
  have "create_valid email_ok (us_create_form s) \<and> r = create_user_request (us_create_form s)"
    using assms
    by (cases a) (auto simp: user_step_defs submit_dialog_def handle_create_def handle_update_def handle_update_password_def
        handle_delete_user_def handle_toggle_status_def set_filter_def set_user_params_def fetch_users_def user_answered_def
        split: user_dialog.splits if_splits option.splits sum.splits user_task.splits)
  then show ?thesis
    by (simp add: create_valid_def create_user_request_def pick_def form_text_def jget_def)
qed

subsection \<open>Overlapping operations\<close>

text \<open>The answer to a change of one user closes the dialog in which another user is being changed.\<close>

theorem late_update_closes_other_dialog:
  fixes s email_ok t other x r
  assumes "us_dialog s = UdEdit" "truthy (us_current s)" "us_tasks s = []"
  defines "u \<equiv> run (user_step email_ok t) s [UvSubmit, UvClose, UvEdit other, UvField ''role'' x, UvAnswer (us_next s) (Inr r)]"
  shows "us_current u = other \<and> us_dialog u = UdNone \<and> us_edit_form u = JObj []"
  using assms(1-3)
  by (simp add: u_def user_step_defs submit_dialog_def handle_update_def start_user_def show_edit_modal_def enter_field_def
      user_answered_def user_call_done_def close_dialog_def fetch_users_def)

definition user_inv :: "user_page \<Rightarrow> bool" where
  "user_inv s \<longleftrightarrow> fresh_table (us_next s) (us_tasks s) \<and> (us_loading s \<longrightarrow> has_entry ((=) UtList) (us_tasks s))"

lemma user_inv_start: "user_inv s \<Longrightarrow> user_inv (start_user k s)"
  by (simp add: user_inv_def start_user_def)

lemma user_inv_fetch: "fresh_table (us_next s) (us_tasks s) \<Longrightarrow> user_inv (fst (fetch_users s))"
  by (simp add: user_inv_def fetch_users_def start_user_def)

lemma user_inv_cong:
  "user_inv s \<Longrightarrow> us_tasks s' = us_tasks s \<Longrightarrow> us_next s' = us_next s \<Longrightarrow> us_loading s' = us_loading s \<Longrightarrow> user_inv s'"
  by (simp add: user_inv_def)

lemma user_call_done_fields [simp]:
  "us_tasks (user_call_done k s) = us_tasks s" "us_next (user_call_done k s) = us_next s" "us_loading (user_call_done k s) = us_loading s"
  by (cases k; simp add: user_call_done_def close_dialog_def)+

lemma user_inv_answered:
  assumes "user_inv s"
  shows "user_inv (fst (user_answered t i answer s))"
proof (cases "map_of (us_tasks s) i")
  case (Some k)
  have fresh: "fresh_table (us_next s) (AList.delete i (us_tasks s))" using assms by (simp add: user_inv_def)
  have other: "user_inv (s\<lparr>us_tasks := AList.delete i (us_tasks s)\<rparr>)" if "k \<noteq> UtList"
    using assms Some that has_entry_delete [of "us_next s" "us_tasks s" "(=) UtList" i k]
    by (auto simp: user_inv_def)
  have ended: "user_inv (user_call_done k (s\<lparr>us_tasks := AList.delete i (us_tasks s)\<rparr>))" if "k \<noteq> UtList"
    by (rule user_inv_cong [OF other [OF that]]) simp_all
  show ?thesis
  proof (cases "k = UtList")
    case True
    then show ?thesis using Some fresh by (cases answer) (simp_all add: user_answered_def Let_def user_inv_def)
  next
    case False
    then show ?thesis
      using Some fresh other ended user_inv_fetch [of "user_call_done k (s\<lparr>us_tasks := AList.delete i (us_tasks s)\<rparr>)"]
      by (cases answer; cases k) (auto simp: user_answered_def Let_def split_beta)
  qed
qed (use assms in \<open>simp add: user_answered_def Let_def\<close>)

lemma user_inv_params: "user_inv s \<Longrightarrow> user_inv (fst (set_user_params changes s))"
  unfolding set_user_params_def by (rule user_inv_fetch) (simp add: user_inv_def)

lemma user_inv_submit: "user_inv s \<Longrightarrow> user_inv (fst (submit_dialog email_ok s))"
  by (auto simp: submit_dialog_def handle_create_def handle_update_def handle_update_password_def
      split: user_dialog.split intro: user_inv_start)

lemma user_inv_step: "user_inv s \<Longrightarrow> user_inv (user_step email_ok t s a)"
proof (cases a)
  case (UvAnswer i answer)
  then show "user_inv s \<Longrightarrow> user_inv (user_step email_ok t s a)"
    by (simp add: user_step_defs user_inv_answered)
next
  case UvSubmit
  then show "user_inv s \<Longrightarrow> user_inv (user_step email_ok t s a)"
    by (simp add: user_step_defs split_beta user_inv_submit)
qed (auto simp: user_step_defs split_beta set_filter_def handle_toggle_status_def handle_delete_user_def show_edit_modal_def
    show_password_modal_def show_detail_def enter_field_def split: user_dialog.split
    intro: user_inv_params user_inv_start elim: user_inv_cong)

interpretation user_machine: machine "fst users_mounted" "user_step email_ok t" user_inv
  by unfold_locales (simp add: users_mounted_def user_inv_fetch, rule user_inv_step)

text \<open>The list is shown as loading only while an answer to a list request is waited for.\<close>

theorem users_loading_ends:
  "us_loading (run (user_step email_ok t) (fst users_mounted) acts) \<longrightarrow>
   has_entry ((=) UtList) (us_tasks (run (user_step email_ok t) (fst users_mounted) acts))"
  using user_machine.inv_run [of email_ok t acts] by (simp add: user_inv_def)

subsection \<open>Examples\<close>

definition demo_user :: jv where
  "demo_user = JObj [(''id'', JStr ''u1''), (''role'', JStr ''user''), (''status'', JStr ''active'')]"

definition demo_password :: user_page where
  "demo_password = (show_password_modal demo_user (fst users_mounted))\<lparr>us_tasks := [],
     us_password_form := JObj [(''newPassword'', JStr ''secret99''), (''confirmPassword'', JStr ''secret99'')]\<rparr>"

lemma demo_password_facts:
  "us_dialog demo_password = UdPassword" "truthy (us_current demo_password)" "us_tasks demo_password = []"
  "jget ''id'' (us_current demo_password) = JStr ''u1''"
  by (simp_all add: demo_password_def show_password_modal_def demo_user_def jget_def)

lemma demo_password_valid: "password_valid (us_password_form demo_password)"
  by code_simp

theorem typed_password_never_sent_witness:
  "user_calls (\<lambda>_. True) id demo_password UvSubmit = [UcResetPassword (JObj [(''id'', JStr ''u1'')])]"
  using typed_password_never_sent [OF demo_password_facts(1,2) demo_password_valid demo_password_facts(3)]
  by (simp add: demo_password_facts)

theorem reset_needs_password_witness:
  "\<exists>r. UcResetPassword r \<in> set (user_calls (\<lambda>_. True) id demo_password UvSubmit) \<and> r = id_request (JStr ''u1'')"
proof -
  have c: "UcResetPassword (id_request (JStr ''u1'')) \<in> set (user_calls (\<lambda>_. True) id demo_password UvSubmit)"
    by (simp add: user_step_defs submit_dialog_def demo_password_facts demo_password_valid handle_update_password_def)
  from reset_needs_password [OF c] c show ?thesis by (simp add: demo_password_facts)
qed

definition demo_create_form :: user_page where
  "demo_create_form = (fst users_mounted)\<lparr>us_dialog := UdCreate,
     us_create_form := JObj [(''email'', JStr ''a@b.c''), (''password'', JStr ''secret99'')]\<rparr>"

theorem created_user_valid_witness:
  "\<exists>r. UcCreate r \<in> set (user_calls (\<lambda>e. e \<noteq> []) id demo_create_form UvSubmit) \<and> 8 \<le> char_count (form_text ''password'' r)"
proof -
  have "us_dialog demo_create_form = UdCreate" by (simp add: demo_create_form_def)
  moreover have "create_valid (\<lambda>e. e \<noteq> []) (us_create_form demo_create_form)" by code_simp
  ultimately have c: "UcCreate (create_user_request (us_create_form demo_create_form)) \<in> set (user_calls (\<lambda>e. e \<noteq> []) id demo_create_form UvSubmit)"
    by (simp add: user_step_defs submit_dialog_def handle_create_def)
  from created_user_valid [OF this] c show ?thesis by blast
qed

theorem late_update_closes_other_dialog_witness:
  "us_dialog (run (user_step (\<lambda>_. True) id) (demo_password\<lparr>us_dialog := UdEdit\<rparr>)
     [UvSubmit, UvClose, UvEdit JNull, UvField ''role'' ''audit'', UvAnswer (us_next demo_password) (Inr JNull)]) = UdNone"
  using late_update_closes_other_dialog [of "demo_password\<lparr>us_dialog := UdEdit\<rparr>"] by (simp add: demo_password_facts)

end
