(* ===== verification/AgentSettings.thy ===== *)
theory AgentSettings
  imports SystemAi AiClient AgentStore
begin

text \<open>
  The page on which the AI agents are edited (\<open>pages/ai/AISettings.tsx\<close>) and the built-in agents
  (\<open>pages/ai/defaultAgentTemplates.ts\<close>): loading, editing, restoring the defaults and saving, which goes to the
  store of \<open>AgentStore\<close> as well.
\<close>

subsection \<open>Models\<close>

definition label_of :: "(string \<Rightarrow> string) \<Rightarrow> string \<Rightarrow> string \<Rightarrow> string" where
  "label_of t i name =
     (let key = ''ai.settings.providers.'' @ i; tr = t key
      in if tr \<noteq> [] \<and> tr \<noteq> key then tr else if name \<noteq> [] then name else i)"

text \<open>Values and labels; the sign between the parts of a label is a middle dot.\<close>

definition build_model_options :: "(string \<Rightarrow> string) \<Rightarrow> sys_config list \<Rightarrow> (string \<times> string) list" where
  "build_model_options t cs =
     concat (List.map (\<lambda>c. List.map (\<lambda>m. (sg_id c @ ''|'' @ m,
         label_of t (sg_id c) (sg_name c) @ [CHR '' '', CHR 0xC2, CHR 0xB7, CHR '' ''] @ m)) (usable_models c))
       (filter (\<lambda>c. sg_id c \<noteq> [] \<and> sg_has_secret c \<and> sg_enabled c) cs))"

definition encode_agent_model :: "agent_view \<Rightarrow> string" where
  "encode_agent_model a =
     (if agv_provider_id a = [] then [] else agv_provider_id a @ ''|'' @ agv_model_override a)"

definition decode_agent_model :: "string \<Rightarrow> string \<times> string" where
  "decode_agent_model v =
     (if CHR ''|'' \<notin> set v then (v, [])
      else (takeWhile (\<lambda>c. c \<noteq> CHR ''|'') v, drop 1 (dropWhile (\<lambda>c. c \<noteq> CHR ''|'') v)))"

text \<open>A model that is bound but no longer offered is offered as well, marked as a former one.\<close>

definition former_mark :: string where
  "former_mark = [CHR 0xEF, CHR 0xBC, CHR 0x88, CHR 0xE5, CHR 0x8E, CHR 0x86, CHR 0xE5, CHR 0x8F, CHR 0xB2, CHR 0xE7, CHR 0xBB,
     CHR 0x91, CHR 0xE5, CHR 0xAE, CHR 0x9A, CHR 0xEF, CHR 0xBC, CHR 0x89]"

definition row_options :: "(string \<times> string) list \<Rightarrow> agent_view \<Rightarrow> (string \<times> string) list" where
  "row_options opts a =
     (let cur = encode_agent_model a
      in if cur = [] \<or> cur \<in> fst ` set opts then opts else opts @ [(cur, cur @ former_mark)])"

subsection \<open>Built-in agents\<close>

definition default_types :: "string list" where
  "default_types = [''style'', ''signals'', ''risk'', ''macro'', ''sentiment'', ''portfolio'', ''execution'', ''code'']"

definition default_key :: "string \<Rightarrow> string" where
  "default_key k = ''default-'' @ k"

definition default_agent_template :: "(string \<Rightarrow> string) \<Rightarrow> nat \<times> string \<Rightarrow> agent_view" where
  "default_agent_template t = (\<lambda>(i, k).
     \<lparr>agv_id = [], agv_agent_key = default_key k, agv_type = k, agv_name = t (''ai.settings.agent.types.'' @ k),
      agv_identity = t (''ai.settings.agent.defaults.'' @ k @ ''.identity''),
      agv_input_hint = t (''ai.settings.agent.defaults.'' @ k @ ''.inputHint''), agv_enabled = True,
      agv_position = Fin (of_nat i), agv_provider_id = [], agv_model_override = []\<rparr>)"

definition default_agent_templates :: "(string \<Rightarrow> string) \<Rightarrow> agent_view list" where
  "default_agent_templates t = List.map (default_agent_template t) (enumerate 0 default_types)"

text \<open>The agents by their keys: a key that occurs again keeps its place and takes the later agent.\<close>

definition agents_by_key :: "agent_view list \<Rightarrow> (string \<times> agent_view) list" where
  "agents_by_key agents = foldl (\<lambda>m a. AList.update (agv_agent_key a) a m) [] agents"

definition merge_default :: "(string \<times> agent_view) list \<Rightarrow> agent_view \<Rightarrow> (string \<times> agent_view) list" where
  "merge_default m d = AList.update (agv_agent_key d)
     (case map_of m (agv_agent_key d) of
        None \<Rightarrow> d
      | Some e \<Rightarrow> d\<lparr>agv_id := agv_id e, agv_provider_id := agv_provider_id e, agv_model_override := agv_model_override e\<rparr>) m"

text \<open>Positions are whole numbers of the service; sorting is stable.\<close>

definition position_of :: "agent_view \<Rightarrow> rat" where
  "position_of a = (case agv_position a of Fin q \<Rightarrow> q | _ \<Rightarrow> 0)"

definition merge_with_default_templates :: "(string \<Rightarrow> string) \<Rightarrow> agent_view list \<Rightarrow> agent_view list" where
  "merge_with_default_templates t current =
     sort_key position_of (List.map snd (foldl merge_default (agents_by_key current) (default_agent_templates t)))"

subsection \<open>The page\<close>

text \<open>
  A load carries the number of the effect that started it; the effect runs again when the language changes,
  and its predecessor is cancelled.
\<close>

datatype settings_task = StLoad nat | StSave

record agent_settings =
  as_agents :: "agent_view list"
  as_configs :: "sys_config list"
  as_loading :: bool
  as_saving :: bool
  as_collapsed :: "(string \<times> bool) list"
  as_effect :: nat
  as_store :: agent_state
  as_tasks :: "(nat \<times> settings_task) list"
  as_next :: nat

datatype settings_call = ScLoad | ScSave "agent_def list"

definition start_settings :: "settings_task \<Rightarrow> agent_settings \<Rightarrow> agent_settings" where
  "start_settings k s = s\<lparr>as_tasks := as_tasks s @ [(as_next s, k)], as_next := Suc (as_next s)\<rparr>"

definition load_settings :: "agent_settings \<Rightarrow> agent_settings \<times> settings_call list" where
  "load_settings s =
     (start_settings (StLoad (Suc (as_effect s))) (s\<lparr>as_effect := Suc (as_effect s), as_loading := True\<rparr>), [ScLoad])"

definition settings_mounted :: "agent_state \<Rightarrow> agent_settings" where
  "settings_mounted store = fst (load_settings
     \<lparr>as_agents = [], as_configs = [], as_loading = True, as_saving = False, as_collapsed = [], as_effect = 0,
      as_store = store, as_tasks = [], as_next = 0\<rparr>)"

text \<open>The agents as the objects that the store keeps.\<close>

definition agent_value :: "agent_view \<Rightarrow> jv" where
  "agent_value a = JObj
     [(''id'', JStr (agv_id a)), (''agentKey'', JStr (agv_agent_key a)), (''type'', JStr (agv_type a)),
      (''name'', JStr (agv_name a)), (''identity'', JStr (agv_identity a)), (''inputHint'', JStr (agv_input_hint a)),
      (''enabled'', JBool (agv_enabled a)), (''position'', JNum (agv_position a)),
      (''providerId'', JStr (agv_provider_id a)), (''modelOverride'', JStr (agv_model_override a))]"

definition store_agents :: "int \<Rightarrow> agent_view list \<Rightarrow> agent_state \<Rightarrow> agent_state" where
  "store_agents now agents store = set_agents now (List.map agent_value agents) store"

text \<open>The list of the configurations is empty where its request fails.\<close>

definition settings_loaded ::
    "(string \<Rightarrow> string) \<Rightarrow> int \<Rightarrow> nat \<Rightarrow> (agent_view list \<times> sys_config list) outcome \<Rightarrow> agent_settings \<Rightarrow>
     agent_settings \<times> toast list" where
  "settings_loaded t now e answer s =
     (if e \<noteq> as_effect s then (s, [])
      else case answer of
          Inr (agents, configs) \<Rightarrow>
            (s\<lparr>as_agents := agents, as_configs := configs, as_loading := False,
               as_store := store_agents now agents (as_store s)\<rparr>, [])
        | Inl err \<Rightarrow> (s\<lparr>as_loading := False\<rparr>,
            [ToastError (js_string (js_or (jget ''message'' err) (JStr (t ''ai.settings.agent.messages.saveFailed''))))]))"


definition handle_change :: "nat \<Rightarrow> (agent_view \<Rightarrow> agent_view) \<Rightarrow> agent_settings \<Rightarrow> agent_settings" where
  "handle_change idx patch s =
     s\<lparr>as_agents := List.map (\<lambda>(i, a). if i = idx then patch a else a) (enumerate 0 (as_agents s))\<rparr>"

definition new_agent :: "(string \<Rightarrow> string) \<Rightarrow> nat \<Rightarrow> nat \<Rightarrow> agent_view" where
  "new_agent t now n =
     \<lparr>agv_id = [], agv_agent_key = ''custom-'' @ nat_str now, agv_type = ''custom'', agv_name = t ''ai.settings.agent.defaultName'',
      agv_identity = [], agv_input_hint = [], agv_enabled = True, agv_position = Fin (of_nat n), agv_provider_id = [],
      agv_model_override = []\<rparr>"

definition handle_add :: "(string \<Rightarrow> string) \<Rightarrow> nat \<Rightarrow> agent_settings \<Rightarrow> agent_settings" where
  "handle_add t now s = s\<lparr>as_agents := as_agents s @ [new_agent t now (length (as_agents s))]\<rparr>"

definition handle_remove :: "nat \<Rightarrow> agent_settings \<Rightarrow> agent_settings" where
  "handle_remove idx s = s\<lparr>as_agents := take idx (as_agents s) @ drop (Suc idx) (as_agents s)\<rparr>"

definition handle_load_defaults :: "(string \<Rightarrow> string) \<Rightarrow> agent_settings \<Rightarrow> agent_settings" where
  "handle_load_defaults t s = s\<lparr>as_agents := merge_with_default_templates t (as_agents s)\<rparr>"

definition handle_reset_all :: "(string \<Rightarrow> string) \<Rightarrow> agent_settings \<Rightarrow> agent_settings" where
  "handle_reset_all t s = s\<lparr>as_agents := default_agent_templates t\<rparr>"

definition select_model :: "nat \<Rightarrow> string \<Rightarrow> agent_settings \<Rightarrow> agent_settings" where
  "select_model idx v = handle_change idx
     (\<lambda>a. a\<lparr>agv_provider_id := fst (decode_agent_model v), agv_model_override := snd (decode_agent_model v)\<rparr>)"

definition agent_row_key :: "nat \<Rightarrow> agent_view \<Rightarrow> string" where
  "agent_row_key idx a =
     (if agv_agent_key a \<noteq> [] then agv_agent_key a else if agv_id a \<noteq> [] then agv_id a else nat_str idx)"

definition row_collapsed :: "string \<Rightarrow> agent_settings \<Rightarrow> bool" where
  "row_collapsed key s = (case map_of (as_collapsed s) key of None \<Rightarrow> True | Some b \<Rightarrow> b)"

definition toggle_row :: "string \<Rightarrow> agent_settings \<Rightarrow> agent_settings" where
  "toggle_row key s = s\<lparr>as_collapsed := AList.update key (\<not> row_collapsed key s) (as_collapsed s)\<rparr>"

definition cleaned_agents :: "agent_view list \<Rightarrow> agent_view list" where
  "cleaned_agents agents =
     List.map (\<lambda>(i, a). a\<lparr>agv_position := Fin (of_nat i), agv_name := js_trim (agv_name a), agv_identity := js_trim (agv_identity a),
       agv_input_hint := js_trim (agv_input_hint a), agv_provider_id := js_trim (agv_provider_id a),
       agv_model_override := js_trim (agv_model_override a)\<rparr>) (enumerate 0 agents)"

definition handle_save_agents :: "agent_settings \<Rightarrow> agent_settings \<times> settings_call list" where
  "handle_save_agents s =
     (start_settings StSave (s\<lparr>as_saving := True\<rparr>),
      [ScSave (List.map view_to_agent_definition (cleaned_agents (as_agents s)))])"

definition agents_saved ::
    "(string \<Rightarrow> string) \<Rightarrow> int \<Rightarrow> agent_view list outcome \<Rightarrow> agent_settings \<Rightarrow> agent_settings \<times> toast list" where
  "agents_saved t now answer s =
     (case answer of
        Inr saved \<Rightarrow>
          (s\<lparr>as_saving := False, as_agents := saved, as_store := store_agents now saved (as_store s)\<rparr>,
           [ToastSuccess (t ''ai.settings.agent.messages.saveSuccess'')])
      | Inl e \<Rightarrow> (s\<lparr>as_saving := False\<rparr>,
           [ToastError (js_string (js_or (jget ''message'' e) (JStr (t ''ai.settings.agent.messages.saveFailed''))))]))"

text \<open>While it loads, the page shows nothing that can be changed.  A task is answered with what it waits for.\<close>

datatype settings_event =
    SeChange nat "agent_view \<Rightarrow> agent_view"
  | SeModel nat string
  | SeAdd nat
  | SeRemove nat
  | SeRestore
  | SeResetAll
  | SeToggleRow string
  | SeSave
  | SeLanguage
  | SeLoaded nat int "(agent_view list \<times> sys_config list) outcome"
  | SeSaved nat int "agent_view list outcome"

definition settings_step :: "(string \<Rightarrow> string) \<Rightarrow> agent_settings \<Rightarrow> settings_event \<Rightarrow> agent_settings" where
  "settings_step t s a =
     (case a of
        SeLanguage \<Rightarrow> fst (load_settings s)
      | SeLoaded i now answer \<Rightarrow>
          (case map_of (as_tasks s) i of
             Some (StLoad e) \<Rightarrow> fst (settings_loaded t now e answer (s\<lparr>as_tasks := AList.delete i (as_tasks s)\<rparr>))
           | _ \<Rightarrow> s)
      | SeSaved i now answer \<Rightarrow>
          (case map_of (as_tasks s) i of
             Some StSave \<Rightarrow> fst (agents_saved t now answer (s\<lparr>as_tasks := AList.delete i (as_tasks s)\<rparr>))
           | _ \<Rightarrow> s)
      | _ \<Rightarrow> if as_loading s then s
          else (case a of
             SeChange idx patch \<Rightarrow> handle_change idx patch s
           | SeModel idx v \<Rightarrow> select_model idx v s
           | SeAdd now \<Rightarrow> handle_add t now s
           | SeRemove idx \<Rightarrow> handle_remove idx s
           | SeRestore \<Rightarrow> if as_agents s = [] then s else handle_load_defaults t s
           | SeResetAll \<Rightarrow> if as_agents s = [] then handle_reset_all t s else s
           | SeToggleRow key \<Rightarrow> toggle_row key s
           | SeSave \<Rightarrow> if as_saving s then s else fst (handle_save_agents s)
           | _ \<Rightarrow> s))"


subsection \<open>Bindings of models\<close>

text \<open>The model that is selected for an agent is the one that the selection shows afterwards.\<close>

theorem agent_model_roundtrip:
  assumes "agv_provider_id a \<noteq> []" and "CHR ''|'' \<notin> set (agv_provider_id a)"
  shows "decode_agent_model (encode_agent_model a) = (agv_provider_id a, agv_model_override a)"
proof -
  have "takeWhile (\<lambda>c. c \<noteq> CHR ''|'') (agv_provider_id a @ ''|'' @ agv_model_override a) = agv_provider_id a"
    "dropWhile (\<lambda>c. c \<noteq> CHR ''|'') (agv_provider_id a @ ''|'' @ agv_model_override a) = ''|'' @ agv_model_override a"
    using assms(2) by (auto simp: takeWhile_append dropWhile_append)
  with assms(1) show ?thesis by (simp add: encode_agent_model_def decode_agent_model_def)
qed

text \<open>The selection of a row offers the model that is bound, whatever is configured.\<close>

lemma bound_model_offered: "encode_agent_model a \<noteq> [] \<Longrightarrow> encode_agent_model a \<in> fst ` set (row_options opts a)"
  by (auto simp: row_options_def Let_def)

subsection \<open>Restoring the built-in agents\<close>

definition keyed :: "(string \<times> agent_view) list \<Rightarrow> bool" where
  "keyed m \<longleftrightarrow> distinct (List.map fst m) \<and> (\<forall>p \<in> set m. agv_agent_key (snd p) = fst p)"

lemma keyed_update: "keyed m \<Longrightarrow> agv_agent_key a = k \<Longrightarrow> keyed (AList.update k a m)"
  by (auto simp: keyed_def distinct_update set_update)

lemma keyed_by_key: "keyed (foldl (\<lambda>m a. AList.update (agv_agent_key a) a m) m agents) = keyed m" if "keyed m"
  using that by (induction agents arbitrary: m) (simp_all add: keyed_update)

lemma keyed_merge: "keyed m \<Longrightarrow> keyed (foldl merge_default m ds)"
proof (induction ds arbitrary: m)
  case (Cons d ds)
  then have "keyed (merge_default m d)"
    by (auto simp: merge_default_def split: option.split intro: keyed_update)
  with Cons show ?case by simp
qed simp

lemma keyed_snd: "keyed m \<Longrightarrow> a \<in> set (List.map snd m) \<longleftrightarrow> map_of m (agv_agent_key a) = Some a"
  by (force simp: keyed_def dest: map_of_SomeD)

lemma keyed_keys: "keyed m \<Longrightarrow> List.map agv_agent_key (List.map snd m) = List.map fst m"
  by (simp add: keyed_def)

lemma by_key_distinct:
  "distinct (List.map agv_agent_key agents) \<Longrightarrow> agents_by_key agents = List.map (\<lambda>a. (agv_agent_key a, a)) agents"
proof (induction agents rule: rev_induct)
  case (snoc a agents)
  then have "agv_agent_key a \<notin> fst ` set (agents_by_key agents)" by force
  then have "AList.update (agv_agent_key a) a (agents_by_key agents) = agents_by_key agents @ [(agv_agent_key a, a)]"
    by (rule alist_update_fresh)
  with snoc show ?case by (simp add: agents_by_key_def)
qed (simp add: agents_by_key_def)


definition restored_as :: "agent_view \<Rightarrow> agent_view option \<Rightarrow> agent_view" where
  "restored_as d e = (case e of None \<Rightarrow> d
     | Some e \<Rightarrow> d\<lparr>agv_id := agv_id e, agv_provider_id := agv_provider_id e, agv_model_override := agv_model_override e\<rparr>)"

lemma restored_as_key [simp]: "agv_agent_key (restored_as d e) = agv_agent_key d"
  by (simp add: restored_as_def split: option.split)

lemma merge_default_restored: "merge_default m d = AList.update (agv_agent_key d) (restored_as d (map_of m (agv_agent_key d))) m"
  by (simp add: merge_default_def restored_as_def)

lemma map_of_merge:
  "distinct (List.map agv_agent_key ds) \<Longrightarrow> map_of (foldl merge_default m ds) k =
     (case List.find (\<lambda>d. agv_agent_key d = k) ds of None \<Rightarrow> map_of m k | Some d \<Rightarrow> Some (restored_as d (map_of m k)))"
proof (induction ds arbitrary: m)
  case (Cons d ds)
  have "List.find (\<lambda>d. agv_agent_key d = k) ds = None" if "agv_agent_key d = k"
    using Cons.prems that by (simp add: find_None_iff image_iff) metis
  then show ?case
    using Cons by (auto simp: merge_default_restored update_conv' split: option.split)
qed simp

definition default_keys :: "string set" where
  "default_keys = default_key ` set default_types"

lemma default_templates_keys:
  "List.map agv_agent_key (default_agent_templates t) = List.map default_key default_types"
  by (simp add: default_agent_templates_def default_agent_template_def default_types_def)

lemma default_templates_distinct: "distinct (List.map agv_agent_key (default_agent_templates t))"
  unfolding default_templates_keys by (simp add: default_types_def default_key_def)

lemma find_default: "List.find (\<lambda>d. agv_agent_key d = k) (default_agent_templates t) = None \<longleftrightarrow> k \<notin> default_keys"
proof -
  have "agv_agent_key ` set (default_agent_templates t) = default_keys"
    using default_templates_keys [of t] unfolding default_keys_def by (metis list.set_map)
  then show ?thesis by (force simp: find_None_iff)
qed

lemma keyed_agents: "keyed (agents_by_key agents)"
  unfolding agents_by_key_def by (rule iffD2 [OF keyed_by_key]) (simp_all add: keyed_def)

lemma merged_keyed: "keyed (foldl merge_default (agents_by_key agents) (default_agent_templates t))"
  by (rule keyed_merge [OF keyed_agents])

lemma merged_member:
  "a \<in> set (merge_with_default_templates t agents) \<longleftrightarrow>
     (case List.find (\<lambda>d. agv_agent_key d = agv_agent_key a) (default_agent_templates t) of
        None \<Rightarrow> map_of (agents_by_key agents) (agv_agent_key a) = Some a
      | Some d \<Rightarrow> a = restored_as d (map_of (agents_by_key agents) (agv_agent_key a)))"
  using keyed_snd [OF merged_keyed, of a agents t]
  by (auto simp: merge_with_default_templates_def map_of_merge [OF default_templates_distinct] split: option.split)

lemma merged_keys_distinct: "distinct (List.map agv_agent_key (merge_with_default_templates t agents))"
proof -
  let ?m = "foldl merge_default (agents_by_key agents) (default_agent_templates t)"
  have "distinct (List.map agv_agent_key (List.map snd ?m))"
    unfolding keyed_keys [OF merged_keyed] using merged_keyed by (simp add: keyed_def)
  then show ?thesis unfolding merge_with_default_templates_def distinct_map by (simp add: distinct_map)
qed

text \<open>The agent of a key is the last one with it: a \<open>Map\<close> built from the list keeps the last value of a key.\<close>

definition last_of_key :: "agent_view list \<Rightarrow> string \<Rightarrow> agent_view option" where
  "last_of_key agents k = List.find (\<lambda>a. agv_agent_key a = k) (rev agents)"

lemma by_key_last: "map_of (agents_by_key agents) k = last_of_key agents k"
proof (induction agents rule: rev_induct)
  case Nil
  then show ?case by (simp add: agents_by_key_def last_of_key_def)
next
  case (snoc a agents)
  then show ?case by (auto simp: agents_by_key_def last_of_key_def update_conv')
qed

lemma builtin_listed:
  assumes "k \<in> default_keys"
  shows "k \<in> agv_agent_key ` set (merge_with_default_templates t agents)"
proof -
  obtain d where d: "List.find (\<lambda>d. agv_agent_key d = k) (default_agent_templates t) = Some d"
    using assms find_default [of k t] by (cases "List.find (\<lambda>d. agv_agent_key d = k) (default_agent_templates t)") auto
  then have "agv_agent_key d = k" by (auto simp: find_Some_iff)
  then have "restored_as d (map_of (agents_by_key agents) k) \<in> set (merge_with_default_templates t agents)"
    using d by (simp add: merged_member)
  then show ?thesis using \<open>agv_agent_key d = k\<close> by (metis imageI restored_as_key)
qed

lemma restored_as_binding:
  "agv_id (restored_as d (Some e)) = agv_id e" "agv_provider_id (restored_as d (Some e)) = agv_provider_id e"
  "agv_model_override (restored_as d (Some e)) = agv_model_override e"
  by (simp_all add: restored_as_def)


lemma restored_twice [simp]: "restored_as d (Some (restored_as d e)) = restored_as d e"
  by (simp add: restored_as_def split: option.split)

lemma find_own_key:
  "d \<in> set ds \<Longrightarrow> distinct (List.map agv_agent_key ds) \<Longrightarrow> List.find (\<lambda>x. agv_agent_key x = agv_agent_key d) ds = Some d"
  by (induction ds) force+

lemma merge_unchanged:
  "(\<And>d. d \<in> set ds \<Longrightarrow> \<exists>e. map_of m (agv_agent_key d) = Some (restored_as d e)) \<Longrightarrow> foldl merge_default m ds = m"
proof (induction ds)
  case (Cons d ds)
  then obtain e where e: "map_of m (agv_agent_key d) = Some (restored_as d e)" by auto
  then have "merge_default m d = m" by (simp add: merge_default_restored update_triv)
  with Cons show ?case by simp
qed simp

text \<open>Restoring twice is restoring once.\<close>

theorem restore_idempotent:
  "merge_with_default_templates t (merge_with_default_templates t agents) = merge_with_default_templates t agents"
proof -
  let ?out = "merge_with_default_templates t agents"
  have m: "agents_by_key ?out = List.map (\<lambda>a. (agv_agent_key a, a)) ?out"
    by (rule by_key_distinct [OF merged_keys_distinct])
  have "\<exists>e. map_of (agents_by_key ?out) (agv_agent_key d) = Some (restored_as d e)" if "d \<in> set (default_agent_templates t)" for d
  proof -
    have "List.find (\<lambda>x. agv_agent_key x = agv_agent_key d) (default_agent_templates t) = Some d"
      using that default_templates_distinct by (rule find_own_key)
    then have "restored_as d (map_of (agents_by_key agents) (agv_agent_key d)) \<in> set ?out"
      by (simp add: merged_member)
    then show ?thesis
      using keyed_snd [OF keyed_agents, of "restored_as d (map_of (agents_by_key agents) (agv_agent_key d))" ?out]
      by (auto simp: m comp_def)
  qed
  then have "foldl merge_default (agents_by_key ?out) (default_agent_templates t) = agents_by_key ?out"
    by (rule merge_unchanged)
  then have "merge_with_default_templates t ?out = sort_key position_of ?out"
    by (simp add: merge_with_default_templates_def [of t ?out] m comp_def)
  also have "\<dots> = ?out"
    by (rule sort_key_id_if_sorted) (simp add: merge_with_default_templates_def)
  finally show ?thesis .
qed


text \<open>A built-in agent that was switched off is switched on again.\<close>

theorem restore_switches_on:
  assumes "a \<in> set (merge_with_default_templates t agents)" and "agv_agent_key a \<in> default_keys"
  shows "agv_enabled a"
proof -
  obtain d where d: "List.find (\<lambda>d. agv_agent_key d = agv_agent_key a) (default_agent_templates t) = Some d"
    using assms(2) find_default [of "agv_agent_key a" t]
    by (cases "List.find (\<lambda>d. agv_agent_key d = agv_agent_key a) (default_agent_templates t)") auto
  then have "d \<in> set (default_agent_templates t)" by (auto simp: find_Some_iff)
  then have "agv_enabled d" by (auto simp: default_agent_templates_def default_agent_template_def)
  then show ?thesis
    using assms(1) d by (auto simp: merged_member restored_as_def split: option.splits)
qed

subsection \<open>Saving\<close>

text \<open>The agents are sent in the order of the page: sorting by the positions that are sent gives it back.\<close>

theorem saved_order_kept:
  "List.map agv_position (cleaned_agents agents) = List.map (\<lambda>i. Fin (of_nat i)) [0..<length agents] \<and>
   sort_key position_of (cleaned_agents agents) = cleaned_agents agents"
proof -
  have p: "List.map agv_position (cleaned_agents agents) = List.map (\<lambda>i. Fin (of_nat i)) [0..<length agents]"
    by (rule nth_equalityI) (simp_all add: cleaned_agents_def nth_enumerate_eq)
  have "List.map position_of (cleaned_agents agents) = List.map (\<lambda>n. case n of Fin q \<Rightarrow> q | _ \<Rightarrow> 0) (List.map agv_position (cleaned_agents agents))"
    by (simp add: position_of_def)
  also have "\<dots> = List.map rat_of_nat [0..<length agents]" unfolding p by simp
  finally have "sorted (List.map position_of (cleaned_agents agents))"
    by (simp add: sorted_iff_nth_mono)
  then show ?thesis using p by (simp add: sort_key_id_if_sorted)
qed

text \<open>What is changed while a save is on its way is lost when the answer comes.\<close>

theorem late_save_discards_changes:
  fixes s t patch saved now idx
  assumes "\<not> as_loading s" "\<not> as_saving s" "as_tasks s = []"
  defines "u \<equiv> run (settings_step t) s [SeSave, SeChange idx patch, SeSaved (as_next s) now (Inr saved)]"
  shows "as_agents u = saved \<and> ag_defs (as_store u) = List.map agent_value saved \<and> \<not> as_saving u"
  using assms(1-3)
  by (simp add: u_def settings_step_def handle_save_agents_def start_settings_def handle_change_def agents_saved_def
      store_agents_def set_agents_def)

text \<open>A change of the language reads the agents again and drops what was not saved; the answer of an older read is not used.\<close>

theorem language_change_discards_changes:
  fixes s t patch agents cs now idx old
  assumes "\<not> as_loading s" "as_tasks s = []"
  defines "u \<equiv> run (settings_step t) s [SeChange idx patch, SeLanguage, SeLanguage, SeLoaded (Suc (as_next s)) now (Inr (agents, cs)),
    SeLoaded (as_next s) now (Inr old)]"
  shows "as_agents u = agents \<and> as_tasks u = []"
  using assms(1,2)
  by (cases old) (simp add: u_def settings_step_def handle_change_def load_settings_def start_settings_def settings_loaded_def)

subsection \<open>The busy marks\<close>

fun is_load :: "nat \<Rightarrow> settings_task \<Rightarrow> bool" where
  "is_load e (StLoad e') = (e' = e)"
| "is_load e StSave = False"

definition settings_inv :: "agent_settings \<Rightarrow> bool" where
  "settings_inv s \<longleftrightarrow> fresh_table (as_next s) (as_tasks s) \<and>
     (as_loading s \<longrightarrow> has_entry (is_load (as_effect s)) (as_tasks s)) \<and>
     (as_saving s \<longrightarrow> has_entry ((=) StSave) (as_tasks s))"

lemma settings_inv_cong:
  "settings_inv s \<Longrightarrow> as_tasks s' = as_tasks s \<Longrightarrow> as_next s' = as_next s \<Longrightarrow> as_loading s' = as_loading s \<Longrightarrow>
   as_saving s' = as_saving s \<Longrightarrow> as_effect s' = as_effect s \<Longrightarrow> settings_inv s'"
  by (simp add: settings_inv_def)

lemma settings_inv_answered:
  assumes "settings_inv s" and "map_of (as_tasks s) i = Some k" and "as_tasks s' = AList.delete i (as_tasks s)"
    and "as_next s' = as_next s" "as_effect s' = as_effect s"
    and "as_loading s' \<longrightarrow> as_loading s \<and> \<not> is_load (as_effect s) k" "as_saving s' \<longrightarrow> as_saving s \<and> k \<noteq> StSave"
  shows "settings_inv s'"
  using assms has_entry_delete [of "as_next s" "as_tasks s" "is_load (as_effect s)" i k]
    has_entry_delete [of "as_next s" "as_tasks s" "(=) StSave" i k]
  by (auto simp: settings_inv_def)

lemma settings_inv_loaded:
  assumes "settings_inv s" and "map_of (as_tasks s) i = Some (StLoad e)"
  shows "settings_inv (fst (settings_loaded t now e answer (s\<lparr>as_tasks := AList.delete i (as_tasks s)\<rparr>)))"
  by (rule settings_inv_answered [OF assms]) (auto simp: settings_loaded_def split: sum.split)

lemma settings_inv_saved:
  assumes "settings_inv s" and "map_of (as_tasks s) i = Some StSave"
  shows "settings_inv (fst (agents_saved t now answer (s\<lparr>as_tasks := AList.delete i (as_tasks s)\<rparr>)))"
  by (rule settings_inv_answered [OF assms]) (auto simp: agents_saved_def split: sum.split)

lemma settings_inv_step: "settings_inv s \<Longrightarrow> settings_inv (settings_step t s a)"
proof (cases a)
  case SeLanguage
  then show "settings_inv s \<Longrightarrow> settings_inv (settings_step t s a)"
    by (simp add: settings_step_def load_settings_def start_settings_def settings_inv_def)
next
  case SeSave
  then show "settings_inv s \<Longrightarrow> settings_inv (settings_step t s a)"
    by (simp add: settings_step_def handle_save_agents_def start_settings_def settings_inv_def)
qed (auto simp: settings_step_def handle_change_def select_model_def handle_add_def handle_remove_def handle_load_defaults_def
    handle_reset_all_def toggle_row_def split: option.split settings_task.split
    intro: settings_inv_loaded settings_inv_saved elim: settings_inv_cong)

interpretation agent_settings: machine "settings_mounted store" "settings_step t" settings_inv
  by unfold_locales
    (simp add: settings_mounted_def load_settings_def start_settings_def settings_inv_def fresh_table_def, rule settings_inv_step)

text \<open>Once nothing is outstanding the page is neither loading nor saving.\<close>

theorem agent_settings_settle:
  "let s = run (settings_step t) (settings_mounted store) acts in as_tasks s = [] \<longrightarrow> \<not> as_loading s \<and> \<not> as_saving s"
  using agent_settings.inv_run [of t store acts] by (auto simp: settings_inv_def Let_def)

subsection \<open>Examples\<close>

definition demo_agent :: "string \<Rightarrow> agent_view" where
  "demo_agent k = \<lparr>agv_id = k, agv_agent_key = k, agv_type = ''custom'', agv_name = k, agv_identity = [], agv_input_hint = [],
     agv_enabled = False, agv_position = Fin 9, agv_provider_id = ''openai'', agv_model_override = ''gpt''\<rparr>"

theorem agent_model_roundtrip_witness: "decode_agent_model (encode_agent_model (demo_agent ''a'')) = (''openai'', ''gpt'')"
proof -
  have "agv_provider_id (demo_agent ''a'') \<noteq> []" "CHR ''|'' \<notin> set (agv_provider_id (demo_agent ''a''))"
    by (simp_all add: demo_agent_def)
  from agent_model_roundtrip [OF this] show ?thesis by (simp add: demo_agent_def)
qed

theorem restore_switches_on_witness:
  "\<exists>a. agv_agent_key a = ''default-risk'' \<and> agv_provider_id a = ''openai'' \<and>
     a \<in> set (merge_with_default_templates id [demo_agent ''default-risk'']) \<and> agv_enabled a"
proof -
  let ?d = "default_agent_template id (2, ''risk'')" and ?e = "demo_agent ''default-risk''"
  have "?d \<in> set (default_agent_templates id)"
    by (simp add: default_agent_templates_def default_types_def numeral_2_eq_2)
  from find_own_key [OF this default_templates_distinct]
  have "restored_as ?d (Some ?e) \<in> set (merge_with_default_templates id [?e])"
    by (simp add: merged_member) (simp add: agents_by_key_def demo_agent_def default_agent_template_def default_key_def)
  moreover have "agv_agent_key (restored_as ?d (Some ?e)) = ''default-risk''" "agv_provider_id (restored_as ?d (Some ?e)) = ''openai''"
    by (simp_all add: default_agent_template_def default_key_def) (simp add: restored_as_def demo_agent_def)
  ultimately have "\<exists>a. agv_agent_key a = ''default-risk'' \<and> agv_provider_id a = ''openai'' \<and>
     a \<in> set (merge_with_default_templates id [?e])" by blast
  then obtain a where a: "agv_agent_key a = ''default-risk''" "agv_provider_id a = ''openai''"
     "a \<in> set (merge_with_default_templates id [demo_agent ''default-risk''])" by blast
  have "agv_agent_key a \<in> default_keys" by (simp add: a default_keys_def default_types_def default_key_def)
  from restore_switches_on [OF a(3) this] a show ?thesis by blast
qed

definition demo_settings :: agent_settings where
  "demo_settings = (settings_mounted agent_init)\<lparr>as_loading := False, as_tasks := []\<rparr>"

theorem late_save_discards_changes_witness:
  "as_agents (run (settings_step id) demo_settings
     [SeSave, SeChange 0 (\<lambda>a. a), SeSaved (as_next demo_settings) 5 (Inr [demo_agent ''x''])]) = [demo_agent ''x'']"
  using late_save_discards_changes [of demo_settings]
  by (simp add: demo_settings_def settings_mounted_def load_settings_def start_settings_def)

theorem language_change_discards_changes_witness:
  "as_agents (run (settings_step id) demo_settings
     [SeChange 0 (\<lambda>a. a), SeLanguage, SeLanguage, SeLoaded (Suc (as_next demo_settings)) 5 (Inr ([demo_agent ''x''], [])),
      SeLoaded (as_next demo_settings) 5 (Inr ([], []))]) = [demo_agent ''x'']"
  using language_change_discards_changes [of demo_settings]
  by (simp add: demo_settings_def settings_mounted_def load_settings_def start_settings_def)

end
