(* ===== verification/Routes.thy ===== *)
theory Routes
  imports AdminUsers AgentSettings Session
begin

text \<open>
  The routes of the application with their guards (\<open>App.tsx\<close>), the pages for login and registration
  (\<open>pages/auth\<close>), the menus of the layouts (\<open>components/layout\<close>, \<open>pages/ai/AIAssistantLayout.tsx\<close>) and the gate
  before the debates (\<open>pages/ai/components/RequireAIConfig.tsx\<close>).  The matching of a path against the table of
  routes is the work of the router library and a parameter.
\<close>

subsection \<open>The table of routes\<close>

datatype app_page =
    PgLogin | PgRegister | PgDashboard | PgAccountDetail | PgBindAccount | PgSummary | PgDebate | PgSystemAi
  | PgAgents | PgTemplates | PgSchedules | PgScheduleLogs | PgLogs
  | PgAdminDashboard | PgAdminUsers | PgAdminAccounts | PgAdminTrading | PgAdminLogs | PgAdminConfig

datatype guard = GdPublic | GdPrivate | GdAdmin | GdNone

text \<open>A path is the list of its segments; a segment of a pattern is a text or a parameter.\<close>

type_synonym path = "string list"

datatype segment = SgText string | SgParam

datatype route_pattern = RpPath "segment list" | RpRest

datatype route_element = ElPage app_page | ElNavigate path

type_synonym route = "route_pattern \<times> guard \<times> route_element"

definition text_route :: "guard \<Rightarrow> path \<Rightarrow> app_page \<Rightarrow> route" where
  "text_route g p pg = (RpPath (List.map SgText p), g, ElPage pg)"

definition route_table :: "route list" where
  "route_table =
     [text_route GdPublic [''login''] PgLogin,
      text_route GdPublic [''register''] PgRegister,
      text_route GdPrivate [] PgDashboard,
      (RpPath [SgText ''accounts'', SgParam], GdPrivate, ElPage PgAccountDetail),
      text_route GdPrivate [''accounts'', ''bind''] PgBindAccount,
      text_route GdPrivate [''analytics''] PgSummary,
      (RpPath [SgText ''ai''], GdPrivate, ElNavigate [''ai'', ''debate'']),
      text_route GdPrivate [''ai'', ''debate''] PgDebate,
      text_route GdPrivate [''ai'', ''settings''] PgSystemAi,
      text_route GdPrivate [''ai'', ''agents''] PgAgents,
      text_route GdPrivate [''strategy'', ''templates''] PgTemplates,
      text_route GdPrivate [''strategy'', ''schedules''] PgSchedules,
      (RpPath [SgText ''strategy'', SgText ''schedules'', SgParam, SgText ''logs''], GdPrivate, ElPage PgScheduleLogs),
      text_route GdPrivate [''logs''] PgLogs,
      text_route GdAdmin [''admin''] PgAdminDashboard,
      text_route GdAdmin [''admin'', ''users''] PgAdminUsers,
      text_route GdAdmin [''admin'', ''accounts''] PgAdminAccounts,
      text_route GdAdmin [''admin'', ''trading''] PgAdminTrading,
      text_route GdAdmin [''admin'', ''logs''] PgAdminLogs,
      text_route GdAdmin [''admin'', ''config''] PgAdminConfig,
      (RpRest, GdNone, ElNavigate [])]"

definition admin_pages :: "app_page set" where
  "admin_pages = {PgAdminDashboard, PgAdminUsers, PgAdminAccounts, PgAdminTrading, PgAdminLogs, PgAdminConfig}"

definition auth_pages :: "app_page set" where
  "auth_pages = {PgLogin, PgRegister}"

text \<open>
  What the router does by its documentation: it takes a route of the table whose pattern fits, texts in any
  case; a fitting route without parameters is preferred, and the rest route is for what no other fits.
\<close>

fun segment_fits :: "segment \<Rightarrow> string \<Rightarrow> bool" where
  "segment_fits (SgText x) y = (js_lower y = js_lower x)"
| "segment_fits SgParam y = (y \<noteq> [])"

fun pattern_fits :: "route_pattern \<Rightarrow> path \<Rightarrow> bool" where
  "pattern_fits (RpPath sgs) p = list_all2 segment_fits sgs p"
| "pattern_fits RpRest p = True"

fun plain_pattern :: "route_pattern \<Rightarrow> bool" where
  "plain_pattern (RpPath sgs) = (SgParam \<notin> set sgs)"
| "plain_pattern RpRest = False"

locale router =
  fixes route_of :: "path \<Rightarrow> route"
  assumes route_listed: "route_of p \<in> set route_table"
    and route_fits: "pattern_fits (fst (route_of p)) p"
    and plain_preferred: "r \<in> set route_table \<Longrightarrow> plain_pattern (fst r) \<Longrightarrow> pattern_fits (fst r) p \<Longrightarrow> plain_pattern (fst (route_of p))"
    and rest_last: "r \<in> set route_table \<Longrightarrow> fst r \<noteq> RpRest \<Longrightarrow> pattern_fits (fst r) p \<Longrightarrow> fst (route_of p) \<noteq> RpRest"

subsection \<open>Guards\<close>

definition admin_roles :: "string list" where
  "admin_roles = [''super_admin'', ''operation'', ''customer_service'', ''audit'']"

definition is_admin :: "auth_state \<Rightarrow> bool" where
  "is_admin s \<longleftrightarrow> (case jget ''role'' (au_user s) of JStr r \<Rightarrow> r \<in> set admin_roles | _ \<Rightarrow> False)"

datatype view = VwWait | VwPage app_page | VwNavigate path

fun element_view :: "route_element \<Rightarrow> view" where
  "element_view (ElPage pg) = VwPage pg"
| "element_view (ElNavigate p) = VwNavigate p"

definition private_route :: "auth_state \<Rightarrow> view \<Rightarrow> view" where
  "private_route s v = (if au_authenticated s then v else VwNavigate [''login''])"

definition public_route :: "auth_state \<Rightarrow> view \<Rightarrow> view" where
  "public_route s v = (if au_authenticated s then VwNavigate [] else v)"

definition admin_route :: "auth_state \<Rightarrow> view \<Rightarrow> view" where
  "admin_route s v =
     (if \<not> au_authenticated s then VwNavigate [''login'']
      else if \<not> is_admin s then VwNavigate []
      else v)"

fun guarded :: "guard \<Rightarrow> auth_state \<Rightarrow> view \<Rightarrow> view" where
  "guarded GdPublic s v = public_route s v"
| "guarded GdPrivate s v = private_route s v"
| "guarded GdAdmin s v = admin_route s v"
| "guarded GdNone s v = v"

definition app_content :: "(path \<Rightarrow> route) \<Rightarrow> auth_state \<Rightarrow> path \<Rightarrow> view" where
  "app_content route_of s p =
     (if \<not> au_hydrated s then VwWait
      else case route_of p of (_, g, el) \<Rightarrow> guarded g s (element_view el))"

text \<open>Following the redirections; the number bounds them, and none is the answer when it does not suffice.\<close>

fun follow :: "nat \<Rightarrow> (path \<Rightarrow> route) \<Rightarrow> auth_state \<Rightarrow> path \<Rightarrow> (path \<times> view) option" where
  "follow n route_of s p =
     (case app_content route_of s p of
        VwNavigate p' \<Rightarrow> (case n of 0 \<Rightarrow> None | Suc n \<Rightarrow> follow n route_of s p')
      | v \<Rightarrow> Some (p, v))"

declare follow.simps [simp del]

subsection \<open>Where paths lead\<close>

lemma table_simps:
  "r \<in> set route_table \<longleftrightarrow>
     r = (RpPath [SgText ''login''], GdPublic, ElPage PgLogin) \<or> r = (RpPath [SgText ''register''], GdPublic, ElPage PgRegister) \<or>
     r = (RpPath [], GdPrivate, ElPage PgDashboard) \<or>
     r = (RpPath [SgText ''accounts'', SgParam], GdPrivate, ElPage PgAccountDetail) \<or>
     r = (RpPath [SgText ''accounts'', SgText ''bind''], GdPrivate, ElPage PgBindAccount) \<or>
     r = (RpPath [SgText ''analytics''], GdPrivate, ElPage PgSummary) \<or>
     r = (RpPath [SgText ''ai''], GdPrivate, ElNavigate [''ai'', ''debate'']) \<or>
     r = (RpPath [SgText ''ai'', SgText ''debate''], GdPrivate, ElPage PgDebate) \<or>
     r = (RpPath [SgText ''ai'', SgText ''settings''], GdPrivate, ElPage PgSystemAi) \<or>
     r = (RpPath [SgText ''ai'', SgText ''agents''], GdPrivate, ElPage PgAgents) \<or>
     r = (RpPath [SgText ''strategy'', SgText ''templates''], GdPrivate, ElPage PgTemplates) \<or>
     r = (RpPath [SgText ''strategy'', SgText ''schedules''], GdPrivate, ElPage PgSchedules) \<or>
     r = (RpPath [SgText ''strategy'', SgText ''schedules'', SgParam, SgText ''logs''], GdPrivate, ElPage PgScheduleLogs) \<or>
     r = (RpPath [SgText ''logs''], GdPrivate, ElPage PgLogs) \<or>
     r = (RpPath [SgText ''admin''], GdAdmin, ElPage PgAdminDashboard) \<or>
     r = (RpPath [SgText ''admin'', SgText ''users''], GdAdmin, ElPage PgAdminUsers) \<or>
     r = (RpPath [SgText ''admin'', SgText ''accounts''], GdAdmin, ElPage PgAdminAccounts) \<or>
     r = (RpPath [SgText ''admin'', SgText ''trading''], GdAdmin, ElPage PgAdminTrading) \<or>
     r = (RpPath [SgText ''admin'', SgText ''logs''], GdAdmin, ElPage PgAdminLogs) \<or>
     r = (RpPath [SgText ''admin'', SgText ''config''], GdAdmin, ElPage PgAdminConfig) \<or>
     r = (RpRest, GdNone, ElNavigate [])"
  by (simp add: route_table_def text_route_def)

lemma table_pages:
  assumes "(pat, g, ElPage pg) \<in> set route_table"
  shows "pg \<in> auth_pages \<longleftrightarrow> g = GdPublic" "pg \<in> admin_pages \<longleftrightarrow> g = GdAdmin" "g \<noteq> GdNone" "pat \<noteq> RpRest"
  using assms by (auto simp: table_simps auth_pages_def admin_pages_def)

lemma table_navigates:
  assumes "(pat, g, ElNavigate p) \<in> set route_table"
  shows "g = GdPrivate \<and> p = [''ai'', ''debate''] \<or> g = GdNone \<and> p = [] \<and> pat = RpRest"
  using assms by (auto simp: table_simps)

lemma lower_texts [simp]:
  "js_lower ''login'' = ''login''" "js_lower ''register'' = ''register''" "js_lower ''accounts'' = ''accounts''"
  "js_lower ''bind'' = ''bind''" "js_lower ''analytics'' = ''analytics''" "js_lower ''ai'' = ''ai''"
  "js_lower ''debate'' = ''debate''" "js_lower ''settings'' = ''settings''" "js_lower ''agents'' = ''agents''"
  "js_lower ''strategy'' = ''strategy''" "js_lower ''templates'' = ''templates''" "js_lower ''schedules'' = ''schedules''"
  "js_lower ''logs'' = ''logs''" "js_lower ''admin'' = ''admin''" "js_lower ''users'' = ''users''"
  "js_lower ''trading'' = ''trading''" "js_lower ''config'' = ''config''"
  by (code_simp+)

lemma plain_texts: "SgParam \<notin> set sgs \<Longrightarrow> \<exists>q. sgs = List.map SgText q"
proof (induction sgs)
  case (Cons a sgs)
  then show ?case by (cases a) (auto simp: Cons_eq_map_conv)
qed simp

lemma fits_texts: "list_all2 segment_fits (List.map SgText q) p \<longleftrightarrow> List.map js_lower q = List.map js_lower p"
  by (induction q arbitrary: p) (auto simp: list_all2_Cons1 Cons_eq_map_conv)

lemma table_lower: "(RpPath (List.map SgText q), g, el) \<in> set route_table \<Longrightarrow> List.map js_lower q = q"
  by (auto simp: table_simps map_eq_Cons_conv)

lemma table_unique: "(pat, g, el) \<in> set route_table \<Longrightarrow> (pat, g', el') \<in> set route_table \<Longrightarrow> g = g' \<and> el = el'"
proof -
  have "distinct (List.map fst route_table)" by (simp add: route_table_def text_route_def)
  then show "(pat, g, el) \<in> set route_table \<Longrightarrow> (pat, g', el') \<in> set route_table \<Longrightarrow> g = g' \<and> el = el'"
    using eq_key_imp_eq_value [of route_table pat "(g, el)" "(g', el')"] by simp
qed

context router
begin

text \<open>A path that fits one route without parameters has that route.\<close>

lemma route_plain:
  assumes "(RpPath sgs, g, el) \<in> set route_table" "SgParam \<notin> set sgs" "list_all2 segment_fits sgs p"
    and "\<And>r. r \<in> set route_table \<Longrightarrow> plain_pattern (fst r) \<Longrightarrow> pattern_fits (fst r) p \<Longrightarrow> r = (RpPath sgs, g, el)"
  shows "route_of p = (RpPath sgs, g, el)"
  using plain_preferred [OF assms(1), of p] assms(2,3) route_listed route_fits by (intro assms(4)) auto

lemma route_fixed:
  "route_of [] = (RpPath [], GdPrivate, ElPage PgDashboard)"
  "route_of [''login''] = (RpPath [SgText ''login''], GdPublic, ElPage PgLogin)"
  "route_of [''ai'', ''debate''] = (RpPath [SgText ''ai'', SgText ''debate''], GdPrivate, ElPage PgDebate)"
  by (rule route_plain; auto simp: table_simps)+

lemma content_wait: "\<not> au_hydrated s \<Longrightarrow> app_content route_of s p = VwWait"
  by (simp add: app_content_def)

lemma content_login: "au_hydrated s \<Longrightarrow> \<not> au_authenticated s \<Longrightarrow> app_content route_of s [''login''] = VwPage PgLogin"
  by (simp add: app_content_def route_fixed public_route_def)

lemma content_start:
  "au_hydrated s \<Longrightarrow> app_content route_of s [] = (if au_authenticated s then VwPage PgDashboard else VwNavigate [''login''])"
  by (simp add: app_content_def route_fixed private_route_def)

lemma content_debate:
  "au_hydrated s \<Longrightarrow> au_authenticated s \<Longrightarrow> app_content route_of s [''ai'', ''debate''] = VwPage PgDebate"
  by (simp add: app_content_def route_fixed private_route_def)

text \<open>A page that is shown is one that its guard lets through, and every other path is redirected.\<close>

lemma content_cases:
  assumes "au_hydrated s"
  shows "(\<exists>pg. app_content route_of s p = VwPage pg \<and> (pg \<in> auth_pages \<longleftrightarrow> \<not> au_authenticated s) \<and>
      (pg \<in> admin_pages \<longrightarrow> is_admin s)) \<or>
    app_content route_of s p = VwNavigate [''login''] \<and> \<not> au_authenticated s \<or>
    app_content route_of s p = VwNavigate [] \<or>
    app_content route_of s p = VwNavigate [''ai'', ''debate''] \<and> au_authenticated s"
proof -
  obtain pat g el where r: "route_of p = (pat, g, el)" by (cases "route_of p") auto
  then have listed: "(pat, g, el) \<in> set route_table" using route_listed [of p] by simp
  show ?thesis
  proof (cases el)
    case (ElPage pg)
    with listed table_pages [of pat g pg] r assms show ?thesis
      by (cases g) (auto simp: app_content_def public_route_def private_route_def admin_route_def)
  next
    case (ElNavigate q)
    with listed table_navigates [of pat g q] r assms show ?thesis
      by (auto simp: app_content_def private_route_def split: if_splits)
  qed
qed

lemma follow_page: "app_content route_of s p = VwPage pg \<Longrightarrow> follow n route_of s p = Some (p, VwPage pg)"
  by (simp add: follow.simps)

lemma follow_navigate:
  "app_content route_of s p = VwNavigate q \<Longrightarrow> follow (Suc n) route_of s p = follow n route_of s q"
  by (simp add: follow.simps)

lemma follow_wait: "\<not> au_hydrated s \<Longrightarrow> follow n route_of s p = Some (p, VwWait)"
  by (simp add: follow.simps content_wait)

lemma follow_login: "au_hydrated s \<Longrightarrow> \<not> au_authenticated s \<Longrightarrow> follow n route_of s [''login''] = Some ([''login''], VwPage PgLogin)"
  by (rule follow_page) (rule content_login)

lemma follow_start:
  "au_hydrated s \<Longrightarrow> follow (Suc n) route_of s [] =
     (if au_authenticated s then Some ([], VwPage PgDashboard) else Some ([''login''], VwPage PgLogin))"
  by (simp add: content_start follow_login follow_page follow_navigate)

text \<open>Two redirections are enough for every path.\<close>

lemma follow_settles:
  assumes "au_hydrated s"
  shows "\<exists>q pg. follow 2 route_of s p = Some (q, VwPage pg) \<and> (pg \<in> auth_pages \<longleftrightarrow> \<not> au_authenticated s) \<and>
    (pg \<in> admin_pages \<longrightarrow> is_admin s)"
proof -
  have two: "(2 :: nat) = Suc (Suc 0)" by simp
  from content_cases [OF assms, of p] consider
      (page) pg where "app_content route_of s p = VwPage pg" "pg \<in> auth_pages \<longleftrightarrow> \<not> au_authenticated s" "pg \<in> admin_pages \<longrightarrow> is_admin s"
    | (login) "app_content route_of s p = VwNavigate [''login'']" "\<not> au_authenticated s"
    | (start) "app_content route_of s p = VwNavigate []"
    | (debate) "app_content route_of s p = VwNavigate [''ai'', ''debate'']" "au_authenticated s"
    by blast
  then show ?thesis
  proof cases
    case page
    then show ?thesis by (auto simp: follow_page)
  next
    case login
    then show ?thesis using assms by (auto simp: two follow_navigate follow_login auth_pages_def admin_pages_def)
  next
    case start
    then show ?thesis using assms by (auto simp: two follow_navigate follow_start auth_pages_def admin_pages_def)
  next
    case debate
    then show ?thesis
      using assms by (auto simp: two follow_navigate follow_page content_debate auth_pages_def admin_pages_def)
  qed
qed

end

subsection \<open>Login, registration and menus\<close>

definition login_valid :: "(string \<Rightarrow> bool) \<Rightarrow> jv \<Rightarrow> bool" where
  "login_valid email_ok values \<longleftrightarrow>
     form_text ''email'' values \<noteq> [] \<and> email_ok (form_text ''email'' values) \<and> 8 \<le> char_count (form_text ''password'' values)"

definition register_valid :: "(string \<Rightarrow> bool) \<Rightarrow> jv \<Rightarrow> bool" where
  "register_valid email_ok values \<longleftrightarrow>
     login_valid email_ok values \<and> form_text ''confirmPassword'' values = form_text ''password'' values"

text \<open>The page has no field for a nickname, so that the address stands for it.\<close>

definition login_request :: "jv \<Rightarrow> jv" where
  "login_request values = JObj [(''email'', jget ''email'' values), (''password'', jget ''password'' values)]"

definition register_request :: "jv \<Rightarrow> jv" where
  "register_request values = JObj
     [(''email'', jget ''email'' values), (''password'', jget ''password'' values), (''nickname'', jget ''email'' values)]"

text \<open>The segments of a path as it is written.\<close>

fun path_segments :: "string \<Rightarrow> string \<Rightarrow> path" where
  "path_segments acc [] = (if acc = [] then [] else [acc])"
| "path_segments acc (c # x) =
     (if c = CHR ''/'' then (if acc = [] then path_segments [] x else acc # path_segments [] x)
      else path_segments (acc @ [c]) x)"

definition path_of :: "string \<Rightarrow> path" where
  "path_of x = path_segments [] x"

definition main_menu :: "string \<Rightarrow> string list" where
  "main_menu mode =
     (let items = [''/'', ''/ai'', ''/strategy/templates'', ''/strategy/schedules'', ''/logs'']
      in if mode = ''simple'' then filter (\<lambda>k. k = ''/'') items else items)"

definition admin_menu :: "string list" where
  "admin_menu = [''/admin'', ''/admin/users'', ''/admin/accounts'', ''/admin/trading'', ''/admin/logs'', ''/admin/config'']"

definition user_menu :: "auth_state \<Rightarrow> string list" where
  "user_menu s = [''profile'', ''settings''] @ (if is_admin s then [''admin''] else []) @ [''logout'']"

definition ai_tab :: "string \<Rightarrow> string" where
  "ai_tab p =
     (if js_starts p ''/ai/debate'' then ''/ai/debate''
      else if js_starts p ''/ai/agents'' then ''/ai/agents''
      else if js_starts p ''/ai/settings'' then ''/ai/settings''
      else ''/ai/debate'')"

text \<open>The debates are shown when some provider is switched on with a key and a default model.\<close>

definition ai_configured :: "sys_config list outcome \<Rightarrow> bool" where
  "ai_configured answer =
     (case answer of
        Inl _ \<Rightarrow> False
      | Inr items \<Rightarrow> list_ex (\<lambda>c. sg_enabled c \<and> sg_has_secret c \<and> js_trim (sg_default_model c) \<noteq> []) items)"

subsection \<open>The application\<close>

text \<open>
  The session, the path, and the calls in flight; a call of the two pages belongs to the instance of the page
  that made it, which is gone when another page is shown.
\<close>

datatype call_kind = AkLogin | AkRegister | AkLogout

record app_state =
  ap_auth :: auth_state
  ap_path :: path
  ap_loading :: bool
  ap_mount :: nat
  ap_calls :: "(nat \<times> call_kind \<times> nat) list"
  ap_next :: nat

definition app_view :: "(path \<Rightarrow> route) \<Rightarrow> app_state \<Rightarrow> view" where
  "app_view route_of s = app_content route_of (ap_auth s) (ap_path s)"

definition settled_path :: "(path \<Rightarrow> route) \<Rightarrow> auth_state \<Rightarrow> path \<Rightarrow> path" where
  "settled_path route_of s p = (case follow 2 route_of s p of Some (q, _) \<Rightarrow> q | None \<Rightarrow> p)"

definition enter :: "(path \<Rightarrow> route) \<Rightarrow> auth_state \<Rightarrow> path \<Rightarrow> app_state \<Rightarrow> app_state" where
  "enter route_of auth p s =
     (let u = s\<lparr>ap_auth := auth, ap_path := settled_path route_of auth p\<rparr>
      in if app_view route_of u = app_view route_of s then u
         else u\<lparr>ap_loading := False, ap_mount := Suc (ap_mount s)\<rparr>)"

definition app_start :: "(path \<Rightarrow> route) \<Rightarrow> auth_state \<Rightarrow> path \<Rightarrow> app_state" where
  "app_start route_of stored p =
     (let auth = rehydrate stored
      in \<lparr>ap_auth = auth, ap_path = settled_path route_of auth p, ap_loading = False, ap_mount = 0, ap_calls = [], ap_next = 0\<rparr>)"

datatype app_call = AcLogin jv | AcRegister jv | AcLogout

definition start_call :: "call_kind \<Rightarrow> app_state \<Rightarrow> app_state" where
  "start_call k s = s\<lparr>ap_calls := ap_calls s @ [(ap_next s, k, ap_mount s)], ap_next := Suc (ap_next s)\<rparr>"

definition submit_login :: "(string \<Rightarrow> bool) \<Rightarrow> jv \<Rightarrow> app_state \<Rightarrow> app_state \<times> app_call list" where
  "submit_login email_ok values s =
     (if ap_loading s \<or> \<not> login_valid email_ok values then (s, []) else (start_call AkLogin (s\<lparr>ap_loading := True\<rparr>), [AcLogin (login_request values)]))"

definition submit_registration :: "(string \<Rightarrow> bool) \<Rightarrow> jv \<Rightarrow> app_state \<Rightarrow> app_state \<times> app_call list" where
  "submit_registration email_ok values s =
     (if ap_loading s \<or> \<not> register_valid email_ok values then (s, [])
      else (start_call AkRegister (s\<lparr>ap_loading := True\<rparr>), [AcRegister (register_request values)]))"

definition go_to :: "(path \<Rightarrow> route) \<Rightarrow> auth_state \<Rightarrow> string option \<Rightarrow> app_state \<Rightarrow> app_state" where
  "go_to route_of auth target s =
     enter route_of auth (case target of None \<Rightarrow> ap_path s | Some x \<Rightarrow> path_of x) s"

definition call_result ::
    "(string \<Rightarrow> string) \<Rightarrow> call_kind \<Rightarrow> jv outcome \<Rightarrow> auth_state \<Rightarrow> auth_state \<times> string option" where
  "call_result t k answer auth =
     (case k of
        AkLogin \<Rightarrow> (case login t answer auth of (auth, _, target, _) \<Rightarrow> (auth, target))
      | AkRegister \<Rightarrow> (case register t answer auth of (auth, _, target, _) \<Rightarrow> (auth, target))
      | AkLogout \<Rightarrow>
          (case logout t (case answer of Inl e \<Rightarrow> Inl e | Inr _ \<Rightarrow> Inr ()) auth of (auth, _, target, _) \<Rightarrow> (auth, target)))"

definition call_answered ::
    "(path \<Rightarrow> route) \<Rightarrow> (string \<Rightarrow> string) \<Rightarrow> nat \<Rightarrow> jv outcome \<Rightarrow> app_state \<Rightarrow> app_state" where
  "call_answered route_of t i answer s =
     (case map_of (ap_calls s) i of
        None \<Rightarrow> s
      | Some (k, m) \<Rightarrow>
          (let s = s\<lparr>ap_calls := AList.delete i (ap_calls s), ap_loading := ap_loading s \<and> (k = AkLogout \<or> m \<noteq> ap_mount s)\<rparr>;
               (auth, target) = call_result t k answer (ap_auth s)
           in go_to route_of auth target s))"

datatype app_event =
    AvVisit path
  | AvSubmit jv
  | AvAnswer nat "jv outcome"
  | AvLogout
  | AvReload

text \<open>The pages with a layout have a menu to log out; loading the application again forgets its calls.\<close>

definition app_out ::
    "(path \<Rightarrow> route) \<Rightarrow> (string \<Rightarrow> string) \<Rightarrow> (string \<Rightarrow> bool) \<Rightarrow> app_state \<Rightarrow> app_event \<Rightarrow> app_state \<times> app_call list" where
  "app_out route_of t email_ok s a =
     (case a of
        AvVisit p \<Rightarrow> (enter route_of (ap_auth s) p s, [])
      | AvSubmit values \<Rightarrow>
          (case app_view route_of s of
             VwPage pg \<Rightarrow>
               if pg = PgLogin then submit_login email_ok values s
               else if pg = PgRegister then submit_registration email_ok values s
               else (s, [])
           | _ \<Rightarrow> (s, []))
      | AvAnswer i answer \<Rightarrow> (call_answered route_of t i answer s, [])
      | AvLogout \<Rightarrow>
          (case app_view route_of s of
             VwPage pg \<Rightarrow> if pg \<in> auth_pages then (s, []) else (start_call AkLogout s, [AcLogout])
           | _ \<Rightarrow> (s, []))
      | AvReload \<Rightarrow> (app_start route_of (ap_auth s) (ap_path s), []))"

definition app_step ::
    "(path \<Rightarrow> route) \<Rightarrow> (string \<Rightarrow> string) \<Rightarrow> (string \<Rightarrow> bool) \<Rightarrow> app_state \<Rightarrow> app_event \<Rightarrow> app_state" where
  "app_step route_of t email_ok s a = fst (app_out route_of t email_ok s a)"

definition app_calls ::
    "(path \<Rightarrow> route) \<Rightarrow> (string \<Rightarrow> string) \<Rightarrow> (string \<Rightarrow> bool) \<Rightarrow> app_state \<Rightarrow> app_event \<Rightarrow> app_call list" where
  "app_calls route_of t email_ok s a = snd (app_out route_of t email_ok s a)"


subsection \<open>Every path leads to a page that may be seen\<close>

definition guarded_page :: "(path \<Rightarrow> route) \<Rightarrow> app_state \<Rightarrow> bool" where
  "guarded_page route_of s \<longleftrightarrow> au_hydrated (ap_auth s) \<and>
     (\<exists>pg. app_view route_of s = VwPage pg \<and> (pg \<in> auth_pages \<longleftrightarrow> \<not> au_authenticated (ap_auth s)) \<and>
       (pg \<in> admin_pages \<longrightarrow> is_admin (ap_auth s)))"

lemma rehydrate_hydrated [simp]: "au_hydrated (rehydrate s)"
  by (simp add: rehydrate_def Let_def)

lemma call_result_hydrated: "au_hydrated auth \<Longrightarrow> au_hydrated (fst (call_result t k answer auth))"
  by (auto simp: call_result_def login_def register_def logout_def session_defs Let_def split: call_kind.splits sum.splits)

lemma app_view_cong: "ap_auth u = ap_auth s \<Longrightarrow> ap_path u = ap_path s \<Longrightarrow> app_view route_of u = app_view route_of s"
  by (simp add: app_view_def)

lemma start_call_fields [simp]:
  "ap_auth (start_call k s) = ap_auth s" "ap_path (start_call k s) = ap_path s" "ap_loading (start_call k s) = ap_loading s"
  by (simp_all add: start_call_def)

lemma enter_fields [simp]:
  "ap_auth (enter route_of auth p s) = auth" "ap_path (enter route_of auth p s) = settled_path route_of auth p"
  by (simp_all add: enter_def Let_def)

lemma follow_end: "follow n route_of s p = Some (q, v) \<Longrightarrow> app_content route_of s q = v"
proof (induction n arbitrary: p)
  case 0
  then show ?case by (auto simp: follow.simps [of 0] split: view.splits)
next
  case (Suc n)
  then show ?case by (auto simp: follow.simps [of "Suc n"] split: view.splits)
qed

context router
begin

lemma settled_view:
  assumes "au_hydrated auth" "ap_auth s = auth" "ap_path s = settled_path route_of auth p"
  shows "guarded_page route_of s"
proof -
  obtain q pg where q: "follow 2 route_of auth p = Some (q, VwPage pg)"
      "pg \<in> auth_pages \<longleftrightarrow> \<not> au_authenticated auth" "pg \<in> admin_pages \<longrightarrow> is_admin auth"
    using follow_settles [OF assms(1)] by blast
  moreover have "app_content route_of auth q = VwPage pg" using q(1) by (rule follow_end)
  ultimately show ?thesis using assms by (auto simp: guarded_page_def app_view_def settled_path_def)
qed

lemma guarded_start: "guarded_page route_of (app_start route_of stored p)"
  by (rule settled_view [of "rehydrate stored" _ p]) (simp_all add: app_start_def Let_def)

lemma guarded_enter: "au_hydrated auth \<Longrightarrow> guarded_page route_of (enter route_of auth p s)"
  by (rule settled_view [of auth _ p]) simp_all

lemma guarded_cong:
  "guarded_page route_of s \<Longrightarrow> ap_auth u = ap_auth s \<Longrightarrow> ap_path u = ap_path s \<Longrightarrow> guarded_page route_of u"
  by (simp add: guarded_page_def app_view_cong [of u s])

lemma guarded_answered: "guarded_page route_of s \<Longrightarrow> guarded_page route_of (call_answered route_of t i answer s)"
  by (auto simp: call_answered_def go_to_def Let_def split_beta guarded_page_def [of _ s]
      intro!: guarded_enter call_result_hydrated split: option.splits)

lemma guarded_step:
  assumes "guarded_page route_of s"
  shows "guarded_page route_of (app_step route_of t email_ok s a)"
proof -
  have "au_hydrated (ap_auth s)" using assms by (simp add: guarded_page_def)
  then show ?thesis
    using assms guarded_start
    by (cases a) (auto simp: app_step_def app_out_def submit_login_def submit_registration_def
        intro: guarded_enter guarded_answered guarded_cong split: view.splits)
qed

lemma route_text:
  assumes "(RpPath (List.map SgText p), g, el) \<in> set route_table"
  shows "route_of p = (RpPath (List.map SgText p), g, el)"
proof (rule route_plain [OF assms])
  show "SgParam \<notin> set (List.map SgText p)" by auto
  show "list_all2 segment_fits (List.map SgText p) p" by (simp add: list_all2_map1 list.rel_refl)
  fix r
  assume r: "r \<in> set route_table" "plain_pattern (fst r)" "pattern_fits (fst r) p"
  obtain q g' el' where q: "r = (RpPath (List.map SgText q), g', el')"
    using r(2) plain_texts by (cases r; cases "fst r") auto
  then have "List.map js_lower q = List.map js_lower p" using r(3) by (simp add: fits_texts)
  then have "q = p" using r(1) assms q by (simp add: table_lower cong: map_cong)
  with table_unique r(1) assms q show "r = (RpPath (List.map SgText p), g, el)" by blast
qed

lemma follow_text:
  assumes "(RpPath (List.map SgText p), g, ElPage pg) \<in> set route_table" "au_hydrated s"
    and "pg \<in> auth_pages \<longleftrightarrow> \<not> au_authenticated s" "pg \<in> admin_pages \<longrightarrow> is_admin s"
  shows "follow n route_of s p = Some (p, VwPage pg)"
  using assms table_pages [OF assms(1)]
  by (intro follow_page)
    (cases g; simp add: app_content_def route_text [OF assms(1)] public_route_def private_route_def admin_route_def)

lemma follow_unknown:
  assumes "fst (route_of p) = RpRest" "au_hydrated s"
  shows "follow 2 route_of s p =
    (if au_authenticated s then Some ([], VwPage PgDashboard) else Some ([''login''], VwPage PgLogin))"
proof -
  have "route_of p = (RpRest, GdNone, ElNavigate [])"
    using assms(1) route_listed [of p] by (cases "route_of p") (auto simp: table_simps)
  then have "app_content route_of s p = VwNavigate []" using assms(2) by (simp add: app_content_def)
  then show ?thesis by (simp add: numeral_2_eq_2 follow_navigate follow_start [OF assms(2)])
qed

end

sublocale router \<subseteq> app: machine "app_start route_of stored p" "app_step route_of t email_ok" "guarded_page route_of"
    for stored p t email_ok
  by unfold_locales (simp_all add: guarded_start guarded_step)

context router
begin

lemma guarded_run: "guarded_page route_of (run (app_step route_of t email_ok) (app_start route_of stored p) acts)"
  by (rule app.inv_run)

end

text \<open>The router on this table: the first fitting route without parameters, then the first that fits.\<close>

definition best_route :: "path \<Rightarrow> route" where
  "best_route p =
     (case List.find (\<lambda>r. plain_pattern (fst r) \<and> pattern_fits (fst r) p) route_table of
        Some r \<Rightarrow> r
      | None \<Rightarrow>
          (case List.find (\<lambda>r. fst r \<noteq> RpRest \<and> pattern_fits (fst r) p) route_table of
             Some r \<Rightarrow> r
           | None \<Rightarrow> (RpRest, GdNone, ElNavigate [])))"

lemma rest_listed: "(RpRest, GdNone, ElNavigate []) \<in> set route_table"
  by (simp add: table_simps)

lemma find_holds: "List.find P xs = Some x \<Longrightarrow> P x \<and> x \<in> set xs"
  by (auto simp: find_Some_iff)

lemma best_route_cases:
  obtains (plain) "plain_pattern (fst (best_route p))" "pattern_fits (fst (best_route p)) p" "best_route p \<in> set route_table"
  | (other) "\<not> (\<exists>r \<in> set route_table. plain_pattern (fst r) \<and> pattern_fits (fst r) p)" "fst (best_route p) \<noteq> RpRest"
      "pattern_fits (fst (best_route p)) p" "best_route p \<in> set route_table"
  | (rest) "\<not> (\<exists>r \<in> set route_table. fst r \<noteq> RpRest \<and> pattern_fits (fst r) p)" "best_route p = (RpRest, GdNone, ElNavigate [])"
proof (cases "List.find (\<lambda>r. plain_pattern (fst r) \<and> pattern_fits (fst r) p) route_table")
  case (Some r)
  then have "best_route p = r" by (simp add: best_route_def)
  with find_holds [OF Some] show thesis by (intro plain) simp_all
next
  case None
  note no_plain = this
  show thesis
  proof (cases "List.find (\<lambda>r. fst r \<noteq> RpRest \<and> pattern_fits (fst r) p) route_table")
    case (Some r)
    then have "best_route p = r" using no_plain by (simp add: best_route_def)
    with find_holds [OF Some] no_plain show thesis by (intro other) (auto simp: find_None_iff)
  next
    case None
    then have "best_route p = (RpRest, GdNone, ElNavigate [])" using no_plain by (simp add: best_route_def)
    moreover have "\<not> (\<exists>r \<in> set route_table. fst r \<noteq> RpRest \<and> pattern_fits (fst r) p)"
      using None unfolding find_None_iff by blast
    ultimately show thesis by (intro rest) simp_all
  qed
qed

lemma plain_not_rest: "plain_pattern r \<Longrightarrow> r \<noteq> RpRest"
  by auto

interpretation best: router best_route
proof unfold_locales
  fix p r
  show "best_route p \<in> set route_table"
    by (cases p rule: best_route_cases) (simp_all add: rest_listed)
  show "pattern_fits (fst (best_route p)) p"
    by (cases p rule: best_route_cases) simp_all
  assume r: "r \<in> set route_table" "pattern_fits (fst r) p"
  show "plain_pattern (fst (best_route p))" if "plain_pattern (fst r)"
    using r that plain_not_rest by (cases p rule: best_route_cases) blast+
  show "fst (best_route p) \<noteq> RpRest" if "fst r \<noteq> RpRest"
    using r that plain_not_rest by (cases p rule: best_route_cases) blast+
qed


subsection \<open>Properties\<close>

text \<open>
  C18. Whatever the user does and the service answers, the application shows a page that the session may see:
  login and registration exactly without a session, administration only to its roles.
\<close>

theorem shown_page_allowed:
  fixes route_of t email_ok stored p acts
  assumes "router route_of"
  defines "s \<equiv> run (app_step route_of t email_ok) (app_start route_of stored p) acts"
  shows "\<exists>pg. app_view route_of s = VwPage pg \<and>
    (pg \<in> auth_pages \<longleftrightarrow> \<not> au_authenticated (ap_auth s)) \<and> (pg \<in> admin_pages \<longrightarrow> is_admin (ap_auth s))"
  using router.guarded_run [OF assms(1), of t email_ok stored p acts] by (simp add: s_def guarded_page_def)

text \<open>Every page of the table that the session may see is shown under its path, without redirections.\<close>

theorem allowed_page_shown:
  assumes "router route_of" "text_route g p pg \<in> set route_table" "au_hydrated (ap_auth s)"
    and "pg \<in> auth_pages \<longleftrightarrow> \<not> au_authenticated (ap_auth s)" "pg \<in> admin_pages \<longrightarrow> is_admin (ap_auth s)"
  shows "let u = app_step route_of t email_ok s (AvVisit p) in ap_path u = p \<and> app_view route_of u = VwPage pg"
proof -
  have f: "follow 2 route_of (ap_auth s) p = Some (p, VwPage pg)"
    using assms(2-5) unfolding text_route_def by (intro router.follow_text [OF assms(1)]) auto
  then show ?thesis
    using follow_end [OF f] by (simp add: app_step_def app_out_def settled_path_def app_view_def)
qed

text \<open>Links that no route serves: they lead back to the login page, or to the dashboard.\<close>

theorem dead_links:
  assumes "router route_of" "au_hydrated (ap_auth s)"
    and "p \<in> path_of ` {''/terms'', ''/privacy'', ''/forgot-password'', ''/accounts''}"
  shows "app_view route_of (app_step route_of t email_ok s (AvVisit p)) =
    VwPage (if au_authenticated (ap_auth s) then PgDashboard else PgLogin)"
proof -
  have texts: "js_lower ''terms'' = ''terms''" "js_lower ''privacy'' = ''privacy''" "js_lower ''forgot-password'' = ''forgot-password''"
    by code_simp+
  have "\<not> pattern_fits (fst r) p" if "r \<in> set route_table" "fst r \<noteq> RpRest" for r
    using that assms(3) texts by (auto simp: table_simps path_of_def)
  then have "fst (route_of p) = RpRest"
    using router.route_listed [OF assms(1), of p] router.route_fits [OF assms(1), of p] by blast
  from router.follow_unknown [OF assms(1) this assms(2)]
  have f: "follow 2 route_of (ap_auth s) p = (if au_authenticated (ap_auth s)
    then Some ([], VwPage PgDashboard) else Some ([''login''], VwPage PgLogin))" .
  show ?thesis
    by (cases "au_authenticated (ap_auth s)")
      (use f in \<open>simp_all add: app_step_def app_out_def settled_path_def app_view_def\<close>,
       use follow_end [of 2 route_of "ap_auth s" p] f in auto)
qed

text \<open>
  The entries of the menus lead to pages of their own; the entry of the assistants is redirected, so that the
  menu, which marks the entry of the path, never marks it.
\<close>

theorem menu_entries:
  assumes "router route_of" "au_hydrated s" "au_authenticated s"
  shows "(\<forall>k \<in> set (main_menu mode).
      \<exists>pg. follow 2 route_of s (path_of k) = Some (if k = ''/ai'' then [''ai'', ''debate''] else path_of k, VwPage pg)) \<and>
    (is_admin s \<longrightarrow> (\<forall>k \<in> set admin_menu. \<exists>pg. follow 2 route_of s (path_of k) = Some (path_of k, VwPage pg)))"
proof -
  have main: "follow 2 route_of s q = Some (q, VwPage pg)" if "text_route GdPrivate q pg \<in> set route_table" for q pg
    using that assms table_pages [of "RpPath (List.map SgText q)" GdPrivate pg] unfolding text_route_def
    by (intro router.follow_text [OF assms(1)]) auto
  have admin: "follow 2 route_of s q = Some (q, VwPage pg)" if "text_route GdAdmin q pg \<in> set route_table" "is_admin s" for q pg
    using that assms table_pages [of "RpPath (List.map SgText q)" GdAdmin pg] unfolding text_route_def
    by (intro router.follow_text [OF assms(1)]) auto
  have "app_content route_of s [''ai''] = VwNavigate [''ai'', ''debate'']"
    using router.route_text [OF assms(1), of "[''ai'']" GdPrivate "ElNavigate [''ai'', ''debate'']"] assms(2,3)
    by (simp add: app_content_def private_route_def table_simps)
  then have ai: "follow 2 route_of s [''ai''] = Some ([''ai'', ''debate''], VwPage PgDebate)"
    using router.content_debate [OF assms] by (simp add: numeral_2_eq_2 follow.simps)
  show ?thesis
    using ai main [of "[]" PgDashboard] main [of "[''strategy'', ''templates'']" PgTemplates]
      main [of "[''strategy'', ''schedules'']" PgSchedules] main [of "[''logs'']" PgLogs]
      admin [of "[''admin'']" PgAdminDashboard] admin [of "[''admin'', ''users'']" PgAdminUsers]
      admin [of "[''admin'', ''accounts'']" PgAdminAccounts] admin [of "[''admin'', ''trading'']" PgAdminTrading]
      admin [of "[''admin'', ''logs'']" PgAdminLogs] admin [of "[''admin'', ''config'']" PgAdminConfig]
    by (simp add: main_menu_def admin_menu_def path_of_def Let_def route_table_def text_route_def)
qed

text \<open>Once a logout is answered, the login page is shown, and no page of the application without a new login.\<close>

definition signed_out :: "auth_state \<Rightarrow> bool" where
  "signed_out s \<longleftrightarrow> au_hydrated s \<and> \<not> au_authenticated s \<and> (\<exists>p. au_persisted s = Some p \<and> ps_access p = None)"

lemma signed_out_reload: "signed_out s \<Longrightarrow> signed_out (rehydrate s)"
  by (auto simp: signed_out_def rehydrate_def auth_memory_init_def Let_def nonempty_token_def)

lemma signed_out_step:
  assumes "signed_out (ap_auth s)" "\<forall>i r. a \<noteq> AvAnswer i r"
  shows "signed_out (ap_auth (app_step route_of t email_ok s a))"
  using assms
  by (cases a) (auto simp: app_step_def app_out_def submit_login_def submit_registration_def app_start_def Let_def
      signed_out_reload split: view.splits)

lemma signed_out_run:
  assumes "signed_out (ap_auth s)" "\<forall>a \<in> set acts. \<forall>i r. a \<noteq> AvAnswer i r"
  shows "signed_out (ap_auth (run (app_step route_of t email_ok) s acts))"
  using assms
proof (induction acts arbitrary: s)
  case (Cons a acts)
  from Cons.prems(2) have "\<forall>i r. a \<noteq> AvAnswer i r" by simp
  with Cons.prems(1) have "signed_out (ap_auth (app_step route_of t email_ok s a))" by (rule signed_out_step)
  from Cons.IH [OF this] Cons.prems(2) show ?case by simp
qed simp

theorem logout_leads_to_login:
  fixes route_of t email_ok stored p acts later i answer
  defines "s \<equiv> run (app_step route_of t email_ok) (app_start route_of stored p) acts"
    and "u \<equiv> run (app_step route_of t email_ok) (app_start route_of stored p) (acts @ [AvAnswer i answer])"
  assumes "router route_of" "map_of (ap_calls s) i = Some (AkLogout, m)" "\<forall>a \<in> set later. \<forall>j r. a \<noteq> AvAnswer j r"
  shows "app_view route_of u = VwPage PgLogin \<and>
    app_view route_of (run (app_step route_of t email_ok) u later) \<in> VwPage ` auth_pages"
proof -
  have hyd: "au_hydrated (ap_auth s)"
    using router.guarded_run [OF assms(3), of t email_ok stored p acts] by (simp add: s_def guarded_page_def)
  have u: "u = go_to route_of (store_logout (ap_auth s)) (Some ''/login'') (s\<lparr>ap_calls := AList.delete i (ap_calls s)\<rparr>)"
    using assms(4)
    by (simp add: u_def s_def [symmetric] app_step_def app_out_def call_answered_def call_result_def logout_def split: sum.split)
  have path: "path_of ''/login'' = [''login'']" by (simp add: path_of_def)
  have out: "signed_out (store_logout (ap_auth s))"
    using hyd by (simp add: signed_out_def store_logout_def persist_session_def partialize_session_def)
  then have login: "follow 2 route_of (store_logout (ap_auth s)) [''login''] = Some ([''login''], VwPage PgLogin)"
    by (intro router.follow_login [OF assms(3)]) (simp_all add: signed_out_def)
  have "app_view route_of u = VwPage PgLogin"
    using login follow_end [OF login] by (simp add: u go_to_def path app_view_def settled_path_def)
  moreover have "signed_out (ap_auth (run (app_step route_of t email_ok) u later))"
    using out assms(5) by (intro signed_out_run) (simp_all add: u go_to_def)
  moreover have "run (app_step route_of t email_ok) u later =
      run (app_step route_of t email_ok) (app_start route_of stored p) (acts @ [AvAnswer i answer] @ later)"
    by (simp add: u_def)
  ultimately show ?thesis
    using router.guarded_run [OF assms(3), of t email_ok stored p "acts @ [AvAnswer i answer] @ later"]
    by (auto simp: guarded_page_def signed_out_def)
qed

text \<open>
  Logging out clears the session only with the answer of the service: loading the page again before that keeps
  the session, and the answer is lost.
\<close>

theorem reload_keeps_session:
  fixes route_of t email_ok s
  assumes "router route_of" "app_view route_of s = VwPage pg" "pg \<notin> auth_pages" "au_persisted (ap_auth s) = Some q"
    and "nonempty_token (ps_access q)"
  defines "u \<equiv> run (app_step route_of t email_ok) s [AvLogout, AvReload]"
  shows "app_calls route_of t email_ok s AvLogout = [AcLogout] \<and> au_authenticated (ap_auth u) \<and>
    au_access (ap_auth u) = ps_access q \<and> ap_calls u = [] \<and> app_view route_of u \<notin> VwPage ` auth_pages"
proof -
  have out: "app_out route_of t email_ok s AvLogout = (start_call AkLogout s, [AcLogout])"
    using assms(2,3) by (simp add: app_out_def)
  then have u: "u = app_start route_of (ap_auth s) (ap_path s)"
    by (simp add: u_def app_step_def app_out_def [of _ _ _ _ AvReload])
  have "au_authenticated (rehydrate (ap_auth s))" "au_access (rehydrate (ap_auth s)) = ps_access q"
    using assms(4,5) by (simp_all add: rehydrate_def auth_memory_init_def Let_def)
  moreover have "guarded_page route_of u" unfolding u by (rule router.guarded_start [OF assms(1)])
  moreover have "ap_auth u = rehydrate (ap_auth s)" "ap_calls u = []" by (simp_all add: u app_start_def Let_def)
  ultimately show ?thesis using out by (auto simp: app_calls_def guarded_page_def)
qed

text \<open>A login: what is sent is what the rules let through, and its answer opens the dashboard or leaves the page.\<close>

theorem login_outcomes:
  fixes route_of t email_ok s answer
  assumes "router route_of" "app_view route_of s = VwPage PgLogin" "au_hydrated (ap_auth s)"
    and "\<not> ap_loading s" "login_valid email_ok values" "fresh_table (ap_next s) (ap_calls s)"
  defines "sent \<equiv> app_step route_of t email_ok s (AvSubmit values)"
    and "u \<equiv> run (app_step route_of t email_ok) s [AvSubmit values, AvAnswer (ap_next s) answer]"
  shows "app_calls route_of t email_ok s (AvSubmit values) = [AcLogin (login_request values)] \<and> ap_loading sent \<and>
    app_calls route_of t email_ok sent (AvSubmit values) = [] \<and> \<not> ap_loading u \<and>
    (case answer of
       Inr _ \<Rightarrow> app_view route_of u = VwPage PgDashboard
     | Inl _ \<Rightarrow> app_view route_of u = VwPage PgLogin \<and> ap_auth u = ap_auth s)"
proof -
  have valid: "app_out route_of t email_ok s (AvSubmit values) =
      (start_call AkLogin (s\<lparr>ap_loading := True\<rparr>), [AcLogin (login_request values)])"
    using assms(2,4,5) by (simp add: app_out_def submit_login_def)
  then have sent: "sent = start_call AkLogin (s\<lparr>ap_loading := True\<rparr>)" by (simp add: sent_def app_step_def)
  have view: "app_view route_of sent = VwPage PgLogin" using assms(2) by (simp add: sent app_view_def)
  have task: "map_of (ap_calls sent) (ap_next s) = Some (AkLogin, ap_mount s)"
    using fresh_table_key [OF assms(6)] by (simp add: sent start_call_def map_add_def map_of_eq_None_iff [THEN iffD2])
  define s1 where "s1 = sent\<lparr>ap_calls := AList.delete (ap_next s) (ap_calls sent), ap_loading := False\<rparr>"
  have same: "ap_auth s1 = ap_auth s" "ap_path s1 = ap_path s" "ap_mount sent = ap_mount s" "\<not> ap_loading s1"
    by (simp_all add: s1_def sent start_call_def)
  have stays: "settled_path route_of (ap_auth s) (ap_path s) = ap_path s"
    using assms(2) by (simp add: settled_path_def app_view_def follow.simps)
  have u: "u = (case call_result t AkLogin answer (ap_auth s) of (auth, target) \<Rightarrow> go_to route_of auth target s1)"
    using task same by (simp add: u_def sent_def [symmetric] app_step_def [of _ _ _ _ "AvAnswer _ _"] app_out_def [of _ _ _ _ "AvAnswer _ _"]
        call_answered_def s1_def sent start_call_def Let_def)
  have idle: "\<not> ap_loading (enter route_of auth q s1)" for auth q
    using same by (simp add: enter_def Let_def)
  have "app_view route_of u = VwPage PgLogin \<and> ap_auth u = ap_auth s" if "answer = Inl e" for e
    using that same stays assms(2) by (simp add: u call_result_def login_def go_to_def app_view_def)
  moreover have "app_view route_of u = VwPage PgDashboard" if "answer = Inr r" for r
  proof -
    let ?auth = "fst (call_result t AkLogin answer (ap_auth s))"
    have "au_hydrated ?auth" "au_authenticated ?auth" "snd (call_result t AkLogin answer (ap_auth s)) = Some ''/''"
      by (simp_all add: that call_result_def login_def set_tokens_def persist_session_def)
    then have "follow 2 route_of ?auth [] = Some ([], VwPage PgDashboard)"
      using router.follow_start [OF assms(1), of ?auth 1] by (simp add: numeral_2_eq_2)
    moreover have "path_of ''/'' = []" by (simp add: path_of_def)
    ultimately show ?thesis
      using follow_end [of 2 route_of ?auth "[]"] \<open>snd _ = _\<close>
      by (simp add: u go_to_def split_beta app_view_def settled_path_def)
  qed
  moreover have "\<not> ap_loading u" using idle by (simp add: u go_to_def split_beta)
  moreover have "app_calls route_of t email_ok sent (AvSubmit values) = []"
    using view by (simp add: app_calls_def app_out_def submit_login_def sent)
  ultimately show ?thesis
    using valid by (simp add: app_calls_def sent split: sum.split)
qed

text \<open>A registration asks with a password of eight characters or more, entered twice, and sends no other name than the address.\<close>

theorem registration_checked:
  assumes "AcRegister r \<in> set (app_calls route_of t email_ok s a)"
  shows "app_view route_of s = VwPage PgRegister \<and> \<not> ap_loading s \<and>
    (\<exists>values. a = AvSubmit values \<and> register_valid email_ok values \<and> r = register_request values)"
  using assms
  by (cases a) (auto simp: app_calls_def app_out_def submit_login_def submit_registration_def split: view.splits if_splits)

text \<open>A provider that opens the debates also gives the agents a model to choose, if it has a name.\<close>

theorem configured_offers_models:
  assumes "ai_configured (Inr cs)" "\<forall>c \<in> set cs. sg_id c \<noteq> []"
  shows "build_model_options t cs \<noteq> []"
proof -
  obtain c where c: "c \<in> set cs" "sg_enabled c" "sg_has_secret c" "js_trim (sg_default_model c) \<noteq> []"
    using assms(1) by (auto simp: ai_configured_def list_ex_iff)
  have "js_trim [] = []" by (simp add: js_trim_def)
  then have "sg_default_model c \<noteq> []" using c(4) by auto
  then have "usable_models c \<noteq> []" by (simp add: usable_models_def Let_def)
  with c assms(2) show ?thesis by (force simp: build_model_options_def)
qed


subsection \<open>Examples\<close>

text \<open>A stored session of a user without a role.\<close>

definition demo_stored_session :: auth_state where
  "demo_stored_session = set_tokens ''a'' ''r'' (JObj [(''id'', JStr ''u'')]) auth_init"

definition demo_app :: app_state where
  "demo_app = app_start best_route demo_stored_session []"

lemma demo_app_facts:
  "app_view best_route demo_app = VwPage PgDashboard" "ap_calls demo_app = []" "ap_next demo_app = 0"
  "au_persisted (ap_auth demo_app) = Some \<lparr>ps_access = Some ''a'', ps_refresh = Some ''r'', ps_user = JObj [(''id'', JStr ''u'')]\<rparr>"
  by code_simp+

theorem shown_page_allowed_witness:
  "\<exists>pg. app_view best_route (run (app_step best_route id (\<lambda>_. True)) (app_start best_route demo_stored_session [])
      [AvVisit [''admin''], AvLogout, AvAnswer 0 (Inr JNull)]) = VwPage pg"
  using shown_page_allowed [OF best.router_axioms, where acts = "[AvVisit [''admin''], AvLogout, AvAnswer 0 (Inr JNull)]"
      and stored = demo_stored_session and p = "[]" and t = id and email_ok = "\<lambda>_. True"] by blast

theorem allowed_page_shown_witness:
  "ap_path (app_step best_route id (\<lambda>_. True) demo_app (AvVisit [''logs''])) = [''logs'']"
proof -
  have "au_hydrated (ap_auth demo_app)" "au_authenticated (ap_auth demo_app)" by code_simp+
  then show ?thesis
    using allowed_page_shown [OF best.router_axioms, where g = GdPrivate and p = "[''logs'']" and pg = PgLogs and s = demo_app
        and t = id and email_ok = "\<lambda>_. True"]
    by (simp add: route_table_def text_route_def auth_pages_def admin_pages_def Let_def)
qed

theorem dead_links_witness:
  "app_view best_route (app_step best_route id (\<lambda>_. True) demo_app (AvVisit (path_of ''/accounts''))) = VwPage PgDashboard"
proof -
  have "au_hydrated (ap_auth demo_app)" "au_authenticated (ap_auth demo_app)" by code_simp+
  then show ?thesis
    using dead_links [OF best.router_axioms, where s = demo_app and p = "path_of ''/accounts''" and t = id and email_ok = "\<lambda>_. True"]
    by simp
qed

theorem menu_entries_witness:
  "\<exists>q pg. follow 2 best_route (ap_auth demo_app) (path_of ''/ai'') = Some (q, VwPage pg) \<and> q = [''ai'', ''debate'']"
proof -
  have "au_hydrated (ap_auth demo_app)" "au_authenticated (ap_auth demo_app)" by code_simp+
  from menu_entries [OF best.router_axioms this, of "''full''"] show ?thesis
    by (auto simp: main_menu_def)
qed

theorem logout_leads_to_login_witness:
  "app_view best_route (run (app_step best_route id (\<lambda>_. True)) (app_start best_route demo_stored_session [])
      [AvLogout, AvAnswer 0 (Inl JNull)]) = VwPage PgLogin"
proof -
  have "map_of (ap_calls (run (app_step best_route id (\<lambda>_. True)) (app_start best_route demo_stored_session []) [AvLogout])) 0 =
      Some (AkLogout, 0)"
    by code_simp
  from logout_leads_to_login [OF best.router_axioms this, where later = "[]" and answer = "Inl JNull"] show ?thesis by simp
qed

theorem reload_keeps_session_witness:
  "au_access (ap_auth (run (app_step best_route id (\<lambda>_. True)) demo_app [AvLogout, AvReload])) = Some ''a''"
proof -
  have "PgDashboard \<notin> auth_pages" by (simp add: auth_pages_def)
  from reload_keeps_session [OF best.router_axioms demo_app_facts(1) this demo_app_facts(4), of id "\<lambda>_. True"]
  show ?thesis by (simp add: nonempty_token_def)
qed

theorem login_outcomes_witness:
  "app_view best_route (run (app_step best_route id (\<lambda>_. True)) (app_start best_route auth_init [])
      [AvSubmit (JObj [(''email'', JStr ''e''), (''password'', JStr ''12345678'')]), AvAnswer 0 (Inr (JObj []))]) = VwPage PgDashboard"
proof -
  let ?s = "app_start best_route auth_init []"
  have "app_view best_route ?s = VwPage PgLogin" "au_hydrated (ap_auth ?s)" "\<not> ap_loading ?s" "ap_calls ?s = []" "ap_next ?s = 0"
    "login_valid (\<lambda>_. True) (JObj [(''email'', JStr ''e''), (''password'', JStr ''12345678'')])"
    by code_simp+
  then show ?thesis
    using login_outcomes [OF best.router_axioms, of ?s "\<lambda>_. True"
      "JObj [(''email'', JStr ''e''), (''password'', JStr ''12345678'')]" id "Inr (JObj [])"] by simp
qed

theorem registration_checked_witness:
  "\<exists>r. register_valid (\<lambda>_. True) r"
proof -
  let ?v = "JObj [(''email'', JStr ''e''), (''password'', JStr ''12345678''), (''confirmPassword'', JStr ''12345678'')]"
  let ?s = "app_start best_route auth_init [''register'']"
  have "app_calls best_route id (\<lambda>_. True) ?s (AvSubmit ?v) = [AcRegister (register_request ?v)]"
    by code_simp
  then show ?thesis
    using registration_checked [of "register_request ?v" best_route id "\<lambda>_. True" ?s "AvSubmit ?v"] by auto
qed

theorem configured_offers_models_witness:
  "build_model_options id [(new_custom ''c'')\<lparr>sg_enabled := True, sg_has_secret := True, sg_default_model := ''m''\<rparr>] \<noteq> []"
proof -
  let ?c = "(new_custom ''c'')\<lparr>sg_enabled := True, sg_has_secret := True, sg_default_model := ''m''\<rparr>"
  have "ai_configured (Inr [?c])" "sg_id ?c = ''c''" by code_simp+
  then show ?thesis using configured_offers_models [of "[?c]" id] by simp
qed

end
