(* ===== verification/AccountPage.thy ===== *)
theory AccountPage
  imports AccountStore TradingHook TaskTable AnalyticsPage
begin

text \<open>
  The page of an account (\<open>pages/accounts/AccountDetail.tsx\<close> with \<open>AccountTradeTabs.tsx\<close>, \<open>AccountDetail.utils.ts\<close>
  and \<open>AccountDetail.shared.tsx\<close> in \<open>pages/accounts/components\<close>): what it loads, its operations over the store of
  \<open>AccountStore\<close>, and what it shows.
\<close>

subsection \<open>State\<close>

datatype detail_call =
    DcGet string
  | DcAnalytics string int
  | DcHistory string nat
  | DcUpdate string bool
  | DcConnect string
  | DcSync string

datatype detail_effect =
    DeCall detail_call
  | DeTrading "string option"
  | DePositions string bool
  | DeToast toast
  | DeWaiting bool
  | DeDone string
  | DeFailed string
  | DeNavigate string

text \<open>
  An operation in flight keeps the account it is for, and the instance of the page that started it: what it
  changes on a page that is gone is lost, what it changes in the store is not.
\<close>

datatype detail_task =
    DkInit string int nat
  | DkLoad string nat bool
  | DkHistory string nat nat
  | DkEnable string
  | DkEnableGet string
  | DkEnabled string
  | DkDisable string
  | DkDisableGet string
  | DkRollback string
  | DkDisabled string
  | DkConnect string nat
  | DkConnected string nat
  | DkSync string int nat

record detail_page =
  dt_store :: account_state
  dt_open :: "(string \<times> nat) option"
  dt_instances :: nat
  dt_year :: int
  dt_loading :: bool
  dt_analytics :: jv
  dt_monthly :: jv
  dt_years :: jv
  dt_months :: jv
  dt_syncing :: bool
  dt_connecting :: bool
  dt_trades :: "jv list"
  dt_total :: jv
  dt_history_page :: nat
  dt_tasks :: "(nat \<times> detail_task) list"
  dt_next :: nat

type_synonym detail_run = "detail_page \<Rightarrow> detail_page \<times> detail_effect list"

definition detail_init :: "int \<Rightarrow> account_state \<Rightarrow> detail_page" where
  "detail_init year store =
     \<lparr>dt_store = store, dt_open = None, dt_instances = 0, dt_year = year, dt_loading = False, dt_analytics = JNull,
      dt_monthly = JArr [], dt_years = JArr [], dt_months = JArr [], dt_syncing = False, dt_connecting = False,
      dt_trades = [], dt_total = JNum (Fin 0), dt_history_page = 1, dt_tasks = [], dt_next = 0\<rparr>"

definition fresh_instance :: "int \<Rightarrow> detail_page \<Rightarrow> detail_page" where
  "fresh_instance year s =
     (detail_init year (dt_store s))\<lparr>dt_instances := Suc (dt_instances s), dt_tasks := dt_tasks s, dt_next := dt_next s\<rparr>"

subsection \<open>Building blocks\<close>

definition seq_run :: "detail_run \<Rightarrow> detail_run \<Rightarrow> detail_run" where
  "seq_run f g s = (let (s, out) = f s; (s, out') = g s in (s, out @ out'))"

definition emit :: "detail_effect list \<Rightarrow> detail_run" where
  "emit out s = (s, out)"

definition change :: "(detail_page \<Rightarrow> detail_page) \<Rightarrow> detail_run" where
  "change f s = (f s, [])"

definition on_page :: "nat \<Rightarrow> (detail_page \<Rightarrow> detail_page) \<Rightarrow> detail_run" where
  "on_page inst f s = (case dt_open s of Some (_, k) \<Rightarrow> if k = inst then (f s, []) else (s, []) | None \<Rightarrow> (s, []))"

definition ask :: "detail_task \<Rightarrow> detail_call \<Rightarrow> detail_run" where
  "ask k c s = (s\<lparr>dt_tasks := dt_tasks s @ [(dt_next s, k)], dt_next := Suc (dt_next s)\<rparr>, [DeCall c])"

definition in_store :: "(account_state \<Rightarrow> account_state) \<Rightarrow> detail_run" where
  "in_store f = change (\<lambda>s. s\<lparr>dt_store := f (dt_store s)\<rparr>)"

definition current_id :: "detail_page \<Rightarrow> string" where
  "current_id s = (case account_id (ac_current (dt_store s)) of JStr i \<Rightarrow> i | _ \<Rightarrow> [])"

definition current_disabled :: "detail_page \<Rightarrow> bool" where
  "current_disabled s = truthy (jget ''isDisabled'' (ac_current (dt_store s)))"

subsection \<open>Loading\<close>

definition load_all_data :: "string \<Rightarrow> int \<Rightarrow> nat \<Rightarrow> bool \<Rightarrow> detail_run" where
  "load_all_data i year inst syncing =
     seq_run (on_page inst (\<lambda>s. s\<lparr>dt_loading := True\<rparr>)) (ask (DkLoad i inst syncing) (DcAnalytics i year))"

definition fetch_if_enabled :: "string \<Rightarrow> bool \<Rightarrow> detail_run" where
  "fetch_if_enabled i show_loading s = (s, if current_disabled s then [] else [DePositions i show_loading])"

definition init_loaded :: "string \<Rightarrow> int \<Rightarrow> nat \<Rightarrow> detail_run" where
  "init_loaded i year inst = seq_run (load_all_data i year inst False) (fetch_if_enabled i False)"

text \<open>The effect of the page: an account of the list is shown at once, another one is asked for.\<close>

definition account_effect :: "string \<Rightarrow> int \<Rightarrow> nat \<Rightarrow> detail_run" where
  "account_effect i year inst = seq_run (emit [DeTrading (Some i)])
     (\<lambda>s. case List.find (same_id (JStr i)) (ac_accounts (dt_store s)) of
        Some a \<Rightarrow> seq_run (in_store (set_current_account a)) (init_loaded i year inst) s
      | None \<Rightarrow> ask (DkInit i year inst) (DcGet i) s)"

definition close_page :: detail_run where
  "close_page s = (case dt_open s of None \<Rightarrow> (s, []) | Some _ \<Rightarrow> (s\<lparr>dt_open := None\<rparr>, [DeTrading None]))"

definition open_page :: "int \<Rightarrow> string \<Rightarrow> detail_run" where
  "open_page this_year i s =
     (case dt_open s of
        None \<Rightarrow>
          (let u = fresh_instance this_year s; inst = dt_instances u
           in account_effect i this_year inst (u\<lparr>dt_open := Some (i, inst)\<rparr>))
      | Some (j, inst) \<Rightarrow>
          if j = i then (s, [])
          else seq_run (emit [DeTrading None]) (account_effect i (dt_year s) inst) (s\<lparr>dt_open := Some (i, inst)\<rparr>))"

text \<open>The buttons of the years are not shown while the analytics are loaded.\<close>

definition select_year :: "int \<Rightarrow> detail_run" where
  "select_year year s =
     (case dt_open s of
        Some (i, inst) \<Rightarrow>
          if year = dt_year s \<or> dt_loading s then (s, [])
          else seq_run (emit [DeTrading None]) (account_effect i year inst) (s\<lparr>dt_year := year\<rparr>)
      | None \<Rightarrow> (s, []))"

subsection \<open>Events of positions\<close>

definition trade_of_order :: "jv \<Rightarrow> jv" where
  "trade_of_order order = JObj
     (List.map (\<lambda>k. (k, jget k order))
        [''ticket'', ''symbol'', ''type'', ''volume'', ''openPrice'', ''closePrice'', ''profit'', ''openTime'', ''closeTime''] @
      [(''swap'', js_or (jget ''swap'' order) (JNum (Fin 0))), (''commission'', js_or (jget ''commission'' order) (JNum (Fin 0))),
       (''comment'', js_or (jget ''comment'' order) (JStr []))])"

definition add_history_trade :: "jv \<Rightarrow> jv list \<Rightarrow> jv list" where
  "add_history_trade order trades =
     (if list_ex (\<lambda>r. js_strict_eq (jget ''ticket'' r) (jget ''ticket'' order)) trades then trades
      else trade_of_order order # trades)"

definition handle_position_change :: "string \<Rightarrow> jv \<Rightarrow> detail_run" where
  "handle_position_change action order s =
     (case dt_open s of
        None \<Rightarrow> (s, [])
      | Some (i, inst) \<Rightarrow>
          if action = ''PositionClose'' \<and> truthy order then
            seq_run (fetch_if_enabled i True)
              (seq_run (on_page inst (\<lambda>s. s\<lparr>dt_trades := add_history_trade order (dt_trades s)\<rparr>))
                (load_all_data i (dt_year s) inst False)) s
          else if action \<in> {''PositionOpen'', ''PendingOpen''} then
            seq_run (fetch_if_enabled i True) (load_all_data i (dt_year s) inst False) s
          else (s, []))"

subsection \<open>Operations\<close>

definition refresh_analytics :: detail_run where
  "refresh_analytics s =
     (case dt_open s of
        Some (i, inst) \<Rightarrow> if dt_loading s then (s, []) else load_all_data i (dt_year s) inst False s
      | None \<Rightarrow> (s, []))"

text \<open>The tag of the state reacts to a click when the account is disconnected or in error.\<close>

definition handle_connect :: detail_run where
  "handle_connect s =
     (case dt_open s of
        Some (_, inst) \<Rightarrow>
          if \<not> truthy (ac_current (dt_store s)) \<or> dt_connecting s \<or>
            jget ''status'' (ac_current (dt_store s)) \<notin> {JStr ''disconnected'', JStr ''error''} then (s, [])
          else seq_run (change (\<lambda>s. s\<lparr>dt_connecting := True\<rparr>))
            (ask (DkConnect (current_id s) inst) (DcConnect (current_id s))) s
      | None \<Rightarrow> (s, []))"

definition toggle_account :: "(string \<Rightarrow> string) \<Rightarrow> detail_run" where
  "toggle_account t s =
     (if dt_open s = None \<or> \<not> truthy (ac_current (dt_store s)) then (s, [])
      else let i = current_id s
        in if current_disabled s then
          seq_run (emit [DeWaiting True])
            (seq_run (in_store (\<lambda>a. update_account_status i ''connecting'' (set_enabling_account (Some i) a)))
              (ask (DkEnable i) (DcUpdate i False))) s
        else seq_run (in_store (update_account_status i ''disconnected'')) (ask (DkDisable i) (DcUpdate i True)) s)"

definition sync_history :: detail_run where
  "sync_history s =
     (case dt_open s of
        Some (i, inst) \<Rightarrow>
          if dt_syncing s \<or> jget ''status'' (ac_current (dt_store s)) \<noteq> JStr ''connected'' then (s, [])
          else seq_run (change (\<lambda>s. s\<lparr>dt_syncing := True\<rparr>)) (ask (DkSync i (dt_year s) inst) (DcSync i)) s
      | None \<Rightarrow> (s, []))"

definition turn_history_page :: "nat \<Rightarrow> detail_run" where
  "turn_history_page p s =
     (case dt_open s of
        Some (i, inst) \<Rightarrow> if dt_trades s = [] then (s, []) else ask (DkHistory i p inst) (DcHistory i p) s
      | None \<Rightarrow> (s, []))"

subsection \<open>Answers\<close>

definition take_loaded :: "jv \<times> jv \<times> jv \<times> jv \<Rightarrow> detail_page \<Rightarrow> detail_page" where
  "take_loaded r s =
     (case r of (analytics, trades, monthly, months) \<Rightarrow>
        s\<lparr>dt_analytics := analytics, dt_trades := jv_list (js_or (jget ''trades'' trades) (JArr [])),
          dt_total := js_or (jget ''total'' trades) (JNum (Fin 0)), dt_history_page := 1,
          dt_monthly := js_or (jget ''monthlyPnl'' monthly) (JArr []),
          dt_years := js_or (jget ''years'' months) (JArr []), dt_months := js_or (jget ''data'' months) (JArr [])\<rparr>)"

text \<open>The text of the code for analytics that cannot be loaded, in Chinese.\<close>

definition analytics_failed_text :: string where
  "analytics_failed_text =
     [CHR 0xE5, CHR 0x8A, CHR 0xA0, CHR 0xE8, CHR 0xBD, CHR 0xBD, CHR 0xE5, CHR 0x88, CHR 0x86, CHR 0xE6, CHR 0x9E, CHR 0x90,
      CHR 0xE6, CHR 0x95, CHR 0xB0, CHR 0xE6, CHR 0x8D, CHR 0xAE, CHR 0xE5, CHR 0xA4, CHR 0xB1, CHR 0xE8, CHR 0xB4, CHR 0xA5]"

definition loaded :: "(string \<Rightarrow> string) \<Rightarrow> nat \<Rightarrow> bool \<Rightarrow> (jv \<times> jv \<times> jv \<times> jv) outcome \<Rightarrow> detail_run" where
  "loaded t inst syncing answer =
     seq_run
       (case answer of
          Inr r \<Rightarrow> on_page inst (take_loaded r)
        | Inl e \<Rightarrow> emit [DeToast (ToastError (get_error_message t e analytics_failed_text))])
       (on_page inst (\<lambda>s. s\<lparr>dt_loading := False, dt_syncing := dt_syncing s \<and> \<not> syncing\<rparr>))"

text \<open>The hook's reading of an account, which shows it as the current one.\<close>

definition account_read :: "(string \<Rightarrow> string) \<Rightarrow> jv outcome \<Rightarrow> detail_run" where
  "account_read t answer s =
     (case fetch_account t False answer (dt_store s) of
        (store, toasts, _) \<Rightarrow> (s\<lparr>dt_store := store\<rparr>, List.map DeToast toasts))"

definition leave_to :: "string \<Rightarrow> detail_run" where
  "leave_to p = seq_run (emit [DeNavigate p]) close_page"

definition init_read :: "(string \<Rightarrow> string) \<Rightarrow> string \<Rightarrow> int \<Rightarrow> nat \<Rightarrow> jv outcome \<Rightarrow> detail_run" where
  "init_read t i year inst answer = seq_run (account_read t answer)
     (case answer of
        Inr a \<Rightarrow>
          if truthy a then init_loaded i year inst
          else seq_run (emit [DeFailed (t ''accounts.detail.messages.fetchAccountFailed'')]) (leave_to ''/accounts'')
      | Inl _ \<Rightarrow> seq_run (emit [DeFailed (t ''accounts.detail.messages.fetchAccountFailed'')]) (leave_to ''/accounts''))"

definition history_read :: "nat \<Rightarrow> nat \<Rightarrow> jv outcome \<Rightarrow> detail_run" where
  "history_read p inst answer =
     (case answer of
        Inr r \<Rightarrow> on_page inst (\<lambda>s. s\<lparr>dt_trades := jv_list (js_or (jget ''trades'' r) (JArr [])),
            dt_total := js_or (jget ''total'' r) (JNum (Fin 0)), dt_history_page := p\<rparr>)
      | Inl _ \<Rightarrow> emit [])"

definition toggle_failed :: "(string \<Rightarrow> string) \<Rightarrow> detail_effect" where
  "toggle_failed t = DeFailed (t ''common.operationFailed'')"

definition enable_answered :: "(string \<Rightarrow> string) \<Rightarrow> string \<Rightarrow> jv outcome \<Rightarrow> detail_run" where
  "enable_answered t i answer =
     (case answer of
        Inr _ \<Rightarrow> ask (DkEnableGet i) (DcGet i)
      | Inl _ \<Rightarrow> seq_run (in_store (set_enabling_account None)) (emit [DeWaiting False, toggle_failed t]))"

definition enable_read :: "(string \<Rightarrow> string) \<Rightarrow> string \<Rightarrow> jv outcome \<Rightarrow> detail_run" where
  "enable_read t i answer =
     (case answer of
        Inr a \<Rightarrow> seq_run (in_store (\<lambda>s. set_enabling_account None (update_account a s))) (ask (DkEnabled i) (DcGet i))
      | Inl _ \<Rightarrow> seq_run (in_store (set_enabling_account None)) (emit [DeWaiting False, toggle_failed t]))"

definition disable_failed :: "(string \<Rightarrow> string) \<Rightarrow> string \<Rightarrow> jv \<Rightarrow> detail_run" where
  "disable_failed t i e =
     seq_run (emit [DeToast (error_toast t e ''accounts.messages.disableFailed'')]) (ask (DkRollback i) (DcGet i))"

definition disable_answered :: "(string \<Rightarrow> string) \<Rightarrow> string \<Rightarrow> jv outcome \<Rightarrow> detail_run" where
  "disable_answered t i answer =
     (case answer of Inr _ \<Rightarrow> ask (DkDisableGet i) (DcGet i) | Inl e \<Rightarrow> disable_failed t i e)"

definition disable_read :: "(string \<Rightarrow> string) \<Rightarrow> string \<Rightarrow> jv outcome \<Rightarrow> detail_run" where
  "disable_read t i answer =
     (case answer of
        Inr a \<Rightarrow> seq_run (in_store (update_account a)) (ask (DkDisabled i) (DcGet i))
      | Inl e \<Rightarrow> disable_failed t i e)"

definition disable_rolled_back :: "(string \<Rightarrow> string) \<Rightarrow> jv outcome \<Rightarrow> detail_run" where
  "disable_rolled_back t answer =
     seq_run (case answer of Inr a \<Rightarrow> in_store (update_account a) | Inl _ \<Rightarrow> emit []) (emit [toggle_failed t])"

lemmas disable_defs = disable_answered_def disable_read_def disable_failed_def disable_rolled_back_def

definition connect_answered :: "(string \<Rightarrow> string) \<Rightarrow> string \<Rightarrow> nat \<Rightarrow> jv outcome \<Rightarrow> detail_run" where
  "connect_answered t i inst answer =
     (case answer of
        Inl e \<Rightarrow> seq_run (emit (List.map DeToast (snd (connect_trading_account t answer))))
          (on_page inst (\<lambda>s. s\<lparr>dt_connecting := False\<rparr>))
      | Inr r \<Rightarrow>
          (let msg = translate_maybe_i18n_key t (jget ''message'' r) (t ''common.operationFailed'')
           in seq_run
             (emit (if jget ''success'' r = JBool False then [DeToast (ToastError msg)]
                    else if truthy (jget ''message'' r) then [DeToast (ToastSuccess msg)] else []))
             (seq_run (emit [DePositions i False]) (ask (DkConnected i inst) (DcGet i)))))"

definition sync_answered :: "(string \<Rightarrow> string) \<Rightarrow> string \<Rightarrow> int \<Rightarrow> nat \<Rightarrow> jv outcome \<Rightarrow> detail_run" where
  "sync_answered t i year inst answer =
     (case answer of
        Inr _ \<Rightarrow> seq_run (emit [DeToast (ToastSuccess (t ''accounts.detail.messages.syncHistorySuccess''))])
          (load_all_data i year inst True)
      | Inl _ \<Rightarrow> seq_run (emit [DeToast (ToastError (t ''accounts.detail.messages.syncHistoryFailed''))])
          (on_page inst (\<lambda>s. s\<lparr>dt_syncing := False\<rparr>)))"

definition task_answered :: "(string \<Rightarrow> string) \<Rightarrow> detail_task \<Rightarrow> jv outcome \<Rightarrow> detail_run" where
  "task_answered t k answer =
     (case k of
        DkInit i year inst \<Rightarrow> init_read t i year inst answer
      | DkLoad _ _ _ \<Rightarrow> emit []
      | DkHistory _ p inst \<Rightarrow> history_read p inst answer
      | DkEnable i \<Rightarrow> enable_answered t i answer
      | DkEnableGet i \<Rightarrow> enable_read t i answer
      | DkEnabled _ \<Rightarrow> seq_run (account_read t answer)
          (emit [DeWaiting False, DeDone (t ''accounts.messages.enabledSuccess'')])
      | DkDisable i \<Rightarrow> disable_answered t i answer
      | DkDisableGet i \<Rightarrow> disable_read t i answer
      | DkRollback _ \<Rightarrow> disable_rolled_back t answer
      | DkDisabled _ \<Rightarrow> seq_run (account_read t answer) (emit [DeDone (t ''accounts.messages.disabledSuccess'')])
      | DkConnect i inst \<Rightarrow> connect_answered t i inst answer
      | DkConnected _ inst \<Rightarrow> seq_run (account_read t answer) (on_page inst (\<lambda>s. s\<lparr>dt_connecting := False\<rparr>))
      | DkSync i year inst \<Rightarrow> sync_answered t i year inst answer)"

datatype detail_event =
    DvOpen string
  | DvClose
  | DvYear int
  | DvPosition string jv
  | DvRefresh
  | DvConnect
  | DvToggle
  | DvSync
  | DvHistory nat
  | DvStore account_action
  | DvAnswer nat "jv outcome"
  | DvLoaded nat "(jv \<times> jv \<times> jv \<times> jv) outcome"

definition end_detail_task :: "nat \<Rightarrow> detail_page \<Rightarrow> detail_page" where
  "end_detail_task i s = s\<lparr>dt_tasks := AList.delete i (dt_tasks s)\<rparr>"

definition detail_out :: "(string \<Rightarrow> string) \<Rightarrow> int \<Rightarrow> detail_page \<Rightarrow> detail_event \<Rightarrow> detail_page \<times> detail_effect list" where
  "detail_out t this_year s a =
     (case a of
        DvOpen i \<Rightarrow> if i = [] then (s, []) else open_page this_year i s
      | DvClose \<Rightarrow> close_page s
      | DvYear y \<Rightarrow> select_year y s
      | DvPosition action order \<Rightarrow> handle_position_change action order s
      | DvRefresh \<Rightarrow> refresh_analytics s
      | DvConnect \<Rightarrow> handle_connect s
      | DvToggle \<Rightarrow> toggle_account t s
      | DvSync \<Rightarrow> sync_history s
      | DvHistory p \<Rightarrow> turn_history_page p s
      | DvStore b \<Rightarrow> (s\<lparr>dt_store := account_step (dt_store s) b\<rparr>, [])
      | DvAnswer n answer \<Rightarrow>
          (case map_of (dt_tasks s) n of
             None \<Rightarrow> (s, [])
           | Some (DkLoad _ _ _) \<Rightarrow> (s, [])
           | Some k \<Rightarrow> task_answered t k answer (end_detail_task n s))
      | DvLoaded n answer \<Rightarrow>
          (case map_of (dt_tasks s) n of
             Some (DkLoad _ inst syncing) \<Rightarrow> loaded t inst syncing answer (end_detail_task n s)
           | _ \<Rightarrow> (s, [])))"

definition detail_step :: "(string \<Rightarrow> string) \<Rightarrow> int \<Rightarrow> detail_page \<Rightarrow> detail_event \<Rightarrow> detail_page" where
  "detail_step t this_year s a = fst (detail_out t this_year s a)"

definition detail_shown :: "(string \<Rightarrow> string) \<Rightarrow> int \<Rightarrow> detail_page \<Rightarrow> detail_event \<Rightarrow> detail_effect list" where
  "detail_shown t this_year s a = snd (detail_out t this_year s a)"


subsection \<open>Marks of activity\<close>

fun is_load_of :: "nat \<Rightarrow> detail_task \<Rightarrow> bool" where
  "is_load_of inst (DkLoad _ k _) = (k = inst)"
| "is_load_of _ _ = False"

fun is_sync_of :: "nat \<Rightarrow> detail_task \<Rightarrow> bool" where
  "is_sync_of inst (DkSync _ _ k) = (k = inst)"
| "is_sync_of inst (DkLoad _ k syncing) = (k = inst \<and> syncing)"
| "is_sync_of _ _ = False"

fun is_connect_of :: "nat \<Rightarrow> detail_task \<Rightarrow> bool" where
  "is_connect_of inst (DkConnect _ k) = (k = inst)"
| "is_connect_of inst (DkConnected _ k) = (k = inst)"
| "is_connect_of _ _ = False"

definition marks_ok :: "detail_page \<Rightarrow> bool" where
  "marks_ok s \<longleftrightarrow>
     (\<forall>i inst. dt_open s = Some (i, inst) \<longrightarrow>
       (dt_loading s \<longrightarrow> has_entry (is_load_of inst) (dt_tasks s)) \<and>
       (dt_syncing s \<longrightarrow> has_entry (is_sync_of inst) (dt_tasks s)) \<and>
       (dt_connecting s \<longrightarrow> has_entry (is_connect_of inst) (dt_tasks s)))"

definition detail_inv :: "detail_page \<Rightarrow> bool" where
  "detail_inv s \<longleftrightarrow> fresh_table (dt_next s) (dt_tasks s) \<and> marks_ok s"

text \<open>Runs that keep the invariant; those that answer a task restore what the task stood for.\<close>

definition keeps_inv :: "detail_run \<Rightarrow> bool" where
  "keeps_inv f \<longleftrightarrow> (\<forall>s. detail_inv s \<longrightarrow> detail_inv (fst (f s)))"

lemma keeps_invD: "keeps_inv f \<Longrightarrow> detail_inv s \<Longrightarrow> detail_inv (fst (f s))"
  by (simp add: keeps_inv_def)

lemma fst_seq_run [simp]: "fst (seq_run f g s) = fst (g (fst (f s)))"
  by (simp add: seq_run_def split_beta Let_def)

lemma snd_seq_run [simp]: "snd (seq_run f g s) = snd (f s) @ snd (g (fst (f s)))"
  by (simp add: seq_run_def split_beta Let_def)

lemma fst_emit [simp]: "fst (emit out s) = s"
  by (simp add: emit_def)

lemma fst_in_store [simp]: "fst (in_store f s) = s\<lparr>dt_store := f (dt_store s)\<rparr>"
  by (simp add: in_store_def change_def)

lemma fst_change [simp]: "fst (change f s) = f s"
  by (simp add: change_def)

lemma fst_ask [simp]: "fst (ask k c s) = s\<lparr>dt_tasks := dt_tasks s @ [(dt_next s, k)], dt_next := Suc (dt_next s)\<rparr>"
  by (simp add: ask_def)

definition here :: "nat \<Rightarrow> detail_page \<Rightarrow> bool" where
  "here inst s \<longleftrightarrow> (\<exists>i. dt_open s = Some (i, inst))"

lemma fst_on_page [simp]: "fst (on_page inst f s) = (if here inst s then f s else s)"
  by (auto simp: on_page_def here_def split: option.splits)

lemma fst_fetch [simp]: "fst (fetch_if_enabled i b s) = s"
  by (simp add: fetch_if_enabled_def)

lemma keeps_seq [intro]: "keeps_inv f \<Longrightarrow> keeps_inv g \<Longrightarrow> keeps_inv (seq_run f g)"
  by (simp add: keeps_inv_def)

lemma keeps_emit [intro, simp]: "keeps_inv (emit out)"
  by (simp add: keeps_inv_def emit_def)

lemma keeps_in_store [intro, simp]: "keeps_inv (in_store f)"
  by (simp add: keeps_inv_def in_store_def change_def detail_inv_def marks_ok_def)

lemma keeps_ask [intro, simp]: "keeps_inv (ask k c)"
  by (auto simp: keeps_inv_def ask_def detail_inv_def marks_ok_def)

lemma keeps_fetch [intro, simp]: "keeps_inv (fetch_if_enabled i b)"
  by (simp add: keeps_inv_def fetch_if_enabled_def)

lemma keeps_read [intro, simp]: "keeps_inv (account_read t answer)"
  by (simp add: keeps_inv_def account_read_def split_beta detail_inv_def marks_ok_def)

lemma keeps_on_page:
  assumes "\<And>s. detail_inv s \<Longrightarrow> detail_inv (f s)"
  shows "keeps_inv (on_page inst f)"
  using assms by (auto simp: keeps_inv_def on_page_def split: option.splits)

lemma keeps_load_all [intro, simp]: "keeps_inv (load_all_data i year inst syncing)"
  by (auto simp: keeps_inv_def load_all_data_def on_page_def ask_def detail_inv_def marks_ok_def split: option.splits)

lemma keeps_init_loaded [intro, simp]: "keeps_inv (init_loaded i year inst)"
  by (auto simp: init_loaded_def)

lemma keeps_account_effect [intro, simp]: "keeps_inv (account_effect i year inst)"
proof -
  have "detail_inv (fst (case List.find (same_id (JStr i)) (ac_accounts (dt_store s)) of
      Some a \<Rightarrow> seq_run (in_store (set_current_account a)) (init_loaded i year inst) s
    | None \<Rightarrow> ask (DkInit i year inst) (DcGet i) s))" if "detail_inv s" for s
  proof (cases "List.find (same_id (JStr i)) (ac_accounts (dt_store s))")
    case None
    then show ?thesis using that keeps_invD [OF keeps_ask] by simp
  next
    case (Some a)
    have "keeps_inv (seq_run (in_store (set_current_account a)) (init_loaded i year inst))" by (intro keeps_seq) simp_all
    then show ?thesis using that Some by (simp add: keeps_inv_def)
  qed
  then show ?thesis unfolding account_effect_def by (intro keeps_seq) (simp_all add: keeps_inv_def)
qed

lemma keeps_close [intro, simp]: "keeps_inv close_page"
  by (auto simp: keeps_inv_def close_page_def detail_inv_def marks_ok_def split: option.splits)

lemma keeps_leave [intro, simp]: "keeps_inv (leave_to p)"
  by (auto simp: leave_to_def)

lemma detail_inv_open: "detail_inv s \<Longrightarrow> detail_inv (fst (open_page year i s))"
proof (cases "dt_open s")
  case None
  assume "detail_inv s"
  then have "detail_inv ((fresh_instance year s)\<lparr>dt_open := Some (i, k)\<rparr>)" for k
    by (simp add: detail_inv_def marks_ok_def fresh_instance_def detail_init_def)
  then show ?thesis using None keeps_invD [OF keeps_account_effect] by (simp add: open_page_def Let_def)
next
  case (Some p)
  assume "detail_inv s"
  moreover from this Some have "detail_inv (s\<lparr>dt_open := Some (i, snd p)\<rparr>)"
    by (cases p) (auto simp: detail_inv_def marks_ok_def)
  ultimately show ?thesis using Some keeps_invD [OF keeps_account_effect] by (cases p) (simp add: open_page_def)
qed

lemma detail_inv_year: "detail_inv s \<Longrightarrow> detail_inv (fst (select_year year s))"
proof -
  assume "detail_inv s"
  moreover from this have "detail_inv (s\<lparr>dt_year := year\<rparr>)" by (simp add: detail_inv_def marks_ok_def)
  ultimately show ?thesis
    using keeps_invD [OF keeps_account_effect] by (auto simp: select_year_def split: option.split)
qed

lemma keeps_trades [intro, simp]: "keeps_inv (on_page inst (\<lambda>s. s\<lparr>dt_trades := f s\<rparr>))"
  by (simp add: keeps_inv_def detail_inv_def marks_ok_def)

lemma detail_inv_position: "detail_inv s \<Longrightarrow> detail_inv (fst (handle_position_change action order s))"
proof -
  assume inv: "detail_inv s"
  have "keeps_inv (seq_run (fetch_if_enabled i True)
      (seq_run (on_page inst (\<lambda>s. s\<lparr>dt_trades := add_history_trade order (dt_trades s)\<rparr>)) (load_all_data i y inst False)))"
    "keeps_inv (seq_run (fetch_if_enabled i True) (load_all_data i y inst False))" for i inst y
    by (intro keeps_seq; simp)+
  from keeps_invD [OF this(1) inv] keeps_invD [OF this(2) inv] show ?thesis
    using inv by (simp add: handle_position_change_def del: fst_seq_run split: option.split)
qed

lemma detail_inv_end:
  assumes "detail_inv s" "map_of (dt_tasks s) n = Some k"
    and "\<And>inst. \<not> is_load_of inst k" "\<And>inst. \<not> is_sync_of inst k" "\<And>inst. \<not> is_connect_of inst k"
  shows "detail_inv (end_detail_task n s)"
  using assms has_entry_delete [of "dt_next s" "dt_tasks s" _ n k]
  by (auto simp: detail_inv_def marks_ok_def end_detail_task_def)

text \<open>An answer keeps the invariant if every mark that stays is backed by another task or by a new one.\<close>

lemma detail_inv_answer:
  assumes "detail_inv s" "map_of (dt_tasks s) n = Some k" "dt_open u = dt_open s"
    and "dt_tasks u = AList.delete n (dt_tasks s) @ new" "fresh_table (dt_next u) (dt_tasks u)"
    and "\<And>i inst. dt_open s = Some (i, inst) \<Longrightarrow> dt_loading u \<Longrightarrow> dt_loading s \<and> \<not> is_load_of inst k \<or> has_entry (is_load_of inst) new"
    and "\<And>i inst. dt_open s = Some (i, inst) \<Longrightarrow> dt_syncing u \<Longrightarrow> dt_syncing s \<and> \<not> is_sync_of inst k \<or> has_entry (is_sync_of inst) new"
    and "\<And>i inst. dt_open s = Some (i, inst) \<Longrightarrow> dt_connecting u \<Longrightarrow> dt_connecting s \<and> \<not> is_connect_of inst k \<or> has_entry (is_connect_of inst) new"
  shows "detail_inv u"
proof -
  have f: "fresh_table (dt_next s) (dt_tasks s)" using assms(1) by (simp add: detail_inv_def)
  note keep = has_entry_delete [OF f _ assms(2)]
  show ?thesis unfolding detail_inv_def marks_ok_def
  proof (intro conjI allI impI)
    show "fresh_table (dt_next u) (dt_tasks u)" by (rule assms(5))
    fix i inst
    assume open_u: "dt_open u = Some (i, inst)"
    then have open_s: "dt_open s = Some (i, inst)" using assms(3) by simp
    show "has_entry (is_load_of inst) (dt_tasks u)" if "dt_loading u"
      using assms(1) assms(6) [OF open_s that] open_s keep [of "is_load_of inst"] by (auto simp: detail_inv_def marks_ok_def assms(4))
    show "has_entry (is_sync_of inst) (dt_tasks u)" if "dt_syncing u"
      using assms(1) assms(7) [OF open_s that] open_s keep [of "is_sync_of inst"] by (auto simp: detail_inv_def marks_ok_def assms(4))
    show "has_entry (is_connect_of inst) (dt_tasks u)" if "dt_connecting u"
      using assms(1) assms(8) [OF open_s that] open_s keep [of "is_connect_of inst"] by (auto simp: detail_inv_def marks_ok_def assms(4))
  qed
qed

lemma end_detail_fields [simp]:
  "dt_tasks (end_detail_task n s) = AList.delete n (dt_tasks s)" "dt_next (end_detail_task n s) = dt_next s"
  "dt_open (end_detail_task n s) = dt_open s" "dt_loading (end_detail_task n s) = dt_loading s"
  "dt_syncing (end_detail_task n s) = dt_syncing s" "dt_connecting (end_detail_task n s) = dt_connecting s"
  "here inst (end_detail_task n s) = here inst s"
  by (simp_all add: end_detail_task_def here_def)

lemma here_open [simp]: "dt_open s = Some (i, inst) \<Longrightarrow> here k s \<longleftrightarrow> k = inst"
  by (auto simp: here_def)

lemma here_cong [simp]:
  "here inst (s\<lparr>dt_loading := b\<rparr>) = here inst s" "here inst (s\<lparr>dt_store := a\<rparr>) = here inst s"
  "here inst (take_loaded r s) = here inst s"
  by (cases r; simp add: here_def take_loaded_def)+

lemma take_loaded_fields [simp]:
  "dt_tasks (take_loaded r s) = dt_tasks s" "dt_next (take_loaded r s) = dt_next s" "dt_open (take_loaded r s) = dt_open s"
  "dt_loading (take_loaded r s) = dt_loading s" "dt_syncing (take_loaded r s) = dt_syncing s"
  "dt_connecting (take_loaded r s) = dt_connecting s"
  by (cases r; simp add: take_loaded_def)+

lemma detail_inv_loaded:
  assumes "detail_inv s" "map_of (dt_tasks s) n = Some (DkLoad i inst syncing)"
  shows "detail_inv (fst (loaded t inst syncing answer (end_detail_task n s)))"
  using assms(1)
  by (intro detail_inv_answer [OF assms, where new = "[]"])
    (auto simp: loaded_def detail_inv_def split: sum.splits if_splits)

lemma detail_inv_sync:
  assumes "detail_inv s" "map_of (dt_tasks s) n = Some (DkSync i year inst)"
  shows "detail_inv (fst (sync_answered t i year inst answer (end_detail_task n s)))"
  using assms(1)
  by (intro detail_inv_answer [OF assms, where new = "case answer of Inr _ \<Rightarrow> [(dt_next s, DkLoad i inst True)] | Inl _ \<Rightarrow> []"])
    (auto simp: sync_answered_def load_all_data_def detail_inv_def split: sum.splits if_splits)

lemma detail_inv_connect:
  assumes "detail_inv s" "map_of (dt_tasks s) n = Some (DkConnect i inst)"
  shows "detail_inv (fst (connect_answered t i inst answer (end_detail_task n s)))"
  using assms(1)
  by (intro detail_inv_answer [OF assms, where new = "case answer of Inr _ \<Rightarrow> [(dt_next s, DkConnected i inst)] | Inl _ \<Rightarrow> []"])
    (auto simp: connect_answered_def Let_def detail_inv_def split: sum.splits if_splits)

lemma fst_account_read [simp]:
  "fst (account_read t answer s) = s\<lparr>dt_store := fst (fetch_account t False answer (dt_store s))\<rparr>"
  by (simp add: account_read_def split_beta)

lemma detail_inv_connected:
  assumes "detail_inv s" "map_of (dt_tasks s) n = Some (DkConnected i inst)"
  shows "detail_inv (fst (task_answered t (DkConnected i inst) answer (end_detail_task n s)))"
  using assms(1)
  by (intro detail_inv_answer [OF assms, where new = "[]"])
    (auto simp: task_answered_def detail_inv_def split: if_splits)

lemma keeps_history [intro, simp]: "keeps_inv (history_read p inst answer)"
  by (auto simp: keeps_inv_def history_read_def detail_inv_def marks_ok_def split: sum.splits)

lemma keeps_other_answers [intro, simp]:
  "keeps_inv (init_read t i year inst answer)" "keeps_inv (enable_answered t i answer)" "keeps_inv (enable_read t i answer)"
  "keeps_inv (disable_answered t i answer)" "keeps_inv (disable_read t i answer)" "keeps_inv (disable_rolled_back t answer)"
  by (auto simp: init_read_def enable_answered_def enable_read_def disable_defs split: sum.splits)

lemma detail_inv_answered:
  assumes "detail_inv s" "map_of (dt_tasks s) n = Some k" "\<forall>i inst b. k \<noteq> DkLoad i inst b"
  shows "detail_inv (fst (task_answered t k answer (end_detail_task n s)))"
proof -
  have plain: ?thesis
    if "\<And>inst. \<not> is_load_of inst k" "\<And>inst. \<not> is_sync_of inst k" "\<And>inst. \<not> is_connect_of inst k"
      "keeps_inv (task_answered t k answer)"
    using detail_inv_end [OF assms(1,2) that(1-3)] keeps_invD [OF that(4)] by blast
  show ?thesis
  proof (cases k)
    case (DkConnect i inst)
    with detail_inv_connect [OF assms(1), of n i inst t answer] assms(2) show ?thesis by (simp add: task_answered_def)
  next
    case (DkSync i year inst)
    with detail_inv_sync [OF assms(1), of n i year inst t answer] assms(2) show ?thesis by (simp add: task_answered_def)
  next
    case (DkConnected i inst)
    with detail_inv_connected [OF assms(1), of n i inst t answer] assms(2) show ?thesis by simp
  next
    case (DkLoad i inst b)
    with assms(3) show ?thesis by blast
  next
    case (DkDisable i)
    then show ?thesis by (intro plain) (auto simp: task_answered_def split: sum.split)
  next
    case (DkDisableGet i)
    then show ?thesis by (intro plain) (auto simp: task_answered_def split: sum.split)
  next
    case (DkRollback i)
    then show ?thesis by (intro plain) (auto simp: task_answered_def split: sum.split)
  qed (rule plain; (auto simp: task_answered_def)?)+
qed

lemma detail_inv_step: "detail_inv s \<Longrightarrow> detail_inv (detail_step t this_year s a)"
proof (cases a)
  case (DvAnswer n answer)
  assume inv: "detail_inv s"
  show ?thesis
  proof (cases "map_of (dt_tasks s) n")
    case (Some k)
    with inv show ?thesis
      using detail_inv_answered [OF inv Some, of t answer] DvAnswer
      by (cases k) (simp_all add: detail_step_def detail_out_def)
  qed (use inv DvAnswer in \<open>simp add: detail_step_def detail_out_def\<close>)
next
  case (DvLoaded n answer)
  assume inv: "detail_inv s"
  show ?thesis
  proof (cases "map_of (dt_tasks s) n")
    case (Some k)
    with inv show ?thesis
      using detail_inv_loaded [OF inv, of n _ _ _ t answer] DvLoaded
      by (cases k) (simp_all add: detail_step_def detail_out_def)
  qed (use inv DvLoaded in \<open>simp add: detail_step_def detail_out_def\<close>)
next
  case DvConnect
  assume "detail_inv s"
  then show ?thesis
    using DvConnect by (auto simp: detail_step_def detail_out_def handle_connect_def change_def ask_def detail_inv_def marks_ok_def
        split: option.splits)
next
  case DvSync
  assume "detail_inv s"
  then show ?thesis
    using DvSync by (auto simp: detail_step_def detail_out_def sync_history_def change_def ask_def detail_inv_def marks_ok_def
        split: option.splits)
next
  case DvToggle
  assume "detail_inv s"
  then show ?thesis
    using DvToggle by (auto simp: detail_step_def detail_out_def toggle_account_def Let_def detail_inv_def marks_ok_def)
next
  case (DvHistory p)
  assume "detail_inv s"
  then show ?thesis
    using DvHistory by (auto simp: detail_step_def detail_out_def turn_history_page_def detail_inv_def marks_ok_def split: option.split)
next
  case (DvStore b)
  assume "detail_inv s"
  then show ?thesis using DvStore by (simp add: detail_step_def detail_out_def detail_inv_def marks_ok_def)
qed (auto simp: detail_step_def detail_out_def detail_inv_open detail_inv_year detail_inv_position
    refresh_analytics_def turn_history_page_def intro: keeps_invD split: option.splits)

lemma detail_inv_init: "detail_inv (detail_init year store)"
  by (simp add: detail_inv_def marks_ok_def detail_init_def)

interpretation account_detail: machine "detail_init this_year store" "detail_step t this_year" detail_inv
  by unfold_locales (simp_all add: detail_inv_init detail_inv_step)

text \<open>When nothing is in flight, the page that is open marks nothing as busy.\<close>

theorem account_page_settles:
  fixes this_year store t acts
  defines "s \<equiv> run (detail_step t this_year) (detail_init this_year store) acts"
  assumes "dt_tasks s = []" "dt_open s \<noteq> None"
  shows "\<not> dt_loading s \<and> \<not> dt_syncing s \<and> \<not> dt_connecting s"
proof -
  have "detail_inv s" unfolding s_def by (rule account_detail.inv_run)
  then show ?thesis using assms(2,3) by (auto simp: detail_inv_def marks_ok_def)
qed


subsection \<open>The account of the page\<close>

fun task_account :: "detail_task \<Rightarrow> string" where
  "task_account (DkInit i _ _) = i"
| "task_account (DkLoad i _ _) = i"
| "task_account (DkHistory i _ _) = i"
| "task_account (DkEnable i) = i"
| "task_account (DkEnableGet i) = i"
| "task_account (DkEnabled i) = i"
| "task_account (DkDisable i) = i"
| "task_account (DkDisableGet i) = i"
| "task_account (DkRollback i) = i"
| "task_account (DkDisabled i) = i"
| "task_account (DkConnect i _) = i"
| "task_account (DkConnected i _) = i"
| "task_account (DkSync i _ _) = i"

fun is_init :: "detail_task \<Rightarrow> bool" where
  "is_init (DkInit _ _ _) = True"
| "is_init _ = False"

fun reads_account :: "detail_task \<Rightarrow> bool" where
  "reads_account (DkLoad _ _ _) = False"
| "reads_account (DkHistory _ _ _) = False"
| "reads_account (DkEnable _) = False"
| "reads_account (DkDisable _) = False"
| "reads_account (DkConnect _ _) = False"
| "reads_account (DkSync _ _ _) = False"
| "reads_account _ = True"

text \<open>
  An event that does not come too early, of a service that answers with the account it was asked for: a page
  is opened when nothing is in flight, and its account is not touched before it is read.
\<close>

definition in_time :: "detail_page \<Rightarrow> detail_event \<Rightarrow> bool" where
  "in_time s a =
     (case a of
        DvOpen _ \<Rightarrow> dt_tasks s = []
      | DvToggle \<Rightarrow> \<not> has_entry is_init (dt_tasks s)
      | DvConnect \<Rightarrow> \<not> has_entry is_init (dt_tasks s)
      | DvStore b \<Rightarrow> (case b of AcSetAccounts _ \<Rightarrow> True | AcUpdateStatus _ _ \<Rightarrow> True | AcSetLoading _ \<Rightarrow> True | _ \<Rightarrow> False)
      | DvAnswer n answer \<Rightarrow>
          (case (map_of (dt_tasks s) n, answer) of
             (Some k, Inr v) \<Rightarrow> reads_account k \<longrightarrow> truthy v \<and> account_id (to_camel v) = JStr (task_account k)
           | _ \<Rightarrow> True)
      | _ \<Rightarrow> True)"

fun all_in_time :: "(string \<Rightarrow> string) \<Rightarrow> int \<Rightarrow> detail_page \<Rightarrow> detail_event list \<Rightarrow> bool" where
  "all_in_time t y s [] = True"
| "all_in_time t y s (a # as) = (in_time s a \<and> all_in_time t y (detail_step t y s a) as)"

definition shows_account :: "detail_page \<Rightarrow> bool" where
  "shows_account s \<longleftrightarrow> account_inv (dt_store s) \<and>
     (\<forall>i inst. dt_open s = Some (i, inst) \<longrightarrow>
       (\<forall>p \<in> set (dt_tasks s). task_account (snd p) = i) \<and>
       (has_entry is_init (dt_tasks s) \<or> account_id (ac_current (dt_store s)) = JStr i))"

lemma store_inv:
  assumes "account_inv s"
  shows "account_inv (set_current_account a s)" "account_inv (update_account a s)" "account_inv (update_account_status i st s)"
    "account_inv (set_enabling_account e s)" "account_inv (set_accounts v s)" "account_inv (set_account_loading b s)"
  using account_inv_step [OF assms, of "AcSetCurrent a"] account_inv_step [OF assms, of "AcUpdate a"]
    account_inv_step [OF assms, of "AcUpdateStatus i st"] account_inv_step [OF assms, of "AcSetEnabling e"]
    account_inv_step [OF assms, of "AcSetAccounts v"] account_inv_step [OF assms, of "AcSetLoading b"]
  by simp_all

lemma current_fields [simp]:
  "account_id (ac_current (update_account_status i st s)) = account_id (ac_current s)"
  "ac_current (set_enabling_account e s) = ac_current s" "ac_current (set_accounts v s) = ac_current s"
  "ac_current (set_account_loading b s) = ac_current s"
  by (simp_all add: account_op_defs account_id_def)

lemma current_set [simp]: "truthy a \<Longrightarrow> ac_current (set_current_account a s) = to_camel a"
  by (simp add: set_current_account_def)

lemma current_update: "account_id (to_camel a) = x \<Longrightarrow> account_id (ac_current s) = x \<Longrightarrow> account_id (ac_current (update_account a s)) = x"
  by (simp add: update_account_def)

lemma account_truthy: "account_id a = JStr i \<Longrightarrow> truthy a"
  by (cases a) (simp_all add: account_id_def jget_def)

lemma listed_account:
  assumes "account_inv s" "List.find (same_id (JStr i)) (ac_accounts s) = Some a"
  shows "truthy a \<and> account_id (to_camel a) = JStr i"
proof -
  have "account_id a = JStr i" "camel_normal a"
    using assms by (auto simp: find_Some_iff same_id_str account_inv_def list_all_length)
  then show ?thesis by (simp add: to_camel_id(1) account_truthy)
qed

lemma delete_subset: "p \<in> set (AList.delete n al) \<Longrightarrow> p \<in> set al"
  by (simp add: set_delete)

definition page_ready :: "string \<Rightarrow> detail_page \<Rightarrow> bool" where
  "page_ready i s \<longleftrightarrow> account_inv (dt_store s) \<and> (\<forall>p \<in> set (dt_tasks s). task_account (snd p) = i)"

lemma load_all_page:
  "dt_store (fst (load_all_data i y inst b s)) = dt_store s" "dt_open (fst (load_all_data i y inst b s)) = dt_open s"
  "dt_tasks (fst (load_all_data i y inst b s)) = dt_tasks s @ [(dt_next s, DkLoad i inst b)]"
  by (simp_all add: load_all_data_def)

lemma shows_load_all: "shows_account s \<Longrightarrow> (\<forall>j k. dt_open s = Some (j, k) \<longrightarrow> j = i) \<Longrightarrow> shows_account (fst (load_all_data i y inst b s))"
  by (auto simp: shows_account_def load_all_page)

lemma shows_effect:
  assumes "page_ready i s" "dt_open s = Some (i, inst)"
  shows "shows_account (fst (account_effect i y inst s))"
proof (cases "List.find (same_id (JStr i)) (ac_accounts (dt_store s))")
  case None
  then show ?thesis using assms by (auto simp: account_effect_def shows_account_def page_ready_def)
next
  case (Some a)
  with assms listed_account [of "dt_store s" i a] show ?thesis
    by (auto simp: account_effect_def init_loaded_def shows_account_def page_ready_def load_all_page store_inv)
qed

lemma shows_read:
  assumes "account_inv (dt_store s)" "account_id (ac_current (dt_store s)) = JStr i \<or> answer \<noteq> Inl e"
    and "\<And>v. answer = Inr v \<Longrightarrow> truthy v \<and> account_id (to_camel v) = JStr i"
  shows "account_inv (fst (fetch_account t False answer (dt_store s)))"
  using assms by (auto simp: fetch_account_def store_inv Let_def split: sum.split)

lemma fetched_current:
  "fst (fetch_account t False (Inr v) s) = set_current_account v s" "fst (fetch_account t False (Inl e) s) = s"
  by (simp_all add: fetch_account_def)

lemma answered_store: "account_inv (dt_store s) \<Longrightarrow> account_inv (dt_store (fst (task_answered t k answer s)))"
  by (cases k; cases answer)
    (auto simp: task_answered_def init_read_def init_loaded_def load_all_page leave_to_def close_page_def history_read_def
      enable_answered_def enable_read_def disable_defs connect_answered_def sync_answered_def Let_def
      fetched_current store_inv split: option.split)

lemma answered_open: "dt_open s = None \<Longrightarrow> dt_open (fst (task_answered t k answer s)) = None"
  by (cases k; cases answer)
    (auto simp: task_answered_def init_read_def init_loaded_def load_all_page leave_to_def close_page_def history_read_def
      enable_answered_def enable_read_def disable_defs connect_answered_def sync_answered_def Let_def split: option.split)

text \<open>An answer for the account of the page leaves the page with that account.\<close>

definition has_current :: "string \<Rightarrow> detail_page \<Rightarrow> bool" where
  "has_current i s \<longleftrightarrow> has_entry is_init (dt_tasks s) \<or> account_id (ac_current (dt_store s)) = JStr i"

lemma shows_page: "dt_open s = Some (i, inst) \<Longrightarrow> shows_account s \<longleftrightarrow> page_ready i s \<and> has_current i s"
  by (auto simp: shows_account_def page_ready_def has_current_def)

lemmas page_defs = page_ready_def has_current_def

lemma shows_answered:
  assumes "dt_open s = Some (i, inst)" "page_ready i s" "task_account k = i" "is_init k \<or> has_current i s"
    and "\<And>v. answer = Inr v \<Longrightarrow> reads_account k \<Longrightarrow> truthy v \<and> account_id (to_camel v) = JStr i"
  shows "shows_account (fst (task_answered t k answer s))"
proof (cases "dt_open (fst (task_answered t k answer s))")
  case None
  then show ?thesis using answered_store [of s t k answer] assms(2) by (simp add: shows_account_def page_ready_def)
next
  case (Some p)
  have p: "p = (i, inst)"
    using Some assms(1)
    by (cases k; cases answer)
      (auto simp: task_answered_def init_read_def init_loaded_def load_all_page leave_to_def close_page_def history_read_def
        enable_answered_def enable_read_def disable_defs connect_answered_def sync_answered_def Let_def
        split: option.splits if_splits)
  have store: "account_inv (dt_store (fst (task_answered t k answer s)))"
    using assms(2) by (intro answered_store) (simp add: page_ready_def)
  have tasks: "\<forall>p \<in> set (dt_tasks (fst (task_answered t k answer s))). task_account (snd p) = i"
    using assms(2,3)
    by (cases k; cases answer)
      (auto simp: page_ready_def task_answered_def init_read_def init_loaded_def load_all_page leave_to_def close_page_def
        history_read_def enable_answered_def enable_read_def disable_defs connect_answered_def sync_answered_def Let_def
        split: option.splits if_splits)
  have "has_current i (fst (task_answered t k answer s))"
    using assms(1,3-5) Some
    by (cases k; cases answer)
      (auto simp: has_current_def task_answered_def init_read_def init_loaded_def load_all_page leave_to_def close_page_def
        history_read_def enable_answered_def enable_read_def disable_defs connect_answered_def sync_answered_def Let_def
        fetched_current current_update split: option.splits if_splits)
  with store tasks show ?thesis using Some p by (simp add: shows_page page_ready_def)
qed

lemma shows_step:
  assumes inv: "detail_inv s" and shown: "shows_account s" and a: "in_time s a"
  shows "shows_account (detail_step t y s a)"
proof (cases a)
  case (DvAnswer n answer)
  show ?thesis
  proof (cases "map_of (dt_tasks s) n")
    case None
    then show ?thesis using DvAnswer shown by (simp add: detail_step_def detail_out_def)
  next
    case (Some k)
    have step: "detail_step t y s a = (if \<exists>i inst b. k = DkLoad i inst b then s
        else fst (task_answered t k answer (end_detail_task n s)))"
      using Some DvAnswer by (cases k) (simp_all add: detail_step_def detail_out_def)
    have listed: "(n, k) \<in> set (dt_tasks s)" using Some by (rule map_of_SomeD)
    have store: "dt_store (end_detail_task n s) = dt_store s" by (simp add: end_detail_task_def)
    show ?thesis
    proof (cases "dt_open s")
      case None
      then show ?thesis
        using shown answered_open [of "end_detail_task n s" t k answer] answered_store [of "end_detail_task n s" t k answer]
        by (simp add: step shows_account_def store)
    next
      case (Some p)
      obtain i inst where p: "p = (i, inst)" by (cases p)
      have ready: "page_ready i s" "has_current i s" using shown Some by (simp_all add: p shows_page)
      have "page_ready i (end_detail_task n s)"
        using ready(1) by (auto simp: page_ready_def store dest: delete_subset)
      moreover have "is_init k \<or> has_current i (end_detail_task n s)"
        using ready(2) has_entry_delete [of "dt_next s" "dt_tasks s" is_init n k] inv \<open>map_of (dt_tasks s) n = Some k\<close>
        by (auto simp: has_current_def store detail_inv_def)
      moreover have "task_account k = i" using ready(1) listed by (force simp: page_ready_def)
      moreover have "truthy v \<and> account_id (to_camel v) = JStr i" if "answer = Inr v" "reads_account k" for v
        using a that DvAnswer \<open>map_of (dt_tasks s) n = Some k\<close> \<open>task_account k = i\<close> by (simp add: in_time_def)
      ultimately have "shows_account (fst (task_answered t k answer (end_detail_task n s)))"
        using Some p by (intro shows_answered [of _ i inst]) simp_all
      then show ?thesis using shown by (simp add: step)
    qed
  qed
next
  case (DvOpen i)
  then have none: "dt_tasks s = []" using a by (simp add: in_time_def)
  show ?thesis
  proof (cases "dt_open s")
    case None
    have "page_ready i ((fresh_instance y s)\<lparr>dt_open := Some (i, k)\<rparr>)" for k
      using none shown by (simp add: page_ready_def fresh_instance_def detail_init_def shows_account_def)
    then show ?thesis
      using None DvOpen shown by (auto simp: detail_step_def detail_out_def open_page_def Let_def intro!: shows_effect)
  next
    case (Some p)
    have "page_ready i (s\<lparr>dt_open := Some (i, k)\<rparr>)" for k
      using none shown by (simp add: page_ready_def shows_account_def)
    then show ?thesis
      using Some DvOpen shown by (cases p) (auto simp: detail_step_def detail_out_def open_page_def intro!: shows_effect)
  qed
next
  case (DvYear year)
  show ?thesis
  proof (cases "dt_open s")
    case (Some p)
    have "page_ready (fst p) (s\<lparr>dt_year := year\<rparr>)"
      using shown Some by (cases p) (simp add: page_ready_def shows_account_def)
    then show ?thesis
      using Some DvYear shown by (cases p) (auto simp: detail_step_def detail_out_def select_year_def intro!: shows_effect)
  qed (use DvYear shown in \<open>simp add: detail_step_def detail_out_def select_year_def\<close>)
next
  case (DvLoaded n answer)
  show ?thesis
  proof (cases "map_of (dt_tasks s) n")
    case (Some k)
    then have listed: "(n, k) \<in> set (dt_tasks s)" by (rule map_of_SomeD)
    show ?thesis
      using shown DvLoaded Some has_entry_delete [of "dt_next s" "dt_tasks s" is_init n k] inv
      by (cases k; cases answer)
        (auto simp: detail_step_def detail_out_def loaded_def shows_account_def detail_inv_def end_detail_task_def take_loaded_def
          here_def split: prod.splits dest: delete_subset)
  qed (use DvLoaded shown in \<open>simp add: detail_step_def detail_out_def\<close>)
qed (use shown a in \<open>auto simp: detail_step_def detail_out_def shows_account_def in_time_def close_page_def handle_position_change_def
    refresh_analytics_def handle_connect_def toggle_account_def sync_history_def turn_history_page_def load_all_page
    current_id_def store_inv Let_def split: option.splits account_action.splits if_splits\<close>)


lemma shows_run:
  "detail_inv s \<Longrightarrow> shows_account s \<Longrightarrow> all_in_time t y s acts \<Longrightarrow> shows_account (run (detail_step t y) s acts)"
proof (induction acts arbitrary: s)
  case (Cons a acts)
  then show ?case using shows_step [of s a t y] detail_inv_step [of s t y a] by simp
qed simp

text \<open>
  C7. As long as events come in time (pages are opened only while nothing is in flight, the switch and the connection
  are not used before the account is read, other code only replaces the list, sets a status or the loading mark, and
  every answer of a read is the account that was asked for), the account that the page shows and operates on is the one
  of its address, once it was read; and everything in flight is about that account.
\<close>

theorem account_of_page:
  fixes t y store acts
  defines "s \<equiv> run (detail_step t y) (detail_init y store) acts"
  assumes "account_inv store" "all_in_time t y (detail_init y store) acts"
    and "dt_open s = Some (i, inst)" "\<not> has_entry is_init (dt_tasks s)"
  shows "account_id (ac_current (dt_store s)) = JStr i \<and> (\<forall>p \<in> set (dt_tasks s). task_account (snd p) = i)"
proof -
  have "shows_account (detail_init y store)" using assms(2) by (simp add: shows_account_def detail_init_def)
  then have "shows_account s" unfolding s_def using assms(3) by (intro shows_run detail_inv_init)
  then show ?thesis using assms(4,5) by (auto simp: shows_account_def)
qed

text \<open>
  An account that is read late becomes the account of another page: that page shows it, and its switch turns
  off the wrong account.
\<close>

theorem late_account_on_other_page:
  fixes t y store a b v
  assumes "a \<noteq> []" "b \<noteq> []" "List.find (same_id (JStr a)) (ac_accounts store) = None"
    and "List.find (same_id (JStr b)) (ac_accounts store) = Some w"
    and "account_id (to_camel v) = JStr a" "\<not> truthy (jget ''isDisabled'' (to_camel v))" "truthy v"
  defines "s \<equiv> run (detail_step t y) (detail_init y store) [DvOpen a, DvClose, DvOpen b, DvAnswer 0 (Inr v)]"
  shows "dt_open s = Some (b, 2) \<and> ac_current (dt_store s) = to_camel v \<and>
    detail_shown t y s DvToggle = [DeCall (DcUpdate a True)]"
proof -
  define s1 where "s1 = detail_step t y (detail_init y store) (DvOpen a)"
  have s1: "dt_open s1 = Some (a, 1)" "dt_store s1 = store" "dt_tasks s1 = [(0, DkInit a y 1)]" "dt_next s1 = 1"
    "dt_instances s1 = 1"
    using assms(1,3)
    by (simp_all add: s1_def detail_step_def detail_out_def open_page_def Let_def account_effect_def fresh_instance_def detail_init_def)
  define s2 where "s2 = detail_step t y s1 DvClose"
  have s2: "dt_open s2 = None" "dt_store s2 = store" "dt_tasks s2 = [(0, DkInit a y 1)]" "dt_next s2 = 1" "dt_instances s2 = 1"
    using s1 by (simp_all add: s2_def detail_step_def detail_out_def close_page_def)
  define s3 where "s3 = detail_step t y s2 (DvOpen b)"
  have s3: "dt_open s3 = Some (b, 2)" "map_of (dt_tasks s3) 0 = Some (DkInit a y 1)" "dt_tasks s3 = [(0, DkInit a y 1), (1, DkLoad b 2 False)]"
    using assms(2,4) s2
    by (simp_all add: s3_def detail_step_def detail_out_def open_page_def Let_def account_effect_def init_loaded_def
        load_all_page fresh_instance_def detail_init_def)
  have "s = detail_step t y s3 (DvAnswer 0 (Inr v))" by (simp add: s_def s1_def s2_def s3_def)
  then have s: "s = fst (task_answered t (DkInit a y 1) (Inr v) (end_detail_task 0 s3))"
    using s3(2) by (simp add: detail_step_def detail_out_def)
  have "dt_open s = Some (b, 2)" "ac_current (dt_store s) = to_camel v"
    using assms(7) s3(1) by (simp_all add: s task_answered_def init_read_def init_loaded_def load_all_page fetched_current)
  moreover have "truthy (to_camel v)" using assms(5) by (rule account_truthy)
  ultimately show ?thesis
    using assms(5,6)
    by (simp add: detail_shown_def detail_out_def toggle_account_def current_disabled_def current_id_def Let_def in_store_def
        change_def ask_def)
qed

subsection \<open>Switching an account on and off\<close>

text \<open>The answers of an uninterrupted run, in their order, and its failure.\<close>

definition disable_answers :: "nat \<Rightarrow> jv outcome \<Rightarrow> jv outcome \<Rightarrow> jv outcome \<Rightarrow> jv outcome \<Rightarrow> detail_event list" where
  "disable_answers n upd got reread final = DvAnswer n upd #
     (case upd of
        Inl _ \<Rightarrow> [DvAnswer (Suc n) reread]
      | Inr _ \<Rightarrow> DvAnswer (Suc n) got # (case got of Inr _ \<Rightarrow> [DvAnswer (Suc (Suc n)) final] | Inl _ \<Rightarrow> [DvAnswer (Suc (Suc n)) reread]))"

definition enable_answers :: "nat \<Rightarrow> jv outcome \<Rightarrow> jv outcome \<Rightarrow> jv outcome \<Rightarrow> detail_event list" where
  "enable_answers n upd got final = DvAnswer n upd #
     (case upd of
        Inl _ \<Rightarrow> []
      | Inr _ \<Rightarrow> DvAnswer (Suc n) got # (case got of Inr _ \<Rightarrow> [DvAnswer (Suc (Suc n)) final] | Inl _ \<Rightarrow> []))"

definition switch_failure :: "jv outcome \<Rightarrow> jv outcome \<Rightarrow> jv option" where
  "switch_failure upd got =
     (case upd of Inl e \<Rightarrow> Some e | Inr _ \<Rightarrow> (case got of Inl e \<Rightarrow> Some e | Inr _ \<Rightarrow> None))"

lemma answer_out:
  assumes "map_of (dt_tasks s) n = Some k" "\<forall>i inst b. k \<noteq> DkLoad i inst b"
  shows "detail_step t y s (DvAnswer n answer) = fst (task_answered t k answer (end_detail_task n s))"
proof (cases k)
  case (DkLoad i inst b)
  with assms(2) show ?thesis by blast
qed (use assms(1) in \<open>simp_all add: detail_step_def detail_out_def\<close>)

lemma task_step:
  assumes "n \<notin> fst ` set al" "\<forall>i inst b. k \<noteq> DkLoad i inst b"
  shows "detail_step t y (s\<lparr>dt_store := x, dt_tasks := al @ [(n, k)], dt_next := m\<rparr>) (DvAnswer n answer) =
    fst (task_answered t k answer (s\<lparr>dt_store := x, dt_tasks := al, dt_next := m\<rparr>))"
proof -
  let ?s = "s\<lparr>dt_store := x, dt_tasks := al @ [(n, k)], dt_next := m\<rparr>"
  have "map_of (dt_tasks ?s) n = Some k" using map_of_last [OF assms(1)] by simp
  moreover have "end_detail_task n ?s = s\<lparr>dt_store := x, dt_tasks := al, dt_next := m\<rparr>"
    using assms(1) by (simp add: end_detail_task_def)
  ultimately show ?thesis using answer_out [OF _ assms(2), of ?s n t y answer] by metis
qed

lemma fresh_after:
  assumes "fresh_table n al"
  shows "n \<notin> fst ` set al" "Suc n \<notin> fst ` set al" "Suc (Suc n) \<notin> fst ` set al"
  using assms by (force simp: fresh_table_def)+

lemma snd_runs:
  "snd (emit out s) = out" "snd (in_store f s) = []" "snd (ask k c s) = [DeCall c]"
  by (simp_all add: emit_def in_store_def change_def ask_def)

lemma enabling_fields:
  "ac_enabling (update_account_status i st s) = ac_enabling s" "ac_enabling (update_account a s) = ac_enabling s"
  "ac_enabling (set_current_account a s) = ac_enabling s" "ac_enabling (set_enabling_account e s) = e" "ac_current (set_enabling_account e s) = ac_current s"
  by (simp_all add: account_op_defs)

lemma task_shown:
  assumes "n \<notin> fst ` set al" "\<forall>i inst b. k \<noteq> DkLoad i inst b"
  shows "detail_shown t y (s\<lparr>dt_store := x, dt_tasks := al @ [(n, k)], dt_next := m\<rparr>) (DvAnswer n answer) =
    snd (task_answered t k answer (s\<lparr>dt_store := x, dt_tasks := al, dt_next := m\<rparr>))"
proof -
  let ?s = "s\<lparr>dt_store := x, dt_tasks := al @ [(n, k)], dt_next := m\<rparr>"
  have "map_of (dt_tasks ?s) n = Some k" using map_of_last [OF assms(1)] by simp
  moreover have "end_detail_task n ?s = s\<lparr>dt_store := x, dt_tasks := al, dt_next := m\<rparr>"
    using assms(1) by (simp add: end_detail_task_def)
  moreover have "detail_shown t y ?s (DvAnswer n answer) = snd (task_answered t k answer (end_detail_task n ?s))"
    if "map_of (dt_tasks ?s) n = Some k"
  proof (cases k)
    case (DkLoad i inst b)
    with assms(2) show ?thesis by blast
  qed (use that in \<open>simp_all add: detail_shown_def detail_out_def\<close>)
  ultimately show ?thesis by metis
qed

text \<open>
  C33. Switching the account off on its page, with nothing else done meanwhile: the status that was shown in advance
  never stays when the account can be read.  If the change or the reading after it fails, the failure is shown, the
  account is read once more and the list and the page have it as the service then gives it, with their state before
  as the rest; only when that reading fails too does the advance status stay.  If all goes well they have it as it was
  read after the change, and the success is shown last.
\<close>

theorem disabling_outcomes:
  fixes t y s upd got reread final
  assumes "dt_open s \<noteq> None" "account_id (ac_current (dt_store s)) = JStr i" "\<not> current_disabled s"
    and "fresh_table (dt_next s) (dt_tasks s)"
    and read: "\<And>v. got = Inr v \<Longrightarrow> account_id v = JStr i" "\<And>v. reread = Inr v \<Longrightarrow> account_id v = JStr i"
  defines "es \<equiv> DvToggle # disable_answers (dt_next s) upd got reread final"
  defines "u \<equiv> run (detail_step t y) s es" and "shown \<equiv> run_log (detail_step t y) (detail_shown t y) s es"
  shows "dt_tasks u = dt_tasks s \<and>
    (case switch_failure upd got of
       Some e \<Rightarrow>
         dt_store u = (case reread of Inr v \<Rightarrow> update_account v (dt_store s)
           | Inl _ \<Rightarrow> update_account_status i ''disconnected'' (dt_store s)) \<and>
         shown = DeCall (DcUpdate i True) # (case upd of Inl _ \<Rightarrow> [] | Inr _ \<Rightarrow> [DeCall (DcGet i)]) @
           [DeToast (error_toast t e ''accounts.messages.disableFailed''), DeCall (DcGet i), toggle_failed t]
     | None \<Rightarrow>
         (\<exists>a. got = Inr a \<and> dt_store u = (case final of Inr v \<Rightarrow> set_current_account v (update_account a (dt_store s))
           | Inl _ \<Rightarrow> update_account a (dt_store s))) \<and>
         last shown = DeDone (t ''accounts.messages.disabledSuccess''))"
proof -
  note fresh = fresh_after [OF assms(4)]
  have "truthy (ac_current (dt_store s))" using assms(2) by (rule account_truthy)
  then have s1: "detail_step t y s DvToggle = s\<lparr>dt_store := update_account_status i ''disconnected'' (dt_store s),
      dt_tasks := dt_tasks s @ [(dt_next s, DkDisable i)], dt_next := Suc (dt_next s)\<rparr>"
    "detail_shown t y s DvToggle = [DeCall (DcUpdate i True)]"
    using assms(1-3) by (auto simp: detail_step_def detail_shown_def detail_out_def toggle_account_def current_id_def Let_def
        in_store_def change_def ask_def emit_def)
  show ?thesis
    using read
    by (cases upd; cases got; cases reread; cases final)
      (simp_all add: u_def shown_def es_def disable_answers_def s1 task_step [OF fresh(1)] task_step [OF fresh(2)]
        task_step [OF fresh(3)] task_shown [OF fresh(1)] task_shown [OF fresh(2)] task_shown [OF fresh(3)]
        task_answered_def disable_defs fetched_current switch_failure_def update_after_status account_read_def fetch_account_def snd_runs)
qed

text \<open>
  Switching it on: the success is reported although the last reading may fail, and a failure leaves the status shown in
  advance, \<open>connecting\<close>, on the account; only the mark of the account that is switched on goes.
\<close>

theorem enabling_outcomes:
  fixes t y s upd got final
  assumes "dt_open s \<noteq> None" "account_id (ac_current (dt_store s)) = JStr i" "current_disabled s"
    and "fresh_table (dt_next s) (dt_tasks s)"
  defines "es \<equiv> DvToggle # enable_answers (dt_next s) upd got final"
  defines "u \<equiv> run (detail_step t y) s es" and "shown \<equiv> run_log (detail_step t y) (detail_shown t y) s es"
  shows "dt_tasks u = dt_tasks s \<and> ac_enabling (dt_store u) = None \<and>
    (case switch_failure upd got of
       Some _ \<Rightarrow> jget ''status'' (ac_current (dt_store u)) = JStr ''connecting'' \<and> last shown = toggle_failed t
     | None \<Rightarrow> last shown = DeDone (t ''accounts.messages.enabledSuccess''))"
proof -
  note fresh = fresh_after [OF assms(4)]
  have "truthy (ac_current (dt_store s))" using assms(2) by (rule account_truthy)
  then have s1: "detail_step t y s DvToggle = s\<lparr>
      dt_store := update_account_status i ''connecting'' (set_enabling_account (Some i) (dt_store s)),
      dt_tasks := dt_tasks s @ [(dt_next s, DkEnable i)], dt_next := Suc (dt_next s)\<rparr>"
    "detail_shown t y s DvToggle = [DeWaiting True, DeCall (DcUpdate i False)]"
    using assms(1-3) by (auto simp: detail_step_def detail_shown_def detail_out_def toggle_account_def current_id_def Let_def
        in_store_def change_def ask_def emit_def)
  have current: "jget ''status'' (ac_current (update_account_status i ''connecting'' (set_enabling_account (Some i) (dt_store s)))) =
      JStr ''connecting''"
    using assms(2) by (simp add: account_op_defs same_id_str)
  show ?thesis
    using current
    by (cases upd; cases got; cases final)
      (simp_all add: u_def shown_def es_def enable_answers_def s1 task_step [OF fresh(1)] task_step [OF fresh(2)]
        task_step [OF fresh(3)] task_shown [OF fresh(1)] task_shown [OF fresh(2)] task_shown [OF fresh(3)]
        task_answered_def enable_answered_def enable_read_def fetched_current switch_failure_def account_read_def fetch_account_def snd_runs
        enabling_fields)
qed

subsection \<open>Examples\<close>

definition demo_detail_account :: "string \<Rightarrow> bool \<Rightarrow> jv" where
  "demo_detail_account i disabled =
     JObj [(''id'', JStr i), (''status'', JStr ''connected''), (''isDisabled'', JBool disabled)]"

definition demo_detail_store :: account_state where
  "demo_detail_store = set_accounts (JArr [demo_detail_account ''b'' False]) account_init"

definition demo_detail_run :: "detail_event list" where
  "demo_detail_run = [DvOpen ''a'', DvAnswer 0 (Inr (demo_detail_account ''a'' False)), DvToggle, DvAnswer 2 (Inr JNull)]"

lemma demo_detail_inv: "account_inv demo_detail_store"
  using account_inv_step [of account_init "AcSetAccounts (JArr [demo_detail_account ''b'' False])"]
  by (simp add: demo_detail_store_def account_inv_init)

lemma account_of_page_witness:
  "account_id (ac_current (dt_store (run (detail_step id 2025) (detail_init 2025 demo_detail_store) demo_detail_run))) = JStr ''a''"
proof -
  have "all_in_time id 2025 (detail_init 2025 demo_detail_store) demo_detail_run" by code_simp
  moreover have "dt_open (run (detail_step id 2025) (detail_init 2025 demo_detail_store) demo_detail_run) = Some (''a'', 1)"
    by code_simp
  moreover have "\<not> has_entry is_init (dt_tasks (run (detail_step id 2025) (detail_init 2025 demo_detail_store) demo_detail_run))"
    by code_simp
  ultimately show ?thesis using account_of_page [OF demo_detail_inv, of id 2025 demo_detail_run "''a''" 1] by simp
qed

lemma late_account_on_other_page_witness:
  "detail_shown id 2025 (run (detail_step id 2025) (detail_init 2025 demo_detail_store)
     [DvOpen ''a'', DvClose, DvOpen ''b'', DvAnswer 0 (Inr (demo_detail_account ''a'' False))]) DvToggle =
   [DeCall (DcUpdate ''a'' True)]"
proof -
  have "List.find (same_id (JStr ''a'')) (ac_accounts demo_detail_store) = None" by code_simp
  moreover have "List.find (same_id (JStr ''b'')) (ac_accounts demo_detail_store) = Some (demo_detail_account ''b'' False)"
    by code_simp
  moreover have "account_id (to_camel (demo_detail_account ''a'' False)) = JStr ''a''" by code_simp
  moreover have "\<not> truthy (jget ''isDisabled'' (to_camel (demo_detail_account ''a'' False)))" by code_simp
  moreover have "truthy (demo_detail_account ''a'' False)" by code_simp
  ultimately show ?thesis
    using late_account_on_other_page [of "''a''" "''b''" demo_detail_store "demo_detail_account ''b'' False"
        "demo_detail_account ''a'' False" id 2025] by simp
qed

definition demo_detail_page :: "bool \<Rightarrow> detail_page" where
  "demo_detail_page disabled = detail_step id 2025
     (detail_init 2025 (set_accounts (JArr [demo_detail_account ''b'' disabled]) account_init)) (DvOpen ''b'')"

lemma demo_detail_page:
  "dt_open (demo_detail_page b) \<noteq> None" "account_id (ac_current (dt_store (demo_detail_page b))) = JStr ''b''"
  "current_disabled (demo_detail_page b) = b" "fresh_table (dt_next (demo_detail_page b)) (dt_tasks (demo_detail_page b))"
  by (cases b; (simp only:)?; code_simp)+

theorem disabling_outcomes_witness:
  "dt_store (run (detail_step id 2025) (demo_detail_page False) (DvToggle # disable_answers (dt_next (demo_detail_page False))
     (Inr JNull) (Inl JNull) (Inr (demo_detail_account ''b'' False)) (Inl JNull))) =
   update_account (demo_detail_account ''b'' False) (dt_store (demo_detail_page False))"
proof -
  have "account_id (demo_detail_account ''b'' False) = JStr ''b''" by code_simp
  then show ?thesis
    using disabling_outcomes [OF demo_detail_page(1,2) _ demo_detail_page(4), of False "Inl JNull" "Inr (demo_detail_account ''b'' False)"
        id 2025 "Inr JNull" "Inl JNull"]
    by (simp add: demo_detail_page(3) switch_failure_def)
qed

theorem enabling_outcomes_witness:
  "jget ''status'' (ac_current (dt_store (run (detail_step id 2025) (demo_detail_page True)
     (DvToggle # enable_answers (dt_next (demo_detail_page True)) (Inr JNull) (Inl JNull) (Inl JNull))))) = JStr ''connecting''"
  using enabling_outcomes [OF demo_detail_page(1,2) _ demo_detail_page(4), of True id 2025 "Inr JNull" "Inl JNull" "Inl JNull"]
  by (simp add: demo_detail_page(3) switch_failure_def)

end
