(* ===== verification/LatestAnswer.thy ===== *)
theory LatestAnswer
  imports TaskTable
begin

text \<open>
  A page that asks again whenever what it wants changes, and drops the answers of the requests before: each request
  has the number of the effect that sent it, and an answer counts when its number is the one of the last effect.
\<close>

locale latest_answer =
  fixes asked :: "'s \<Rightarrow> (nat \<times> 'k) list"
    and effect :: "'s \<Rightarrow> nat"
    and wanted :: "'s \<Rightarrow> 'k"
    and busy :: "'s \<Rightarrow> bool"
    and answered :: "'s \<Rightarrow> 'k \<Rightarrow> bool"
    and ask :: "'s \<Rightarrow> 's"
    and deliver :: "nat \<Rightarrow> 's \<Rightarrow> 's"
  assumes asked_ask: "asked (ask s) = asked s @ [(Suc (effect s), wanted s)]"
    and effect_ask: "effect (ask s) = Suc (effect s)"
    and wanted_ask: "wanted (ask s) = wanted s"
    and busy_ask: "busy (ask s)"
    and deliver_none: "map_of (asked s) n = None \<Longrightarrow> deliver n s = s"
    and asked_deliver: "asked (deliver n s) = AList.delete n (asked s)"
    and effect_deliver: "effect (deliver n s) = effect s"
    and wanted_deliver: "wanted (deliver n s) = wanted s"
    and deliver_old: "n \<noteq> effect s \<Longrightarrow> busy (deliver n s) = busy s \<and> answered (deliver n s) = answered s"
    and deliver_last: "map_of (asked s) (effect s) = Some k \<Longrightarrow>
      \<not> busy (deliver (effect s) s) \<and> answered (deliver (effect s) s) k"
begin

definition latest :: "'s \<Rightarrow> bool" where
  "latest s \<longleftrightarrow> fresh_table (Suc (effect s)) (asked s) \<and>
     (if busy s then map_of (asked s) (effect s) = Some (wanted s)
      else map_of (asked s) (effect s) = None \<and> answered s (wanted s))"

lemma latest_ask: "fresh_table (Suc (effect s)) (asked s) \<Longrightarrow> latest (ask s)"
  using map_of_last [of "Suc (effect s)" "asked s" "wanted s"] fresh_table_key [of "Suc (effect s)" "asked s"]
  by (simp add: latest_def asked_ask effect_ask wanted_ask busy_ask del: map_of_append)

lemma latest_deliver: "latest s \<Longrightarrow> latest (deliver n s)"
proof (cases "map_of (asked s) n")
  case None
  then show "latest s \<Longrightarrow> latest (deliver n s)" by (simp add: deliver_none)
next
  case (Some k)
  assume inv: "latest s"
  then have fresh: "fresh_table (Suc (effect s)) (AList.delete n (asked s))" by (simp add: latest_def)
  show "latest (deliver n s)"
  proof (cases "n = effect s")
    case True
    then show ?thesis
      using inv Some deliver_last [of s k] fresh
      by (auto simp: latest_def asked_deliver effect_deliver wanted_deliver delete_conv' split: if_splits)
  next
    case False
    then show ?thesis
      using inv deliver_old [OF False] fresh
      by (simp add: latest_def asked_deliver effect_deliver wanted_deliver delete_conv')
  qed
qed

lemma latest_wanted: "latest s \<Longrightarrow> map_of (asked s) (effect s) = Some k \<Longrightarrow> k = wanted s"
  by (simp add: latest_def split: if_splits)

text \<open>What a page shows that is not busy is the answer for what it wants, and with nothing in flight it is not busy.\<close>

lemma latest_shown: "latest s \<Longrightarrow> if busy s then asked s \<noteq> [] else answered s (wanted s)"
  by (auto simp: latest_def)

end

end
