(* ===== verification/AccountViews.thy ===== *)
theory AccountViews
  imports AccountStore LatestAnswer AnalyticsPage StrategyPages PriceFormat "HOL-Library.Multiset"
begin

text \<open>
  What the page of an account shows (\<open>pages/accounts/AccountDetail.tsx\<close> and its parts in
  \<open>pages/accounts/components\<close>): state and figures of the account, positions, orders and closed trades, the data of the
  charts, and the card of the monthly analysis with its request for the details of a month.
\<close>

subsection \<open>State and figures\<close>

definition account_status_shown :: "(string \<Rightarrow> string) \<Rightarrow> jv \<Rightarrow> string \<times> string" where
  "account_status_shown t account =
     (if \<not> truthy account then (''#8A9AA5'', t ''common.unknown'')
      else if truthy (jget ''isDisabled'' account) then (''#8A9AA5'', t ''accounts.detail.status.disabled'')
      else if jget ''status'' account = JStr ''connected'' then (''#00A651'', t ''accounts.detail.status.connected'')
      else if jget ''status'' account = JStr ''connecting'' then (''#FF9800'', t ''accounts.detail.status.connecting'')
      else if jget ''status'' account = JStr ''disconnected'' then (''#E53935'', t ''accounts.detail.status.disconnected'')
      else if jget ''status'' account = JStr ''error'' then (''#E53935'', t ''accounts.detail.status.error'')
      else (''#8A9AA5'', t ''common.unknown''))"

text \<open>The entry of the menu: its label, and whether it turns.\<close>

definition toggle_entry :: "(string \<Rightarrow> string) \<Rightarrow> string option \<Rightarrow> jv \<Rightarrow> string \<times> bool" where
  "toggle_entry t enabling account =
     (if truthy (jget ''isDisabled'' account)
      then (t ''accounts.detail.actions.enableAccount'', map_option JStr enabling = Some (account_id account))
      else (t ''accounts.detail.actions.disableAccount'', False))"

text \<open>
  The figures come from the information of the store as soon as there is any: the condition
  of the code on the received data is a function, which counts as true.
\<close>

definition account_figure :: "jv \<Rightarrow> jv \<Rightarrow> string \<Rightarrow> jv" where
  "account_figure info account k =
     (if truthy info then js_coalesce (jget k info) (JNum (Fin 0)) else js_or (jget k account) (JNum (Fin 0)))"

definition account_figures :: "jv \<Rightarrow> jv \<Rightarrow> (string \<times> jv) list" where
  "account_figures info account =
     List.map (\<lambda>k. (k, account_figure info account k))
       [''balance'', ''equity'', ''margin'', ''freeMargin'', ''marginLevel'', ''profit'', ''profitPercent'', ''credit'']"

subsection \<open>Positions, orders and trades\<close>

definition is_pending_order :: "jv \<Rightarrow> bool" where
  "is_pending_order type \<longleftrightarrow> type \<in> {JStr ''buy_limit'', JStr ''sell_limit'', JStr ''buy_stop'', JStr ''sell_stop''}"

text \<open>The format of times is the one of the browser.\<close>

definition format_timestamp :: "(jv \<Rightarrow> string) \<Rightarrow> jv \<Rightarrow> string" where
  "format_timestamp fmt ts =
     (if \<not> truthy ts then []
      else case ts of
        JStr s \<Rightarrow> s
      | JNum _ \<Rightarrow> fmt ts
      | _ \<Rightarrow> if jget ''seconds'' ts = JUndef then [] else fmt ts)"

definition position_row :: "(jv \<Rightarrow> string) \<Rightarrow> jv \<Rightarrow> jv" where
  "position_row fmt p =
     jset ''open_time'' (JStr (format_timestamp fmt (jget ''openTime'' p)))
       (jset ''current_price'' (js_or (js_or (jget ''closePrice'' p) (jget ''currentPrice'' p)) (JNum (Fin 0)))
         (jset ''open_price'' (js_or (jget ''openPrice'' p) (JNum (Fin 0))) p))"

definition real_positions :: "(jv \<Rightarrow> string) \<Rightarrow> jv list \<Rightarrow> jv list" where
  "real_positions fmt positions = filter (\<lambda>p. \<not> is_pending_order (jget ''type'' p)) (List.map (position_row fmt) positions)"

definition pending_orders :: "(jv \<Rightarrow> string) \<Rightarrow> jv list \<Rightarrow> jv list" where
  "pending_orders fmt positions = filter (\<lambda>p. is_pending_order (jget ''type'' p)) (List.map (position_row fmt) positions)"

definition position_side :: "(string \<Rightarrow> string) \<Rightarrow> jv \<Rightarrow> string" where
  "position_side t position =
     (if jget ''type'' position = JStr ''buy'' then t ''trading.strategyExecute.confirm.buy''
      else t ''trading.strategyExecute.confirm.sell'')"

definition pending_kind :: "(string \<Rightarrow> string) \<Rightarrow> jv \<Rightarrow> string" where
  "pending_kind t order =
     (if jget ''type'' order = JStr ''buy_limit'' then t ''accounts.detail.orderTypes.buyLimit''
      else if jget ''type'' order = JStr ''sell_limit'' then t ''accounts.detail.orderTypes.sellLimit''
      else if jget ''type'' order = JStr ''buy_stop'' then t ''accounts.detail.orderTypes.buyStop''
      else t ''accounts.detail.orderTypes.sellStop'')"

fun positive_number :: "jv \<Rightarrow> bool" where
  "positive_number (JNum (Fin q)) = (q > 0)"
| "positive_number (JNum PInf) = True"
| "positive_number _ = False"

definition default_price :: "jv \<Rightarrow> jv" where
  "default_price row =
     (if positive_number (jget ''currentPrice'' row) then jget ''currentPrice'' row
      else if positive_number (jget ''closePrice'' row) then jget ''closePrice'' row else JUndef)"

text \<open>The kind of a closed trade: a prefix of the protocol is dropped, the rest in small letters.\<close>

definition drop_start :: "string \<Rightarrow> string \<Rightarrow> string" where
  "drop_start p s = (if js_starts s p then drop (length p) s else s)"

definition history_order_type :: "jv \<Rightarrow> string" where
  "history_order_type trade =
     (case js_or (js_or (jget ''type'' trade) (js_or (jget ''orderType'' trade) (jget ''order_type'' trade))) (JStr []) of
        JStr s \<Rightarrow> js_lower (drop_start ''Op_'' (drop_start ''Op_Op_'' s)) | _ \<Rightarrow> [])"

definition is_balance_record :: "jv \<Rightarrow> bool" where
  "is_balance_record trade \<longleftrightarrow> history_order_type trade \<in> {''balance'', ''credit''}"

definition history_side :: "(string \<Rightarrow> string) \<Rightarrow> bool \<Rightarrow> jv \<Rightarrow> string" where
  "history_side t deposit trade =
     (if is_balance_record trade
      then t (if deposit then ''accounts.detail.balanceRecord.deposit'' else ''accounts.detail.balanceRecord.withdraw'')
      else if js_includes (history_order_type trade) ''buy'' then t ''trading.strategyExecute.confirm.buy''
      else t ''trading.strategyExecute.confirm.sell'')"

definition history_volume :: "jv \<Rightarrow> jv" where
  "history_volume trade =
     (if is_balance_record trade then JStr ''-''
      else js_or (js_or (jget ''volume'' trade) (jget ''lots'' trade)) (JNum (Fin 0)))"

subsection \<open>Charts\<close>

definition profit_by_month :: "jv list \<Rightarrow> jv list" where
  "profit_by_month rows =
     filter (\<lambda>m. truthy (jget ''month'' m))
       (List.map (\<lambda>m. JObj
          [(''month'', JStr (js_string (js_coalesce
              (js_coalesce (js_coalesce (jget ''month'' m) (jget ''monthNum'' m)) (jget ''month_num'' m)) (JStr [])))),
           (''profit'', jget ''profit'' m), (''trades'', jget ''trades'' m)]) rows)"

definition floating_fields :: "string list" where
  "floating_fields =
     [''lots'', ''balance'', ''profitFactor'', ''maxFloatingLossAmount'', ''maxFloatingLossRatio'',
      ''maxFloatingProfitAmount'', ''maxFloatingProfitRatio'']"

definition daily_pnl_data :: "jv list \<Rightarrow> jv list" where
  "daily_pnl_data rows =
     List.map (\<lambda>d. JObj ([(''day'', jget ''day'' d), (''date'', jget ''date'' d),
         (''profit'', js_coalesce (jget ''pnl'' d) (jget ''profit'' d)), (''trades'', jget ''trades'' d)] @
       List.map (\<lambda>k. (k, js_coalesce (jget k d) (JNum (Fin 0)))) floating_fields)) rows"

definition pad_hour :: "string \<Rightarrow> string" where
  "pad_hour s = replicate (2 - length s) (CHR ''0'') @ s"

definition hourly_row :: "jv \<Rightarrow> jv" where
  "hourly_row h =
     jspread h (JObj ((''hourLabel'',
         JStr (pad_hour (num_str (js_number (js_coalesce (jget ''hour'' h) (JNum (Fin 0))))) @ '':00'')) #
       List.map (\<lambda>k. (k, js_coalesce (jget k h) (JNum (Fin 0)))) floating_fields))"

definition round_number :: "jsnum \<Rightarrow> jsnum" where
  "round_number n = (case n of Fin q \<Rightarrow> Fin (of_int (math_round q)) | _ \<Rightarrow> n)"

definition symbol_distribution :: "jv list \<Rightarrow> jv list" where
  "symbol_distribution stats =
     List.map (\<lambda>s. JObj [(''name'', jget ''symbol'' s),
         (''value'', JNum (round_number (js_number (js_or (jget ''tradeSharePercent'' s) (JNum (Fin 0)))))),
         (''profit'', jget ''profit'' s)]) (take 6 stats)"

text \<open>The selected point of a chart, whose data may have become shorter since it was selected.\<close>

definition safe_index :: "nat \<Rightarrow> jv list \<Rightarrow> nat" where
  "safe_index i rows = (if i < length rows then i else 0)"

definition selected_point :: "nat \<Rightarrow> jv list \<Rightarrow> jv option" where
  "selected_point i rows = (if safe_index i rows < length rows then Some (rows ! safe_index i rows) else None)"

definition pick_tooltip_index :: "int option \<Rightarrow> nat \<Rightarrow> nat option" where
  "pick_tooltip_index i n =
     (case i of Some k \<Rightarrow> if k < 0 \<or> k \<ge> int n then None else Some (nat k) | None \<Rightarrow> None)"

subsection \<open>Properties of the rows\<close>

lemma position_row_type: "jget ''type'' (position_row fmt p) = jget ''type'' p"
  by (simp add: position_row_def)

text \<open>Every row of the store is shown once, as a position or as a pending order.\<close>

theorem positions_partitioned:
  "mset (real_positions fmt ps) + mset (pending_orders fmt ps) = mset (List.map (position_row fmt) ps)"
  by (induction ps) (auto simp: real_positions_def pending_orders_def)

text \<open>An order of the kind stop limit is listed with the positions, and as a sell.\<close>

theorem stop_limit_shown_as_sell:
  assumes "p \<in> set ps" "jget ''type'' p = JStr ''buy_stop_limit''"
  shows "position_row fmt p \<in> set (real_positions fmt ps) \<and>
    position_side t (position_row fmt p) = t ''trading.strategyExecute.confirm.sell''"
  using assms by (auto simp: real_positions_def position_row_type position_side_def is_pending_order_def)

lemma pending_kinds:
  assumes "p \<in> set (pending_orders fmt ps)"
  shows "pending_kind t p = t (case jget ''type'' p of JStr k \<Rightarrow>
      if k = ''buy_limit'' then ''accounts.detail.orderTypes.buyLimit''
      else if k = ''sell_limit'' then ''accounts.detail.orderTypes.sellLimit''
      else if k = ''buy_stop'' then ''accounts.detail.orderTypes.buyStop'' else ''accounts.detail.orderTypes.sellStop'' | _ \<Rightarrow> [])"
  using assms by (auto simp: pending_orders_def is_pending_order_def position_row_type pending_kind_def)

text \<open>The point that is shown is one of the data, whatever was selected before.\<close>

theorem selected_point_listed:
  "(case selected_point i rows of Some r \<Rightarrow> r \<in> set rows | None \<Rightarrow> rows = [])"
  by (auto simp: selected_point_def safe_index_def)

lemma picked_index: "pick_tooltip_index k (length rows) = Some i \<Longrightarrow> selected_point i rows = Some (rows ! i)"
  by (auto simp: pick_tooltip_index_def selected_point_def safe_index_def split: option.splits if_splits)

lemma month_label_shown: "js_string v \<noteq> [] \<Longrightarrow> \<not> nullish v \<Longrightarrow>
    profit_by_month [JObj [(''month'', v)]] = [JObj [(''month'', JStr (js_string v)), (''profit'', JUndef), (''trades'', JUndef)]]"
  by (simp add: profit_by_month_def jget_def js_coalesce_def)

subsection \<open>The card of the monthly analysis\<close>

datatype month_metric = MmChange | MmProfit | MmLots | MmPips

text \<open>
  The card asks for the details of the month that is selected, in an effect whose number tells its answers from
  those of the effects before it, which are dropped.
\<close>

record month_card =
  mc_year :: int
  mc_month :: int
  mc_hover :: "int option"
  mc_metric :: month_metric
  mc_loading :: bool
  mc_bonus :: jv
  mc_effect :: nat
  mc_asked :: "(nat \<times> int \<times> int) list"

definition display_month :: "month_card \<Rightarrow> int" where
  "display_month s = (case mc_hover s of Some m \<Rightarrow> m | None \<Rightarrow> mc_month s)"

definition ask_details :: "month_card \<Rightarrow> month_card" where
  "ask_details s =
     s\<lparr>mc_loading := True, mc_effect := Suc (mc_effect s),
       mc_asked := mc_asked s @ [(Suc (mc_effect s), mc_year s, mc_month s)]\<rparr>"

definition ask_bonus :: "string \<Rightarrow> month_card \<Rightarrow> month_card" where
  "ask_bonus account s =
     (if account = [] then s\<lparr>mc_loading := False, mc_bonus := JNull, mc_effect := Suc (mc_effect s)\<rparr> else ask_details s)"

definition month_card_mounted :: "string \<Rightarrow> int list \<Rightarrow> int \<Rightarrow> int \<Rightarrow> month_card" where
  "month_card_mounted account years this_year this_month = ask_bonus account
     \<lparr>mc_year = (if years = [] \<or> List.last years = 0 then this_year else List.last years), mc_month = this_month,
      mc_hover = None, mc_metric = MmChange, mc_loading = False, mc_bonus = JNull, mc_effect = 0, mc_asked = []\<rparr>"

definition month_effects :: "string \<Rightarrow> month_card \<Rightarrow> month_card \<Rightarrow> month_card" where
  "month_effects account old new =
     (if mc_year old = mc_year new \<and> mc_month old = mc_month new then new else ask_bonus account new)"

text \<open>The twelve rows of a year; the last row of the data for a month counts.\<close>

definition is_row_of :: "int \<Rightarrow> int \<Rightarrow> jv \<Rightarrow> bool" where
  "is_row_of year month row \<longleftrightarrow>
     js_strict_eq (jget ''year'' row) (JNum (Fin (of_int year))) \<and> js_strict_eq (jget ''month'' row) (JNum (Fin (of_int month)))"

definition empty_month :: "int \<Rightarrow> int \<Rightarrow> jv" where
  "empty_month year month = JObj ([(''year'', JNum (Fin (of_int year))), (''month'', JNum (Fin (of_int month)))] @
     List.map (\<lambda>k. (k, JNum (Fin 0))) [''change'', ''profit'', ''lots'', ''pips'', ''trades''])"

definition year_data :: "jv list \<Rightarrow> int \<Rightarrow> jv list" where
  "year_data rows year =
     List.map (\<lambda>i. case List.find (is_row_of year (int i + 1)) (rev rows) of
         Some r \<Rightarrow> r | None \<Rightarrow> empty_month year (int i + 1)) [0..<12]"

definition focused_month :: "jv list \<Rightarrow> month_card \<Rightarrow> jv" where
  "focused_month rows s =
     (case List.find (\<lambda>r. js_strict_eq (jget ''month'' r) (JNum (Fin (of_int (display_month s))))) (year_data rows (mc_year s)) of
        Some r \<Rightarrow> r | None \<Rightarrow> year_data rows (mc_year s) ! 0)"

fun metric_field :: "month_metric \<Rightarrow> string" where
  "metric_field MmChange = ''change''"
| "metric_field MmProfit = ''profit''"
| "metric_field MmLots = ''lots''"
| "metric_field MmPips = ''pips''"

definition month_short_labels :: "string list" where
  "month_short_labels =
     [''Jan'', ''Feb'', ''Mar'', ''Apr'', ''May'', ''Jun'', ''Jul'', ''Aug'', ''Sep'', ''Oct'', ''Nov'', ''Dec'']"

text \<open>The bar of a month: its label, its value, and whether it is the one that is shown.\<close>

definition month_bar :: "month_card \<Rightarrow> nat \<Rightarrow> jv \<Rightarrow> string \<times> jv \<times> bool" where
  "month_bar s i row =
     ((month_short_labels ! i) @ '' '' @ int_str (mc_year s), jget (metric_field (mc_metric s)) row, int i + 1 = display_month s)"

definition month_series :: "jv list \<Rightarrow> month_card \<Rightarrow> (string \<times> jv \<times> bool) list" where
  "month_series rows s = List.map (\<lambda>(i, r). month_bar s i r) (enumerate 0 (year_data rows (mc_year s)))"

text \<open>The month of a bar that is clicked: the one of its row, or else the one at its index.\<close>

definition month_from_bar_click :: "int option \<Rightarrow> nat \<Rightarrow> int option" where
  "month_from_bar_click payload i =
     (case payload of
        Some m \<Rightarrow> if 1 \<le> m \<and> m \<le> 12 then Some m else if i < 12 then Some (int i + 1) else None
      | None \<Rightarrow> if i < 12 then Some (int i + 1) else None)"

datatype month_event =
    MvYear int
  | MvMetric month_metric
  | MvHover "nat option"
  | MvLeave
  | MvCommit "nat option"
  | MvBar "int option" nat
  | MvAnswer nat "jv outcome"

definition select_month :: "int \<Rightarrow> month_card \<Rightarrow> month_card" where
  "select_month m s = s\<lparr>mc_month := m, mc_hover := None\<rparr>"

definition bonus_answered :: "nat \<Rightarrow> jv outcome \<Rightarrow> month_card \<Rightarrow> month_card" where
  "bonus_answered n answer s =
     (case map_of (mc_asked s) n of
        None \<Rightarrow> s
      | Some _ \<Rightarrow>
          (let s = s\<lparr>mc_asked := AList.delete n (mc_asked s)\<rparr>
           in if n \<noteq> mc_effect s then s
              else s\<lparr>mc_loading := False, mc_bonus := (case answer of Inr r \<Rightarrow> monthly_bonus r | Inl _ \<Rightarrow> JNull)\<rparr>))"

definition month_change :: "month_card \<Rightarrow> month_event \<Rightarrow> month_card" where
  "month_change s a =
     (case a of
        MvYear y \<Rightarrow> select_month 1 (s\<lparr>mc_year := y\<rparr>)
      | MvMetric m \<Rightarrow> s\<lparr>mc_metric := m\<rparr>
      | MvHover (Some i) \<Rightarrow> if i < 12 then s\<lparr>mc_hover := Some (int i + 1)\<rparr> else s
      | MvHover None \<Rightarrow> s
      | MvLeave \<Rightarrow> s\<lparr>mc_hover := None\<rparr>
      | MvCommit (Some i) \<Rightarrow> if i < 12 then select_month (int i + 1) s else s
      | MvCommit None \<Rightarrow> s
      | MvBar payload i \<Rightarrow> (case month_from_bar_click payload i of Some m \<Rightarrow> select_month m s | None \<Rightarrow> s)
      | MvAnswer n answer \<Rightarrow> bonus_answered n answer s)"

definition month_step :: "string \<Rightarrow> month_card \<Rightarrow> month_event \<Rightarrow> month_card" where
  "month_step account s a = month_effects account s (month_change s a)"

subsection \<open>What the card shows\<close>

text \<open>The row that is in focus is the one of the month that is shown.\<close>

lemma year_data_nth:
  "i < 12 \<Longrightarrow> year_data rows year ! i = (case List.find (is_row_of year (int i + 1)) (rev rows) of
     Some r \<Rightarrow> r | None \<Rightarrow> empty_month year (int i + 1))"
  unfolding year_data_def by (simp only: nth_map length_upt diff_zero nth_upt add_0)

lemma length_year_data [simp]: "length (year_data rows year) = 12"
  by (simp add: year_data_def)

lemma empty_month_row: "is_row_of year month (empty_month year month)"
  by (simp add: is_row_of_def empty_month_def jget_def)

lemma year_data_row: "i < 12 \<Longrightarrow> is_row_of year (int i + 1) (year_data rows year ! i)"
  by (auto simp: year_data_nth empty_month_row find_Some_iff split: option.split)

lemma month_unique:
  "js_strict_eq v (JNum (Fin (of_int a))) \<Longrightarrow> js_strict_eq v (JNum (Fin (of_int b))) \<Longrightarrow> a = b"
  by (cases v; cases "case v of JNum n \<Rightarrow> n | _ \<Rightarrow> NaN") (auto simp: num_eq_def)

theorem focused_is_displayed:
  assumes "1 \<le> display_month s" "display_month s \<le> 12"
  shows "focused_month rows s = year_data rows (mc_year s) ! nat (display_month s - 1) \<and>
    is_row_of (mc_year s) (display_month s) (focused_month rows s)"
proof -
  define i where "i = nat (display_month s - 1)"
  have i: "i < 12" "int i + 1 = display_month s" using assms by (auto simp: i_def)
  let ?P = "\<lambda>r. js_strict_eq (jget ''month'' r) (JNum (Fin (of_int (display_month s))))"
  have row: "?P (year_data rows (mc_year s) ! i)" using year_data_row [OF i(1), of "mc_year s" rows] i(2) by (simp add: is_row_of_def)
  have other: "\<not> ?P (year_data rows (mc_year s) ! j)" if "j < i" for j
  proof
    assume "?P (year_data rows (mc_year s) ! j)"
    moreover have "j < 12" using that i(1) by simp
    ultimately have "int j + 1 = display_month s"
      using year_data_row [of j "mc_year s" rows] month_unique by (force simp: is_row_of_def)
    then show False using that i(2) by simp
  qed
  have "List.find ?P (year_data rows (mc_year s)) = Some (year_data rows (mc_year s) ! i)"
    unfolding find_Some_iff using i(1) row other by auto
  then show ?thesis
    using year_data_row [OF i(1), of "mc_year s" rows] i(2) by (simp add: focused_month_def i_def [symmetric])
qed

text \<open>
  A step in which the service \<open>svc\<close> answers, for a year and a month; the steps of the user are as they are.
\<close>

definition bonus_of :: "jv outcome \<Rightarrow> jv" where
  "bonus_of answer = (case answer of Inr r \<Rightarrow> monthly_bonus r | Inl _ \<Rightarrow> JNull)"

definition deliver_bonus :: "(int \<Rightarrow> int \<Rightarrow> jv outcome) \<Rightarrow> nat \<Rightarrow> month_card \<Rightarrow> month_card" where
  "deliver_bonus svc n s = (case map_of (mc_asked s) n of Some (y, m) \<Rightarrow> bonus_answered n (svc y m) s | None \<Rightarrow> s)"

definition month_step_of :: "string \<Rightarrow> (int \<Rightarrow> int \<Rightarrow> jv outcome) \<Rightarrow> month_card \<Rightarrow> month_event \<Rightarrow> month_card" where
  "month_step_of account svc s a = (case a of MvAnswer n _ \<Rightarrow> deliver_bonus svc n s | _ \<Rightarrow> month_step account s a)"

lemmas bonus_defs = deliver_bonus_def bonus_answered_def Let_def bonus_of_def

interpretation details: latest_answer mc_asked mc_effect "\<lambda>s. (mc_year s, mc_month s)" mc_loading
    "\<lambda>s k. mc_bonus s = bonus_of (svc (fst k) (snd k))" ask_details "deliver_bonus svc" for svc
proof unfold_locales
  fix n s
  show "map_of (mc_asked s) n = None \<Longrightarrow> deliver_bonus svc n s = s" by (simp add: deliver_bonus_def)
  show "mc_asked (deliver_bonus svc n s) = AList.delete n (mc_asked s)"
    by (auto simp: bonus_defs delete_idem map_of_eq_None_iff split: option.split)
  show "n \<noteq> mc_effect s \<Longrightarrow> mc_loading (deliver_bonus svc n s) = mc_loading s \<and>
      (\<lambda>k. mc_bonus (deliver_bonus svc n s) = bonus_of (svc (fst k) (snd k))) =
      (\<lambda>k. mc_bonus s = bonus_of (svc (fst k) (snd k)))"
    by (auto simp: bonus_defs split: option.split)
qed (auto simp: ask_details_def bonus_defs split: option.split sum.split)

definition is_month :: "int \<Rightarrow> bool" where
  "is_month m \<longleftrightarrow> 1 \<le> m \<and> m \<le> 12"

definition month_card_inv :: "(int \<Rightarrow> int \<Rightarrow> jv outcome) \<Rightarrow> month_card \<Rightarrow> bool" where
  "month_card_inv svc s \<longleftrightarrow> is_month (mc_month s) \<and> (case mc_hover s of Some m \<Rightarrow> is_month m | None \<Rightarrow> True) \<and> details.latest svc s"

lemma latest_fields [simp]:
  "details.latest svc (s\<lparr>mc_hover := h\<rparr>) = details.latest svc s" "details.latest svc (s\<lparr>mc_metric := k\<rparr>) = details.latest svc s"
  by (simp_all add: details.latest_def)

lemma latest_select:
  assumes "details.latest svc s" "account \<noteq> []"
  shows "details.latest svc (month_effects account s (select_month m (s\<lparr>mc_year := y\<rparr>)))"
proof (cases "mc_year s = y \<and> mc_month s = m")
  case True
  then have "s\<lparr>mc_year := y\<rparr> = s" "s\<lparr>mc_month := m\<rparr> = s" by auto
  then show ?thesis using assms(1) by (simp add: month_effects_def select_month_def)
next
  case False
  have "details.latest svc (ask_details (select_month m (s\<lparr>mc_year := y\<rparr>)))"
    using assms(1) by (intro details.latest_ask) (simp add: details.latest_def select_month_def)
  with False assms(2) show ?thesis by (auto simp: month_effects_def select_month_def ask_bonus_def)
qed

lemma select_fields [simp]:
  "mc_month (month_effects account s (select_month m u)) = m" "mc_hover (month_effects account s (select_month m u)) = None"
  by (simp_all add: month_effects_def select_month_def ask_bonus_def ask_details_def)

lemma month_inv_select:
  assumes "month_card_inv svc s" "account \<noteq> []" "is_month m"
  shows "month_card_inv svc (month_effects account s (select_month m (s\<lparr>mc_year := y\<rparr>)))"
  using assms latest_select [of svc s account m y] by (simp add: month_card_inv_def)

lemma month_inv_pick:
  "month_card_inv svc s \<Longrightarrow> account \<noteq> [] \<Longrightarrow> is_month m \<Longrightarrow> month_card_inv svc (month_effects account s (select_month m s))"
  using month_inv_select [of svc s account m "mc_year s"] by simp

lemma click_is_month: "month_from_bar_click payload i = Some m \<Longrightarrow> is_month m"
  by (auto simp: month_from_bar_click_def is_month_def split: option.splits if_splits)

lemma month_inv_step:
  assumes "month_card_inv svc s" "account \<noteq> []"
  shows "month_card_inv svc (month_step_of account svc s a)"
proof (cases a)
  case (MvYear y)
  then show ?thesis
    using month_inv_select [OF assms, of 1 y] by (simp add: month_step_of_def month_step_def month_change_def is_month_def)
next
  case (MvAnswer n answer)
  have "mc_month (deliver_bonus svc n s) = mc_month s" "mc_hover (deliver_bonus svc n s) = mc_hover s"
    by (auto simp: bonus_defs split: option.split)
  then show ?thesis
    using MvAnswer assms(1) details.latest_deliver [of svc s n] by (simp add: month_step_of_def month_card_inv_def)
next
  case (MvBar payload i)
  show ?thesis
  proof (cases "month_from_bar_click payload i")
    case None
    then show ?thesis using assms MvBar by (simp add: month_step_of_def month_step_def month_change_def month_effects_def)
  next
    case (Some k)
    then show ?thesis
      using month_inv_pick [OF assms click_is_month [OF Some]] MvBar by (simp add: month_step_of_def month_step_def month_change_def)
  qed
next
  case (MvCommit k)
  then show ?thesis
    using assms month_inv_pick [OF assms, of "int (the k) + 1"]
    by (cases "k = None \<or> \<not> the k < 12")
      (auto simp: month_step_of_def month_step_def month_change_def month_effects_def is_month_def split: option.split)
qed (use assms in \<open>auto simp: month_step_of_def month_step_def month_change_def month_effects_def
    month_card_inv_def is_month_def split: option.splits\<close>)

lemma month_inv_mounted: "is_month m \<Longrightarrow> account \<noteq> [] \<Longrightarrow> month_card_inv svc (month_card_mounted account years y m)"
  using details.latest_ask [of "\<lparr>mc_year = (if years = [] \<or> List.last years = 0 then y else List.last years), mc_month = m,
      mc_hover = None, mc_metric = MmChange, mc_loading = False, mc_bonus = JNull, mc_effect = 0, mc_asked = []\<rparr>" svc]
  by (simp add: month_card_inv_def month_card_mounted_def ask_bonus_def) (simp add: ask_details_def)

text \<open>
  C36. In whatever order the answers come, the card that is not loading shows the details of the month that is selected,
  and it is not loading once every answer is there; and the month in focus is one of the twelve.
\<close>

theorem card_shows_selected_month:
  fixes account svc years y m acts
  defines "s \<equiv> run (month_step_of account svc) (month_card_mounted account years y m) acts"
  assumes "1 \<le> m" "m \<le> 12" "account \<noteq> []"
  shows "(if mc_loading s then mc_asked s \<noteq> [] else mc_bonus s = bonus_of (svc (mc_year s) (mc_month s))) \<and>
    is_row_of (mc_year s) (display_month s) (focused_month rows s)"
proof -
  have inv: "month_card_inv svc s"
    unfolding s_def
  proof (induction acts rule: rev_induct)
    case Nil
    show ?case using assms(2-4) by (simp add: month_inv_mounted is_month_def)
  next
    case (snoc a acts)
    then show ?case using assms(4) by (simp add: month_inv_step)
  qed
  then have "1 \<le> display_month s" "display_month s \<le> 12"
    by (auto simp: month_card_inv_def display_month_def is_month_def split: option.splits)
  then show ?thesis
    using inv details.latest_shown [of svc s] focused_is_displayed [of s rows] by (auto simp: month_card_inv_def)
qed

text \<open>
  The bar of a symbol without losses, whose ratio the service caps near a thousand, is shorter than the bar of a
  ratio of 150.
\<close>

definition risk_bar_visual :: "jsnum \<Rightarrow> rat" where
  "risk_bar_visual raw = (case raw of Fin q \<Rightarrow> if q \<ge> 99998 / 100 then 100 else min q 200 | _ \<Rightarrow> 0)"

definition risk_chart_data :: "(string \<Rightarrow> nat) \<Rightarrow> jv \<Rightarrow> (jv \<times> rat \<times> jv) list" where
  "risk_chart_data place bonus =
     List.map (\<lambda>r. (jget ''symbol'' r, risk_bar_visual (js_number (jget ''riskRatio'' r)), jget ''riskRatio'' r))
       (sort_key (\<lambda>r. place (js_string (jget ''symbol'' r))) (jv_list (jget ''symbolRisks'' bonus)))"

definition popular_symbols :: "(string \<Rightarrow> string) \<Rightarrow> jv \<Rightarrow> (string \<times> jv \<times> jv) list" where
  "popular_symbols t bonus =
     List.map (\<lambda>r. (if jget ''symbol'' r = JStr ''Other'' then t ''accounts.analytics.monthlyAnalysis.bonus.sliceOther''
                  else js_string (jget ''symbol'' r), jget ''sharePercent'' r, jget ''trades'' r))
       (jv_list (jget ''symbolPopularity'' bonus))"

theorem capped_risk_shorter: "risk_bar_visual (Fin 999.99) < risk_bar_visual (Fin 150)"
  by (simp add: risk_bar_visual_def)

theorem risk_bar_range: "risk_bar_visual raw \<le> 200"
  by (cases raw) (auto simp: risk_bar_visual_def)

definition demo_months :: "month_event list" where
  "demo_months = [MvYear 2024, MvCommit (Some 4), MvAnswer 2 (Inl JNull), MvHover (Some 7), MvAnswer 3 (Inl JNull), MvAnswer 1 (Inl JNull)]"

definition demo_details :: "int \<Rightarrow> int \<Rightarrow> jv outcome" where
  "demo_details y m = Inr (JObj [(''totalTrades'', JNum (Fin (of_int (y * 100 + m))))])"

lemma card_shows_selected_month_witness:
  "mc_bonus (run (month_step_of ''a'' demo_details) (month_card_mounted ''a'' [2024, 2025] 2026 6) demo_months) =
   monthly_bonus (JObj [(''totalTrades'', JNum (Fin 202405))])"
proof -
  let ?s = "run (month_step_of ''a'' demo_details) (month_card_mounted ''a'' [2024, 2025] 2026 6) demo_months"
  have "\<not> mc_loading ?s" "mc_year ?s = 2024" "mc_month ?s = 5" by code_simp+
  then show ?thesis
    using card_shows_selected_month [of 6 "''a''" demo_details "[2024, 2025]" 2026 demo_months]
    by (simp add: bonus_of_def demo_details_def)
qed

lemma stop_limit_shown_as_sell_witness:
  "position_side id (position_row (\<lambda>_. []) (JObj [(''type'', JStr ''buy_stop_limit'')])) = ''trading.strategyExecute.confirm.sell''"
  using stop_limit_shown_as_sell [of "JObj [(''type'', JStr ''buy_stop_limit'')]" "[JObj [(''type'', JStr ''buy_stop_limit'')]]"
      "\<lambda>_. []" id] by (simp add: jget_def)

end
