(* ===== verification/CodePanels.thy ===== *)
theory CodePanels
  imports TemplateEdit LatestAnswer
begin

text \<open>
  The panels around the code of a strategy (\<open>components/strategy/CodeAssist.tsx\<close>): the form of its parameters, the
  explanation of the code and the conversation that revises it; and the trades of a finished backtest
  (\<open>components/strategy/BacktestRunDrawer.tsx\<close> with \<open>client/backtestRuns.ts\<close>).
\<close>

subsection \<open>The form of the parameters\<close>

definition description_rules :: "(string list \<times> string) list" where
  "description_rules =
     [([''risk_level'', ''risklevel''], ''riskLevel''), ([''take_profit'', ''tp_pct'', ''tp_ratio''], ''takeProfit''),
      ([''stop_loss'', ''sl_pct'', ''sl_ratio''], ''stopLoss''), ([''max_loss''], ''maxLoss''), ([''confidence''], ''confidence''),
      ([''threshold''], ''threshold''), ([''lot'', ''volume'', ''size''], ''lotSize''), ([''fast''], ''fastPeriod''),
      ([''slow''], ''slowPeriod''), ([''signal''], ''signalPeriod''), ([''rsi''], ''rsiPeriod''), ([''ema''], ''emaPeriod''),
      ([''sma'', ''ma_''], ''smaPeriod''), ([''period'', ''length'', ''window''], ''genericPeriod''),
      ([''pct'', ''percent'', ''ratio''], ''genericPercent'')]"

definition describe_param :: "(string \<Rightarrow> string) \<Rightarrow> string \<Rightarrow> string" where
  "describe_param t key =
     (case List.find (\<lambda>r. list_ex (js_includes (js_lower key)) (fst r)) description_rules of
        Some r \<Rightarrow> t (''strategy.codeAssist.paramDescriptions.'' @ snd r) | None \<Rightarrow> [])"

definition placeholder_for :: "param_spec \<Rightarrow> string" where
  "placeholder_for p =
     (if \<not> nullish (ps_suggested p) then js_string (ps_suggested p)
      else if \<not> nullish (ps_default p) then js_string (ps_default p) else [])"

definition switch_shown :: "param_spec \<Rightarrow> jv \<Rightarrow> bool" where
  "switch_shown p v = truthy (js_coalesce (js_coalesce v (ps_suggested p)) (ps_default p))"

definition set_param :: "string \<Rightarrow> jv \<Rightarrow> (string \<times> jv) list \<Rightarrow> (string \<times> jv) list" where
  "set_param k v vals = AList.update k v vals"

definition required_params :: "param_spec list \<Rightarrow> param_spec list" where
  "required_params specs = filter ps_required specs"

definition has_any_suggestion :: "param_spec list \<Rightarrow> bool" where
  "has_any_suggestion specs \<longleftrightarrow> list_ex (\<lambda>p. \<not> nullish (ps_suggested p)) (required_params specs)"

definition value_empty :: "(string \<times> jv) list \<Rightarrow> string \<Rightarrow> bool" where
  "value_empty vals k \<longleftrightarrow> (case map_of vals k of None \<Rightarrow> True | Some v \<Rightarrow> nullish v \<or> v = JStr [])"

definition suggest :: "param_spec \<Rightarrow> (string \<times> jv) list \<Rightarrow> (string \<times> jv) list" where
  "suggest p vals =
     (if \<not> nullish (ps_suggested p) \<and> value_empty vals (ps_key p) then set_param (ps_key p) (ps_suggested p) vals else vals)"

definition apply_all_suggestions :: "param_spec list \<Rightarrow> (string \<times> jv) list \<Rightarrow> (string \<times> jv) list" where
  "apply_all_suggestions specs vals = fold suggest (required_params specs) vals"

lemma suggest_keeps: "\<not> value_empty vals k \<Longrightarrow> map_of (suggest p vals) k = map_of vals k"
  by (auto simp: suggest_def set_param_def update_conv' split: if_splits)

lemma suggest_other: "ps_key p \<noteq> k \<Longrightarrow> map_of (suggest p vals) k = map_of vals k"
  by (simp add: suggest_def set_param_def update_conv')

lemma empty_cong: "map_of u k = map_of v k \<Longrightarrow> value_empty u k = value_empty v k"
  by (simp add: value_empty_def)

lemma fold_keeps: "\<not> value_empty vals k \<Longrightarrow> map_of (fold suggest ps vals) k = map_of vals k"
proof (induction ps arbitrary: vals)
  case (Cons p ps)
  have "map_of (suggest p vals) k = map_of vals k" using Cons.prems by (rule suggest_keeps)
  moreover from this have "\<not> value_empty (suggest p vals) k" using Cons.prems empty_cong by metis
  ultimately show ?case using Cons.IH by simp
qed simp

lemma fold_other: "k \<notin> ps_key ` set ps \<Longrightarrow> map_of (fold suggest ps vals) k = map_of vals k"
proof (induction ps arbitrary: vals)
  case (Cons p ps)
  then show ?case using suggest_other [of p k vals] by auto
qed simp

definition real_suggestion :: "param_spec \<Rightarrow> bool" where
  "real_suggestion p \<longleftrightarrow> \<not> nullish (ps_suggested p) \<and> ps_suggested p \<noteq> JStr []"

lemma suggest_fills: "real_suggestion p \<Longrightarrow> \<not> value_empty (suggest p vals) (ps_key p)"
  by (auto simp: suggest_def set_param_def value_empty_def update_conv' real_suggestion_def)

lemma fold_fills: "p \<in> set ps \<Longrightarrow> real_suggestion p \<Longrightarrow> \<not> value_empty (fold suggest ps vals) (ps_key p)"
proof (induction ps arbitrary: vals)
  case (Cons q ps)
  show ?case
  proof (cases "p = q")
    case True
    have "\<not> value_empty (suggest q vals) (ps_key q)" using Cons.prems(2) True suggest_fills by blast
    then show ?thesis using True fold_keeps [of "suggest q vals" "ps_key q" ps] by (simp add: value_empty_def)
  next
    case False
    then show ?thesis using Cons by simp
  qed
qed simp

text \<open>
  Applying the suggestions keeps what is filled in, fills what is required and has a suggestion, and changes
  no other parameter; what the checks before a run miss afterwards has no suggestion.
\<close>

theorem suggestions_applied:
  "(\<forall>k. \<not> value_empty vals k \<longrightarrow> map_of (apply_all_suggestions specs vals) k = map_of vals k) \<and>
   (\<forall>k. k \<notin> ps_key ` {p \<in> set specs. ps_required p} \<longrightarrow> map_of (apply_all_suggestions specs vals) k = map_of vals k) \<and>
   (\<forall>p \<in> set specs. ps_key p \<in> set (missing_params specs (apply_all_suggestions specs vals)) \<and> ps_required p \<longrightarrow>
     \<not> real_suggestion p)"
proof (intro conjI ballI allI impI)
  show "map_of (apply_all_suggestions specs vals) k = map_of vals k" if "\<not> value_empty vals k" for k
    using that by (simp add: apply_all_suggestions_def fold_keeps)
  show "map_of (apply_all_suggestions specs vals) k = map_of vals k" if "k \<notin> ps_key ` {p \<in> set specs. ps_required p}" for k
    using that by (simp add: apply_all_suggestions_def fold_other required_params_def)
  show "\<not> real_suggestion p"
    if p: "p \<in> set specs" "ps_key p \<in> set (missing_params specs (apply_all_suggestions specs vals)) \<and> ps_required p" for p
  proof
    assume "real_suggestion p"
    moreover have "p \<in> set (required_params specs)" using p by (simp add: required_params_def)
    ultimately have "\<not> value_empty (apply_all_suggestions specs vals) (ps_key p)"
      unfolding apply_all_suggestions_def by (rule fold_fills [rotated])
    with p(2) show False by (auto simp: missing_params_def value_empty_def)
  qed
qed

lemma apply_suggestions_idem:
  assumes "\<forall>p \<in> set specs. real_suggestion p \<or> nullish (ps_suggested p)"
  shows "map_of (apply_all_suggestions specs (apply_all_suggestions specs vals)) = map_of (apply_all_suggestions specs vals)"
proof -
  let ?v = "apply_all_suggestions specs vals"
  have "fold suggest ps ?v = ?v" if "set ps \<subseteq> set (required_params specs)" for ps
    using that
  proof (induction ps)
    case (Cons p ps)
    have "suggest p ?v = ?v"
    proof (cases "nullish (ps_suggested p)")
      case False
      then have "\<not> value_empty ?v (ps_key p)"
        using Cons.prems assms fold_fills [of p "required_params specs" vals]
        by (auto simp: apply_all_suggestions_def required_params_def)
      then show ?thesis by (simp add: suggest_def)
    qed (simp add: suggest_def)
    with Cons show ?case by simp
  qed simp
  then show ?thesis unfolding apply_all_suggestions_def [of specs ?v] by simp
qed

subsection \<open>The explanation of the code\<close>

text \<open>A request keeps the code that it is for; the panel does not.\<close>

record explain_panel =
  ex_code :: string
  ex_loading :: bool
  ex_text :: string
  ex_error :: string
  ex_tasks :: "(nat \<times> string) list"
  ex_next :: nat

definition thrown_text :: "jv \<Rightarrow> string" where
  "thrown_text e = js_string (js_or (js_or (jget ''message'' e) e) (JStr ''failed''))"

definition explain :: "explain_panel \<Rightarrow> explain_panel" where
  "explain s =
     (if js_trim (ex_code s) = [] then s
      else s\<lparr>ex_loading := True, ex_error := [], ex_tasks := ex_tasks s @ [(ex_next s, ex_code s)], ex_next := Suc (ex_next s)\<rparr>)"

definition code_shown :: "bool \<Rightarrow> string \<Rightarrow> explain_panel \<Rightarrow> explain_panel" where
  "code_shown auto code s =
     (let s = s\<lparr>ex_code := code, ex_text := [], ex_error := []\<rparr> in if auto then explain s else s)"

definition explain_mounted :: "bool \<Rightarrow> string \<Rightarrow> explain_panel" where
  "explain_mounted auto code = code_shown auto code
     \<lparr>ex_code = code, ex_loading = False, ex_text = [], ex_error = [], ex_tasks = [], ex_next = 0\<rparr>"

datatype explain_event = ExCode string | ExAsk | ExAnswer nat "string outcome"

text \<open>The button takes no click while it shows that it is loading.\<close>

definition explain_step :: "bool \<Rightarrow> explain_panel \<Rightarrow> explain_event \<Rightarrow> explain_panel" where
  "explain_step auto s a =
     (case a of
        ExCode code \<Rightarrow> if code = ex_code s then s else code_shown auto code s
      | ExAsk \<Rightarrow> if ex_loading s then s else explain s
      | ExAnswer n answer \<Rightarrow>
          (case map_of (ex_tasks s) n of
             None \<Rightarrow> s
           | Some _ \<Rightarrow>
               (let s = s\<lparr>ex_tasks := AList.delete n (ex_tasks s), ex_loading := False\<rparr>
                in case answer of Inr out \<Rightarrow> s\<lparr>ex_text := out\<rparr> | Inl e \<Rightarrow> s\<lparr>ex_error := thrown_text e\<rparr>)))"

definition explain_inv :: "explain_panel \<Rightarrow> bool" where
  "explain_inv s \<longleftrightarrow> fresh_table (ex_next s) (ex_tasks s) \<and> (ex_loading s \<longrightarrow> ex_tasks s \<noteq> []) \<and> length (ex_tasks s) \<le> 1 \<and>
     (ex_tasks s \<noteq> [] \<longrightarrow> ex_loading s)"

lemma explain_inv_step: "explain_inv s \<Longrightarrow> explain_inv (explain_step False s a)"
proof (cases a)
  case (ExAnswer n answer)
  assume inv: "explain_inv s"
  show ?thesis
  proof (cases "map_of (ex_tasks s) n")
    case None
    then show ?thesis using inv ExAnswer by (simp add: explain_step_def)
  next
    case (Some c)
    then obtain m d where one: "ex_tasks s = [(m, d)]"
      using inv by (cases "ex_tasks s" rule: remdups_adj.cases) (auto simp: explain_inv_def)
    with Some have "m = n" by (simp split: if_splits)
    then show ?thesis
      using inv ExAnswer Some one by (auto simp: explain_step_def explain_inv_def Let_def split: sum.split)
  qed
qed (auto simp: explain_step_def explain_inv_def code_shown_def explain_def Let_def)

interpretation explain_once: machine "explain_mounted False code" "explain_step False" explain_inv
  by unfold_locales (simp_all add: explain_inv_step, simp add: explain_inv_def explain_mounted_def code_shown_def Let_def)

text \<open>The panel asks for one explanation at a time, and is loading exactly meanwhile.\<close>

theorem one_explanation_at_a_time:
  "let s = run (explain_step False) (explain_mounted False code) acts
   in length (ex_tasks s) \<le> 1 \<and> (ex_loading s \<longleftrightarrow> ex_tasks s \<noteq> [])"
  using explain_once.inv_run [of code acts] by (auto simp: explain_inv_def Let_def)

text \<open>An explanation that is answered after the code was changed is shown under the new code.\<close>

theorem stale_explanation:
  fixes s :: explain_panel and code out :: string
  assumes "explain_inv s" "\<not> ex_loading s" "js_trim (ex_code s) \<noteq> []" "code \<noteq> ex_code s"
  defines "u \<equiv> run (explain_step False) s [ExAsk, ExCode code, ExAnswer (ex_next s) (Inr out)]"
  shows "ex_code u = code \<and> ex_text u = out \<and> ex_tasks u = []"
proof -
  have none: "ex_tasks s = []" using assms(1,2) by (auto simp: explain_inv_def)
  show ?thesis using assms(2-4) none by (simp add: u_def explain_step_def explain_def code_shown_def Let_def)
qed

text \<open>
  Events of a user who changes the code only when no explanation is asked for, and of a service \<open>svc\<close> that
  explains a code or fails.
\<close>

definition calm :: "(string \<Rightarrow> string) \<Rightarrow> explain_panel \<Rightarrow> explain_event \<Rightarrow> bool" where
  "calm svc s a =
     (case a of
        ExCode _ \<Rightarrow> ex_tasks s = []
      | ExAsk \<Rightarrow> True
      | ExAnswer n answer \<Rightarrow>
          (case (map_of (ex_tasks s) n, answer) of (Some c, Inr out) \<Rightarrow> out = svc c | _ \<Rightarrow> True))"

fun all_calm :: "(string \<Rightarrow> string) \<Rightarrow> explain_panel \<Rightarrow> explain_event list \<Rightarrow> bool" where
  "all_calm svc s [] = True"
| "all_calm svc s (a # as) = (calm svc s a \<and> all_calm svc (explain_step False s a) as)"

definition explains :: "(string \<Rightarrow> string) \<Rightarrow> explain_panel \<Rightarrow> bool" where
  "explains svc s \<longleftrightarrow> (\<forall>p \<in> set (ex_tasks s). snd p = ex_code s) \<and> ex_text s \<in> {[], svc (ex_code s)}"

lemma explains_step: "explains svc s \<Longrightarrow> calm svc s a \<Longrightarrow> explains svc (explain_step False s a)"
proof (cases a)
  case (ExAnswer n answer)
  assume inv: "explains svc s" and calm: "calm svc s a"
  show ?thesis
  proof (cases "map_of (ex_tasks s) n")
    case (Some c)
    then have "c = ex_code s" using inv by (force simp: explains_def dest!: map_of_SomeD)
    with inv calm Some ExAnswer show ?thesis
      by (auto simp: explain_step_def calm_def explains_def Let_def set_delete split: sum.splits)
  qed (use inv ExAnswer in \<open>simp add: explain_step_def\<close>)
qed (auto simp: explain_step_def calm_def explains_def code_shown_def explain_def Let_def)

theorem explanation_of_code:
  fixes svc :: "string \<Rightarrow> string" and code :: string and acts
  defines "s \<equiv> run (explain_step False) (explain_mounted False code) acts"
  assumes "all_calm svc (explain_mounted False code) acts"
  shows "ex_text s \<in> {[], svc (ex_code s)}"
proof -
  have "explains svc u \<Longrightarrow> all_calm svc u acts \<Longrightarrow> explains svc (run (explain_step False) u acts)" for u
    by (induction acts arbitrary: u) (auto intro: explains_step)
  moreover have "explains svc (explain_mounted False code)"
    by (simp add: explains_def explain_mounted_def code_shown_def Let_def)
  ultimately show ?thesis using assms(2) by (simp add: s_def explains_def)
qed

subsection \<open>The conversation that revises the code\<close>

datatype code_role = CrUser | CrAssistant

type_synonym code_message = "code_role \<times> string"

record revise_request =
  rr_code :: string
  rr_instruction :: string
  rr_history :: "code_message list"
  rr_locale :: string

text \<open>The code is the one of the editor, which the user may change at any time.\<close>

record revise_chat =
  rv_code :: string
  rv_history :: "code_message list"
  rv_draft :: string
  rv_asked :: "revise_request option"

datatype revise_event =
    RvCode string
  | RvDraft string
  | RvSend
  | RvAnswer "(string \<times> string) outcome"

datatype revise_effect = ReCall revise_request | ReToast toast

definition revise_send :: "(string \<Rightarrow> string) \<Rightarrow> string \<Rightarrow> revise_chat \<Rightarrow> revise_chat \<times> revise_effect list" where
  "revise_send t lang s =
     (if rv_asked s \<noteq> None then (s, [])
      else if js_trim (rv_draft s) = [] then (s, [ReToast (ToastWarning (t ''strategy.codeAssist.enterInstruction''))])
      else if js_trim (rv_code s) = [] then (s, [ReToast (ToastWarning (t ''strategy.codeAssist.codeEmpty''))])
      else (let r = \<lparr>rr_code = rv_code s, rr_instruction = js_trim (rv_draft s), rr_history = rv_history s, rr_locale = lang\<rparr>
        in (s\<lparr>rv_asked := Some r\<rparr>, [ReCall r])))"

definition revise_answered ::
    "(string \<Rightarrow> string) \<Rightarrow> (string \<times> string) outcome \<Rightarrow> revise_chat \<Rightarrow> revise_chat \<times> revise_effect list" where
  "revise_answered t answer s =
     (case rv_asked s of
        None \<Rightarrow> (s, [])
      | Some r \<Rightarrow>
          (case answer of
             Inl e \<Rightarrow> (s\<lparr>rv_asked := None\<rparr>, [ReToast (ToastError (thrown_text e))])
           | Inr (out, python) \<Rightarrow>
               (let s = s\<lparr>rv_asked := None, rv_history := rr_history r @ [(CrUser, rr_instruction r), (CrAssistant, out)],
                    rv_draft := []\<rparr>
                in if python \<noteq> [] then (s\<lparr>rv_code := python\<rparr>, [ReToast (ToastSuccess (t ''strategy.codeAssist.codeUpdated''))])
                   else (s, [ReToast (ToastWarning (t ''strategy.codeAssist.noPython''))]))))"

definition revise_out :: "(string \<Rightarrow> string) \<Rightarrow> string \<Rightarrow> revise_chat \<Rightarrow> revise_event \<Rightarrow> revise_chat \<times> revise_effect list" where
  "revise_out t lang s a =
     (case a of
        RvCode code \<Rightarrow> (s\<lparr>rv_code := code\<rparr>, [])
      | RvDraft draft \<Rightarrow> (s\<lparr>rv_draft := draft\<rparr>, [])
      | RvSend \<Rightarrow> revise_send t lang s
      | RvAnswer answer \<Rightarrow> revise_answered t answer s)"

definition revise_step :: "(string \<Rightarrow> string) \<Rightarrow> string \<Rightarrow> revise_chat \<Rightarrow> revise_event \<Rightarrow> revise_chat" where
  "revise_step t lang s a = fst (revise_out t lang s a)"

definition revise_init :: "string \<Rightarrow> revise_chat" where
  "revise_init code = \<lparr>rv_code = code, rv_history = [], rv_draft = [], rv_asked = None\<rparr>"

text \<open>A conversation: instructions of the user, each with its answer.\<close>

fun alternates :: "code_message list \<Rightarrow> bool" where
  "alternates [] = True"
| "alternates [_] = False"
| "alternates ((a, x) # (b, _) # ms) = (a = CrUser \<and> b = CrAssistant \<and> x \<noteq> [] \<and> alternates ms)"

lemma alternates_append: "alternates ms \<Longrightarrow> x \<noteq> [] \<Longrightarrow> alternates (ms @ [(CrUser, x), (CrAssistant, y)])"
  by (induction ms rule: alternates.induct) auto

definition revise_inv :: "revise_chat \<Rightarrow> bool" where
  "revise_inv s \<longleftrightarrow> alternates (rv_history s) \<and>
     (case rv_asked s of Some r \<Rightarrow> rr_history r = rv_history s \<and> rr_instruction r \<noteq> [] \<and> js_trim (rr_code r) \<noteq> [] | None \<Rightarrow> True)"

lemma revise_inv_step: "revise_inv s \<Longrightarrow> revise_inv (revise_step t lang s a)"
  by (cases a) (auto simp: revise_inv_def revise_step_def revise_out_def revise_send_def revise_answered_def Let_def
      split: option.splits sum.splits intro: alternates_append)

interpretation revise: machine "revise_init code" "revise_step t lang" revise_inv
  by unfold_locales (simp add: revise_inv_def revise_init_def, rule revise_inv_step)

text \<open>
  Every request of the conversation carries the code of the editor, an instruction, and the whole conversation so
  far, in which questions and answers alternate; one request is open at a time.
\<close>

theorem revise_requests_complete:
  fixes t lang code acts
  defines "s \<equiv> run (revise_step t lang) (revise_init code) acts"
  assumes "ReCall r \<in> set (snd (revise_out t lang s a))"
  shows "rv_asked s = None \<and> rr_code r = rv_code s \<and> rr_history r = rv_history s \<and> alternates (rr_history r) \<and>
    rr_instruction r = js_trim (rv_draft s) \<and> rr_instruction r \<noteq> []"
proof -
  have "revise_inv s" unfolding s_def by (rule revise.inv_run)
  then show ?thesis
    using assms(2)
    by (cases a) (auto simp: revise_out_def revise_send_def revise_answered_def revise_inv_def Let_def
        split: if_splits option.splits sum.splits prod.splits)
qed

text \<open>What the user changes while a revision is asked for is lost with its answer.\<close>

theorem revision_overwrites_edits:
  fixes t lang s code draft out python
  assumes "rv_asked s \<noteq> None" "python \<noteq> []"
  defines "u \<equiv> run (revise_step t lang) s [RvCode code, RvDraft draft, RvAnswer (Inr (out, python))]"
  shows "rv_code u = python \<and> rv_draft u = []"
  using assms(1,2) by (auto simp: u_def revise_step_def revise_out_def revise_answered_def Let_def)

subsection \<open>The trades of a backtest\<close>

definition backtest_trade :: "jv \<Rightarrow> jv" where
  "backtest_trade w = JObj
     [(''ticket'', JNum (js_number (jget ''ticket'' w))), (''side'', jget ''side'' w), (''volume'', jget ''volume'' w),
      (''open_ts'', JNum (js_number (jget ''openTs'' w))), (''open_price'', jget ''openPrice'' w),
      (''close_ts'', JNum (js_number (jget ''closeTs'' w))), (''close_price'', jget ''closePrice'' w),
      (''pnl'', jget ''pnl'' w), (''commission'', jget ''commission'' w), (''reason'', jget ''reason'' w)]"

definition trade_summary :: "jv \<Rightarrow> jv" where
  "trade_summary data = JObj
     (List.map (\<lambda>k. (k, js_or (jget k (jget ''summary'' data)) (JNum (Fin 0)))) [''count'', ''wins'', ''losses'', ''netPnl''])"

definition get_trades :: "jv \<Rightarrow> jv list \<times> jv" where
  "get_trades data = (List.map backtest_trade (jv_list (js_or (jget ''trades'' data) (JArr []))), trade_summary data)"

text \<open>
  The drawer outlives its runs: it is opened and closed, and its run changes.  Whether the run is completed is what
  the watched run says.
\<close>

record run_drawer =
  dw_open :: bool
  dw_run :: string
  dw_completed :: bool
  dw_trades :: "jv list"
  dw_summary :: jv
  dw_loading :: bool
  dw_error :: "string option"
  dw_effect :: nat
  dw_asked :: "(nat \<times> string) list"

definition drawer_init :: run_drawer where
  "drawer_init = \<lparr>dw_open = False, dw_run = [], dw_completed = False, dw_trades = [], dw_summary = JNull,
     dw_loading = False, dw_error = None, dw_effect = 0, dw_asked = []\<rparr>"

definition trades_active :: "run_drawer \<Rightarrow> bool" where
  "trades_active s \<longleftrightarrow> dw_open s \<and> dw_run s \<noteq> [] \<and> dw_completed s"

definition ask_trades :: "run_drawer \<Rightarrow> run_drawer" where
  "ask_trades s = s\<lparr>dw_loading := True, dw_error := None, dw_effect := Suc (dw_effect s),
     dw_asked := dw_asked s @ [(Suc (dw_effect s), dw_run s)]\<rparr>"

text \<open>The effect of a change; the request of the effect before is cancelled, whose mark of loading stays.\<close>

definition drawer_effect :: "run_drawer \<Rightarrow> run_drawer" where
  "drawer_effect s = (if trades_active s then ask_trades s else s\<lparr>dw_effect := Suc (dw_effect s)\<rparr>)"

definition drawer_props :: "bool \<Rightarrow> string \<Rightarrow> bool \<Rightarrow> run_drawer \<Rightarrow> run_drawer" where
  "drawer_props opened r completed s =
     (if (opened, r, completed) = (dw_open s, dw_run s, dw_completed s) then s
      else drawer_effect (s\<lparr>dw_open := opened, dw_run := r, dw_completed := completed\<rparr>))"

definition caught_text :: "jv \<Rightarrow> string" where
  "caught_text e = js_string (js_or (jget ''message'' e) (JStr (js_string e)))"

definition trades_answered :: "nat \<Rightarrow> jv outcome \<Rightarrow> run_drawer \<Rightarrow> run_drawer" where
  "trades_answered n answer s =
     (case map_of (dw_asked s) n of
        None \<Rightarrow> s
      | Some _ \<Rightarrow>
          (let s = s\<lparr>dw_asked := AList.delete n (dw_asked s)\<rparr>
           in if n \<noteq> dw_effect s then s
              else case answer of
                Inr r \<Rightarrow> s\<lparr>dw_loading := False, dw_trades := fst (get_trades r), dw_summary := snd (get_trades r)\<rparr>
              | Inl e \<Rightarrow> s\<lparr>dw_loading := False, dw_error := Some (caught_text e)\<rparr>))"

datatype drawer_event = DrProps bool string bool | DrAnswer nat "jv outcome"

definition drawer_step :: "run_drawer \<Rightarrow> drawer_event \<Rightarrow> run_drawer" where
  "drawer_step s a =
     (case a of DrProps opened r completed \<Rightarrow> drawer_props opened r completed s | DrAnswer n answer \<Rightarrow> trades_answered n answer s)"

definition visible_trades :: "run_drawer \<Rightarrow> jv list" where
  "visible_trades s = (if trades_active s then dw_trades s else [])"

definition visible_summary :: "run_drawer \<Rightarrow> jv" where
  "visible_summary s = (if trades_active s then dw_summary s else JNull)"

definition visible_error :: "run_drawer \<Rightarrow> string option" where
  "visible_error s = (if trades_active s then dw_error s else None)"

text \<open>The service \<open>svc\<close> answers for a run.\<close>

definition deliver_trades :: "(string \<Rightarrow> jv outcome) \<Rightarrow> nat \<Rightarrow> run_drawer \<Rightarrow> run_drawer" where
  "deliver_trades svc n s = (case map_of (dw_asked s) n of Some r \<Rightarrow> trades_answered n (svc r) s | None \<Rightarrow> s)"

definition drawer_step_of :: "(string \<Rightarrow> jv outcome) \<Rightarrow> run_drawer \<Rightarrow> drawer_event \<Rightarrow> run_drawer" where
  "drawer_step_of svc s a = (case a of DrAnswer n _ \<Rightarrow> deliver_trades svc n s | _ \<Rightarrow> drawer_step s a)"

definition holds_trades :: "jv outcome \<Rightarrow> run_drawer \<Rightarrow> bool" where
  "holds_trades answer s \<longleftrightarrow>
     (case answer of
        Inr r \<Rightarrow> dw_trades s = fst (get_trades r) \<and> dw_summary s = snd (get_trades r)
      | Inl e \<Rightarrow> dw_error s = Some (caught_text e))"

lemmas trades_defs = deliver_trades_def trades_answered_def Let_def holds_trades_def

interpretation trades: latest_answer dw_asked dw_effect dw_run dw_loading "\<lambda>s r. holds_trades (svc r) s" ask_trades
    "deliver_trades svc" for svc
proof unfold_locales
  fix n s
  show "map_of (dw_asked s) n = None \<Longrightarrow> deliver_trades svc n s = s" by (simp add: deliver_trades_def)
  show "dw_asked (deliver_trades svc n s) = AList.delete n (dw_asked s)"
    by (auto simp: trades_defs delete_idem map_of_eq_None_iff split: option.split sum.split)
  show "n \<noteq> dw_effect s \<Longrightarrow> dw_loading (deliver_trades svc n s) = dw_loading s \<and>
      (\<lambda>r. holds_trades (svc r) (deliver_trades svc n s)) = (\<lambda>r. holds_trades (svc r) s)"
    by (auto simp: trades_defs fun_eq_iff split: option.split sum.split)
qed (auto simp: ask_trades_def trades_defs split: option.split sum.split)

definition drawer_inv :: "(string \<Rightarrow> jv outcome) \<Rightarrow> run_drawer \<Rightarrow> bool" where
  "drawer_inv svc s \<longleftrightarrow> fresh_table (Suc (dw_effect s)) (dw_asked s) \<and>
     (trades_active s \<longrightarrow> trades.latest svc s \<and> (dw_error s \<noteq> None \<longrightarrow> \<not> dw_loading s \<and> isl (svc (dw_run s))))"

lemma delivered_fields:
  "dw_open (deliver_trades svc n s) = dw_open s" "dw_run (deliver_trades svc n s) = dw_run s"
  "dw_completed (deliver_trades svc n s) = dw_completed s"
  by (auto simp: trades_defs split: option.split sum.split)

lemma delivered_error:
  assumes "drawer_inv svc s" "trades_active s" "dw_error (deliver_trades svc n s) \<noteq> None"
  shows "\<not> dw_loading (deliver_trades svc n s) \<and> isl (svc (dw_run s))"
proof -
  have latest: "trades.latest svc s" using assms(1,2) by (simp add: drawer_inv_def)
  show ?thesis
    using assms trades.latest_wanted [OF latest]
    by (cases "map_of (dw_asked s) n"; cases "n = dw_effect s")
      (auto simp: drawer_inv_def deliver_trades_def trades_answered_def Let_def split: sum.splits)
qed

lemma drawer_inv_step: "drawer_inv svc s \<Longrightarrow> drawer_inv svc (drawer_step_of svc s a)"
proof (cases a)
  case (DrProps opened r completed)
  assume inv: "drawer_inv svc s"
  let ?u = "s\<lparr>dw_open := opened, dw_run := r, dw_completed := completed\<rparr>"
  have fresh: "fresh_table (Suc (dw_effect s)) (dw_asked s)" using inv by (simp add: drawer_inv_def)
  then have later: "fresh_table (Suc (Suc (dw_effect s))) (dw_asked s)" by (auto simp: fresh_table_def)
  have "drawer_inv svc (drawer_effect ?u)"
  proof (cases "trades_active ?u")
    case True
    moreover have "trades.latest svc (ask_trades ?u)" using fresh by (intro trades.latest_ask) simp
    moreover have "fresh_table (Suc (dw_effect (ask_trades ?u))) (dw_asked (ask_trades ?u))"
      using fresh by (simp add: ask_trades_def)
    ultimately show ?thesis by (simp add: drawer_effect_def drawer_inv_def) (simp add: ask_trades_def)
  next
    case False
    then have "drawer_effect ?u = ?u\<lparr>dw_effect := Suc (dw_effect s)\<rparr>" "\<not> trades_active (?u\<lparr>dw_effect := Suc (dw_effect s)\<rparr>)"
      by (simp_all add: drawer_effect_def) (simp add: trades_active_def)
    with later show ?thesis by (simp add: drawer_inv_def)
  qed
  then show ?thesis using inv DrProps by (simp add: drawer_step_of_def drawer_step_def drawer_props_def)
next
  case (DrAnswer n answer)
  assume inv: "drawer_inv svc s"
  have "fresh_table (Suc (dw_effect (deliver_trades svc n s))) (dw_asked (deliver_trades svc n s))"
    using inv by (simp add: drawer_inv_def trades.asked_deliver trades.effect_deliver)
  moreover have "trades_active (deliver_trades svc n s) = trades_active s" by (simp add: trades_active_def delivered_fields)
  ultimately show ?thesis
    using inv DrAnswer trades.latest_deliver [of svc s n] delivered_error [OF inv, of n]
    by (auto simp: drawer_step_of_def drawer_inv_def delivered_fields)
qed

interpretation drawer: machine drawer_init "drawer_step_of svc" "drawer_inv svc" for svc
  by unfold_locales (simp add: drawer_inv_def drawer_init_def trades_active_def, rule drawer_inv_step)

text \<open>
  C35. Whatever runs were shown before and in whatever order the answers come, the open drawer of a completed run that is
  not loading shows the trades of that run and no error, or the error of its request.
\<close>

theorem drawer_shows_run:
  fixes svc acts
  defines "s \<equiv> run (drawer_step_of svc) drawer_init acts"
  assumes "trades_active s" "\<not> dw_loading s"
  shows "case svc (dw_run s) of
     Inr r \<Rightarrow> visible_trades s = fst (get_trades r) \<and> visible_summary s = snd (get_trades r) \<and> visible_error s = None
   | Inl e \<Rightarrow> visible_error s = Some (caught_text e)"
proof -
  have "drawer_inv svc s" unfolding s_def by (rule drawer.inv_run)
  then show ?thesis
    using assms(2,3) trades.latest_shown [of svc s]
    by (auto simp: drawer_inv_def holds_trades_def visible_trades_def visible_summary_def visible_error_def split: sum.splits)
qed

text \<open>The trades of the run before are shown under the next one until it is answered.\<close>

theorem trades_of_run_before:
  fixes s r
  assumes "trades_active s" "r \<noteq> dw_run s" "r \<noteq> []"
  defines "u \<equiv> run drawer_step s [DrProps False (dw_run s) (dw_completed s), DrProps True r True]"
  shows "dw_run u = r \<and> visible_trades u = dw_trades s \<and> visible_summary u = dw_summary s \<and> dw_loading u"
  using assms(1-3)
  by (simp add: u_def drawer_step_def drawer_props_def drawer_effect_def trades_active_def ask_trades_def visible_trades_def
      visible_summary_def)

subsection \<open>Examples\<close>

definition demo_trades_of :: "string \<Rightarrow> jv outcome" where
  "demo_trades_of r =
     (if r = ''b'' then Inr (JObj [(''trades'', JArr [JObj [(''ticket'', JBig 7), (''side'', JStr ''buy'')]])]) else Inl (JStr ''gone''))"

definition demo_drawer :: "drawer_event list" where
  "demo_drawer = [DrProps True ''a'' True, DrProps False ''a'' True, DrProps True ''b'' False, DrProps True ''b'' True,
     DrAnswer 1 (Inl JNull), DrAnswer 4 (Inl JNull)]"

lemma drawer_shows_run_witness:
  "visible_error (run (drawer_step_of demo_trades_of) drawer_init demo_drawer) = None \<and>
   List.map (jget ''ticket'') (visible_trades (run (drawer_step_of demo_trades_of) drawer_init demo_drawer)) = [JNum (Fin 7)]"
proof -
  let ?s = "run (drawer_step_of demo_trades_of) drawer_init demo_drawer"
  have "trades_active ?s" "\<not> dw_loading ?s" "dw_run ?s = ''b''" by code_simp+
  moreover have "List.map (jget ''ticket'') (fst (get_trades (JObj [(''trades'', JArr [JObj [(''ticket'', JBig 7), (''side'', JStr ''buy'')]])]))) =
      [JNum (Fin 7)]" by code_simp
  ultimately show ?thesis using drawer_shows_run [of demo_trades_of demo_drawer] by (simp add: demo_trades_of_def)
qed

lemma trades_of_run_before_witness:
  "dw_run (run drawer_step (run (drawer_step_of demo_trades_of) drawer_init demo_drawer)
     [DrProps False ''b'' True, DrProps True ''c'' True]) = ''c'' \<and>
   length (visible_trades (run drawer_step (run (drawer_step_of demo_trades_of) drawer_init demo_drawer)
     [DrProps False ''b'' True, DrProps True ''c'' True])) = 1"
proof -
  let ?s = "run (drawer_step_of demo_trades_of) drawer_init demo_drawer"
  have "trades_active ?s" "dw_run ?s = ''b''" "dw_completed ?s" "length (dw_trades ?s) = 1" by code_simp+
  then show ?thesis using trades_of_run_before [of ?s "''c''"] by simp
qed

definition demo_spec_of :: "string \<Rightarrow> jv \<Rightarrow> param_spec" where
  "demo_spec_of k v = \<lparr>ps_key = k, ps_required = True, ps_type = Some ''int'', ps_default = JUndef, ps_suggested = v\<rparr>"

lemma demo_suggestions:
  "apply_all_suggestions [demo_spec_of ''fast'' (JNum (Fin 5)), demo_spec_of ''slow'' (JNum (Fin 20))] [(''slow'', JNum (Fin 30))] =
   [(''slow'', JNum (Fin 30)), (''fast'', JNum (Fin 5))]"
  by code_simp

lemma stale_explanation_witness:
  "ex_text (run (explain_step False) (explain_mounted False ''x = 1'') [ExAsk, ExCode ''x = 2'', ExAnswer 0 (Inr ''sets x to 1'')]) = ''sets x to 1''"
proof -
  have "explain_inv (explain_mounted False ''x = 1'')" using explain_once.inv_run [of _ "[]"] by simp
  moreover have "\<not> ex_loading (explain_mounted False ''x = 1'')" "js_trim (ex_code (explain_mounted False ''x = 1'')) \<noteq> []"
    "''x = 2'' \<noteq> ex_code (explain_mounted False ''x = 1'')" "ex_next (explain_mounted False ''x = 1'') = 0" by code_simp+
  ultimately show ?thesis using stale_explanation [of "explain_mounted False ''x = 1''" "''x = 2''" "''sets x to 1''"] by simp
qed

end
