(* ===== verification/DebatePage.thy ===== *)
theory DebatePage
  imports DebateFlow CodeValidator StrategyClient
begin

text \<open>
  The steps of the debate page (\<open>pages/ai/debate/DebatePageV2.tsx\<close>, \<open>DebatePageV2Steps.tsx\<close>) over the hook of
  \<open>DebateFlow\<close>: the choice of the experts, the chat with the phrases that ask for the next step, and the code with
  its check, its rejection and its saving as a template.
\<close>

subsection \<open>Texts\<close>

definition agent_name_hint :: "flow_env \<Rightarrow> agent_view \<Rightarrow> string \<times> string" where
  "agent_name_hint env a =
     (if agv_type a \<in> set builtin_types
      then (fe_t env (''ai.settings.agent.types.'' @ agv_type a), fe_t env (''ai.settings.agent.defaults.'' @ agv_type a @ ''.inputHint''))
      else (if agv_name a = [] then agv_type a else agv_name a, if agv_input_hint a = [] then agv_identity a else agv_input_hint a))"

definition format_elapsed :: "int \<Rightarrow> string" where
  "format_elapsed seconds =
     (let s = int_str (seconds mod 60) in int_str (seconds div 60) @ '':'' @ replicate (2 - length s) (CHR ''0'') @ s)"

text \<open>The length of a text in the units of the language, of the bytes of its encoding.\<close>

definition utf16_units :: "char \<Rightarrow> nat" where
  "utf16_units c = (let n = (of_char c :: nat) in if 128 \<le> n \<and> n < 192 then 0 else if n \<ge> 240 then 2 else 1)"

definition utf16_length :: "string \<Rightarrow> nat" where
  "utf16_length s = sum_list (List.map utf16_units s)"

definition punctuation :: "string list" where
  "punctuation =
     [hx ''E38082'', ''.'', '','', hx ''EFBC8C'', hx ''EFBC81'', ''!'', ''?'', hx ''EFBC9F'', ''~'', hx ''EFBD9E'',
      hx ''E38081'', '':'', hx ''EFBC9A'', '';'', hx ''EFBC9B'', [CHR 0x22], [CHR 0x27], [CHR 0x60]]"

function strip_marks :: "string \<Rightarrow> string" where
  "strip_marks [] = []"
| "strip_marks (c # s) =
     (if js_ws c then strip_marks s
      else case List.find (\<lambda>p. p \<noteq> [] \<and> prefix p (c # s)) punctuation of
          Some p \<Rightarrow> strip_marks (drop (length p) (c # s))
        | None \<Rightarrow> c # strip_marks s)"
  by pat_completeness auto

termination strip_marks
  by (relation "measure length") (auto simp: find_Some_iff)

definition next_words :: "string list" where
  "next_words =
     [hx ''E4B88BE4B880E6ADA5'', hx ''E4B88BE4B880E4B8AA'', hx ''E4B88BE4B880E78EAFE88A82'',
      hx ''E4B88BE4B880E998B6E6AEB5'', hx ''E4B88BE4B880E4BD8D'', hx ''E4B88BE4B880E8BDAE'',
      hx ''E4B88BE4B880E4B8AA'' @ ''agent'', hx ''E4B88BE4B880E4B8AAE699BAE883BDE4BD93'',
      hx ''E4B88BE4B880E4BD8D'' @ ''agent'', hx ''E4B88BE4B880E4BD8DE699BAE883BDE4BD93'',
      hx ''E4B88BE4B880E4BD8DE4B893E5AEB6'', hx ''E4B88BE4B880E4B8AAE4B893E5AEB6'',
      hx ''E4B88BE4B880E4BD8DE883BDE6898B'', hx ''E68DA2E4B88BE4B880E4BD8D'', hx ''E7BBA7E7BBAD'',
      hx ''E8BF9BE585A5E4B88BE4B880E6ADA5'', hx ''E8BF9BE585A5E4B88BE4B880E4B8AA'',
      hx ''E8BF9BE585A5E4B88BE4B880E78EAFE88A82'', hx ''E8BF9BE585A5E4B88BE4B880E998B6E6AEB5'',
      hx ''E58FAFE4BBA5E4BA86'', hx ''E58FAFE4BBA5E4BA86E4B88BE4B880E6ADA5'', hx ''E5A5BDE79A84E4B88BE4B880E6ADA5'',
      hx ''E5A5BDE4BA86E4B88BE4B880E6ADA5'', hx ''E6B2A1E997AEE9A298E4B88BE4B880E6ADA5'', ''ok'',
      ''ok'' @ hx ''E4B88BE4B880E6ADA5'', hx ''E5A5BDE4B88BE4B880E6ADA5'', ''next'', ''nextstep'', ''nextagent'',
      ''continue'', ''proceed'', ''goon'', ''goahead'', hx ''E7A1AEE5AE9AE4B88BE4B880E6ADA5'',
      hx ''E8A18CE4B88BE4B880E6ADA5'']"

definition looks_like_next_intent :: "string \<Rightarrow> bool" where
  "looks_like_next_intent raw =
     (let s = js_trim raw
      in s \<noteq> [] \<and> utf16_length s \<le> 16 \<and> strip_marks (js_lower s) \<in> set next_words)"

subsection \<open>State\<close>

datatype confirm_dialog = CfClosed | CfAsk string | CfBusy nat

datatype step_part = PartSelect | PartChat | PartCode

definition part_of_step :: "string \<Rightarrow> step_part" where
  "part_of_step k = (if k = ''agent_selection'' then PartSelect else if k = ''code'' then PartCode else PartChat)"

text \<open>
  The fields of a part are gone with it.  The dialogs that ask for a confirmation are not part of the page:
  the one before a regeneration keeps the feedback it is for and stays while the regeneration, a task of the
  hook, is under way; the one after a save has the address it leads to.
\<close>

record debate_page =
  dp_flow :: flow_state
  dp_defs :: "agent_view list"
  dp_input :: string
  dp_reject_open :: bool
  dp_reject_text :: string
  dp_save_open :: bool
  dp_saving :: bool
  dp_confirm :: confirm_dialog
  dp_goto :: "string option"
  dp_instance :: nat
  dp_saves :: "(nat \<times> nat) list"
  dp_next :: nat

definition debate_page_init :: debate_page where
  "debate_page_init =
     \<lparr>dp_flow = flow_init, dp_defs = [], dp_input = [], dp_reject_open = False, dp_reject_text = [], dp_save_open = False,
      dp_saving = False, dp_confirm = CfClosed, dp_goto = None, dp_instance = 0, dp_saves = [], dp_next = 0\<rparr>"

definition page_part :: "debate_page \<Rightarrow> step_part" where
  "page_part s = part_of_step (current_step (dp_flow s))"

datatype debate_page_effect =
    DpFlowEffect flow_effect
  | DpToast toast
  | DpCreate create_template_request
  | DpNavigate string

text \<open>What lies under a dialog takes no clicks.\<close>

definition covered :: "debate_page \<Rightarrow> bool" where
  "covered s \<longleftrightarrow> dp_reject_open s \<or> dp_save_open s \<or> dp_confirm s \<noteq> CfClosed \<or> dp_goto s \<noteq> None"

definition leave_part :: "debate_page \<Rightarrow> debate_page" where
  "leave_part s =
     s\<lparr>dp_input := [], dp_reject_open := False, dp_reject_text := [], dp_save_open := False, dp_saving := False,
       dp_instance := Suc (dp_instance s)\<rparr>"

definition settle_confirm :: "debate_page \<Rightarrow> debate_page" where
  "settle_confirm s =
     (case dp_confirm s of
        CfBusy n \<Rightarrow> if map_of (fl_tasks (dp_flow s)) n = None then s\<lparr>dp_confirm := CfClosed\<rparr> else s
      | _ \<Rightarrow> s)"

definition with_flow :: "flow_state \<times> flow_effect list \<Rightarrow> debate_page \<Rightarrow> debate_page \<times> debate_page_effect list" where
  "with_flow r s =
     (let u = settle_confirm (s\<lparr>dp_flow := fst r\<rparr>)
      in (if page_part u = page_part s then u else leave_part u, List.map DpFlowEffect (snd r)))"

subsection \<open>The experts\<close>

definition selectable_agents :: "agent_view list \<Rightarrow> agent_view list" where
  "selectable_agents defs = filter (\<lambda>a. agv_type a \<noteq> ''code'') defs"

definition toggle_agent :: "flow_env \<Rightarrow> agent_view \<Rightarrow> debate_page \<Rightarrow> debate_page \<times> debate_page_effect list" where
  "toggle_agent env a s =
     (let chosen = fl_selected (dp_flow s); key = agent_key_of a
      in if \<not> agv_enabled a then (s, [DpToast (ToastWarning (fe_t env ''ai.debate.messages.enableAgentFirst''))])
         else if key \<in> agent_key_of ` set chosen
         then with_flow (set_selected_agents (filter (\<lambda>x. agent_key_of x \<noteq> key) chosen) (dp_flow s), []) s
         else with_flow (set_selected_agents (chosen @ [a]) (dp_flow s), []) s)"

text \<open>The place of an expert in the order of speaking, \<open>0\<close> for one that is not chosen.\<close>

definition speaking_order :: "flow_state \<Rightarrow> agent_view \<Rightarrow> nat" where
  "speaking_order s a =
     (case find_index (\<lambda>x. agent_key_of x = agent_key_of a) (fl_selected s) of Some i \<Rightarrow> Suc i | None \<Rightarrow> 0)"

subsection \<open>The chat\<close>

text \<open>Enter sends whatever is in flight; the button does not while it shows that something is sent.\<close>

definition handle_chat_send ::
    "flow_env \<Rightarrow> int \<Rightarrow> string \<Rightarrow> string \<Rightarrow> debate_page \<Rightarrow> debate_page \<times> debate_page_effect list" where
  "handle_chat_send env now uid lid s =
     (let body = js_trim (dp_input s); u = s\<lparr>dp_input := []\<rparr>
      in if body = [] then (s, [DpToast (ToastWarning (fe_t env ''ai.debate.messages.inputFirst''))])
         else if looks_like_next_intent body
         then (case with_flow (flow_advance env now (dp_flow s)) u of
             (u, out) \<Rightarrow> (u, DpToast (ToastInfo (fe_t env ''ai.debate.v2.autoAdvanceHint'')) # out))
         else with_flow (flow_send_message env now uid lid body (dp_flow s)) u)"

definition bubble_shown :: "chat_turn \<Rightarrow> bool" where
  "bubble_shown m \<longleftrightarrow> \<not> ct_kickoff m"

definition chat_can_back :: "debate_page \<Rightarrow> bool" where
  "chat_can_back s \<longleftrightarrow> current_step (dp_flow s) \<noteq> ''intent''"

subsection \<open>The code\<close>

definition code_to_use :: "code_view \<Rightarrow> string" where
  "code_to_use c = (if cv_python c = [] then cv_text c else cv_python c)"

definition has_code :: "debate_page \<Rightarrow> bool" where
  "has_code s \<longleftrightarrow> code_to_use (code_state (dp_flow s)) \<noteq> [] \<and> \<not> cv_loading (code_state (dp_flow s))"

definition code_violations :: "debate_page \<Rightarrow> violation list" where
  "code_violations s = (if has_code s then validate_python_sandbox (code_to_use (code_state (dp_flow s))) else [])"

definition can_act :: "debate_page \<Rightarrow> bool" where
  "can_act s \<longleftrightarrow> has_code s \<and> \<not> fl_sending (dp_flow s)"

definition can_save :: "debate_page \<Rightarrow> bool" where
  "can_save s \<longleftrightarrow> can_act s \<and> code_violations s = []"

definition violation_label :: "(string \<Rightarrow> string) \<Rightarrow> violation \<Rightarrow> string" where
  "violation_label t v =
     (let translated = t (''ai.debate.v2.validation.codes.'' @ violation_name (vi_code v));
          base = (if translated = [] then vi_message v else translated)
      in case vi_hit v of Some h \<Rightarrow> if h = [] then base else base @ '' ('' @ h @ '')'' | None \<Rightarrow> base)"

definition handle_reject :: "flow_env \<Rightarrow> int \<Rightarrow> debate_page \<Rightarrow> debate_page \<times> debate_page_effect list" where
  "handle_reject env now s =
     (if fl_sending (dp_flow s) then (s, [])
      else if js_trim (dp_reject_text s) = []
      then (s, [DpToast (ToastWarning (fe_t env ''ai.debate.v2.rejectFeedbackRequired''))])
      else with_flow (flow_reject_code env now (js_trim (dp_reject_text s)) (dp_flow s))
        (s\<lparr>dp_reject_open := False, dp_reject_text := []\<rparr>))"

text \<open>The rule of the form asks for a name, which may be blank.\<close>

definition debate_save_request :: "string \<Rightarrow> string \<Rightarrow> debate_page \<Rightarrow> create_template_request" where
  "debate_save_request name description s =
     create_template (js_trim name) (js_trim description) (code_to_use (code_state (dp_flow s))) (Some []) (Some False) (Some [''ai-debate''])"

definition handle_code_save :: "string \<Rightarrow> string \<Rightarrow> debate_page \<Rightarrow> debate_page \<times> debate_page_effect list" where
  "handle_code_save name description s =
     (if \<not> dp_save_open s \<or> dp_saving s \<or> name = [] then (s, [])
      else (s\<lparr>dp_saving := True, dp_saves := dp_saves s @ [(dp_next s, dp_instance s)], dp_next := Suc (dp_next s)\<rparr>,
            [DpCreate (debate_save_request name description s)]))"

definition templates_path :: "(string \<Rightarrow> string) \<Rightarrow> string \<Rightarrow> string" where
  "templates_path enc i =
     ''/strategy/templates?group=user'' @ (if i = [] then [] else ''&templateId='' @ enc i)"

definition save_answered ::
    "flow_env \<Rightarrow> (string \<Rightarrow> string) \<Rightarrow> nat \<Rightarrow> string reply \<Rightarrow> debate_page \<Rightarrow> debate_page \<times> debate_page_effect list" where
  "save_answered env enc n answer s =
     (case map_of (dp_saves s) n of
        None \<Rightarrow> (s, [])
      | Some k \<Rightarrow>
          (let here = (k = dp_instance s);
               u = s\<lparr>dp_saves := AList.delete n (dp_saves s), dp_saving := dp_saving s \<and> \<not> here\<rparr>
           in case answer of
                Inr i \<Rightarrow> (u\<lparr>dp_save_open := dp_save_open u \<and> \<not> here, dp_goto := Some (templates_path enc i)\<rparr>,
                         [DpToast (ToastSuccess (fe_t env ''ai.debate.v2.saveSuccess''))])
              | Inl (ThrownError m) \<Rightarrow>
                  (u, [DpToast (ToastError (if m = [] then fe_t env ''ai.debate.v2.saveFailed'' else m))])
              | Inl (ThrownValue _) \<Rightarrow> (u, [DpToast (ToastError (fe_t env ''ai.debate.v2.saveFailed''))])))"

subsection \<open>Steps\<close>

text \<open>What the hook does by itself: answers, streams and the clock.\<close>

fun background :: "flow_action \<Rightarrow> bool" where
  "background (FlowTick _) = True"
| "background (FlowChunk _ _) = True"
| "background (FlowWaitDone _ _) = True"
| "background (FlowAnswer _ _) = True"
| "background _ = False"

datatype debate_event =
    DbAgents "agent_view list"
  | DbToggle agent_view
  | DbStart
  | DbInput string
  | DbSend bool int string string
  | DbNext int
  | DbBack
  | DbReset
  | DbRetry int
  | DbRejectOpen
  | DbRejectText string
  | DbReject int
  | DbRejectCancel
  | DbRewrite
  | DbRewriteOk int
  | DbRewriteCancel
  | DbSaveOpen
  | DbSave string string
  | DbSaveCancel
  | DbSaved nat "string reply"
  | DbGoto bool
  | DbFlow flow_action

definition rewrite_confirmed :: "flow_env \<Rightarrow> int \<Rightarrow> debate_page \<Rightarrow> debate_page \<times> debate_page_effect list" where
  "rewrite_confirmed env now s =
     (case dp_confirm s of
        CfAsk feedback \<Rightarrow> with_flow (flow_reject_code env now feedback (dp_flow s)) (s\<lparr>dp_confirm := CfBusy (fl_next (dp_flow s))\<rparr>)
      | _ \<Rightarrow> (s, []))"

definition at_part :: "step_part \<Rightarrow> debate_page \<Rightarrow> bool" where
  "at_part p s \<longleftrightarrow> page_part s = p \<and> \<not> covered s"

definition debate_page_out ::
    "flow_env \<Rightarrow> (string \<Rightarrow> string) \<Rightarrow> debate_page \<Rightarrow> debate_event \<Rightarrow> debate_page \<times> debate_page_effect list" where
  "debate_page_out env enc s a =
     (let fl = dp_flow s; idle = \<not> fl_sending fl; on = (\<lambda>b r. if b then r else (s, []))
      in case a of
        DbAgents defs \<Rightarrow> (s\<lparr>dp_defs := defs\<rparr>, [])
      | DbToggle x \<Rightarrow> on (at_part PartSelect s \<and> x \<in> set (selectable_agents (dp_defs s))) (toggle_agent env x s)
      | DbStart \<Rightarrow> on (at_part PartSelect s) (with_flow (start_flow env fl) s)
      | DbInput x \<Rightarrow> on (at_part PartChat s) (s\<lparr>dp_input := x\<rparr>, [])
      | DbSend enter now uid lid \<Rightarrow> on (at_part PartChat s \<and> (enter \<or> idle)) (handle_chat_send env now uid lid s)
      | DbNext now \<Rightarrow> on (at_part PartChat s \<and> idle) (with_flow (flow_advance env now fl) s)
      | DbBack \<Rightarrow> on (at_part PartCode s \<or> at_part PartChat s \<and> chat_can_back s) (with_flow (flow_back env fl) s)
      | DbReset \<Rightarrow> on (\<not> covered s) (with_flow (flow_reset fl, []) s)
      | DbRetry now \<Rightarrow>
          on (at_part PartCode s \<and> idle \<and> \<not> cv_loading (code_state fl) \<and> code_to_use (code_state fl) = [])
            (with_flow (flow_retry env now fl) s)
      | DbRejectOpen \<Rightarrow> on (at_part PartCode s \<and> can_act s) (s\<lparr>dp_reject_open := True\<rparr>, [])
      | DbRejectText x \<Rightarrow> on (dp_reject_open s) (s\<lparr>dp_reject_text := x\<rparr>, [])
      | DbReject now \<Rightarrow> on (dp_reject_open s) (handle_reject env now s)
      | DbRejectCancel \<Rightarrow> (s\<lparr>dp_reject_open := False\<rparr>, [])
      | DbRewrite \<Rightarrow>
          on (at_part PartCode s \<and> idle \<and> code_violations s \<noteq> [])
            (s\<lparr>dp_confirm := CfAsk (violations_to_feedback (code_violations s))\<rparr>, [])
      | DbRewriteOk now \<Rightarrow> rewrite_confirmed env now s
      | DbRewriteCancel \<Rightarrow> (s\<lparr>dp_confirm := CfClosed\<rparr>, [])
      | DbSaveOpen \<Rightarrow> on (at_part PartCode s \<and> can_save s) (s\<lparr>dp_save_open := True\<rparr>, [])
      | DbSave name description \<Rightarrow> handle_code_save name description s
      | DbSaveCancel \<Rightarrow> (s\<lparr>dp_save_open := False\<rparr>, [])
      | DbSaved n answer \<Rightarrow> save_answered env enc n answer s
      | DbGoto yes \<Rightarrow>
          (case dp_goto s of
             None \<Rightarrow> (s, [])
           | Some p \<Rightarrow> (s\<lparr>dp_goto := None\<rparr>, if yes then [DpNavigate p] else []))
      | DbFlow b \<Rightarrow> on (background b) (with_flow (flow_step env fl b) s))"

definition debate_page_step :: "flow_env \<Rightarrow> (string \<Rightarrow> string) \<Rightarrow> debate_page \<Rightarrow> debate_event \<Rightarrow> debate_page" where
  "debate_page_step env enc s a = fst (debate_page_out env enc s a)"

definition debate_page_shown :: "flow_env \<Rightarrow> (string \<Rightarrow> string) \<Rightarrow> debate_page \<Rightarrow> debate_event \<Rightarrow> debate_page_effect list" where
  "debate_page_shown env enc s a = snd (debate_page_out env enc s a)"

subsection \<open>Saved code\<close>

text \<open>While the dialog for saving is open and the hook is at rest, the code below it is checked.\<close>

definition save_checked :: "debate_page \<Rightarrow> bool" where
  "save_checked s \<longleftrightarrow> (dp_save_open s \<longrightarrow> has_code s \<and> validate_python_sandbox (code_to_use (code_state (dp_flow s))) = [])"

definition undisturbed :: "debate_page \<Rightarrow> debate_event \<Rightarrow> bool" where
  "undisturbed s a \<longleftrightarrow> (case a of DbFlow _ \<Rightarrow> \<not> dp_save_open s | _ \<Rightarrow> True)"

fun all_undisturbed :: "flow_env \<Rightarrow> (string \<Rightarrow> string) \<Rightarrow> debate_page \<Rightarrow> debate_event list \<Rightarrow> bool" where
  "all_undisturbed env enc s [] = True"
| "all_undisturbed env enc s (a # as) = (undisturbed s a \<and> all_undisturbed env enc (debate_page_step env enc s a) as)"

lemma with_flow_save: "dp_save_open (fst (with_flow r s)) \<longrightarrow> dp_save_open s"
  by (auto simp: with_flow_def Let_def leave_part_def settle_confirm_def split: confirm_dialog.split)

lemma checked_fields [simp]:
  "has_code (s\<lparr>dp_input := x\<rparr>) = has_code s" "has_code (s\<lparr>dp_defs := d\<rparr>) = has_code s"
  "has_code (s\<lparr>dp_reject_open := b\<rparr>) = has_code s" "has_code (s\<lparr>dp_reject_text := x\<rparr>) = has_code s"
  "has_code (s\<lparr>dp_confirm := c\<rparr>) = has_code s" "has_code (s\<lparr>dp_save_open := b\<rparr>) = has_code s"
  "has_code (s\<lparr>dp_goto := g\<rparr>) = has_code s" "has_code (s\<lparr>dp_saving := b\<rparr>) = has_code s"
  "has_code (s\<lparr>dp_saves := l\<rparr>) = has_code s" "has_code (s\<lparr>dp_next := n\<rparr>) = has_code s"
  by (simp_all add: has_code_def)

text \<open>An open dialog covers the page, so that no operation of the hook is started under it.\<close>

lemma closed_checked: "\<not> dp_save_open s \<Longrightarrow> save_checked s"
  by (simp add: save_checked_def)

lemma flow_checked: "\<not> dp_save_open s \<Longrightarrow> save_checked (fst (with_flow r s))"
  using with_flow_save [of r s] by (simp add: save_checked_def)

lemma covered_save: "dp_save_open s \<Longrightarrow> \<not> at_part p s"
  by (simp add: at_part_def covered_def)

definition save_inv :: "debate_page \<Rightarrow> bool" where
  "save_inv s \<longleftrightarrow> save_checked s \<and> (dp_save_open s \<longrightarrow> \<not> dp_reject_open s \<and> dp_confirm s = CfClosed)"

lemma save_inv_closed: "\<not> dp_save_open s \<Longrightarrow> save_inv s"
  by (simp add: save_inv_def save_checked_def)

lemma flow_save_closed [simp]: "\<not> dp_save_open s \<Longrightarrow> \<not> dp_save_open (fst (with_flow r s))"
  using with_flow_save by blast

lemma part_save_closed:
  assumes "\<not> dp_save_open s"
  shows "\<not> dp_save_open (fst (handle_chat_send env now uid lid s))" "\<not> dp_save_open (fst (toggle_agent env a s))"
    "\<not> dp_save_open (fst (handle_reject env now s))" "\<not> dp_save_open (fst (rewrite_confirmed env now s))"
    "\<not> dp_save_open (fst (save_answered env enc n answer s))" "\<not> dp_save_open (fst (handle_code_save name description s))"
  using assms
  by (simp_all add: handle_chat_send_def toggle_agent_def handle_reject_def rewrite_confirmed_def save_answered_def handle_code_save_def
      Let_def split_beta split: confirm_dialog.split option.split sum.split thrown.split)

lemma save_inv_answered: "save_inv s \<Longrightarrow> save_inv (fst (save_answered env enc n answer s))"
  by (auto simp: save_answered_def Let_def save_inv_def save_checked_def split: option.split sum.split thrown.split)

lemma save_inv_step:
  assumes "save_inv s" "undisturbed s a"
  shows "save_inv (debate_page_step env enc s a)"
proof (cases "dp_save_open s")
  case True
  then have facts: "\<not> dp_reject_open s" "dp_confirm s = CfClosed" "covered s"
    "has_code s" "validate_python_sandbox (code_to_use (code_state (dp_flow s))) = []"
    using assms(1) by (simp_all add: save_inv_def save_checked_def covered_def)
  show ?thesis
  proof (cases a)
    case (DbSaved n answer)
    then show ?thesis using assms(1) by (simp add: debate_page_step_def debate_page_out_def save_inv_answered)
  next
    case (DbGoto yes)
    then show ?thesis
      using facts by (auto simp: debate_page_step_def debate_page_out_def save_inv_def save_checked_def split: option.split)
  qed (use assms True facts in \<open>simp_all add: debate_page_step_def debate_page_out_def Let_def covered_save undisturbed_def
      rewrite_confirmed_def handle_code_save_def save_inv_def save_checked_def\<close>)
next
  case False
  show ?thesis
  proof (cases "a = DbSaveOpen")
    case True
    then show ?thesis
      using False by (auto simp: debate_page_step_def debate_page_out_def Let_def at_part_def covered_def can_save_def can_act_def
          code_violations_def save_inv_def save_checked_def)
  next
    case other: False
    have "\<not> dp_save_open (debate_page_step env enc s a)"
      using False other
      by (cases a) (simp_all add: debate_page_step_def debate_page_out_def Let_def part_save_closed split: option.split)
    then show ?thesis by (rule save_inv_closed)
  qed
qed

lemma save_inv_run: "save_inv s \<Longrightarrow> all_undisturbed env enc s acts \<Longrightarrow> save_inv (run (debate_page_step env enc) s acts)"
proof (induction acts arbitrary: s)
  case (Cons a acts)
  then show ?case using save_inv_step [of s a env enc] by simp
qed simp

lemma no_create_with_flow: "DpCreate r \<notin> set (snd (with_flow x s))"
  by (auto simp: with_flow_def Let_def)

lemma created_by_save:
  assumes "DpCreate r \<in> set (debate_page_shown env enc s a)"
  shows "\<exists>name description. r = debate_save_request name description s \<and> dp_save_open s \<and> name \<noteq> []"
  using assms no_create_with_flow
  by (cases a) (auto simp: debate_page_shown_def debate_page_out_def Let_def handle_chat_send_def toggle_agent_def handle_reject_def
      rewrite_confirmed_def save_answered_def handle_code_save_def split_beta
      split: if_splits option.splits confirm_dialog.splits sum.splits thrown.splits)

text \<open>
  C19. If no answer changes the code under the dialog, every template that the page saves has code that the check of
  generated code lets through.
\<close>

theorem saved_code_checked:
  fixes env enc acts
  defines "s \<equiv> run (debate_page_step env enc) debate_page_init acts"
  assumes "all_undisturbed env enc debate_page_init acts" "DpCreate r \<in> set (debate_page_shown env enc s a)"
  shows "ct_code r = code_to_use (code_state (dp_flow s)) \<and> validate_python_sandbox (ct_code r) = []"
proof -
  have "save_inv s"
    unfolding s_def using assms(2) by (intro save_inv_run save_inv_closed) (simp_all add: debate_page_init_def)
  with created_by_save [OF assms(3)] show ?thesis
    by (auto simp: save_inv_def save_checked_def debate_save_request_def create_template_def)
qed

text \<open>Text that is entered while something is sent is cleared, and not sent.\<close>

theorem text_lost_while_sending:
  assumes "at_part PartChat s" "fl_sending (dp_flow s)" "js_trim (dp_input s) \<noteq> []" "\<not> looks_like_next_intent (js_trim (dp_input s))"
  shows "debate_page_out env enc s (DbSend True now uid lid) = (settle_confirm (s\<lparr>dp_input := []\<rparr>), [])"
proof -
  have "flow_send_message env now uid lid (js_trim (dp_input s)) (dp_flow s) = (dp_flow s, [])"
    using assms(2) by (simp add: flow_send_message_def Let_def split: option.split)
  then show ?thesis
    using assms by (simp add: debate_page_out_def Let_def handle_chat_send_def with_flow_def page_part_def settle_confirm_def split: confirm_dialog.split)
qed

text \<open>A phrase that asks for the next step is not sent to the model.\<close>

theorem next_intent_not_sent:
  assumes "looks_like_next_intent (js_trim (dp_input s))" "DpFlowEffect e \<in> set (debate_page_shown env enc s (DbSend enter now uid lid))"
  shows "e \<noteq> FlowRequest (DrPrepareChatJob sid body loc)"
  using assms
  by (auto simp: debate_page_shown_def debate_page_out_def Let_def handle_chat_send_def with_flow_def flow_advance_def split_beta
      split: if_splits option.splits)

text \<open>The button of the first step takes a second click before the first is answered: two sessions are started.\<close>

theorem double_click_starts_twice:
  assumes "at_part PartSelect s"
  shows "debate_page_shown env enc s DbStart = debate_page_shown env enc (debate_page_step env enc s DbStart) DbStart \<and>
    debate_page_shown env enc s DbStart \<noteq> []"
proof -
  have step: "session_step (fst (start_flow env fl)) = session_step fl" for fl
    by (simp add: start_flow_def flow_start_task_def session_step_def cong: option.case_cong)
  have part: "page_part (s\<lparr>dp_flow := fst (start_flow env (dp_flow s))\<rparr>) = page_part s"
    using step [of "dp_flow s"] by (simp add: page_part_def current_step_def start_flow_def flow_start_task_def cong: option.case_cong)
  have conf: "dp_confirm s = CfClosed" using assms by (simp add: at_part_def covered_def)
  have step: "debate_page_step env enc s DbStart = s\<lparr>dp_flow := fst (start_flow env (dp_flow s))\<rparr>"
    using assms part conf by (simp add: debate_page_step_def debate_page_out_def Let_def with_flow_def settle_confirm_def)
  have "at_part PartSelect (debate_page_step env enc s DbStart)"
    using assms part by (simp add: step at_part_def covered_def)
  then show ?thesis
    using assms by (simp add: debate_page_shown_def debate_page_out_def Let_def with_flow_def step start_flow_def flow_start_task_def)
qed

text \<open>A name of blanks passes the rule of the form, and the template is created without a name.\<close>

theorem blank_name_saved:
  assumes "dp_save_open s" "\<not> dp_saving s"
  shows "debate_page_shown env enc s (DbSave '' '' description) = [DpCreate (debate_save_request '' '' description s)] \<and>
    ct_name (debate_save_request '' '' description s) = []"
  using assms by (simp add: debate_page_shown_def debate_page_out_def Let_def handle_code_save_def debate_save_request_def create_template_def js_trim_def js_ws_def)

subsection \<open>The chosen experts\<close>

definition chosen_ok :: "agent_view list \<Rightarrow> bool" where
  "chosen_ok as \<longleftrightarrow> distinct (List.map agent_key_of as) \<and> (\<forall>a \<in> set as. agv_enabled a \<and> agv_type a \<noteq> ''code'')"

lemma chosen_kept:
  "fl_selected (fst (flow_start_task k s, x)) = fl_selected s"
  by (simp add: flow_start_task_def)

lemma flags_selected [simp]: "fl_selected (finish_flags op s) = fl_selected s"
  by (cases op) (simp_all add: end_model_wait_def)

lemma task_selected [simp]:
  "fl_selected (flow_start_task k s) = fl_selected s" "fl_selected (flow_end_task n s) = fl_selected s"
  "fl_selected (flow_move_task n k s) = fl_selected s" "fl_selected (begin_model_wait now s) = fl_selected s"
  "fl_selected (finish_op n op s) = fl_selected s"
  by (simp_all add: flow_task_defs begin_model_wait_def finish_op_def)

lemma resume_selected: "fl_selected (fst (flow_resume env n k a s)) = fl_selected s"
  by (auto simp: flow_resume_def flow_started_def back_answered_def job_started_def chat_job_run_def job_waited_def refreshed_def
      op_failed_def resynced_def retry_read_def retry_back_def retry_reread_def Let_def
      split: flow_task.split flow_answer.split sum.split option.split)

lemma operation_selected [simp]:
  "fl_selected (fst (flow_advance env now s)) = fl_selected s" "fl_selected (fst (flow_send_message env now uid lid x s)) = fl_selected s"
  "fl_selected (fst (flow_reject_code env now x s)) = fl_selected s" "fl_selected (fst (flow_retry env now s)) = fl_selected s"
  "fl_selected (fst (flow_back env s)) = fl_selected s" "fl_selected (fst (start_flow env s)) = fl_selected s"
  by (auto simp: flow_advance_def flow_send_message_def flow_reject_code_def flow_retry_def flow_back_def start_flow_def Let_def
      split: option.split)

lemma background_selected: "background b \<Longrightarrow> fl_selected (fst (flow_step env s b)) = fl_selected s"
  by (cases b) (auto simp: wait_tick_def stream_chunk_def wait_done_def job_waited_def op_failed_def resume_selected Let_def
      split: option.split flow_task.split sum.split)

lemma with_flow_selected:
  "fl_selected (dp_flow (fst (with_flow r s))) = fl_selected (fst r)" "dp_defs (fst (with_flow r s)) = dp_defs s"
  by (auto simp: with_flow_def Let_def settle_confirm_def leave_part_def split: confirm_dialog.split)

definition chosen_state :: "debate_page \<Rightarrow> bool" where
  "chosen_state s \<longleftrightarrow> chosen_ok (fl_selected (dp_flow s))"

lemma chosen_toggle:
  assumes "chosen_state s" "agv_type a \<noteq> ''code''"
  shows "chosen_state (fst (toggle_agent env a s))"
proof -
  have "chosen_ok (filter (\<lambda>x. agent_key_of x \<noteq> agent_key_of a) (fl_selected (dp_flow s)))"
    using assms(1) by (auto simp: chosen_state_def chosen_ok_def distinct_map_filter)
  moreover have "chosen_ok (fl_selected (dp_flow s) @ [a])"
    if "agv_enabled a" "agent_key_of a \<notin> agent_key_of ` set (fl_selected (dp_flow s))"
    using assms that by (auto simp: chosen_state_def chosen_ok_def)
  ultimately show ?thesis
    using assms(1) by (auto simp: toggle_agent_def Let_def chosen_state_def with_flow_selected set_selected_agents_def)
qed

lemma chosen_step:
  assumes "chosen_state s"
  shows "chosen_state (debate_page_step env enc s a)"
proof (cases a)
  case (DbToggle x)
  then show ?thesis
    using assms chosen_toggle [OF assms, of x env] by (auto simp: debate_page_step_def debate_page_out_def selectable_agents_def)
next
  case DbReset
  then show ?thesis
    using assms by (auto simp: debate_page_step_def debate_page_out_def Let_def chosen_state_def with_flow_selected flow_reset_def end_model_wait_def
        chosen_ok_def)
next
  case (DbSaved n answer)
  then show ?thesis
    using assms by (auto simp: debate_page_step_def debate_page_out_def save_answered_def Let_def chosen_state_def
        split: option.split sum.split thrown.split)
qed (use assms in \<open>auto simp: debate_page_step_def debate_page_out_def Let_def chosen_state_def with_flow_selected background_selected
    handle_chat_send_def handle_reject_def rewrite_confirmed_def handle_code_save_def split_beta split: option.split confirm_dialog.split\<close>)

interpretation debate_page: machine debate_page_init "debate_page_step env enc" chosen_state
  by unfold_locales (simp add: chosen_state_def chosen_ok_def debate_page_init_def flow_init_def, rule chosen_step)

text \<open>
  The experts of a session are enabled ones, none of them twice, in the order of the choice, and never the one that
  writes the code.
\<close>

theorem chosen_experts:
  fixes env enc acts
  defines "s \<equiv> run (debate_page_step env enc) debate_page_init acts"
  assumes "DpFlowEffect (FlowRequest (DrStart keys title loc)) \<in> set (debate_page_shown env enc s DbStart)"
  shows "distinct keys \<and> keys = List.map agent_key_of (fl_selected (dp_flow s)) \<and>
    (\<forall>a \<in> set (fl_selected (dp_flow s)). agv_enabled a \<and> agv_type a \<noteq> ''code'')"
proof -
  have "chosen_state s" unfolding s_def by (rule debate_page.inv_run)
  then show ?thesis
    using assms(2) by (auto simp: debate_page_shown_def debate_page_out_def Let_def with_flow_def start_flow_def chosen_state_def chosen_ok_def
        split: if_splits)
qed

subsection \<open>Examples\<close>

definition demo_debate_env :: flow_env where
  "demo_debate_env = \<lparr>fe_t = (\<lambda>k. k), fe_ti = (\<lambda>k vs. k), fe_language = ''en''\<rparr>"

definition demo_debate :: "string \<Rightarrow> string \<Rightarrow> debate_session reply" where
  "demo_debate step code = Inr \<lparr>se_id = ''s1'', se_title = [], se_status = [], se_current_step = step, se_agents = [],
     se_steps = [], se_param_schema = [], se_code = Some \<lparr>dc_text = [], dc_python = code\<rparr>, se_provider = None,
     se_model = None, se_usage = None, se_created_at = [], se_updated_at = []\<rparr>"

definition demo_job :: "job_ref reply" where
  "demo_job = Inr \<lparr>jr_job_id = ''j'', jr_session_id = ''s1''\<rparr>"

text \<open>Opening the dialog for saving over code that is accepted.\<close>

lemma open_over_accepted:
  assumes "(page_part s, covered s, code_to_use (code_state (dp_flow s)), cv_loading (code_state (dp_flow s)), fl_sending (dp_flow s)) =
      (PartCode, False, demo_code, False, False)"
  shows "debate_page_step env enc s DbSaveOpen = s\<lparr>dp_save_open := True\<rparr>"
proof -
  have "demo_code \<noteq> []" by (simp add: demo_code_def)
  then show ?thesis
    using assms demo_code_accepted
    by (simp add: debate_page_step_def debate_page_out_def Let_def at_part_def can_save_def can_act_def has_code_def code_violations_def)
qed

definition demo_saving :: "debate_event list" where
  "demo_saving = [DbStart, DbFlow (FlowAnswer 0 (FaSession (demo_debate ''code'' demo_code)))]"

abbreviation demo_run :: "debate_event list \<Rightarrow> debate_page" where
  "demo_run acts \<equiv> run (debate_page_step demo_debate_env id) debate_page_init acts"

lemma demo_saving_open: "demo_run (demo_saving @ [DbSaveOpen]) = (demo_run demo_saving)\<lparr>dp_save_open := True\<rparr>"
proof -
  have "(page_part (demo_run demo_saving), covered (demo_run demo_saving), code_to_use (code_state (dp_flow (demo_run demo_saving))),
      cv_loading (code_state (dp_flow (demo_run demo_saving))), fl_sending (dp_flow (demo_run demo_saving))) =
    (PartCode, False, demo_code, False, False)" by code_simp
  from open_over_accepted [OF this] show ?thesis by (simp add: run_append)
qed

lemma undisturbed_append:
  "all_undisturbed env enc s (as @ bs) \<longleftrightarrow>
     all_undisturbed env enc s as \<and> all_undisturbed env enc (run (debate_page_step env enc) s as) bs"
  by (induction as arbitrary: s) simp_all

lemma saved_code_checked_witness:
  "validate_python_sandbox (ct_code (debate_save_request ''n'' [] (demo_run (demo_saving @ [DbSaveOpen])))) = []"
proof -
  have "all_undisturbed demo_debate_env id debate_page_init demo_saving" by code_simp
  then have calm: "all_undisturbed demo_debate_env id debate_page_init (demo_saving @ [DbSaveOpen])"
    by (simp add: undisturbed_append undisturbed_def)
  have "\<not> dp_saving (demo_run demo_saving)" by code_simp
  then have "DpCreate (debate_save_request ''n'' [] (demo_run (demo_saving @ [DbSaveOpen]))) \<in>
      set (debate_page_shown demo_debate_env id (demo_run (demo_saving @ [DbSaveOpen])) (DbSave ''n'' []))"
    by (simp add: demo_saving_open debate_page_shown_def debate_page_out_def Let_def handle_code_save_def del: run_append)
  from saved_code_checked [OF calm this] show ?thesis by (rule conjunct2)
qed

text \<open>
  Going back while the code is written again leaves its regeneration running: its answer replaces the code under the
  dialog, and what is saved was never checked.
\<close>

definition demo_overlap :: "debate_event list" where
  "demo_overlap = demo_saving @
     [DbRejectOpen, DbRejectText ''shorter'', DbReject 0, DbFlow (FlowAnswer 1 (FaJob demo_job)),
      DbBack, DbFlow (FlowAnswer 2 (FaSession (demo_debate ''intent'' []))),
      DbNext 0, DbFlow (FlowAnswer 3 (FaJob demo_job)), DbFlow (FlowWaitDone 3 (Inr ())),
      DbFlow (FlowAnswer 3 (FaSession (demo_debate ''code'' demo_code)))]"

definition demo_late_code :: "debate_event list" where
  "demo_late_code = [DbFlow (FlowWaitDone 1 (Inr ())), DbFlow (FlowAnswer 1 (FaSession (demo_debate ''code'' ''import os'')))]"

lemma demo_overlap_open:
  "(dp_save_open (demo_run (demo_overlap @ DbSaveOpen # demo_late_code)), dp_saving (demo_run (demo_overlap @ DbSaveOpen # demo_late_code)),
    code_to_use (code_state (dp_flow (demo_run (demo_overlap @ DbSaveOpen # demo_late_code))))) = (True, False, ''import os'')"
proof -
  have "(page_part (demo_run demo_overlap), covered (demo_run demo_overlap), code_to_use (code_state (dp_flow (demo_run demo_overlap))),
      cv_loading (code_state (dp_flow (demo_run demo_overlap))), fl_sending (dp_flow (demo_run demo_overlap))) =
    (PartCode, False, demo_code, False, False)" by code_simp
  from open_over_accepted [OF this]
  have "demo_run (demo_overlap @ DbSaveOpen # demo_late_code) =
      run (debate_page_step demo_debate_env id) ((demo_run demo_overlap)\<lparr>dp_save_open := True\<rparr>) demo_late_code"
    by (simp add: run_append)
  moreover have "(\<lambda>s. (dp_save_open s, dp_saving s, code_to_use (code_state (dp_flow s))))
      (run (debate_page_step demo_debate_env id) ((demo_run demo_overlap)\<lparr>dp_save_open := True\<rparr>) demo_late_code) =
    (True, False, ''import os'')" by code_simp
  ultimately show ?thesis by simp
qed

theorem unchecked_code_saved:
  "debate_page_shown demo_debate_env id (demo_run (demo_overlap @ DbSaveOpen # demo_late_code)) (DbSave ''n'' []) =
     [DpCreate (debate_save_request ''n'' [] (demo_run (demo_overlap @ DbSaveOpen # demo_late_code)))] \<and>
   ct_code (debate_save_request ''n'' [] (demo_run (demo_overlap @ DbSaveOpen # demo_late_code))) = ''import os'' \<and>
   validate_python_sandbox ''import os'' \<noteq> []"
proof -
  have "validate_python_sandbox ''import os'' \<noteq> []" by code_simp
  then show ?thesis
    using demo_overlap_open
    by (simp add: debate_page_shown_def debate_page_out_def Let_def handle_code_save_def debate_save_request_def create_template_def
        del: run_append)
qed

lemma next_phrases:
  "looks_like_next_intent ''Next step!''" "looks_like_next_intent '' OK. ''" "looks_like_next_intent (hx ''E4B88BE4B880E6ADA5E38082'')"
  "\<not> looks_like_next_intent ''next week, use RSI''"
  by code_simp+

end
