(* ===== verification/Spec2Isabelle.thy ===== *)
theory Spec2Isabelle
  imports TradingStore AccountStore ErrorText PriceFormat Language NotificationStore Transport Session
    AdminAccounts AgentStore StreamRetry SharedStreams DebateJob ProviderEvents ProfitStream
    ProviderConnect TradingHook AiSending DebateRuns ScheduleForm StrategyRuns WatchRun TemplateRuns
    ScheduleSaving SchedulePage ScheduleHealth TemplateLaunch SystemAiRuns BindAccount ScheduleLogs
    LogManagement AnalyticsPage AdminConfig AdminUsers AgentSettings Routes
    AccountPage AccountViews CodePanels DebatePage
begin

text \<open>
  Verification of the AntTrader web client (\<open>src/frontend/src\<close>).

  The client is a TypeScript program on React: stores hold the state, hooks and a provider fill them from
  the answers and streams of a remote server, pages show them.  Every theory models one part; the names
  of the definitions are those of the code in lower case with underscores.  The paths below are relative
  to \<open>src/frontend/src\<close>.

  \<^bold>\<open>The language.\<close>  \<open>Prelude\<close> has the values of JavaScript (\<open>jv\<close>: objects are association lists in the
  order of their keys), field reads and writes, truthiness, strings as byte lists in UTF-8, and runs of
  deterministic machines with the locales \<open>machine\<close>, \<open>latched_machine\<close> and \<open>throttled\<close>.  \<open>JsNumber\<close>
  and \<open>Decimal\<close> convert numbers and strings, \<open>Json\<close> parses and prints JSON.  Numbers are exact
  rationals with \<open>NaN\<close> and the infinities: rounding errors of binary fractions are not modelled, and
  integers of the code that need 64 bits (\<open>bigint\<close>) are unbounded as they are there.  \<open>Effects\<close> has the
  outcomes of remote calls and the messages to the user, \<open>RowTable\<close> and \<open>TaskTable\<close> the interfaces
  of tables of rows and of operations in flight, \<open>LatestAnswer\<close> that of a page that asks again and drops the
  answers of the requests before.

  \<^bold>\<open>Effects.\<close>  A remote call is a request and, later, an answer; the answer is an argument (\<open>Inl e\<close>
  where the call throws \<open>e\<close>).  Where an operation is only looked at as a whole, its outcomes are the
  arguments of one definition; where operations overlap, an operation is a task in a table, and a step
  function resumes the task that an answer is for, so that every interleaving is a list of steps.
  Timers and streams are part of the state in the same way.  React runs an effect and the microtasks it
  queues before anything else happens, and so do the models.  The server, the transport library, the
  translation function, the clock and the storage of the browser are arguments of the definitions.

  \<^bold>\<open>Data, sessions and stores.\<close>
  \<^item> \<open>DataAdapter\<close> (\<open>adapters/dataAdapter.ts\<close>): renaming of fields between the two conventions, its
    normal forms and its inverse on them.
  \<^item> \<open>TradingStore\<close> (\<open>stores/tradingStore.ts\<close>), \<open>TradingHook\<close> (\<open>hooks/useTrading.ts\<close>,
    \<open>client/trading.ts\<close>): rows of positions per account and their mirror, what a snapshot does to rows
    that the stream keeps fresh, order operations and the cooldown between reconnects.
  \<^item> \<open>AccountStore\<close> (\<open>stores/accountStore.ts\<close>, \<open>hooks/useAccount.ts\<close>): the accounts and the
    operations of the hook; those that switch an account on and off are in \<open>AccountPage\<close>.
    \<open>BindAccount\<close> (\<open>pages/accounts/BindAccount.tsx\<close>, \<open>client/account.ts\<close>): the wizard that binds an account, from the search of a broker to the request, and the detail of a failure
    (\<open>utils/llmTranslate.ts\<close>).
  \<^item> \<open>Session\<close> (\<open>stores/authStore.ts\<close>, \<open>hooks/useAuth.ts\<close>), \<open>Transport\<close> (\<open>client/transport.ts\<close>): tokens in
    memory and in the storage, the header of a request, notices about failures and their spacing.
  \<^item> \<open>Routes\<close> (\<open>App.tsx\<close>, \<open>pages/auth\<close>, \<open>components/layout\<close>, \<open>pages/ai/AIAssistantLayout.tsx\<close>,
    \<open>pages/ai/components/RequireAIConfig.tsx\<close>): the table of routes with its guards, login, registration and
    logout, the menus.  Which route an address matches is the choice of the router library: the locale \<open>router\<close>
    says what the pages rely on, and its interpretation shows that the order of the table satisfies it.
  \<^item> \<open>AccountPage\<close>, \<open>AccountViews\<close> (\<open>pages/accounts/AccountDetail.tsx\<close> and \<open>pages/accounts/components\<close>): the
    page of an account over the account store, with every operation and its answers as tasks, and what it shows:
    rows, figures, the data of the charts, the card of the monthly analysis.
  \<^item> \<open>NotificationStore\<close>, \<open>AgentStore\<close>, \<open>Language\<close>, \<open>PriceFormat\<close>, \<open>ErrorText\<close>: the stores and
    utilities of those names (\<open>stores/notificationStore.ts\<close>, \<open>pages/ai/agentStore.ts\<close>, \<open>i18n/index.ts\<close>,
    \<open>utils\<close>).

  \<^bold>\<open>Streams.\<close>
  \<^item> \<open>StreamRetry\<close> and \<open>SharedStreams\<close> (\<open>client/stream.ts\<close>): reconnecting streams as machines with retry
    counts and timers, and the streams that all subscribers of an account share.
  \<^item> \<open>ProviderConnect\<close>, \<open>ProviderEvents\<close>, \<open>ProfitStream\<close> (\<open>providers/ConnectProvider.tsx\<close>): when the
    provider opens and closes streams, what events do to the stores, and the collection of profit events.
  \<^item> \<open>DebateJob\<close> (\<open>client/debateV2.ts\<close>): the wait for a background job over streams, reconnects and reads.

  \<^bold>\<open>Assistants.\<close>
  \<^item> \<open>AiError\<close> and \<open>AiClient\<close> (\<open>client/ai.ts\<close>): texts of provider failures, requests, views and the
    streamed chat.  \<open>AiStore\<close> (\<open>stores/aiStore.ts\<close>) has the chat store with its operations as tasks and
    its invariant, \<open>AiSending\<close> whole runs: a send that completes, its failures, and overlaps.
  \<^item> \<open>DebateApi\<close> (the other calls of \<open>client/debateV2.ts\<close>), \<open>DebateFlow\<close>
    (\<open>pages/ai/debate/flow/useDebateFlow.ts\<close>) with its invariant, \<open>DebateRuns\<close> with whole advances, the
    bound on the answers that an operation consumes, and operations that overlap.  \<open>DebatePage\<close>
    (\<open>pages/ai/debate/DebatePageV2.tsx\<close>, \<open>DebatePageV2Steps.tsx\<close>) is the page over the hook: the choice of the
    experts, the chat, the code with its check, its rejection and its saving.
  \<^item> \<open>CodeValidator\<close> (\<open>pages/ai/debate/flow/codeValidator.ts\<close>): the check of generated Python code.
  \<^item> \<open>SystemAi\<close>, \<open>SystemAiRuns\<close> (\<open>pages/ai/systemai\<close>): the settings of the AI providers.  The timers that
    save a key, look up models and check the connection start and stop with the dependencies of their
    effects, and keep the draft that they started with.

  \<^bold>\<open>Strategies and backtests.\<close>
  \<^item> \<open>StrategyClient\<close> (\<open>client/strategy.ts\<close>, \<open>client/pythonStrategy.ts\<close>): requests and answers.
  \<^item> \<open>ScheduleForm\<close> (\<open>pages/strategy/StrategyScheduleParams.ts\<close>): the launch and edit forms of a
    schedule, and the round trip between them.
  \<^item> \<open>StrategyPages\<close> and \<open>StrategyRuns\<close> (\<open>StrategyTemplatePage.utils.ts\<close>,
    \<open>StrategyTemplatePage.schedule.ts\<close>, \<open>backtestParamInjection.ts\<close> in \<open>pages/strategy\<close>,
    \<open>utils/strategyValidation.ts\<close>): scores, titles of runs, schedules from runs, injected parameters.
  \<^item> \<open>WatchRun\<close> (\<open>hooks/useWatchBacktestRun.ts\<close>): one watched run, with the effects of the hook and the
    flag and timer that they share.  \<open>TemplateRuns\<close>
    (\<open>pages/strategy/hooks/useStrategyTemplateRuns.ts\<close>): the list of runs and its streams.
  \<^item> \<open>ScheduleSymbols\<close>, \<open>ScheduleEdit\<close>, \<open>ScheduleSaving\<close>, \<open>SchedulePage\<close>, \<open>ScheduleHealth\<close>
    (\<open>pages/strategy/StrategySchedulePage.tsx\<close> and its dialogs in \<open>pages/strategy/components\<close>): the form of
    a schedule, what saving it stores and what opening it again shows; symbols, templates and the run by
    hand that may send an order; the table and the health panel.
  \<^item> \<open>CodePanels\<close> (\<open>components/strategy/CodeAssist.tsx\<close>, \<open>components/strategy/BacktestRunDrawer.tsx\<close>): the form
    of the parameters of a strategy, the explanation and the revision of its code, the trades of a finished run.
  \<^item> \<open>TemplateEdit\<close>, \<open>TemplateLaunch\<close> (\<open>pages/strategy/StrategyTemplatePage.tsx\<close>,
    \<open>StrategyTemplateScheduleLaunchModal.tsx\<close>, \<open>StrategyTemplateScheduleLaunchForm.tsx\<close>): templates and
    their validation, backtests and their parameters, publishing a draft, the trade permission of the
    account that a schedule is launched for.

  \<^bold>\<open>Logs, analytics and administration.\<close>  Each page is a machine whose events are what the user does and the
  answers of the service; the requests in flight are tasks in a table.
  \<^item> \<open>ScheduleLogs\<close> (\<open>pages/strategy/StrategyScheduleLogsPage.tsx\<close>), \<open>LogManagement\<close>
    (\<open>pages/logs/LogManagement.tsx\<close>), both with \<open>client/log.ts\<close>: pages, tabs and filters, and which rows
    are shown once nothing is outstanding.
  \<^item> \<open>AnalyticsPage\<close> (\<open>pages/analytics\<close>, \<open>client/analytics.ts\<close>): the chosen account, the calendar of
    the language, and the data of the charts.
  \<^item> \<open>AdminAccounts\<close> (\<open>stores/adminAccountStore.ts\<close>), \<open>AdminConfig\<close>, \<open>AdminUsers\<close>
    (\<open>pages/admin/SystemConfig.tsx\<close>, \<open>pages/admin/UserManagement.tsx\<close>, \<open>client/admin.ts\<close>): the cached
    list of accounts, the system configuration with its checks, the users with their dialogs.
  \<^item> \<open>AgentSettings\<close> (\<open>pages/ai/AISettings.tsx\<close>, \<open>pages/ai/defaultAgentTemplates.ts\<close>): the agents of the
    user and the restoring of the built-in ones.

  \<^bold>\<open>What the lemmas show.\<close>  Invariants of all reachable states come from interpretations of \<open>machine\<close> on
  the step functions of the models, spacing in time from \<open>throttled\<close>, promises that settle once from
  \<open>latched_machine\<close>.  The functional theorems describe whole operations on every branch, failures
  included.  The wait for a job and the operations of the debate page are bounded by measures on their
  states; no definition needs fuel except where a comment says which bound it has.  Theorems about
  interleavings that go wrong state what the code does, not what it should do.

  \<^bold>\<open>Not modelled.\<close>  The rendering of page components and dialogs with a component library, of which only
  the handlers and the rules of the forms are modelled; the
  tables of translated texts; generated protocol clients; the Go backend and the Python strategy service,
  which are other programs; formatters that only call the \<open>Intl\<close> library.  Of regular expressions only
  those that the code uses are modelled, each as a function of its own.
\<close>

end
